(* ===== verification/Motte_Prelude.thy ===== *)
theory Motte_Prelude
  imports Complex_Main "HOL-Library.AList" "HOL-Library.Char_ord" "HOL-Library.List_Lexorder"
begin

text \<open>
  Shared vocabulary of the development: stateful operations that may raise, insertion-ordered
  dictionaries, and the lemma collections the component theories extend.

  \<^item> \<open>('s, 'e, 'a) sop\<close> is an operation on a state \<open>'s\<close> that either returns a value or raises an
    exception, and that leaves a state behind in both cases.  A Python method that mutates
    \<open>self\<close> before it raises is modelled faithfully: atomicity is a theorem, not a
    consequence of the type.
  \<^item> \<open>transaction\<close> is the commit-or-roll-back context manager of \<^verbatim>\<open>sqlite3.Connection\<close>.
  \<^item> a Python \<^verbatim>\<open>dict\<close> is an association list in insertion order; \<open>AList.update\<close> overwrites an
    existing key in place and appends a new one, as assignment does.
\<close>

section \<open>Lemma collections\<close>

named_theorems sop_simps \<open>evaluation of the operation combinators\<close>
named_theorems sop_Inr \<open>what a normal return of an operation says\<close>
named_theorems atomic_intros \<open>composition rules for operations that change nothing when they raise\<close>
named_theorems keeps_intros \<open>composition rules for invariant preservation\<close>
named_theorems dict_simps \<open>lookup after dictionary updates\<close>

section \<open>Operations that may raise\<close>

type_synonym ('s, 'e, 'a) sop = "'s \<Rightarrow> ('e + 'a) \<times> 's"

definition st_return :: "'a \<Rightarrow> ('s, 'e, 'a) sop" where
  "st_return x s = (Inr x, s)"

definition st_raise :: "'e \<Rightarrow> ('s, 'e, 'a) sop" where
  "st_raise e s = (Inl e, s)"

definition st_bind :: "('s, 'e, 'a) sop \<Rightarrow> ('a \<Rightarrow> ('s, 'e, 'b) sop) \<Rightarrow> ('s, 'e, 'b) sop" where
  "st_bind m f s = (case m s of (Inl e, s') \<Rightarrow> (Inl e, s') | (Inr x, s') \<Rightarrow> f x s')"

definition st_get :: "('s \<Rightarrow> 'a) \<Rightarrow> ('s, 'e, 'a) sop" where
  "st_get f s = (Inr (f s), s)"

definition st_modify :: "('s \<Rightarrow> 's) \<Rightarrow> ('s, 'e, unit) sop" where
  "st_modify f s = (Inr (), f s)"

definition st_lift :: "'e + 'a \<Rightarrow> ('s, 'e, 'a) sop" where
  "st_lift r s = (r, s)"

definition st_guard :: "bool \<Rightarrow> 'e \<Rightarrow> ('s, 'e, unit) sop" where
  "st_guard b e = (if b then st_return () else st_raise e)"

text \<open>\<open>try: m; except: h\<close>: the handler runs in the state the body left behind.\<close>

definition st_catch :: "('s, 'e, 'a) sop \<Rightarrow> ('e \<Rightarrow> ('s, 'e, 'a) sop) \<Rightarrow> ('s, 'e, 'a) sop" where
  "st_catch m h s = (case m s of (Inl e, s') \<Rightarrow> h e s' | (Inr x, s') \<Rightarrow> (Inr x, s'))"

text \<open>\<open>with connection:\<close> commits on a normal exit and rolls back when the body raises.\<close>

definition transaction :: "('s, 'e, 'a) sop \<Rightarrow> ('s, 'e, 'a) sop" where
  "transaction m s = (case m s of (Inl e, s') \<Rightarrow> (Inl e, s) | (Inr x, s') \<Rightarrow> (Inr x, s'))"

fun st_iter :: "('x \<Rightarrow> ('s, 'e, unit) sop) \<Rightarrow> 'x list \<Rightarrow> ('s, 'e, unit) sop" where
  "st_iter f [] = st_return ()"
| "st_iter f (x # xs) = st_bind (f x) (\<lambda>_. st_iter f xs)"

fun st_map :: "('x \<Rightarrow> ('s, 'e, 'y) sop) \<Rightarrow> 'x list \<Rightarrow> ('s, 'e, 'y list) sop" where
  "st_map f [] = st_return []"
| "st_map f (x # xs) = st_bind (f x) (\<lambda>y. st_bind (st_map f xs) (\<lambda>ys. st_return (y # ys)))"

lemma st_return_run [sop_simps]: "st_return x s = (Inr x, s)"
  by (simp add: st_return_def)

lemma st_raise_run [sop_simps]: "st_raise e s = (Inl e, s)"
  by (simp add: st_raise_def)

lemma st_get_run [sop_simps]: "st_get f s = (Inr (f s), s)"
  by (simp add: st_get_def)

lemma st_modify_run [sop_simps]: "st_modify f s = (Inr (), f s)"
  by (simp add: st_modify_def)

lemma st_lift_run [sop_simps]: "st_lift r s = (r, s)"
  by (simp add: st_lift_def)

lemma st_guard_run [sop_simps]: "st_guard b e s = (if b then (Inr (), s) else (Inl e, s))"
  by (simp add: st_guard_def sop_simps)

lemma st_bind_Inr [sop_Inr]:
  "st_bind m f s = (Inr y, t) \<longleftrightarrow> (\<exists>x s'. m s = (Inr x, s') \<and> f x s' = (Inr y, t))"
  by (auto simp: st_bind_def split: prod.splits sum.splits)

lemma st_return_Inr [sop_Inr]: "st_return x s = (Inr y, t) \<longleftrightarrow> y = x \<and> t = s"
  by (auto simp: st_return_def)

lemma st_raise_Inr [sop_Inr]: "st_raise e s = (Inr y, t) \<longleftrightarrow> False"
  by (simp add: st_raise_def)

lemma st_get_Inr [sop_Inr]: "st_get g s = (Inr y, t) \<longleftrightarrow> y = g s \<and> t = s"
  by (auto simp: st_get_def)

lemma st_lift_Inr [sop_Inr]: "st_lift r s = (Inr y, t) \<longleftrightarrow> r = Inr y \<and> t = s"
  by (auto simp: st_lift_def)

lemma st_modify_Inr [sop_Inr]: "st_modify g s = (Inr y, t) \<longleftrightarrow> t = g s"
  by (auto simp: st_modify_def)

lemma transaction_Inr [sop_Inr]: "transaction m s = (Inr y, t) \<longleftrightarrow> m s = (Inr y, t)"
  by (auto simp: transaction_def split: prod.splits sum.splits)

lemma if_Inr [sop_Inr]:
  "(if b then m else n) s = (Inr y, t) \<longleftrightarrow> (b \<and> m s = (Inr y, t)) \<or> (\<not> b \<and> n s = (Inr y, t))"
  by simp

lemma option_Inr [sop_Inr]:
  "(case r of None \<Rightarrow> m | Some x \<Rightarrow> f x) s = (Inr y, t) \<longleftrightarrow>
     (r = None \<and> m s = (Inr y, t)) \<or> (\<exists>x. r = Some x \<and> f x s = (Inr y, t))"
  by (cases r) simp_all

lemmas sop_defs = st_bind_def st_catch_def transaction_def

section \<open>Pure results\<close>

definition res_bind :: "'e + 'a \<Rightarrow> ('a \<Rightarrow> 'e + 'b) \<Rightarrow> 'e + 'b" where
  "res_bind r f = (case r of Inl e \<Rightarrow> Inl e | Inr x \<Rightarrow> f x)"

lemma res_bind_simps [simp]: "res_bind (Inl e) f = Inl e" "res_bind (Inr x) f = f x"
  by (simp_all add: res_bind_def)

lemma res_bind_Inr: "res_bind r f = Inr y \<longleftrightarrow> (\<exists>x. r = Inr x \<and> f x = Inr y)"
  by (cases r) simp_all

fun res_map :: "('x \<Rightarrow> 'e + 'y) \<Rightarrow> 'x list \<Rightarrow> 'e + 'y list" where
  "res_map f [] = Inr []"
| "res_map f (x # xs) = res_bind (f x) (\<lambda>y. res_bind (res_map f xs) (\<lambda>ys. Inr (y # ys)))"

lemma res_map_Inr: "res_map f xs = Inr ys \<longleftrightarrow> list_all2 (\<lambda>x y. f x = Inr y) xs ys"
proof (induction xs arbitrary: ys)
  case (Cons x xs)
  then show ?case by (cases ys) (auto simp: res_bind_Inr)
qed auto

lemma map_sum_Inr_iff: "map_sum id f x = Inr y \<longleftrightarrow> (\<exists>z. x = Inr z \<and> f z = y)"
  by (cases x) auto

lemma map_sum_Inl_iff: "map_sum id f x = Inl e \<longleftrightarrow> x = Inl e"
  by (cases x) auto

section \<open>Preservation of state predicates\<close>

text \<open>
  \<open>keeps P m\<close>: whatever \<open>m\<close> does, also when it raises, it leads from a state satisfying \<open>P\<close> to
  one satisfying \<open>P\<close>.  The rules compose it along the combinators, so that an
  invariant of a long handler is proved by \<open>(intro keeps_intros)\<close> and one goal per primitive step.
\<close>

definition keeps :: "('s \<Rightarrow> bool) \<Rightarrow> ('s, 'e, 'a) sop \<Rightarrow> bool" where
  "keeps P m \<longleftrightarrow> (\<forall>s. P s \<longrightarrow> P (snd (m s)))"

lemma keepsI: "(\<And>s. P s \<Longrightarrow> P (snd (m s))) \<Longrightarrow> keeps P m"
  by (simp add: keeps_def)

lemma keepsD: "keeps P m \<Longrightarrow> P s \<Longrightarrow> P (snd (m s))"
  by (simp add: keeps_def)

lemma keeps_return [keeps_intros]: "keeps P (st_return x)"
  by (simp add: keeps_def sop_simps)

lemma keeps_raise [keeps_intros]: "keeps P (st_raise e)"
  by (simp add: keeps_def sop_simps)

lemma keeps_get [keeps_intros]: "keeps P (st_get f)"
  by (simp add: keeps_def sop_simps)

lemma keeps_lift [keeps_intros]: "keeps P (st_lift r)"
  by (simp add: keeps_def sop_simps)

lemma keeps_guard [keeps_intros]: "keeps P (st_guard b e)"
  by (simp add: keeps_def sop_simps)

lemma keeps_modify [keeps_intros]: "(\<And>s. P s \<Longrightarrow> P (f s)) \<Longrightarrow> keeps P (st_modify f)"
  by (simp add: keeps_def sop_simps)

lemma keeps_bind [keeps_intros]:
  "keeps P m \<Longrightarrow> (\<And>x. keeps P (f x)) \<Longrightarrow> keeps P (st_bind m f)"
  by (fastforce simp: keeps_def st_bind_def split: prod.splits sum.splits)

lemma keeps_catch [keeps_intros]:
  "keeps P m \<Longrightarrow> (\<And>e. keeps P (h e)) \<Longrightarrow> keeps P (st_catch m h)"
  by (fastforce simp: keeps_def st_catch_def split: prod.splits sum.splits)

lemma keeps_transaction [keeps_intros]: "keeps P m \<Longrightarrow> keeps P (transaction m)"
  by (fastforce simp: keeps_def transaction_def split: prod.splits sum.splits)

lemma keeps_if [keeps_intros]:
  "(b \<Longrightarrow> keeps P m) \<Longrightarrow> (\<not> b \<Longrightarrow> keeps P n) \<Longrightarrow> keeps P (if b then m else n)"
  by simp

lemma keeps_option [keeps_intros]:
  "(r = None \<Longrightarrow> keeps P m) \<Longrightarrow> (\<And>x. r = Some x \<Longrightarrow> keeps P (f x)) \<Longrightarrow>
   keeps P (case r of None \<Rightarrow> m | Some x \<Rightarrow> f x)"
  by (cases r) simp_all

lemma keeps_iter [keeps_intros]: "(\<And>x. x \<in> set xs \<Longrightarrow> keeps P (f x)) \<Longrightarrow> keeps P (st_iter f xs)"
  by (induction xs) (auto intro!: keeps_intros)

lemma keeps_map [keeps_intros]: "(\<And>x. x \<in> set xs \<Longrightarrow> keeps P (f x)) \<Longrightarrow> keeps P (st_map f xs)"
  by (induction xs) (auto intro!: keeps_intros)

text \<open>A rolled-back transaction leaves the state it started from.\<close>

lemma transaction_rollback: "fst (transaction m s) = Inl e \<Longrightarrow> snd (transaction m s) = s"
  by (simp add: transaction_def split: prod.splits sum.splits)

lemma transaction_result: "fst (transaction m s) = fst (m s)"
  by (simp add: transaction_def split: prod.splits sum.splits)

lemma transaction_commit: "fst (m s) = Inr x \<Longrightarrow> transaction m s = m s"
  by (cases "m s") (auto simp: transaction_def)

text \<open>\<open>atomic m\<close>: when \<open>m\<close> raises, the state is the one it started from.\<close>

definition atomic :: "('s, 'e, 'a) sop \<Rightarrow> bool" where
  "atomic m \<longleftrightarrow> (\<forall>s e t. m s = (Inl e, t) \<longrightarrow> t = s)"

lemma atomicD: "atomic m \<Longrightarrow> fst (m s) = Inl e \<Longrightarrow> snd (m s) = s"
  by (cases "m s") (auto simp: atomic_def)

lemma atomic_transaction [atomic_intros]: "atomic (transaction m)"
  by (auto simp: atomic_def transaction_def split: prod.splits sum.splits)

lemma atomic_raise [atomic_intros]: "atomic (st_raise e)"
  by (simp add: atomic_def sop_simps)

lemma atomic_return [atomic_intros]: "atomic (st_return x)"
  by (simp add: atomic_def sop_simps)

lemma atomic_lift [atomic_intros]: "(\<And>x. r = Inr x \<Longrightarrow> atomic (f x)) \<Longrightarrow> atomic (st_bind (st_lift r) f)"
  by (cases r) (simp_all add: atomic_def st_bind_def sop_simps)

lemma atomic_get [atomic_intros]: "(\<And>x. atomic (f x)) \<Longrightarrow> atomic (st_bind (st_get g) f)"
  by (simp add: atomic_def st_bind_def sop_simps)

lemma atomic_modify [atomic_intros]: "atomic (st_bind (st_modify g) (\<lambda>_. st_return x))"
  by (simp add: atomic_def st_bind_def sop_simps)

lemma atomic_if [atomic_intros]: "(b \<Longrightarrow> atomic m) \<Longrightarrow> (\<not> b \<Longrightarrow> atomic n) \<Longrightarrow> atomic (if b then m else n)"
  by simp

lemma atomic_option [atomic_intros]:
  "(r = None \<Longrightarrow> atomic m) \<Longrightarrow> (\<And>x. r = Some x \<Longrightarrow> atomic (f x)) \<Longrightarrow>
   atomic (case r of None \<Rightarrow> m | Some x \<Rightarrow> f x)"
  by (cases r) simp_all

lemma atomic_catch [atomic_intros]:
  "atomic m \<Longrightarrow> (\<And>e. atomic (h e)) \<Longrightarrow> atomic (st_catch m h)"
  unfolding atomic_def st_catch_def by (fastforce split: prod.splits sum.splits)

section \<open>Insertion-ordered dictionaries\<close>

type_synonym ('k, 'v) odict = "('k \<times> 'v) list"

abbreviation od_set :: "'k \<Rightarrow> 'v \<Rightarrow> ('k, 'v) odict \<Rightarrow> ('k, 'v) odict" where
  "od_set \<equiv> AList.update"

text \<open>\<open>{**a, **b}\<close>: the keys of \<open>a\<close> keep their place, new keys of \<open>b\<close> follow in order.\<close>

definition od_merge :: "('k, 'v) odict \<Rightarrow> ('k, 'v) odict \<Rightarrow> ('k, 'v) odict" where
  "od_merge a b = fold (\<lambda>(k, v). od_set k v) b a"

definition od_values :: "('k, 'v) odict \<Rightarrow> 'v list" where
  "od_values d = map snd d"

definition od_keys :: "('k, 'v) odict \<Rightarrow> 'k list" where
  "od_keys d = map fst d"

lemma map_of_od_set [dict_simps, simp]: "map_of (od_set k v d) = (map_of d)(k \<mapsto> v)"
  by (rule update_conv')

lemma od_merge_Nil [simp]: "od_merge a [] = a"
  by (simp add: od_merge_def)

lemma od_merge_Cons [simp]: "od_merge a ((k, v) # b) = od_merge (od_set k v a) b"
  by (simp add: od_merge_def)

text \<open>
  A Python dictionary has distinct keys, so merging is the right-biased union of the lookups.
\<close>

lemma map_of_od_merge [dict_simps]:
  "distinct (map fst b) \<Longrightarrow> map_of (od_merge a b) = map_of a ++ map_of b"
proof (induction b arbitrary: a)
  case (Cons p b)
  obtain k v where p: "p = (k, v)" by (cases p)
  with Cons.prems have "map_of b k = None" by (auto simp: map_of_eq_None_iff)
  then show ?case
    using Cons p by (auto simp: map_add_def fun_eq_iff split: option.splits)
qed simp

lemma distinct_od_set: "distinct (map fst d) \<Longrightarrow> distinct (map fst (od_set k v d))"
  by (rule distinct_update)

lemma distinct_od_merge: "distinct (map fst a) \<Longrightarrow> distinct (map fst (od_merge a b))"
  by (induction b arbitrary: a) (auto simp: distinct_od_set split: prod.splits)

lemma set_od_set: "set (od_set k v d) \<subseteq> insert (k, v) (set d)"
  by (induction d) auto

lemma od_set_in_place: "k \<in> fst ` set d \<Longrightarrow> map fst (od_set k v d) = map fst d"
  by (simp add: update_keys image_iff)

lemma od_set_keys: "map fst (od_set k v d) = (if k \<in> fst ` set d then map fst d else map fst d @ [k])"
  by (simp add: update_keys)

lemma od_set_fresh: "k \<notin> fst ` set d \<Longrightarrow> od_set k v d = d @ [(k, v)]"
  by (induction d) auto

text \<open>Updating through a function of the value commutes with mapping the values.\<close>

lemma od_set_map_snd:
  "map (\<lambda>(k, v). (k, f k v)) (od_set k v d) = od_set k (f k v) (map (\<lambda>(k, v). (k, f k v)) d)"
  by (induction d) auto

section \<open>Lists\<close>

text \<open>\<open>max((f x for x in xs), default=0)\<close> over nonnegative numbers.\<close>

definition max_default :: "int list \<Rightarrow> int" where
  "max_default xs = (if xs = [] then 0 else Max (set xs))"

lemma max_default_Nil [simp]: "max_default [] = 0"
  by (simp add: max_default_def)

lemma max_default_ge: "x \<in> set xs \<Longrightarrow> x \<le> max_default xs"
  by (cases xs) (auto simp: max_default_def)

lemma max_default_fresh: "max_default xs + 1 \<notin> set xs"
  using max_default_ge by force

lemma max_default_Cons: "max_default (x # xs) = (if xs = [] then x else max x (max_default xs))"
  by (simp add: max_default_def)

lemma max_default_snoc: "(\<And>y. y \<in> set xs \<Longrightarrow> y \<le> x) \<Longrightarrow> max_default (xs @ [x]) = x"
  by (auto simp: max_default_def intro!: Max_eqI)

end
