(* ===== verification/Py_Value.thy ===== *)
theory Py_Value
  imports Motte_Prelude
begin

text \<open>
  The JSON-shaped values the program passes around (\<^verbatim>\<open>dict[str, Any]\<close> records, tool results,
  scores) and what the source uses of Python on them: truthiness, \<^verbatim>\<open>==\<close> (with \<^verbatim>\<open>True == 1 == 1.0\<close>
  and order-insensitive dictionaries), \<^verbatim>\<open>dict.get\<close>, item access that raises \<^verbatim>\<open>KeyError\<close>, and
  the round trip \<^verbatim>\<open>json.loads(json.dumps(x, sort_keys=True))\<close> that a stored payload goes through.

  A string is the list of its UTF-8 bytes: the source compares, splits at ASCII separators and
  sorts strings, and all three agree with what Python does on code points.  A float is a
  rational number, an infinity or NaN; rounding to doubles is in \<open>Py_Float\<close>.
\<close>

section \<open>Values\<close>

datatype pyfloat = FFin rat | FPosInf | FNegInf | FNan

datatype pyval =
    PNone
  | PBool bool
  | PInt int
  | PFloat pyfloat
  | PStr string
  | PList "pyval list"
  | PDict "(string \<times> pyval) list"

type_synonym pydict = "(string \<times> pyval) list"

text \<open>The exceptions the modelled code raises, with the message where it is a plain concatenation.\<close>

datatype exn =
    RunConflictError string
  | ValueError string
  | KeyError string
  | TypeError string
  | AttributeError string
  | IntegrityError
  | InterfaceError

section \<open>Dictionary access\<close>

text \<open>\<^verbatim>\<open>d.get(k)\<close>\<close>

definition dget :: "pydict \<Rightarrow> string \<Rightarrow> pyval" where
  "dget d k = (case map_of d k of None \<Rightarrow> PNone | Some v \<Rightarrow> v)"

text \<open>\<^verbatim>\<open>d.get(k, default)\<close>\<close>

definition dget_default :: "pydict \<Rightarrow> string \<Rightarrow> pyval \<Rightarrow> pyval" where
  "dget_default d k v0 = (case map_of d k of None \<Rightarrow> v0 | Some v \<Rightarrow> v)"

text \<open>\<^verbatim>\<open>d[k]\<close>\<close>

definition ditem :: "pydict \<Rightarrow> string \<Rightarrow> exn + pyval" where
  "ditem d k = (case map_of d k of None \<Rightarrow> Inl (KeyError k) | Some v \<Rightarrow> Inr v)"

text \<open>\<^verbatim>\<open>d.setdefault(k, v)\<close>\<close>

definition dsetdefault :: "string \<Rightarrow> pyval \<Rightarrow> pydict \<Rightarrow> pydict" where
  "dsetdefault k v d = (case map_of d k of None \<Rightarrow> od_set k v d | Some _ \<Rightarrow> d)"

text \<open>\<^verbatim>\<open>{...}.intersection(d)\<close> is nonempty\<close>

definition dhas_any :: "string list \<Rightarrow> pydict \<Rightarrow> bool" where
  "dhas_any ks d \<longleftrightarrow> list_ex (\<lambda>k. k \<in> set (map fst d)) ks"

text \<open>The identity key of a record: the stores index by strings.\<close>

definition ditem_str :: "pydict \<Rightarrow> string \<Rightarrow> exn + string" where
  "ditem_str d k = (case map_of d k of
       None \<Rightarrow> Inl (KeyError k)
     | Some (PStr s) \<Rightarrow> Inr s
     | Some _ \<Rightarrow> Inl (TypeError k))"

lemma ditem_str_Inr: "ditem_str d k = Inr s \<longleftrightarrow> map_of d k = Some (PStr s)"
  by (auto simp: ditem_str_def split: option.splits pyval.splits)

lemma dget_od_set [dict_simps]: "dget (od_set k v d) k' = (if k' = k then v else dget d k')"
  by (simp add: dget_def)

lemma ditem_od_set [dict_simps]: "ditem (od_set k v d) k' = (if k' = k then Inr v else ditem d k')"
  by (simp add: ditem_def)

lemma dget_od_merge [dict_simps]:
  "distinct (map fst b) \<Longrightarrow>
   dget (od_merge a b) k = (case map_of b k of None \<Rightarrow> dget a k | Some v \<Rightarrow> v)"
  by (simp add: dget_def map_of_od_merge map_add_def split: option.splits)

lemma dhas_any_iff: "dhas_any ks d \<longleftrightarrow> (\<exists>k\<in>set ks. map_of d k \<noteq> None)"
  by (auto simp: dhas_any_def list_ex_iff map_of_eq_None_iff dom_map_of_conv_image_fst image_iff)

section \<open>Truth and equality\<close>

text \<open>\<^verbatim>\<open>bool(v)\<close>\<close>

fun py_truthy :: "pyval \<Rightarrow> bool" where
  "py_truthy PNone = False"
| "py_truthy (PBool b) = b"
| "py_truthy (PInt n) = (n \<noteq> 0)"
| "py_truthy (PFloat f) = (f \<noteq> FFin 0)"
| "py_truthy (PStr s) = (s \<noteq> [])"
| "py_truthy (PList xs) = (xs \<noteq> [])"
| "py_truthy (PDict d) = (d \<noteq> [])"

fun py_num :: "pyval \<Rightarrow> pyfloat option" where
  "py_num (PBool b) = Some (FFin (of_bool b))"
| "py_num (PInt n) = Some (FFin (of_int n))"
| "py_num (PFloat f) = Some f"
| "py_num _ = None"

fun num_eq :: "pyfloat \<Rightarrow> pyfloat \<Rightarrow> bool" where
  "num_eq FNan _ = False"
| "num_eq _ FNan = False"
| "num_eq a b = (a = b)"

text \<open>\<^verbatim>\<open>a == b\<close>\<close>

fun py_eq :: "pyval \<Rightarrow> pyval \<Rightarrow> bool"
and py_eq_list :: "pyval list \<Rightarrow> pyval list \<Rightarrow> bool"
and py_eq_items :: "(string \<times> pyval) list \<Rightarrow> pydict \<Rightarrow> bool" where
  "py_eq PNone w = (w = PNone)"
| "py_eq (PStr s) w = (w = PStr s)"
| "py_eq (PBool b) w = (case py_num w of None \<Rightarrow> False | Some y \<Rightarrow> num_eq (FFin (of_bool b)) y)"
| "py_eq (PInt n) w = (case py_num w of None \<Rightarrow> False | Some y \<Rightarrow> num_eq (FFin (of_int n)) y)"
| "py_eq (PFloat f) w = (case py_num w of None \<Rightarrow> False | Some y \<Rightarrow> num_eq f y)"
| "py_eq (PList xs) w = (case w of PList ys \<Rightarrow> py_eq_list xs ys | _ \<Rightarrow> False)"
| "py_eq (PDict d) w = (case w of PDict e \<Rightarrow> length d = length e \<and> py_eq_items d e | _ \<Rightarrow> False)"
| "py_eq_list [] ys = (ys = [])"
| "py_eq_list (x # xs) ys = (case ys of [] \<Rightarrow> False | y # ys' \<Rightarrow> py_eq x y \<and> py_eq_list xs ys')"
| "py_eq_items [] e = True"
| "py_eq_items ((k, v) # d) e =
     (case map_of e k of None \<Rightarrow> False | Some w \<Rightarrow> py_eq v w \<and> py_eq_items d e)"

lemma py_eq_PStr [simp]: "py_eq v (PStr s) \<longleftrightarrow> v = PStr s"
  by (cases v) (auto split: option.splits elim: py_num.elims)

lemma num_eq_FFin [simp]: "num_eq (FFin a) y \<longleftrightarrow> y = FFin a"
  by (cases y) auto

lemma py_eq_PInt_PInt [simp]: "py_eq (PInt m) (PInt n) \<longleftrightarrow> m = n"
  by auto

text \<open>\<^verbatim>\<open>round(x, n)\<close>: to the nearest multiple, ties to the even one.\<close>

definition round_half_even :: "rat \<Rightarrow> int" where
  "round_half_even x = (let f = \<lfloor>x\<rfloor>; d = x - of_int f in
     if d < 1/2 then f else if d > 1/2 then f + 1 else if even f then f else f + 1)"

definition py_round :: "rat \<Rightarrow> nat \<Rightarrow> rat" where
  "py_round x n = of_int (round_half_even (x * 10 ^ n)) / 10 ^ n"

section \<open>The stored form of a value\<close>

text \<open>
  \<^verbatim>\<open>json.loads(json.dumps(v, sort_keys=True))\<close>: every dictionary comes back with its keys sorted.
\<close>

fun jnorm :: "pyval \<Rightarrow> pyval" where
  "jnorm (PList xs) = PList (map jnorm xs)"
| "jnorm (PDict d) = PDict (sort_key fst (map (\<lambda>(k, v). (k, jnorm v)) d))"
| "jnorm v = v"

definition jnorm_dict :: "pydict \<Rightarrow> pydict" where
  "jnorm_dict d = sort_key fst (map (\<lambda>(k, v). (k, jnorm v)) d)"

lemma jnorm_PDict: "jnorm (PDict d) = PDict (jnorm_dict d)"
  by (simp add: jnorm_dict_def)

text \<open>Sorting by key is stable, so it never changes what a key looks up.\<close>

lemma map_of_filter: "map_of xs k = map_of (filter (\<lambda>p. fst p = k) xs) k"
  by (induction xs) auto

lemma map_of_sort_key: "map_of (sort_key fst d) k = map_of (d :: ('k::linorder \<times> 'v) list) k"
  by (metis map_of_filter sort_key_stable)

lemma map_of_jnorm_dict: "map_of (jnorm_dict d) k = map_option jnorm (map_of d k)"
  by (simp add: jnorm_dict_def map_of_sort_key map_of_map)

lemma sort_key_map_fst:
  "sort_key fst (map (\<lambda>(k, v). (k, f v)) d) = map (\<lambda>(k, v). (k, f v)) (sort_key fst d)"
proof -
  have "insort_key fst (k, f v) (map (\<lambda>(k, v). (k, f v)) d) =
      map (\<lambda>(k, v). (k, f v)) (insort_key fst (k, v) d)" for k :: "'a::linorder" and v d
    by (induction d) auto
  then show ?thesis by (induction d) (auto simp: split_def)
qed

lemma sort_key_idem [simp]: "sort_key f (sort_key f xs) = sort_key f xs"
  by (rule sort_key_id_if_sorted) simp

lemma jnorm_idem: "jnorm (jnorm v) = jnorm v"
proof (induction v rule: jnorm.induct)
  case (2 d)
  have "map (\<lambda>(k, v). (k, jnorm v)) (map (\<lambda>(k, v). (k, jnorm v)) d) = map (\<lambda>(k, v). (k, jnorm v)) d"
    using 2 by auto
  then show ?case
    by (simp only: jnorm.simps sort_key_map_fst [symmetric] sort_key_idem)
qed auto

lemma jnorm_dict_idem: "jnorm_dict (jnorm_dict d) = jnorm_dict d"
  using jnorm_idem [of "PDict d"] by (simp only: jnorm_PDict pyval.inject)

lemma dget_jnorm_dict: "dget (jnorm_dict d) k = jnorm (dget d k)"
  by (simp add: dget_def map_of_jnorm_dict split: option.splits)

lemma jnorm_eq_scalar [simp]:
  "jnorm v = PNone \<longleftrightarrow> v = PNone" "jnorm v = PBool b \<longleftrightarrow> v = PBool b"
  "jnorm v = PInt n \<longleftrightarrow> v = PInt n" "jnorm v = PFloat f \<longleftrightarrow> v = PFloat f"
  "jnorm v = PStr s \<longleftrightarrow> v = PStr s"
  by (induction v) simp_all

lemma length_jnorm_dict [simp]: "length (jnorm_dict d) = length d"
  by (simp add: jnorm_dict_def)

lemma py_truthy_jnorm [simp]: "py_truthy (jnorm v) = py_truthy v"
proof (cases v)
  case (PDict d)
  have "jnorm_dict d = [] \<longleftrightarrow> d = []" by (metis length_0_conv length_jnorm_dict)
  then show ?thesis unfolding PDict jnorm_PDict by simp
qed auto

text \<open>
  The abstract content of a record: what each key looks up, with nested dictionaries in sorted
  form.  Two records with the same content differ at most in the order of keys.
\<close>

definition content :: "pydict \<Rightarrow> string \<Rightarrow> pyval option" where
  "content d k = map_option jnorm (map_of d k)"

lemma content_jnorm_dict [simp]: "content (jnorm_dict d) = content d"
  by (auto simp: content_def map_of_jnorm_dict option.map_comp comp_def jnorm_idem fun_eq_iff
      intro: option.map_cong)

lemma content_od_set [dict_simps]: "content (od_set k v d) = (content d)(k \<mapsto> jnorm v)"
  by (auto simp: content_def)

lemma content_od_merge [dict_simps]:
  "distinct (map fst b) \<Longrightarrow> content (od_merge a b) = content a ++ content b"
  by (auto simp: content_def map_of_od_merge map_add_def fun_eq_iff split: option.splits)

lemma content_dget_PStr: "dget d k = PStr s \<longleftrightarrow> content d k = Some (PStr s)"
  by (auto simp: dget_def content_def split: option.splits)

text \<open>\<^verbatim>\<open>s.rpartition("@")\<close>: split at the last separator.\<close>

fun rpartition_at :: "string \<Rightarrow> (string \<times> string) option" where
  "rpartition_at [] = None"
| "rpartition_at (c # s) = (case rpartition_at s of
       Some (name, version) \<Rightarrow> Some (c # name, version)
     | None \<Rightarrow> if c = CHR ''@'' then Some ([], s) else None)"

end
