(* ===== verification/Integrity.thy ===== *)
theory Integrity
  imports Py_Value
begin

text \<open>
  \<^verbatim>\<open>packages/storage/motte_storage/integrity.py\<close>: the invariants every RunStore implementation
  shares.  One definition per function of the module, in its order; \<^verbatim>\<open>uuid4().hex\<close> is an argument,
  and the pydantic contract \<^verbatim>\<open>Score.model_validate\<close> is the parameter \<open>score_ok\<close>.
\<close>

section \<open>Runs\<close>

definition new_run_id :: "string \<Rightarrow> string" where
  "new_run_id hex = ''run-'' @ hex"

definition stored_run :: "pydict \<Rightarrow> int \<Rightarrow> pydict" where
  "stored_run run revision =
     od_set ''schema_version'' (PInt (if revision = 0 then 1 else 2))
       (od_set ''revision'' (PInt revision) run)"

text \<open>\<^verbatim>\<open>isinstance(v, str) and v\<close>\<close>

fun nonempty_str :: "pyval \<Rightarrow> bool" where
  "nonempty_str (PStr s) = (s \<noteq> [])"
| "nonempty_str _ = False"

definition new_run :: "pydict \<Rightarrow> exn + pydict" where
  "new_run run =
     (if \<not> nonempty_str (dget run ''id'') then Inl (ValueError ''run.id must be a nonempty string'')
      else if \<not> nonempty_str (dget run ''status'') then
        Inl (ValueError ''run.status must be a nonempty string'')
      else if dget_default run ''revision'' (PInt 1) \<noteq> PInt 1
           \<or> dget_default run ''schema_version'' (PInt 2) \<noteq> PInt 2 then
        Inl (ValueError ''new runs must use revision=1 and schema_version=2'')
      else Inr (stored_run run 1))"

definition next_run :: "pydict \<Rightarrow> int \<Rightarrow> exn + pydict" where
  "next_run run expected_revision =
     (if expected_revision < 0 then
        Inl (ValueError ''expected_revision must be a nonnegative integer'')
      else if map_of run ''revision'' \<notin> {None, Some (PInt expected_revision)} then
        Inl (RunConflictError ''run payload revision differs from expected_revision'')
      else Inr (stored_run run (expected_revision + 1)))"

definition validate_event :: "pydict option \<Rightarrow> string \<Rightarrow> exn + pydict option" where
  "validate_event event run_id = (case event of
       None \<Rightarrow> Inr None
     | Some e \<Rightarrow>
         if \<not> py_eq (dget_default e ''run_id'' (PStr run_id)) (PStr run_id)
            \<or> \<not> py_truthy (dget e ''type'') then
           Inl (ValueError ''event must have a type and match the run_id'')
         else Inr (Some (od_set ''run_id'' (PStr run_id) e)))"

section \<open>Attempt and command state machines\<close>

type_synonym transition_table = "(string \<times> string list) list"

definition ATTEMPT_TRANSITIONS :: transition_table where
  "ATTEMPT_TRANSITIONS =
    [(''prepared'', [''dispatching'', ''failed'']),
     (''dispatching'', [''succeeded'', ''failed'', ''indeterminate'']),
     (''succeeded'', []),
     (''failed'', []),
     (''indeterminate'', [])]"

definition COMMAND_TRANSITIONS :: transition_table where
  "COMMAND_TRANSITIONS =
    [(''queued'', [''delivered'', ''failed'', ''rejected'', ''expired'']),
     (''delivered'', [''acknowledged'', ''failed'', ''delivery_unknown'', ''rejected'', ''expired'']),
     (''acknowledged'', []),
     (''failed'', []),
     (''rejected'', []),
     (''expired'', []),
     (''delivery_unknown'', [])]"

definition may_follow :: "transition_table \<Rightarrow> string \<Rightarrow> string \<Rightarrow> bool" where
  "may_follow transitions old new =
     (case map_of transitions old of None \<Rightarrow> False | Some targets \<Rightarrow> new \<in> set targets)"

definition new_record :: "pydict \<Rightarrow> string \<Rightarrow> string \<Rightarrow> string \<Rightarrow> exn + pydict" where
  "new_record rec prefix status hex =
     (let result = dsetdefault ''id'' (PStr (prefix @ ''-'' @ hex)) rec in
      if \<not> nonempty_str (dget result ''id'') then Inl (ValueError ''id must be a nonempty string'')
      else if \<not> nonempty_str (dget result ''run_id'') then
        Inl (ValueError ''run_id must be a nonempty string'')
      else if \<not> py_eq (dget_default result ''status'' (PStr status)) (PStr status)
           \<or> dget_default result ''revision'' (PInt 1) \<noteq> PInt 1 then
        Inl (ValueError (''new '' @ prefix @ '' must start as '' @ status @ '' at revision 1''))
      else Inr (od_set ''revision'' (PInt 1) (od_set ''status'' (PStr status) result)))"

definition RECORD_IDENTITY :: "string list" where
  "RECORD_IDENTITY =
     [''id'', ''run_id'', ''case_id'', ''attempt_no'', ''trial_id'', ''revision'', ''status'']"

definition advance_record ::
    "pydict \<Rightarrow> int \<Rightarrow> string \<Rightarrow> string \<Rightarrow> pydict \<Rightarrow> transition_table \<Rightarrow> exn + pydict" where
  "advance_record current expected_revision expected_status status changes transitions =
     (if \<not> py_eq (dget current ''revision'') (PInt expected_revision)
         \<or> \<not> py_eq (dget current ''status'') (PStr expected_status) then
        Inl (RunConflictError ''record revision or status changed'')
      else if \<not> may_follow transitions expected_status status then
        Inl (ValueError (''invalid transition: '' @ expected_status @ '' -> '' @ status))
      else if dhas_any RECORD_IDENTITY changes then
        Inl (ValueError ''transition changes cannot replace identity, revision or status'')
      else Inr (od_set ''revision'' (PInt (expected_revision + 1))
                 (od_set ''status'' (PStr status) (od_merge current changes))))"

section \<open>Case rows and scores\<close>

fun validate_case_rows_from :: "string set \<Rightarrow> pyval list \<Rightarrow> string \<Rightarrow> exn + pydict list" where
  "validate_case_rows_from seen [] run_id = Inr []"
| "validate_case_rows_from seen (row # rows) run_id = (case row of
       PDict d \<Rightarrow>
         if \<not> py_eq (dget d ''run_id'') (PStr run_id) then
           Inl (ValueError ''case row must match the scoring pass run_id'')
         else (case dget d ''case_id'' of
             PStr cid \<Rightarrow>
               if cid = [] then Inl (ValueError ''case row needs a nonempty case_id'')
               else if cid \<in> seen then
                 Inl (ValueError ''case rows need distinct case_id values'')
               else res_bind (validate_case_rows_from (insert cid seen) rows run_id)
                      (\<lambda>bound. Inr (d # bound))
           | _ \<Rightarrow> Inl (ValueError ''case row needs a nonempty case_id''))
     | _ \<Rightarrow> Inl (ValueError ''case row must match the scoring pass run_id''))"

definition validate_case_rows :: "pyval list option \<Rightarrow> string \<Rightarrow> exn + pydict list" where
  "validate_case_rows rows run_id =
     validate_case_rows_from {} (case rows of None \<Rightarrow> [] | Some xs \<Rightarrow> xs) run_id"

fun str_part :: "pyval \<Rightarrow> string" where
  "str_part (PStr s) = s"
| "str_part _ = []"

definition score_identity :: "pydict \<Rightarrow> string \<times> string \<times> string \<times> string \<times> string" where
  "score_identity score =
     (str_part (dget score ''case_id''), str_part (dget score ''trial_id''),
      str_part (dget score ''metric_id''), str_part (dget score ''evaluator_id''),
      str_part (dget score ''evaluator_version''))"

definition has_metric_identity :: "pydict \<Rightarrow> bool" where
  "has_metric_identity score =
     list_ex (\<lambda>k. py_truthy (dget score k))
       [''trial_id'', ''metric_id'', ''evaluator_id'', ''evaluator_version'']"

definition validate_scores :: "(pydict \<Rightarrow> bool) \<Rightarrow> pydict list \<Rightarrow> exn + pydict list" where
  "validate_scores score_ok scores =
     (let ids = map (\<lambda>score. dget score ''case_id'') scores in
      if list_ex (\<lambda>v. \<not> nonempty_str v) ids then
        Inl (ValueError ''scores need distinct nonempty case_id values'')
      else if \<not> list_all score_ok scores then
        Inl (ValueError ''score does not match the public contract'')
      else if list_ex has_metric_identity scores \<and> \<not> list_all has_metric_identity scores then
        Inl (ValueError ''scores cannot mix legacy and multi-metric rows'')
      else if list_ex has_metric_identity scores then
        if \<not> list_all (\<lambda>score. list_all (\<lambda>k. py_truthy (dget score k))
               [''metric_id'', ''evaluator_id'', ''evaluator_version'']) scores then
          Inl (ValueError ''multi-metric scores require metric_id, evaluator_id and evaluator_version'')
        else if \<not> distinct (map score_identity scores) then
          Inl (ValueError ''scores require a unique (case_id, trial_id, metric_id, evaluator_id, evaluator_version) key per score'')
        else Inr scores
      else if \<not> distinct ids then
        Inl (ValueError ''scores need distinct nonempty case_id values'')
      else Inr scores)"

section \<open>Facts the stores rely on\<close>

lemma content_stored_run [dict_simps]:
  "content (stored_run run r) =
   (content run)(''revision'' \<mapsto> PInt r, ''schema_version'' \<mapsto> PInt (if r = 0 then 1 else 2))"
  by (simp add: stored_run_def content_od_set)

lemma dget_stored_run [dict_simps]:
  "dget (stored_run run r) k =
     (if k = ''schema_version'' then PInt (if r = 0 then 1 else 2)
      else if k = ''revision'' then PInt r else dget run k)"
  by (simp add: stored_run_def dget_od_set)

lemma map_of_stored_run [dict_simps]:
  "map_of (stored_run run r) =
   (map_of run)(''revision'' \<mapsto> PInt r, ''schema_version'' \<mapsto> PInt (if r = 0 then 1 else 2))"
  by (simp add: stored_run_def)

lemma next_run_Inr:
  "next_run run r = Inr s \<longleftrightarrow>
     0 \<le> r \<and> map_of run ''revision'' \<in> {None, Some (PInt r)} \<and> s = stored_run run (r + 1)"
  by (auto simp: next_run_def)

lemma new_run_Inr:
  "new_run run = Inr s \<Longrightarrow>
     s = stored_run run 1 \<and> (\<exists>rid st. rid \<noteq> [] \<and> st \<noteq> [] \<and> map_of run ''id'' = Some (PStr rid)
       \<and> map_of run ''status'' = Some (PStr st))"
  by (auto simp: new_run_def dget_def split: if_splits option.splits elim!: nonempty_str.elims)

lemma may_follow_attempt:
  "may_follow ATTEMPT_TRANSITIONS old new \<longleftrightarrow>
     old = ''prepared'' \<and> new \<in> {''dispatching'', ''failed''} \<or>
     old = ''dispatching'' \<and> new \<in> {''succeeded'', ''failed'', ''indeterminate''}"
  by (auto simp: may_follow_def ATTEMPT_TRANSITIONS_def)

lemma may_follow_command:
  "may_follow COMMAND_TRANSITIONS old new \<longleftrightarrow>
     old = ''queued'' \<and> new \<in> {''delivered'', ''failed'', ''rejected'', ''expired''} \<or>
     old = ''delivered'' \<and>
       new \<in> {''acknowledged'', ''failed'', ''delivery_unknown'', ''rejected'', ''expired''}"
  by (auto simp: may_follow_def COMMAND_TRANSITIONS_def)

lemma map_of_od_merge_untouched: "k \<notin> fst ` set b \<Longrightarrow> map_of (od_merge a b) k = map_of a k"
  by (induction b arbitrary: a) auto

lemma dhas_any_untouched:
  "\<not> dhas_any ks d \<Longrightarrow> k \<in> set ks \<Longrightarrow> map_of (od_merge a d) k = map_of a k"
  by (rule map_of_od_merge_untouched) (auto simp: dhas_any_def list_ex_iff image_iff)

lemma advance_record_Inr:
  assumes "advance_record c r es st ch tbl = Inr c'"
  shows "py_eq (dget c ''revision'') (PInt r)" "dget c ''status'' = PStr es"
    "may_follow tbl es st" "\<not> dhas_any RECORD_IDENTITY ch"
    "c' = od_set ''revision'' (PInt (r + 1)) (od_set ''status'' (PStr st) (od_merge c ch))"
  using assms by (auto simp: advance_record_def split: if_splits)

end
