(* ===== verification/Run_Repository.thy ===== *)
theory Run_Repository
  imports Integrity "HOL-Library.Sublist"
begin

text \<open>
  What the two RunStore implementations promise.  \<open>run_view\<close> is the abstract state of a
  repository: the runs in creation order with their content, and the trace log of each run.  The
  \<open>spec_\<close> operations act on it directly; the locale \<open>run_repository\<close> says that an implementation
  computes them, and the facts a client relies on (compare-and-swap excludes lost updates, a
  claim is exclusive, a refused operation changes nothing, logs only grow) are proved once, from
  the specification.  \<^verbatim>\<open>_InMemoryRuns\<close> (\<open>Memory_Store\<close>) and \<^verbatim>\<open>_SQLiteRuns\<close> (\<open>Sqlite_Store\<close>) are its interpretations.
\<close>

section \<open>Vocabulary of \<^verbatim>\<open>run_store.py\<close>\<close>

type_synonym utc = int

definition int_of_val :: "pyval \<Rightarrow> int" where
  "int_of_val v = (case v of PInt n \<Rightarrow> n | _ \<Rightarrow> 0)"

definition RUN_IDENTITY :: "string list" where
  "RUN_IDENTITY = [''id'', ''revision'', ''schema_version'', ''status'']"

definition INTERRUPTED_STATES :: "string list" where
  "INTERRUPTED_STATES = [''preparing'', ''running'', ''collecting'', ''scoring'']"

definition is_interrupted :: "pydict \<Rightarrow> bool" where
  "is_interrupted run = list_ex (\<lambda>st. py_eq (dget run ''status'') (PStr st)) INTERRUPTED_STATES"

definition preparing_event :: "string \<Rightarrow> pydict" where
  "preparing_event run_id =
     [(''run_id'', PStr run_id), (''type'', PStr ''preparing''), (''status'', PStr ''preparing'')]"

section \<open>Abstract state and operations\<close>

type_synonym arec = "string \<Rightarrow> pyval option"

record run_view =
  rv_runs :: "(string, arec) odict"
  rv_log :: "string \<Rightarrow> arec list"

definition aget :: "arec \<Rightarrow> string \<Rightarrow> pyval" where
  "aget a k = (case a k of None \<Rightarrow> PNone | Some v \<Rightarrow> v)"

definition amerge :: "arec \<Rightarrow> pydict \<Rightarrow> arec" where
  "amerge a d = fold (\<lambda>(k, v) m. m(k \<mapsto> jnorm v)) d a"

definition astored :: "arec \<Rightarrow> int \<Rightarrow> arec" where
  "astored a r = a(''revision'' \<mapsto> PInt r, ''schema_version'' \<mapsto> PInt (if r = 0 then 1 else 2))"

definition arev :: "arec \<Rightarrow> int" where
  "arev a = int_of_val (aget a ''revision'')"

definition spec_log_event :: "string \<Rightarrow> pydict \<Rightarrow> run_view \<Rightarrow> run_view" where
  "spec_log_event run_id e v = v\<lparr>rv_log := (rv_log v)(run_id := rv_log v run_id @
     [(content e)(''seq'' \<mapsto> PInt (int (length (rv_log v run_id)) + 1))])\<rparr>"

definition spec_log :: "string \<Rightarrow> pydict option \<Rightarrow> run_view \<Rightarrow> run_view" where
  "spec_log run_id pending v = (case pending of None \<Rightarrow> v | Some e \<Rightarrow> spec_log_event run_id e v)"

definition spec_publish :: "string \<Rightarrow> arec \<Rightarrow> pydict option \<Rightarrow> (run_view, exn, arec) sop" where
  "spec_publish run_id a pending v =
     (Inr a, (spec_log run_id pending v)\<lparr>rv_runs := od_set run_id a (rv_runs v)\<rparr>)"

definition spec_create :: "pydict \<Rightarrow> pydict option \<Rightarrow> (run_view, exn, arec) sop" where
  "spec_create run event v =
     (case res_bind (new_run run) (\<lambda>stored. res_bind (ditem_str stored ''id'') (\<lambda>run_id.
            res_bind (validate_event event run_id) (\<lambda>pending. Inr (stored, run_id, pending)))) of
        Inl e \<Rightarrow> (Inl e, v)
      | Inr (stored, run_id, pending) \<Rightarrow>
          if map_of (rv_runs v) run_id \<noteq> None then
            (Inl (RunConflictError (''run already exists: '' @ run_id)), v)
          else spec_publish run_id (content stored) pending v)"

definition spec_update ::
    "pydict \<Rightarrow> int \<Rightarrow> string option \<Rightarrow> pydict option \<Rightarrow> (run_view, exn, arec) sop" where
  "spec_update run er es event v =
     (case res_bind (ditem_str run ''id'') (\<lambda>run_id.
            res_bind (validate_event event run_id) (\<lambda>pending. Inr (run_id, pending))) of
        Inl e \<Rightarrow> (Inl e, v)
      | Inr (run_id, pending) \<Rightarrow> (case map_of (rv_runs v) run_id of
            None \<Rightarrow> (Inl (RunConflictError (''run revision changed: '' @ run_id)), v)
          | Some a \<Rightarrow>
              if arev a \<noteq> er then (Inl (RunConflictError (''run revision changed: '' @ run_id)), v)
              else if (case es of None \<Rightarrow> False | Some st \<Rightarrow> aget a ''status'' \<noteq> PStr st) then
                (Inl (RunConflictError (''run status changed: '' @ run_id)), v)
              else if es = None \<and> \<not> py_eq (aget a ''status'') (dget run ''status'') then
                (Inl (ValueError ''state changes require expected_status; use transition''), v)
              else (case next_run run er of
                  Inl e \<Rightarrow> (Inl e, v)
                | Inr stored \<Rightarrow> spec_publish run_id (content stored) pending v)))"

definition spec_transition ::
    "string \<Rightarrow> int \<Rightarrow> string \<Rightarrow> string \<Rightarrow> pydict \<Rightarrow> pydict option \<Rightarrow> (run_view, exn, arec) sop" where
  "spec_transition run_id er es st changes event v = (case validate_event event run_id of
       Inl e \<Rightarrow> (Inl e, v)
     | Inr pending \<Rightarrow>
         if dhas_any RUN_IDENTITY changes then
           (Inl (ValueError ''transition changes cannot overwrite identity, revision or status''), v)
         else (case map_of (rv_runs v) run_id of
            None \<Rightarrow> (Inl (RunConflictError (''run revision changed: '' @ run_id)), v)
          | Some a \<Rightarrow>
              if arev a \<noteq> er then (Inl (RunConflictError (''run revision changed: '' @ run_id)), v)
              else if aget a ''status'' \<noteq> PStr es then
                (Inl (RunConflictError (''run status changed: '' @ run_id)), v)
              else spec_publish run_id
                (astored ((amerge a changes)(''status'' \<mapsto> PStr st)) (er + 1)) pending v))"

definition spec_save :: "pydict \<Rightarrow> (run_view, exn, arec) sop" where
  "spec_save run v = (case ditem_str run ''id'' of
       Inl e \<Rightarrow> (Inl e, v)
     | Inr run_id \<Rightarrow> spec_publish run_id (astored (content run)
         (case map_of (rv_runs v) run_id of None \<Rightarrow> 1 | Some a \<Rightarrow> arev a + 1)) None v)"

definition spec_claim_run :: "string \<Rightarrow> arec \<Rightarrow> (run_view, exn, arec option) sop" where
  "spec_claim_run run_id a v = (case spec_publish run_id
       (astored (a(''status'' \<mapsto> PStr ''preparing'')) (arev a + 1)) (Some (preparing_event run_id)) v of
     (r, v') \<Rightarrow> (map_sum id Some r, v'))"

definition spec_claim :: "string \<Rightarrow> (run_view, exn, arec option) sop" where
  "spec_claim run_id v = (case map_of (rv_runs v) run_id of
       None \<Rightarrow> (Inr None, v)
     | Some a \<Rightarrow>
         if aget a ''status'' \<noteq> PStr ''queued'' then
           (Inl (RunConflictError (''run is not queued: '' @ run_id)), v)
         else spec_claim_run run_id a v)"

definition spec_claim_next :: "(run_view, exn, arec option) sop" where
  "spec_claim_next v =
     (case find (\<lambda>(k, a). aget a ''status'' = PStr ''queued'') (rv_runs v) of
        None \<Rightarrow> (Inr None, v)
      | Some (run_id, a) \<Rightarrow> spec_claim_run run_id a v)"

definition ainterrupted :: "arec \<Rightarrow> bool" where
  "ainterrupted a = list_ex (\<lambda>st. aget a ''status'' = PStr st) INTERRUPTED_STATES"

definition arequeue :: "arec \<Rightarrow> arec" where
  "arequeue a =
     (if ainterrupted a then astored (a(''status'' \<mapsto> PStr ''queued'')) (arev a + 1) else a)"

definition spec_requeue :: "(run_view, exn, string list) sop" where
  "spec_requeue v =
     (Inr (map fst (filter (\<lambda>(k, a). ainterrupted a) (rv_runs v))),
      v\<lparr>rv_runs := map (\<lambda>(k, a). (k, arequeue a)) (rv_runs v)\<rparr>)"

section \<open>Well-formed views\<close>

text \<open>
  Creation order has distinct ids, every run carries a nonnegative revision and its own id, and
  the events of a run are numbered \<open>1, 2, \<dots>\<close> without a gap.
\<close>

definition run_ok :: "string \<Rightarrow> arec \<Rightarrow> bool" where
  "run_ok k a \<longleftrightarrow> a ''id'' = Some (PStr k) \<and> (\<exists>r\<ge>0. a ''revision'' = Some (PInt r))"

definition log_ok :: "arec list \<Rightarrow> bool" where
  "log_ok es \<longleftrightarrow> (\<forall>i < length es. (es ! i) ''seq'' = Some (PInt (int i + 1)))"

definition view_ok :: "run_view \<Rightarrow> bool" where
  "view_ok v \<longleftrightarrow> distinct (map fst (rv_runs v)) \<and> (\<forall>(k, a) \<in> set (rv_runs v). run_ok k a)
     \<and> (\<forall>r. log_ok (rv_log v r))"

lemma run_ok_arev: "run_ok k a \<Longrightarrow> a ''revision'' = Some (PInt (arev a)) \<and> 0 \<le> arev a"
  by (auto simp: run_ok_def arev_def aget_def int_of_val_def)

lemma run_ok_astored [intro]: "a ''id'' = Some (PStr k) \<Longrightarrow> 0 \<le> r \<Longrightarrow> run_ok k (astored a r)"
  by (auto simp: run_ok_def astored_def)

lemma astored_id [simp]: "astored a r ''id'' = a ''id''"
  by (simp add: astored_def)

lemma arev_astored [simp]: "arev (astored a r) = r"
  by (simp add: arev_def aget_def astored_def int_of_val_def)

lemma log_ok_snoc: "log_ok es \<Longrightarrow> log_ok (es @ [e(''seq'' \<mapsto> PInt (int (length es) + 1))])"
  by (auto simp: log_ok_def nth_append less_Suc_eq)

lemma amerge_untouched: "k \<notin> fst ` set d \<Longrightarrow> amerge a d k = a k"
  unfolding amerge_def by (induction d arbitrary: a) auto

lemma amerge_identity: "\<not> dhas_any ks d \<Longrightarrow> k \<in> set ks \<Longrightarrow> amerge a d k = a k"
  by (rule amerge_untouched) (auto simp: dhas_any_def list_ex_iff image_iff)

lemma content_od_merge_amerge: "content (od_merge a d) = amerge (content a) d"
  unfolding amerge_def by (induction d arbitrary: a) (auto simp: content_od_set)

lemma content_stored_run_astored: "content (stored_run d r) = astored (content d) r"
  by (simp add: astored_def content_stored_run)

text \<open>The next free sequence number of a gapless log is its length plus one.\<close>

lemma max_default_upto: "max_default (map (\<lambda>i. int i + 1) [0..<n]) = int n"
proof (induction n)
  case (Suc n)
  have "max_default (map (\<lambda>i. int i + 1) [0..<n] @ [int n + 1]) = int n + 1"
    by (rule max_default_snoc) auto
  then show ?case by simp
qed simp

lemma log_ok_max:
  assumes "log_ok (map c es)" "\<And>e. e \<in> set es \<Longrightarrow> c e ''seq'' = Some (PInt (f e))"
  shows "max_default (map f es) = int (length es)"
proof -
  have "map f es = map (\<lambda>i. int i + 1) [0..<length es]"
  proof (rule nth_equalityI)
    fix i assume "i < length (map f es)"
    then show "map f es ! i = map (\<lambda>i. int i + 1) [0..<length es] ! i"
      using assms(1) assms(2) [of "es ! i"] by (auto simp: log_ok_def)
  qed simp
  then show ?thesis using max_default_upto by simp
qed

lemma aget_content: "aget (content d) k = jnorm (dget d k)"
  by (simp add: aget_def content_def dget_def split: option.splits)

lemma validate_event_run_id:
  "validate_event event run_id = Inr (Some e) \<Longrightarrow> ditem_str e ''run_id'' = Inr run_id"
  by (auto simp: validate_event_def ditem_str_def split: option.splits if_splits)

text \<open>Sorting the keys of either side never changes a comparison.\<close>

lemma py_eq_items_iff:
  "py_eq_items d e \<longleftrightarrow> (\<forall>(k, v) \<in> set d. \<exists>w. map_of e k = Some w \<and> py_eq v w)"
  by (induction d) (auto split: option.splits)

lemma py_eq_jnorm: "py_eq (jnorm v) w = py_eq v w"
proof (induction v arbitrary: w rule: jnorm.induct)
  case (1 xs)
  have "py_eq_list (map jnorm xs) ys = py_eq_list xs ys" for ys
    using 1 by (induction xs arbitrary: ys) (auto split: list.splits)
  then show ?case by (auto split: pyval.splits)
next
  case (2 d)
  have "py_eq_items (jnorm_dict d) e = py_eq_items d e" for e
    using 2 by (fastforce simp: py_eq_items_iff jnorm_dict_def)
  then show ?case by (simp add: jnorm_PDict del: jnorm.simps split: pyval.splits)
qed auto

lemma is_interrupted_content: "ainterrupted (content d) = is_interrupted d"
  by (auto simp: ainterrupted_def is_interrupted_def aget_content)

section \<open>Every operation either changes nothing or publishes one run at its next revision\<close>

definition publishes :: "run_view \<Rightarrow> run_view \<Rightarrow> bool" where
  "publishes v v' \<longleftrightarrow> (\<exists>k a p. run_ok k a
     \<and> arev a = (case map_of (rv_runs v) k of None \<Rightarrow> 1 | Some b \<Rightarrow> arev b + 1)
     \<and> v' = snd (spec_publish k a p v))"

lemma publishesI:
  "run_ok k a \<Longrightarrow> arev a = (case map_of (rv_runs v) k of None \<Rightarrow> 1 | Some b \<Rightarrow> arev b + 1) \<Longrightarrow>
   publishes v (snd (spec_publish k a p v))"
  by (auto simp: publishes_def)

lemma view_ok_lookup: "view_ok v \<Longrightarrow> map_of (rv_runs v) k = Some a \<Longrightarrow> run_ok k a"
  by (auto simp: view_ok_def dest: map_of_SomeD)

lemma ditem_str_content: "ditem_str d k = Inr s \<Longrightarrow> content d k = Some (PStr s)"
  by (auto simp: ditem_str_def content_def split: option.splits pyval.splits)

lemma create_publishes: "snd (spec_create run ev v) = v \<or> publishes v (snd (spec_create run ev v))"
  by (auto simp: spec_create_def res_bind_Inr content_stored_run_astored
      dest!: new_run_Inr ditem_str_content intro!: publishesI run_ok_astored split: sum.splits)

lemma update_publishes:
  "snd (spec_update run er es ev v) = v \<or> publishes v (snd (spec_update run er es ev v))"
  by (auto simp: spec_update_def res_bind_Inr next_run_Inr content_stored_run_astored
      dest!: ditem_str_content intro!: publishesI split: sum.splits option.splits)

lemma transition_publishes:
  assumes "view_ok v"
  shows "snd (spec_transition k er es st ch ev v) = v
     \<or> publishes v (snd (spec_transition k er es st ch ev v))"
proof -
  have "run_ok k (astored ((amerge a ch)(''status'' \<mapsto> PStr st)) (arev a + 1))"
    if "map_of (rv_runs v) k = Some a" "\<not> dhas_any RUN_IDENTITY ch" for a
    using view_ok_lookup [OF assms that(1)] run_ok_arev [of k a]
      amerge_identity [OF that(2), of "''id''" a]
    by (intro run_ok_astored) (auto simp: RUN_IDENTITY_def run_ok_def)
  then show ?thesis
    by (auto simp: spec_transition_def intro!: publishesI split: sum.splits option.splits)
qed

lemma save_publishes:
  assumes "view_ok v"
  shows "snd (spec_save run v) = v \<or> publishes v (snd (spec_save run v))"
proof (cases "ditem_str run ''id''")
  case (Inr k)
  have "0 \<le> arev a" if "map_of (rv_runs v) k = Some a" for a
    using view_ok_lookup [OF assms that] run_ok_arev by blast
  with Inr show ?thesis
    by (auto simp: spec_save_def dest!: ditem_str_content intro!: publishesI split: option.splits)
qed (simp add: spec_save_def)

lemma claim_run_publishes:
  assumes "view_ok v" "map_of (rv_runs v) k = Some a"
  shows "publishes v (snd (spec_claim_run k a v))"
proof -
  have "run_ok k a" using assms by (rule view_ok_lookup)
  then have "publishes v (snd (spec_publish k
      (astored (a(''status'' \<mapsto> PStr ''preparing'')) (arev a + 1)) (Some (preparing_event k)) v))"
    using assms(2) run_ok_arev [of k a]
    by (intro publishesI run_ok_astored) (auto simp: run_ok_def)
  then show ?thesis by (simp add: spec_claim_run_def split_def)
qed

lemma claim_publishes:
  "view_ok v \<Longrightarrow> snd (spec_claim k v) = v \<or> publishes v (snd (spec_claim k v))"
  by (auto simp: spec_claim_def intro: claim_run_publishes split: option.splits)

lemma find_map_of:
  "distinct (map fst xs) \<Longrightarrow> find P xs = Some (k, a) \<Longrightarrow> map_of xs k = Some a \<and> P (k, a)"
  by (metis find_Some_iff map_of_is_SomeI nth_mem)

lemma claim_next_publishes:
  "view_ok v \<Longrightarrow> snd (spec_claim_next v) = v \<or> publishes v (snd (spec_claim_next v))"
  by (auto simp: spec_claim_next_def view_ok_def
      intro!: claim_run_publishes dest: find_map_of split: option.splits)

section \<open>The order on views: nothing is lost, and content changes only with the revision\<close>

definition view_le :: "run_view \<Rightarrow> run_view \<Rightarrow> bool" where
  "view_le v v' \<longleftrightarrow>
     (\<forall>k a. map_of (rv_runs v) k = Some a \<longrightarrow>
        (\<exists>a'. map_of (rv_runs v') k = Some a' \<and> (a' = a \<or> arev a < arev a')))
     \<and> (\<forall>r. prefix (rv_log v r) (rv_log v' r))"

lemma view_le_refl: "view_le v v"
  by (simp add: view_le_def)

lemma view_le_trans: "view_le u v \<Longrightarrow> view_le v w \<Longrightarrow> view_le u w"
proof -
  assume uv: "view_le u v" and vw: "view_le v w"
  have "\<exists>a'. map_of (rv_runs w) k = Some a' \<and> (a' = a \<or> arev a < arev a')"
    if "map_of (rv_runs u) k = Some a" for k a
  proof -
    from uv that obtain b where b: "map_of (rv_runs v) k = Some b" "b = a \<or> arev a < arev b"
      by (fastforce simp: view_le_def)
    from vw b(1) obtain c where "map_of (rv_runs w) k = Some c" "c = b \<or> arev b < arev c"
      by (fastforce simp: view_le_def)
    with b(2) show ?thesis by auto
  qed
  moreover have "prefix (rv_log u r) (rv_log w r)" for r
    using uv vw prefix_order.order_trans unfolding view_le_def by blast
  ultimately show "view_le u w" by (simp add: view_le_def)
qed

lemma spec_log_simps [simp]:
  "rv_runs (spec_log k p v) = rv_runs v"
  "rv_log (spec_log k None v) = rv_log v"
  "rv_log (spec_log k (Some e) v) = (rv_log v)(k := rv_log v k @
     [(content e)(''seq'' \<mapsto> PInt (int (length (rv_log v k)) + 1))])"
  by (simp_all add: spec_log_def spec_log_event_def split: option.splits)

lemma publishes_view_le: "publishes v v' \<Longrightarrow> view_le v v'"
proof -
  assume "publishes v v'"
  then obtain k a p where *: "v' = snd (spec_publish k a p v)"
    "arev a = (case map_of (rv_runs v) k of None \<Rightarrow> 1 | Some b \<Rightarrow> arev b + 1)"
    by (auto simp: publishes_def)
  have "prefix (rv_log v r) (rv_log (spec_log k p v) r)" for r
    by (cases p) auto
  with * show "view_le v v'" by (auto simp: view_le_def spec_publish_def)
qed

lemma publishes_view_ok: "publishes v v' \<Longrightarrow> view_ok v \<Longrightarrow> view_ok v'"
proof -
  assume "publishes v v'" and ok: "view_ok v"
  then obtain k a p where *: "run_ok k a" "v' = snd (spec_publish k a p v)"
    by (auto simp: publishes_def)
  have "\<forall>(j, b) \<in> set (od_set k a (rv_runs v)). run_ok j b"
    using ok *(1) set_od_set [of k a "rv_runs v"] by (auto simp: view_ok_def)
  moreover have "log_ok (rv_log (spec_log k p v) r)" for r
    using ok by (cases p) (auto simp: view_ok_def intro: log_ok_snoc)
  ultimately show "view_ok v'"
    using ok *(2) by (simp add: view_ok_def spec_publish_def distinct_od_set)
qed

lemma requeue_lookup:
  "map_of (map (\<lambda>(k, a). (k, arequeue a)) xs) k = map_option arequeue (map_of xs k)"
  by (induction xs) auto

lemma requeue_view_ok: "view_ok v \<Longrightarrow> view_ok (snd (spec_requeue v))"
proof -
  have "run_ok k a \<Longrightarrow> run_ok k (arequeue a)" for k a
    using run_ok_arev [of k a] by (auto simp: arequeue_def run_ok_def astored_def)
  then show "view_ok v \<Longrightarrow> ?thesis"
    by (auto simp: view_ok_def spec_requeue_def comp_def split_def)
qed

lemma requeue_view_le: "view_le v (snd (spec_requeue v))"
  unfolding view_le_def spec_requeue_def using requeue_lookup [of "rv_runs v"]
  by (auto simp: arequeue_def)

section \<open>Operation scripts\<close>

datatype repo_op =
    OpCreate pydict "pydict option"
  | OpUpdate pydict int "string option" "pydict option"
  | OpTransition string int string string pydict "pydict option"
  | OpSave pydict
  | OpClaim string
  | OpClaimNext
  | OpRequeue

datatype repo_out = ORun arec | OMaybe "arec option" | OIds "string list"

definition out_map :: "('a \<Rightarrow> 'b) \<Rightarrow> (exn + 'a) \<times> 's \<Rightarrow> (exn + 'b) \<times> 's" where
  "out_map f p = (map_sum id f (fst p), snd p)"

fun spec_exec :: "repo_op \<Rightarrow> run_view \<Rightarrow> (exn + repo_out) \<times> run_view" where
  "spec_exec (OpCreate run ev) v = out_map ORun (spec_create run ev v)"
| "spec_exec (OpUpdate run er es ev) v = out_map ORun (spec_update run er es ev v)"
| "spec_exec (OpTransition k er es st ch ev) v = out_map ORun (spec_transition k er es st ch ev v)"
| "spec_exec (OpSave run) v = out_map ORun (spec_save run v)"
| "spec_exec (OpClaim k) v = out_map OMaybe (spec_claim k v)"
| "spec_exec OpClaimNext v = out_map OMaybe (spec_claim_next v)"
| "spec_exec OpRequeue v = out_map OIds (spec_requeue v)"

fun exec_all :: "('op \<Rightarrow> 's \<Rightarrow> 'r \<times> 's) \<Rightarrow> 'op list \<Rightarrow> 's \<Rightarrow> 'r list \<times> 's" where
  "exec_all f [] s = ([], s)"
| "exec_all f (x # xs) s =
     (case f x s of (r, s') \<Rightarrow> (case exec_all f xs s' of (rs, t) \<Rightarrow> (r # rs, t)))"

lemma snd_out_map [simp]: "snd (out_map f p) = snd p"
  by (simp add: out_map_def)

lemma fst_out_map [simp]: "fst (out_map f p) = map_sum id f (fst p)"
  by (simp add: out_map_def)

lemmas publish_lemmas = create_publishes update_publishes transition_publishes save_publishes
  claim_publishes claim_next_publishes

lemma spec_exec_cases:
  "view_ok v \<Longrightarrow> op \<noteq> OpRequeue \<Longrightarrow> snd (spec_exec op v) = v \<or> publishes v (snd (spec_exec op v))"
  using publish_lemmas by (cases op) (auto simp only: spec_exec.simps snd_out_map)

lemma spec_exec_view_ok: "view_ok v \<Longrightarrow> view_ok (snd (spec_exec op v))"
  using spec_exec_cases [of v op] publishes_view_ok requeue_view_ok
  by (cases "op = OpRequeue") auto

lemma spec_exec_view_le: "view_ok v \<Longrightarrow> view_le v (snd (spec_exec op v))"
  using spec_exec_cases [of v op] publishes_view_le view_le_refl requeue_view_le
  by (cases "op = OpRequeue") auto

lemma spec_exec_all_mono:
  "view_ok v \<Longrightarrow> view_ok (snd (exec_all spec_exec ops v)) \<and> view_le v (snd (exec_all spec_exec ops v))"
proof (induction ops arbitrary: v)
  case (Cons op ops)
  let ?v = "snd (spec_exec op v)"
  have "view_ok ?v" "view_le v ?v"
    using Cons.prems by (auto intro: spec_exec_view_ok spec_exec_view_le)
  then show ?case using Cons.IH [of ?v] by (auto simp: split_def intro: view_le_trans)
qed (simp add: view_le_refl)

lemma spec_exec_refused: "fst (spec_exec op v) = Inl e \<Longrightarrow> snd (spec_exec op v) = v"
  by (cases op) (auto simp: spec_create_def spec_update_def spec_transition_def spec_save_def
      spec_claim_def spec_claim_next_def spec_requeue_def spec_claim_run_def spec_publish_def
      split: sum.splits option.splits if_splits)

subsection \<open>Compare and swap\<close>

text \<open>The run and the revision an operation insists on.\<close>

fun cas_target :: "repo_op \<Rightarrow> (string \<times> int) option" where
  "cas_target (OpUpdate run er es ev) = (case ditem_str run ''id'' of Inl _ \<Rightarrow> None | Inr k \<Rightarrow> Some (k, er))"
| "cas_target (OpTransition k er es st ch ev) = Some (k, er)"
| "cas_target _ = None"

lemma spec_publish_lookup: "map_of (rv_runs (snd (spec_publish k a p v))) k = Some a"
  by (simp add: spec_publish_def)

lemma spec_cas:
  assumes "cas_target op = Some (k, er)" "fst (spec_exec op v) = Inr out"
  shows "\<exists>a. map_of (rv_runs v) k = Some a \<and> arev a = er"
    "\<exists>a. map_of (rv_runs (snd (spec_exec op v))) k = Some a \<and> arev a = er + 1"
proof -
  have "(\<exists>a. map_of (rv_runs v) k = Some a \<and> arev a = er)
     \<and> (\<exists>a. map_of (rv_runs (snd (spec_exec op v))) k = Some a \<and> arev a = er + 1)"
  proof (cases op)
    case (OpUpdate run r es ev)
    then show ?thesis using assms
      by (auto simp: spec_update_def res_bind_Inr spec_publish_lookup next_run_Inr
          content_stored_run_astored split: sum.splits option.splits if_splits)
  next
    case (OpTransition k' r es st ch ev)
    then show ?thesis using assms
      by (auto simp: spec_transition_def spec_publish_lookup split: sum.splits option.splits if_splits)
  qed (use assms in auto)
  then show "\<exists>a. map_of (rv_runs v) k = Some a \<and> arev a = er"
    "\<exists>a. map_of (rv_runs (snd (spec_exec op v))) k = Some a \<and> arev a = er + 1" by auto
qed

subsection \<open>Claims\<close>

definition is_claim :: "repo_op \<Rightarrow> bool" where
  "is_claim op \<longleftrightarrow> (case op of OpClaim _ \<Rightarrow> True | OpClaimNext \<Rightarrow> True | _ \<Rightarrow> False)"

text \<open>The ids of the runs a list of results hands out.\<close>

fun claimed :: "(exn + repo_out) list \<Rightarrow> pyval list" where
  "claimed [] = []"
| "claimed (Inr (OMaybe (Some a)) # rs) = aget a ''id'' # claimed rs"
| "claimed (_ # rs) = claimed rs"

definition queued_ids :: "run_view \<Rightarrow> pyval set" where
  "queued_ids v = {PStr k | k a. map_of (rv_runs v) k = Some a \<and> aget a ''status'' = PStr ''queued''}"

lemma claimed_Cons: "claimed (r # rs) = claimed [r] @ claimed rs"
  by (induction "[r]" rule: claimed.induct) auto

lemma spec_claim_run_ids:
  assumes "view_ok v" "map_of (rv_runs v) k = Some a" "aget a ''status'' = PStr ''queued''"
    and "spec_claim_run k a v = (r, v')"
  shows "claimed [map_sum id OMaybe r] = [PStr k]" "queued_ids v' = queued_ids v - {PStr k}"
    "PStr k \<in> queued_ids v"
proof -
  let ?b = "astored (a(''status'' \<mapsto> PStr ''preparing'')) (arev a + 1)"
  have id: "a ''id'' = Some (PStr k)" using view_ok_lookup [OF assms(1,2)] by (simp add: run_ok_def)
  have v': "map_of (rv_runs v') = (map_of (rv_runs v))(k \<mapsto> ?b)" "r = Inr (Some ?b)"
    using assms(4) by (auto simp: spec_claim_run_def spec_publish_def)
  show "claimed [map_sum id OMaybe r] = [PStr k]" using v'(2) id by (simp add: aget_def)
  have "aget ?b ''status'' \<noteq> PStr ''queued''" by (simp add: aget_def astored_def)
  then show "queued_ids v' = queued_ids v - {PStr k}" unfolding queued_ids_def v'(1) by auto
  show "PStr k \<in> queued_ids v" using assms(2,3) by (auto simp: queued_ids_def)
qed

lemma spec_claim_ids:
  assumes "view_ok v" "is_claim op"
  shows "distinct (claimed [fst (spec_exec op v)])" "set (claimed [fst (spec_exec op v)]) \<subseteq> queued_ids v"
    "queued_ids (snd (spec_exec op v)) = queued_ids v - set (claimed [fst (spec_exec op v)])"
proof -
  have "distinct (claimed [fst (spec_exec op v)]) \<and> set (claimed [fst (spec_exec op v)]) \<subseteq> queued_ids v
      \<and> queued_ids (snd (spec_exec op v)) = queued_ids v - set (claimed [fst (spec_exec op v)])"
  proof (cases op)
    case (OpClaim k)
    then show ?thesis
      using spec_claim_run_ids [OF assms(1), of k]
      by (cases "spec_claim k v") (auto simp: spec_claim_def out_map_def split: option.splits if_splits)
  next
    case OpClaimNext
    show ?thesis
    proof (cases "find (\<lambda>(k, a). aget a ''status'' = PStr ''queued'') (rv_runs v)")
      case None
      then show ?thesis using OpClaimNext by (simp add: spec_claim_next_def out_map_def)
    next
      case (Some ka)
      obtain k a where ka: "ka = (k, a)" by (cases ka)
      have "map_of (rv_runs v) k = Some a \<and> aget a ''status'' = PStr ''queued''"
        using find_map_of [OF _ Some [unfolded ka]] assms(1) by (auto simp: view_ok_def)
      then show ?thesis using OpClaimNext Some ka spec_claim_run_ids [OF assms(1), of k a]
        by (cases "spec_claim_run k a v") (auto simp: spec_claim_next_def out_map_def)
    qed
  qed (use assms(2) in \<open>auto simp: is_claim_def\<close>)
  then show "distinct (claimed [fst (spec_exec op v)])" "set (claimed [fst (spec_exec op v)]) \<subseteq> queued_ids v"
    "queued_ids (snd (spec_exec op v)) = queued_ids v - set (claimed [fst (spec_exec op v)])" by auto
qed

lemma spec_claims_distinct:
  "view_ok v \<Longrightarrow> list_all is_claim ops \<Longrightarrow>
   distinct (claimed (fst (exec_all spec_exec ops v)))
     \<and> set (claimed (fst (exec_all spec_exec ops v))) \<subseteq> queued_ids v"
proof (induction ops arbitrary: v)
  case (Cons op ops)
  let ?v = "snd (spec_exec op v)"
  note step = spec_claim_ids [OF Cons.prems(1), of op]
  have "distinct (claimed (fst (exec_all spec_exec ops ?v)))
      \<and> set (claimed (fst (exec_all spec_exec ops ?v))) \<subseteq> queued_ids ?v"
    using Cons.prems by (intro Cons.IH) (auto intro: spec_exec_view_ok)
  then show ?case using step Cons.prems(2)
    by (auto simp: split_def claimed_Cons [of _ "fst (exec_all spec_exec ops ?v)"])
qed simp

lemma exec_all_append:
  "exec_all f (xs @ ys) s = (case exec_all f xs s of (rs, t) \<Rightarrow>
     (case exec_all f ys t of (rs', u) \<Rightarrow> (rs @ rs', u)))"
  by (induction xs arbitrary: s) (auto split: prod.splits)

section \<open>The interface\<close>

locale run_repository =
  fixes exec :: "repo_op \<Rightarrow> 's \<Rightarrow> (exn + repo_out) \<times> 's"
    and inv :: "'s \<Rightarrow> bool"
    and view :: "'s \<Rightarrow> run_view"
  assumes view_wf: "inv s \<Longrightarrow> view_ok (view s)"
    and exec_inv: "inv s \<Longrightarrow> inv (snd (exec op s))"
    and exec_result: "inv s \<Longrightarrow> fst (exec op s) = fst (spec_exec op (view s))"
    and exec_view: "inv s \<Longrightarrow> view (snd (exec op s)) = snd (spec_exec op (view s))"
begin

lemma exec_all_inv: "inv s \<Longrightarrow> inv (snd (exec_all exec ops s))"
proof (induction ops arbitrary: s)
  case (Cons op ops)
  then show ?case using exec_inv [OF Cons.prems, of op] by (auto simp: split_def)
qed simp

lemma exec_all_spec:
  "inv s \<Longrightarrow> fst (exec_all exec ops s) = fst (exec_all spec_exec ops (view s))
     \<and> view (snd (exec_all exec ops s)) = snd (exec_all spec_exec ops (view s))"
proof (induction ops arbitrary: s)
  case (Cons op ops)
  then show ?case
    using exec_inv [OF Cons.prems, of op] exec_view [OF Cons.prems, of op]
      exec_result [OF Cons.prems, of op]
    by (auto simp: split_def)
qed simp

lemma refused_unchanged: "inv s \<Longrightarrow> fst (exec op s) = Inl e \<Longrightarrow> view (snd (exec op s)) = view s"
  using exec_result exec_view spec_exec_refused by metis

lemma exec_all_monotone: "inv s \<Longrightarrow> view_le (view s) (view (snd (exec_all exec ops s)))"
  using exec_all_spec spec_exec_all_mono view_wf by metis

lemma stale_refused:
  assumes "inv s" "cas_target op = Some (k, er)" "cas_target op' = Some (k, er)" "exec op s = (Inr out, t)"
  shows "\<exists>e. fst (exec op' (snd (exec_all exec ops t))) = Inl e"
proof (rule ccontr)
  let ?u = "snd (exec_all exec ops t)"
  assume "\<not> ?thesis"
  then obtain out' where o': "fst (exec op' ?u) = Inr out'" by (cases "fst (exec op' ?u)") auto
  have t: "inv t" "view t = snd (spec_exec op (view s))" "fst (spec_exec op (view s)) = Inr out"
    using exec_inv [OF assms(1), of op] exec_view [OF assms(1), of op] exec_result [OF assms(1), of op] assms(4)
    by auto
  obtain a where a: "map_of (rv_runs (view t)) k = Some a" "arev a = er + 1"
    using spec_cas(2) [OF assms(2) t(3)] t(2) by auto
  have u: "inv ?u" "view_le (view t) (view ?u)" using exec_all_inv exec_all_monotone t(1) by auto
  have "fst (spec_exec op' (view ?u)) = Inr out'" using exec_result [OF u(1)] o' by simp
  from spec_cas(1) [OF assms(3) this] obtain b where b: "map_of (rv_runs (view ?u)) k = Some b" "arev b = er"
    by auto
  show False using u(2) a b unfolding view_le_def by force
qed

lemma claims_exclusive:
  assumes "inv s" "list_all is_claim ops"
  shows "distinct (claimed (fst (exec_all exec ops s)))"
    "set (claimed (fst (exec_all exec ops s))) \<subseteq> queued_ids (view s)"
  using spec_claims_distinct [OF view_wf [OF assms(1)] assms(2)] exec_all_spec [OF assms(1)] by auto

end

end
