(* ===== verification/Memory_Store.thy ===== *)
theory Memory_Store
  imports Run_Repository
begin

text \<open>
  The in-memory half of \<^verbatim>\<open>packages/storage/motte_storage/run_store.py\<close>: \<^verbatim>\<open>_InMemoryRuns\<close>,
  \<^verbatim>\<open>_InMemoryCaseRuns\<close>, \<^verbatim>\<open>_InMemoryTraceEvents\<close> and \<^verbatim>\<open>_InMemoryScores\<close>.  They share one re-entrant
  lock, so a method is one atomic step on the record \<open>mem_store\<close>; \<open>deepcopy\<close> is the identity on
  values.  \<^verbatim>\<open>utc_now()\<close> reads the next value of an arbitrary clock sequence.
\<close>

record mem_store =
  ms_runs :: "(string, pydict) odict"
  ms_events :: "(string, pydict list) odict"
  ms_stored_at :: "(string \<times> int, utc) odict"
  ms_ticks :: nat
  ms_cases :: "(string \<times> string, int \<times> pydict) odict"
  ms_scores :: "(string, pydict list) odict"
  ms_attempts :: "(string, pydict) odict"
  ms_passes :: "(string, pydict) odict"
  ms_sets :: "(string, pydict list) odict"
  ms_commands :: "(string, pydict) odict"

definition mem_empty :: mem_store where
  "mem_empty = \<lparr>ms_runs = [], ms_events = [], ms_stored_at = [], ms_ticks = 0, ms_cases = [],
     ms_scores = [], ms_attempts = [], ms_passes = [], ms_sets = [], ms_commands = []\<rparr>"

text \<open>The sequence number a stored event carries (every stored event has one).\<close>

definition event_seq :: "pydict \<Rightarrow> int" where
  "event_seq e = (case dget e ''seq'' of PInt n \<Rightarrow> n | _ \<Rightarrow> 0)"

section \<open>Trace events\<close>

definition mem_events_for :: "mem_store \<Rightarrow> string \<Rightarrow> pydict list" where
  "mem_events_for s run_id = (case map_of (ms_events s) run_id of None \<Rightarrow> [] | Some es \<Rightarrow> es)"

definition mem_append_event :: "(nat \<Rightarrow> utc) \<Rightarrow> pydict \<Rightarrow> (mem_store, exn, pydict) sop" where
  "mem_append_event clock event =
     st_bind (st_lift (ditem_str event ''run_id'')) (\<lambda>run_id.
     st_bind (st_get (\<lambda>s. mem_events_for s run_id)) (\<lambda>events.
       (let seq = max_default (map event_seq events) + 1;
            stored = od_set ''seq'' (PInt seq) event
        in st_bind (st_modify (\<lambda>s. s\<lparr>
             ms_events := od_set run_id (events @ [stored]) (ms_events s),
             ms_stored_at := od_set (run_id, seq) (clock (ms_ticks s)) (ms_stored_at s),
             ms_ticks := Suc (ms_ticks s)\<rparr>)) (\<lambda>_. st_return stored))))"

definition mem_events_list :: "string \<Rightarrow> mem_store \<Rightarrow> pydict list" where
  "mem_events_list run_id s = mem_events_for s run_id"

definition mem_events_after :: "string \<Rightarrow> int \<Rightarrow> mem_store \<Rightarrow> pydict list" where
  "mem_events_after run_id seq s = filter (\<lambda>e. event_seq e > seq) (mem_events_for s run_id)"

section \<open>Runs\<close>

definition mem_publish :: "(nat \<Rightarrow> utc) \<Rightarrow> pydict \<Rightarrow> pydict option \<Rightarrow> (mem_store, exn, pydict) sop" where
  "mem_publish clock run event =
     st_bind (case event of
         None \<Rightarrow> st_return ()
       | Some e \<Rightarrow> st_bind (mem_append_event clock e) (\<lambda>_. st_return ())) (\<lambda>_.
     st_bind (st_lift (ditem_str run ''id'')) (\<lambda>run_id.
     st_bind (st_modify (\<lambda>s. s\<lparr>ms_runs := od_set run_id run (ms_runs s)\<rparr>)) (\<lambda>_.
     st_return run)))"

definition mem_create :: "(nat \<Rightarrow> utc) \<Rightarrow> pydict \<Rightarrow> pydict option \<Rightarrow> (mem_store, exn, pydict) sop" where
  "mem_create clock run event =
     st_bind (st_lift (new_run run)) (\<lambda>stored.
     st_bind (st_lift (ditem_str stored ''id'')) (\<lambda>run_id.
     st_bind (st_lift (validate_event event run_id)) (\<lambda>pending.
     st_bind (st_get (\<lambda>s. map_of (ms_runs s) run_id)) (\<lambda>old.
     if old \<noteq> None then st_raise (RunConflictError (''run already exists: '' @ run_id))
     else mem_publish clock stored pending))))"

definition mem_update ::
    "(nat \<Rightarrow> utc) \<Rightarrow> pydict \<Rightarrow> int \<Rightarrow> string option \<Rightarrow> pydict option \<Rightarrow> (mem_store, exn, pydict) sop" where
  "mem_update clock run expected_revision expected_status event =
     st_bind (st_lift (ditem_str run ''id'')) (\<lambda>run_id.
     st_bind (st_lift (validate_event event run_id)) (\<lambda>pending.
     st_bind (st_get (\<lambda>s. map_of (ms_runs s) run_id)) (\<lambda>found. case found of
         None \<Rightarrow> st_raise (RunConflictError (''run revision changed: '' @ run_id))
       | Some previous \<Rightarrow>
           st_bind (st_lift (ditem previous ''revision'')) (\<lambda>rev.
           if \<not> py_eq rev (PInt expected_revision) then
             st_raise (RunConflictError (''run revision changed: '' @ run_id))
           else if (case expected_status of None \<Rightarrow> False
                    | Some st \<Rightarrow> \<not> py_eq (dget previous ''status'') (PStr st)) then
             st_raise (RunConflictError (''run status changed: '' @ run_id))
           else if expected_status = None \<and> \<not> py_eq (dget previous ''status'') (dget run ''status'') then
             st_raise (ValueError ''state changes require expected_status; use transition'')
           else st_bind (st_lift (next_run run expected_revision)) (\<lambda>stored.
             mem_publish clock stored pending)))))"

definition mem_transition ::
    "(nat \<Rightarrow> utc) \<Rightarrow> string \<Rightarrow> int \<Rightarrow> string \<Rightarrow> string \<Rightarrow> pydict \<Rightarrow> pydict option
     \<Rightarrow> (mem_store, exn, pydict) sop" where
  "mem_transition clock run_id expected_revision expected_status status changes event =
     st_bind (st_lift (validate_event event run_id)) (\<lambda>pending.
     if dhas_any RUN_IDENTITY changes then
       st_raise (ValueError ''transition changes cannot overwrite identity, revision or status'')
     else st_bind (st_get (\<lambda>s. map_of (ms_runs s) run_id)) (\<lambda>found. case found of
         None \<Rightarrow> st_raise (RunConflictError (''run revision changed: '' @ run_id))
       | Some previous \<Rightarrow>
           st_bind (st_lift (ditem previous ''revision'')) (\<lambda>rev.
           if \<not> py_eq rev (PInt expected_revision) then
             st_raise (RunConflictError (''run revision changed: '' @ run_id))
           else if \<not> py_eq (dget previous ''status'') (PStr expected_status) then
             st_raise (RunConflictError (''run status changed: '' @ run_id))
           else st_bind (st_lift (next_run
                  (od_set ''status'' (PStr status) (od_merge previous changes)) expected_revision))
                (\<lambda>stored. mem_publish clock stored pending))))"

definition mem_save :: "pydict \<Rightarrow> (mem_store, exn, pydict) sop" where
  "mem_save run =
     st_bind (st_lift (ditem_str run ''id'')) (\<lambda>run_id.
     st_bind (st_get (\<lambda>s. map_of (ms_runs s) run_id)) (\<lambda>found.
     (let stored = stored_run run (case found of
            None \<Rightarrow> 1 | Some previous \<Rightarrow> int_of_val (dget previous ''revision'') + 1)
      in st_bind (st_modify (\<lambda>s. s\<lparr>ms_runs := od_set run_id stored (ms_runs s)\<rparr>))
           (\<lambda>_. st_return stored))))"

definition mem_get :: "string \<Rightarrow> mem_store \<Rightarrow> pydict option" where
  "mem_get run_id s = map_of (ms_runs s) run_id"

definition mem_list :: "mem_store \<Rightarrow> pydict list" where
  "mem_list s = map snd (ms_runs s)"

definition mem_claim :: "(nat \<Rightarrow> utc) \<Rightarrow> string \<Rightarrow> (mem_store, exn, pydict option) sop" where
  "mem_claim clock run_id =
     st_bind (st_get (\<lambda>s. map_of (ms_runs s) run_id)) (\<lambda>found. case found of
         None \<Rightarrow> st_return None
       | Some run \<Rightarrow>
           if \<not> py_eq (dget run ''status'') (PStr ''queued'') then
             st_raise (RunConflictError (''run is not queued: '' @ run_id))
           else st_bind (st_lift (ditem run ''revision'')) (\<lambda>rev.
                st_bind (st_lift (next_run (od_set ''status'' (PStr ''preparing'') run) (int_of_val rev)))
                  (\<lambda>claimed. st_bind (mem_publish clock claimed (Some (preparing_event run_id)))
                    (\<lambda>r. st_return (Some r)))))"

definition is_queued :: "string \<times> pydict \<Rightarrow> bool" where
  "is_queued p = py_eq (dget (snd p) ''status'') (PStr ''queued'')"

definition mem_claim_next_queued :: "(nat \<Rightarrow> utc) \<Rightarrow> (mem_store, exn, pydict option) sop" where
  "mem_claim_next_queued clock =
     st_bind (st_get (\<lambda>s. find is_queued (ms_runs s))) (\<lambda>found. case found of
         None \<Rightarrow> st_return None
       | Some (run_id, run) \<Rightarrow>
           st_bind (st_lift (ditem run ''revision'')) (\<lambda>rev.
           st_bind (st_lift (next_run (od_set ''status'' (PStr ''preparing'') run) (int_of_val rev)))
             (\<lambda>claimed. st_bind (mem_publish clock claimed (Some (preparing_event run_id)))
               (\<lambda>r. st_return (Some r)))))"

definition mem_requeue_one :: "string \<times> pydict \<Rightarrow> (mem_store, exn, string list) sop" where
  "mem_requeue_one p = (case p of (run_id, run) \<Rightarrow>
     if is_interrupted run then
       st_bind (st_lift (ditem run ''revision'')) (\<lambda>rev.
       st_bind (st_lift (next_run (od_set ''status'' (PStr ''queued'') run) (int_of_val rev)))
         (\<lambda>queued. st_bind (st_modify (\<lambda>s. s\<lparr>ms_runs := od_set run_id queued (ms_runs s)\<rparr>))
           (\<lambda>_. st_return [run_id])))
     else st_return [])"

definition mem_requeue_interrupted :: "(mem_store, exn, string list) sop" where
  "mem_requeue_interrupted =
     st_bind (st_get ms_runs) (\<lambda>items.
     st_bind (st_map mem_requeue_one items) (\<lambda>ids. st_return (concat ids)))"

section \<open>Case results and legacy scores\<close>

definition mem_case_upsert :: "pydict \<Rightarrow> (mem_store, exn, pydict) sop" where
  "mem_case_upsert case_run =
     st_bind (st_lift (ditem_str case_run ''run_id'')) (\<lambda>run_id.
     st_bind (st_lift (ditem_str case_run ''case_id'')) (\<lambda>case_id.
     st_bind (st_get (\<lambda>s. map_of (ms_cases s) (run_id, case_id))) (\<lambda>found. case found of
         Some (_, row) \<Rightarrow> st_return row
       | None \<Rightarrow>
           st_bind (st_get (\<lambda>s. max_default (map fst (filter
               (\<lambda>v. py_eq (dget (snd v) ''run_id'') (PStr run_id)) (od_values (ms_cases s)))) + 1))
             (\<lambda>ordinal.
           st_bind (st_modify (\<lambda>s. s\<lparr>ms_cases := od_set (run_id, case_id) (ordinal, case_run) (ms_cases s)\<rparr>))
             (\<lambda>_. st_return case_run)))))"

definition mem_case_get :: "string \<Rightarrow> string \<Rightarrow> mem_store \<Rightarrow> pydict option" where
  "mem_case_get run_id case_id s = map_option snd (map_of (ms_cases s) (run_id, case_id))"

definition mem_case_list :: "string \<Rightarrow> mem_store \<Rightarrow> pydict list" where
  "mem_case_list run_id s =
     map snd (sort_key fst (map snd (filter (\<lambda>((r, c), v). r = run_id) (ms_cases s))))"

definition mem_scores_replace ::
    "(pydict \<Rightarrow> bool) \<Rightarrow> string \<Rightarrow> pydict list \<Rightarrow> (mem_store, exn, unit) sop" where
  "mem_scores_replace score_ok run_id scores =
     st_bind (st_lift (validate_scores score_ok scores)) (\<lambda>valid.
     st_modify (\<lambda>s. s\<lparr>ms_scores := od_set run_id valid (ms_scores s)\<rparr>))"

definition mem_scores_list :: "string \<Rightarrow> mem_store \<Rightarrow> pydict list" where
  "mem_scores_list run_id s = (case map_of (ms_scores s) run_id of None \<Rightarrow> [] | Some xs \<Rightarrow> xs)"

section \<open>The in-memory store implements the repository specification\<close>

definition mem_view :: "mem_store \<Rightarrow> run_view" where
  "mem_view s = \<lparr>rv_runs = map (\<lambda>(k, d). (k, content d)) (ms_runs s),
     rv_log = (\<lambda>r. map content (mem_events_for s r))\<rparr>"

definition mem_inv :: "mem_store \<Rightarrow> bool" where
  "mem_inv s \<longleftrightarrow> view_ok (mem_view s)"

definition mem_exec :: "(nat \<Rightarrow> utc) \<Rightarrow> repo_op \<Rightarrow> mem_store \<Rightarrow> (exn + repo_out) \<times> mem_store" where
  "mem_exec clock op s = (case op of
       OpCreate run ev \<Rightarrow> out_map (ORun \<circ> content) (mem_create clock run ev s)
     | OpUpdate run er es ev \<Rightarrow> out_map (ORun \<circ> content) (mem_update clock run er es ev s)
     | OpTransition k er es st ch ev \<Rightarrow>
         out_map (ORun \<circ> content) (mem_transition clock k er es st ch ev s)
     | OpSave run \<Rightarrow> out_map (ORun \<circ> content) (mem_save run s)
     | OpClaim k \<Rightarrow> out_map (OMaybe \<circ> map_option content) (mem_claim clock k s)
     | OpClaimNext \<Rightarrow> out_map (OMaybe \<circ> map_option content) (mem_claim_next_queued clock s)
     | OpRequeue \<Rightarrow> out_map OIds (mem_requeue_interrupted s))"

text \<open>\<open>implements\<close>: same result up to the representation of records, and the view moves as specified.\<close>

definition mem_implements ::
    "('a \<Rightarrow> 'b) \<Rightarrow> (exn + 'a) \<times> mem_store \<Rightarrow> (exn + 'b) \<times> run_view \<Rightarrow> bool" where
  "mem_implements f p q \<longleftrightarrow> map_sum id f (fst p) = fst q \<and> mem_view (snd p) = snd q"

lemma mem_view_runs [simp]: "rv_runs (mem_view s) = map (\<lambda>(k, d). (k, content d)) (ms_runs s)"
  by (simp add: mem_view_def)

lemma mem_lookup: "map_of (rv_runs (mem_view s)) k = map_option content (map_of (ms_runs s) k)"
  by (simp add: map_of_map)

lemma mem_lookup_ok:
  assumes "mem_inv s" "map_of (ms_runs s) k = Some d"
  shows "\<exists>r. map_of d ''revision'' = Some (PInt r) \<and> 0 \<le> r \<and> arev (content d) = r
           \<and> map_of d ''id'' = Some (PStr k)"
proof -
  have "map_of (rv_runs (mem_view s)) k = Some (content d)"
    using assms(2) by (simp only: mem_lookup) simp
  then have ok: "run_ok k (content d)" using assms(1) unfolding mem_inv_def by (metis view_ok_lookup)
  then show ?thesis using run_ok_arev [OF ok] by (auto simp: run_ok_def content_def)
qed

lemma event_seq_content: "content e ''seq'' = Some (PInt n) \<Longrightarrow> event_seq e = n"
  by (auto simp: content_def event_seq_def dget_def)

lemma mem_next_seq:
  assumes "mem_inv s"
  shows "max_default (map event_seq (mem_events_for s k)) = int (length (mem_events_for s k))"
proof (rule log_ok_max)
  show ok: "log_ok (map content (mem_events_for s k))"
    using assms by (simp add: mem_inv_def view_ok_def mem_view_def)
  fix e assume "e \<in> set (mem_events_for s k)"
  then show "content e ''seq'' = Some (PInt (event_seq e))"
    using ok event_seq_content by (fastforce simp: in_set_conv_nth log_ok_def)
qed

lemma mem_append_event_view:
  assumes "mem_inv s" "ditem_str e ''run_id'' = Inr k"
  shows "\<exists>st s'. mem_append_event clock e s = (Inr st, s')
     \<and> mem_view s' = spec_log_event k e (mem_view s) \<and> ms_runs s' = ms_runs s"
  using assms mem_next_seq [OF assms(1), of k]
  by (auto simp: mem_append_event_def sop_defs sop_simps Let_def mem_view_def
      spec_log_event_def mem_events_for_def content_od_set fun_eq_iff split: option.splits)

lemma mem_publish_view:
  assumes "mem_inv s" "map_of d ''id'' = Some (PStr k)"
    and "\<And>e. p = Some e \<Longrightarrow> ditem_str e ''run_id'' = Inr k"
  shows "mem_implements content (mem_publish clock d p s) (spec_publish k (content d) p (mem_view s))"
proof -
  have k: "ditem_str d ''id'' = Inr k" using assms(2) by (simp add: ditem_str_def)
  have runs: "mem_view (t\<lparr>ms_runs := od_set k d (ms_runs t)\<rparr>) =
      (mem_view t)\<lparr>rv_runs := od_set k (content d) (rv_runs (mem_view t))\<rparr>" for t
    using od_set_map_snd [of "\<lambda>k. content" k d "ms_runs t"]
    by (simp add: mem_view_def mem_events_for_def)
  show ?thesis
  proof (cases p)
    case None
    then show ?thesis
      by (simp add: mem_implements_def mem_publish_def sop_defs sop_simps k runs spec_publish_def
          spec_log_def)
  next
    case (Some e)
    from mem_append_event_view [OF assms(1) assms(3) [OF Some]] obtain st s' where
      "mem_append_event clock e s = (Inr st, s')" "mem_view s' = spec_log_event k e (mem_view s)"
      by blast
    then show ?thesis using Some
      by (simp add: mem_implements_def mem_publish_def sop_defs sop_simps k runs spec_publish_def
          spec_log_def) (simp add: spec_log_event_def)
  qed
qed

lemma mem_publish_valid:
  assumes "mem_inv s" "map_of d ''id'' = Some (PStr k)" "validate_event ev k = Inr p"
  shows "mem_implements content (mem_publish clock d p s) (spec_publish k (content d) p (mem_view s))"
  using assms by (intro mem_publish_view) (auto intro: validate_event_run_id)

lemma mem_create_view:
  assumes "mem_inv s"
  shows "mem_implements content (mem_create clock run ev s) (spec_create run ev (mem_view s))"
proof -
  have "mem_implements content (mem_publish clock d p s) (spec_publish k (content d) p (mem_view s))"
    if "ditem_str d ''id'' = Inr k" "validate_event ev k = Inr p" for d k p
    using mem_publish_valid [OF assms] that by (simp add: ditem_str_Inr)
  then show ?thesis
    by (auto simp: mem_create_def spec_create_def sop_defs sop_simps mem_lookup
        mem_implements_def map_of_map split: sum.splits)
qed

lemma mem_update_view:
  assumes "mem_inv s"
  shows "mem_implements content (mem_update clock run er es ev s) (spec_update run er es ev (mem_view s))"
proof -
  have pub: "mem_implements content (mem_publish clock (stored_run run n) p s)
      (spec_publish k (content (stored_run run n)) p (mem_view s))"
    if "ditem_str run ''id'' = Inr k" "validate_event ev k = Inr p" for k p n
    using mem_publish_valid [OF assms] that by (simp add: ditem_str_Inr map_of_stored_run)
  show ?thesis
  proof (cases "res_bind (ditem_str run ''id'') (\<lambda>k. res_bind (validate_event ev k) (\<lambda>p. Inr (k, p)))")
    case (Inl e)
    then show ?thesis
      by (auto simp: mem_update_def spec_update_def sop_defs sop_simps mem_implements_def
          split: sum.splits)
  next
    case (Inr kp)
    then obtain k p where kp: "ditem_str run ''id'' = Inr k" "validate_event ev k = Inr p"
      by (auto simp: res_bind_Inr)
    show ?thesis
    proof (cases "map_of (ms_runs s) k")
      case None
      then show ?thesis using kp
        by (simp add: mem_update_def spec_update_def sop_defs sop_simps mem_implements_def map_of_map)
    next
      case (Some d)
      from mem_lookup_ok [OF assms Some] obtain r where
        r: "map_of d ''revision'' = Some (PInt r)" "arev (content d) = r" by blast
      show ?thesis
        using kp Some r pub [OF kp]
        by (auto simp: mem_update_def spec_update_def sop_defs sop_simps mem_implements_def map_of_map
            ditem_def aget_content py_eq_jnorm next_run_def split: option.splits if_splits)
    qed
  qed
qed

lemma mem_transition_view:
  assumes "mem_inv s"
  shows "mem_implements content (mem_transition clock k er es st ch ev s)
     (spec_transition k er es st ch ev (mem_view s))"
proof (cases "\<exists>p d. validate_event ev k = Inr p \<and> \<not> dhas_any RUN_IDENTITY ch
    \<and> map_of (ms_runs s) k = Some d")
  case False
  then show ?thesis
    by (auto simp: mem_transition_def spec_transition_def sop_defs sop_simps mem_implements_def
        map_of_map split: sum.splits option.splits)
next
  case True
  then obtain p d where p: "validate_event ev k = Inr p" and ch: "\<not> dhas_any RUN_IDENTITY ch"
    and d: "map_of (ms_runs s) k = Some d" by blast
  from mem_lookup_ok [OF assms d] obtain r where
    r: "map_of d ''revision'' = Some (PInt r)" "0 \<le> r" "arev (content d) = r"
    "map_of d ''id'' = Some (PStr k)" by blast
  let ?new = "stored_run (od_set ''status'' (PStr st) (od_merge d ch)) (r + 1)"
  have keep: "map_of (od_merge d ch) ''revision'' = Some (PInt r)"
    "map_of (od_merge d ch) ''id'' = Some (PStr k)"
    using dhas_any_untouched [OF ch] r by (auto simp: RUN_IDENTITY_def)
  have new: "next_run (od_set ''status'' (PStr st) (od_merge d ch)) r = Inr ?new"
    using keep r by (simp add: next_run_Inr)
  have "mem_implements content (mem_publish clock ?new p s) (spec_publish k (content ?new) p (mem_view s))"
    using mem_publish_valid [OF assms _ p] keep by (simp add: map_of_stored_run)
  moreover have "content ?new = astored ((amerge (content d) ch)(''status'' \<mapsto> PStr st)) (r + 1)"
    by (simp add: content_stored_run_astored content_od_set content_od_merge_amerge)
  ultimately show ?thesis
    using p ch d r new
    by (auto simp: mem_transition_def spec_transition_def sop_defs sop_simps mem_implements_def
        map_of_map ditem_def aget_content)
qed

lemma mem_save_view:
  assumes "mem_inv s"
  shows "mem_implements content (mem_save run s) (spec_save run (mem_view s))"
proof (cases "ditem_str run ''id''")
  case (Inl e)
  then show ?thesis
    by (simp add: mem_save_def spec_save_def sop_defs sop_simps mem_implements_def)
next
  case (Inr k)
  have "int_of_val (dget d ''revision'') = arev (content d)" if "map_of (ms_runs s) k = Some d" for d
    using mem_lookup_ok [OF assms that] by (auto simp: dget_def int_of_val_def)
  then show ?thesis
    using Inr od_set_map_snd [of "\<lambda>k. content" k _ "ms_runs s"]
    by (auto simp: mem_save_def spec_save_def sop_defs sop_simps mem_implements_def Let_def map_of_map
        content_stored_run_astored spec_publish_def spec_log_def mem_view_def mem_events_for_def
        split: option.splits)
qed

text \<open>The body both claim operations share, once a queued run has been found.\<close>

lemma mem_claim_found:
  assumes "mem_inv s" "map_of (ms_runs s) k = Some d"
  shows "\<exists>r. ditem d ''revision'' = Inr (PInt r)
     \<and> next_run (od_set ''status'' (PStr ''preparing'') d) r
         = Inr (stored_run (od_set ''status'' (PStr ''preparing'') d) (r + 1))
     \<and> mem_implements (Some \<circ> content)
         (mem_publish clock (stored_run (od_set ''status'' (PStr ''preparing'') d) (r + 1))
           (Some (preparing_event k)) s)
         (spec_claim_run k (content d) (mem_view s))"
proof -
  from mem_lookup_ok [OF assms] obtain r where r: "map_of d ''revision'' = Some (PInt r)" "0 \<le> r"
    "arev (content d) = r" "map_of d ''id'' = Some (PStr k)" by blast
  let ?new = "stored_run (od_set ''status'' (PStr ''preparing'') d) (r + 1)"
  have "mem_implements content (mem_publish clock ?new (Some (preparing_event k)) s)
      (spec_publish k (content ?new) (Some (preparing_event k)) (mem_view s))"
    using assms(1) r by (intro mem_publish_view)
      (auto simp: map_of_stored_run preparing_event_def ditem_str_def)
  moreover have "content ?new = astored ((content d)(''status'' \<mapsto> PStr ''preparing'')) (r + 1)"
    by (simp add: content_stored_run_astored content_od_set)
  ultimately show ?thesis using r
    by (intro exI [of _ r])
       (auto simp: mem_implements_def spec_claim_run_def ditem_def next_run_Inr spec_publish_def
          map_sum_Inr_iff)
qed

lemma mem_claim_view:
  assumes "mem_inv s"
  shows "mem_implements (map_option content) (mem_claim clock k s) (spec_claim k (mem_view s))"
proof (cases "map_of (ms_runs s) k")
  case None
  then show ?thesis
    by (simp add: mem_claim_def spec_claim_def sop_defs sop_simps mem_implements_def map_of_map)
next
  case (Some d)
  from mem_claim_found [OF assms Some, of clock] show ?thesis using Some
    by (auto simp: mem_claim_def spec_claim_def sop_defs sop_simps mem_implements_def map_of_map
        aget_content int_of_val_def spec_claim_run_def spec_publish_def split: prod.splits sum.splits)
qed

lemma find_map: "find P (map f xs) = map_option f (find (P \<circ> f) xs)"
  by (induction xs) auto

lemma mem_find_queued:
  "find (\<lambda>(k, a). aget a ''status'' = PStr ''queued'') (rv_runs (mem_view s))
     = map_option (\<lambda>(k, d). (k, content d)) (find is_queued (ms_runs s))"
proof -
  have "(\<lambda>(k, a). aget a ''status'' = PStr ''queued'') \<circ> (\<lambda>(k, d). (k, content d)) = is_queued"
    by (auto simp: fun_eq_iff is_queued_def aget_content)
  then show ?thesis by (simp add: find_map)
qed

lemma mem_claim_next_view:
  assumes "mem_inv s"
  shows "mem_implements (map_option content) (mem_claim_next_queued clock s) (spec_claim_next (mem_view s))"
proof (cases "find is_queued (ms_runs s)")
  case None
  then show ?thesis unfolding spec_claim_next_def mem_find_queued
    by (simp add: mem_claim_next_queued_def sop_defs sop_simps mem_implements_def)
next
  case (Some kd)
  obtain k d where kd: "kd = (k, d)" by (cases kd)
  have "map_of (ms_runs s) k = Some d"
    using assms Some kd find_map_of [of "ms_runs s" is_queued k d]
    by (auto simp: mem_inv_def view_ok_def comp_def split_def)
  from mem_claim_found [OF assms this, of clock] show ?thesis
    using Some kd unfolding spec_claim_next_def mem_find_queued
    by (auto simp: mem_claim_next_queued_def sop_defs sop_simps mem_implements_def int_of_val_def
        spec_claim_run_def spec_publish_def split: prod.splits sum.splits)
qed

text \<open>
  Requeueing walks a snapshot of the items and overwrites each interrupted run in place: by
  induction over the part not yet visited, the visited part already has its final form.
\<close>

definition mem_requeued :: "pydict \<Rightarrow> pydict" where
  "mem_requeued d = (if is_interrupted d then
     stored_run (od_set ''status'' (PStr ''queued'') d) (int_of_val (dget d ''revision'') + 1) else d)"

lemma od_set_split:
  "k \<notin> fst ` set xs \<Longrightarrow> od_set k v (xs @ (k, w) # ys) = xs @ (k, v) # ys"
  by (induction xs) auto

lemma mem_requeue_items:
  assumes "ms_runs s = xs @ items" "distinct (map fst (xs @ items))"
    and "\<forall>(k, d) \<in> set items. \<exists>r\<ge>0. map_of d ''revision'' = Some (PInt r)"
  shows "\<exists>ids. st_map mem_requeue_one items s
       = (Inr ids, s\<lparr>ms_runs := xs @ map (\<lambda>(k, d). (k, mem_requeued d)) items\<rparr>)
     \<and> concat ids = map fst (filter (\<lambda>(k, d). is_interrupted d) items)"
  using assms
proof (induction items arbitrary: s xs)
  case Nil
  then show ?case by (simp add: sop_simps)
next
  case (Cons kd items)
  obtain k d where kd: "kd = (k, d)" by (cases kd)
  from Cons.prems(3) kd obtain r where r: "0 \<le> r" "map_of d ''revision'' = Some (PInt r)" by auto
  have k: "k \<notin> fst ` set xs" using Cons.prems(2) kd by auto
  let ?s = "s\<lparr>ms_runs := (xs @ [(k, mem_requeued d)]) @ items\<rparr>"
  have one: "mem_requeue_one kd s = (Inr (if is_interrupted d then [k] else []), ?s)"
    using r k Cons.prems(1) kd od_set_split [OF k]
    by (auto simp: mem_requeue_one_def sop_defs sop_simps ditem_def dget_def int_of_val_def
        next_run_Inr mem_requeued_def next_run_def)
  have "\<exists>ids. st_map mem_requeue_one items ?s = (Inr ids, ?s\<lparr>ms_runs := (xs @ [(k, mem_requeued d)])
         @ map (\<lambda>(k, d). (k, mem_requeued d)) items\<rparr>)
      \<and> concat ids = map fst (filter (\<lambda>(k, d). is_interrupted d) items)"
    using Cons.prems kd by (intro Cons.IH) auto
  then show ?case using one kd by (auto simp: sop_defs sop_simps)
qed

lemma mem_requeue_view:
  assumes "mem_inv s"
  shows "mem_implements id (mem_requeue_interrupted s) (spec_requeue (mem_view s))"
proof -
  have rev: "\<exists>r\<ge>0. map_of d ''revision'' = Some (PInt r) \<and> arev (content d) = r"
    if "(k, d) \<in> set (ms_runs s)" for k d
  proof -
    have "map_of (ms_runs s) k = Some d"
      using assms that by (auto simp: mem_inv_def view_ok_def comp_def split_def)
    then show ?thesis using mem_lookup_ok [OF assms] by blast
  qed
  have "content (mem_requeued d) = arequeue (content d)" if "(k, d) \<in> set (ms_runs s)" for k d
    using rev [OF that] by (auto simp: mem_requeued_def arequeue_def is_interrupted_content
        content_stored_run_astored content_od_set dget_def int_of_val_def)
  moreover have "distinct (map fst (ms_runs s))"
    using assms by (auto simp: mem_inv_def view_ok_def comp_def split_def)
  moreover obtain ids where "st_map mem_requeue_one (ms_runs s) s
      = (Inr ids, s\<lparr>ms_runs := map (\<lambda>(k, d). (k, mem_requeued d)) (ms_runs s)\<rparr>)"
    "concat ids = map fst (filter (\<lambda>(k, d). is_interrupted d) (ms_runs s))"
    using mem_requeue_items [of s "[]" "ms_runs s"] rev calculation(2) by fastforce
  ultimately show ?thesis
    by (auto simp: mem_implements_def mem_requeue_interrupted_def sop_defs sop_simps spec_requeue_def
        mem_view_def mem_events_for_def filter_map comp_def split_def is_interrupted_content)
qed

lemma mem_implements_out:
  assumes "mem_implements f p q"
  shows "fst (out_map (g \<circ> f) p) = fst (out_map g q) \<and> mem_view (snd (out_map (g \<circ> f) p)) = snd (out_map g q)"
proof -
  have "map_sum id g (map_sum id f (fst p)) = map_sum id (g \<circ> f) (fst p)"
    by (cases "fst p") auto
  then show ?thesis using assms by (simp add: mem_implements_def)
qed

lemma mem_exec_spec:
  assumes "mem_inv s"
  shows "fst (mem_exec clock op s) = fst (spec_exec op (mem_view s))
     \<and> mem_view (snd (mem_exec clock op s)) = snd (spec_exec op (mem_view s))"
proof (cases op)
  case OpRequeue
  then show ?thesis
    using mem_implements_out [OF mem_requeue_view [OF assms], of OIds] by (simp add: mem_exec_def)
qed (simp_all only: mem_exec_def repo_op.case spec_exec.simps mem_create_view mem_update_view
      mem_transition_view mem_save_view mem_claim_view mem_claim_next_view assms mem_implements_out)

interpretation mem: run_repository "mem_exec clock" mem_inv mem_view for clock
proof
  show "mem_inv s \<Longrightarrow> view_ok (mem_view s)" for s by (simp add: mem_inv_def)
  show "mem_inv s \<Longrightarrow> mem_inv (snd (mem_exec clock op s))" for s op
    using mem_exec_spec [of s clock op] spec_exec_view_ok unfolding mem_inv_def by metis
qed (use mem_exec_spec in auto)

lemma mem_inv_empty: "mem_inv mem_empty"
  by (simp add: mem_inv_def view_ok_def mem_view_def mem_empty_def mem_events_for_def log_ok_def)

text \<open>The operations on runs leave the attempts and commands alone.\<close>

abbreviation mem_rest :: "mem_store \<Rightarrow> (string, pydict) odict \<times> (string, pydict) odict" where
  "mem_rest s \<equiv> (ms_attempts s, ms_commands s)"

lemma mem_append_keeps [keeps_intros]: "keeps (\<lambda>s. mem_rest s = c) (mem_append_event clock e)"
  unfolding mem_append_event_def Let_def by (intro keeps_intros) simp

lemma mem_publish_keeps [keeps_intros]: "keeps (\<lambda>s. mem_rest s = c) (mem_publish clock run ev)"
  unfolding mem_publish_def by (intro keeps_intros) simp

lemma mem_requeue_one_keeps [keeps_intros]: "keeps (\<lambda>s. mem_rest s = c) (mem_requeue_one p)"
  unfolding mem_requeue_one_def split_def by (intro keeps_intros) simp

lemma mem_run_rest: "keeps (\<lambda>s. mem_rest s = c) (mem_exec clock op)"
proof -
  have "keeps (\<lambda>s. mem_rest s = c) (mem_create clock run ev)" for run ev
    unfolding mem_create_def by (intro keeps_intros)
  moreover have "keeps (\<lambda>s. mem_rest s = c) (mem_update clock run er es ev)" for run er es ev
    unfolding mem_update_def by (intro keeps_intros)
  moreover have "keeps (\<lambda>s. mem_rest s = c) (mem_transition clock k er es st ch ev)" for k er es st ch ev
    unfolding mem_transition_def Let_def by (intro keeps_intros)
  moreover have "keeps (\<lambda>s. mem_rest s = c) (mem_save run)" for run
    unfolding mem_save_def Let_def by (intro keeps_intros) simp_all
  moreover have "keeps (\<lambda>s. mem_rest s = c) (mem_claim clock k)" for k
    unfolding mem_claim_def by (intro keeps_intros)
  moreover have "keeps (\<lambda>s. mem_rest s = c) (mem_claim_next_queued clock)"
    unfolding mem_claim_next_queued_def split_def by (intro keeps_intros)
  moreover have "keeps (\<lambda>s. mem_rest s = c) mem_requeue_interrupted"
    unfolding mem_requeue_interrupted_def by (intro keeps_intros)
  ultimately show ?thesis unfolding keeps_def by (cases op) (simp_all add: mem_exec_def)
qed

end
