(* ===== verification/Sqlite_Store.thy ===== *)
theory Sqlite_Store
  imports Memory_Store
begin

text \<open>
  The SQLite half of \<^verbatim>\<open>packages/storage/motte_storage/run_store.py\<close>: \<^verbatim>\<open>_append_event\<close>, \<^verbatim>\<open>_SQLiteRuns\<close>,
  \<^verbatim>\<open>_SQLiteCaseRuns\<close>, \<^verbatim>\<open>_SQLiteTraceEvents\<close>, \<^verbatim>\<open>_SQLiteScores\<close>.  A table is the list of its rows in
  rowid order; a \<^verbatim>\<open>payload\<close> column holds the sorted-key JSON text of a record, represented by the
  dictionary it parses to (\<open>jnorm_dict\<close>).  \<^verbatim>\<open>BEGIN IMMEDIATE\<close> inside \<^verbatim>\<open>with connection\<close> takes the write
  lock, so a method is one atomic \<open>transaction\<close> that rolls back when its body raises; a primary-key
  violation raises \<open>IntegrityError\<close>.
\<close>

record run_row =
  rr_id :: string
  rr_payload :: pydict
  rr_revision :: int

record event_row =
  er_run :: string
  er_seq :: int
  er_payload :: pydict
  er_stored_at :: utc

record case_row =
  cr_run :: string
  cr_case :: string
  cr_ordinal :: int
  cr_payload :: pydict

record score_row =
  sc_run :: string
  sc_case :: string
  sc_ordinal :: int
  sc_payload :: pydict

record attempt_row =
  at_id :: string
  at_run :: string
  at_case :: string
  at_no :: int
  at_status :: string
  at_revision :: int
  at_payload :: pydict
  at_trial :: string

record pass_row =
  pr_id :: string
  pr_run :: string
  pr_payload :: pydict

record set_row =
  sr_pass :: string
  sr_key :: "string \<times> string \<times> string \<times> string \<times> string"
  sr_ordinal :: int
  sr_payload :: pydict

record command_row =
  cm_id :: string
  cm_run :: string
  cm_status :: string
  cm_revision :: int
  cm_payload :: pydict

record sql_store =
  sq_runs :: "run_row list"
  sq_events :: "event_row list"
  sq_ticks :: nat
  sq_cases :: "case_row list"
  sq_scores :: "score_row list"
  sq_attempts :: "attempt_row list"
  sq_passes :: "pass_row list"
  sq_sets :: "set_row list"
  sq_commands :: "command_row list"

definition sql_empty :: sql_store where
  "sql_empty = \<lparr>sq_runs = [], sq_events = [], sq_ticks = 0, sq_cases = [], sq_scores = [],
     sq_attempts = [], sq_passes = [], sq_sets = [], sq_commands = []\<rparr>"

section \<open>SQL statements\<close>

text \<open>\<^verbatim>\<open>UPDATE t SET ... WHERE p\<close> on a table, with its \<^verbatim>\<open>rowcount\<close>.\<close>

definition update_where :: "('r \<Rightarrow> bool) \<Rightarrow> ('r \<Rightarrow> 'r) \<Rightarrow> 'r list \<Rightarrow> 'r list" where
  "update_where p f rows = map (\<lambda>r. if p r then f r else r) rows"

definition rowcount :: "('r \<Rightarrow> bool) \<Rightarrow> 'r list \<Rightarrow> nat" where
  "rowcount p rows = length (filter p rows)"

definition select_run :: "string \<Rightarrow> sql_store \<Rightarrow> run_row option" where
  "select_run run_id db = find (\<lambda>r. rr_id r = run_id) (sq_runs db)"

definition insert_run :: "run_row \<Rightarrow> (sql_store, exn, unit) sop" where
  "insert_run row = st_bind (st_get (select_run (rr_id row))) (\<lambda>old.
     if old \<noteq> None then st_raise IntegrityError
     else st_modify (\<lambda>db. db\<lparr>sq_runs := sq_runs db @ [row]\<rparr>))"

definition update_runs :: "(run_row \<Rightarrow> bool) \<Rightarrow> pydict \<Rightarrow> int \<Rightarrow> (sql_store, exn, nat) sop" where
  "update_runs p payload revision =
     st_bind (st_get (\<lambda>db. rowcount p (sq_runs db))) (\<lambda>n.
     st_bind (st_modify (\<lambda>db. db\<lparr>sq_runs := update_where p
         (\<lambda>r. r\<lparr>rr_payload := jnorm_dict payload, rr_revision := revision\<rparr>) (sq_runs db)\<rparr>))
       (\<lambda>_. st_return n))"

definition as_conflict :: "string \<Rightarrow> exn \<Rightarrow> (sql_store, exn, 'a) sop" where
  "as_conflict msg e =
     (case e of IntegrityError \<Rightarrow> st_raise (RunConflictError msg) | _ \<Rightarrow> st_raise e)"

definition row_run :: "run_row \<Rightarrow> pydict" where
  "row_run r = stored_run (rr_payload r) (rr_revision r)"

section \<open>Trace events\<close>

definition sql_append_event :: "(nat \<Rightarrow> utc) \<Rightarrow> pydict \<Rightarrow> (sql_store, exn, pydict) sop" where
  "sql_append_event clock event =
     st_bind (st_lift (ditem_str event ''run_id'')) (\<lambda>run_id.
     st_bind (st_get (\<lambda>db. max_default (map er_seq (filter (\<lambda>r. er_run r = run_id) (sq_events db))) + 1))
       (\<lambda>seq. (let stored = od_set ''seq'' (PInt seq) event
        in st_bind (st_modify (\<lambda>db. db\<lparr>
             sq_events := sq_events db @ [\<lparr>er_run = run_id, er_seq = seq,
               er_payload = jnorm_dict stored, er_stored_at = clock (sq_ticks db)\<rparr>],
             sq_ticks := Suc (sq_ticks db)\<rparr>)) (\<lambda>_. st_return stored))))"

definition sql_append_pending :: "(nat \<Rightarrow> utc) \<Rightarrow> pydict option \<Rightarrow> (sql_store, exn, unit) sop" where
  "sql_append_pending clock pending = (case pending of
       None \<Rightarrow> st_return ()
     | Some e \<Rightarrow> st_bind (sql_append_event clock e) (\<lambda>_. st_return ()))"

definition sql_events_list :: "string \<Rightarrow> sql_store \<Rightarrow> pydict list" where
  "sql_events_list run_id db =
     map er_payload (sort_key er_seq (filter (\<lambda>r. er_run r = run_id) (sq_events db)))"

definition sql_events_after :: "string \<Rightarrow> int \<Rightarrow> sql_store \<Rightarrow> pydict list" where
  "sql_events_after run_id seq db =
     map er_payload (sort_key er_seq (filter (\<lambda>r. er_run r = run_id \<and> er_seq r > seq) (sq_events db)))"

section \<open>Runs\<close>

definition sql_create :: "(nat \<Rightarrow> utc) \<Rightarrow> pydict \<Rightarrow> pydict option \<Rightarrow> (sql_store, exn, pydict) sop" where
  "sql_create clock run event =
     st_bind (st_lift (new_run run)) (\<lambda>stored.
     st_bind (st_lift (ditem_str stored ''id'')) (\<lambda>run_id.
     st_bind (st_lift (validate_event event run_id)) (\<lambda>pending.
     st_catch
       (transaction
         (st_bind (insert_run \<lparr>rr_id = run_id, rr_payload = jnorm_dict stored, rr_revision = 1\<rparr>) (\<lambda>_.
          st_bind (sql_append_pending clock pending) (\<lambda>_. st_return stored))))
       (as_conflict (''run already exists: '' @ run_id)))))"

definition sql_update ::
    "(nat \<Rightarrow> utc) \<Rightarrow> pydict \<Rightarrow> int \<Rightarrow> string option \<Rightarrow> pydict option \<Rightarrow> (sql_store, exn, pydict) sop" where
  "sql_update clock run expected_revision expected_status event =
     st_bind (st_lift (ditem_str run ''id'')) (\<lambda>run_id.
     st_bind (st_lift (validate_event event run_id)) (\<lambda>pending.
     transaction
      (st_bind (st_get (select_run run_id)) (\<lambda>found. case found of
         None \<Rightarrow> st_raise (RunConflictError (''run revision changed: '' @ run_id))
       | Some row \<Rightarrow>
           if rr_revision row \<noteq> expected_revision then
             st_raise (RunConflictError (''run revision changed: '' @ run_id))
           else (let previous = row_run row in
             if (case expected_status of None \<Rightarrow> False
                 | Some st \<Rightarrow> \<not> py_eq (dget previous ''status'') (PStr st)) then
               st_raise (RunConflictError (''run status changed: '' @ run_id))
             else if expected_status = None \<and> \<not> py_eq (dget previous ''status'') (dget run ''status'') then
               st_raise (ValueError ''state changes require expected_status; use transition'')
             else st_bind (st_lift (next_run run expected_revision)) (\<lambda>stored.
               st_bind (update_runs (\<lambda>r. rr_id r = run_id \<and> rr_revision r = expected_revision)
                   stored (expected_revision + 1)) (\<lambda>n.
               if n \<noteq> 1 then st_raise (RunConflictError (''run revision changed: '' @ run_id))
               else st_bind (sql_append_pending clock pending) (\<lambda>_. st_return stored))))))))"

definition sql_transition ::
    "(nat \<Rightarrow> utc) \<Rightarrow> string \<Rightarrow> int \<Rightarrow> string \<Rightarrow> string \<Rightarrow> pydict \<Rightarrow> pydict option
     \<Rightarrow> (sql_store, exn, pydict) sop" where
  "sql_transition clock run_id expected_revision expected_status status changes event =
     st_bind (st_lift (validate_event event run_id)) (\<lambda>pending.
     if dhas_any RUN_IDENTITY changes then
       st_raise (ValueError ''transition changes cannot overwrite identity, revision or status'')
     else transaction
      (st_bind (st_get (select_run run_id)) (\<lambda>found. case found of
         None \<Rightarrow> st_raise (RunConflictError (''run revision changed: '' @ run_id))
       | Some row \<Rightarrow>
           if rr_revision row \<noteq> expected_revision then
             st_raise (RunConflictError (''run revision changed: '' @ run_id))
           else (let previous = row_run row in
             if \<not> py_eq (dget previous ''status'') (PStr expected_status) then
               st_raise (RunConflictError (''run status changed: '' @ run_id))
             else st_bind (st_lift (next_run
                    (od_set ''status'' (PStr status) (od_merge previous changes)) expected_revision))
               (\<lambda>stored.
               st_bind (update_runs (\<lambda>r. rr_id r = run_id \<and> rr_revision r = expected_revision
                     \<and> dget (rr_payload r) ''status'' = PStr expected_status)
                   stored (expected_revision + 1)) (\<lambda>n.
               if n \<noteq> 1 then st_raise (RunConflictError (''run revision or status changed: '' @ run_id))
               else st_bind (sql_append_pending clock pending) (\<lambda>_. st_return stored)))))))"

definition sql_save :: "pydict \<Rightarrow> (sql_store, exn, pydict) sop" where
  "sql_save run =
     st_bind (st_lift (ditem_str run ''id'')) (\<lambda>run_id.
     transaction
      (st_bind (st_get (select_run run_id)) (\<lambda>found. case found of
         None \<Rightarrow>
           (let stored = stored_run run 1 in
            st_bind (st_modify (\<lambda>db. db\<lparr>sq_runs := sq_runs db @
                [\<lparr>rr_id = run_id, rr_payload = jnorm_dict stored, rr_revision = 1\<rparr>]\<rparr>))
              (\<lambda>_. st_return stored))
       | Some row \<Rightarrow>
           (let stored = stored_run run (rr_revision row + 1) in
            st_bind (update_runs (\<lambda>r. rr_id r = run_id) stored (rr_revision row + 1))
              (\<lambda>_. st_return stored)))))"

definition sql_get :: "string \<Rightarrow> sql_store \<Rightarrow> pydict option" where
  "sql_get run_id db = map_option row_run (select_run run_id db)"

definition sql_list :: "sql_store \<Rightarrow> pydict list" where
  "sql_list db = map row_run (sq_runs db)"

definition sql_claim :: "(nat \<Rightarrow> utc) \<Rightarrow> string \<Rightarrow> (sql_store, exn, pydict option) sop" where
  "sql_claim clock run_id = transaction
     (st_bind (st_get (select_run run_id)) (\<lambda>found. case found of
         None \<Rightarrow> st_return None
       | Some row \<Rightarrow> (let run = row_run row in
           if \<not> py_eq (dget run ''status'') (PStr ''queued'') then
             st_raise (RunConflictError (''run is not queued: '' @ run_id))
           else st_bind (st_lift (next_run (od_set ''status'' (PStr ''preparing'') run) (rr_revision row)))
             (\<lambda>claimed.
             st_bind (update_runs (\<lambda>r. rr_id r = run_id \<and> rr_revision r = rr_revision row
                   \<and> dget (rr_payload r) ''status'' = PStr ''queued'')
                 claimed (rr_revision row + 1)) (\<lambda>n.
             if n \<noteq> 1 then st_raise (RunConflictError (''run is not queued: '' @ run_id))
             else st_bind (sql_append_event clock (preparing_event run_id))
                    (\<lambda>_. st_return (Some claimed)))))))"

definition sql_claim_next_queued :: "(nat \<Rightarrow> utc) \<Rightarrow> (sql_store, exn, pydict option) sop" where
  "sql_claim_next_queued clock = transaction
     (st_bind (st_get (\<lambda>db. find (\<lambda>r. py_eq (dget (row_run r) ''status'') (PStr ''queued'')) (sq_runs db)))
       (\<lambda>found. case found of
         None \<Rightarrow> st_return None
       | Some row \<Rightarrow>
           st_bind (st_lift (next_run (od_set ''status'' (PStr ''preparing'') (row_run row)) (rr_revision row)))
             (\<lambda>claimed.
             st_bind (update_runs (\<lambda>r. rr_id r = rr_id row) claimed (rr_revision row + 1)) (\<lambda>_.
             st_bind (sql_append_event clock (preparing_event (rr_id row)))
               (\<lambda>_. st_return (Some claimed))))))"

definition sql_requeue_one :: "run_row \<Rightarrow> (sql_store, exn, string list) sop" where
  "sql_requeue_one row =
     (if is_interrupted (row_run row) then
        st_bind (st_lift (next_run (od_set ''status'' (PStr ''queued'') (row_run row)) (rr_revision row)))
          (\<lambda>queued. st_bind (update_runs (\<lambda>r. rr_id r = rr_id row) queued (rr_revision row + 1))
            (\<lambda>_. st_return [rr_id row]))
      else st_return [])"

definition sql_requeue_interrupted :: "(sql_store, exn, string list) sop" where
  "sql_requeue_interrupted = transaction
     (st_bind (st_get sq_runs) (\<lambda>rows.
      st_bind (st_map sql_requeue_one rows) (\<lambda>ids. st_return (concat ids))))"

section \<open>Case results and legacy scores\<close>

definition select_case :: "string \<Rightarrow> string \<Rightarrow> sql_store \<Rightarrow> case_row option" where
  "select_case run_id case_id db = find (\<lambda>r. cr_run r = run_id \<and> cr_case r = case_id) (sq_cases db)"

definition next_case_ordinal :: "string \<Rightarrow> sql_store \<Rightarrow> int" where
  "next_case_ordinal run_id db =
     max_default (map cr_ordinal (filter (\<lambda>r. cr_run r = run_id) (sq_cases db))) + 1"

definition sql_case_upsert :: "pydict \<Rightarrow> (sql_store, exn, pydict) sop" where
  "sql_case_upsert case_run =
     st_bind (st_lift (ditem_str case_run ''run_id'')) (\<lambda>run_id.
     st_bind (st_lift (ditem_str case_run ''case_id'')) (\<lambda>case_id.
     st_bind (st_get (next_case_ordinal run_id)) (\<lambda>ordinal.
     st_bind (st_modify (\<lambda>db. if select_case run_id case_id db \<noteq> None then db else
         db\<lparr>sq_cases := sq_cases db @ [\<lparr>cr_run = run_id, cr_case = case_id, cr_ordinal = ordinal,
             cr_payload = jnorm_dict case_run\<rparr>]\<rparr>)) (\<lambda>_.
     st_bind (st_get (select_case run_id case_id)) (\<lambda>row. case row of
         Some r \<Rightarrow> st_return (cr_payload r)
       | None \<Rightarrow> st_raise (TypeError ''NoneType''))))))"

definition sql_case_get :: "string \<Rightarrow> string \<Rightarrow> sql_store \<Rightarrow> pydict option" where
  "sql_case_get run_id case_id db = map_option cr_payload (select_case run_id case_id db)"

definition sql_case_list :: "string \<Rightarrow> sql_store \<Rightarrow> pydict list" where
  "sql_case_list run_id db =
     map cr_payload (sort_key cr_ordinal (filter (\<lambda>r. cr_run r = run_id) (sq_cases db)))"

definition insert_score :: "score_row \<Rightarrow> (sql_store, exn, unit) sop" where
  "insert_score row = st_bind (st_get (\<lambda>db. list_ex
         (\<lambda>r. sc_run r = sc_run row \<and> sc_case r = sc_case row) (sq_scores db))) (\<lambda>dup.
     if dup then st_raise IntegrityError
     else st_modify (\<lambda>db. db\<lparr>sq_scores := sq_scores db @ [row]\<rparr>))"

definition sql_scores_replace ::
    "(pydict \<Rightarrow> bool) \<Rightarrow> string \<Rightarrow> pydict list \<Rightarrow> (sql_store, exn, unit) sop" where
  "sql_scores_replace score_ok run_id scores =
     st_bind (st_lift (validate_scores score_ok scores)) (\<lambda>valid.
     transaction
      (st_bind (st_modify (\<lambda>db. db\<lparr>sq_scores := filter (\<lambda>r. sc_run r \<noteq> run_id) (sq_scores db)\<rparr>)) (\<lambda>_.
       st_iter (\<lambda>(index, score).
           st_bind (st_lift (ditem_str score ''case_id'')) (\<lambda>case_id.
           insert_score \<lparr>sc_run = run_id, sc_case = case_id, sc_ordinal = int index,
              sc_payload = jnorm_dict score\<rparr>)) (enumerate 0 valid))))"

definition sql_scores_list :: "string \<Rightarrow> sql_store \<Rightarrow> pydict list" where
  "sql_scores_list run_id db =
     map sc_payload (sort_key sc_ordinal (filter (\<lambda>r. sc_run r = run_id) (sq_scores db)))"

section \<open>The SQLite store implements the repository specification\<close>

definition sql_view :: "sql_store \<Rightarrow> run_view" where
  "sql_view db = \<lparr>rv_runs = map (\<lambda>r. (rr_id r, content (row_run r))) (sq_runs db),
     rv_log = (\<lambda>k. map (content \<circ> er_payload) (filter (\<lambda>r. er_run r = k) (sq_events db)))\<rparr>"

definition sql_inv :: "sql_store \<Rightarrow> bool" where
  "sql_inv db \<longleftrightarrow> view_ok (sql_view db)
     \<and> (\<forall>r \<in> set (sq_events db). content (er_payload r) ''seq'' = Some (PInt (er_seq r)))"

definition sql_exec :: "(nat \<Rightarrow> utc) \<Rightarrow> repo_op \<Rightarrow> sql_store \<Rightarrow> (exn + repo_out) \<times> sql_store" where
  "sql_exec clock op db = (case op of
       OpCreate run ev \<Rightarrow> out_map (ORun \<circ> content) (sql_create clock run ev db)
     | OpUpdate run er es ev \<Rightarrow> out_map (ORun \<circ> content) (sql_update clock run er es ev db)
     | OpTransition k er es st ch ev \<Rightarrow>
         out_map (ORun \<circ> content) (sql_transition clock k er es st ch ev db)
     | OpSave run \<Rightarrow> out_map (ORun \<circ> content) (sql_save run db)
     | OpClaim k \<Rightarrow> out_map (OMaybe \<circ> map_option content) (sql_claim clock k db)
     | OpClaimNext \<Rightarrow> out_map (OMaybe \<circ> map_option content) (sql_claim_next_queued clock db)
     | OpRequeue \<Rightarrow> out_map OIds (sql_requeue_interrupted db))"

definition sql_implements ::
    "('a \<Rightarrow> 'b) \<Rightarrow> (exn + 'a) \<times> sql_store \<Rightarrow> (exn + 'b) \<times> run_view \<Rightarrow> bool" where
  "sql_implements f p q \<longleftrightarrow> map_sum id f (fst p) = fst q \<and> sql_view (snd p) = snd q
     \<and> (\<forall>r \<in> set (sq_events (snd p)). content (er_payload r) ''seq'' = Some (PInt (er_seq r)))"

subsection \<open>Statements\<close>

lemma sql_inv_distinct: "sql_inv db \<Longrightarrow> distinct (map rr_id (sq_runs db))"
  by (simp add: sql_inv_def view_ok_def sql_view_def comp_def)

lemma select_run_map_of:
  "map_of (rv_runs (sql_view db)) k = map_option (content \<circ> row_run) (select_run k db)"
proof -
  have "map_of (map (\<lambda>r. (rr_id r, content (row_run r))) rows) k
      = map_option (content \<circ> row_run) (find (\<lambda>r. rr_id r = k) rows)" for rows
    by (induction rows) auto
  then show ?thesis by (simp add: sql_view_def select_run_def)
qed

lemma select_run_id: "select_run k db = Some row \<Longrightarrow> rr_id row = k \<and> row \<in> set (sq_runs db)"
  by (auto simp: select_run_def find_Some_iff)

lemma dget_row_run_status: "dget (row_run r) ''status'' = dget (rr_payload r) ''status''"
  by (simp add: row_run_def dget_stored_run)

lemma select_run_ok:
  assumes "sql_inv db" "select_run k db = Some row"
  shows "0 \<le> rr_revision row" "arev (content (row_run row)) = rr_revision row"
    "map_of (row_run row) ''id'' = Some (PStr k)"
    "map_of (row_run row) ''revision'' = Some (PInt (rr_revision row))"
proof -
  have "run_ok k (content (row_run row))"
    using assms view_ok_lookup [of "sql_view db" k "content (row_run row)"]
    by (simp add: sql_inv_def select_run_map_of)
  then show "0 \<le> rr_revision row" "arev (content (row_run row)) = rr_revision row"
    "map_of (row_run row) ''id'' = Some (PStr k)"
    "map_of (row_run row) ''revision'' = Some (PInt (rr_revision row))"
    by (auto simp: run_ok_def arev_def aget_def content_def row_run_def map_of_stored_run
        int_of_val_def)
qed

text \<open>An \<^verbatim>\<open>UPDATE\<close> keyed by the primary key touches exactly the selected row.\<close>

lemma update_where_absent:
  "k \<notin> set (map key rows) \<Longrightarrow>
   update_where (\<lambda>r. key r = k \<and> Q r) f rows = rows \<and> rowcount (\<lambda>r. key r = k \<and> Q r) rows = 0"
  by (induction rows) (auto simp: update_where_def rowcount_def)

lemma update_where_key:
  assumes "distinct (map key rows)" "find (\<lambda>r. key r = k) rows = Some row" "Q row"
    and "\<And>r. key (f r) = key r"
  shows "rowcount (\<lambda>r. key r = k \<and> Q r) rows = 1
     \<and> map (\<lambda>r. (key r, h r)) (update_where (\<lambda>r. key r = k \<and> Q r) f rows)
       = od_set k (h (f row)) (map (\<lambda>r. (key r, h r)) rows)"
  using assms
proof (induction rows)
  case (Cons r rows)
  show ?case
  proof (cases "key r = k")
    case True
    with Cons.prems have "k \<notin> set (map key rows)" "r = row" by auto
    then show ?thesis
      using True Cons.prems(3,4) update_where_absent [of k key rows Q f]
      by (auto simp: update_where_def rowcount_def)
  next
    case False
    then show ?thesis using Cons by (auto simp: update_where_def rowcount_def)
  qed
qed simp

lemma update_runs_view:
  assumes "sql_inv db" "select_run k db = Some row" "Q row"
    and "map_of d ''revision'' = Some (PInt n)"
    and "map_of d ''schema_version'' = Some (PInt (if n = 0 then 1 else 2))"
  shows "\<exists>db'. update_runs (\<lambda>r. rr_id r = k \<and> Q r) d n db = (Inr 1, db')
     \<and> sql_view db' = (sql_view db)\<lparr>rv_runs := od_set k (content d) (rv_runs (sql_view db))\<rparr>
     \<and> sq_events db' = sq_events db"
proof -
  have c: "content (stored_run (jnorm_dict d) n) = content d"
    using assms(4,5) by (auto simp: content_stored_run content_def fun_eq_iff)
  show ?thesis
    using update_where_key [of rr_id "sq_runs db" k row Q
        "\<lambda>r. r\<lparr>rr_payload := jnorm_dict d, rr_revision := n\<rparr>" "\<lambda>r. content (row_run r)"]
      sql_inv_distinct [OF assms(1)] assms(2,3) c
    by (simp add: update_runs_def sop_defs sop_simps sql_view_def select_run_def row_run_def)
qed

lemma sql_append_event_view:
  assumes "sql_inv db" "ditem_str e ''run_id'' = Inr k"
  shows "\<exists>st db'. sql_append_event clock e db = (Inr st, db')
     \<and> sql_view db' = spec_log_event k e (sql_view db)
     \<and> (\<forall>r \<in> set (sq_events db'). content (er_payload r) ''seq'' = Some (PInt (er_seq r)))"
proof -
  let ?es = "filter (\<lambda>r. er_run r = k) (sq_events db)"
  have "max_default (map er_seq ?es) = int (length ?es)"
    using assms(1) by (intro log_ok_max [where c = "content \<circ> er_payload"])
      (auto simp: sql_inv_def view_ok_def sql_view_def)
  then show ?thesis
    using assms by (auto simp: sql_append_event_def sop_defs sop_simps Let_def sql_view_def
        spec_log_event_def content_od_set sql_inv_def fun_eq_iff)
qed

lemma sql_append_pending_view:
  assumes "sql_inv db" "\<And>e. p = Some e \<Longrightarrow> ditem_str e ''run_id'' = Inr k"
  shows "\<exists>db'. sql_append_pending clock p db = (Inr (), db') \<and> sql_view db' = spec_log k p (sql_view db)
     \<and> (\<forall>r \<in> set (sq_events db'). content (er_payload r) ''seq'' = Some (PInt (er_seq r)))"
proof (cases p)
  case None
  then show ?thesis using assms(1)
    by (simp add: sql_append_pending_def spec_log_def sop_simps sql_inv_def)
next
  case (Some e)
  from sql_append_event_view [OF assms(1) assms(2) [OF Some], of clock] Some show ?thesis
    by (auto simp: sql_append_pending_def spec_log_def sop_defs sop_simps)
qed

subsection \<open>Operations\<close>

text \<open>The tail of every write: update the selected row, then log the pending event.\<close>

lemma sql_inv_run_update:
  assumes "sql_inv db" "run_ok k (content d)"
    and "sql_view db' = (sql_view db)\<lparr>rv_runs := od_set k (content d) (rv_runs (sql_view db))\<rparr>"
    and "sq_events db' = sq_events db"
  shows "sql_inv db'"
proof -
  have "\<forall>(j, b) \<in> set (od_set k (content d) (rv_runs (sql_view db))). run_ok j b"
    using assms(1,2) set_od_set [of k "content d" "rv_runs (sql_view db)"]
    by (auto simp: sql_inv_def view_ok_def)
  then show ?thesis
    using assms by (simp add: sql_inv_def view_ok_def distinct_od_set)
qed

lemma sql_write_view:
  assumes "sql_inv db" "select_run k db = Some row" "Q row" "0 \<le> n"
    and "map_of d ''id'' = Some (PStr k)"
    and "\<And>e. p = Some e \<Longrightarrow> ditem_str e ''run_id'' = Inr k"
  shows "\<exists>db' db''. update_runs (\<lambda>r. rr_id r = k \<and> Q r) (stored_run d n) n db = (Inr 1, db')
     \<and> sql_append_pending clock p db' = (Inr (), db'')
     \<and> sql_implements content (Inr (stored_run d n), db'')
         (spec_publish k (content (stored_run d n)) p (sql_view db))"
proof -
  from update_runs_view [where Q = Q and d = "stored_run d n" and n = n, OF assms(1-3)] obtain db' where
    db': "update_runs (\<lambda>r. rr_id r = k \<and> Q r) (stored_run d n) n db = (Inr 1, db')"
    "sql_view db' = (sql_view db)\<lparr>rv_runs := od_set k (content (stored_run d n)) (rv_runs (sql_view db))\<rparr>"
    "sq_events db' = sq_events db"
    by (auto simp: map_of_stored_run)
  have "run_ok k (content (stored_run d n))"
    using assms(4,5) by (auto simp: content_stored_run_astored content_def)
  then have "sql_inv db'" using sql_inv_run_update assms(1) db'(2,3) by blast
  from sql_append_pending_view [where clock = clock and p = p, OF this assms(6)] obtain db'' where
    "sql_append_pending clock p db' = (Inr (), db'')" "sql_view db'' = spec_log k p (sql_view db')"
    "\<forall>r \<in> set (sq_events db''). content (er_payload r) ''seq'' = Some (PInt (er_seq r))"
    by blast
  then show ?thesis using db'(1,2)
    by (auto simp: sql_implements_def spec_publish_def spec_log_def spec_log_event_def
        split: option.splits)
qed

lemma sql_write_valid:
  assumes "sql_inv db" "select_run k db = Some row" "Q row" "0 \<le> n"
    and "map_of d ''id'' = Some (PStr k)" "validate_event ev k = Inr p"
  shows "\<exists>db' db''. update_runs (\<lambda>r. rr_id r = k \<and> Q r) (stored_run d n) n db = (Inr 1, db')
     \<and> sql_append_pending clock p db' = (Inr (), db'')
     \<and> sql_implements content (Inr (stored_run d n), db'')
         (spec_publish k (content (stored_run d n)) p (sql_view db))"
  using assms by (intro sql_write_view) (auto intro: validate_event_run_id)

lemma sql_refused: "sql_inv db \<Longrightarrow> sql_implements f (Inl e, db) (Inl e, sql_view db)"
  by (simp add: sql_implements_def sql_inv_def)

lemma sql_create_view:
  assumes "sql_inv db"
  shows "sql_implements content (sql_create clock run ev db) (spec_create run ev (sql_view db))"
proof (cases "res_bind (new_run run) (\<lambda>stored. res_bind (ditem_str stored ''id'') (\<lambda>run_id.
            res_bind (validate_event ev run_id) (\<lambda>pending. Inr (stored, run_id, pending))))")
  case (Inl e)
  then have "sql_create clock run ev db = (Inl e, db)"
    by (auto simp: sql_create_def sop_defs sop_simps res_bind_def split: sum.splits)
  then show ?thesis using Inl sql_refused [OF assms] by (simp add: spec_create_def)
next
  case (Inr x)
  then obtain d k p where d: "new_run run = Inr d" "ditem_str d ''id'' = Inr k"
    "validate_event ev k = Inr p" "x = (d, k, p)"
    by (auto simp: res_bind_Inr)
  show ?thesis
  proof (cases "select_run k db")
    case (Some row)
    then show ?thesis using d Inr sql_refused [OF assms]
      by (simp add: sql_create_def spec_create_def sop_defs sop_simps insert_run_def
          as_conflict_def select_run_map_of)
  next
    case None
    let ?row = "\<lparr>rr_id = k, rr_payload = jnorm_dict d, rr_revision = 1\<rparr>"
    let ?db = "db\<lparr>sq_runs := sq_runs db @ [?row]\<rparr>"
    have k: "k \<notin> fst ` set (rv_runs (sql_view db))"
      using None select_run_map_of [of db k] by (simp add: map_of_eq_None_iff)
    have d1: "d = stored_run run 1" using new_run_Inr [OF d(1)] by simp
    have c: "content (row_run ?row) = content d"
      by (simp add: row_run_def d1 content_stored_run content_def fun_eq_iff)
    have view: "sql_view ?db = (sql_view db)\<lparr>rv_runs := od_set k (content d) (rv_runs (sql_view db))\<rparr>"
      using k c by (simp add: sql_view_def update_Some_unfold od_set_fresh)
    have "run_ok k (content d)"
      using d(2) by (auto simp: ditem_str_Inr d1 map_of_stored_run content_stored_run_astored content_def)
    then have "sql_inv ?db" using sql_inv_run_update [OF assms _ view] by simp
    from sql_append_pending_view [OF this, of p k clock] validate_event_run_id d(3) obtain db' where
      "sql_append_pending clock p ?db = (Inr (), db')" "sql_view db' = spec_log k p (sql_view ?db)"
      "\<forall>r \<in> set (sq_events db'). content (er_payload r) ''seq'' = Some (PInt (er_seq r))"
      by blast
    then show ?thesis using d Inr None view
      by (auto simp: sql_create_def spec_create_def sop_defs sop_simps insert_run_def
          select_run_map_of sql_implements_def spec_publish_def spec_log_def spec_log_event_def
          split: option.splits)
  qed
qed

lemma sql_update_view:
  assumes "sql_inv db"
  shows "sql_implements content (sql_update clock run er es ev db) (spec_update run er es ev (sql_view db))"
proof (cases "res_bind (ditem_str run ''id'') (\<lambda>k. res_bind (validate_event ev k) (\<lambda>p. Inr (k, p)))")
  case (Inl e)
  then have "sql_update clock run er es ev db = (Inl e, db)"
    by (auto simp: sql_update_def sop_defs sop_simps res_bind_def split: sum.splits)
  then show ?thesis using Inl sql_refused [OF assms] by (simp add: spec_update_def)
next
  case (Inr kp)
  then obtain k p where kp: "ditem_str run ''id'' = Inr k" "validate_event ev k = Inr p"
    by (auto simp: res_bind_Inr)
  show ?thesis
  proof (cases "select_run k db")
    case None
    then show ?thesis using kp sql_refused [OF assms]
      by (simp add: sql_update_def spec_update_def sop_defs sop_simps select_run_map_of)
  next
    case (Some row)
    note row = select_run_ok [OF assms Some]
    have id: "map_of run ''id'' = Some (PStr k)" using kp(1) by (simp add: ditem_str_Inr)
    show ?thesis
    proof (cases "next_run run er")
      case (Inl e)
      then show ?thesis using kp Some row sql_refused [OF assms]
        by (auto simp: sql_update_def spec_update_def sop_defs sop_simps Let_def select_run_map_of
            aget_content py_eq_jnorm split: option.splits)
    next
      case (Inr stored)
      then have st: "stored = stored_run run (er + 1)" "0 \<le> er" by (auto simp: next_run_Inr)
      have "\<exists>db' db''. update_runs (\<lambda>r. rr_id r = k \<and> rr_revision r = er) stored (er + 1) db = (Inr 1, db')
         \<and> sql_append_pending clock p db' = (Inr (), db'')
         \<and> sql_implements content (Inr stored, db'') (spec_publish k (content stored) p (sql_view db))"
        if "rr_revision row = er"
        unfolding st(1)
        using sql_write_valid [where Q = "\<lambda>r. rr_revision r = er" and n = "er + 1" and p = p and d = run
            and ev = ev, OF assms Some that _ id kp(2)] st(2)
        by simp
      then show ?thesis using kp Some row Inr sql_refused [OF assms]
        by (auto simp: sql_update_def spec_update_def sop_defs sop_simps Let_def select_run_map_of
            aget_content py_eq_jnorm split: option.splits)
    qed
  qed
qed

lemma sql_transition_view:
  assumes "sql_inv db"
  shows "sql_implements content (sql_transition clock k er es st ch ev db)
     (spec_transition k er es st ch ev (sql_view db))"
proof (cases "\<exists>p row. validate_event ev k = Inr p \<and> \<not> dhas_any RUN_IDENTITY ch
    \<and> select_run k db = Some row")
  case False
  then show ?thesis using sql_refused [OF assms]
    by (auto simp: sql_transition_def spec_transition_def sop_defs sop_simps select_run_map_of
        split: sum.splits option.splits)
next
  case True
  then obtain p row where p: "validate_event ev k = Inr p" and ch: "\<not> dhas_any RUN_IDENTITY ch"
    and row: "select_run k db = Some row" by blast
  note ok = select_run_ok [OF assms row]
  let ?r = "rr_revision row"
  let ?d = "od_set ''status'' (PStr st) (od_merge (row_run row) ch)"
  have keep: "map_of ?d ''revision'' = Some (PInt ?r)" "map_of ?d ''id'' = Some (PStr k)"
    using dhas_any_untouched [OF ch] ok by (auto simp: RUN_IDENTITY_def)
  have new: "next_run ?d ?r = Inr (stored_run ?d (?r + 1))"
    using keep ok by (simp add: next_run_Inr)
  have c: "content (stored_run ?d (?r + 1))
      = astored ((amerge (content (row_run row)) ch)(''status'' \<mapsto> PStr st)) (?r + 1)"
    by (simp add: content_stored_run_astored content_od_set content_od_merge_amerge)
  have "\<exists>db' db''. update_runs (\<lambda>r. rr_id r = k \<and> rr_revision r = ?r
          \<and> dget (rr_payload r) ''status'' = PStr es) (stored_run ?d (?r + 1)) (?r + 1) db = (Inr 1, db')
     \<and> sql_append_pending clock p db' = (Inr (), db'')
     \<and> sql_implements content (Inr (stored_run ?d (?r + 1)), db'')
         (spec_publish k (content (stored_run ?d (?r + 1))) p (sql_view db))"
    if "dget (row_run row) ''status'' = PStr es"
    using sql_write_valid [where Q = "\<lambda>r. rr_revision r = ?r \<and> dget (rr_payload r) ''status'' = PStr es"
        and n = "?r + 1" and p = p and d = ?d and ev = ev, OF assms row _ _ keep(2) p]
      that ok(1) by (simp add: dget_row_run_status)
  then show ?thesis
    using p ch row ok new c sql_refused [OF assms]
    by (auto simp: sql_transition_def spec_transition_def sop_defs sop_simps Let_def
        select_run_map_of aget_content)
qed

lemma sql_save_view:
  assumes "sql_inv db"
  shows "sql_implements content (sql_save run db) (spec_save run (sql_view db))"
proof (cases "ditem_str run ''id''")
  case (Inl e)
  then show ?thesis using sql_refused [OF assms]
    by (simp add: sql_save_def spec_save_def sop_defs sop_simps)
next
  case (Inr k)
  show ?thesis
  proof (cases "select_run k db")
    case None
    have k: "k \<notin> fst ` set (rv_runs (sql_view db))"
      using None select_run_map_of [of db k] by (simp add: map_of_eq_None_iff)
    have "content (stored_run (jnorm_dict (stored_run run 1)) 1) = content (stored_run run 1)"
      by (simp add: content_stored_run content_def fun_eq_iff)
    moreover have "spec_save run (sql_view db)
        = spec_publish k (astored (content run) 1) None (sql_view db)"
      using Inr None by (simp add: spec_save_def select_run_map_of)
    ultimately show ?thesis using Inr None assms k
      by (simp add: sql_save_def sop_defs sop_simps Let_def sql_implements_def spec_publish_def
          spec_log_def content_stored_run_astored sql_inv_def sql_view_def row_run_def od_set_fresh)
  next
    case (Some row)
    note ok = select_run_ok [OF assms Some]
    let ?d = "stored_run run (rr_revision row + 1)"
    have "\<exists>db'. update_runs (\<lambda>r. rr_id r = k) ?d (rr_revision row + 1) db = (Inr 1, db')
       \<and> sql_view db' = (sql_view db)\<lparr>rv_runs := od_set k (content ?d) (rv_runs (sql_view db))\<rparr>
       \<and> sq_events db' = sq_events db"
      using update_runs_view [where Q = "\<lambda>_. True" and d = ?d and n = "rr_revision row + 1",
          OF assms Some] by (simp add: map_of_stored_run)
    then show ?thesis using Inr Some assms ok(2)
      by (auto simp: sql_save_def spec_save_def sop_defs sop_simps Let_def select_run_map_of
          sql_implements_def spec_publish_def spec_log_def content_stored_run_astored sql_inv_def)
  qed
qed

text \<open>The body both claim operations share, once a queued row has been found.\<close>

lemma sql_claim_found:
  assumes "sql_inv db" "select_run k db = Some row" "Q row"
  shows "\<exists>db' st db''. next_run (od_set ''status'' (PStr ''preparing'') (row_run row)) (rr_revision row)
         = Inr (stored_run (od_set ''status'' (PStr ''preparing'') (row_run row)) (rr_revision row + 1))
     \<and> update_runs (\<lambda>r. rr_id r = k \<and> Q r)
         (stored_run (od_set ''status'' (PStr ''preparing'') (row_run row)) (rr_revision row + 1))
         (rr_revision row + 1) db = (Inr 1, db')
     \<and> sql_append_event clock (preparing_event k) db' = (Inr st, db'')
     \<and> sql_implements (Some \<circ> content)
         (Inr (stored_run (od_set ''status'' (PStr ''preparing'') (row_run row)) (rr_revision row + 1)), db'')
         (spec_claim_run k (content (row_run row)) (sql_view db))"
proof -
  note ok = select_run_ok [OF assms(1,2)]
  let ?d = "od_set ''status'' (PStr ''preparing'') (row_run row)"
  let ?n = "rr_revision row + 1"
  have new: "next_run ?d (rr_revision row) = Inr (stored_run ?d ?n)"
    using ok by (simp add: next_run_Inr)
  have c: "content (stored_run ?d ?n) = astored ((content (row_run row))(''status'' \<mapsto> PStr ''preparing'')) ?n"
    by (simp add: content_stored_run_astored content_od_set)
  from sql_write_view [where Q = Q and d = ?d and n = ?n and p = "Some (preparing_event k)"
      and clock = clock, OF assms] ok obtain db' db'' where
    "update_runs (\<lambda>r. rr_id r = k \<and> Q r) (stored_run ?d ?n) ?n db = (Inr 1, db')"
    "sql_append_pending clock (Some (preparing_event k)) db' = (Inr (), db'')"
    "sql_implements content (Inr (stored_run ?d ?n), db'')
       (spec_publish k (content (stored_run ?d ?n)) (Some (preparing_event k)) (sql_view db))"
    by (auto simp: preparing_event_def ditem_str_def)
  then show ?thesis using new c ok
    by (auto simp: sql_append_pending_def sop_defs sop_simps sql_implements_def spec_claim_run_def
        spec_publish_def split: prod.splits sum.splits)
qed

lemma sql_claim_view:
  assumes "sql_inv db"
  shows "sql_implements (map_option content) (sql_claim clock k db) (spec_claim k (sql_view db))"
proof (cases "select_run k db")
  case None
  then show ?thesis using assms
    by (simp add: sql_claim_def spec_claim_def sop_defs sop_simps select_run_map_of sql_implements_def
        sql_inv_def)
next
  case (Some row)
  show ?thesis
  proof (cases "dget (row_run row) ''status'' = PStr ''queued''")
    case False
    then show ?thesis using Some sql_refused [OF assms]
      by (simp add: sql_claim_def spec_claim_def sop_defs sop_simps select_run_map_of Let_def aget_content)
  next
    case True
    from sql_claim_found [OF assms Some, of "\<lambda>r. rr_revision r = rr_revision row
        \<and> dget (rr_payload r) ''status'' = PStr ''queued''" clock]
    show ?thesis using Some True
      by (auto simp: sql_claim_def spec_claim_def sop_defs sop_simps select_run_map_of Let_def
          aget_content sql_implements_def dget_row_run_status)
  qed
qed

lemma sql_find_queued:
  "find (\<lambda>(k, a). aget a ''status'' = PStr ''queued'') (rv_runs (sql_view db))
     = map_option (\<lambda>r. (rr_id r, content (row_run r)))
         (find (\<lambda>r. py_eq (dget (row_run r) ''status'') (PStr ''queued'')) (sq_runs db))"
proof -
  have "(\<lambda>(k, a). aget a ''status'' = PStr ''queued'') \<circ> (\<lambda>r. (rr_id r, content (row_run r)))
      = (\<lambda>r. py_eq (dget (row_run r) ''status'') (PStr ''queued''))"
    by (auto simp: fun_eq_iff aget_content)
  then show ?thesis by (simp add: sql_view_def find_map)
qed

lemma find_key:
  "distinct (map key rows) \<Longrightarrow> row \<in> set rows \<Longrightarrow> find (\<lambda>r. key r = key row) rows = Some row"
  by (induction rows) auto

lemma sql_claim_next_view:
  assumes "sql_inv db"
  shows "sql_implements (map_option content) (sql_claim_next_queued clock db) (spec_claim_next (sql_view db))"
proof (cases "find (\<lambda>r. py_eq (dget (row_run r) ''status'') (PStr ''queued'')) (sq_runs db)")
  case None
  then show ?thesis using assms unfolding spec_claim_next_def sql_find_queued
    by (simp add: sql_claim_next_queued_def sop_defs sop_simps sql_implements_def sql_inv_def)
next
  case (Some row)
  then have "row \<in> set (sq_runs db)" by (auto simp: find_Some_iff)
  then have sel: "select_run (rr_id row) db = Some row"
    using find_key [OF sql_inv_distinct [OF assms]] by (simp add: select_run_def)
  from sql_claim_found [OF assms sel, of "\<lambda>_. True" clock] show ?thesis
    using Some unfolding spec_claim_next_def sql_find_queued
    by (auto simp: sql_claim_next_queued_def sop_defs sop_simps sql_implements_def)
qed

definition sql_requeued :: "run_row \<Rightarrow> run_row" where
  "sql_requeued row = (if is_interrupted (row_run row) then
     row\<lparr>rr_payload := jnorm_dict (stored_run (od_set ''status'' (PStr ''queued'') (row_run row))
           (rr_revision row + 1)), rr_revision := rr_revision row + 1\<rparr> else row)"

lemma update_where_split:
  assumes "distinct (map key (xs @ row # ys))"
  shows "update_where (\<lambda>r. key r = key row) f (xs @ row # ys) = xs @ f row # ys"
proof -
  have "map (\<lambda>r. if key r = key row then f r else r) zs = zs" if "key row \<notin> set (map key zs)" for zs
    using that by (intro map_idI) (auto simp: image_iff)
  then show ?thesis using assms by (auto simp: update_where_def)
qed

lemma sql_requeue_items:
  assumes "sq_runs db = xs @ items" "distinct (map rr_id (xs @ items))"
    and "\<forall>r \<in> set items. 0 \<le> rr_revision r"
  shows "\<exists>ids. st_map sql_requeue_one items db = (Inr ids, db\<lparr>sq_runs := xs @ map sql_requeued items\<rparr>)
     \<and> concat ids = map rr_id (filter (\<lambda>r. is_interrupted (row_run r)) items)"
  using assms
proof (induction items arbitrary: db xs)
  case Nil
  then show ?case by (simp add: sop_simps)
next
  case (Cons row items)
  let ?db = "db\<lparr>sq_runs := (xs @ [sql_requeued row]) @ items\<rparr>"
  have new: "next_run (od_set ''status'' (PStr ''queued'') (row_run row)) (rr_revision row)
      = Inr (stored_run (od_set ''status'' (PStr ''queued'') (row_run row)) (rr_revision row + 1))"
    using Cons.prems(3) by (simp add: next_run_Inr row_run_def map_of_stored_run)
  have one: "sql_requeue_one row db = (Inr (if is_interrupted (row_run row) then [rr_id row] else []), ?db)"
    using Cons.prems(1) new update_where_split [OF Cons.prems(2)]
    by (auto simp: sql_requeue_one_def sop_defs sop_simps update_runs_def sql_requeued_def)
  have "\<exists>ids. st_map sql_requeue_one items ?db
        = (Inr ids, ?db\<lparr>sq_runs := (xs @ [sql_requeued row]) @ map sql_requeued items\<rparr>)
      \<and> concat ids = map rr_id (filter (\<lambda>r. is_interrupted (row_run r)) items)"
    using Cons.prems by (intro Cons.IH) (auto simp: sql_requeued_def)
  then show ?case using one by (auto simp: sop_defs sop_simps)
qed

lemma content_row_jnorm:
  "content (stored_run (jnorm_dict (stored_run d n)) n) = content (stored_run d n)"
  by (simp add: content_stored_run content_def fun_eq_iff)

lemma sql_requeue_view:
  assumes "sql_inv db"
  shows "sql_implements id (sql_requeue_interrupted db) (spec_requeue (sql_view db))"
proof -
  have ok: "0 \<le> rr_revision r \<and> arev (content (row_run r)) = rr_revision r" if "r \<in> set (sq_runs db)" for r
    using find_key [OF sql_inv_distinct [OF assms] that] select_run_ok [OF assms, of "rr_id r" r]
    by (simp add: select_run_def)
  have "content (row_run (sql_requeued r)) = arequeue (content (row_run r))" if "r \<in> set (sq_runs db)" for r
  proof (cases "is_interrupted (row_run r)")
    case True
    let ?d = "od_set ''status'' (PStr ''queued'') (row_run r)"
    let ?n = "rr_revision r + 1"
    have "row_run (sql_requeued r) = stored_run (jnorm_dict (stored_run ?d ?n)) ?n"
      using True by (simp add: sql_requeued_def row_run_def)
    then have "content (row_run (sql_requeued r)) = content (stored_run ?d ?n)"
      by (simp add: content_row_jnorm)
    then show ?thesis using True ok [OF that]
      by (simp add: arequeue_def is_interrupted_content content_stored_run_astored content_od_set)
  next
    case False
    then show ?thesis by (simp add: arequeue_def is_interrupted_content sql_requeued_def)
  qed
  moreover obtain ids where "st_map sql_requeue_one (sq_runs db) db
      = (Inr ids, db\<lparr>sq_runs := map sql_requeued (sq_runs db)\<rparr>)"
    "concat ids = map rr_id (filter (\<lambda>r. is_interrupted (row_run r)) (sq_runs db))"
    using sql_requeue_items [of db "[]" "sq_runs db"] ok sql_inv_distinct [OF assms] by auto
  moreover have "rr_id (sql_requeued r) = rr_id r" for r by (simp add: sql_requeued_def)
  ultimately show ?thesis using assms
    by (auto simp: sql_implements_def sql_requeue_interrupted_def sop_defs sop_simps spec_requeue_def
        sql_view_def filter_map comp_def split_def is_interrupted_content sql_inv_def)
qed

lemma sql_implements_out:
  assumes "sql_implements f p q"
  shows "fst (out_map (g \<circ> f) p) = fst (out_map g q) \<and> sql_view (snd (out_map (g \<circ> f) p)) = snd (out_map g q)
    \<and> (\<forall>r \<in> set (sq_events (snd (out_map (g \<circ> f) p))). content (er_payload r) ''seq'' = Some (PInt (er_seq r)))"
proof -
  have "map_sum id g (map_sum id f (fst p)) = map_sum id (g \<circ> f) (fst p)"
    by (cases "fst p") auto
  then show ?thesis using assms by (simp add: sql_implements_def)
qed

lemma sql_exec_spec:
  assumes "sql_inv db"
  shows "fst (sql_exec clock op db) = fst (spec_exec op (sql_view db))
     \<and> sql_view (snd (sql_exec clock op db)) = snd (spec_exec op (sql_view db))
     \<and> (\<forall>r \<in> set (sq_events (snd (sql_exec clock op db))).
           content (er_payload r) ''seq'' = Some (PInt (er_seq r)))"
proof (cases op)
  case OpRequeue
  then show ?thesis
    using sql_implements_out [OF sql_requeue_view [OF assms], of OIds] by (simp add: sql_exec_def)
qed (simp_all only: sql_exec_def repo_op.case spec_exec.simps,
    (intro sql_implements_out sql_create_view sql_update_view sql_transition_view sql_save_view
      sql_claim_view sql_claim_next_view assms)+)

interpretation sql: run_repository "sql_exec clock" sql_inv sql_view for clock
proof
  show "sql_inv s \<Longrightarrow> view_ok (sql_view s)" for s by (simp add: sql_inv_def)
  show "sql_inv s \<Longrightarrow> sql_inv (snd (sql_exec clock op s))" for s op
    using sql_exec_spec [of s clock op] spec_exec_view_ok unfolding sql_inv_def by metis
qed (use sql_exec_spec in auto)

lemma sql_inv_empty: "sql_inv sql_empty"
  by (simp add: sql_inv_def view_ok_def sql_view_def sql_empty_def log_ok_def)

section \<open>What the read methods return\<close>

lemma log_ok_sorted:
  assumes "log_ok (map c es)" "\<And>e. e \<in> set es \<Longrightarrow> c e ''seq'' = Some (PInt (f e))"
  shows "map f es = map (\<lambda>i. int i + 1) [0..<length es]" "sorted (map f es)"
proof -
  show eq: "map f es = map (\<lambda>i. int i + 1) [0..<length es]"
  proof (rule nth_equalityI)
    fix i assume "i < length (map f es)"
    then show "map f es ! i = map (\<lambda>i. int i + 1) [0..<length es] ! i"
      using assms(1) assms(2) [of "es ! i"] by (auto simp: log_ok_def)
  qed simp
  show "sorted (map f es)" unfolding eq by (simp add: sorted_iff_nth_mono)
qed

lemma sql_events_list_view:
  assumes "sql_inv db"
  shows "map content (sql_events_list k db) = rv_log (sql_view db) k"
    "map er_seq (filter (\<lambda>r. er_run r = k) (sq_events db))
       = map (\<lambda>i. int i + 1) [0..<length (sql_events_list k db)]"
proof -
  let ?es = "filter (\<lambda>r. er_run r = k) (sq_events db)"
  have ok: "log_ok (map (content \<circ> er_payload) ?es)"
    "\<And>e. e \<in> set ?es \<Longrightarrow> (content \<circ> er_payload) e ''seq'' = Some (PInt (er_seq e))"
    using assms by (auto simp: sql_inv_def view_ok_def sql_view_def)
  note sorted = log_ok_sorted [where c = "content \<circ> er_payload" and f = er_seq, OF ok]
  have "sort_key er_seq ?es = ?es" using sorted(2) by (rule sort_key_id_if_sorted)
  then show "map content (sql_events_list k db) = rv_log (sql_view db) k"
    "map er_seq ?es = map (\<lambda>i. int i + 1) [0..<length (sql_events_list k db)]"
    using sorted(1) by (simp_all add: sql_events_list_def sql_view_def)
qed

lemma mem_events_list_view:
  assumes "mem_inv s"
  shows "map content (mem_events_list k s) = rv_log (mem_view s) k"
    "map event_seq (mem_events_list k s) = map (\<lambda>i. int i + 1) [0..<length (mem_events_list k s)]"
proof -
  show "map content (mem_events_list k s) = rv_log (mem_view s) k"
    by (simp add: mem_events_list_def mem_view_def)
  have ok: "log_ok (map content (mem_events_list k s))"
    using assms by (simp add: mem_inv_def view_ok_def mem_view_def mem_events_list_def)
  have "content e ''seq'' = Some (PInt (event_seq e))" if e: "e \<in> set (mem_events_list k s)" for e
  proof -
    obtain n where "content e ''seq'' = Some (PInt n)"
      using e ok by (auto simp: log_ok_def in_set_conv_nth)
    then show ?thesis using event_seq_content by simp
  qed
  then show "map event_seq (mem_events_list k s) = map (\<lambda>i. int i + 1) [0..<length (mem_events_list k s)]"
    using log_ok_sorted(1) [where c = content, OF ok] by blast
qed

lemma list_views:
  "map content (mem_list s) = map snd (rv_runs (mem_view s))"
  "map content (sql_list db) = map snd (rv_runs (sql_view db))"
  by (simp_all add: mem_list_def mem_view_def sql_list_def sql_view_def split_def comp_def)

lemma empty_views: "mem_view mem_empty = sql_view sql_empty"
  by (simp add: mem_view_def sql_view_def mem_empty_def sql_empty_def mem_events_for_def)

lemma stores_agree:
  "fst (exec_all (mem_exec c) ops mem_empty) = fst (exec_all (sql_exec c') ops sql_empty)
     \<and> mem_view (snd (exec_all (mem_exec c) ops mem_empty)) = sql_view (snd (exec_all (sql_exec c') ops sql_empty))"
  using mem.exec_all_spec [OF mem_inv_empty, of c ops] sql.exec_all_spec [OF sql_inv_empty, of c' ops]
  by (simp add: empty_views)

text \<open>The operations on runs leave the attempts and commands alone.\<close>

abbreviation sql_rest :: "sql_store \<Rightarrow> attempt_row list \<times> command_row list" where
  "sql_rest s \<equiv> (sq_attempts s, sq_commands s)"

lemma sql_append_keeps [keeps_intros]: "keeps (\<lambda>s. sql_rest s = c) (sql_append_event clock e)"
  unfolding sql_append_event_def Let_def by (intro keeps_intros) simp

lemma sql_pending_keeps [keeps_intros]: "keeps (\<lambda>s. sql_rest s = c) (sql_append_pending clock p)"
  unfolding sql_append_pending_def by (intro keeps_intros)

lemma insert_run_keeps [keeps_intros]: "keeps (\<lambda>s. sql_rest s = c) (insert_run row)"
  unfolding insert_run_def by (intro keeps_intros) simp

lemma update_runs_keeps [keeps_intros]: "keeps (\<lambda>s. sql_rest s = c) (update_runs p d n)"
  unfolding update_runs_def by (intro keeps_intros) simp

lemma as_conflict_keeps [keeps_intros]: "keeps P (as_conflict msg e)"
  by (auto simp: as_conflict_def intro: keeps_intros split: exn.splits)

lemma sql_requeue_one_keeps [keeps_intros]: "keeps (\<lambda>s. sql_rest s = c) (sql_requeue_one r)"
  unfolding sql_requeue_one_def by (intro keeps_intros)

lemma sql_run_rest: "keeps (\<lambda>s. sql_rest s = c) (sql_exec clock op)"
proof -
  have "keeps (\<lambda>s. sql_rest s = c) (sql_create clock run ev)" for run ev
    unfolding sql_create_def Let_def by (intro keeps_intros)
  moreover have "keeps (\<lambda>s. sql_rest s = c) (sql_update clock run er es ev)" for run er es ev
    unfolding sql_update_def Let_def by (intro keeps_intros)
  moreover have "keeps (\<lambda>s. sql_rest s = c) (sql_transition clock k er es st ch ev)" for k er es st ch ev
    unfolding sql_transition_def Let_def by (intro keeps_intros)
  moreover have "keeps (\<lambda>s. sql_rest s = c) (sql_save run)" for run
    unfolding sql_save_def Let_def by (intro keeps_intros) simp_all
  moreover have "keeps (\<lambda>s. sql_rest s = c) (sql_claim clock k)" for k
    unfolding sql_claim_def Let_def by (intro keeps_intros)
  moreover have "keeps (\<lambda>s. sql_rest s = c) (sql_claim_next_queued clock)"
    unfolding sql_claim_next_queued_def Let_def by (intro keeps_intros)
  moreover have "keeps (\<lambda>s. sql_rest s = c) sql_requeue_interrupted"
    unfolding sql_requeue_interrupted_def by (intro keeps_intros)
  ultimately show ?thesis unfolding keeps_def by (cases op) (simp_all add: sql_exec_def)
qed

end
