(* ===== verification/Attempt_Store.thy ===== *)
theory Attempt_Store
  imports Sqlite_Store
begin

text \<open>
  Case attempts, from \<^verbatim>\<open>packages/storage/motte_storage/audit_store.py\<close>: \<^verbatim>\<open>MemoryAttempts\<close> and
  \<^verbatim>\<open>SQLiteAttempts\<close>.  An attempt is the record of one execution of a case: it is begun as
  \<^verbatim>\<open>prepared\<close>, dispatched, and ends as \<^verbatim>\<open>succeeded\<close>, \<^verbatim>\<open>failed\<close> or \<^verbatim>\<open>indeterminate\<close>.  The generated
  identifier (\<^verbatim>\<open>uuid4().hex\<close>) and \<^verbatim>\<open>datetime.now(UTC).isoformat()\<close> are arguments.  The locale
  \<open>attempt_repository\<close> states what both stores promise about the table of attempts.
\<close>

section \<open>Shared helpers\<close>

definition OPEN_STATES :: "string list" where
  "OPEN_STATES = [''prepared'', ''dispatching'', ''indeterminate'']"

definition attempt_trial_id :: "pydict \<Rightarrow> exn + string" where
  "attempt_trial_id rec = (case dget rec ''trial_id'' of
       PNone \<Rightarrow> Inr []
     | PStr s \<Rightarrow> Inr s
     | _ \<Rightarrow> Inl (ValueError ''attempt trial_id must be a string when provided''))"

text \<open>The two \<^verbatim>\<open>repr\<close> values at the end of the message are left out.\<close>

definition indexed_attempt :: "pydict \<Rightarrow> string \<Rightarrow> exn + pydict" where
  "indexed_attempt payload trial_id =
     (let normalized = (case dget payload ''trial_id'' of PStr s \<Rightarrow> Some s | PNone \<Rightarrow> Some [] | _ \<Rightarrow> None)
      in if normalized \<noteq> Some trial_id then
           Inl (RunConflictError ''attempt payload trial_id differs from the indexed trial_id'')
         else Inr payload)"

text \<open>The checks both \<^verbatim>\<open>begin\<close> methods make before they take the lock.\<close>

definition prepare_attempt :: "pydict \<Rightarrow> string \<Rightarrow> exn + pydict" where
  "prepare_attempt rec hex =
     res_bind (new_record rec ''attempt'' ''prepared'' hex) (\<lambda>stored0.
       if \<not> nonempty_str (dget stored0 ''case_id'') then
         Inl (ValueError ''attempt needs a nonempty case_id'')
       else (let stored = dsetdefault ''attempt_no'' (PInt 1) stored0 in
         if (case dget stored ''attempt_no'' of PInt n \<Rightarrow> n < 1 | _ \<Rightarrow> True) then
           Inl (ValueError ''attempt_no must be a positive integer'')
         else res_bind (attempt_trial_id stored) (\<lambda>trial_id.
           Inr (od_set ''trial_id'' (PStr trial_id) stored))))"

definition opt_str :: "string option \<Rightarrow> pyval" where
  "opt_str v = (case v of None \<Rightarrow> PNone | Some s \<Rightarrow> PStr s)"

definition same_case :: "string \<Rightarrow> string \<Rightarrow> pydict \<Rightarrow> bool" where
  "same_case run_id case_id item \<longleftrightarrow>
     py_eq (dget item ''run_id'') (PStr run_id) \<and> py_eq (dget item ''case_id'') (PStr case_id)"

definition status_in :: "string list \<Rightarrow> pydict \<Rightarrow> bool" where
  "status_in states item = list_ex (\<lambda>st. py_eq (dget item ''status'') (PStr st)) states"

section \<open>In-memory attempts\<close>

text \<open>Every row has been written by \<^verbatim>\<open>begin\<close>, so the keys its comparisons read are present.\<close>

definition mem_att_begin ::
    "pydict \<Rightarrow> int option \<Rightarrow> string option \<Rightarrow> string \<Rightarrow> (mem_store, exn, pydict) sop" where
  "mem_att_begin rec expected_run_revision expected_run_status hex =
     st_bind (st_lift (prepare_attempt rec hex)) (\<lambda>stored.
     st_bind (st_lift (ditem_str stored ''id'')) (\<lambda>aid.
     st_bind (st_lift (ditem_str stored ''run_id'')) (\<lambda>run_id.
     st_bind (st_lift (ditem_str stored ''case_id'')) (\<lambda>case_id.
     st_bind (st_lift (ditem_str stored ''trial_id'')) (\<lambda>trial_id.
     if (expected_run_revision = None) \<noteq> (expected_run_status = None) then
       st_raise (ValueError ''provide both expected Run revision and status'')
     else st_bind (st_get (mem_get run_id)) (\<lambda>run.
     if (case expected_run_revision of None \<Rightarrow> False | Some er \<Rightarrow> (case run of None \<Rightarrow> True
           | Some d \<Rightarrow> \<not> py_eq (dget d ''revision'') (PInt er)
                       \<or> \<not> py_eq (dget d ''status'') (opt_str expected_run_status))) then
       st_raise (RunConflictError (''run revision or status changed: '' @ run_id))
     else st_bind (st_get (mem_case_get run_id case_id)) (\<lambda>result.
     if trial_id = [] \<and> result \<noteq> None then
       st_raise (RunConflictError (''case result already exists: '' @ case_id))
     else st_bind (st_get ms_attempts) (\<lambda>rows.
     if list_ex (\<lambda>item. same_case run_id case_id item \<and> attempt_trial_id item = Inr trial_id
           \<and> status_in OPEN_STATES item) (od_values rows) then
       st_raise (RunConflictError (''case already has an open attempt: '' @ case_id))
     else if map_of rows aid \<noteq> None \<or> list_ex (\<lambda>item. same_case run_id case_id item
           \<and> py_eq (dget item ''attempt_no'') (dget stored ''attempt_no'')) (od_values rows) then
       st_raise (RunConflictError ''attempt id or attempt_no already exists'')
     else st_bind (st_modify (\<lambda>s. s\<lparr>ms_attempts := od_set aid stored (ms_attempts s)\<rparr>))
       (\<lambda>_. st_return stored)))))))))"

definition mem_att_dispatch ::
    "string \<Rightarrow> int \<Rightarrow> string \<Rightarrow> int \<Rightarrow> string \<Rightarrow> string \<Rightarrow> (mem_store, exn, pydict) sop" where
  "mem_att_dispatch aid expected_revision run_id expected_run_revision expected_run_status now =
     st_bind (st_get (mem_get run_id)) (\<lambda>run.
     if (case run of None \<Rightarrow> True
         | Some d \<Rightarrow> \<not> py_eq (dget d ''revision'') (PInt expected_run_revision)
             \<or> \<not> py_eq (dget d ''status'') (PStr expected_run_status)
             \<or> py_truthy (dget d ''cancellation'')) then
       st_raise (RunConflictError (''run is no longer dispatchable: '' @ run_id))
     else st_bind (st_get (\<lambda>s. map_of (ms_attempts s) aid)) (\<lambda>found. case found of
         None \<Rightarrow> st_raise (RunConflictError (''attempt missing: '' @ aid))
       | Some current \<Rightarrow>
           if \<not> py_eq (dget current ''run_id'') (PStr run_id) then
             st_raise (RunConflictError (''attempt belongs to another run: '' @ aid))
           else st_bind (st_lift (advance_record current expected_revision ''prepared'' ''dispatching''
                  [(''dispatched_at'', PStr now)] ATTEMPT_TRANSITIONS)) (\<lambda>stored.
             st_bind (st_modify (\<lambda>s. s\<lparr>ms_attempts := od_set aid stored (ms_attempts s)\<rparr>))
               (\<lambda>_. st_return stored))))"

definition mem_att_get :: "string \<Rightarrow> mem_store \<Rightarrow> pydict option" where
  "mem_att_get aid s = map_of (ms_attempts s) aid"

definition mem_att_list :: "string \<Rightarrow> mem_store \<Rightarrow> pydict list" where
  "mem_att_list run_id s =
     filter (\<lambda>item. py_eq (dget item ''run_id'') (PStr run_id)) (od_values (ms_attempts s))"

definition mem_att_list_open :: "string \<Rightarrow> mem_store \<Rightarrow> pydict list" where
  "mem_att_list_open run_id s = filter (status_in OPEN_STATES) (mem_att_list run_id s)"

definition mem_att_transition ::
    "string \<Rightarrow> int \<Rightarrow> string \<Rightarrow> string \<Rightarrow> pydict \<Rightarrow> (mem_store, exn, pydict) sop" where
  "mem_att_transition aid expected_revision expected_status status changes =
     st_bind (st_get (\<lambda>s. map_of (ms_attempts s) aid)) (\<lambda>found. case found of
         None \<Rightarrow> st_raise (RunConflictError (''attempt missing: '' @ aid))
       | Some current \<Rightarrow>
           st_bind (st_lift (advance_record current expected_revision expected_status status changes
                  ATTEMPT_TRANSITIONS)) (\<lambda>stored.
             st_bind (st_modify (\<lambda>s. s\<lparr>ms_attempts := od_set aid stored (ms_attempts s)\<rparr>))
               (\<lambda>_. st_return stored)))"

text \<open>What both \<^verbatim>\<open>complete\<close> methods check of the attempt and the case result.\<close>

definition check_case_result :: "pydict \<Rightarrow> pydict option \<Rightarrow> exn + unit" where
  "check_case_result previous case_run = (case case_run of
       None \<Rightarrow> Inr ()
     | Some c \<Rightarrow> res_bind (attempt_trial_id previous) (\<lambda>trial_id.
         if trial_id \<noteq> [] then
           Inl (RunConflictError ''trial-scoped attempts must not write the task-level case result'')
         else res_bind (ditem previous ''run_id'') (\<lambda>run_id.
         if \<not> py_eq (dget c ''run_id'') run_id then
           Inl (ValueError ''case result must match the attempt run and case'')
         else res_bind (ditem previous ''case_id'') (\<lambda>case_id.
         if \<not> py_eq (dget c ''case_id'') case_id then
           Inl (ValueError ''case result must match the attempt run and case'')
         else Inr ()))))"

definition mem_att_complete ::
    "(nat \<Rightarrow> utc) \<Rightarrow> string \<Rightarrow> int \<Rightarrow> string \<Rightarrow> string \<Rightarrow> pydict \<Rightarrow> pydict option \<Rightarrow> pydict option
     \<Rightarrow> (mem_store, exn, pydict) sop" where
  "mem_att_complete clock aid expected_revision expected_status status changes case_run event =
     (if status \<notin> {''succeeded'', ''failed''} then
        st_raise (ValueError ''attempt completion requires succeeded or failed'')
      else st_bind (st_get (\<lambda>s. map_of (ms_attempts s) aid)) (\<lambda>found. case found of
         None \<Rightarrow> st_raise (RunConflictError (''attempt missing: '' @ aid))
       | Some previous \<Rightarrow>
           st_bind (st_lift (ditem_str previous ''run_id'')) (\<lambda>run_id.
           st_bind (st_lift (validate_event event run_id)) (\<lambda>pending.
           st_bind (st_lift (check_case_result previous case_run)) (\<lambda>_.
           st_bind (st_lift (advance_record previous expected_revision expected_status status changes
               ATTEMPT_TRANSITIONS)) (\<lambda>stored.
           st_bind (case case_run of None \<Rightarrow> st_return () | Some c \<Rightarrow>
               st_bind (st_lift (ditem_str previous ''case_id'')) (\<lambda>case_id.
               st_bind (st_get (mem_case_get run_id case_id)) (\<lambda>old.
               if (case old of None \<Rightarrow> False | Some o' \<Rightarrow> \<not> py_eq (PDict o') (PDict c)) then
                 st_raise (RunConflictError ''a different case result is already persisted'')
               else st_return ()))) (\<lambda>_.
           st_bind (case pending of None \<Rightarrow> st_return ()
               | Some e \<Rightarrow> st_bind (mem_append_event clock e) (\<lambda>_. st_return ())) (\<lambda>_.
           st_bind (case case_run of None \<Rightarrow> st_return ()
               | Some c \<Rightarrow> st_bind (mem_case_upsert c) (\<lambda>_. st_return ())) (\<lambda>_.
           st_bind (st_modify (\<lambda>s. s\<lparr>ms_attempts := od_set aid stored (ms_attempts s)\<rparr>))
             (\<lambda>_. st_return stored))))))))))"

definition mem_mark_one :: "string \<Rightarrow> string \<times> pydict \<Rightarrow> (mem_store, exn, pydict list) sop" where
  "mem_mark_one run_id p = (case p of (aid, current) \<Rightarrow>
     if py_eq (dget current ''run_id'') (PStr run_id)
        \<and> py_eq (dget current ''status'') (PStr ''dispatching'') then
       st_bind (st_lift (ditem current ''revision'')) (\<lambda>rev.
       st_bind (st_lift (advance_record current (int_of_val rev) ''dispatching'' ''indeterminate'' []
           ATTEMPT_TRANSITIONS)) (\<lambda>stored.
       st_bind (st_modify (\<lambda>s. s\<lparr>ms_attempts := od_set aid stored (ms_attempts s)\<rparr>))
         (\<lambda>_. st_return [stored])))
     else st_return [])"

definition mem_att_mark_indeterminate :: "string \<Rightarrow> (mem_store, exn, pydict list) sop" where
  "mem_att_mark_indeterminate run_id =
     st_bind (st_get ms_attempts) (\<lambda>items.
     st_bind (st_map (mem_mark_one run_id) items) (\<lambda>changed. st_return (concat changed)))"

text \<open>
  One attempt in the quarantine loop: whether it is uncertain, what it becomes and whether it is
  a replacement.
\<close>

definition quarantine_one :: "string \<Rightarrow> string \<times> pydict \<Rightarrow> exn + (string \<times> pydict \<times> bool) option" where
  "quarantine_one run_id p = (case p of (aid, current) \<Rightarrow>
     if \<not> py_eq (dget current ''run_id'') (PStr run_id)
        \<or> \<not> status_in [''dispatching'', ''indeterminate''] current then Inr None
     else if py_eq (dget current ''status'') (PStr ''dispatching'') then
       res_bind (ditem current ''revision'') (\<lambda>rev.
       res_bind (advance_record current (int_of_val rev) ''dispatching'' ''indeterminate'' []
           ATTEMPT_TRANSITIONS) (\<lambda>stored. Inr (Some (aid, stored, True))))
     else Inr (Some (aid, current, False)))"

definition some_values :: "'a option list \<Rightarrow> 'a list" where
  "some_values xs = concat (map (case_option [] (\<lambda>x. [x])) xs)"

definition replacements_of :: "(string \<times> pydict \<times> bool) option list \<Rightarrow> (string, pydict) odict" where
  "replacements_of found =
     map (\<lambda>(aid, d, b). (aid, d)) (filter (\<lambda>(aid, d, b). b) (some_values found))"

definition mem_att_quarantine ::
    "(nat \<Rightarrow> utc) \<Rightarrow> string \<Rightarrow> int \<Rightarrow> string \<Rightarrow> pydict \<Rightarrow> pydict option
     \<Rightarrow> (mem_store, exn, pydict list) sop" where
  "mem_att_quarantine clock run_id expected_run_revision expected_run_status changes event =
     st_bind (st_lift (validate_event event run_id)) (\<lambda>pending.
     if pending = None then st_raise (ValueError ''quarantine requires an event'')
     else st_bind (st_get (mem_get run_id)) (\<lambda>run.
     if (case run of None \<Rightarrow> True
         | Some d \<Rightarrow> \<not> py_eq (dget d ''revision'') (PInt expected_run_revision)) then
       st_raise (RunConflictError (''run revision changed: '' @ run_id))
     else if (case run of None \<Rightarrow> True
         | Some d \<Rightarrow> \<not> py_eq (dget d ''status'') (PStr expected_run_status)) then
       st_raise (RunConflictError (''run status changed: '' @ run_id))
     else st_bind (st_get ms_attempts) (\<lambda>items.
     st_bind (st_lift (res_map (quarantine_one run_id) items)) (\<lambda>found.
     (let uncertain = some_values found; replacements = replacements_of found
      in if uncertain = [] then st_return []
         else st_bind (mem_transition clock run_id expected_run_revision expected_run_status
                ''needs_review'' changes pending) (\<lambda>_.
           st_bind (st_modify (\<lambda>s. s\<lparr>ms_attempts := od_merge (ms_attempts s) replacements\<rparr>))
             (\<lambda>_. st_return (map (\<lambda>(aid, d, b). d) uncertain))))))))"

section \<open>SQLite attempts\<close>

definition select_attempt :: "string \<Rightarrow> sql_store \<Rightarrow> attempt_row option" where
  "select_attempt aid db = find (\<lambda>r. at_id r = aid) (sq_attempts db)"

text \<open>\<^verbatim>\<open>id\<close> is the primary key and \<^verbatim>\<open>(run_id, case_id, attempt_no)\<close> is unique.\<close>

definition insert_attempt :: "attempt_row \<Rightarrow> (sql_store, exn, unit) sop" where
  "insert_attempt row =
     st_bind (st_get (\<lambda>db. list_ex (\<lambda>r. at_id r = at_id row
         \<or> at_run r = at_run row \<and> at_case r = at_case row \<and> at_no r = at_no row) (sq_attempts db))) (\<lambda>dup.
     if dup then st_raise IntegrityError
     else st_modify (\<lambda>db. db\<lparr>sq_attempts := sq_attempts db @ [row]\<rparr>))"

definition update_attempts ::
    "(attempt_row \<Rightarrow> bool) \<Rightarrow> pydict \<Rightarrow> string \<Rightarrow> int \<Rightarrow> (sql_store, exn, nat) sop" where
  "update_attempts p payload status revision =
     st_bind (st_get (\<lambda>db. rowcount p (sq_attempts db))) (\<lambda>n.
     st_bind (st_modify (\<lambda>db. db\<lparr>sq_attempts := update_where p
         (\<lambda>r. r\<lparr>at_payload := jnorm_dict payload, at_status := status, at_revision := revision\<rparr>)
         (sq_attempts db)\<rparr>)) (\<lambda>_. st_return n))"

definition sql_att_begin ::
    "pydict \<Rightarrow> int option \<Rightarrow> string option \<Rightarrow> string \<Rightarrow> (sql_store, exn, pydict) sop" where
  "sql_att_begin rec expected_run_revision expected_run_status hex =
     st_bind (st_lift (prepare_attempt rec hex)) (\<lambda>stored.
     st_bind (st_lift (ditem_str stored ''id'')) (\<lambda>aid.
     st_bind (st_lift (ditem_str stored ''run_id'')) (\<lambda>run_id.
     st_bind (st_lift (ditem_str stored ''case_id'')) (\<lambda>case_id.
     st_bind (st_lift (ditem_str stored ''trial_id'')) (\<lambda>trial_id.
     st_catch (transaction
      (if (expected_run_revision = None) \<noteq> (expected_run_status = None) then
         st_raise (ValueError ''provide both expected Run revision and status'')
       else st_bind (st_get (select_run run_id)) (\<lambda>run.
       if (case expected_run_revision of None \<Rightarrow> False | Some er \<Rightarrow> (case run of None \<Rightarrow> True
             | Some row \<Rightarrow> rr_revision row \<noteq> er
                 \<or> dget (rr_payload row) ''status'' \<noteq> opt_str expected_run_status)) then
         st_raise (RunConflictError (''run revision or status changed: '' @ run_id))
       else st_bind (st_get (select_case run_id case_id)) (\<lambda>result.
       if trial_id = [] \<and> result \<noteq> None then
         st_raise (RunConflictError (''case result already exists: '' @ case_id))
       else st_bind (st_get sq_attempts) (\<lambda>rows.
       if list_ex (\<lambda>r. at_run r = run_id \<and> at_case r = case_id \<and> at_trial r = trial_id
             \<and> at_status r \<in> set OPEN_STATES) rows then
         st_raise (RunConflictError (''case already has an open attempt: '' @ case_id))
       else st_bind (insert_attempt \<lparr>at_id = aid, at_run = run_id, at_case = case_id,
              at_no = int_of_val (dget stored ''attempt_no''), at_status = ''prepared'', at_revision = 1,
              at_payload = jnorm_dict stored, at_trial = trial_id\<rparr>)
         (\<lambda>_. st_return stored))))))
      (as_conflict ''attempt id or attempt_no already exists''))))))"

definition sql_att_dispatch ::
    "string \<Rightarrow> int \<Rightarrow> string \<Rightarrow> int \<Rightarrow> string \<Rightarrow> string \<Rightarrow> (sql_store, exn, pydict) sop" where
  "sql_att_dispatch aid expected_revision run_id expected_run_revision expected_run_status now =
     transaction
      (st_bind (st_get (select_run run_id)) (\<lambda>run_row. case run_row of
         None \<Rightarrow> st_raise (RunConflictError (''run revision or status changed: '' @ run_id))
       | Some rrow \<Rightarrow>
           if rr_revision rrow \<noteq> expected_run_revision then
             st_raise (RunConflictError (''run revision or status changed: '' @ run_id))
           else if \<not> py_eq (dget (row_run rrow) ''status'') (PStr expected_run_status)
                \<or> py_truthy (dget (row_run rrow) ''cancellation'') then
             st_raise (RunConflictError (''run is no longer dispatchable: '' @ run_id))
           else st_bind (st_get (select_attempt aid)) (\<lambda>found. case found of
               None \<Rightarrow> st_raise (RunConflictError (''attempt missing: '' @ aid))
             | Some row \<Rightarrow>
                 st_bind (st_lift (indexed_attempt (at_payload row) (at_trial row))) (\<lambda>current.
                 if \<not> py_eq (dget current ''run_id'') (PStr run_id) then
                   st_raise (RunConflictError (''attempt belongs to another run: '' @ aid))
                 else st_bind (st_lift (advance_record current expected_revision ''prepared''
                      ''dispatching'' [(''dispatched_at'', PStr now)] ATTEMPT_TRANSITIONS)) (\<lambda>stored.
                   st_bind (update_attempts (\<lambda>r. at_id r = aid \<and> at_status r = ''prepared''
                       \<and> at_revision r = expected_revision) stored ''dispatching''
                       (int_of_val (dget stored ''revision''))) (\<lambda>n.
                   if n \<noteq> 1 then
                     st_raise (RunConflictError (''attempt revision or status changed: '' @ aid))
                   else st_return stored))))))"

definition sql_att_get :: "string \<Rightarrow> sql_store \<Rightarrow> exn + pydict option" where
  "sql_att_get aid db = (case select_attempt aid db of
       None \<Rightarrow> Inr None
     | Some row \<Rightarrow> map_sum id Some (indexed_attempt (at_payload row) (at_trial row)))"

definition sql_att_list :: "string \<Rightarrow> sql_store \<Rightarrow> exn + pydict list" where
  "sql_att_list run_id db = res_map (\<lambda>row. indexed_attempt (at_payload row) (at_trial row))
     (filter (\<lambda>r. at_run r = run_id) (sq_attempts db))"

definition sql_att_list_open :: "string \<Rightarrow> sql_store \<Rightarrow> exn + pydict list" where
  "sql_att_list_open run_id db = map_sum id (filter (status_in OPEN_STATES)) (sql_att_list run_id db)"

definition sql_att_transition ::
    "string \<Rightarrow> int \<Rightarrow> string \<Rightarrow> string \<Rightarrow> pydict \<Rightarrow> (sql_store, exn, pydict) sop" where
  "sql_att_transition aid expected_revision expected_status status changes = transaction
     (st_bind (st_get (select_attempt aid)) (\<lambda>found. case found of
         None \<Rightarrow> st_raise (RunConflictError (''attempt missing: '' @ aid))
       | Some row \<Rightarrow>
           st_bind (st_lift (indexed_attempt (at_payload row) (at_trial row))) (\<lambda>current.
           st_bind (st_lift (advance_record current expected_revision expected_status status changes
               ATTEMPT_TRANSITIONS)) (\<lambda>stored.
           st_bind (update_attempts (\<lambda>r. at_id r = aid \<and> at_status r = expected_status
               \<and> at_revision r = expected_revision) stored status
               (int_of_val (dget stored ''revision''))) (\<lambda>n.
           if n \<noteq> 1 then st_raise (RunConflictError (''attempt revision or status changed: '' @ aid))
           else st_return stored)))))"

definition sql_persist_case :: "pydict \<Rightarrow> string \<Rightarrow> pydict option \<Rightarrow> (sql_store, exn, unit) sop" where
  "sql_persist_case previous run_id case_run = (case case_run of None \<Rightarrow> st_return () | Some c \<Rightarrow>
     st_bind (st_lift (ditem_str previous ''case_id'')) (\<lambda>case_id.
     st_bind (st_get (select_case run_id case_id)) (\<lambda>old. case old of
         Some o' \<Rightarrow>
           if \<not> py_eq (PDict (cr_payload o')) (PDict c) then
             st_raise (RunConflictError ''a different case result is already persisted'')
           else st_return ()
       | None \<Rightarrow> st_modify (\<lambda>db. db\<lparr>sq_cases := sq_cases db @
           [\<lparr>cr_run = run_id, cr_case = case_id, cr_ordinal = next_case_ordinal run_id db,
             cr_payload = jnorm_dict c\<rparr>]\<rparr>))))"

definition sql_att_complete ::
    "(nat \<Rightarrow> utc) \<Rightarrow> string \<Rightarrow> int \<Rightarrow> string \<Rightarrow> string \<Rightarrow> pydict \<Rightarrow> pydict option \<Rightarrow> pydict option
     \<Rightarrow> (sql_store, exn, pydict) sop" where
  "sql_att_complete clock aid expected_revision expected_status status changes case_run event =
     (if status \<notin> {''succeeded'', ''failed''} then
        st_raise (ValueError ''attempt completion requires succeeded or failed'')
      else transaction (st_bind (st_get (select_attempt aid)) (\<lambda>found. case found of
         None \<Rightarrow> st_raise (RunConflictError (''attempt missing: '' @ aid))
       | Some row \<Rightarrow>
           st_bind (st_lift (indexed_attempt (at_payload row) (at_trial row))) (\<lambda>previous.
           st_bind (st_lift (ditem_str previous ''run_id'')) (\<lambda>run_id.
           st_bind (st_lift (validate_event event run_id)) (\<lambda>pending.
           st_bind (st_lift (check_case_result previous case_run)) (\<lambda>_.
           st_bind (st_lift (advance_record previous expected_revision expected_status status changes
               ATTEMPT_TRANSITIONS)) (\<lambda>stored.
           st_bind (sql_persist_case previous run_id case_run) (\<lambda>_.
           st_bind (update_attempts (\<lambda>r. at_id r = aid \<and> at_status r = expected_status
               \<and> at_revision r = expected_revision) stored status
               (int_of_val (dget stored ''revision''))) (\<lambda>n.
           if n \<noteq> 1 then st_raise (RunConflictError (''attempt revision or status changed: '' @ aid))
           else st_bind (sql_append_pending clock pending) (\<lambda>_. st_return stored)))))))))))"

definition sql_mark_one :: "attempt_row \<Rightarrow> (sql_store, exn, pydict) sop" where
  "sql_mark_one row =
     st_bind (st_lift (indexed_attempt (at_payload row) (at_trial row))) (\<lambda>current.
     st_bind (st_lift (ditem current ''revision'')) (\<lambda>rev.
     st_bind (st_lift (advance_record current (int_of_val rev) ''dispatching'' ''indeterminate'' []
         ATTEMPT_TRANSITIONS)) (\<lambda>stored.
     st_bind (st_lift (ditem_str stored ''id'')) (\<lambda>aid.
     st_bind (update_attempts (\<lambda>r. at_id r = aid) stored ''indeterminate''
         (int_of_val (dget stored ''revision''))) (\<lambda>_. st_return stored)))))"

definition sql_att_mark_indeterminate :: "string \<Rightarrow> (sql_store, exn, pydict list) sop" where
  "sql_att_mark_indeterminate run_id = transaction
     (st_bind (st_get (\<lambda>db. filter (\<lambda>r. at_run r = run_id \<and> at_status r = ''dispatching'')
         (sq_attempts db))) (\<lambda>rows. st_map sql_mark_one rows))"

definition sql_quarantine_one :: "attempt_row \<Rightarrow> (sql_store, exn, pydict) sop" where
  "sql_quarantine_one row =
     st_bind (st_lift (indexed_attempt (at_payload row) (at_trial row))) (\<lambda>current.
     st_bind (st_lift (ditem current ''status'')) (\<lambda>status.
     if py_eq status (PStr ''dispatching'') then sql_mark_one row
     else st_return current))"

definition sql_att_quarantine ::
    "(nat \<Rightarrow> utc) \<Rightarrow> string \<Rightarrow> int \<Rightarrow> string \<Rightarrow> pydict \<Rightarrow> pydict option
     \<Rightarrow> (sql_store, exn, pydict list) sop" where
  "sql_att_quarantine clock run_id expected_run_revision expected_run_status changes event =
     st_bind (st_lift (validate_event event run_id)) (\<lambda>pending.
     if pending = None then st_raise (ValueError ''quarantine requires an event'')
     else if dhas_any RUN_IDENTITY changes then
       st_raise (ValueError ''quarantine changes cannot overwrite run identity, revision or status'')
     else transaction
      (st_bind (st_get (select_run run_id)) (\<lambda>run_row. case run_row of
         None \<Rightarrow> st_raise (RunConflictError (''run revision changed: '' @ run_id))
       | Some rrow \<Rightarrow>
           if rr_revision rrow \<noteq> expected_run_revision then
             st_raise (RunConflictError (''run revision changed: '' @ run_id))
           else if \<not> py_eq (dget (row_run rrow) ''status'') (PStr expected_run_status) then
             st_raise (RunConflictError (''run status changed: '' @ run_id))
           else st_bind (st_get (\<lambda>db. filter (\<lambda>r. at_run r = run_id
                 \<and> at_status r \<in> {''dispatching'', ''indeterminate''}) (sq_attempts db))) (\<lambda>rows.
             st_bind (st_map sql_quarantine_one rows) (\<lambda>uncertain.
             if uncertain = [] then st_return []
             else st_bind (st_lift (next_run (od_set ''status'' (PStr ''needs_review'')
                    (od_merge (row_run rrow) changes)) expected_run_revision)) (\<lambda>updated_run.
               st_bind (update_runs (\<lambda>r. rr_id r = run_id \<and> rr_revision r = expected_run_revision
                     \<and> dget (rr_payload r) ''status'' = PStr expected_run_status)
                   updated_run (int_of_val (dget updated_run ''revision''))) (\<lambda>n.
               if n \<noteq> 1 then st_raise (RunConflictError (''run revision or status changed: '' @ run_id))
               else st_bind (sql_append_pending clock pending) (\<lambda>_. st_return uncertain))))))))"

section \<open>The table of attempts as a step relation\<close>

type_synonym att_view = "(string, arec) odict"

definition aopen :: "arec \<Rightarrow> bool" where
  "aopen a \<longleftrightarrow> (\<exists>st \<in> set OPEN_STATES. a ''status'' = Some (PStr st))"

definition same_slot :: "arec \<Rightarrow> arec \<Rightarrow> bool" where
  "same_slot a b \<longleftrightarrow> a ''run_id'' = b ''run_id'' \<and> a ''case_id'' = b ''case_id''
     \<and> a ''trial_id'' = b ''trial_id''"

definition same_number :: "arec \<Rightarrow> arec \<Rightarrow> bool" where
  "same_number a b \<longleftrightarrow> a ''run_id'' = b ''run_id'' \<and> a ''case_id'' = b ''case_id''
     \<and> a ''attempt_no'' = b ''attempt_no''"

definition att_row_ok :: "string \<Rightarrow> arec \<Rightarrow> bool" where
  "att_row_ok k a \<longleftrightarrow> a ''id'' = Some (PStr k)
     \<and> (\<forall>i \<in> {''run_id'', ''case_id'', ''trial_id'', ''status''}. \<exists>s. a i = Some (PStr s))
     \<and> (\<exists>n. a ''attempt_no'' = Some (PInt n)) \<and> (\<exists>r. a ''revision'' = Some (PInt r))"

text \<open>
  \<open>attempts_ok\<close>: no two open attempts share a run, case and trial, and no two attempts of a case
  share a number.
\<close>

definition attempts_ok :: "att_view \<Rightarrow> bool" where
  "attempts_ok v \<longleftrightarrow> distinct (map fst v) \<and> (\<forall>(k, a) \<in> set v. att_row_ok k a)
     \<and> (\<forall>(k, a) \<in> set v. \<forall>(l, b) \<in> set v. k \<noteq> l \<longrightarrow>
           \<not> (same_slot a b \<and> aopen a \<and> aopen b) \<and> \<not> same_number a b)"

definition same_identity :: "arec \<Rightarrow> arec \<Rightarrow> bool" where
  "same_identity a b \<longleftrightarrow>
     (\<forall>i \<in> {''id'', ''run_id'', ''case_id'', ''attempt_no'', ''trial_id''}. b i = a i)"

definition advances :: "arec \<Rightarrow> arec \<Rightarrow> bool" where
  "advances a b \<longleftrightarrow> same_identity a b
     \<and> (\<exists>old new r. a ''status'' = Some (PStr old) \<and> b ''status'' = Some (PStr new)
          \<and> may_follow ATTEMPT_TRANSITIONS old new
          \<and> a ''revision'' = Some (PInt r) \<and> b ''revision'' = Some (PInt (r + 1)))"

inductive att_step :: "att_view \<Rightarrow> att_view \<Rightarrow> bool" where
  att_begin: "map_of v k = None \<Longrightarrow> att_row_ok k a \<Longrightarrow> a ''status'' = Some (PStr ''prepared'') \<Longrightarrow>
    \<forall>(l, b) \<in> set v. \<not> (same_slot a b \<and> aopen b) \<and> \<not> same_number a b \<Longrightarrow> att_step v (od_set k a v)"
| att_advance: "map_of v k = Some a \<Longrightarrow> advances a b \<Longrightarrow> att_step v (od_set k b v)"

inductive_cases att_stepE: "att_step v v'"

abbreviation att_steps :: "att_view \<Rightarrow> att_view \<Rightarrow> bool" where
  "att_steps \<equiv> att_step\<^sup>*\<^sup>*"

lemma advances_ok: "advances a b \<Longrightarrow> att_row_ok k a \<Longrightarrow> att_row_ok k b"
  by (auto simp: advances_def att_row_ok_def same_identity_def)

lemma advances_aopen: "advances a b \<Longrightarrow> aopen b \<Longrightarrow> aopen a"
  by (auto simp: advances_def aopen_def OPEN_STATES_def may_follow_attempt)

lemma advances_slot: "advances a b \<Longrightarrow> same_slot b c = same_slot a c \<and> same_number b c = same_number a c"
  by (simp add: advances_def same_identity_def same_slot_def same_number_def)

lemma same_slot_sym: "same_slot a b = same_slot b a"
  by (auto simp: same_slot_def)

lemma same_number_sym: "same_number a b = same_number b a"
  by (auto simp: same_number_def)

lemma set_od_set_distinct:
  "distinct (map fst d) \<Longrightarrow> set (od_set k v d) = insert (k, v) {p \<in> set d. fst p \<noteq> k}"
  by (induction d) (auto simp: image_iff)

lemma attempts_okD:
  assumes "attempts_ok v" "(k, a) \<in> set v" "(l, b) \<in> set v" "k \<noteq> l"
  shows "\<not> (same_slot a b \<and> aopen a \<and> aopen b) \<and> \<not> same_number a b"
proof -
  have "\<forall>p \<in> set v. \<forall>q \<in> set v. fst p \<noteq> fst q \<longrightarrow>
      \<not> (same_slot (snd p) (snd q) \<and> aopen (snd p) \<and> aopen (snd q)) \<and> \<not> same_number (snd p) (snd q)"
    using assms(1) by (simp add: attempts_ok_def split_def)
  from bspec [OF bspec [OF this assms(2)] assms(3)] assms(4) show ?thesis by simp
qed

lemma attempts_ok_set:
  assumes "attempts_ok v" "att_row_ok k b"
    and "\<forall>(l, c) \<in> set v. l \<noteq> k \<longrightarrow> \<not> (same_slot b c \<and> aopen b \<and> aopen c) \<and> \<not> same_number b c"
  shows "attempts_ok (od_set k b v)"
proof -
  have d: "distinct (map fst v)" using assms(1) by (simp add: attempts_ok_def)
  then have "distinct (map fst (od_set k b v))" by (rule distinct_od_set)
  moreover have "\<forall>(l, c) \<in> set (od_set k b v). att_row_ok l c"
    using assms(1,2) by (auto simp: set_od_set_distinct [OF d] attempts_ok_def)
  moreover have "\<not> (same_slot x y \<and> aopen x \<and> aopen y) \<and> \<not> same_number x y"
    if "(l, x) \<in> set (od_set k b v)" "(m, y) \<in> set (od_set k b v)" "l \<noteq> m" for l m x y
  proof -
    consider "l = k" "m \<noteq> k" | "m = k" "l \<noteq> k" | "l \<noteq> k" "m \<noteq> k" using \<open>l \<noteq> m\<close> by blast
    then show ?thesis
    proof cases
      case 1
      then show ?thesis using that assms(3) by (auto simp: set_od_set_distinct [OF d])
    next
      case 2
      then have "\<not> (same_slot y x \<and> aopen y \<and> aopen x) \<and> \<not> same_number y x"
        using that assms(3) by (auto simp: set_od_set_distinct [OF d])
      then show ?thesis using same_slot_sym [of x y] same_number_sym [of x y] by blast
    next
      case 3
      then show ?thesis using that attempts_okD [OF assms(1)] by (simp add: set_od_set_distinct [OF d])
    qed
  qed
  ultimately show ?thesis unfolding attempts_ok_def by fast
qed

lemma att_step_ok: "att_step v v' \<Longrightarrow> attempts_ok v \<Longrightarrow> attempts_ok v'"
proof (induction rule: att_step.induct)
  case (att_begin v k a)
  then show ?case by (intro attempts_ok_set) auto
next
  case (att_advance v k a b)
  have k: "(k, a) \<in> set v" using att_advance by (simp add: map_of_SomeD)
  with att_advance have "att_row_ok k b" by (auto simp: attempts_ok_def intro: advances_ok)
  moreover have "\<not> (same_slot b c \<and> aopen b \<and> aopen c) \<and> \<not> same_number b c"
    if "(l, c) \<in> set v" "l \<noteq> k" for l c
    using attempts_okD [OF att_advance(3) k that(1)] that(2) att_advance(2)
      advances_slot [of a b c] advances_aopen [of a b] by auto
  ultimately show ?case using att_advance by (intro attempts_ok_set) auto
qed

lemma att_steps_ok: "att_steps v v' \<Longrightarrow> attempts_ok v \<Longrightarrow> attempts_ok v'"
  by (induction rule: rtranclp_induct) (auto intro: att_step_ok)

text \<open>A settled attempt (succeeded, failed or indeterminate) is never written again.\<close>

definition settled :: "arec \<Rightarrow> bool" where
  "settled a \<longleftrightarrow> (\<exists>st \<in> {''succeeded'', ''failed'', ''indeterminate''}. a ''status'' = Some (PStr st))"

definition att_le :: "att_view \<Rightarrow> att_view \<Rightarrow> bool" where
  "att_le v v' \<longleftrightarrow> (\<forall>k a. map_of v k = Some a \<longrightarrow> (\<exists>b. map_of v' k = Some b \<and> same_identity a b
     \<and> (settled a \<longrightarrow> b = a) \<and> (b = a \<or> arev a < arev b)))"

lemma att_le_refl: "att_le v v"
  by (simp add: att_le_def same_identity_def)

lemma att_step_le: "att_step v v' \<Longrightarrow> att_le v v'"
proof (induction rule: att_step.induct)
  case (att_begin v k a)
  then show ?case by (auto simp: att_le_def same_identity_def)
next
  case (att_advance v k a b)
  then have "same_identity a b" "\<not> settled a" "arev a < arev b"
    by (auto simp: advances_def settled_def may_follow_attempt arev_def aget_def int_of_val_def)
  with att_advance show ?case by (auto simp: att_le_def same_identity_def)
qed

lemma att_le_trans: "att_le u v \<Longrightarrow> att_le v w \<Longrightarrow> att_le u w"
proof -
  assume uv: "att_le u v" and vw: "att_le v w"
  have "\<exists>c. map_of w k = Some c \<and> same_identity a c \<and> (settled a \<longrightarrow> c = a) \<and> (c = a \<or> arev a < arev c)"
    if k: "map_of u k = Some a" for k a
  proof -
    from uv k obtain b where b: "map_of v k = Some b" "same_identity a b" "settled a \<longrightarrow> b = a"
      "b = a \<or> arev a < arev b" unfolding att_le_def by blast
    from vw b(1) obtain c where "map_of w k = Some c" "same_identity b c" "settled b \<longrightarrow> c = b"
      "c = b \<or> arev b < arev c" unfolding att_le_def by blast
    with b show ?thesis by (auto simp: same_identity_def)
  qed
  then show "att_le u w" by (simp add: att_le_def)
qed

lemma att_steps_le: "att_steps v v' \<Longrightarrow> att_le v v'"
  by (induction rule: rtranclp_induct) (auto intro: att_le_refl att_le_trans att_step_le)

lemma map_of_map_content:
  "map_of (map (\<lambda>(k, d). (k, content d)) rows) k = map_option content (map_of rows k)"
  by (induction rows) auto

lemma advance_advances:
  assumes "advance_record c er es st ch ATTEMPT_TRANSITIONS = Inr c'" "att_row_ok k (content c)"
  shows "advances (content c) (content c')" "map_of c' ''id'' = Some (PStr k)"
proof -
  note adv = advance_record_Inr [OF assms(1)]
  have keep: "map_of (od_merge c ch) i = map_of c i" if "i \<in> set RECORD_IDENTITY" for i
    using dhas_any_untouched [OF adv(4) that] by simp
  have rev: "content c ''revision'' = Some (PInt er)"
    using adv(1) assms(2) by (auto simp: att_row_ok_def content_def dget_def)
  have st: "content c ''status'' = Some (PStr es)" using adv(2) by (simp add: content_dget_PStr)
  have "same_identity (content c) (content c')"
    using keep by (auto simp: adv(5) same_identity_def content_def RECORD_IDENTITY_def)
  then show "advances (content c) (content c')"
    using rev st adv(3) by (auto simp: advances_def adv(5) content_od_set)
  show "map_of c' ''id'' = Some (PStr k)"
    using keep [of "''id''"] assms(2) by (auto simp: adv(5) att_row_ok_def content_def RECORD_IDENTITY_def)
qed

lemma dispatching_advance:
  assumes "att_row_ok k (content c)" "dget c ''status'' = PStr ''dispatching''"
  shows "\<exists>r c'. ditem c ''revision'' = Inr (PInt r)
     \<and> advance_record c r ''dispatching'' ''indeterminate'' [] ATTEMPT_TRANSITIONS = Inr c'"
  using assms by (auto simp: advance_record_def may_follow_attempt dhas_any_def att_row_ok_def content_def
      ditem_def dget_def list_ex_iff)

lemma prepare_attempt_Inr:
  assumes "prepare_attempt rec hex = Inr d"
  shows "\<exists>k. att_row_ok k (content d) \<and> content d ''status'' = Some (PStr ''prepared'')
     \<and> content d ''revision'' = Some (PInt 1)"
  using assms
  by (auto simp: prepare_attempt_def res_bind_Inr new_record_def Let_def att_row_ok_def content_od_set
      dsetdefault_def dget_def content_def split: if_splits option.splits pyval.splits
      elim!: nonempty_str.elims)

section \<open>The interface\<close>

datatype attempt_op =
    AtBegin pydict "int option" "string option" string
  | AtDispatch string int string int string string
  | AtTransition string int string string pydict
  | AtComplete string int string string pydict "pydict option" "pydict option"
  | AtMark string
  | AtQuarantine string int string pydict "pydict option"

datatype attempt_out = OAttempt arec | OAttempts "arec list"

locale attempt_repository =
  fixes exec :: "'op \<Rightarrow> 's \<Rightarrow> (exn + 'out) \<times> 's"
    and inv :: "'s \<Rightarrow> bool"
    and atts :: "'s \<Rightarrow> att_view"
  assumes atts_ok: "inv s \<Longrightarrow> attempts_ok (atts s)"
    and exec_inv: "inv s \<Longrightarrow> inv (snd (exec op s))"
    and exec_steps: "inv s \<Longrightarrow> att_steps (atts s) (atts (snd (exec op s)))"
    and exec_refused: "inv s \<Longrightarrow> fst (exec op s) = Inl e \<Longrightarrow> atts (snd (exec op s)) = atts s"
begin

lemma script_inv: "inv s \<Longrightarrow> inv (snd (exec_all exec ops s))"
proof (induction ops arbitrary: s)
  case (Cons op ops)
  then show ?case using exec_inv [OF Cons.prems, of op] by (auto simp: split_def)
qed simp

lemma script_steps: "inv s \<Longrightarrow> att_steps (atts s) (atts (snd (exec_all exec ops s)))"
proof (induction ops arbitrary: s)
  case (Cons op ops)
  have "att_steps (atts (snd (exec op s))) (atts (snd (exec_all exec ops (snd (exec op s)))))"
    using Cons.IH exec_inv [OF Cons.prems] .
  then show ?case using exec_steps [OF Cons.prems, of op] by (simp add: split_def)
qed simp

lemma script_ok: "inv s \<Longrightarrow> attempts_ok (atts (snd (exec_all exec ops s)))"
  using script_inv atts_ok by blast

lemma script_le: "inv s \<Longrightarrow> att_le (atts s) (atts (snd (exec_all exec ops s)))"
  using script_steps att_steps_le by blast

end

end
