(* ===== verification/Attempt_Contract.thy ===== *)
theory Attempt_Contract
  imports Attempt_Store
begin

text \<open>
  Both attempt stores implement \<open>attempt_repository\<close>: every method is a sequence of steps of
  the table of attempts, and a method that raises leaves the table as it was.
\<close>

section \<open>In-memory attempts\<close>

definition mem_att_view :: "mem_store \<Rightarrow> att_view" where
  "mem_att_view s = map (\<lambda>(k, d). (k, content d)) (ms_attempts s)"

definition mem_att_inv :: "mem_store \<Rightarrow> bool" where
  "mem_att_inv s \<longleftrightarrow> attempts_ok (mem_att_view s)"

definition mem_att_exec ::
    "(nat \<Rightarrow> utc) \<Rightarrow> attempt_op \<Rightarrow> mem_store \<Rightarrow> (exn + attempt_out) \<times> mem_store" where
  "mem_att_exec clock op s = (case op of
       AtBegin rec er es hex \<Rightarrow> out_map (OAttempt \<circ> content) (mem_att_begin rec er es hex s)
     | AtDispatch aid er run rr rs now \<Rightarrow>
         out_map (OAttempt \<circ> content) (mem_att_dispatch aid er run rr rs now s)
     | AtTransition aid er es st ch \<Rightarrow>
         out_map (OAttempt \<circ> content) (mem_att_transition aid er es st ch s)
     | AtComplete aid er es st ch c ev \<Rightarrow>
         out_map (OAttempt \<circ> content) (mem_att_complete clock aid er es st ch c ev s)
     | AtMark run \<Rightarrow> out_map (OAttempts \<circ> map content) (mem_att_mark_indeterminate run s)
     | AtQuarantine run rr rs ch ev \<Rightarrow>
         out_map (OAttempts \<circ> map content) (mem_att_quarantine clock run rr rs ch ev s))"

text \<open>\<open>mem_moves p s\<close>: the outcome \<open>p\<close> of an operation on \<open>s\<close> is as the interface demands.\<close>

definition mem_moves :: "(exn + 'a) \<times> mem_store \<Rightarrow> mem_store \<Rightarrow> bool" where
  "mem_moves p s \<longleftrightarrow> att_steps (mem_att_view s) (mem_att_view (snd p))
     \<and> (\<forall>e. fst p = Inl e \<longrightarrow> mem_att_view (snd p) = mem_att_view s)"

lemma mem_moves_refl: "ms_attempts t = ms_attempts s \<Longrightarrow> mem_moves (r, t) s"
  by (simp add: mem_moves_def mem_att_view_def)

lemma mem_moves_out: "mem_moves (out_map f p) s = mem_moves p s"
  by (cases "fst p") (auto simp: mem_moves_def)

lemma mem_att_lookup: "map_of (mem_att_view s) k = map_option content (map_of (ms_attempts s) k)"
  by (simp add: mem_att_view_def map_of_map_content)

lemma mem_att_row:
  assumes "mem_att_inv s" "map_of (ms_attempts s) k = Some d"
  shows "att_row_ok k (content d)"
proof -
  have "(k, content d) \<in> set (mem_att_view s)"
    using assms(2) by (auto simp: mem_att_view_def dest: map_of_SomeD)
  then show ?thesis using assms(1) by (auto simp: mem_att_inv_def attempts_ok_def)
qed

lemma mem_att_view_set:
  "mem_att_view (s\<lparr>ms_attempts := od_set k d (ms_attempts t)\<rparr>) = od_set k (content d) (mem_att_view t)"
  using od_set_map_snd [of "\<lambda>k. content" k d "ms_attempts t"] by (simp add: mem_att_view_def)

lemma mem_advance_moves:
  assumes "mem_att_inv s" "map_of (ms_attempts s) k = Some c" "ms_attempts t = ms_attempts s"
    and "advance_record c er es st ch ATTEMPT_TRANSITIONS = Inr c'"
  shows "mem_moves (Inr x, t\<lparr>ms_attempts := od_set k c' (ms_attempts t)\<rparr>) s"
proof -
  have "att_step (mem_att_view s) (od_set k (content c') (mem_att_view s))"
    using advance_advances(1) [OF assms(4) mem_att_row [OF assms(1,2)]] assms(2)
    by (intro att_advance) (simp_all add: mem_att_lookup)
  then show ?thesis
    using assms(3) mem_att_view_set [of k c' s t] by (simp add: mem_moves_def r_into_rtranclp)
qed

lemma mem_append_event_attempts:
  "mem_append_event clock e s = (r, t) \<Longrightarrow> ms_attempts t = ms_attempts s"
  by (auto simp: mem_append_event_def sop_defs sop_simps Let_def split: sum.splits)

lemma mem_case_upsert_attempts: "mem_case_upsert c s = (r, t) \<Longrightarrow> ms_attempts t = ms_attempts s"
  by (auto simp: mem_case_upsert_def sop_defs sop_simps split: sum.splits option.splits)

text \<open>Reads, checks and writes outside the table do not move it.\<close>

named_theorems moves_intros

lemma moves_get [moves_intros]: "mem_moves (f (g t) t) s \<Longrightarrow> mem_moves (st_bind (st_get g) f t) s"
  by (simp add: st_bind_def sop_simps)

lemma moves_lift [moves_intros]:
  "ms_attempts t = ms_attempts s \<Longrightarrow> (\<And>x. r = Inr x \<Longrightarrow> mem_moves (f x t) s) \<Longrightarrow>
   mem_moves (st_bind (st_lift r) f t) s"
  by (cases r) (simp_all add: st_bind_def sop_simps mem_moves_refl)

lemma moves_raise [moves_intros]: "ms_attempts t = ms_attempts s \<Longrightarrow> mem_moves (st_raise e t) s"
  by (simp add: sop_simps mem_moves_refl)

lemma moves_return [moves_intros]: "ms_attempts t = ms_attempts s \<Longrightarrow> mem_moves (st_return x t) s"
  by (simp add: sop_simps mem_moves_refl)

lemma moves_if [moves_intros]:
  "(b \<Longrightarrow> mem_moves (m t) s) \<Longrightarrow> (\<not> b \<Longrightarrow> mem_moves (n t) s) \<Longrightarrow> mem_moves ((if b then m else n) t) s"
  by simp

lemma moves_option [moves_intros]:
  "(r = None \<Longrightarrow> mem_moves (m t) s) \<Longrightarrow> (\<And>x. r = Some x \<Longrightarrow> mem_moves (f x t) s) \<Longrightarrow>
   mem_moves ((case r of None \<Rightarrow> m | Some x \<Rightarrow> f x) t) s"
  by (cases r) simp_all

lemma moves_frame:
  assumes "\<And>r t'. m t = (r, t') \<Longrightarrow> ms_attempts t' = ms_attempts t" "ms_attempts t = ms_attempts s"
    and "\<And>x t'. ms_attempts t' = ms_attempts s \<Longrightarrow> mem_moves (f x t') s"
  shows "mem_moves (st_bind m f t) s"
  using assms by (cases "m t"; cases "fst (m t)") (auto simp: st_bind_def intro: mem_moves_refl)

lemma moves_modify:
  "mem_moves (Inr x, g t) s \<Longrightarrow> mem_moves (st_bind (st_modify g) (\<lambda>_. st_return x) t) s"
  by (simp add: st_bind_def sop_simps)

lemma mem_att_dispatch_moves:
  assumes "mem_att_inv s"
  shows "mem_moves (mem_att_dispatch aid er run rr rs now s) s"
  unfolding mem_att_dispatch_def
  by (intro moves_intros moves_modify mem_advance_moves [OF assms]) auto

lemma mem_att_transition_moves:
  assumes "mem_att_inv s"
  shows "mem_moves (mem_att_transition aid er es st ch s) s"
  unfolding mem_att_transition_def
  by (intro moves_intros moves_modify mem_advance_moves [OF assms]) auto

lemma mem_begin_moves:
  assumes "mem_att_inv s" "prepare_attempt rec hex = Inr d" "ditem_str d ''id'' = Inr k"
    "ditem_str d ''run_id'' = Inr run" "ditem_str d ''case_id'' = Inr c" "ditem_str d ''trial_id'' = Inr t"
    and "\<not> list_ex (\<lambda>item. same_case run c item \<and> attempt_trial_id item = Inr t
           \<and> status_in OPEN_STATES item) (od_values (ms_attempts s))"
      "\<not> (map_of (ms_attempts s) k \<noteq> None \<or> list_ex (\<lambda>item. same_case run c item
           \<and> py_eq (dget item ''attempt_no'') (dget d ''attempt_no'')) (od_values (ms_attempts s)))"
  shows "mem_moves (Inr x, s\<lparr>ms_attempts := od_set k d (ms_attempts s)\<rparr>) s"
proof -
  have ok: "att_row_ok k (content d)" "content d ''status'' = Some (PStr ''prepared'')"
    using prepare_attempt_Inr [OF assms(2)] ditem_str_content [OF assms(3)] by (auto simp: att_row_ok_def)
  have "\<not> (same_slot (content d) (content b) \<and> aopen (content b)) \<and> \<not> same_number (content d) (content b)"
    if "(l, b) \<in> set (ms_attempts s)" for l b
  proof -
    have b: "b \<in> set (od_values (ms_attempts s))" using that by (force simp: od_values_def)
    note str = ditem_str_content [OF assms(4)] ditem_str_content [OF assms(5)] ditem_str_content [OF assms(6)]
    have "same_case run c b" if "same_slot (content d) (content b) \<or> same_number (content d) (content b)"
      using that str by (auto simp: same_slot_def same_number_def same_case_def content_dget_PStr)
    moreover have "attempt_trial_id b = Inr t" if "same_slot (content d) (content b)"
    proof -
      have "dget b ''trial_id'' = PStr t" using that str by (simp add: same_slot_def content_dget_PStr)
      then show ?thesis by (simp add: attempt_trial_id_def)
    qed
    moreover have "status_in OPEN_STATES b" if "aopen (content b)"
      using that by (auto simp: aopen_def status_in_def content_dget_PStr list_ex_iff)
    moreover have "py_eq (dget b ''attempt_no'') (dget d ''attempt_no'')" if "same_number (content d) (content b)"
    proof -
      obtain n where "content d ''attempt_no'' = Some (PInt n)" using ok(1) by (auto simp: att_row_ok_def)
      moreover have "content b ''attempt_no'' = Some (PInt n)"
        using that calculation by (simp add: same_number_def)
      ultimately show ?thesis by (auto simp: content_def dget_def)
    qed
    ultimately show ?thesis using assms(7,8) b unfolding list_ex_iff by blast
  qed
  then have "att_step (mem_att_view s) (od_set k (content d) (mem_att_view s))"
    using assms(8) ok by (intro att_begin) (auto simp: mem_att_view_def map_of_map_content)
  then show ?thesis using mem_att_view_set [of k d s s] by (simp add: mem_moves_def r_into_rtranclp)
qed

lemma mem_att_begin_moves:
  assumes "mem_att_inv s"
  shows "mem_moves (mem_att_begin rec er es hex s) s"
  unfolding mem_att_begin_def
  by (intro moves_intros moves_modify; (rule mem_begin_moves [OF assms]; assumption)?) simp_all

lemma mem_att_complete_moves:
  assumes "mem_att_inv s"
  shows "mem_moves (mem_att_complete clock aid er es st ch c ev s) s"
proof -
  have case_frame: "ms_attempts t' = ms_attempts t"
    if "(case c of None \<Rightarrow> st_return () | Some c \<Rightarrow>
          st_bind (st_lift (ditem_str d ''case_id'')) (\<lambda>case_id.
          st_bind (st_get (mem_case_get run case_id)) (\<lambda>old.
            if (case old of None \<Rightarrow> False | Some o' \<Rightarrow> \<not> py_eq (PDict o') (PDict c)) then
              st_raise (RunConflictError ''a different case result is already persisted'')
            else st_return ()))) t = (r, t')" for d run t t' r
    using that by (auto simp: sop_defs sop_simps split: option.splits sum.splits if_splits)
  have event_frame: "ms_attempts t' = ms_attempts t"
    if "(case p of None \<Rightarrow> st_return ()
         | Some e \<Rightarrow> st_bind (mem_append_event clock e) (\<lambda>_. st_return ())) t = (r, t')" for p t t' r
    using that by (auto simp: sop_defs sop_simps split: option.splits sum.splits prod.splits
        dest: mem_append_event_attempts)
  have upsert_frame: "ms_attempts t' = ms_attempts t"
    if "(case c of None \<Rightarrow> st_return ()
         | Some c \<Rightarrow> st_bind (mem_case_upsert c) (\<lambda>_. st_return ())) t = (r, t')" for t t' r
    using that by (auto simp: sop_defs sop_simps split: option.splits sum.splits prod.splits
        dest: mem_case_upsert_attempts)
  show ?thesis
    unfolding mem_att_complete_def
    apply (intro moves_intros moves_modify refl)
    apply (rule moves_frame, erule case_frame, rule refl)
    apply (rule moves_frame, erule event_frame, assumption)
    apply (rule moves_frame, erule upsert_frame, assumption)
    apply (rule moves_modify, rule mem_advance_moves [OF assms], assumption+)
    done
qed

lemma od_merge_advances:
  assumes "distinct (map fst repl)" "\<forall>(k, b) \<in> set repl. \<exists>a. map_of v k = Some a \<and> advances a b"
  shows "att_steps v (od_merge v repl)"
  using assms
proof (induction repl arbitrary: v)
  case (Cons p repl)
  obtain k b where p: "p = (k, b)" by (cases p)
  from Cons.prems p have "att_step v (od_set k b v)" by (auto intro: att_advance)
  moreover have "att_steps (od_set k b v) (od_merge (od_set k b v) repl)"
    using Cons.prems p by (intro Cons.IH) force+
  ultimately show ?case using p by (simp add: converse_rtranclp_into_rtranclp)
qed simp

lemma mem_att_view_merge:
  "mem_att_view (s\<lparr>ms_attempts := od_merge (ms_attempts t) r\<rparr>)
     = od_merge (mem_att_view t) (map (\<lambda>(k, d). (k, content d)) r)"
proof -
  have "map (\<lambda>(k, d). (k, content d)) (od_merge v r)
      = od_merge (map (\<lambda>(k, d). (k, content d)) v) (map (\<lambda>(k, d). (k, content d)) r)" for v
    by (induction r arbitrary: v) (auto simp: od_set_map_snd [of "\<lambda>k. content"])
  then show ?thesis by (simp add: mem_att_view_def)
qed

text \<open>The replacements a quarantine collects: dispatching attempts of the run, advanced.\<close>

lemma replacements_of_simps [simp]:
  "replacements_of [] = []" "replacements_of (None # ys) = replacements_of ys"
  "replacements_of (Some (k, d, b) # ys) = (if b then (k, d) # replacements_of ys else replacements_of ys)"
  by (simp_all add: replacements_of_def some_values_def)

lemma quarantine_replacements:
  assumes "res_map (quarantine_one run) items = Inr found"
    and "\<forall>(k, c) \<in> set items. att_row_ok k (content c)" "(k, c') \<in> set (replacements_of found)"
  shows "\<exists>c. (k, c) \<in> set items \<and> advances (content c) (content c')"
  using assms
proof (induction items arbitrary: found)
  case (Cons p items)
  obtain l c where p: "p = (l, c)" by (cases p)
  from Cons.prems obtain y ys where f: "found = y # ys" "quarantine_one run p = Inr y"
    "res_map (quarantine_one run) items = Inr ys" by (auto simp: res_bind_Inr)
  have "y = None \<or> (\<exists>d b. y = Some (l, d, b) \<and> (b \<longrightarrow> advances (content c) (content d)))"
    using f(2) p Cons.prems(2) advance_advances(1) [of c _ _ _ _ _ l]
    by (auto simp: quarantine_one_def res_bind_Inr split: if_splits)
  then consider "(k, c') \<in> set (replacements_of ys)" | "k = l" "advances (content c) (content c')"
    using Cons.prems(3) f(1) by (auto split: if_splits)
  then show ?case
  proof cases
    case 1
    then show ?thesis using Cons.IH [OF f(3)] Cons.prems(2) by auto
  next
    case 2
    then show ?thesis using p by auto
  qed
qed simp

lemma quarantine_keys:
  "res_map (quarantine_one run) items = Inr found \<Longrightarrow> distinct (map fst items) \<Longrightarrow>
   distinct (map fst (replacements_of found)) \<and> (\<forall>(k, d) \<in> set (replacements_of found). k \<in> fst ` set items)"
proof (induction items arbitrary: found)
  case (Cons p items)
  obtain l c where p: "p = (l, c)" by (cases p)
  from Cons.prems obtain y ys where f: "found = y # ys" "quarantine_one run p = Inr y"
    "res_map (quarantine_one run) items = Inr ys" by (auto simp: res_bind_Inr)
  have "y = None \<or> (\<exists>d b. y = Some (l, d, b))"
    using f(2) p by (auto simp: quarantine_one_def res_bind_Inr split: if_splits)
  then show ?case using Cons.IH [OF f(3)] Cons.prems(2) f(1) p by (auto split: if_splits) fastforce
qed simp

lemma mem_transition_attempts:
  "mem_transition clock k er es st ch ev s = (r, t) \<Longrightarrow> ms_attempts t = ms_attempts s"
proof -
  have keep: "keeps (\<lambda>t. ms_attempts t = x) (mem_transition clock k er es st ch ev)" for x
    unfolding mem_transition_def mem_publish_def mem_append_event_def Let_def
    by (intro keeps_intros) simp_all
  have "ms_attempts (snd (mem_transition clock k er es st ch ev s)) = ms_attempts s"
    by (rule keepsD [OF keep]) (rule refl)
  then show "mem_transition clock k er es st ch ev s = (r, t) \<Longrightarrow> ?thesis" by simp
qed

lemma mem_att_quarantine_moves:
  assumes "mem_att_inv s"
  shows "mem_moves (mem_att_quarantine clock run rr rs ch ev s) s"
proof -
  have rows: "\<forall>(k, c) \<in> set (ms_attempts s). att_row_ok k (content c)"
    and dist: "distinct (map fst (ms_attempts s))"
    using assms by (auto simp: mem_att_inv_def attempts_ok_def mem_att_view_def comp_def split_def)
  have "mem_moves (Inr x, t\<lparr>ms_attempts := od_merge (ms_attempts t) (replacements_of found)\<rparr>) s"
    if found: "res_map (quarantine_one run) (ms_attempts s) = Inr found"
      and t: "ms_attempts t = ms_attempts s" for found t and x :: "pydict list"
  proof -
    have "\<exists>a. map_of (mem_att_view s) k = Some a \<and> advances a (content c')"
      if "(k, c') \<in> set (replacements_of found)" for k c'
      using quarantine_replacements [OF found rows that] dist
      by (auto simp: mem_att_lookup intro: map_of_is_SomeI)
    then have "att_steps (mem_att_view s)
        (od_merge (mem_att_view s) (map (\<lambda>(k, d). (k, content d)) (replacements_of found)))"
      using quarantine_keys [OF found dist]
      by (intro od_merge_advances) (auto simp: comp_def split_def)
    then show ?thesis using t mem_att_view_merge [where s = t and t = s]
      by (simp add: mem_moves_def)
  qed
  then show ?thesis
    unfolding mem_att_quarantine_def Let_def
    by (intro moves_intros moves_modify moves_frame [OF mem_transition_attempts]) simp_all
qed

text \<open>Marking walks a snapshot of the items; each visited row is still the one in the table.\<close>

lemma mem_mark_items:
  assumes "\<forall>(k, c) \<in> set items. map_of (ms_attempts s) k = Some c \<and> att_row_ok k (content c)"
    and "distinct (map fst items)"
  shows "\<exists>xs t. st_map (mem_mark_one run) items s = (Inr xs, t) \<and> att_steps (mem_att_view s) (mem_att_view t)"
  using assms
proof (induction items arbitrary: s)
  case (Cons p items)
  obtain k c where p: "p = (k, c)" by (cases p)
  have row: "att_row_ok k (content c)" "map_of (ms_attempts s) k = Some c"
    using Cons.prems(1) p by auto
  have "\<exists>x t. mem_mark_one run p s = (Inr x, t) \<and> att_steps (mem_att_view s) (mem_att_view t)
      \<and> (\<forall>l. l \<noteq> k \<longrightarrow> map_of (ms_attempts t) l = map_of (ms_attempts s) l)"
  proof (cases "dget c ''run_id'' = PStr run \<and> dget c ''status'' = PStr ''dispatching''")
    case True
    with dispatching_advance [OF row(1)] obtain r c' where
      c': "ditem c ''revision'' = Inr (PInt r)"
      "advance_record c r ''dispatching'' ''indeterminate'' [] ATTEMPT_TRANSITIONS = Inr c'" by blast
    have "att_step (mem_att_view s) (od_set k (content c') (mem_att_view s))"
      using advance_advances(1) [OF c'(2) row(1)] row(2) by (intro att_advance) (simp_all add: mem_att_lookup)
    then show ?thesis using True c' p mem_att_view_set [of k c' s s]
      by (auto simp: mem_mark_one_def sop_defs sop_simps int_of_val_def)
  next
    case False
    then show ?thesis using p by (auto simp: mem_mark_one_def sop_simps)
  qed
  then obtain x t where t: "mem_mark_one run p s = (Inr x, t)" "att_steps (mem_att_view s) (mem_att_view t)"
    "\<forall>l. l \<noteq> k \<longrightarrow> map_of (ms_attempts t) l = map_of (ms_attempts s) l" by blast
  have "map_of (ms_attempts t) l = Some d \<and> att_row_ok l (content d)" if "(l, d) \<in> set items" for l d
  proof -
    have "l \<noteq> k" using that Cons.prems(2) p by force
    then show ?thesis using that t(3) Cons.prems(1) by auto
  qed
  then have "\<exists>xs u. st_map (mem_mark_one run) items t = (Inr xs, u)
      \<and> att_steps (mem_att_view t) (mem_att_view u)"
    using Cons.prems(2) by (intro Cons.IH) auto
  then show ?case using t by (auto simp: sop_defs sop_simps)
qed (simp add: sop_simps)

lemma mem_att_mark_moves:
  assumes "mem_att_inv s"
  shows "mem_moves (mem_att_mark_indeterminate run s) s"
proof -
  have "\<forall>(k, c) \<in> set (ms_attempts s). map_of (ms_attempts s) k = Some c \<and> att_row_ok k (content c)"
    "distinct (map fst (ms_attempts s))"
    using assms by (auto simp: mem_att_inv_def attempts_ok_def mem_att_view_def comp_def split_def)
  from mem_mark_items [OF this, of run] show ?thesis
    by (auto simp: mem_att_mark_indeterminate_def sop_defs sop_simps mem_moves_def)
qed

lemma mem_att_exec_moves: "mem_att_inv s \<Longrightarrow> mem_moves (mem_att_exec clock op s) s"
  by (cases op) (simp_all add: mem_att_exec_def mem_moves_out mem_att_begin_moves mem_att_dispatch_moves
      mem_att_transition_moves mem_att_complete_moves mem_att_mark_moves mem_att_quarantine_moves)

interpretation mem_att: attempt_repository "mem_att_exec clock" mem_att_inv mem_att_view for clock
proof
  show "mem_att_inv s \<Longrightarrow> mem_att_inv (snd (mem_att_exec clock op s))" for s op
    using mem_att_exec_moves [of s clock op] att_steps_ok unfolding mem_moves_def mem_att_inv_def by blast
qed (use mem_att_exec_moves in \<open>auto simp: mem_moves_def mem_att_inv_def\<close>)

section \<open>SQLite attempts\<close>

text \<open>The indexed columns of a row repeat what its payload says.\<close>

definition att_columns_ok :: "attempt_row \<Rightarrow> bool" where
  "att_columns_ok r \<longleftrightarrow> content (at_payload r) ''run_id'' = Some (PStr (at_run r))
     \<and> content (at_payload r) ''case_id'' = Some (PStr (at_case r))
     \<and> content (at_payload r) ''trial_id'' = Some (PStr (at_trial r))
     \<and> content (at_payload r) ''attempt_no'' = Some (PInt (at_no r))
     \<and> content (at_payload r) ''status'' = Some (PStr (at_status r))
     \<and> content (at_payload r) ''revision'' = Some (PInt (at_revision r))"

definition sql_att_view :: "sql_store \<Rightarrow> att_view" where
  "sql_att_view db = map (\<lambda>r. (at_id r, content (at_payload r))) (sq_attempts db)"

definition sql_att_inv :: "sql_store \<Rightarrow> bool" where
  "sql_att_inv db \<longleftrightarrow> attempts_ok (sql_att_view db) \<and> (\<forall>r \<in> set (sq_attempts db). att_columns_ok r)"

definition sql_att_exec ::
    "(nat \<Rightarrow> utc) \<Rightarrow> attempt_op \<Rightarrow> sql_store \<Rightarrow> (exn + attempt_out) \<times> sql_store" where
  "sql_att_exec clock op db = (case op of
       AtBegin rec er es hex \<Rightarrow> out_map (OAttempt \<circ> content) (sql_att_begin rec er es hex db)
     | AtDispatch aid er run rr rs now \<Rightarrow>
         out_map (OAttempt \<circ> content) (sql_att_dispatch aid er run rr rs now db)
     | AtTransition aid er es st ch \<Rightarrow>
         out_map (OAttempt \<circ> content) (sql_att_transition aid er es st ch db)
     | AtComplete aid er es st ch c ev \<Rightarrow>
         out_map (OAttempt \<circ> content) (sql_att_complete clock aid er es st ch c ev db)
     | AtMark run \<Rightarrow> out_map (OAttempts \<circ> map content) (sql_att_mark_indeterminate run db)
     | AtQuarantine run rr rs ch ev \<Rightarrow>
         out_map (OAttempts \<circ> map content) (sql_att_quarantine clock run rr rs ch ev db))"

definition sql_moves :: "sql_store \<Rightarrow> sql_store \<Rightarrow> bool" where
  "sql_moves db db' \<longleftrightarrow> att_steps (sql_att_view db) (sql_att_view db') \<and> sql_att_inv db'"

lemma sql_moves_refl: "sql_att_inv db \<Longrightarrow> sq_attempts t = sq_attempts db \<Longrightarrow> sql_moves db t"
  by (simp add: sql_moves_def sql_att_inv_def sql_att_view_def)

lemma sql_moves_frame: "sql_moves db t \<Longrightarrow> sq_attempts u = sq_attempts t \<Longrightarrow> sql_moves db u"
  by (simp add: sql_moves_def sql_att_inv_def sql_att_view_def)

lemma sql_moves_trans: "sql_moves a b \<Longrightarrow> sql_moves b c \<Longrightarrow> sql_moves a c"
  by (auto simp: sql_moves_def)

lemma select_attempt_Some:
  "select_attempt k db = Some row \<Longrightarrow> at_id row = k \<and> row \<in> set (sq_attempts db)"
  by (auto simp: select_attempt_def find_Some_iff)

lemma sql_att_row_ok:
  assumes "sql_att_inv db" "r \<in> set (sq_attempts db)"
  shows "att_row_ok (at_id r) (content (at_payload r))" "att_columns_ok r"
    "map_of (sql_att_view db) (at_id r) = Some (content (at_payload r))"
    "select_attempt (at_id r) db = Some r"
proof -
  have d: "distinct (map at_id (sq_attempts db))"
    using assms(1) by (simp add: sql_att_inv_def attempts_ok_def sql_att_view_def comp_def)
  show "att_row_ok (at_id r) (content (at_payload r))" "att_columns_ok r"
    using assms by (auto simp: sql_att_inv_def attempts_ok_def sql_att_view_def)
  show "map_of (sql_att_view db) (at_id r) = Some (content (at_payload r))"
    using assms(2) d by (auto simp: sql_att_view_def comp_def intro!: map_of_is_SomeI)
  show "select_attempt (at_id r) db = Some r"
    using find_key [OF d assms(2)] by (simp add: select_attempt_def)
qed

lemma sql_write_attempt:
  assumes "sql_att_inv db" "select_attempt k db = Some row" "Q row" "sq_attempts t = sq_attempts db"
    and "advance_record (at_payload row) er es st ch ATTEMPT_TRANSITIONS = Inr d"
    and "update_attempts (\<lambda>r. at_id r = k \<and> Q r) d st (int_of_val (dget d ''revision'')) t = (Inr n, u)"
  shows "sql_moves db u"
proof -
  have row: "at_id row = k" "row \<in> set (sq_attempts db)" using select_attempt_Some [OF assms(2)] by auto
  note ok = sql_att_row_ok [OF assms(1) row(2)]
  have adv: "advances (content (at_payload row)) (content d)"
    using advance_advances(1) [OF assms(5) ok(1)] .
  let ?f = "\<lambda>r. r\<lparr>at_payload := jnorm_dict d, at_status := st, at_revision := int_of_val (dget d ''revision'')\<rparr>"
  have u: "sq_attempts u = update_where (\<lambda>r. at_id r = k \<and> Q r) ?f (sq_attempts db)"
    using assms(4,6) by (auto simp: update_attempts_def sop_Inr)
  have d: "distinct (map at_id (sq_attempts db))"
    using assms(1) by (simp add: sql_att_inv_def attempts_ok_def sql_att_view_def comp_def)
  have "sql_att_view u = od_set k (content d) (sql_att_view db)"
    using update_where_key [of at_id "sq_attempts db" k row Q ?f "\<lambda>r. content (at_payload r)"]
      d assms(2,3) u by (simp add: sql_att_view_def select_attempt_def)
  moreover have "att_step (sql_att_view db) (od_set k (content d) (sql_att_view db))"
    using ok(3) row(1) adv by (intro att_advance) auto
  moreover have "att_columns_ok (?f row)"
    using adv ok(2) advance_record_Inr(5) [OF assms(5)]
    by (auto simp: att_columns_ok_def advances_def same_identity_def int_of_val_def dget_def content_def)
  then have "att_columns_ok r" if "r \<in> set (sq_attempts u)" for r
  proof -
    have "r \<in> set (sq_attempts db) \<or> r = ?f row"
      using that u sql_att_row_ok(4) [OF assms(1)] assms(2) by (auto simp: update_where_def)
    then show ?thesis using \<open>att_columns_ok (?f row)\<close> sql_att_row_ok(2) [OF assms(1)] by blast
  qed
  ultimately show ?thesis
    using assms(1) by (auto simp: sql_moves_def sql_att_inv_def intro: att_step_ok)
qed

lemma rowcount_select:
  assumes "sql_att_inv db" "select_attempt k db = Some row" "sq_attempts t = sq_attempts db"
    and "update_attempts (\<lambda>r. at_id r = k \<and> Q r) d st n t = (Inr 1, u)"
  shows "Q row"
proof -
  have "rowcount (\<lambda>r. at_id r = k \<and> Q r) (sq_attempts db) = 1"
    using assms(3,4) by (auto simp: update_attempts_def sop_Inr)
  then have "filter (\<lambda>r. at_id r = k \<and> Q r) (sq_attempts db) \<noteq> []" by (auto simp: rowcount_def)
  then obtain r where "r \<in> set (sq_attempts db)" "at_id r = k" "Q r" by (auto simp: filter_empty_conv)
  then show ?thesis using sql_att_row_ok(4) [OF assms(1)] assms(2) by auto
qed

lemma indexed_attempt_Inr: "indexed_attempt p t = Inr c \<Longrightarrow> c = p"
  by (auto simp: indexed_attempt_def Let_def split: if_splits)

lemma sql_append_pending_attempts:
  "sql_append_pending clock p db = (r, t) \<Longrightarrow> sq_attempts t = sq_attempts db"
  by (auto simp: sql_append_pending_def sql_append_event_def sop_defs sop_simps Let_def
      split: sum.splits option.splits)

lemma update_runs_attempts: "update_runs p d n db = (r, t) \<Longrightarrow> sq_attempts t = sq_attempts db"
  by (auto simp: update_runs_def sop_defs sop_simps)

lemma sql_persist_case_attempts:
  "sql_persist_case d run c db = (r, t) \<Longrightarrow> sq_attempts t = sq_attempts db"
  by (auto simp: sql_persist_case_def sop_defs sop_simps split: option.splits sum.splits if_splits)

lemma sql_checked_write:
  assumes "sql_att_inv db" "select_attempt k db = Some row" "sq_attempts t = sq_attempts db"
    and "advance_record (at_payload row) er es st ch ATTEMPT_TRANSITIONS = Inr d"
    and "update_attempts (\<lambda>r. at_id r = k \<and> at_status r = es \<and> at_revision r = er) d st
           (int_of_val (dget d ''revision'')) t = (Inr 1, u)"
  shows "sql_moves db u"
  using sql_write_attempt [OF assms(1,2) _ assms(3,4,5)] rowcount_select [OF assms(1,2,3,5)] by blast

lemma sql_att_transition_moves:
  assumes "sql_att_inv db" "sql_att_transition aid er es st ch db = (Inr x, t)"
  shows "sql_moves db t"
  using assms(2) sql_checked_write [OF assms(1)]
  by (auto simp: sql_att_transition_def sop_Inr dest!: indexed_attempt_Inr)

lemma sql_att_dispatch_moves:
  assumes "sql_att_inv db" "sql_att_dispatch aid er run rr rs now db = (Inr x, t)"
  shows "sql_moves db t"
  using assms(2) sql_checked_write [OF assms(1)]
  by (auto simp: sql_att_dispatch_def sop_Inr dest!: indexed_attempt_Inr)

lemma sql_att_complete_moves:
  assumes "sql_att_inv db" "sql_att_complete clock aid er es st ch c ev db = (Inr x, t)"
  shows "sql_moves db t"
proof -
  from assms(2) obtain row run pending stored u v where
    row: "select_attempt aid db = Some row"
    and adv: "advance_record (at_payload row) er es st ch ATTEMPT_TRANSITIONS = Inr stored"
    and p: "sql_persist_case (at_payload row) run c db = (Inr (), u)"
    and v: "update_attempts (\<lambda>r. at_id r = aid \<and> at_status r = es \<and> at_revision r = er) stored st
           (int_of_val (dget stored ''revision'')) u = (Inr 1, v)"
    and t: "sql_append_pending clock pending v = (Inr (), t)"
    by (auto simp: sql_att_complete_def sop_Inr dest!: indexed_attempt_Inr)
  from sql_checked_write [OF assms(1) row sql_persist_case_attempts [OF p] adv v] show ?thesis
    using sql_append_pending_attempts [OF t] by (rule sql_moves_frame)
qed

lemma insert_attempt_Inr:
  "insert_attempt row db = (Inr x, t) \<longleftrightarrow> t = db\<lparr>sq_attempts := sq_attempts db @ [row]\<rparr>
     \<and> (\<forall>r \<in> set (sq_attempts db). at_id r \<noteq> at_id row
          \<and> \<not> (at_run r = at_run row \<and> at_case r = at_case row \<and> at_no r = at_no row))"
  by (auto simp: insert_attempt_def sop_Inr list_ex_iff)

lemma as_conflict_Inr: "as_conflict msg e db = (Inr x, t) \<longleftrightarrow> False"
  by (simp add: as_conflict_def sop_simps split: exn.splits)

lemma st_catch_Inr:
  "st_catch m h s = (Inr x, t) \<longleftrightarrow> m s = (Inr x, t) \<or> (\<exists>e u. m s = (Inl e, u) \<and> h e u = (Inr x, t))"
  by (auto simp: st_catch_def split: prod.splits sum.splits)

lemma sql_att_begin_moves:
  assumes "sql_att_inv db" "sql_att_begin rec er es hex db = (Inr x, t)"
  shows "sql_moves db t"
proof -
  from assms(2) obtain d k run c tr where d: "prepare_attempt rec hex = Inr d" "ditem_str d ''id'' = Inr k"
    "ditem_str d ''run_id'' = Inr run" "ditem_str d ''case_id'' = Inr c" "ditem_str d ''trial_id'' = Inr tr"
    and g: "\<not> list_ex (\<lambda>r. at_run r = run \<and> at_case r = c \<and> at_trial r = tr
             \<and> at_status r \<in> set OPEN_STATES) (sq_attempts db)"
    and i: "insert_attempt \<lparr>at_id = k, at_run = run, at_case = c,
              at_no = int_of_val (dget d ''attempt_no''), at_status = ''prepared'', at_revision = 1,
              at_payload = jnorm_dict d, at_trial = tr\<rparr> db = (Inr (), t)"
    by (auto simp: sql_att_begin_def sop_Inr st_catch_Inr as_conflict_Inr)
  let ?row = "\<lparr>at_id = k, at_run = run, at_case = c, at_no = int_of_val (dget d ''attempt_no''),
    at_status = ''prepared'', at_revision = 1, at_payload = jnorm_dict d, at_trial = tr\<rparr>"
  note ins = i [unfolded insert_attempt_Inr]
  note str = ditem_str_content [OF d(2)] ditem_str_content [OF d(3)] ditem_str_content [OF d(4)]
    ditem_str_content [OF d(5)]
  obtain n where n: "content d ''attempt_no'' = Some (PInt n)" "att_row_ok k (content d)"
    "content d ''status'' = Some (PStr ''prepared'')" "content d ''revision'' = Some (PInt 1)"
    using prepare_attempt_Inr [OF d(1)] str(1) by (auto simp: att_row_ok_def)
  have cols: "att_columns_ok ?row" using str n
    by (auto simp: att_columns_ok_def int_of_val_def dget_def content_def)
  have fresh: "k \<notin> fst ` set (sql_att_view db)" using ins by (auto simp: sql_att_view_def)
  have view: "sql_att_view t = od_set k (content d) (sql_att_view db)"
    using ins by (simp add: od_set_fresh [OF fresh]) (simp add: sql_att_view_def)
  have "\<not> (same_slot (content d) (content (at_payload r)) \<and> aopen (content (at_payload r)))
      \<and> \<not> same_number (content d) (content (at_payload r))" if "r \<in> set (sq_attempts db)" for r
  proof -
    have rc: "att_columns_ok r" using sql_att_row_ok(2) [OF assms(1) that] .
    have "\<not> (at_run r = run \<and> at_case r = c \<and> at_no r = n)"
      using ins that n by (auto simp: int_of_val_def dget_def content_def)
    moreover have "\<not> (at_run r = run \<and> at_case r = c \<and> at_trial r = tr \<and> at_status r \<in> set OPEN_STATES)"
      using g that by (auto simp: list_ex_iff)
    ultimately show ?thesis using rc str n
      by (auto simp: att_columns_ok_def same_slot_def same_number_def aopen_def)
  qed
  then have "att_step (sql_att_view db) (sql_att_view t)"
    unfolding view using n fresh by (intro att_begin) (auto simp: sql_att_view_def map_of_eq_None_iff image_iff)
  moreover have "\<forall>r \<in> set (sq_attempts t). att_columns_ok r"
    using ins cols assms(1) by (simp add: sql_att_inv_def)
  ultimately show ?thesis using assms(1) by (auto simp: sql_moves_def sql_att_inv_def intro: att_step_ok)
qed

lemma sql_mark_one_moves:
  assumes "sql_att_inv db" "row \<in> set (sq_attempts db)" "sql_mark_one row db = (Inr x, t)"
  shows "sql_moves db t \<and> (\<forall>r \<in> set (sq_attempts db). at_id r \<noteq> at_id row \<longrightarrow> r \<in> set (sq_attempts t))"
proof -
  note ok = sql_att_row_ok [OF assms(1,2)]
  from assms(3) obtain rev d aid where d: "ditem (at_payload row) ''revision'' = Inr rev"
    "advance_record (at_payload row) (int_of_val rev) ''dispatching'' ''indeterminate'' []
       ATTEMPT_TRANSITIONS = Inr d" "ditem_str d ''id'' = Inr aid"
    "\<exists>n. update_attempts (\<lambda>r. at_id r = aid) d ''indeterminate'' (int_of_val (dget d ''revision'')) db
       = (Inr n, t)"
    by (auto simp: sql_mark_one_def sop_Inr dest!: indexed_attempt_Inr)
  have aid: "aid = at_id row" using advance_advances(2) [OF d(2) ok(1)] d(3) by (simp add: ditem_str_Inr)
  have "sql_moves db t"
    using d(4) sql_write_attempt [where Q = "\<lambda>_. True" and t = db, OF assms(1) ok(4) _ _ d(2)] aid by auto
  moreover have "r \<in> set (sq_attempts t)" if "r \<in> set (sq_attempts db)" "at_id r \<noteq> at_id row" for r
    using that d(4) aid by (force simp: update_attempts_def sop_Inr update_where_def)
  ultimately show ?thesis by blast
qed

lemma sql_mark_items_moves:
  assumes "sql_att_inv db" "\<forall>r \<in> set rows. r \<in> set (sq_attempts db)" "distinct (map at_id rows)"
    and "st_map f rows db = (Inr xs, t)"
    and "\<And>row db x t. row \<in> set rows \<Longrightarrow> f row db = (Inr x, t) \<Longrightarrow>
           t = db \<or> (\<exists>y. sql_mark_one row db = (Inr y, t))"
  shows "sql_moves db t"
  using assms
proof (induction rows arbitrary: db xs)
  case Nil
  then show ?case by (simp add: sop_Inr sql_moves_refl)
next
  case (Cons row rows)
  from Cons.prems(4) obtain x u ys where u: "f row db = (Inr x, u)" "st_map f rows u = (Inr ys, t)"
    by (auto simp: sop_Inr)
  have "sql_moves db u \<and> (\<forall>r \<in> set (sq_attempts db). at_id r \<noteq> at_id row \<longrightarrow> r \<in> set (sq_attempts u))"
    using Cons.prems(5) [OF _ u(1)] Cons.prems(1,2) sql_mark_one_moves [of db row _ u] sql_moves_refl
    by auto
  moreover have "sql_moves u t"
  proof (rule Cons.IH)
    have "at_id r \<noteq> at_id row" if "r \<in> set rows" for r
      using that Cons.prems(3) by (metis distinct.simps(2) image_eqI list.set_map list.simps(9))
    then show "\<forall>r \<in> set rows. r \<in> set (sq_attempts u)" using calculation Cons.prems(2) by simp
  qed (use calculation Cons.prems u(2) in \<open>auto simp: sql_moves_def\<close>)
  ultimately show ?case by (blast intro: sql_moves_trans)
qed

lemma sql_selected_rows:
  assumes "sql_att_inv db"
  shows "\<forall>r \<in> set (filter P (sq_attempts db)). r \<in> set (sq_attempts db)"
    "distinct (map at_id (filter P (sq_attempts db)))"
proof -
  have "distinct (map at_id (sq_attempts db))"
    using assms by (simp add: sql_att_inv_def attempts_ok_def sql_att_view_def comp_def)
  then show "distinct (map at_id (filter P (sq_attempts db)))" by (simp add: distinct_map_filter)
qed simp

lemma sql_att_mark_moves:
  assumes "sql_att_inv db" "sql_att_mark_indeterminate run db = (Inr x, t)"
  shows "sql_moves db t"
proof -
  have "st_map sql_mark_one (filter (\<lambda>r. at_run r = run \<and> at_status r = ''dispatching'')
      (sq_attempts db)) db = (Inr x, t)"
    using assms(2) by (simp add: sql_att_mark_indeterminate_def sop_Inr)
  from sql_mark_items_moves [OF assms(1) sql_selected_rows [OF assms(1)] this] show ?thesis by blast
qed

lemma sql_att_quarantine_moves:
  assumes "sql_att_inv db" "sql_att_quarantine clock run rr rs ch ev db = (Inr x, t)"
  shows "sql_moves db t"
proof -
  from assms(2) obtain xs u where u: "st_map sql_quarantine_one (filter (\<lambda>r. at_run r = run
      \<and> at_status r \<in> {''dispatching'', ''indeterminate''}) (sq_attempts db)) db = (Inr xs, u)"
    and t: "sq_attempts t = sq_attempts u"
    by (auto simp: sql_att_quarantine_def sop_Inr
        dest!: update_runs_attempts sql_append_pending_attempts)
  have "sql_moves db u"
    using sql_mark_items_moves [OF assms(1) sql_selected_rows [OF assms(1)] u]
    by (auto simp: sql_quarantine_one_def sop_Inr)
  then show ?thesis using t by (rule sql_moves_frame)
qed

lemma sql_att_atomic:
  "atomic (sql_att_begin rec er es hex)" "atomic (sql_att_dispatch aid rv run rr rs now)"
  "atomic (sql_att_transition aid rv st0 st ch)" "atomic (sql_att_complete clock aid rv st0 st ch c ev)"
  "atomic (sql_att_mark_indeterminate run)" "atomic (sql_att_quarantine clock run rr rs ch ev)"
proof -
  have conflict: "atomic (as_conflict msg e)" for msg e
    by (auto simp: as_conflict_def intro: atomic_intros split: exn.splits)
  show "atomic (sql_att_begin rec er es hex)"
    unfolding sql_att_begin_def by (intro atomic_intros conflict)
  show "atomic (sql_att_dispatch aid rv run rr rs now)"
    unfolding sql_att_dispatch_def by (intro atomic_intros)
  show "atomic (sql_att_transition aid rv st0 st ch)"
    unfolding sql_att_transition_def by (intro atomic_intros)
  show "atomic (sql_att_complete clock aid rv st0 st ch c ev)"
    unfolding sql_att_complete_def by (intro atomic_intros)
  show "atomic (sql_att_mark_indeterminate run)"
    unfolding sql_att_mark_indeterminate_def by (intro atomic_intros)
  show "atomic (sql_att_quarantine clock run rr rs ch ev)"
    unfolding sql_att_quarantine_def by (intro atomic_intros)
qed

lemma sql_att_exec_refused:
  "fst (sql_att_exec clock op db) = Inl e \<Longrightarrow> snd (sql_att_exec clock op db) = db"
  by (cases op) (auto simp: sql_att_exec_def map_sum_Inl_iff intro: sql_att_atomic [THEN atomicD])

lemma sql_att_exec_moves:
  assumes "sql_att_inv db"
  shows "sql_moves db (snd (sql_att_exec clock op db))"
proof (cases "fst (sql_att_exec clock op db)")
  case (Inl e)
  then show ?thesis using sql_att_exec_refused sql_moves_refl [OF assms] by metis
next
  case (Inr x)
  show ?thesis using Inr
    by (cases op) (auto simp: sql_att_exec_def map_sum_Inr_iff prod_eq_iff
        intro: sql_att_begin_moves [OF assms] sql_att_dispatch_moves [OF assms]
          sql_att_transition_moves [OF assms] sql_att_complete_moves [OF assms]
          sql_att_mark_moves [OF assms] sql_att_quarantine_moves [OF assms])
qed

interpretation sql_att: attempt_repository "sql_att_exec clock" sql_att_inv sql_att_view for clock
proof
  show "sql_att_inv db \<Longrightarrow> sql_att_inv (snd (sql_att_exec clock op db))" for db op
    using sql_att_exec_moves by (simp add: sql_moves_def)
  show "sql_att_inv db \<Longrightarrow> att_steps (sql_att_view db) (sql_att_view (snd (sql_att_exec clock op db)))" for db op
    using sql_att_exec_moves by (simp add: sql_moves_def)
  show "sql_att_inv db \<Longrightarrow> fst (sql_att_exec clock op db) = Inl e \<Longrightarrow>
      sql_att_view (snd (sql_att_exec clock op db)) = sql_att_view db" for db op e
    using sql_att_exec_refused by simp
qed (simp add: sql_att_inv_def)

lemma att_inv_empty: "mem_att_inv mem_empty" "sql_att_inv sql_empty"
  by (simp_all add: mem_att_inv_def sql_att_inv_def attempts_ok_def mem_att_view_def sql_att_view_def
      mem_empty_def sql_empty_def)

section \<open>Attempts among runs\<close>

text \<open>
  Scripts that mix operations on runs and on attempts: an attempt is dispatched or quarantined only while its
  run is in the right state, so both kinds matter.
\<close>

datatype store_call = CRun repo_op | CAttempt attempt_op

definition mem_store_exec :: "(nat \<Rightarrow> utc) \<Rightarrow> store_call \<Rightarrow> mem_store \<Rightarrow> (exn + repo_out + attempt_out) \<times> mem_store" where
  "mem_store_exec clock call s = (case call of
       CRun op \<Rightarrow> out_map Inl (mem_exec clock op s)
     | CAttempt op \<Rightarrow> out_map Inr (mem_att_exec clock op s))"

definition sql_store_exec :: "(nat \<Rightarrow> utc) \<Rightarrow> store_call \<Rightarrow> sql_store \<Rightarrow> (exn + repo_out + attempt_out) \<times> sql_store" where
  "sql_store_exec clock call db = (case call of
       CRun op \<Rightarrow> out_map Inl (sql_exec clock op db)
     | CAttempt op \<Rightarrow> out_map Inr (sql_att_exec clock op db))"

lemma mem_run_attempts [simp]: "ms_attempts (snd (mem_exec clock op s)) = ms_attempts s"
  using keepsD [OF mem_run_rest, of s "mem_rest s" clock op] by simp

lemma sql_run_attempts [simp]: "sq_attempts (snd (sql_exec clock op db)) = sq_attempts db"
  using keepsD [OF sql_run_rest, of db "sql_rest db" clock op] by simp

interpretation mem_all: attempt_repository "mem_store_exec clock" mem_att_inv mem_att_view for clock
proof
  fix s call e assume s: "mem_att_inv s"
  show "attempts_ok (mem_att_view s)" by (rule mem_att.atts_ok [OF s])
  show "mem_att_inv (snd (mem_store_exec clock call s))"
    using mem_att.exec_inv [OF s, of clock] s by (cases call) (simp_all add: mem_store_exec_def out_map_def mem_att_inv_def mem_att_view_def)
  show "att_steps (mem_att_view s) (mem_att_view (snd (mem_store_exec clock call s)))"
    using mem_att.exec_steps [OF s, of clock] by (cases call) (simp_all add: mem_store_exec_def out_map_def mem_att_view_def)
  assume "fst (mem_store_exec clock call s) = Inl e"
  then show "mem_att_view (snd (mem_store_exec clock call s)) = mem_att_view s"
    using mem_att.exec_refused [OF s, of clock _ e] by (cases call) (simp_all add: mem_store_exec_def out_map_def mem_att_view_def map_sum_Inl_iff)
qed

interpretation sql_all: attempt_repository "sql_store_exec clock" sql_att_inv sql_att_view for clock
proof
  fix s call e assume s: "sql_att_inv s"
  show "attempts_ok (sql_att_view s)" by (rule sql_att.atts_ok [OF s])
  show "sql_att_inv (snd (sql_store_exec clock call s))"
    using sql_att.exec_inv [OF s, of clock] s by (cases call) (simp_all add: sql_store_exec_def out_map_def sql_att_inv_def sql_att_view_def)
  show "att_steps (sql_att_view s) (sql_att_view (snd (sql_store_exec clock call s)))"
    using sql_att.exec_steps [OF s, of clock] by (cases call) (simp_all add: sql_store_exec_def out_map_def sql_att_view_def)
  assume "fst (sql_store_exec clock call s) = Inl e"
  then show "sql_att_view (snd (sql_store_exec clock call s)) = sql_att_view s"
    using sql_att.exec_refused [OF s, of clock _ e] by (cases call) (simp_all add: sql_store_exec_def out_map_def sql_att_view_def map_sum_Inl_iff)
qed

text \<open>
  Such a script on a run: its case is attempted, dispatched and quarantined after the loss of its worker, and
  the next attempt is then refused.
\<close>

definition sample_attempts :: "store_call list" where
  "sample_attempts = [CRun (OpCreate [(''id'', PStr ''r''), (''status'', PStr ''running'')] None),
     CAttempt (AtBegin [(''id'', PStr ''a1''), (''run_id'', PStr ''r''), (''case_id'', PStr ''c''), (''attempt_no'', PInt 1)]
       (Some 1) (Some ''running'') ''0''),
     CAttempt (AtDispatch ''a1'' 1 ''r'' 1 ''running'' ''t''),
     CAttempt (AtQuarantine ''r'' 1 ''running'' [] (Some [(''type'', PStr ''q'')])),
     CAttempt (AtBegin [(''id'', PStr ''a2''), (''run_id'', PStr ''r''), (''case_id'', PStr ''c''), (''attempt_no'', PInt 2)]
       None None ''0'')]"

lemma sample_attempts_results:
  "map isl (fst (exec_all (mem_store_exec int) sample_attempts mem_empty)) = [False, False, False, False, True]"
  "map isl (fst (exec_all (sql_store_exec int) sample_attempts sql_empty)) = [False, False, False, False, True]"
  by code_simp+

end
