(* ===== verification/Scoring_Store.thy ===== *)
theory Scoring_Store
  imports Attempt_Contract
begin

text \<open>
  Scoring passes, score sets and commands, from \<^verbatim>\<open>packages/storage/motte_storage/audit_store.py\<close>:
  \<^verbatim>\<open>MemoryScoringPasses\<close>, \<^verbatim>\<open>MemoryScoreSets\<close>, \<^verbatim>\<open>MemoryCommands\<close> and their SQLite counterparts.  Appending a
  scoring pass is the widest write of the store: case rows, the pass, its scores, the run and up to
  four kinds of trace events in one transaction.
\<close>

section \<open>Shared checks of \<^verbatim>\<open>append\<close>\<close>

definition pass_record :: "pydict \<Rightarrow> string \<Rightarrow> exn + pydict" where
  "pass_record rec hex =
     (let result = dsetdefault ''id'' (PStr (''pass-'' @ hex)) rec in
      if \<not> nonempty_str (dget result ''id'') then Inl (ValueError ''scoring pass needs a nonempty id'')
      else if \<not> nonempty_str (dget result ''run_id'') then
        Inl (ValueError ''scoring pass needs a nonempty run_id'')
      else Inr result)"

text \<open>The arguments of \<^verbatim>\<open>append\<close>, as the keyword-only parameters name them.\<close>

record append_args =
  ap_record :: pydict
  ap_scores :: "pydict list"
  ap_revision :: "int option"
  ap_status :: "string option"
  ap_event :: "pydict option"
  ap_final_status :: "string option"
  ap_run_changes :: pydict
  ap_terminal_event :: "pydict option"
  ap_score_events :: "pydict option list"
  ap_no_open_attempts :: bool
  ap_case_rows :: "pyval list option"

text \<open>What the checks before the transaction produce.\<close>

record append_plan =
  pl_stored :: pydict
  pl_id :: string
  pl_run :: string
  pl_rows :: "pydict list"
  pl_case_rows :: "pydict list"
  pl_pending :: "pydict option"
  pl_pending_scores :: "pydict option list"
  pl_pending_terminal :: "pydict option"

definition plan_append :: "(pydict \<Rightarrow> bool) \<Rightarrow> string \<Rightarrow> append_args \<Rightarrow> exn + append_plan" where
  "plan_append score_ok hex a =
     res_bind (pass_record (ap_record a) hex) (\<lambda>stored0.
     res_bind (validate_scores score_ok (ap_scores a)) (\<lambda>rows.
     res_bind (ditem_str stored0 ''run_id'') (\<lambda>run_id.
     res_bind (validate_case_rows (ap_case_rows a) run_id) (\<lambda>case_rows.
     res_bind (ditem_str stored0 ''id'') (\<lambda>pass_id.
     if list_ex (\<lambda>score. \<not> (py_eq (dget score ''scoring_pass_id'') PNone
           \<or> py_eq (dget score ''scoring_pass_id'') (PStr pass_id))) rows then
       Inl (ValueError ''score belongs to a different scoring pass'')
     else
     res_bind (validate_event (ap_event a) run_id) (\<lambda>pending.
     res_bind (res_map (\<lambda>item. validate_event item run_id) (ap_score_events a)) (\<lambda>pending_scores.
     res_bind (validate_event (ap_terminal_event a) run_id) (\<lambda>pending_terminal.
     if (ap_revision a = None) \<noteq> (ap_status a = None) then
       Inl (ValueError ''provide both expected_run_revision and expected_run_status'')
     else if ap_final_status a \<noteq> None \<and> ap_revision a = None then
       Inl (ValueError ''final scoring status requires an expected Run revision and status'')
     else if dhas_any RUN_IDENTITY (ap_run_changes a) then
       Inl (ValueError ''scoring changes cannot overwrite run identity, revision or status'')
     else Inr \<lparr>pl_stored = od_set ''scores'' (PList (map PDict rows)) stored0, pl_id = pass_id,
            pl_run = run_id, pl_rows = rows, pl_case_rows = case_rows, pl_pending = pending,
            pl_pending_scores = pending_scores, pl_pending_terminal = pending_terminal\<rparr>))))))))"

text \<open>\<^verbatim>\<open>{**run, **changes, current_scoring_pass_id: id, status: final_status or run[status]}\<close>\<close>

definition scored_run :: "append_args \<Rightarrow> string \<Rightarrow> pydict \<Rightarrow> exn + pydict" where
  "scored_run a pass_id run =
     res_bind (if py_truthy (opt_str (ap_final_status a)) then Inr (opt_str (ap_final_status a))
               else ditem run ''status'') (\<lambda>status.
     Inr (od_set ''status'' status (od_set ''current_scoring_pass_id'' (PStr pass_id)
       (od_merge run (ap_run_changes a)))))"

text \<open>The events in the order they are appended: a cancelled or unsupported run ends first.\<close>

definition append_events :: "append_plan \<Rightarrow> pydict list" where
  "append_events p =
     (let terminal = (case pl_pending_terminal p of None \<Rightarrow> [] | Some e \<Rightarrow> [e]);
          terminal_first = list_ex (\<lambda>e. py_eq (dget e ''status'') (PStr ''cancelled'')
            \<or> py_eq (dget e ''status'') (PStr ''unsupported'')) terminal
      in (if terminal_first then terminal else []) @ some_values (pl_pending_scores p)
         @ (case pl_pending p of None \<Rightarrow> [] | Some e \<Rightarrow> [e]) @ (if terminal_first then [] else terminal))"

section \<open>In-memory scoring passes\<close>

definition mem_put_case_row :: "string \<Rightarrow> pydict \<Rightarrow> (mem_store, exn, unit) sop" where
  "mem_put_case_row run_id case_row =
     st_bind (st_lift (ditem_str case_row ''case_id'')) (\<lambda>case_id.
     st_bind (st_get (mem_case_get run_id case_id)) (\<lambda>old.
     if old \<noteq> None then
       st_raise (RunConflictError (''case row appeared during terminalization: '' @ case_id))
     else st_bind (mem_case_upsert case_row) (\<lambda>_. st_return ())))"

definition mem_append_events :: "(nat \<Rightarrow> utc) \<Rightarrow> pydict list \<Rightarrow> (mem_store, exn, unit) sop" where
  "mem_append_events clock = st_iter (\<lambda>e. st_bind (mem_append_event clock e) (\<lambda>_. st_return ()))"

definition mem_pass_append ::
    "(pydict \<Rightarrow> bool) \<Rightarrow> (nat \<Rightarrow> utc) \<Rightarrow> string \<Rightarrow> append_args \<Rightarrow> (mem_store, exn, pydict) sop" where
  "mem_pass_append score_ok clock hex a =
     st_bind (st_lift (plan_append score_ok hex a)) (\<lambda>p.
     st_bind (st_get (\<lambda>s. map_of (ms_passes s) (pl_id p))) (\<lambda>old.
     if old \<noteq> None then st_raise (RunConflictError (''scoring pass already exists: '' @ pl_id p))
     else st_bind (st_get (mem_get (pl_run p))) (\<lambda>current.
     if (case ap_revision a of None \<Rightarrow> False | Some er \<Rightarrow> (case current of None \<Rightarrow> True
           | Some d \<Rightarrow> \<not> py_eq (dget d ''revision'') (PInt er)
                       \<or> \<not> py_eq (dget d ''status'') (opt_str (ap_status a)))) then
       st_raise (RunConflictError ''run revision or status changed during scoring'')
     else st_bind (st_get (mem_att_list_open (pl_run p))) (\<lambda>open_attempts.
     if ap_no_open_attempts a \<and> open_attempts \<noteq> [] then
       st_raise (RunConflictError ''run has an open case attempt'')
     else st_bind (st_lift (case ap_revision a of None \<Rightarrow> Inr None | Some er \<Rightarrow> (case current of
             None \<Rightarrow> Inr None
           | Some d \<Rightarrow> res_bind (scored_run a (pl_id p) d) (\<lambda>r.
               res_bind (next_run r er) (\<lambda>u. Inr (Some u)))))) (\<lambda>updated_run.
     st_bind (st_iter (mem_put_case_row (pl_run p)) (pl_case_rows p)) (\<lambda>_.
     st_bind (st_modify (\<lambda>s. s\<lparr>ms_passes := od_set (pl_id p) (pl_stored p) (ms_passes s),
         ms_sets := od_set (pl_id p) (pl_rows p) (ms_sets s)\<rparr>)) (\<lambda>_.
     st_bind (case updated_run of None \<Rightarrow> st_return ()
         | Some u \<Rightarrow> st_modify (\<lambda>s. s\<lparr>ms_runs := od_set (pl_run p) u (ms_runs s)\<rparr>)) (\<lambda>_.
     st_bind (mem_append_events clock (append_events p)) (\<lambda>_. st_return (pl_stored p))))))))))"

definition mem_pass_get :: "string \<Rightarrow> mem_store \<Rightarrow> pydict option" where
  "mem_pass_get pass_id s = map_of (ms_passes s) pass_id"

definition mem_pass_list :: "string \<Rightarrow> mem_store \<Rightarrow> pydict list" where
  "mem_pass_list run_id s =
     filter (\<lambda>item. py_eq (dget item ''run_id'') (PStr run_id)) (od_values (ms_passes s))"

definition last_option :: "'a list \<Rightarrow> 'a option" where
  "last_option xs = (if xs = [] then None else Some (last xs))"

definition mem_pass_current :: "string \<Rightarrow> mem_store \<Rightarrow> pydict option" where
  "mem_pass_current run_id s =
     (let pass_id = (case mem_get run_id s of None \<Rightarrow> PNone | Some run \<Rightarrow> dget run ''current_scoring_pass_id'')
      in if py_truthy pass_id then
           (case (case pass_id of PStr k \<Rightarrow> map_of (ms_passes s) k | _ \<Rightarrow> None) of
              None \<Rightarrow> None
            | Some result \<Rightarrow>
                if py_eq (dget result ''run_id'') (PStr run_id) then Some result else None)
         else last_option (mem_pass_list run_id s))"

definition mem_sets_for_pass :: "string \<Rightarrow> mem_store \<Rightarrow> pydict list" where
  "mem_sets_for_pass pass_id s = (case map_of (ms_sets s) pass_id of None \<Rightarrow> [] | Some rows \<Rightarrow> rows)"

definition mem_sets_for_case :: "string \<Rightarrow> string \<Rightarrow> mem_store \<Rightarrow> pydict list" where
  "mem_sets_for_case pass_id case_id s =
     filter (\<lambda>row. py_eq (dget row ''case_id'') (PStr case_id)) (mem_sets_for_pass pass_id s)"

text \<open>The legacy single-metric read of both stores, on the rows of one case.\<close>

definition single_score :: "string \<Rightarrow> pydict list \<Rightarrow> exn + pydict option" where
  "single_score case_id rows = (case rows of
       [] \<Rightarrow> Inr None
     | [row] \<Rightarrow> Inr (Some row)
     | _ \<Rightarrow> Inl (ValueError (''ambiguous multi-metric scores for case '' @ case_id
                @ ''; query by metric instead'')))"

definition mem_sets_get :: "string \<Rightarrow> string \<Rightarrow> mem_store \<Rightarrow> exn + pydict option" where
  "mem_sets_get pass_id case_id s = single_score case_id (mem_sets_for_case pass_id case_id s)"

definition mem_sets_get_metric ::
    "string \<Rightarrow> string \<Rightarrow> string \<Rightarrow> string \<Rightarrow> string \<Rightarrow> string option \<Rightarrow> mem_store \<Rightarrow> pydict option" where
  "mem_sets_get_metric pass_id case_id metric_id evaluator_id evaluator_version trial_id s =
     find (\<lambda>row.
       py_eq (if py_truthy (dget row ''trial_id'') then dget row ''trial_id'' else PStr [])
             (PStr (case trial_id of None \<Rightarrow> [] | Some t \<Rightarrow> t))
       \<and> py_eq (dget row ''metric_id'') (PStr metric_id)
       \<and> py_eq (dget row ''evaluator_id'') (PStr evaluator_id)
       \<and> py_eq (dget row ''evaluator_version'') (PStr evaluator_version))
     (mem_sets_for_case pass_id case_id s)"

section \<open>SQLite scoring passes\<close>

definition sql_put_case_row :: "string \<Rightarrow> pydict \<Rightarrow> (sql_store, exn, unit) sop" where
  "sql_put_case_row run_id case_row =
     st_bind (st_lift (ditem_str case_row ''case_id'')) (\<lambda>case_id.
     st_bind (st_get (select_case run_id case_id)) (\<lambda>old.
     if old \<noteq> None then
       st_raise (RunConflictError (''case row appeared during terminalization: '' @ case_id))
     else st_modify (\<lambda>db. db\<lparr>sq_cases := sq_cases db @
       [\<lparr>cr_run = run_id, cr_case = case_id, cr_ordinal = next_case_ordinal run_id db,
         cr_payload = jnorm_dict case_row\<rparr>]\<rparr>)))"

definition insert_pass :: "pass_row \<Rightarrow> (sql_store, exn, unit) sop" where
  "insert_pass row = st_bind (st_get (\<lambda>db. list_ex (\<lambda>r. pr_id r = pr_id row) (sq_passes db))) (\<lambda>dup.
     if dup then st_raise IntegrityError
     else st_modify (\<lambda>db. db\<lparr>sq_passes := sq_passes db @ [row]\<rparr>))"

definition insert_set :: "set_row \<Rightarrow> (sql_store, exn, unit) sop" where
  "insert_set row = st_bind (st_get (\<lambda>db. list_ex (\<lambda>r. sr_pass r = sr_pass row \<and> sr_key r = sr_key row)
       (sq_sets db))) (\<lambda>dup.
     if dup then st_raise IntegrityError
     else st_modify (\<lambda>db. db\<lparr>sq_sets := sq_sets db @ [row]\<rparr>))"

text \<open>\<^verbatim>\<open>row.get(k) or ""\<close>: the public contract of a score admits a string or nothing in these columns.\<close>

definition or_empty :: "pyval \<Rightarrow> string" where
  "or_empty v = (if py_truthy v then str_part v else [])"

definition score_key :: "pydict \<Rightarrow> string \<times> string \<times> string \<times> string \<times> string" where
  "score_key row = (str_part (dget row ''case_id''), or_empty (dget row ''trial_id''),
     or_empty (dget row ''metric_id''), or_empty (dget row ''evaluator_id''),
     or_empty (dget row ''evaluator_version''))"

definition sql_append_events :: "(nat \<Rightarrow> utc) \<Rightarrow> pydict list \<Rightarrow> (sql_store, exn, unit) sop" where
  "sql_append_events clock = st_iter (\<lambda>e. st_bind (sql_append_event clock e) (\<lambda>_. st_return ()))"

definition sql_scored_run ::
    "append_args \<Rightarrow> append_plan \<Rightarrow> (sql_store, exn, pydict option) sop" where
  "sql_scored_run a p = (case ap_revision a of
       None \<Rightarrow> st_return None
     | Some er \<Rightarrow> st_bind (st_get (select_run (pl_run p))) (\<lambda>run_row. case run_row of
           None \<Rightarrow> st_raise (RunConflictError ''run revision changed during scoring'')
         | Some rrow \<Rightarrow>
             if rr_revision rrow \<noteq> er then
               st_raise (RunConflictError ''run revision changed during scoring'')
             else if \<not> py_eq (dget (row_run rrow) ''status'') (opt_str (ap_status a)) then
               st_raise (RunConflictError ''run status changed during scoring'')
             else st_bind (st_get (\<lambda>db. list_ex (\<lambda>r. at_run r = pl_run p
                   \<and> at_status r \<in> set OPEN_STATES) (sq_attempts db))) (\<lambda>has_open.
               if ap_no_open_attempts a \<and> has_open then
                 st_raise (RunConflictError ''run has an open case attempt'')
               else st_lift (res_bind (scored_run a (pl_id p) (row_run rrow)) (\<lambda>r.
                 res_bind (next_run r er) (\<lambda>u. Inr (Some u)))))))"

definition sql_publish_run :: "append_args \<Rightarrow> append_plan \<Rightarrow> pydict option \<Rightarrow> (sql_store, exn, unit) sop" where
  "sql_publish_run a p updated_run = (case updated_run of
       None \<Rightarrow> st_return ()
     | Some u \<Rightarrow>
         st_bind (update_runs (\<lambda>r. rr_id r = pl_run p \<and> Some (rr_revision r) = ap_revision a
             \<and> dget (rr_payload r) ''status'' = opt_str (ap_status a))
           u (int_of_val (dget u ''revision''))) (\<lambda>n.
         if n \<noteq> 1 then st_raise (RunConflictError ''run revision or status changed during scoring'')
         else st_return ()))"

definition sql_pass_append ::
    "(pydict \<Rightarrow> bool) \<Rightarrow> (nat \<Rightarrow> utc) \<Rightarrow> string \<Rightarrow> append_args \<Rightarrow> (sql_store, exn, pydict) sop" where
  "sql_pass_append score_ok clock hex a =
     st_bind (st_lift (plan_append score_ok hex a)) (\<lambda>p.
     st_catch (transaction
      (st_bind (sql_scored_run a p) (\<lambda>updated_run.
       st_bind (st_iter (sql_put_case_row (pl_run p)) (pl_case_rows p)) (\<lambda>_.
       st_bind (insert_pass \<lparr>pr_id = pl_id p, pr_run = pl_run p, pr_payload = jnorm_dict (pl_stored p)\<rparr>) (\<lambda>_.
       st_bind (st_iter (\<lambda>(index, row). insert_set \<lparr>sr_pass = pl_id p, sr_key = score_key row,
           sr_ordinal = int index, sr_payload = jnorm_dict row\<rparr>) (enumerate 0 (pl_rows p))) (\<lambda>_.
       st_bind (sql_publish_run a p updated_run) (\<lambda>_.
       st_bind (sql_append_events clock (append_events p)) (\<lambda>_. st_return (pl_stored p)))))))))
      (as_conflict (''scoring pass already exists: '' @ pl_id p)))"

definition sql_pass_get :: "string \<Rightarrow> sql_store \<Rightarrow> pydict option" where
  "sql_pass_get pass_id db = map_option pr_payload (find (\<lambda>r. pr_id r = pass_id) (sq_passes db))"

definition sql_pass_list :: "string \<Rightarrow> sql_store \<Rightarrow> pydict list" where
  "sql_pass_list run_id db = map pr_payload (filter (\<lambda>r. pr_run r = run_id) (sq_passes db))"

definition sql_pass_current :: "string \<Rightarrow> sql_store \<Rightarrow> pydict option" where
  "sql_pass_current run_id db =
     (let pass_id = (case select_run run_id db of None \<Rightarrow> PNone
            | Some row \<Rightarrow> dget (rr_payload row) ''current_scoring_pass_id'')
      in if py_truthy pass_id then
           map_option pr_payload (find (\<lambda>r. PStr (pr_id r) = pass_id \<and> pr_run r = run_id) (sq_passes db))
         else last_option (sql_pass_list run_id db))"

definition sql_sets_for_pass :: "string \<Rightarrow> sql_store \<Rightarrow> pydict list" where
  "sql_sets_for_pass pass_id db =
     map sr_payload (sort_key sr_ordinal (filter (\<lambda>r. sr_pass r = pass_id) (sq_sets db)))"

definition sql_sets_for_case :: "string \<Rightarrow> string \<Rightarrow> sql_store \<Rightarrow> pydict list" where
  "sql_sets_for_case pass_id case_id db =
     map sr_payload (sort_key sr_ordinal
       (filter (\<lambda>r. sr_pass r = pass_id \<and> fst (sr_key r) = case_id) (sq_sets db)))"

definition sql_sets_get :: "string \<Rightarrow> string \<Rightarrow> sql_store \<Rightarrow> exn + pydict option" where
  "sql_sets_get pass_id case_id db = single_score case_id (sql_sets_for_case pass_id case_id db)"

definition sql_sets_get_metric ::
    "string \<Rightarrow> string \<Rightarrow> string \<Rightarrow> string \<Rightarrow> string \<Rightarrow> string option \<Rightarrow> sql_store \<Rightarrow> pydict option" where
  "sql_sets_get_metric pass_id case_id metric_id evaluator_id evaluator_version trial_id db =
     map_option sr_payload (find (\<lambda>r. sr_pass r = pass_id \<and> sr_key r = (case_id,
         case trial_id of None \<Rightarrow> [] | Some t \<Rightarrow> t, metric_id, evaluator_id, evaluator_version)) (sq_sets db))"

section \<open>Commands\<close>

definition mem_command_create :: "pydict \<Rightarrow> string \<Rightarrow> (mem_store, exn, pydict) sop" where
  "mem_command_create rec hex =
     st_bind (st_lift (new_record rec ''command'' ''queued'' hex)) (\<lambda>stored.
     st_bind (st_lift (ditem_str stored ''id'')) (\<lambda>cid.
     st_bind (st_get (\<lambda>s. map_of (ms_commands s) cid)) (\<lambda>old.
     if old \<noteq> None then st_raise (RunConflictError (''command already exists: '' @ cid))
     else st_bind (st_modify (\<lambda>s. s\<lparr>ms_commands := od_set cid stored (ms_commands s)\<rparr>))
       (\<lambda>_. st_return stored))))"

definition mem_command_get :: "string \<Rightarrow> mem_store \<Rightarrow> pydict option" where
  "mem_command_get cid s = map_of (ms_commands s) cid"

definition mem_command_list :: "string \<Rightarrow> mem_store \<Rightarrow> pydict list" where
  "mem_command_list run_id s =
     filter (\<lambda>item. py_eq (dget item ''run_id'') (PStr run_id)) (od_values (ms_commands s))"

definition mem_command_transition ::
    "string \<Rightarrow> int \<Rightarrow> string \<Rightarrow> string \<Rightarrow> pydict \<Rightarrow> (mem_store, exn, pydict) sop" where
  "mem_command_transition cid expected_revision expected_status status changes =
     st_bind (st_get (\<lambda>s. map_of (ms_commands s) cid)) (\<lambda>found. case found of
         None \<Rightarrow> st_raise (RunConflictError (''command missing: '' @ cid))
       | Some current \<Rightarrow>
           st_bind (st_lift (advance_record current expected_revision expected_status status changes
                  COMMAND_TRANSITIONS)) (\<lambda>stored.
             st_bind (st_modify (\<lambda>s. s\<lparr>ms_commands := od_set cid stored (ms_commands s)\<rparr>))
               (\<lambda>_. st_return stored)))"

text \<open>
  Besides the primary key, the partial unique index \<^verbatim>\<open>run_commands_dedupe_idx\<close> forbids two commands of
  a run with the same \<^verbatim>\<open>dedupe_key\<close> (a missing or null key is not indexed).
\<close>

definition dedupe_clash :: "string \<Rightarrow> pydict \<Rightarrow> command_row \<Rightarrow> bool" where
  "dedupe_clash run_id payload r \<longleftrightarrow> cm_run r = run_id \<and> dget payload ''dedupe_key'' \<noteq> PNone
     \<and> py_eq (dget (cm_payload r) ''dedupe_key'') (dget payload ''dedupe_key'')"

definition insert_command :: "command_row \<Rightarrow> (sql_store, exn, unit) sop" where
  "insert_command row =
     st_bind (st_get (\<lambda>db. list_ex (\<lambda>r. cm_id r = cm_id row
         \<or> dedupe_clash (cm_run row) (cm_payload row) r) (sq_commands db))) (\<lambda>dup.
     if dup then st_raise IntegrityError
     else st_modify (\<lambda>db. db\<lparr>sq_commands := sq_commands db @ [row]\<rparr>))"

definition sql_command_create :: "pydict \<Rightarrow> string \<Rightarrow> (sql_store, exn, pydict) sop" where
  "sql_command_create rec hex =
     st_bind (st_lift (new_record rec ''command'' ''queued'' hex)) (\<lambda>stored.
     st_bind (st_lift (ditem_str stored ''id'')) (\<lambda>cid.
     st_bind (st_lift (ditem_str stored ''run_id'')) (\<lambda>run_id.
     st_catch (transaction
       (st_bind (insert_command \<lparr>cm_id = cid, cm_run = run_id, cm_status = ''queued'', cm_revision = 1,
            cm_payload = jnorm_dict stored\<rparr>) (\<lambda>_. st_return stored)))
      (as_conflict (''command already exists: '' @ cid)))))"

definition select_command :: "string \<Rightarrow> sql_store \<Rightarrow> command_row option" where
  "select_command cid db = find (\<lambda>r. cm_id r = cid) (sq_commands db)"

definition sql_command_get :: "string \<Rightarrow> sql_store \<Rightarrow> pydict option" where
  "sql_command_get cid db = map_option cm_payload (select_command cid db)"

definition sql_command_list :: "string \<Rightarrow> sql_store \<Rightarrow> pydict list" where
  "sql_command_list run_id db = map cm_payload (filter (\<lambda>r. cm_run r = run_id) (sq_commands db))"

definition sql_command_transition ::
    "string \<Rightarrow> int \<Rightarrow> string \<Rightarrow> string \<Rightarrow> pydict \<Rightarrow> (sql_store, exn, pydict) sop" where
  "sql_command_transition cid expected_revision expected_status status changes = transaction
     (st_bind (st_get (select_command cid)) (\<lambda>found. case found of
         None \<Rightarrow> st_raise (RunConflictError (''command missing: '' @ cid))
       | Some row \<Rightarrow>
           st_bind (st_lift (advance_record (cm_payload row) expected_revision expected_status status
               changes COMMAND_TRANSITIONS)) (\<lambda>stored.
           st_bind (st_get (\<lambda>db. list_ex (\<lambda>r. cm_id r \<noteq> cid
               \<and> dedupe_clash (cm_run row) stored r) (sq_commands db))) (\<lambda>dup.
           st_bind (st_get (\<lambda>db. rowcount (\<lambda>r. cm_id r = cid \<and> cm_status r = expected_status
               \<and> cm_revision r = expected_revision) (sq_commands db))) (\<lambda>n.
           if n \<noteq> 1 then st_raise (RunConflictError (''command revision or status changed: '' @ cid))
           else if dup then st_raise IntegrityError
           else st_bind (st_modify (\<lambda>db. db\<lparr>sq_commands := update_where (\<lambda>r. cm_id r = cid
                 \<and> cm_status r = expected_status \<and> cm_revision r = expected_revision)
               (\<lambda>r. r\<lparr>cm_payload := jnorm_dict stored, cm_status := status,
                  cm_revision := int_of_val (dget stored ''revision'')\<rparr>) (sq_commands db)\<rparr>))
             (\<lambda>_. st_return stored))))))"

section \<open>Appending a pass in SQLite is all or nothing\<close>

lemma atomic_as_conflict [atomic_intros]: "atomic (as_conflict msg e)"
  by (auto simp: as_conflict_def intro: atomic_intros split: exn.splits)

lemma sql_pass_append_atomic: "atomic (sql_pass_append score_ok clock hex a)"
  unfolding sql_pass_append_def by (intro atomic_intros)

lemma sql_scored_run_state: "sql_scored_run a p db = (r, t) \<Longrightarrow> t = db"
  by (auto simp: sql_scored_run_def sop_defs sop_simps split: option.splits if_splits)

text \<open>What the single statements leave alone.\<close>

lemma frameI: "keeps (\<lambda>s. g s = g db) m \<Longrightarrow> m db = (r, t) \<Longrightarrow> g t = g db"
  using keepsD [of "\<lambda>s. g s = g db" m db] by simp

lemma put_case_rows_keeps:
  "(\<And>s x. P s \<Longrightarrow> P (s\<lparr>sq_cases := x\<rparr>)) \<Longrightarrow> keeps P (st_iter (sql_put_case_row run) rows)"
  unfolding sql_put_case_row_def by (intro keeps_intros)

lemma insert_set_keeps:
  "(\<And>s x. P s \<Longrightarrow> P (s\<lparr>sq_sets := x\<rparr>)) \<Longrightarrow> keeps P (st_iter (\<lambda>(index, row). insert_set (f index row)) rows)"
  unfolding insert_set_def split_def by (intro keeps_intros)

lemma append_events_keeps:
  "(\<And>s x n. P s \<Longrightarrow> P (s\<lparr>sq_events := x, sq_ticks := n\<rparr>)) \<Longrightarrow> keeps P (sql_append_events clock es)"
  unfolding sql_append_events_def sql_append_event_def Let_def by (intro keeps_intros)

lemma put_case_rows_frame:
  assumes "st_iter (sql_put_case_row run) rows db = (r, t)"
  shows "sq_passes t = sq_passes db" "sq_runs t = sq_runs db" "sq_sets t = sq_sets db"
    "sq_events t = sq_events db"
  by (rule frameI [where m = "st_iter (sql_put_case_row run) rows", OF _ assms],
      rule put_case_rows_keeps, simp)+

lemma insert_set_frame:
  assumes "st_iter (\<lambda>(index, row). insert_set (f index row)) rows db = (r, t)"
  shows "sq_passes t = sq_passes db" "sq_runs t = sq_runs db" "sq_events t = sq_events db"
  by (rule frameI [where m = "st_iter (\<lambda>(index, row). insert_set (f index row)) rows", OF _ assms],
      rule insert_set_keeps, simp)+

lemma append_events_frame:
  assumes "sql_append_events clock es db = (r, t)"
  shows "sq_passes t = sq_passes db" "sq_runs t = sq_runs db" "sq_sets t = sq_sets db"
  by (rule frameI [where m = "sql_append_events clock es", OF _ assms], rule append_events_keeps, simp)+

lemma insert_pass_Inr:
  "insert_pass row db = (Inr x, t) \<longleftrightarrow> t = db\<lparr>sq_passes := sq_passes db @ [row]\<rparr>
     \<and> (\<forall>r \<in> set (sq_passes db). pr_id r \<noteq> pr_id row)"
  by (auto simp: insert_pass_def sop_Inr list_ex_iff)

lemma find_snoc: "(\<forall>r \<in> set xs. \<not> P r) \<Longrightarrow> P x \<Longrightarrow> find P (xs @ [x]) = Some x"
  by (induction xs) auto

lemma plan_append_Inr:
  assumes "plan_append score_ok hex a = Inr p"
  shows "ditem_str (pl_stored p) ''run_id'' = Inr (pl_run p)" "ditem_str (pl_stored p) ''id'' = Inr (pl_id p)"
    "pl_id p \<noteq> []" "pl_run p \<noteq> []"
  using assms by (auto simp: plan_append_def res_bind_Inr pass_record_def Let_def ditem_str_Inr dget_def
      split: if_splits option.splits)

lemma scored_run_Inr:
  assumes "scored_run a k run = Inr d"
  shows "map_of d ''current_scoring_pass_id'' = Some (PStr k)"
    "i \<notin> {''status'', ''current_scoring_pass_id''} \<Longrightarrow> i \<notin> fst ` set (ap_run_changes a) \<Longrightarrow> map_of d i = map_of run i"
  using assms map_of_od_merge_untouched [of i "ap_run_changes a" run]
  by (auto simp: scored_run_def res_bind_Inr split: if_splits)

lemma find_update_where:
  "distinct (map key rows) \<Longrightarrow> x \<in> set rows \<Longrightarrow> key x = k \<Longrightarrow> Q x \<Longrightarrow> (\<And>r. key (f r) = key r) \<Longrightarrow>
   find (\<lambda>r. key r = k) (update_where (\<lambda>r. key r = k \<and> Q r) f rows) = Some (f x)"
  by (induction rows) (auto simp: update_where_def image_iff)

lemma sql_publish_run_Inr:
  assumes "distinct (map rr_id (sq_runs db))" "sql_publish_run a p (Some u) db = (Inr x, t)"
    and "ap_revision a = Some er" "map_of u ''revision'' = Some (PInt n)"
  shows "\<exists>row. select_run (pl_run p) t = Some row \<and> rr_revision row = n \<and> rr_payload row = jnorm_dict u"
    "sq_passes t = sq_passes db"
proof -
  let ?Q = "\<lambda>r. Some (rr_revision r) = ap_revision a \<and> dget (rr_payload r) ''status'' = opt_str (ap_status a)"
  let ?f = "\<lambda>r. r\<lparr>rr_payload := jnorm_dict u, rr_revision := n\<rparr>"
  have t: "rowcount (\<lambda>r. rr_id r = pl_run p \<and> ?Q r) (sq_runs db) = 1"
    "sq_runs t = update_where (\<lambda>r. rr_id r = pl_run p \<and> ?Q r) ?f (sq_runs db)"
    "sq_passes t = sq_passes db"
    using assms(2,4) by (auto simp: sql_publish_run_def update_runs_def sop_Inr dget_def int_of_val_def)
  then have "filter (\<lambda>r. rr_id r = pl_run p \<and> ?Q r) (sq_runs db) \<noteq> []" by (auto simp: rowcount_def)
  then obtain x where x: "x \<in> set (sq_runs db)" "rr_id x = pl_run p" "?Q x" by (auto simp: filter_empty_conv)
  have "select_run (pl_run p) t = Some (?f x)"
    unfolding select_run_def t(2)
    using find_update_where [where key = rr_id and Q = ?Q and f = ?f, OF assms(1) x] by simp
  then show "\<exists>row. select_run (pl_run p) t = Some row \<and> rr_revision row = n \<and> rr_payload row = jnorm_dict u"
    by auto
  show "sq_passes t = sq_passes db" using t(3) .
qed

text \<open>The database after an append that published the run.\<close>

lemma sql_pass_append_state:
  assumes "sql_inv db" "sql_pass_append score_ok clock hex a db = (Inr d, t)" "ap_revision a = Some er"
  shows "\<exists>p row u. plan_append score_ok hex a = Inr p \<and> d = pl_stored p
     \<and> select_run (pl_run p) t = Some row \<and> rr_revision row = er + 1 \<and> rr_payload row = jnorm_dict u
     \<and> map_of u ''current_scoring_pass_id'' = Some (PStr (pl_id p))
     \<and> sq_passes t = sq_passes db @ [\<lparr>pr_id = pl_id p, pr_run = pl_run p, pr_payload = jnorm_dict d\<rparr>]
     \<and> (\<forall>r \<in> set (sq_passes db). pr_id r \<noteq> pl_id p)"
proof -
  from assms(2) obtain p upd db0 db1 db2 db3 db4 where p: "plan_append score_ok hex a = Inr p" "d = pl_stored p"
    and upd: "sql_scored_run a p db = (Inr upd, db0)"
    and db1: "st_iter (sql_put_case_row (pl_run p)) (pl_case_rows p) db0 = (Inr (), db1)"
    and db2: "insert_pass \<lparr>pr_id = pl_id p, pr_run = pl_run p, pr_payload = jnorm_dict d\<rparr> db1 = (Inr (), db2)"
    and db3: "st_iter (\<lambda>(index, row). insert_set \<lparr>sr_pass = pl_id p, sr_key = score_key row,
           sr_ordinal = int index, sr_payload = jnorm_dict row\<rparr>) (enumerate 0 (pl_rows p)) db2 = (Inr (), db3)"
    and db4: "sql_publish_run a p upd db3 = (Inr (), db4)"
    and t: "sql_append_events clock (append_events p) db4 = (Inr (), t)"
    by (auto simp: sql_pass_append_def st_bind_Inr st_lift_Inr st_return_Inr st_catch_Inr transaction_Inr
        as_conflict_Inr)
  have db0: "db0 = db" using sql_scored_run_state [OF upd] .
  from upd assms(3) obtain rrow r u where u: "scored_run a (pl_id p) (row_run rrow) = Inr r"
    "next_run r er = Inr u" "upd = Some u"
    by (auto simp: sql_scored_run_def sop_Inr res_bind_Inr)
  have cur: "map_of u ''current_scoring_pass_id'' = Some (PStr (pl_id p))"
    "map_of u ''revision'' = Some (PInt (er + 1))"
    using u scored_run_Inr(1) [OF u(1)] by (auto simp: next_run_Inr map_of_stored_run)
  have "distinct (map rr_id (sq_runs db3))"
    using put_case_rows_frame(2) [OF db1] db2 insert_set_frame(2) [OF db3] sql_inv_distinct [OF assms(1)] db0
    by (simp add: insert_pass_Inr)
  note pub = sql_publish_run_Inr [OF this db4 [unfolded u(3)] assms(3) cur(2)]
  have "sq_passes t = sq_passes db @ [\<lparr>pr_id = pl_id p, pr_run = pl_run p, pr_payload = jnorm_dict d\<rparr>]"
    "\<forall>r \<in> set (sq_passes db). pr_id r \<noteq> pl_id p"
    using db2 db0 put_case_rows_frame(1) [OF db1] insert_set_frame(1) [OF db3] pub(2)
      append_events_frame(1) [OF t] by (auto simp: insert_pass_Inr)
  then show ?thesis using p pub(1) append_events_frame(2) [OF t] cur(1) unfolding select_run_def by auto
qed

lemma sql_pass_append_current:
  assumes "sql_inv db" "sql_pass_append score_ok clock hex a db = (Inr d, t)" "ap_revision a = Some er"
    and "ditem_str d ''run_id'' = Inr run"
  shows "sql_pass_current run t = Some (jnorm_dict d)
     \<and> (\<exists>row. select_run run t = Some row \<and> rr_revision row = er + 1)"
proof -
  from sql_pass_append_state [OF assms(1-3)] obtain p row u where p: "plan_append score_ok hex a = Inr p"
    "d = pl_stored p" and row: "select_run (pl_run p) t = Some row" "rr_revision row = er + 1"
    "rr_payload row = jnorm_dict u" "map_of u ''current_scoring_pass_id'' = Some (PStr (pl_id p))"
    and t: "sq_passes t = sq_passes db @ [\<lparr>pr_id = pl_id p, pr_run = pl_run p, pr_payload = jnorm_dict d\<rparr>]"
    "\<forall>r \<in> set (sq_passes db). pr_id r \<noteq> pl_id p" by blast
  have run: "pl_run p = run" using plan_append_Inr(1) [OF p(1)] p(2) assms(4) by simp
  have "dget (rr_payload row) ''current_scoring_pass_id'' = PStr (pl_id p)"
    using row(3,4) by (simp add: dget_def map_of_jnorm_dict)
  then have "sql_pass_current run t = Some (jnorm_dict d)"
    using row(1) t run plan_append_Inr(3) [OF p(1)]
    by (auto simp: sql_pass_current_def Let_def find_snoc)
  then show ?thesis using row run by auto
qed

text \<open>A run that is being scored, and a pass that completes it.\<close>

definition sample_scoring :: sql_store where
  "sample_scoring = snd (sql_exec int (OpCreate [(''id'', PStr ''r''), (''status'', PStr ''scoring'')] None) sql_empty)"

definition sample_append :: append_args where
  "sample_append = \<lparr>ap_record = [(''run_id'', PStr ''r'')], ap_scores = [], ap_revision = Some 1,
     ap_status = Some ''scoring'', ap_event = None, ap_final_status = Some ''completed'', ap_run_changes = [],
     ap_terminal_event = None, ap_score_events = [], ap_no_open_attempts = True, ap_case_rows = None\<rparr>"

lemma sample_scoring_inv: "sql_inv sample_scoring"
  unfolding sample_scoring_def by (rule sql.exec_inv [OF sql_inv_empty])

lemma sample_append_result:
  "fst (sql_pass_append (\<lambda>_. True) int ''1'' sample_append sample_scoring)
     = Inr [(''run_id'', PStr ''r''), (''id'', PStr ''pass-1''), (''scores'', PList [])]"
  by code_simp

end
