(* ===== verification/Conditions.thy ===== *)
theory Conditions
  imports Py_Value
begin

text \<open>
  Restricted conditions: the contract class \<^verbatim>\<open>Condition\<close> of
  \<^verbatim>\<open>packages/contracts/motte_contracts/workflow.py\<close> and their compilation and evaluation in
  \<^verbatim>\<open>packages/scenario-runtime/motte_scenario/conditions.py\<close>.

  A formatted message is the list of its parts: literal text and the values interpolated into it
  (\<open>Rep v\<close> for \<^verbatim>\<open>repr(v)\<close>, \<open>Val v\<close> for \<^verbatim>\<open>str(v)\<close>).
\<close>

section \<open>Messages and exceptions\<close>

datatype frag = Txt string | Num int | Real rat | Rep pyval | Val pyval

type_synonym fstr = "frag list"

text \<open>
  The exception classes the scenario runtime tells apart; \<open>OtherError\<close> is any other exception,
  with its class name and its \<^verbatim>\<open>code\<close> attribute when that is a string.
\<close>

datatype eexn =
    EvidenceBoundaryError string fstr
  | EngineError string fstr
  | ConditionError string fstr
  | OtherError string "string option" fstr

section \<open>The contract\<close>

datatype condition = Condition (c_op: string) (c_path: "string option") (c_value: pyval)
  (c_conditions: "condition list")

definition CONDITION_OPS :: "string list" where
  "CONDITION_OPS = [''eq'', ''ne'', ''in'', ''exists'', ''and'', ''or'', ''not'']"

definition CONDITION_ROOTS :: "string list" where
  "CONDITION_ROOTS = [''state'', ''tool_results'', ''step_results'']"

definition MAX_CONDITION_DEPTH :: nat where "MAX_CONDITION_DEPTH = 8"

definition MAX_CONDITION_NODES :: nat where "MAX_CONDITION_NODES = 64"

text \<open>\<^verbatim>\<open>s.split(".")\<close>\<close>

fun split_dots :: "string \<Rightarrow> string list" where
  "split_dots [] = [[]]"
| "split_dots (c # s) = (if c = CHR ''.'' then [] # split_dots s
     else (case split_dots s of [] \<Rightarrow> [[c]] | w # ws \<Rightarrow> (c # w) # ws))"

text \<open>\<^verbatim>\<open>".".join(segments)\<close>\<close>

fun join_dots :: "string list \<Rightarrow> string" where
  "join_dots [] = []"
| "join_dots [w] = w"
| "join_dots (w # ws) = w @ ''.'' @ join_dots ws"

text \<open>\<^verbatim>\<open>sep.join(xs)\<close> before concatenation.\<close>

fun intersperse :: "'a \<Rightarrow> 'a list \<Rightarrow> 'a list" where
  "intersperse sep [] = []"
| "intersperse sep [x] = [x]"
| "intersperse sep (x # xs) = x # sep # intersperse sep xs"

definition ascii_letter :: "char \<Rightarrow> bool" where
  "ascii_letter c \<longleftrightarrow> CHR ''A'' \<le> c \<and> c \<le> CHR ''Z'' \<or> CHR ''a'' \<le> c \<and> c \<le> CHR ''z''"

definition ascii_digit :: "char \<Rightarrow> bool" where
  "ascii_digit c \<longleftrightarrow> CHR ''0'' \<le> c \<and> c \<le> CHR ''9''"

text \<open>
  \<^verbatim>\<open>re.match("^[A-Za-z][A-Za-z0-9<extra>]{0,n}$", s)\<close>: the final \<^verbatim>\<open>$\<close> also matches just before a
  newline at the end of the string.
\<close>

definition ident_core :: "string \<Rightarrow> nat \<Rightarrow> string \<Rightarrow> bool" where
  "ident_core extra n s = (case s of [] \<Rightarrow> False
     | c # cs \<Rightarrow> ascii_letter c \<and> length cs \<le> n
         \<and> list_all (\<lambda>d. ascii_letter d \<or> ascii_digit d \<or> d \<in> set extra) cs)"

definition ident_match :: "string \<Rightarrow> nat \<Rightarrow> string \<Rightarrow> bool" where
  "ident_match extra n s \<longleftrightarrow> ident_core extra n s
     \<or> s \<noteq> [] \<and> last s = CHR 0x0A \<and> ident_core extra n (butlast s)"

definition PATH_SEGMENT :: "string \<Rightarrow> bool" where
  "PATH_SEGMENT = ident_match ''_-'' 63"

definition REFERENCE :: "string \<Rightarrow> bool" where
  "REFERENCE = ident_match ''._-'' 127"

text \<open>The validators return the message they raise, if any.\<close>

definition path_shape :: "string option \<Rightarrow> fstr option" where
  "path_shape path = (case path of
       None \<Rightarrow> None
     | Some value \<Rightarrow>
         if value = [] then Some [Txt ''condition path must be a non-empty string'']
         else if list_ex (\<lambda>seg. \<not> PATH_SEGMENT seg) (split_dots value) then
           Some [Txt ''condition path segments must be plain identifiers: '', Rep (PStr value)]
         else if hd value = CHR ''_'' then
           Some [Txt ''condition path must not start with an underscore'']
         else None)"

fun is_container :: "pyval \<Rightarrow> bool" where
  "is_container (PList _) = True"
| "is_container (PDict _) = True"
| "is_container _ = False"

definition op_shape :: "condition \<Rightarrow> fstr option" where
  "op_shape c = (let op = c_op c; subs = c_conditions c; v = c_value c in
     if op \<in> {''eq'', ''ne'', ''in''} then
       if c_path c = None then Some [Txt ''condition op '', Rep (PStr op), Txt '' requires a path'']
       else if subs \<noteq> [] then
         Some [Txt ''condition op '', Rep (PStr op), Txt '' takes no nested conditions'']
       else if op = ''in'' then (case v of
           PList items \<Rightarrow>
             if items = [] then Some [Txt ''condition op 'in' requires a non-empty list value'']
             else if list_ex is_container items then
               Some [Txt ''condition op 'in' accepts scalar values only'']
             else None
         | _ \<Rightarrow> Some [Txt ''condition op 'in' requires a list value''])
       else if is_container v then
         Some [Txt ''condition op '', Rep (PStr op), Txt '' accepts scalar values only'']
       else None
     else if op = ''exists'' then
       if c_path c = None then Some [Txt ''condition op 'exists' requires a path'']
       else if subs \<noteq> [] \<or> v \<noteq> PNone then
         Some [Txt ''condition op 'exists' takes no value or nested conditions'']
       else None
     else if op \<in> {''and'', ''or''} then
       if c_path c \<noteq> None \<or> v \<noteq> PNone then
         Some [Txt ''condition op '', Rep (PStr op), Txt '' takes no path or value'']
       else if length subs < 2 then
         Some [Txt ''condition op '', Rep (PStr op), Txt '' requires at least two conditions'']
       else None
     else if c_path c \<noteq> None \<or> v \<noteq> PNone then
       Some [Txt ''condition op 'not' takes no path or value'']
     else if length subs \<noteq> 1 then
       Some [Txt ''condition op 'not' requires exactly one condition'']
     else None)"

text \<open>A condition the contract accepts: the literal type of \<^verbatim>\<open>op\<close> and both validators, at every node.\<close>

fun condition_ok :: "condition \<Rightarrow> bool" where
  "condition_ok (Condition op path v subs) \<longleftrightarrow> op \<in> set CONDITION_OPS \<and> path_shape path = None
     \<and> op_shape (Condition op path v subs) = None \<and> list_all condition_ok subs"

section \<open>Compilation\<close>

datatype compiled = Compiled (k_op: string) (k_path: "string list option") (k_value: pyval)
  (k_children: "compiled list")

definition compile_path :: "string list \<Rightarrow> nat \<Rightarrow> string option \<Rightarrow> eexn + string list option" where
  "compile_path roots max_depth path = (case path of
       None \<Rightarrow> Inr None
     | Some s \<Rightarrow>
         (let segments = split_dots s in
          if hd segments \<notin> set roots then
            Inl (ConditionError ''CONDITION_PATH_FORBIDDEN''
              ([Txt ''condition path root must be one of ''] @ map Txt (intersperse '', '' roots)
               @ [Txt ''; got '', Rep (PStr (hd segments))]))
          else if length segments > max_depth then
            Inl (ConditionError ''CONDITION_DEPTH_EXCEEDED''
              [Txt ''condition path depth '', Num (int (length segments)),
               Txt '' exceeds the limit '', Num (int max_depth)])
          else Inr (Some segments)))"

text \<open>The closure \<^verbatim>\<open>build\<close>, with the counter \<^verbatim>\<open>nodes\<close> threaded through.\<close>

fun build :: "string list \<Rightarrow> nat \<Rightarrow> nat \<Rightarrow> nat \<Rightarrow> condition \<Rightarrow> nat \<Rightarrow> eexn + compiled \<times> nat"
and build_all :: "string list \<Rightarrow> nat \<Rightarrow> nat \<Rightarrow> nat \<Rightarrow> condition list \<Rightarrow> nat \<Rightarrow> eexn + compiled list \<times> nat" where
  "build roots max_depth max_nodes depth (Condition op path v subs) nodes =
     (if depth > max_depth then
        Inl (ConditionError ''CONDITION_DEPTH_EXCEEDED''
          [Txt ''condition nesting depth '', Num (int depth), Txt '' exceeds the limit '', Num (int max_depth)])
      else if nodes + 1 > max_nodes then
        Inl (ConditionError ''CONDITION_NODES_EXCEEDED''
          [Txt ''condition node count exceeds the limit '', Num (int max_nodes)])
      else (case compile_path roots max_depth path of
          Inl e \<Rightarrow> Inl e
        | Inr p \<Rightarrow> (case build_all roots max_depth max_nodes (depth + 1) subs (nodes + 1) of
              Inl e \<Rightarrow> Inl e
            | Inr (children, n) \<Rightarrow> Inr (Compiled op p v children, n))))"
| "build_all roots max_depth max_nodes depth [] nodes = Inr ([], nodes)"
| "build_all roots max_depth max_nodes depth (c # cs) nodes =
     (case build roots max_depth max_nodes depth c nodes of
        Inl e \<Rightarrow> Inl e
      | Inr (k, n) \<Rightarrow> (case build_all roots max_depth max_nodes depth cs n of
            Inl e \<Rightarrow> Inl e
          | Inr (ks, m) \<Rightarrow> Inr (k # ks, m)))"

definition compile_condition_with :: "string list \<Rightarrow> nat \<Rightarrow> nat \<Rightarrow> condition \<Rightarrow> eexn + compiled" where
  "compile_condition_with roots max_depth max_nodes c =
     map_sum id fst (build roots max_depth max_nodes 1 c 0)"

text \<open>\<^verbatim>\<open>compile_condition(condition)\<close> with its default limits.\<close>

definition compile_condition :: "condition \<Rightarrow> eexn + compiled" where
  "compile_condition = compile_condition_with CONDITION_ROOTS MAX_CONDITION_DEPTH MAX_CONDITION_NODES"

fun describe :: "compiled \<Rightarrow> fstr" where
  "describe (Compiled op path v children) = (case path of
       Some segments \<Rightarrow>
         if op = ''exists'' then [Txt (''exists('' @ join_dots segments @ '')'')]
         else [Txt (join_dots segments @ '' '' @ op @ '' ''), Rep v]
     | None \<Rightarrow> [Txt (op @ ''('')] @ concat (intersperse [Txt '', ''] (map describe children)) @ [Txt '')''])"

section \<open>Evaluation\<close>

fun resolve_path :: "pyval \<Rightarrow> string list \<Rightarrow> pyval option" where
  "resolve_path cursor [] = Some cursor"
| "resolve_path cursor (seg # segs) = (case cursor of
       PDict d \<Rightarrow> (case map_of d seg of None \<Rightarrow> None | Some v \<Rightarrow> resolve_path v segs)
     | _ \<Rightarrow> None)"

text \<open>Both sides are scalars of the same type and equal.\<close>

fun same_scalar :: "pyval \<Rightarrow> pyval \<Rightarrow> bool" where
  "same_scalar PNone PNone = True"
| "same_scalar (PBool a) (PBool b) = (a = b)"
| "same_scalar (PInt a) (PInt b) = (a = b)"
| "same_scalar (PFloat a) (PFloat b) = num_eq a b"
| "same_scalar (PStr a) (PStr b) = (a = b)"
| "same_scalar _ _ = False"

record cond_outcome =
  co_condition :: compiled
  co_satisfied :: bool
  co_actual :: pyval
  co_reason :: fstr

definition condition_outcome :: "compiled \<Rightarrow> bool \<Rightarrow> pyval \<Rightarrow> fstr \<Rightarrow> cond_outcome" where
  "condition_outcome c b v r = \<lparr>co_condition = c, co_satisfied = b, co_actual = v, co_reason = r\<rparr>"

text \<open>\<^verbatim>\<open>list(compiled.value)\<close>; the contract admits only lists here.\<close>

definition list_value :: "pyval \<Rightarrow> eexn + pyval list" where
  "list_value v = (case v of PList xs \<Rightarrow> Inr xs
     | _ \<Rightarrow> Inl (OtherError ''TypeError'' None [Txt ''object is not iterable'']))"

definition evaluate_leaf :: "compiled \<Rightarrow> string \<Rightarrow> string list \<Rightarrow> pyval \<Rightarrow> pydict \<Rightarrow> eexn + cond_outcome" where
  "evaluate_leaf c op segments v context =
     (case resolve_path (PDict context) segments of
        None \<Rightarrow>
          if op = ''exists'' then Inr (condition_outcome c False PNone [])
          else Inl (ConditionError ''CONDITION_PATH_MISSING''
            [Txt ''condition path '', Rep (PStr (join_dots segments)),
             Txt '' is absent from the evaluation context''])
      | Some actual \<Rightarrow>
          if op = ''exists'' then Inr (condition_outcome c True actual [])
          else if op = ''eq'' then Inr (condition_outcome c (same_scalar actual v) actual [])
          else if op = ''ne'' then Inr (condition_outcome c (\<not> same_scalar actual v) actual [])
          else if op = ''in'' then (case list_value v of
              Inl e \<Rightarrow> Inl e
            | Inr allowed \<Rightarrow> Inr (condition_outcome c (list_ex (same_scalar actual) allowed) actual
                [Txt ''allowed='', Rep (PList allowed)]))
          else Inl (ConditionError ''CONDITION_OP_UNSUPPORTED''
            [Txt ''unsupported condition op '', Rep (PStr op)]))"

fun evaluate_condition :: "compiled \<Rightarrow> pydict \<Rightarrow> eexn + cond_outcome"
and evaluate_all :: "compiled list \<Rightarrow> pydict \<Rightarrow> eexn + cond_outcome list" where
  "evaluate_condition (Compiled op path v children) context =
     (if op = ''and'' \<or> op = ''or'' then (case evaluate_all children context of
          Inl e \<Rightarrow> Inl e
        | Inr outcomes \<Rightarrow> Inr (condition_outcome (Compiled op path v children)
            (if op = ''and'' then list_all co_satisfied outcomes else list_ex co_satisfied outcomes)
            (PList (map co_actual outcomes)) []))
      else if op = ''not'' then (case children of
          [] \<Rightarrow> Inl (OtherError ''IndexError'' None [Txt ''tuple index out of range''])
        | child # _ \<Rightarrow> (case evaluate_condition child context of
              Inl e \<Rightarrow> Inl e
            | Inr inner \<Rightarrow> Inr (condition_outcome (Compiled op path v children) (\<not> co_satisfied inner)
                (co_actual inner) [])))
      else (case path of
          None \<Rightarrow> Inl (OtherError ''AssertionError'' None [])
        | Some segments \<Rightarrow> evaluate_leaf (Compiled op path v children) op segments v context))"
| "evaluate_all [] context = Inr []"
| "evaluate_all (c # cs) context = (case evaluate_condition c context of
       Inl e \<Rightarrow> Inl e
     | Inr outcome \<Rightarrow> (case evaluate_all cs context of
           Inl e \<Rightarrow> Inl e
         | Inr outcomes \<Rightarrow> Inr (outcome # outcomes)))"

definition evaluate_assertions :: "condition list \<Rightarrow> pydict \<Rightarrow> eexn + cond_outcome list" where
  "evaluate_assertions conditions context =
     res_map (\<lambda>c. res_bind (compile_condition c) (\<lambda>k. evaluate_condition k context)) conditions"

section \<open>What compilation guarantees\<close>

text \<open>Height and size of a condition, and the paths it reads.\<close>

fun cond_depth :: "condition \<Rightarrow> nat" where
  "cond_depth (Condition op path v subs) = Suc (Max (insert 0 (set (map cond_depth subs))))"

fun cond_nodes :: "condition \<Rightarrow> nat" where
  "cond_nodes (Condition op path v subs) = Suc (sum_list (map cond_nodes subs))"

text \<open>The condition a compiled one came from, and how it is written with its paths as given.\<close>

fun source_of :: "compiled \<Rightarrow> condition" where
  "source_of (Compiled op path v children) = Condition op (map_option join_dots path) v (map source_of children)"

fun written :: "condition \<Rightarrow> fstr" where
  "written (Condition op path v subs) = (case path of
       Some s \<Rightarrow> if op = ''exists'' then [Txt (''exists('' @ s @ '')'')] else [Txt (s @ '' '' @ op @ '' ''), Rep v]
     | None \<Rightarrow> [Txt (op @ ''('')] @ concat (intersperse [Txt '', ''] (map written subs)) @ [Txt '')''])"

fun cond_paths :: "condition \<Rightarrow> string list list" where
  "cond_paths (Condition op path v subs) =
     (case path of None \<Rightarrow> [] | Some s \<Rightarrow> [split_dots s]) @ concat (map cond_paths subs)"

fun compiled_of :: "condition \<Rightarrow> compiled" where
  "compiled_of (Condition op path v subs) =
     Compiled op (map_option split_dots path) v (map compiled_of subs)"

definition path_allowed :: "string list \<Rightarrow> nat \<Rightarrow> string list \<Rightarrow> bool" where
  "path_allowed roots max_depth segments \<longleftrightarrow> hd segments \<in> set roots \<and> length segments \<le> max_depth"

lemma split_dots_nonempty [simp]: "split_dots s \<noteq> []"
  by (induction s) (auto split: list.splits)

lemma join_split_dots: "join_dots (split_dots s) = s"
proof (induction s)
  case (Cons c s)
  then show ?case
    by (cases "split_dots s"; cases "tl (split_dots s)") (auto split: list.splits)
qed simp

lemma split_dots_word: "CHR ''.'' \<notin> set w \<Longrightarrow> split_dots w = [w]"
  by (induction w) auto

lemma split_dots_append: "CHR ''.'' \<notin> set w \<Longrightarrow> split_dots (w @ CHR ''.'' # s) = w # split_dots s"
  by (induction w) auto

lemma split_join_dots: "ws \<noteq> [] \<and> list_all (\<lambda>w. CHR ''.'' \<notin> set w) ws \<Longrightarrow> split_dots (join_dots ws) = ws"
  by (induction ws rule: join_dots.induct) (auto simp: split_dots_word split_dots_append)

lemma compile_path_Inr:
  "compile_path roots d path = Inr p \<longleftrightarrow> p = map_option split_dots path
     \<and> (\<forall>s. path = Some s \<longrightarrow> path_allowed roots d (split_dots s))"
  by (auto simp: compile_path_def path_allowed_def Let_def split: option.splits)

text \<open>
  Compilation succeeds exactly when the condition fits: no node deeper than the limit, no more
  nodes than the limit, every path below an allowed root and not too long.
\<close>

lemma add_Max_le_iff:
  "depth + Max (insert 0 (f ` set xs)) \<le> (d :: nat) \<longleftrightarrow> depth \<le> d \<and> (\<forall>x \<in> set xs. depth + f x \<le> d)"
proof (cases "depth \<le> d")
  case True
  have "Max (insert 0 (f ` set xs)) \<le> d - depth \<longleftrightarrow> (\<forall>x \<in> set xs. f x \<le> d - depth)"
    by (subst Max_le_iff) auto
  moreover have "depth + y \<le> d \<longleftrightarrow> y \<le> d - depth" for y using True by auto
  ultimately show ?thesis using True by simp
qed simp

lemma build_Inr:
  "build roots d m depth c nodes = Inr (k, n) \<longleftrightarrow>
     depth + cond_depth c \<le> Suc d \<and> nodes + cond_nodes c \<le> m
     \<and> list_all (path_allowed roots d) (cond_paths c) \<and> k = compiled_of c \<and> n = nodes + cond_nodes c"
  "build_all roots d m depth' cs nodes' = Inr (ks, n) \<longleftrightarrow>
     (\<forall>c \<in> set cs. depth' + cond_depth c \<le> Suc d) \<and> (cs \<noteq> [] \<longrightarrow> nodes' + sum_list (map cond_nodes cs) \<le> m)
     \<and> (\<forall>c \<in> set cs. list_all (path_allowed roots d) (cond_paths c))
     \<and> ks = map compiled_of cs \<and> n = nodes' + sum_list (map cond_nodes cs)"
proof (induction roots d m depth c nodes and roots d m depth' cs nodes' arbitrary: k n and ks n
    rule: build_build_all.induct)
  case (1 roots d m depth op path v subs nodes)
  let ?b = "build_all roots d m (depth + 1) subs (nodes + 1)"
  have list: "list_all P (concat (map f xs)) \<longleftrightarrow> (\<forall>x \<in> set xs. list_all P (f x))"
    for P :: "string list \<Rightarrow> bool" and f :: "condition \<Rightarrow> string list list" and xs
    by (auto simp: list_all_iff)
  have head: "build roots d m depth (Condition op path v subs) nodes = Inr (k, n) \<longleftrightarrow>
      depth \<le> d \<and> nodes + 1 \<le> m \<and> (\<exists>p ks. compile_path roots d path = Inr p \<and> ?b = Inr (ks, n)
        \<and> k = Compiled op p v ks)"
    by (auto split: sum.splits)
  show ?case
  proof (cases "depth \<le> d \<and> nodes + 1 \<le> m \<and> (\<exists>p. compile_path roots d path = Inr p)")
    case True
    then obtain p where p: "compile_path roots d path = Inr p" by blast
    have IH: "?b = Inr (ks, n) \<longleftrightarrow> (\<forall>c \<in> set subs. depth + 1 + cond_depth c \<le> Suc d)
       \<and> (subs \<noteq> [] \<longrightarrow> nodes + 1 + sum_list (map cond_nodes subs) \<le> m)
       \<and> (\<forall>c \<in> set subs. list_all (path_allowed roots d) (cond_paths c))
       \<and> ks = map compiled_of subs \<and> n = nodes + 1 + sum_list (map cond_nodes subs)" for ks n
      using 1 True p by simp
    show ?thesis unfolding head IH using True
      by (auto simp: compile_path_Inr list add_Max_le_iff split: option.splits)
  next
    case False
    then show ?thesis unfolding head by (auto simp: compile_path_Inr add_Max_le_iff split: option.splits)
  qed
next
  case (3 roots d m depth c cs nodes)
  have head: "build_all roots d m depth (c # cs) nodes = Inr (ks, n) \<longleftrightarrow>
      (\<exists>k n' ks'. build roots d m depth c nodes = Inr (k, n') \<and> build_all roots d m depth cs n' = Inr (ks', n)
        \<and> ks = k # ks')"
    by (auto split: sum.splits)
  show ?case
  proof (cases "\<exists>k n'. build roots d m depth c nodes = Inr (k, n')")
    case True
    then obtain k n' where kn: "build roots d m depth c nodes = Inr (k, n')" by blast
    then have IH: "build_all roots d m depth cs n' = Inr (ks, n) \<longleftrightarrow>
       (\<forall>c \<in> set cs. depth + cond_depth c \<le> Suc d) \<and> (cs \<noteq> [] \<longrightarrow> n' + sum_list (map cond_nodes cs) \<le> m)
       \<and> (\<forall>c \<in> set cs. list_all (path_allowed roots d) (cond_paths c))
       \<and> ks = map compiled_of cs \<and> n = n' + sum_list (map cond_nodes cs)" for ks n
      using 3(2) by blast
    show ?thesis unfolding head using kn 3(1) [of k n'] IH by auto
  next
    case False
    then show ?thesis unfolding head using 3(1) by auto
  qed
qed auto

lemma compile_condition_Inr:
  "compile_condition c = Inr k \<longleftrightarrow> cond_depth c \<le> MAX_CONDITION_DEPTH \<and> cond_nodes c \<le> MAX_CONDITION_NODES
     \<and> list_all (path_allowed CONDITION_ROOTS MAX_CONDITION_DEPTH) (cond_paths c) \<and> k = compiled_of c"
proof -
  have "compile_condition c = Inr k \<longleftrightarrow>
      (\<exists>n. build CONDITION_ROOTS MAX_CONDITION_DEPTH MAX_CONDITION_NODES 1 c 0 = Inr (k, n))"
    by (auto simp: compile_condition_def compile_condition_with_def map_sum_Inr_iff)
  then show ?thesis by (auto simp: build_Inr)
qed

section \<open>What evaluation means\<close>

text \<open>The reference semantics of a condition, and whether it compares a field that is missing.\<close>

fun holds :: "pydict \<Rightarrow> condition \<Rightarrow> bool" where
  "holds ctx (Condition op path v subs) =
     (if op = ''and'' then list_all (holds ctx) subs
      else if op = ''or'' then list_ex (holds ctx) subs
      else if op = ''not'' then \<not> list_all (holds ctx) subs
      else (case path of None \<Rightarrow> False | Some s \<Rightarrow> (case resolve_path (PDict ctx) (split_dots s) of
          None \<Rightarrow> False
        | Some x \<Rightarrow>
            if op = ''exists'' then True
            else if op = ''eq'' then same_scalar x v
            else if op = ''ne'' then \<not> same_scalar x v
            else (case v of PList xs \<Rightarrow> list_ex (same_scalar x) xs | _ \<Rightarrow> False))))"

fun missing :: "pydict \<Rightarrow> condition \<Rightarrow> bool" where
  "missing ctx (Condition op path v subs) \<longleftrightarrow>
     op \<in> {''eq'', ''ne'', ''in''} \<and> (\<exists>s. path = Some s \<and> resolve_path (PDict ctx) (split_dots s) = None)
     \<or> list_ex (missing ctx) subs"

definition evaluates :: "pydict \<Rightarrow> condition \<Rightarrow> bool" where
  "evaluates ctx c \<longleftrightarrow> (case evaluate_condition (compiled_of c) ctx of
       Inl e \<Rightarrow> missing ctx c \<and> (\<exists>m. e = ConditionError ''CONDITION_PATH_MISSING'' m)
     | Inr out \<Rightarrow> \<not> missing ctx c \<and> co_satisfied out = holds ctx c)"

lemma evaluate_all_spec:
  assumes "\<And>c. c \<in> set cs \<Longrightarrow> evaluates ctx c"
  shows "case evaluate_all (map compiled_of cs) ctx of
       Inl e \<Rightarrow> list_ex (missing ctx) cs \<and> (\<exists>m. e = ConditionError ''CONDITION_PATH_MISSING'' m)
     | Inr outs \<Rightarrow> \<not> list_ex (missing ctx) cs \<and> map co_satisfied outs = map (holds ctx) cs"
  using assms
proof (induction cs)
  case (Cons c cs)
  have "evaluates ctx c" using Cons.prems by simp
  moreover have "case evaluate_all (map compiled_of cs) ctx of
       Inl e \<Rightarrow> list_ex (missing ctx) cs \<and> (\<exists>m. e = ConditionError ''CONDITION_PATH_MISSING'' m)
     | Inr outs \<Rightarrow> \<not> list_ex (missing ctx) cs \<and> map co_satisfied outs = map (holds ctx) cs"
    using Cons.prems by (intro Cons.IH) simp
  ultimately show ?case
    by (auto simp: evaluates_def split: sum.splits)
qed simp

lemma list_ex_co_satisfied:
  "list_all co_satisfied outs = list_all id (map co_satisfied outs)"
  "list_ex co_satisfied outs = list_ex id (map co_satisfied outs)"
  by (induction outs) auto

lemma list_holds_map:
  "list_all id (map (holds ctx) cs) = list_all (holds ctx) cs"
  "list_ex id (map (holds ctx) cs) = list_ex (holds ctx) cs"
  by (induction cs) auto

lemma evaluate_condition_spec: "condition_ok c \<Longrightarrow> evaluates ctx c"
proof (induction c)
  case (Condition op path v subs)
  have subs: "evaluates ctx c" if "c \<in> set subs" for c
    using Condition that by (auto simp: list_all_iff)
  note all = evaluate_all_spec [of subs ctx, OF subs]
  have shape: "op_shape (Condition op path v subs) = None" "op \<in> set CONDITION_OPS"
    using Condition.prems by auto
  show ?case
  proof (cases "op = ''and'' \<or> op = ''or''")
    case True
    then show ?thesis using all
      by (cases "evaluate_all (map compiled_of subs) ctx")
        (auto simp: evaluates_def condition_outcome_def list_ex_co_satisfied list_holds_map)
  next
    case nary: False
    show ?thesis
    proof (cases "op = ''not''")
      case True
      then obtain c where "subs = [c]"
        using shape(1) by (auto simp: op_shape_def length_Suc_conv split: if_splits)
      then show ?thesis using subs [of c] True
        by (auto simp: evaluates_def condition_outcome_def split: sum.splits)
    next
      case False
      have leaf: "op \<in> {''eq'', ''ne'', ''in'', ''exists''}"
        using shape(2) nary False by (auto simp: CONDITION_OPS_def)
      then obtain s where "path = Some s" "subs = []"
        using shape(1) by (auto simp: op_shape_def Let_def split: if_splits)
      moreover have "op = ''in'' \<Longrightarrow> \<exists>xs. v = PList xs"
        using shape(1) by (auto simp: op_shape_def Let_def split: if_splits pyval.splits)
      ultimately show ?thesis using leaf
        by (auto simp: evaluates_def evaluate_leaf_def condition_outcome_def list_value_def
            split: option.splits)
    qed
  qed
qed

section \<open>Compilation keeps the source\<close>

lemma source_of_compiled: "source_of (compiled_of c) = c"
  by (induction c) (auto simp: option.map_comp comp_def join_split_dots option.map_ident intro!: map_idI)

lemma describe_compiled: "describe (compiled_of c) = written c"
proof (induction c)
  case (Condition op path v subs)
  then have "map describe (map compiled_of subs) = map written subs" by simp
  then show ?case by (auto simp: join_split_dots simp del: map_map split: option.splits)
qed

end
