(* ===== verification/Workflow.thy ===== *)
theory Workflow
  imports Conditions
begin

text \<open>
  The workflow contract of \<^verbatim>\<open>packages/contracts/motte_contracts/workflow.py\<close> (limits, target
  requirements, fixture references, the seven kinds of steps, the structural rules of
  \<^verbatim>\<open>WorkflowVersion\<close>) and the compiler \<^verbatim>\<open>packages/scenario-runtime/motte_scenario/compiler.py\<close>.
  The content hash is a parameter, as is the store of published fixtures and workflows.  A validator
  returns the message of the first error it raises.
\<close>

section \<open>Limits\<close>

definition MAX_STEP_NESTING_DEPTH :: nat where "MAX_STEP_NESTING_DEPTH = 4"
definition MAX_WORKFLOW_STEPS :: nat where "MAX_WORKFLOW_STEPS = 256"
definition MAX_LOOP_ITERATIONS :: int where "MAX_LOOP_ITERATIONS = 64"
definition WALL_TIME_CEILING_SEC :: rat where "WALL_TIME_CEILING_SEC = 3600"
definition MAX_TURNS_CEILING :: int where "MAX_TURNS_CEILING = 128"
definition MAX_TOTAL_STEPS_CEILING :: int where "MAX_TOTAL_STEPS_CEILING = 2048"

definition reject_bool :: "pyval \<Rightarrow> fstr option" where
  "reject_bool v = (case v of
       PBool _ \<Rightarrow> Some [Txt ''budget/limit values must be numbers, not booleans'']
     | PFloat f \<Rightarrow> (case f of FFin _ \<Rightarrow> None | _ \<Rightarrow> Some [Txt ''budget/limit values must be finite''])
     | _ \<Rightarrow> None)"

record limits =
  lm_total :: int
  lm_turns :: int
  lm_wall :: rat

definition positive_int :: "fstr \<Rightarrow> pyval \<Rightarrow> fstr + int" where
  "positive_int msg v = (case reject_bool v of
       Some e \<Rightarrow> Inl e
     | None \<Rightarrow> (case v of PInt n \<Rightarrow> if n \<le> 0 then Inl msg else Inr n | _ \<Rightarrow> Inl msg))"

definition positive_float :: "fstr \<Rightarrow> pyval \<Rightarrow> fstr + rat" where
  "positive_float msg v = (case reject_bool v of
       Some e \<Rightarrow> Inl e
     | None \<Rightarrow> (case v of
           PInt n \<Rightarrow> if n \<le> 0 then Inl msg else Inr (of_int n)
         | PFloat (FFin q) \<Rightarrow> if q \<le> 0 then Inl msg else Inr q
         | _ \<Rightarrow> Inl msg))"

definition limit_ceilings :: "limits \<Rightarrow> fstr option" where
  "limit_ceilings l =
     (if lm_total l > MAX_TOTAL_STEPS_CEILING then
        Some [Txt ''max_total_steps exceeds the workflow ceiling '', Num MAX_TOTAL_STEPS_CEILING]
      else if lm_turns l > MAX_TURNS_CEILING then
        Some [Txt ''max_turns exceeds the workflow ceiling '', Num MAX_TURNS_CEILING]
      else if lm_wall l > WALL_TIME_CEILING_SEC then
        Some [Txt ''wall_time_sec exceeds the workflow ceiling '', Real WALL_TIME_CEILING_SEC]
      else None)"

definition workflow_limits :: "pyval \<Rightarrow> pyval \<Rightarrow> pyval \<Rightarrow> fstr + limits" where
  "workflow_limits total_steps turns wall =
     res_bind (positive_int [Txt ''workflow limits must be positive integers''] total_steps) (\<lambda>t.
     res_bind (positive_int [Txt ''workflow limits must be positive integers''] turns) (\<lambda>u.
     res_bind (positive_float [Txt ''workflow wall_time_sec must be a positive finite number''] wall) (\<lambda>w.
       (let l = \<lparr>lm_total = t, lm_turns = u, lm_wall = w\<rparr> in
        case limit_ceilings l of Some e \<Rightarrow> Inl e | None \<Rightarrow> Inr l))))"

section \<open>Target requirements and fixture references\<close>

record target_requirements =
  tr_multi_turn :: bool
  tr_min_turns :: int
  tr_required_tools :: "string list"
  tr_tool_modes :: "string list"
  tr_interrupt :: bool
  tr_skill_injection :: bool
  tr_evidence :: "string list"

definition TOOL_MODES :: "string list" where
  "TOOL_MODES = [''real'', ''mock'', ''replay'', ''deny'']"

text \<open>\<^verbatim>\<open>tuple(dict.fromkeys(value))\<close>: the first occurrence of each name, in order.\<close>

definition dedupe :: "'a list \<Rightarrow> 'a list" where
  "dedupe xs = rev (remdups (rev xs))"

definition target_requirements_valid :: "target_requirements \<Rightarrow> fstr + target_requirements" where
  "target_requirements_valid t =
     (if tr_min_turns t < 1 then
        Inl [Txt ''target_requirements.min_turns must be a positive integer'']
      else (case find (\<lambda>name. \<not> REFERENCE name) (tr_required_tools t) of
          Some name \<Rightarrow>
            Inl [Txt ''target_requirements.required_tools entry is not a name: '', Rep (PStr name)]
        | None \<Rightarrow>
            if \<not> tr_multi_turn t \<and> tr_min_turns t > 1 then
              Inl [Txt ''min_turns > 1 requires multi_turn'']
            else if list_ex (\<lambda>mode. mode \<notin> set TOOL_MODES) (tr_tool_modes t) then
              Inl (Txt ''unknown tool modes: '' # map Txt (intersperse '',''
                (sort (remdups (filter (\<lambda>mode. mode \<notin> set TOOL_MODES) (tr_tool_modes t))))))
            else Inr (t\<lparr>tr_required_tools := dedupe (tr_required_tools t)\<rparr>)))"

record fixture_ref =
  fx_id :: string
  fx_version :: int
  fx_kind :: string
  fx_hash :: "string option"
  fx_tools :: "string list"

text \<open>\<^verbatim>\<open>value.startswith("sha256:") and len(value) == 71\<close>\<close>

definition hash_shape :: "string option \<Rightarrow> bool" where
  "hash_shape h = (case h of None \<Rightarrow> True | Some v \<Rightarrow> take 7 v = ''sha256:'' \<and> length v = 71)"

definition fixture_ref_valid :: "fixture_ref \<Rightarrow> fstr option" where
  "fixture_ref_valid f =
     (if \<not> REFERENCE (fx_id f) then
        Some [Txt ''fixture_id is not a valid resource name: '', Rep (PStr (fx_id f))]
      else if fx_version f < 1 then Some [Txt ''fixture version must be a positive integer'']
      else if \<not> hash_shape (fx_hash f) then
        Some [Txt ''fixture content_hash must be a canonical sha256 digest'']
      else None)"

section \<open>Steps\<close>

record step_base =
  sb_id :: string
  sb_timeout :: "rat option"
  sb_assertions :: "condition list"
  sb_policy :: string

datatype step =
    SendMessage step_base string "string option"
  | InvokeFixtureTool step_base string pydict string
  | AssertStep step_base
  | CheckpointStep step_base "string option"
  | BranchStep step_base condition "step list" "step list"
  | LoopStep step_base int "step list" "condition option"
  | TriggerFixtureEvent step_base string pydict

fun base_of :: "step \<Rightarrow> step_base" where
  "base_of (SendMessage b _ _) = b"
| "base_of (InvokeFixtureTool b _ _ _) = b"
| "base_of (AssertStep b) = b"
| "base_of (CheckpointStep b _) = b"
| "base_of (BranchStep b _ _ _) = b"
| "base_of (LoopStep b _ _ _) = b"
| "base_of (TriggerFixtureEvent b _ _) = b"

fun step_kind :: "step \<Rightarrow> string" where
  "step_kind (SendMessage _ _ _) = ''send_message''"
| "step_kind (InvokeFixtureTool _ _ _ _) = ''invoke_fixture_tool''"
| "step_kind (AssertStep _) = ''assert''"
| "step_kind (CheckpointStep _ _) = ''checkpoint''"
| "step_kind (BranchStep _ _ _ _) = ''branch''"
| "step_kind (LoopStep _ _ _ _) = ''loop''"
| "step_kind (TriggerFixtureEvent _ _ _) = ''trigger_fixture_event''"

abbreviation step_id :: "step \<Rightarrow> string" where
  "step_id s \<equiv> sb_id (base_of s)"

definition step_base_valid :: "step_base \<Rightarrow> fstr option" where
  "step_base_valid b =
     (if \<not> REFERENCE (sb_id b) then Some [Txt ''step_id is not a valid identifier: '', Rep (PStr (sb_id b))]
      else if (case sb_timeout b of None \<Rightarrow> False | Some t \<Rightarrow> t \<le> 0) then
        Some [Txt ''step timeout_sec must be a positive finite number'']
      else None)"

text \<open>The validators of the step classes, for one step.\<close>

definition step_valid :: "step \<Rightarrow> fstr option" where
  "step_valid s = (case step_base_valid (base_of s) of
       Some e \<Rightarrow> Some e
     | None \<Rightarrow> (case s of
         SendMessage _ message _ \<Rightarrow>
           if message = [] then Some [Txt ''send_message requires a non-empty message''] else None
       | InvokeFixtureTool _ tool _ _ \<Rightarrow>
           if \<not> REFERENCE tool then
             Some [Txt ''invoke_fixture_tool.tool is not a valid name: '', Rep (PStr tool)] else None
       | AssertStep b \<Rightarrow>
           if sb_assertions b = [] then Some [Txt ''assert steps require at least one assertion''] else None
       | CheckpointStep _ _ \<Rightarrow> None
       | BranchStep _ _ then_steps else_steps \<Rightarrow>
           if then_steps = [] \<and> else_steps = [] then
             Some [Txt ''branch requires at least one then/else step''] else None
       | LoopStep _ max_iterations body _ \<Rightarrow>
           if max_iterations < 1 then Some [Txt ''loop max_iterations must be a positive integer'']
           else if max_iterations > MAX_LOOP_ITERATIONS then
             Some [Txt ''loop max_iterations exceeds the workflow ceiling '', Num MAX_LOOP_ITERATIONS]
           else if body = [] then Some [Txt ''loop requires at least one body step'']
           else None
       | TriggerFixtureEvent _ event _ \<Rightarrow>
           if \<not> REFERENCE event then
             Some [Txt ''trigger_fixture_event.event is not a valid name: '', Rep (PStr event)] else None))"

fun child_steps :: "step \<Rightarrow> step list" where
  "child_steps (BranchStep _ _ then_steps else_steps) = then_steps @ else_steps"
| "child_steps (LoopStep _ _ body _) = body"
| "child_steps _ = []"

text \<open>The number of steps of a tree, the measure of the two walks below.\<close>

fun step_nodes :: "step \<Rightarrow> nat" where
  "step_nodes (BranchStep _ _ ts es) = Suc (sum_list (map step_nodes ts) + sum_list (map step_nodes es))"
| "step_nodes (LoopStep _ _ body _) = Suc (sum_list (map step_nodes body))"
| "step_nodes _ = 1"

lemma step_nodes_children: "step_nodes s = Suc (sum_list (map step_nodes (child_steps s)))"
  by (cases s) auto

text \<open>
  \<^verbatim>\<open>_iter_steps\<close> of the contract and \<^verbatim>\<open>iter_steps\<close> of the compiler, the same loop: an explicit stack whose top is at its end, filled
  with the steps and with the children of every step in reverse.
\<close>

function iter_stack :: "step list \<Rightarrow> step list" where
  "iter_stack stack = (if stack = [] then []
     else last stack # iter_stack (butlast stack @ rev (child_steps (last stack))))"
  by pat_completeness auto
termination
proof (relation "measure (\<lambda>stack. sum_list (map step_nodes stack))")
  fix stack :: "step list" assume "stack \<noteq> []"
  then have "sum_list (map step_nodes stack) = sum_list (map step_nodes (butlast stack)) + step_nodes (last stack)"
    by (cases stack rule: rev_cases) simp_all
  then show "(butlast stack @ rev (child_steps (last stack)), stack) \<in> measure (\<lambda>stack. sum_list (map step_nodes stack))"
    by (simp add: step_nodes_children rev_map [symmetric])
qed simp

declare iter_stack.simps [simp del]

definition iter_steps :: "step list \<Rightarrow> step list" where
  "iter_steps steps = iter_stack (rev steps)"

function step_nesting_depth :: "step list \<Rightarrow> nat \<Rightarrow> nat" where
  "step_nesting_depth [] depth = depth"
| "step_nesting_depth (s # steps) depth =
     max (if child_steps s = [] then depth else step_nesting_depth (child_steps s) (depth + 1))
         (step_nesting_depth steps depth)"
  by pat_completeness auto
termination
  by (relation "measure (\<lambda>(steps, _). sum_list (map step_nodes steps))") (simp_all add: step_nodes_children)

section \<open>Structure of a workflow version\<close>

record workflow_version =
  wf_id :: string
  wf_version :: string
  wf_schema :: int
  wf_fixtures :: "fixture_ref list"
  wf_target :: target_requirements
  wf_steps :: "step list"
  wf_completion :: "condition list"
  wf_limits :: limits
  wf_policy :: string
  wf_lifecycle :: string
  wf_hash :: "string option"

fun input_ref :: "step \<Rightarrow> string option" where
  "input_ref (SendMessage _ _ r) = r"
| "input_ref _ = None"

text \<open>The first duplicate step id in \<^verbatim>\<open>flattened\<close>, with the index of its first occurrence.\<close>

fun index_steps :: "nat \<Rightarrow> (string, nat) odict \<Rightarrow> step list \<Rightarrow> fstr + (string, nat) odict" where
  "index_steps i seen [] = Inr seen"
| "index_steps i seen (s # steps) = (case map_of seen (step_id s) of
       Some j \<Rightarrow> Inl [Txt ''duplicate step_id '', Rep (PStr (step_id s)), Txt '' (first at index '',
                      Num (int j), Txt '')'']
     | None \<Rightarrow> index_steps (Suc i) (od_set (step_id s) i seen) steps)"

fun check_refs :: "(string, nat) odict \<Rightarrow> nat \<Rightarrow> step list \<Rightarrow> fstr option" where
  "check_refs seen i [] = None"
| "check_refs seen i (s # steps) = (case input_ref s of
       None \<Rightarrow> check_refs seen (Suc i) steps
     | Some r \<Rightarrow> (case map_of seen r of
           None \<Rightarrow> Some [Txt ''step '', Rep (PStr (step_id s)), Txt '' references unknown step '', Rep (PStr r)]
         | Some j \<Rightarrow>
             if j \<ge> i then Some [Txt ''step '', Rep (PStr (step_id s)), Txt '' references '', Rep (PStr r),
                                 Txt '' before it produced output'']
             else check_refs seen (Suc i) steps))"

definition workflow_structure :: "workflow_version \<Rightarrow> fstr option" where
  "workflow_structure w =
     (if wf_schema w \<noteq> 1 then
        Some [Txt ''unsupported workflow schema_version '', Num (wf_schema w), Txt ''; expected '', Num 1]
      else if wf_steps w = [] then Some [Txt ''workflow requires at least one step'']
      else (let flattened = iter_steps (wf_steps w) in
        if length flattened > MAX_WORKFLOW_STEPS then
          Some [Txt ''workflow declares '', Num (int (length flattened)), Txt '' steps, exceeding '',
                Num (int MAX_WORKFLOW_STEPS)]
        else (case index_steps 0 [] flattened of
            Inl e \<Rightarrow> Some e
          | Inr seen \<Rightarrow>
              if step_nesting_depth (wf_steps w) 1 > MAX_STEP_NESTING_DEPTH then
                Some [Txt ''step nesting depth '', Num (int (step_nesting_depth (wf_steps w) 1)),
                      Txt '' exceeds the workflow ceiling '', Num (int MAX_STEP_NESTING_DEPTH)]
              else (case check_refs seen 0 flattened of
                  Some e \<Rightarrow> Some e
                | None \<Rightarrow>
                    if \<not> distinct (map fx_id (wf_fixtures w)) then
                      Some [Txt ''fixture_refs must reference distinct fixture ids'']
                    else None))))"

text \<open>The characters \<^verbatim>\<open>str.strip()\<close> removes, up to code point 255.\<close>

definition py_space :: "char \<Rightarrow> bool" where
  "py_space c \<longleftrightarrow> (let n = (of_char c :: nat) in 9 \<le> n \<and> n \<le> 13 \<or> 28 \<le> n \<and> n \<le> 32 \<or> n = 133 \<or> n = 160)"

text \<open>The field validators of \<^verbatim>\<open>WorkflowVersion\<close>, in the order of the fields.\<close>

definition workflow_fields :: "workflow_version \<Rightarrow> fstr option" where
  "workflow_fields w =
     (if \<not> REFERENCE (wf_id w) then
        Some [Txt ''workflow_id is not a valid resource name: '', Rep (PStr (wf_id w))]
      else if list_all py_space (wf_version w) then Some [Txt ''workflow version must be a non-empty string'']
      else if wf_lifecycle w \<noteq> ''published'' then
        Some [Txt ''workflow versions publish immediately and are immutable'']
      else if \<not> hash_shape (wf_hash w) then
        Some [Txt ''workflow content_hash must be a canonical sha256 digest'']
      else None)"

definition effective_content_hash :: "(workflow_version \<Rightarrow> string) \<Rightarrow> workflow_version \<Rightarrow> fstr + string" where
  "effective_content_hash content_hash w =
     (case wf_hash w of
        Some h \<Rightarrow> if h \<noteq> content_hash w then Inl [Txt ''workflow content_hash does not match its content'']
                  else Inr (content_hash w)
      | None \<Rightarrow> Inr (content_hash w))"

section \<open>Compilation of a workflow\<close>

text \<open>
  \<^verbatim>\<open>iter_conditions\<close>: completion assertions first, then every step in declaration order.  A label such
  as \<^verbatim>\<open>completion[0]\<close> is a formatted text.
\<close>

definition indexed_label :: "string \<Rightarrow> nat \<Rightarrow> fstr" where
  "indexed_label name i = [Txt (name @ ''[''), Num (int i), Txt '']'']"

definition step_conditions :: "step \<Rightarrow> (string \<times> fstr \<times> condition) list" where
  "step_conditions s = map (\<lambda>(i, c). (step_id s, indexed_label ''assertions'' i, c))
       (enumerate 0 (sb_assertions (base_of s)))
     @ (case s of BranchStep _ c _ _ \<Rightarrow> [(step_id s, [Txt ''when''], c)]
        | LoopStep _ _ _ (Some c) \<Rightarrow> [(step_id s, [Txt ''until''], c)] | _ \<Rightarrow> [])"

definition iter_conditions :: "workflow_version \<Rightarrow> (string \<times> fstr \<times> condition) list" where
  "iter_conditions w = map (\<lambda>(i, c). (''__completion__'', indexed_label ''completion'' i, c))
       (enumerate 0 (wf_completion w))
     @ concat (map step_conditions (iter_steps (wf_steps w)))"

record compiled_workflow =
  cw_ref :: string
  cw_hash :: string
  cw_workflow :: workflow_version
  cw_steps :: "step list"
  cw_conditions :: "compiled list"

text \<open>The published fixtures: \<^verbatim>\<open>store.get(fixture_id, str(version))\<close>.\<close>

type_synonym fixture_store = "string \<Rightarrow> int \<Rightarrow> pydict option"

definition verify_fixture_ref :: "string \<Rightarrow> fixture_store \<Rightarrow> fixture_ref \<Rightarrow> eexn option" where
  "verify_fixture_ref ref store f = (case store (fx_id f) (fx_version f) of
       None \<Rightarrow> Some (OtherError ''WorkflowResolutionError'' (Some ''WORKFLOW_FIXTURE_MISSING'')
         [Txt ''workflow '', Txt ref, Txt '' references unpublished fixture '', Txt (fx_id f), Txt ''@'',
          Num (fx_version f)])
     | Some spec \<Rightarrow>
         (let recorded = dget spec ''content_hash''; kind = dget spec ''kind'' in
          if (case fx_hash f of None \<Rightarrow> False | Some h \<Rightarrow> recorded \<noteq> PNone \<and> \<not> py_eq (PStr h) recorded) then
            Some (OtherError ''WorkflowResolutionError'' (Some ''WORKFLOW_FIXTURE_HASH_MISMATCH'')
              [Txt ''workflow '', Txt ref, Txt '' content hash drift: fixture '', Txt (fx_id f), Txt ''@'',
               Num (fx_version f), Txt '' is pinned at '', Txt (case fx_hash f of None \<Rightarrow> [] | Some h \<Rightarrow> h),
               Txt '' but the store holds '', Val recorded])
          else if kind \<noteq> PNone \<and> \<not> py_eq kind (PStr (fx_kind f)) then
            Some (OtherError ''WorkflowResolutionError'' (Some ''WORKFLOW_FIXTURE_KIND_MISMATCH'')
              [Txt ''workflow '', Txt ref, Txt '' expects fixture kind '', Rep (PStr (fx_kind f)),
               Txt '' but '', Txt (fx_id f), Txt ''@'', Num (fx_version f), Txt '' is '', Rep kind])
          else None))"

fun verify_fixture_refs :: "string \<Rightarrow> fixture_store \<Rightarrow> fixture_ref list \<Rightarrow> eexn option" where
  "verify_fixture_refs ref store [] = None"
| "verify_fixture_refs ref store (f # fs) = (case verify_fixture_ref ref store f of
       Some e \<Rightarrow> Some e | None \<Rightarrow> verify_fixture_refs ref store fs)"

text \<open>\<^verbatim>\<open>except ConditionError as error: raise WorkflowResolutionError(error.code, str(error))\<close>\<close>

definition as_resolution_error :: "eexn \<Rightarrow> eexn" where
  "as_resolution_error e = (case e of
       ConditionError code msg \<Rightarrow> OtherError ''WorkflowResolutionError'' (Some code) msg
     | _ \<Rightarrow> e)"

definition compile_workflow ::
    "(workflow_version \<Rightarrow> string) \<Rightarrow> fixture_store option \<Rightarrow> bool \<Rightarrow> workflow_version \<Rightarrow> eexn + compiled_workflow" where
  "compile_workflow content_hash store allow_draft w =
     (let ref = wf_id w @ ''@'' @ wf_version w in
      if wf_lifecycle w \<noteq> ''published'' \<and> \<not> allow_draft then
        Inl (OtherError ''WorkflowResolutionError'' (Some ''WORKFLOW_NOT_PUBLISHED'')
          [Txt ''workflow '', Txt ref, Txt '' is '', Rep (PStr (wf_lifecycle w)),
           Txt ''; only published versions may execute''])
      else if (case wf_hash w of None \<Rightarrow> False | Some h \<Rightarrow> h \<noteq> content_hash w) then
        Inl (OtherError ''WorkflowResolutionError'' (Some ''WORKFLOW_CONTENT_HASH_MISMATCH'')
          [Txt ''workflow '', Txt ref, Txt '' content_hash does not match content''])
      else (case res_map (\<lambda>(_, _, c). compile_condition c) (iter_conditions w) of
          Inl e \<Rightarrow> Inl (as_resolution_error e)
        | Inr conditions \<Rightarrow>
            (case (case store of None \<Rightarrow> None | Some st \<Rightarrow> verify_fixture_refs ref st (wf_fixtures w)) of
               Some e \<Rightarrow> Inl e
             | None \<Rightarrow> Inr \<lparr>cw_ref = ref, cw_hash = content_hash w, cw_workflow = w,
                 cw_steps = iter_steps (wf_steps w), cw_conditions = conditions\<rparr>)))"

definition step_by_id :: "compiled_workflow \<Rightarrow> string \<Rightarrow> exn + step" where
  "step_by_id cw sid = (case find (\<lambda>s. step_id s = sid) (cw_steps cw) of
       None \<Rightarrow> Inl (KeyError sid) | Some s \<Rightarrow> Inr s)"

definition resolve_workflow_ref ::
    "(workflow_version \<Rightarrow> string) \<Rightarrow> fixture_store option
     \<Rightarrow> (string \<Rightarrow> string \<Rightarrow> workflow_version option) option \<Rightarrow> bool \<Rightarrow> string \<Rightarrow> eexn + compiled_workflow" where
  "resolve_workflow_ref content_hash fixtures workflows allow_draft ref = (case rpartition_at ref of
       None \<Rightarrow> Inl (OtherError ''WorkflowResolutionError'' (Some ''WORKFLOW_REF_INVALID'')
         [Txt ''workflow reference must be name@version: '', Rep (PStr ref)])
     | Some (name, version) \<Rightarrow>
         if name = [] \<or> version = [] then
           Inl (OtherError ''WorkflowResolutionError'' (Some ''WORKFLOW_REF_INVALID'')
             [Txt ''workflow reference must be name@version: '', Rep (PStr ref)])
         else (case workflows of
             None \<Rightarrow> Inl (OtherError ''WorkflowResolutionError'' (Some ''WORKFLOW_STORE_MISSING'')
               [Txt ''workflow resources are not available in this store''])
           | Some store \<Rightarrow> (case store name version of
                 None \<Rightarrow> Inl (OtherError ''WorkflowResolutionError'' (Some ''WORKFLOW_NOT_FOUND'')
                   [Txt ''workflow not found: '', Txt ref])
               | Some w \<Rightarrow> compile_workflow content_hash fixtures allow_draft w)))"

section \<open>Facts\<close>

text \<open>The reference for the stack walk: preorder, children in declaration order.\<close>

fun flatten :: "step \<Rightarrow> step list" where
  "flatten (BranchStep b c ts es) = BranchStep b c ts es # concat (map flatten ts) @ concat (map flatten es)"
| "flatten (LoopStep b n body u) = LoopStep b n body u # concat (map flatten body)"
| "flatten s = [s]"

lemma flatten_children: "flatten s = s # concat (map flatten (child_steps s))"
  by (cases s) auto

lemma iter_steps_preorder: "iter_steps steps = concat (map flatten steps)"
  unfolding iter_steps_def
proof (induction "sum_list (map step_nodes steps)" arbitrary: steps rule: less_induct)
  case less
  show ?case
  proof (cases steps)
    case (Cons s ss)
    then have "iter_stack (rev (child_steps s @ ss)) = concat (map flatten (child_steps s @ ss))"
      by (intro less) (simp add: step_nodes_children)
    then show ?thesis
      using Cons flatten_children [of s] by (subst iter_stack.simps) simp
  qed (simp add: iter_stack.simps)
qed

lemma length_flatten: "length (flatten s) = step_nodes s"
  by (induction s rule: flatten.induct) (simp_all add: length_concat comp_def cong: map_cong)

lemma length_iter_steps: "length (iter_steps steps) = sum_list (map step_nodes steps)"
  by (simp add: iter_steps_preorder length_concat length_flatten comp_def)

lemma index_steps_Inr:
  "index_steps i seen steps = Inr seen' \<longleftrightarrow> distinct (map step_id steps)
     \<and> set (map step_id steps) \<inter> fst ` set seen = {}
     \<and> seen' = seen @ zip (map step_id steps) [i..<i + length steps]"
proof (induction i seen steps rule: index_steps.induct)
  case (2 i seen s steps)
  show ?case
  proof (cases "map_of seen (step_id s)")
    case None
    then have k: "step_id s \<notin> fst ` set seen" by (simp add: map_of_eq_None_iff)
    have "[i..<i + length (s # steps)] = i # [Suc i..<Suc i + length steps]"
      using upt_conv_Cons [of i "i + length (s # steps)"] by simp
    then show ?thesis using 2 [OF None] None k by (auto simp: od_set_fresh [OF k])
  next
    case (Some j)
    then have "step_id s \<in> fst ` set seen" by (force dest: map_of_SomeD)
    then show ?thesis using Some by auto
  qed
qed auto

lemma check_refs_None:
  "check_refs seen i steps = None \<longleftrightarrow> (\<forall>k < length steps. \<forall>r. input_ref (steps ! k) = Some r \<longrightarrow>
     (\<exists>j. map_of seen r = Some j \<and> j < i + k))"
proof (induction seen i steps rule: check_refs.induct)
  case (2 seen i s steps)
  have split: "(\<forall>k < length (s # steps). P k) \<longleftrightarrow> P 0 \<and> (\<forall>k < length steps. P (Suc k))" for P
    using less_Suc_eq_0_disj by auto
  show ?case unfolding split using 2 by (auto split: option.splits)
qed simp

lemma map_of_zip_upt:
  assumes "distinct xs"
  shows "map_of (zip xs [0..<length xs]) r = Some j \<longleftrightarrow> j < length xs \<and> xs ! j = r"
proof -
  have "map_of (zip xs [0..<length xs]) r = Some j \<longleftrightarrow> (r, j) \<in> set (zip xs [0..<length xs])"
    using assms by (intro map_of_eq_Some_iff) simp
  also have "\<dots> \<longleftrightarrow> j < length xs \<and> xs ! j = r" by (auto simp: set_zip)
  finally show ?thesis .
qed

lemma workflow_structure_None:
  "workflow_structure w = None \<longleftrightarrow>
     (let fl = concat (map flatten (wf_steps w)) in
      wf_schema w = 1 \<and> wf_steps w \<noteq> [] \<and> length fl \<le> MAX_WORKFLOW_STEPS
      \<and> distinct (map step_id fl) \<and> step_nesting_depth (wf_steps w) 1 \<le> MAX_STEP_NESTING_DEPTH
      \<and> (\<forall>k < length fl. \<forall>r. input_ref (fl ! k) = Some r \<longrightarrow> (\<exists>j < k. step_id (fl ! j) = r))
      \<and> distinct (map fx_id (wf_fixtures w)))"
proof (cases "distinct (map step_id (iter_steps (wf_steps w)))")
  case True
  let ?fl = "iter_steps (wf_steps w)"
  let ?seen = "zip (map step_id ?fl) [0..<length ?fl]"
  have seen: "index_steps 0 [] ?fl = Inr ?seen" using True by (simp add: index_steps_Inr)
  have "map_of ?seen r = Some j \<longleftrightarrow> j < length ?fl \<and> step_id (?fl ! j) = r" for r j
    using map_of_zip_upt [OF True, of r j] by auto
  then have refs: "check_refs ?seen 0 ?fl = None \<longleftrightarrow> (\<forall>k < length ?fl. \<forall>r. input_ref (?fl ! k) = Some r \<longrightarrow>
      (\<exists>j < k. step_id (?fl ! j) = r))"
    unfolding check_refs_None by fastforce
  show ?thesis
    using True seen refs by (auto simp: workflow_structure_def Let_def iter_steps_preorder [symmetric]
        split: option.splits)
next
  case False
  then have "index_steps 0 [] (iter_steps (wf_steps w)) \<noteq> Inr seen" for seen
    by (simp add: index_steps_Inr)
  then obtain e where "index_steps 0 [] (iter_steps (wf_steps w)) = Inl e"
    by (cases "index_steps 0 [] (iter_steps (wf_steps w))") auto
  with False show ?thesis
    by (auto simp: workflow_structure_def Let_def iter_steps_preorder [symmetric])
qed

lemma compile_workflow_conditions:
  assumes "compile_workflow hash store draft w = Inr cw" "(sid, tag, c) \<in> set (iter_conditions w)"
  shows "compile_condition c = Inr (compiled_of c)"
proof -
  obtain ks where "res_map (\<lambda>(_, _, c). compile_condition c) (iter_conditions w) = Inr ks"
    using assms(1) by (auto simp: compile_workflow_def Let_def split: if_splits sum.splits option.splits)
  then have "\<exists>k. compile_condition c = Inr k"
    using assms(2) by (fastforce simp: res_map_Inr list_all2_conv_all_nth in_set_conv_nth)
  then show ?thesis by (auto simp: compile_condition_Inr)
qed

end
