(* ===== verification/Engine.thy ===== *)
theory Engine
  imports Workflow
begin

text \<open>
  The bounded workflow engine, \<^verbatim>\<open>packages/scenario-runtime/motte_scenario/engine.py\<close>.  The fixture,
  the target, the clock, the event sink and the cancellation probe are the protocols the engine is
  written against: they are operations on an arbitrary world \<open>'w\<close>, any of which may raise.  The
  engine state is the record \<open>eng\<close>; every read of the clock is an operation on the world, in the
  order the code reads it.  Seconds are exact rationals.
\<close>

section \<open>Ports, events and state\<close>

text \<open>The rows of an assertion report: \<^verbatim>\<open>ConditionOutcome.as_dict()\<close>, an error, or a loop record.\<close>

datatype assertion_row =
    ARow fstr string "string option" bool pyval fstr
  | AErr fstr string fstr
  | AUntil int assertion_row
  | AIter int

datatype evval = EPy pyval | EText "fstr option" | ERows "assertion_row list" | EMap "(string \<times> evval) list"

type_synonym event = "(string \<times> evval) list"

record 'w ports =
  pt_now :: "'w \<Rightarrow> rat \<times> 'w"
  pt_cancel :: "('w \<Rightarrow> (eexn + bool) \<times> 'w) option"
  pt_sink :: "(event \<Rightarrow> 'w \<Rightarrow> (eexn + unit) \<times> 'w) option"
  pt_state :: "'w \<Rightarrow> (eexn + pydict) \<times> 'w"
  pt_snapshot :: "'w \<Rightarrow> (eexn + pydict \<times> string) \<times> 'w"
  pt_tool :: "string \<Rightarrow> pydict \<Rightarrow> string \<Rightarrow> 'w \<Rightarrow> (eexn + pyval) \<times> 'w"
  pt_apply_event :: "string \<Rightarrow> pydict \<Rightarrow> 'w \<Rightarrow> (eexn + pyval) \<times> 'w"
  pt_begin :: "'w \<Rightarrow> (eexn + pyval) \<times> 'w"
  pt_send :: "string \<Rightarrow> rat \<Rightarrow> 'w \<Rightarrow> (eexn + pyval) \<times> 'w"
  pt_interrupt :: "string \<Rightarrow> 'w \<Rightarrow> (eexn + pyval) \<times> 'w"
  pt_close :: "'w \<Rightarrow> (eexn + pyval) \<times> 'w"

record config =
  cf_workflow :: workflow_version
  cf_run :: "string option"
  cf_case :: "string option"
  cf_attempt :: "string option"

record evidence =
  ev_seq :: int
  ev_step :: string
  ev_kind :: string
  ev_status :: string
  ev_detail :: "fstr option"
  ev_attempts :: int
  ev_assertions :: "assertion_row list"
  ev_duration :: rat
  ev_depth :: int

record checkpoint_record =
  ck_step :: string
  ck_label :: "string option"
  ck_hash :: string
  ck_state :: pydict

record 'w eng =
  eg_world :: 'w
  eg_deadline :: rat
  eg_evidence :: "evidence list"
  eg_checkpoints :: "(string, checkpoint_record) odict"
  eg_step_results :: pydict
  eg_tool_results :: pydict
  eg_step_count :: int
  eg_turns :: int
  eg_tool_calls :: int
  eg_seq :: int
  eg_evidence_only :: bool
  eg_evidence_only_reason :: "fstr option"
  eg_terminal :: "(string \<times> fstr option) option"
  eg_needs_review :: bool
  eg_interrupt :: "(string \<times> evval) list option"

type_synonym ('w, 'a) eop = "('w eng, eexn, 'a) sop"

definition max_total_steps :: "config \<Rightarrow> int" where
  "max_total_steps cfg = lm_total (wf_limits (cf_workflow cfg))"

definition max_turns :: "config \<Rightarrow> int" where
  "max_turns cfg = lm_turns (wf_limits (cf_workflow cfg))"

definition wall_time_sec :: "config \<Rightarrow> rat" where
  "wall_time_sec cfg = lm_wall (wf_limits (cf_workflow cfg))"

definition workflow_failure_policy :: "config \<Rightarrow> string" where
  "workflow_failure_policy cfg = (if wf_policy (cf_workflow cfg) = ''continue_for_evidence''
     then ''continue_for_evidence'' else ''stop_case'')"

abbreviation real_val :: "rat \<Rightarrow> evval" where
  "real_val q \<equiv> EPy (PFloat (FFin q))"

abbreviation str_val :: "string \<Rightarrow> evval" where
  "str_val s \<equiv> EPy (PStr s)"

text \<open>\<^verbatim>\<open>f"{type(error).__name__}: {error}"\<close>\<close>

definition error_text :: "eexn \<Rightarrow> fstr" where
  "error_text e = (case e of
       EvidenceBoundaryError _ m \<Rightarrow> Txt ''EvidenceBoundaryError: '' # m
     | EngineError _ m \<Rightarrow> Txt ''EngineError: '' # m
     | ConditionError _ m \<Rightarrow> Txt ''ConditionError: '' # m
     | OtherError name _ m \<Rightarrow> Txt (name @ '': '') # m)"

text \<open>The detail of a failed step: the structured code when there is one, else the class name.\<close>

definition error_detail :: "eexn \<Rightarrow> fstr" where
  "error_detail e = (case e of
       EvidenceBoundaryError code m \<Rightarrow> Txt (code @ '': '') # m
     | EngineError code m \<Rightarrow> Txt (code @ '': '') # m
     | ConditionError code m \<Rightarrow> Txt (code @ '': '') # m
     | OtherError name code m \<Rightarrow>
         Txt ((case code of None \<Rightarrow> name | Some c \<Rightarrow> if c = [] then name else c) @ '': '') # m)"

section \<open>Clock, cancellation, events\<close>

definition wop :: "('w \<Rightarrow> (eexn + 'a) \<times> 'w) \<Rightarrow> ('w, 'a) eop" where
  "wop m s = (case m (eg_world s) of (r, w) \<Rightarrow> (r, s\<lparr>eg_world := w\<rparr>))"

definition clock_now :: "'w ports \<Rightarrow> ('w, rat) eop" where
  "clock_now P = wop (\<lambda>w. case pt_now P w of (t, w') \<Rightarrow> (Inr t, w'))"

definition remaining_seconds :: "'w ports \<Rightarrow> ('w, rat) eop" where
  "remaining_seconds P = st_bind (clock_now P) (\<lambda>t. st_get (\<lambda>s. max 0 (eg_deadline s - t)))"

definition cancelled :: "'w ports \<Rightarrow> ('w, bool) eop" where
  "cancelled P = (case pt_cancel P of
       None \<Rightarrow> st_return False
     | Some probe \<Rightarrow> st_catch (wop probe) (\<lambda>_. st_return False))"

definition emit :: "'w ports \<Rightarrow> config \<Rightarrow> string \<Rightarrow> event \<Rightarrow> ('w, unit) eop" where
  "emit P cfg event_type payload = (case pt_sink P of
       None \<Rightarrow> st_return ()
     | Some sink \<Rightarrow> st_bind (st_get eg_seq) (\<lambda>seq.
         wop (sink ([(''type'', str_val event_type), (''run_id'', EPy (case cf_run cfg of None \<Rightarrow> PNone | Some r \<Rightarrow> PStr r)),
           (''case_id'', EPy (case cf_case cfg of None \<Rightarrow> PNone | Some r \<Rightarrow> PStr r)),
           (''attempt_id'', EPy (case cf_attempt cfg of None \<Rightarrow> PNone | Some r \<Rightarrow> PStr r)),
           (''step_seq'', EPy (PInt seq))] @ payload))))"

definition budget_stop :: "'w ports \<Rightarrow> config \<Rightarrow> string \<Rightarrow> ('w, (string \<times> fstr option) option) eop" where
  "budget_stop P cfg kind =
     st_bind (cancelled P) (\<lambda>c.
     if c then st_return (Some (''cancelled'', Some [Txt ''cancelled before step dispatch'']))
     else st_bind (st_get eg_step_count) (\<lambda>n.
     if n \<ge> max_total_steps cfg then
       st_return (Some (''budget_exceeded'', Some [Txt ''max_total_steps='', Num (max_total_steps cfg),
         Txt '' exhausted before step dispatch'']))
     else st_bind (st_get eg_turns) (\<lambda>t.
     if kind = ''send_message'' \<and> t \<ge> max_turns cfg then
       st_return (Some (''budget_exceeded'', Some [Txt ''max_turns='', Num (max_turns cfg),
         Txt '' exhausted before step dispatch'']))
     else st_bind (remaining_seconds P) (\<lambda>r.
     if r \<le> 0 then
       st_return (Some (''budget_exceeded'', Some [Txt ''wall_time_sec='', Real (wall_time_sec cfg),
         Txt '' exhausted before step dispatch'']))
     else st_return None))))"

section \<open>Assertions\<close>

definition eval_context :: "'w ports \<Rightarrow> ('w, pydict) eop" where
  "eval_context P = st_bind (wop (pt_state P)) (\<lambda>state. st_get (\<lambda>s.
     [(''state'', PDict state), (''tool_results'', PDict (eg_tool_results s)),
      (''step_results'', PDict (eg_step_results s))]))"

definition outcome_row :: "cond_outcome \<Rightarrow> assertion_row" where
  "outcome_row out = ARow (describe (co_condition out)) (k_op (co_condition out))
     (case k_path (co_condition out) of None \<Rightarrow> None
      | Some segs \<Rightarrow> if segs = [] then None else Some (join_dots segs))
     (co_satisfied out) (co_actual out) (co_reason out)"

definition evaluate_one :: "'w ports \<Rightarrow> compiled \<Rightarrow> ('w, assertion_row \<times> bool) eop" where
  "evaluate_one P k = st_catch
     (st_bind (eval_context P) (\<lambda>ctx. st_bind (st_lift (evaluate_condition k ctx)) (\<lambda>out.
        st_return (outcome_row out, co_satisfied out))))
     (\<lambda>e. case e of
        ConditionError code m \<Rightarrow> st_return (AErr (describe k) code m, False)
      | _ \<Rightarrow> st_raise e)"

fun evaluate :: "'w ports \<Rightarrow> condition list \<Rightarrow> ('w, assertion_row list \<times> bool) eop" where
  "evaluate P [] = st_return ([], True)"
| "evaluate P (c # cs) =
     st_bind (st_lift (compile_condition c)) (\<lambda>k.
     st_bind (evaluate_one P k) (\<lambda>(row, ok).
     st_bind (evaluate P cs) (\<lambda>(rows, oks). st_return (row # rows, ok \<and> oks))))"

section \<open>Interrupts and deadlines\<close>

text \<open>\<^verbatim>\<open>str(outcome)\<close> of an answer that is not a dictionary is represented by the value it prints.\<close>

definition interrupt_target :: "'w ports \<Rightarrow> config \<Rightarrow> string \<Rightarrow> ('w, (string \<times> evval) list) eop" where
  "interrupt_target P cfg reason =
     st_bind (st_catch
       (st_bind (wop (pt_interrupt P reason)) (\<lambda>v. st_return (case v of
            PDict d \<Rightarrow> map (\<lambda>(k, x). (k, EPy x)) d
          | _ \<Rightarrow> [(''confirmed'', EPy (PBool False)), (''detail'', EText (Some [Val v]))])))
       (\<lambda>e. st_return [(''confirmed'', EPy (PBool False)), (''error'', EText (Some (error_text e)))])) (\<lambda>outcome.
     (let interrupt = od_merge [(''reason'', str_val reason)] outcome in
      st_bind (st_modify (\<lambda>s. s\<lparr>eg_interrupt := Some interrupt\<rparr>)) (\<lambda>_.
      st_bind (emit P cfg ''target_interrupt'' [(''reason'', str_val reason), (''outcome'', EMap outcome)]) (\<lambda>_.
      st_return interrupt))))"

definition confirmed :: "(string \<times> evval) list \<Rightarrow> bool" where
  "confirmed outcome = (case map_of outcome ''confirmed'' of Some (EPy v) \<Rightarrow> py_truthy v | _ \<Rightarrow> False)"

type_synonym dispatch_result = "string \<times> fstr option \<times> assertion_row list"

definition timeout_outcome :: "'w ports \<Rightarrow> config \<Rightarrow> string \<Rightarrow> ('w, dispatch_result) eop" where
  "timeout_outcome P cfg sid =
     st_bind (interrupt_target P cfg (''step_timeout:'' @ sid)) (\<lambda>outcome.
     st_bind (if \<not> confirmed outcome then
         st_modify (\<lambda>s. s\<lparr>eg_needs_review := True, eg_terminal := Some (''needs_review'', Some
           [Txt ''step '', Rep (PStr sid), Txt '' timed out and the target could not confirm it stopped''])\<rparr>)
       else st_modify (\<lambda>s. s\<lparr>eg_terminal := Some (''failed'', Some
           [Txt ''step '', Rep (PStr sid), Txt '' exceeded its deadline and was stopped''])\<rparr>)) (\<lambda>_.
     st_return (''failed'', Some [Txt ''step '', Rep (PStr sid), Txt '' deadline exceeded''], [])))"

definition deadline_overrun :: "'w ports \<Rightarrow> config \<Rightarrow> step \<Rightarrow> rat \<Rightarrow> ('w, fstr option) eop" where
  "deadline_overrun P cfg step deadline =
     st_bind (clock_now P) (\<lambda>t.
     if t - deadline \<le> 0 then st_return None
     else st_bind (emit P cfg ''step_deadline_exceeded'' [(''step_id'', str_val (step_id step)),
         (''kind'', str_val (step_kind step)), (''phase'', str_val ''post_action''),
         (''overrun_sec'', real_val (py_round (t - deadline) 6))]) (\<lambda>_.
     st_bind (clock_now P) (\<lambda>t2.
     st_bind (st_get eg_deadline) (\<lambda>global_deadline.
     if t2 \<ge> global_deadline then
       (let reason = [Txt ''wall_time_sec='', Real (wall_time_sec cfg), Txt '' exhausted during step '',
           Rep (PStr (step_id step))] in
        st_bind (st_modify (\<lambda>s. s\<lparr>eg_terminal := Some (''budget_exceeded'', Some reason)\<rparr>)) (\<lambda>_.
        st_return (Some reason)))
     else st_return (Some [Txt ''step '', Rep (PStr (step_id step)), Txt '' exceeded its deadline ('',
         Real (py_round (t - deadline) 6), Txt ''s over); the workflow must not report success''])))))"

text \<open>The last check of every action: its own assertions.\<close>

definition check_assertions :: "'w ports \<Rightarrow> step \<Rightarrow> string \<Rightarrow> ('w, dispatch_result) eop" where
  "check_assertions P step failure =
     st_bind (evaluate P (sb_assertions (base_of step))) (\<lambda>(rows, satisfied).
     if \<not> satisfied then st_return (''failed'', Some [Txt failure], rows)
     else st_return (''succeeded'', None, rows))"

section \<open>Dispatch\<close>

definition TARGET_BUDGET_STOPS :: "string list" where
  "TARGET_BUDGET_STOPS = [''max_steps'', ''max_tool_calls'', ''wall_time'', ''token_limit'', ''cost_limit'']"

fun pytype_name :: "pyval \<Rightarrow> string" where
  "pytype_name PNone = ''NoneType''"
| "pytype_name (PBool _) = ''bool''"
| "pytype_name (PInt _) = ''int''"
| "pytype_name (PFloat _) = ''float''"
| "pytype_name (PStr _) = ''str''"
| "pytype_name (PList _) = ''list''"
| "pytype_name (PDict _) = ''dict''"

definition resolve_message :: "string \<Rightarrow> string \<Rightarrow> string option \<Rightarrow> ('w, string) eop" where
  "resolve_message sid message reference = (case reference of
       None \<Rightarrow> st_return message
     | Some r \<Rightarrow> st_bind (st_get (\<lambda>s. dget (eg_step_results s) r)) (\<lambda>produced.
         if produced = PNone then st_raise (EngineError ''WORKFLOW_INPUT_MISSING''
           [Txt ''step '', Rep (PStr sid), Txt '' references '', Rep (PStr r), Txt '' which produced no output''])
         else st_return (case (case produced of PDict d \<Rightarrow> dget d ''output'' | _ \<Rightarrow> produced) of
             PStr text \<Rightarrow> if text \<noteq> [] then message @ [CHR 0x0A] @ text else message
           | _ \<Rightarrow> message)))"

definition after_send :: "'w ports \<Rightarrow> config \<Rightarrow> step \<Rightarrow> rat \<Rightarrow> pydict \<Rightarrow> ('w, dispatch_result) eop" where
  "after_send P cfg step deadline result =
     (let reason = dget result ''termination_reason'' in
      if py_eq reason (PStr ''per_call_timeout'') \<or> dget result ''timeout'' = PBool True then
        timeout_outcome P cfg (step_id step)
      else st_bind (deadline_overrun P cfg step deadline) (\<lambda>overrun.
        if overrun \<noteq> None then st_return (''failed'', overrun, [])
        else if list_ex (\<lambda>r. py_eq reason (PStr r)) TARGET_BUDGET_STOPS then
          st_return (''failed'', Some [Txt ''target budget stop: '', Val reason], [])
        else if py_eq reason (PStr ''cancelled'') then
          st_bind (st_modify (\<lambda>s. s\<lparr>eg_terminal := Some (''cancelled'',
              Some [Txt ''target reported cancellation''])\<rparr>)) (\<lambda>_.
          st_return (''failed'', Some [Txt ''target reported cancellation''], []))
        else if py_eq reason (PStr ''error'') then
          st_return (''failed'', Some [Txt ''target error: '', (if py_truthy (dget result ''detail'')
            then Val (dget result ''detail'') else Txt ''unknown'')], [])
        else check_assertions P step ''assertion failed after send''))"

definition dispatch_send ::
    "'w ports \<Rightarrow> config \<Rightarrow> step \<Rightarrow> string \<Rightarrow> string option \<Rightarrow> rat \<Rightarrow> ('w, dispatch_result) eop" where
  "dispatch_send P cfg step message reference deadline =
     st_bind (resolve_message (step_id step) message reference) (\<lambda>text.
     st_bind (st_modify (\<lambda>s. s\<lparr>eg_turns := eg_turns s + 1\<rparr>)) (\<lambda>_.
     st_bind (st_get eg_turns) (\<lambda>turn.
     st_bind (remaining_seconds P) (\<lambda>remaining.
     st_bind (emit P cfg ''target_send'' [(''step_id'', str_val (step_id step)), (''turn'', EPy (PInt turn)),
         (''remaining_sec'', real_val remaining)]) (\<lambda>_.
     st_bind (wop (pt_send P text deadline)) (\<lambda>answer. case answer of
         PDict result \<Rightarrow>
           st_bind (st_modify (\<lambda>s. s\<lparr>eg_step_results := od_set ''__final_output__'' (dget result ''output'')
             (od_set (step_id step) (PDict [(''status'', PStr ''sent''), (''output'', dget result ''output''),
                (''termination_reason'', dget result ''termination_reason'')]) (eg_step_results s))\<rparr>)) (\<lambda>_.
           after_send P cfg step deadline result)
       | _ \<Rightarrow> st_raise (EngineError ''WORKFLOW_TARGET_RESPONSE_INVALID''
           [Txt (''target send returned '' @ pytype_name answer @ '', expected an object'')])))))))"

definition expired :: "'w ports \<Rightarrow> config \<Rightarrow> step \<Rightarrow> ('w, dispatch_result) eop" where
  "expired P cfg step =
     st_bind (remaining_seconds P) (\<lambda>remaining.
     st_bind (emit P cfg ''step_deadline_expired'' [(''step_id'', str_val (step_id step)),
         (''kind'', str_val (step_kind step)), (''phase'', str_val ''pre_dispatch''),
         (''remaining_sec'', real_val remaining)]) (\<lambda>_.
     timeout_outcome P cfg (step_id step)))"

definition dispatch_tool ::
    "'w ports \<Rightarrow> config \<Rightarrow> step \<Rightarrow> string \<Rightarrow> pydict \<Rightarrow> string \<Rightarrow> rat \<Rightarrow> ('w, dispatch_result) eop" where
  "dispatch_tool P cfg step tool arguments mode deadline =
     st_bind (clock_now P) (\<lambda>t.
     if t \<ge> deadline then expired P cfg step
     else st_bind (st_modify (\<lambda>s. s\<lparr>eg_tool_calls := eg_tool_calls s + 1\<rparr>)) (\<lambda>_.
     st_bind (remaining_seconds P) (\<lambda>remaining.
     st_bind (emit P cfg ''fixture_tool_call'' [(''step_id'', str_val (step_id step)), (''tool'', str_val tool),
         (''mode'', str_val mode), (''remaining_sec'', real_val remaining)]) (\<lambda>_.
     st_bind (wop (pt_tool P tool arguments mode)) (\<lambda>result.
     st_bind (st_modify (\<lambda>s. s\<lparr>eg_tool_results := od_set (step_id step) result (eg_tool_results s),
         eg_step_results := od_set (step_id step) (PDict [(''status'', PStr ''succeeded''),
           (''result'', result)]) (eg_step_results s)\<rparr>)) (\<lambda>_.
     st_bind (deadline_overrun P cfg step deadline) (\<lambda>overrun.
     if overrun \<noteq> None then st_return (''failed'', overrun, [])
     else check_assertions P step ''assertion failed after fixture tool'')))))))"

definition dispatch_event ::
    "'w ports \<Rightarrow> config \<Rightarrow> step \<Rightarrow> string \<Rightarrow> pydict \<Rightarrow> rat \<Rightarrow> ('w, dispatch_result) eop" where
  "dispatch_event P cfg step event payload deadline =
     st_bind (clock_now P) (\<lambda>t.
     if t \<ge> deadline then expired P cfg step
     else st_bind (wop (pt_apply_event P event payload)) (\<lambda>result.
     st_bind (st_modify (\<lambda>s. s\<lparr>eg_step_results := od_set (step_id step) (PDict [(''status'', PStr ''succeeded''),
           (''event'', PStr event)]) (eg_step_results s)\<rparr>)) (\<lambda>_.
     st_bind (emit P cfg ''fixture_event'' [(''step_id'', str_val (step_id step)), (''event'', str_val event),
         (''result'', EPy (if is_container result then PNone else result))]) (\<lambda>_.
     st_bind (deadline_overrun P cfg step deadline) (\<lambda>overrun.
     if overrun \<noteq> None then st_return (''failed'', overrun, [])
     else check_assertions P step ''assertion failed after fixture event'')))))"

definition dispatch_checkpoint ::
    "'w ports \<Rightarrow> config \<Rightarrow> step \<Rightarrow> string option \<Rightarrow> ('w, dispatch_result) eop" where
  "dispatch_checkpoint P cfg step label =
     st_bind (wop (pt_snapshot P)) (\<lambda>(snapshot, content_hash).
     st_bind (st_modify (\<lambda>s. s\<lparr>
         eg_checkpoints := od_set (step_id step) \<lparr>ck_step = step_id step, ck_label = label,
           ck_hash = content_hash, ck_state = snapshot\<rparr> (eg_checkpoints s),
         eg_step_results := od_set (step_id step) (PDict [(''status'', PStr ''succeeded''),
           (''content_hash'', PStr content_hash)]) (eg_step_results s)\<rparr>)) (\<lambda>_.
     st_bind (emit P cfg ''checkpoint'' [(''step_id'', str_val (step_id step)),
         (''content_hash'', str_val content_hash),
         (''label'', EPy (case label of None \<Rightarrow> PNone | Some l \<Rightarrow> PStr l))]) (\<lambda>_.
     check_assertions P step ''checkpoint assertion failed'')))"

definition dispatch_assert :: "'w ports \<Rightarrow> step \<Rightarrow> ('w, dispatch_result) eop" where
  "dispatch_assert P step = check_assertions P step ''assertion failed''"

text \<open>The verdict of a container: failed when its children ended the case.\<close>

definition container_result :: "assertion_row list \<Rightarrow> ('w, dispatch_result) eop" where
  "container_result rows = st_bind (st_get eg_terminal) (\<lambda>terminal. case terminal of
       Some (_, reason) \<Rightarrow> st_return (''failed'', reason, rows)
     | None \<Rightarrow> st_return (''succeeded'', None, rows))"

definition dispatch_branch ::
    "'w ports \<Rightarrow> config \<Rightarrow> step \<Rightarrow> condition \<Rightarrow> ('w, unit) eop \<Rightarrow> ('w, unit) eop \<Rightarrow> ('w, dispatch_result) eop" where
  "dispatch_branch P cfg step cond run_then run_else =
     st_bind (st_lift (compile_condition cond)) (\<lambda>k.
     st_bind (eval_context P) (\<lambda>ctx.
     st_bind (st_lift (evaluate_condition k ctx)) (\<lambda>decision.
     st_bind (emit P cfg ''branch_decision'' [(''step_id'', str_val (step_id step)),
         (''condition'', EText (Some (describe k))), (''taken'', EPy (PBool (co_satisfied decision)))]) (\<lambda>_.
     st_bind (if co_satisfied decision then run_then else run_else) (\<lambda>_.
     container_result [outcome_row decision])))))"

text \<open>Whether \<^verbatim>\<open>until\<close> ends the loop, with its record.\<close>

definition loop_until :: "'w ports \<Rightarrow> condition option \<Rightarrow> ('w, cond_outcome option) eop" where
  "loop_until P until = (case until of
       None \<Rightarrow> st_return None
     | Some c \<Rightarrow> st_bind (st_lift (compile_condition c)) (\<lambda>k.
         st_bind (eval_context P) (\<lambda>ctx. st_bind (st_lift (evaluate_condition k ctx)) (\<lambda>out.
         st_return (if co_satisfied out then Some out else None)))))"

fun loop_iterations ::
    "'w ports \<Rightarrow> config \<Rightarrow> step \<Rightarrow> condition option \<Rightarrow> ('w, unit) eop \<Rightarrow> nat \<Rightarrow> int \<Rightarrow> assertion_row list
     \<Rightarrow> ('w, assertion_row list) eop" where
  "loop_iterations P cfg step until body 0 index rows = st_return rows"
| "loop_iterations P cfg step until body (Suc n) index rows =
     st_bind (st_get eg_terminal) (\<lambda>terminal.
     if terminal \<noteq> None then st_return rows
     else st_bind (loop_until P until) (\<lambda>met. case met of
         Some out \<Rightarrow> st_return (rows @ [AUntil index (outcome_row out)])
       | None \<Rightarrow> st_bind (st_get eg_step_count) (\<lambda>count.
           if count \<ge> max_total_steps cfg then
             st_bind (st_modify (\<lambda>s. s\<lparr>eg_terminal := Some (''budget_exceeded'', Some
                 [Txt ''max_total_steps='', Num (max_total_steps cfg), Txt '' exhausted inside loop '',
                  Rep (PStr (step_id step))])\<rparr>)) (\<lambda>_. st_return rows)
           else st_bind (emit P cfg ''loop_iteration'' [(''step_id'', str_val (step_id step)),
               (''iteration'', EPy (PInt (index + 1)))]) (\<lambda>_.
             st_bind body (\<lambda>_.
             loop_iterations P cfg step until body n (index + 1) (rows @ [AIter (index + 1)]))))))"

definition dispatch_loop ::
    "'w ports \<Rightarrow> config \<Rightarrow> step \<Rightarrow> int \<Rightarrow> condition option \<Rightarrow> ('w, unit) eop \<Rightarrow> ('w, dispatch_result) eop" where
  "dispatch_loop P cfg step max_iterations until body =
     st_bind (loop_iterations P cfg step until body (nat max_iterations) 0 []) container_result"

text \<open>The steps without children.\<close>

definition dispatch_leaf :: "'w ports \<Rightarrow> config \<Rightarrow> step \<Rightarrow> rat \<Rightarrow> ('w, dispatch_result) eop" where
  "dispatch_leaf P cfg step deadline = (case step of
       SendMessage _ message reference \<Rightarrow> dispatch_send P cfg step message reference deadline
     | InvokeFixtureTool _ tool arguments mode \<Rightarrow> dispatch_tool P cfg step tool arguments mode deadline
     | CheckpointStep _ label \<Rightarrow> dispatch_checkpoint P cfg step label
     | TriggerFixtureEvent _ event payload \<Rightarrow> dispatch_event P cfg step event payload deadline
     | _ \<Rightarrow> dispatch_assert P step)"

section \<open>One step\<close>

fun has_side_effect :: "step \<Rightarrow> bool" where
  "has_side_effect (SendMessage _ _ _) = True"
| "has_side_effect (InvokeFixtureTool _ _ _ mode) = (mode \<noteq> ''deny'')"
| "has_side_effect (TriggerFixtureEvent _ _ _) = True"
| "has_side_effect _ = False"

definition step_deadline :: "'w ports \<Rightarrow> step \<Rightarrow> ('w, rat) eop" where
  "step_deadline P step = (case sb_timeout (base_of step) of
       None \<Rightarrow> st_get eg_deadline
     | Some timeout \<Rightarrow> st_bind (clock_now P) (\<lambda>t. st_get (\<lambda>s. min (eg_deadline s) (t + timeout))))"

definition record_step ::
    "int \<Rightarrow> step \<Rightarrow> string \<Rightarrow> int \<Rightarrow> fstr option \<Rightarrow> assertion_row list \<Rightarrow> rat \<Rightarrow> ('w, unit) eop" where
  "record_step seq step status depth detail assertions duration =
     st_modify (\<lambda>s. s\<lparr>eg_evidence := eg_evidence s @ [\<lparr>ev_seq = seq, ev_step = step_id step,
       ev_kind = step_kind step, ev_status = status, ev_detail = detail, ev_attempts = 1,
       ev_assertions = assertions, ev_duration = duration, ev_depth = depth\<rparr>]\<rparr>)"

definition effective_failure_policy :: "config \<Rightarrow> step \<Rightarrow> string" where
  "effective_failure_policy cfg step =
     (if sb_policy (base_of step) = ''continue_for_evidence'' then ''continue_for_evidence''
      else workflow_failure_policy cfg)"

definition handle_failure :: "config \<Rightarrow> step \<Rightarrow> fstr option \<Rightarrow> ('w, unit) eop" where
  "handle_failure cfg step detail =
     st_bind (st_get eg_terminal) (\<lambda>terminal.
     if terminal \<noteq> None then st_return ()
     else if effective_failure_policy cfg step = ''continue_for_evidence'' then
       st_bind (st_get eg_evidence_only) (\<lambda>already.
       if already then st_return ()
       else st_modify (\<lambda>s. s\<lparr>eg_evidence_only := True, eg_evidence_only_reason := Some
         [Txt ''step '', Rep (PStr (step_id step)),
          Txt '' failed and only read-only evidence may continue'']\<rparr>))
     else st_modify (\<lambda>s. s\<lparr>eg_terminal := Some (''failed'', Some (case detail of
         Some (x # d) \<Rightarrow> x # d | _ \<Rightarrow> [Txt ''step '', Rep (PStr (step_id step)), Txt '' failed'']))\<rparr>))"

text \<open>Any exception of the action but a failure of the evidence boundary is a failed step.\<close>

definition guarded :: "('w, dispatch_result) eop \<Rightarrow> ('w, dispatch_result) eop" where
  "guarded m = st_catch m (\<lambda>e. case e of
       EvidenceBoundaryError _ _ \<Rightarrow> st_raise e
     | _ \<Rightarrow> st_return (''failed'', Some (error_detail e), []))"

definition execute_step :: "'w ports \<Rightarrow> config \<Rightarrow> int \<Rightarrow> step \<Rightarrow> int \<Rightarrow> rat \<Rightarrow> ('w, dispatch_result) eop
     \<Rightarrow> ('w, unit) eop" where
  "execute_step P cfg depth step seq started action =
     st_bind (guarded action) (\<lambda>(status, detail, assertions).
     st_bind (clock_now P) (\<lambda>t.
     (let duration = py_round ((t - started) * 1000) 3 in
      st_bind (record_step seq step status depth detail assertions duration) (\<lambda>_.
      st_bind (emit P cfg ''step_end'' [(''step_id'', str_val (step_id step)), (''kind'', str_val (step_kind step)),
          (''status'', str_val status), (''detail'', EText detail), (''duration_ms'', real_val duration)]) (\<lambda>_.
      if status = ''failed'' then handle_failure cfg step detail else st_return ())))))"

definition announce_step :: "'w ports \<Rightarrow> config \<Rightarrow> int \<Rightarrow> step \<Rightarrow> (rat \<Rightarrow> ('w, dispatch_result) eop) \<Rightarrow> int
     \<Rightarrow> ('w, unit) eop" where
  "announce_step P cfg depth step action seq =
     st_bind (clock_now P) (\<lambda>started.
     st_bind (step_deadline P step) (\<lambda>deadline.
     st_bind (remaining_seconds P) (\<lambda>remaining.
     st_bind (emit P cfg ''step_start'' [(''step_id'', str_val (step_id step)), (''kind'', str_val (step_kind step)),
         (''depth'', EPy (PInt depth)), (''remaining_sec'', real_val remaining)]) (\<lambda>_.
     st_bind (st_get eg_evidence_only) (\<lambda>evidence_only.
     if evidence_only \<and> has_side_effect step then
       record_step seq step ''skipped'' depth
         (Some [Txt ''evidence-only after failure: side-effecting step not executed'']) [] 0
     else execute_step P cfg depth step seq started (action deadline))))))"

definition admitted_step :: "'w ports \<Rightarrow> config \<Rightarrow> int \<Rightarrow> step \<Rightarrow> (rat \<Rightarrow> ('w, dispatch_result) eop)
     \<Rightarrow> ('w, unit) eop" where
  "admitted_step P cfg depth step action =
     st_bind (st_modify (\<lambda>s. s\<lparr>eg_step_count := eg_step_count s + 1, eg_seq := eg_seq s + 1\<rparr>)) (\<lambda>_.
     st_bind (st_get eg_seq) (announce_step P cfg depth step action))"

definition step_frame :: "'w ports \<Rightarrow> config \<Rightarrow> int \<Rightarrow> step \<Rightarrow> (rat \<Rightarrow> ('w, dispatch_result) eop)
     \<Rightarrow> ('w, unit) eop" where
  "step_frame P cfg depth step action =
     st_bind (budget_stop P cfg (step_kind step)) (\<lambda>stop. case stop of
         Some (status, reason) \<Rightarrow>
           st_bind (st_modify (\<lambda>s. s\<lparr>eg_terminal := Some (status, reason)\<rparr>)) (\<lambda>_.
           emit P cfg ''step_blocked'' [(''step_id'', str_val (step_id step)), (''kind'', str_val (step_kind step)),
             (''reason'', EText reason)])
       | None \<Rightarrow> admitted_step P cfg depth step action)"

fun run_step :: "'w ports \<Rightarrow> config \<Rightarrow> int \<Rightarrow> step \<Rightarrow> ('w, unit) eop"
and run_sequence :: "'w ports \<Rightarrow> config \<Rightarrow> int \<Rightarrow> step list \<Rightarrow> ('w, unit) eop" where
  "run_step P cfg depth (BranchStep b c then_steps else_steps) =
     step_frame P cfg depth (BranchStep b c then_steps else_steps) (\<lambda>_.
       dispatch_branch P cfg (BranchStep b c then_steps else_steps) c
         (run_sequence P cfg (depth + 1) then_steps) (run_sequence P cfg (depth + 1) else_steps))"
| "run_step P cfg depth (LoopStep b n body until) =
     step_frame P cfg depth (LoopStep b n body until) (\<lambda>_.
       dispatch_loop P cfg (LoopStep b n body until) n until (run_sequence P cfg (depth + 1) body))"
| "run_step P cfg depth (SendMessage b m r) =
     step_frame P cfg depth (SendMessage b m r) (dispatch_leaf P cfg (SendMessage b m r))"
| "run_step P cfg depth (InvokeFixtureTool b t a m) =
     step_frame P cfg depth (InvokeFixtureTool b t a m) (dispatch_leaf P cfg (InvokeFixtureTool b t a m))"
| "run_step P cfg depth (AssertStep b) =
     step_frame P cfg depth (AssertStep b) (dispatch_leaf P cfg (AssertStep b))"
| "run_step P cfg depth (CheckpointStep b l) =
     step_frame P cfg depth (CheckpointStep b l) (dispatch_leaf P cfg (CheckpointStep b l))"
| "run_step P cfg depth (TriggerFixtureEvent b e p) =
     step_frame P cfg depth (TriggerFixtureEvent b e p) (dispatch_leaf P cfg (TriggerFixtureEvent b e p))"
| "run_sequence P cfg depth [] = st_return ()"
| "run_sequence P cfg depth (s # ss) =
     st_bind (st_get eg_terminal) (\<lambda>terminal.
     if terminal \<noteq> None then st_return ()
     else st_bind (run_step P cfg depth s) (\<lambda>_. run_sequence P cfg depth ss))"

section \<open>The run\<close>

record workflow_outcome =
  oc_status :: string
  oc_reason :: "fstr option"
  oc_steps :: "evidence list"
  oc_checkpoints :: "(string, checkpoint_record) odict"
  oc_step_count :: int
  oc_turns :: int
  oc_tool_calls :: int
  oc_final_output :: pyval
  oc_state :: pydict
  oc_needs_review :: bool
  oc_interrupt :: "(string \<times> evval) list option"

definition begin_target :: "'w ports \<Rightarrow> config \<Rightarrow> ('w, (string \<times> fstr option) option) eop" where
  "begin_target P cfg = st_catch
     (st_bind (wop (pt_begin P)) (\<lambda>_. st_return None))
     (\<lambda>e. st_bind (emit P cfg ''target_begin_failed'' [(''error'', EText (Some (error_text e)))]) (\<lambda>_.
        st_return (Some (''failed'', Some (Txt ''target begin failed: '' # error_text e)))))"

definition close_target :: "'w ports \<Rightarrow> config \<Rightarrow> ('w, (string \<times> fstr option) option) eop" where
  "close_target P cfg = st_catch
     (st_bind (wop (pt_close P)) (\<lambda>_. st_return None))
     (\<lambda>e. st_bind (st_modify (\<lambda>s. s\<lparr>eg_needs_review := True\<rparr>)) (\<lambda>_.
        st_bind (emit P cfg ''target_close_failed'' [(''error'', EText (Some (error_text e)))]) (\<lambda>_.
        st_return (Some (''needs_review'', Some (Txt ''target close failed: '' # error_text e))))))"

definition completion_verdict :: "'w ports \<Rightarrow> config \<Rightarrow> ('w, string \<times> fstr option) eop" where
  "completion_verdict P cfg =
     st_bind (evaluate P (wf_completion (cf_workflow cfg))) (\<lambda>(assertions, satisfied).
     if assertions = [] then st_return (''completed'', None)
     else st_bind (emit P cfg ''completion_assertions'' [(''assertions'', ERows assertions)]) (\<lambda>_.
       if satisfied then st_return (''completed'', None)
       else st_return (''failed'', Some [Txt ''completion assertions failed''])))"

text \<open>The two downgrades of a completed case.\<close>

definition downgrade :: "'w eng \<Rightarrow> string \<times> fstr option \<Rightarrow> string \<times> fstr option" where
  "downgrade s verdict =
     (let v1 = (if eg_evidence_only s \<and> fst verdict = ''completed''
          then (''failed'', eg_evidence_only_reason s) else verdict)
      in if eg_needs_review s \<and> fst v1 = ''completed'' then
           (''needs_review'', Some (case snd v1 of None \<Rightarrow> [Txt ''stop could not be confirmed''] | Some r \<Rightarrow> r))
         else v1)"

definition outcome :: "'w ports \<Rightarrow> config \<Rightarrow> (string \<times> fstr option) option \<Rightarrow> ('w, workflow_outcome) eop" where
  "outcome P cfg terminal =
     st_bind (case terminal of None \<Rightarrow> completion_verdict P cfg | Some t \<Rightarrow> st_return t) (\<lambda>verdict.
     st_bind (wop (pt_state P)) (\<lambda>state. st_get (\<lambda>s.
       (let v = downgrade s verdict in
        \<lparr>oc_status = fst v, oc_reason = snd v, oc_steps = eg_evidence s, oc_checkpoints = eg_checkpoints s,
         oc_step_count = eg_step_count s, oc_turns = eg_turns s, oc_tool_calls = eg_tool_calls s,
         oc_final_output = dget (eg_step_results s) ''__final_output__'', oc_state = state,
         oc_needs_review = (eg_needs_review s \<or> fst v = ''needs_review''), oc_interrupt = eg_interrupt s\<rparr>))))"

text \<open>\<^verbatim>\<open>try: m finally: f\<close>\<close>

definition st_finally :: "('s, 'e, 'a) sop \<Rightarrow> ('s, 'e, 'b) sop \<Rightarrow> ('s, 'e, 'b) sop" where
  "st_finally m f s = (case m s of
       (Inl e, t) \<Rightarrow> (case f t of (Inl e', u) \<Rightarrow> (Inl e', u) | (Inr _, u) \<Rightarrow> (Inl e, u))
     | (Inr _, t) \<Rightarrow> f t)"

definition run_engine :: "'w ports \<Rightarrow> config \<Rightarrow> ('w, workflow_outcome) eop" where
  "run_engine P cfg =
     st_bind (begin_target P cfg) (\<lambda>begun. case begun of
         Some t \<Rightarrow> outcome P cfg (Some t)
       | None \<Rightarrow>
           st_bind (st_finally (run_sequence P cfg 1 (wf_steps (cf_workflow cfg))) (close_target P cfg)) (\<lambda>closed.
           st_bind (st_get eg_terminal) (\<lambda>terminal.
           if closed \<noteq> None \<and> terminal = None then
             st_bind (st_modify (\<lambda>s. s\<lparr>eg_terminal := closed\<rparr>)) (\<lambda>_. outcome P cfg closed)
           else outcome P cfg terminal)))"

definition engine_start :: "'w ports \<Rightarrow> config \<Rightarrow> 'w \<Rightarrow> 'w eng" where
  "engine_start P cfg w = (case pt_now P w of (started, w') \<Rightarrow>
     \<lparr>eg_world = w', eg_deadline = started + wall_time_sec cfg, eg_evidence = [], eg_checkpoints = [],
      eg_step_results = [], eg_tool_results = [], eg_step_count = 0, eg_turns = 0, eg_tool_calls = 0,
      eg_seq = 0, eg_evidence_only = False, eg_evidence_only_reason = None, eg_terminal = None,
      eg_needs_review = False, eg_interrupt = None\<rparr>)"

definition run_workflow :: "'w ports \<Rightarrow> config \<Rightarrow> 'w \<Rightarrow> (eexn + workflow_outcome) \<times> 'w eng" where
  "run_workflow P cfg w = run_engine P cfg (engine_start P cfg w)"

end
