(* ===== verification/Engine_Safety.thy ===== *)
theory Engine_Safety
  imports Engine
begin

text \<open>
  What the engine guarantees whatever its ports do: the budgets, the verdict, and the evidence-only
  mode.  The proofs are Hoare triples over the operations of \<open>Engine\<close>, one lemma per method.
\<close>

section \<open>Triples\<close>

text \<open>\<open>triple P m Q E\<close>: from \<open>P\<close>, a normal return satisfies \<open>Q\<close> and a raise satisfies \<open>E\<close>.\<close>

definition triple :: "('s \<Rightarrow> bool) \<Rightarrow> ('s, 'e, 'a) sop \<Rightarrow> ('a \<Rightarrow> 's \<Rightarrow> bool) \<Rightarrow> ('s \<Rightarrow> bool) \<Rightarrow> bool" where
  "triple P m Q E \<longleftrightarrow> (\<forall>s. P s \<longrightarrow> (case m s of (Inl e, t) \<Rightarrow> E t | (Inr x, t) \<Rightarrow> Q x t))"

lemma tripleI:
  "(\<And>s e t. P s \<Longrightarrow> m s = (Inl e, t) \<Longrightarrow> E t) \<Longrightarrow> (\<And>s x t. P s \<Longrightarrow> m s = (Inr x, t) \<Longrightarrow> Q x t) \<Longrightarrow>
   triple P m Q E"
  by (auto simp: triple_def split: prod.splits sum.splits)

lemma tripleD: "triple P m Q E \<Longrightarrow> P s \<Longrightarrow> m s = (Inr x, t) \<Longrightarrow> Q x t"
  unfolding triple_def by (drule spec [where x = s]) simp

lemma tripleE: "triple P m Q E \<Longrightarrow> P s \<Longrightarrow> m s = (Inl e, t) \<Longrightarrow> E t"
  unfolding triple_def by (drule spec [where x = s]) simp

lemma triple_bind: "triple P m R E \<Longrightarrow> (\<And>x. triple (R x) (f x) Q E) \<Longrightarrow> triple P (st_bind m f) Q E"
  unfolding triple_def st_bind_def by (fastforce split: prod.splits sum.splits)

lemma triple_return: "(\<And>s. P s \<Longrightarrow> Q x s) \<Longrightarrow> triple P (st_return x) Q E"
  by (simp add: triple_def sop_simps)

lemma triple_raise: "(\<And>s. P s \<Longrightarrow> E s) \<Longrightarrow> triple P (st_raise e) Q E"
  by (simp add: triple_def sop_simps)

lemma triple_get: "(\<And>s. P s \<Longrightarrow> Q (g s) s) \<Longrightarrow> triple P (st_get g) Q E"
  by (simp add: triple_def sop_simps)

lemma triple_modify: "(\<And>s. P s \<Longrightarrow> Q () (g s)) \<Longrightarrow> triple P (st_modify g) Q E"
  by (simp add: triple_def sop_simps)

lemma triple_lift: "(\<And>s x. P s \<Longrightarrow> r = Inr x \<Longrightarrow> Q x s) \<Longrightarrow> (\<And>s. P s \<Longrightarrow> E s) \<Longrightarrow> triple P (st_lift r) Q E"
  by (auto simp: triple_def sop_simps split: sum.splits)

lemma triple_catch: "triple P m Q E' \<Longrightarrow> (\<And>e. triple E' (h e) Q E) \<Longrightarrow> triple P (st_catch m h) Q E"
  unfolding triple_def st_catch_def by (fastforce split: prod.splits sum.splits)

lemma triple_if: "(b \<Longrightarrow> triple P m Q E) \<Longrightarrow> (\<not> b \<Longrightarrow> triple P n Q E) \<Longrightarrow> triple P (if b then m else n) Q E"
  by simp

lemma triple_prod_case: "(\<And>a b. x = (a, b) \<Longrightarrow> triple P (f a b) Q E) \<Longrightarrow> triple P (case_prod f x) Q E"
  by (cases x) auto

lemma triple_option:
  "(x = None \<Longrightarrow> triple P m Q E) \<Longrightarrow> (\<And>y. x = Some y \<Longrightarrow> triple P (f y) Q E) \<Longrightarrow>
   triple P (case x of None \<Rightarrow> m | Some y \<Rightarrow> f y) Q E"
  by (cases x) auto

lemma triple_pre: "triple R m Q E \<Longrightarrow> (\<And>s. P s \<Longrightarrow> R s) \<Longrightarrow> triple P m Q E"
  by (simp add: triple_def)

lemma triple_post:
  "triple P m R E' \<Longrightarrow> (\<And>x s. R x s \<Longrightarrow> Q x s) \<Longrightarrow> (\<And>s. E' s \<Longrightarrow> E s) \<Longrightarrow> triple P m Q E"
  by (rule tripleI) (blast dest: tripleD tripleE)+

lemma triple_keeps: "keeps P m \<longleftrightarrow> triple P m (\<lambda>_. P) P"
proof
  assume "keeps P m" then show "triple P m (\<lambda>_. P) P"
    by (intro tripleI) (drule (1) keepsD, simp)+
next
  assume *: "triple P m (\<lambda>_. P) P"
  show "keeps P m"
  proof (rule keepsI)
    fix s assume s: "P s"
    obtain r t where m: "m s = (r, t)" by (cases "m s")
    show "P (snd (m s))"
      by (cases r) (use tripleD [OF * s] tripleE [OF * s] m in simp_all)
  qed
qed

lemma triple_first:
  "keeps P m \<Longrightarrow> (\<And>s. P s \<Longrightarrow> E s) \<Longrightarrow> (\<And>x. triple P (f x) Q E) \<Longrightarrow> triple P (st_bind m f) Q E"
  by (rule triple_bind [OF triple_post [OF triple_keeps [THEN iffD1]]])

lemma triple_set: "(\<And>s. P s \<Longrightarrow> R (g s)) \<Longrightarrow> triple R (f ()) Q E \<Longrightarrow> triple P (st_bind (st_modify g) f) Q E"
  by (rule triple_bind [OF triple_modify]) auto

lemma triple_read: "(\<And>x. triple (\<lambda>s. P s \<and> g s = x) (f x) Q E) \<Longrightarrow> triple P (st_bind (st_get g) f) Q E"
  by (rule triple_bind [where R = "\<lambda>x s. P s \<and> g s = x", OF triple_get]) auto

lemma triple_kept: "keeps Q m \<Longrightarrow> (\<And>s. P s \<Longrightarrow> Q s) \<Longrightarrow> triple P m (\<lambda>_. Q) Q"
  by (rule triple_pre [OF triple_keeps [THEN iffD1]])

section \<open>What the auxiliary operations touch\<close>

text \<open>
  The ports the engine uses besides the sending of messages and the calls of tools, and \<open>frame P Q\<close>: none of
  them disturbs the predicate \<open>Q\<close> of the engine state.  Operations that only talk to these ports keep such
  predicates, in particular those that do not look at the world.
\<close>

definition side_port :: "'w ports \<Rightarrow> 'w \<Rightarrow> 'w \<Rightarrow> bool" where
  "side_port P w w' \<longleftrightarrow> w' = snd (pt_now P w) \<or> (\<exists>probe. pt_cancel P = Some probe \<and> w' = snd (probe w)) \<or>
     (\<exists>sink e. pt_sink P = Some sink \<and> w' = snd (sink e w)) \<or> w' = snd (pt_state P w) \<or> w' = snd (pt_snapshot P w) \<or>
     (\<exists>e p. w' = snd (pt_apply_event P e p w)) \<or> w' = snd (pt_begin P w) \<or> (\<exists>r. w' = snd (pt_interrupt P r w)) \<or>
     w' = snd (pt_close P w)"

definition frame :: "'w ports \<Rightarrow> ('w eng \<Rightarrow> bool) \<Rightarrow> bool" where
  "frame P Q \<longleftrightarrow> (\<forall>s w. Q s \<longrightarrow> side_port P (eg_world s) w \<longrightarrow> Q (s\<lparr>eg_world := w\<rparr>))"

lemma free_frame: "(\<And>s w. Q (s\<lparr>eg_world := w\<rparr>) = Q s) \<Longrightarrow> frame P Q"
  by (simp add: frame_def)

lemma keeps_wop: "(\<And>s w. Q (s\<lparr>eg_world := w\<rparr>) = Q s) \<Longrightarrow> keeps Q (wop m)"
  by (auto simp: keeps_def wop_def split: prod.splits)

lemma keeps_side:
  assumes "frame P Q" "\<And>w. side_port P w (snd (m w))"
  shows "keeps Q (wop m)"
proof (rule keepsI)
  fix s assume "Q s"
  then show "Q (snd (wop m s))" using assms(2) [of "eg_world s"] assms(1) by (auto simp: wop_def frame_def split: prod.splits)
qed

lemma keeps_ports [keeps_intros]:
  assumes "frame P Q"
  shows "keeps Q (wop (pt_state P))" "keeps Q (wop (pt_snapshot P))" "keeps Q (wop (pt_apply_event P ev p))"
    "keeps Q (wop (pt_begin P))" "keeps Q (wop (pt_interrupt P r))" "keeps Q (wop (pt_close P))"
  by (rule keeps_side [OF assms]; unfold side_port_def; blast)+

lemma keeps_clock [keeps_intros]: "frame P Q \<Longrightarrow> keeps Q (clock_now P)"
  unfolding clock_now_def by (erule keeps_side) (auto simp: side_port_def split: prod.split)

lemma keeps_remaining [keeps_intros]: "frame P Q \<Longrightarrow> keeps Q (remaining_seconds P)"
  unfolding remaining_seconds_def by (intro keeps_intros)

lemma keeps_cancelled [keeps_intros]: "frame P Q \<Longrightarrow> keeps Q (cancelled P)"
  unfolding cancelled_def by (intro keeps_intros, erule keeps_side) (simp add: side_port_def)

lemma keeps_emit [keeps_intros]: "frame P Q \<Longrightarrow> keeps Q (emit P cfg t p)"
  unfolding emit_def by (intro keeps_intros, erule keeps_side) (auto simp: side_port_def)

lemma keeps_budget_stop [keeps_intros]: "frame P Q \<Longrightarrow> keeps Q (budget_stop P cfg k)"
  unfolding budget_stop_def by (intro keeps_intros)

lemma keeps_context [keeps_intros]: "frame P Q \<Longrightarrow> keeps Q (eval_context P)"
  unfolding eval_context_def by (intro keeps_intros)

lemma keeps_eexn_case [keeps_intros]:
  "(\<And>c m. keeps P (f1 c m)) \<Longrightarrow> (\<And>c m. keeps P (f2 c m)) \<Longrightarrow> (\<And>c m. keeps P (f3 c m)) \<Longrightarrow>
   (\<And>n c m. keeps P (f4 n c m)) \<Longrightarrow> keeps P (case_eexn f1 f2 f3 f4 e)"
  by (cases e) auto

lemma keeps_prod_case [keeps_intros]: "(\<And>a b. keeps P (f a b)) \<Longrightarrow> keeps P (case_prod f p)"
  by (cases p) auto

lemma keeps_evaluate_one [keeps_intros]: "frame P Q \<Longrightarrow> keeps Q (evaluate_one P k)"
  unfolding evaluate_one_def by (intro keeps_intros)

lemma keeps_evaluate [keeps_intros]:
  assumes "frame P Q"
  shows "keeps Q (evaluate P cs)"
proof (induction cs)
  case (Cons c cs)
  show ?case unfolding evaluate.simps
    by (intro keeps_intros assms Cons.IH)
qed (simp add: keeps_return)

lemma keeps_check_assertions [keeps_intros]: "frame P Q \<Longrightarrow> keeps Q (check_assertions P s f)"
  unfolding check_assertions_def by (intro keeps_intros)

lemma keeps_step_deadline [keeps_intros]: "frame P Q \<Longrightarrow> keeps Q (step_deadline P s)"
  unfolding step_deadline_def by (intro keeps_intros)

lemma keeps_resolve_message [keeps_intros]: "keeps Q (resolve_message sid m r)"
  unfolding resolve_message_def by (intro keeps_intros)

lemma keeps_loop_until [keeps_intros]: "frame P Q \<Longrightarrow> keeps Q (loop_until P u)"
  unfolding loop_until_def by (intro keeps_intros)

lemma keeps_container_result [keeps_intros]: "keeps Q (container_result rows)"
  unfolding container_result_def by (intro keeps_intros)

lemma keeps_dispatch_assert [keeps_intros]: "frame P Q \<Longrightarrow> keeps Q (dispatch_assert P s)"
  unfolding dispatch_assert_def by (rule keeps_check_assertions)

lemma keeps_begin [keeps_intros]: "frame P Q \<Longrightarrow> keeps Q (begin_target P cfg)"
  unfolding begin_target_def by (intro keeps_intros)

lemma keeps_completion [keeps_intros]: "frame P Q \<Longrightarrow> keeps Q (completion_verdict P cfg)"
  unfolding completion_verdict_def by (intro keeps_intros)

lemma keeps_outcome [keeps_intros]: "frame P Q \<Longrightarrow> keeps Q (outcome P cfg t)"
  unfolding outcome_def by (intro keeps_intros)

section \<open>What the actions touch\<close>

text \<open>
  \<open>quiet P Q\<close>: the predicate \<open>Q\<close> is not disturbed by the ports and ignores the interrupt record, the review flag and the results,
  and survives a terminal status that is not \<^verbatim>\<open>completed\<close>.  The actions of the engine keep such predicates.
\<close>

definition quiet :: "'w ports \<Rightarrow> ('w eng \<Rightarrow> bool) \<Rightarrow> bool" where
  "quiet P Q \<longleftrightarrow> frame P Q \<and> (\<forall>s x. Q (s\<lparr>eg_interrupt := x\<rparr>) = Q s) \<and> (\<forall>s x. Q (s\<lparr>eg_needs_review := x\<rparr>) = Q s) \<and>
     (\<forall>s x. Q (s\<lparr>eg_step_results := x\<rparr>) = Q s) \<and> (\<forall>s x. Q (s\<lparr>eg_tool_results := x\<rparr>) = Q s) \<and>
     (\<forall>s x. Q (s\<lparr>eg_checkpoints := x\<rparr>) = Q s) \<and>
     (\<forall>s st r. Q s \<longrightarrow> st \<noteq> ''completed'' \<longrightarrow> Q (s\<lparr>eg_terminal := Some (st, r)\<rparr>))"

lemma quiet_frame [keeps_intros]: "quiet P Q \<Longrightarrow> frame P Q"
  by (simp add: quiet_def)

lemma quiet_updates:
  assumes "quiet P Q"
  shows "Q (s\<lparr>eg_interrupt := x1\<rparr>) = Q s" "Q (s\<lparr>eg_needs_review := x2\<rparr>) = Q s"
    "Q (s\<lparr>eg_step_results := x3\<rparr>) = Q s" "Q (s\<lparr>eg_tool_results := x4\<rparr>) = Q s" "Q (s\<lparr>eg_checkpoints := x5\<rparr>) = Q s"
    "Q s \<Longrightarrow> st \<noteq> ''completed'' \<Longrightarrow> Q (s\<lparr>eg_terminal := Some (st, r)\<rparr>)"
  using assms by (simp_all add: quiet_def)

lemma quiet_interrupt [keeps_intros]: "quiet P Q \<Longrightarrow> keeps Q (interrupt_target P cfg r)"
  unfolding interrupt_target_def Let_def by (intro keeps_intros; simp add: quiet_updates)

lemma quiet_timeout [keeps_intros]: "quiet P Q \<Longrightarrow> keeps Q (timeout_outcome P cfg sid)"
  unfolding timeout_outcome_def by (intro keeps_intros; simp add: quiet_updates)

lemma quiet_overrun [keeps_intros]: "quiet P Q \<Longrightarrow> keeps Q (deadline_overrun P cfg s d)"
  unfolding deadline_overrun_def Let_def by (intro keeps_intros; simp add: quiet_updates)

lemma quiet_expired [keeps_intros]: "quiet P Q \<Longrightarrow> keeps Q (expired P cfg s)"
  unfolding expired_def by (intro keeps_intros; simp)

lemma quiet_after_send [keeps_intros]: "quiet P Q \<Longrightarrow> keeps Q (after_send P cfg s d r)"
  unfolding after_send_def Let_def by (intro keeps_intros; simp add: quiet_updates)

lemma quiet_checkpoint [keeps_intros]: "quiet P Q \<Longrightarrow> keeps Q (dispatch_checkpoint P cfg s l)"
  unfolding dispatch_checkpoint_def by (intro keeps_intros; simp add: quiet_updates)

lemma quiet_event [keeps_intros]: "quiet P Q \<Longrightarrow> keeps Q (dispatch_event P cfg s e p d)"
  unfolding dispatch_event_def by (intro keeps_intros; simp add: quiet_updates)

lemma quiet_close [keeps_intros]: "quiet P Q \<Longrightarrow> keeps Q (close_target P cfg)"
  unfolding close_target_def by (intro keeps_intros; simp add: quiet_updates)

lemma keeps_pyval_case [keeps_intros]:
  "keeps P a \<Longrightarrow> (\<And>x. keeps P (b x)) \<Longrightarrow> (\<And>x. keeps P (c x)) \<Longrightarrow> (\<And>x. keeps P (d x)) \<Longrightarrow>
   (\<And>x. keeps P (e x)) \<Longrightarrow> (\<And>x. keeps P (f x)) \<Longrightarrow> (\<And>x. keeps P (g x)) \<Longrightarrow> keeps P (case_pyval a b c d e f g v)"
  by (cases v) auto

lemma quiet_handle_failure:
  assumes "quiet P Q" "\<And>s r. Q s \<Longrightarrow> Q (s\<lparr>eg_evidence_only := True, eg_evidence_only_reason := r\<rparr>)"
  shows "keeps Q (handle_failure cfg s d)"
  unfolding handle_failure_def by (intro keeps_intros; simp add: assms quiet_updates [OF assms(1)])

lemma quiet_loop_iterations [keeps_intros]:
  assumes "quiet P Q" "keeps Q body"
  shows "keeps Q (loop_iterations P cfg step until body n i rows)"
proof (induction n arbitrary: i rows)
  case (Suc n)
  show ?case unfolding loop_iterations.simps
    by (intro keeps_intros assms Suc.IH; simp add: quiet_updates [OF assms(1)])
qed (simp add: keeps_return)

lemma quiet_branch [keeps_intros]:
  "quiet P Q \<Longrightarrow> keeps Q m1 \<Longrightarrow> keeps Q m2 \<Longrightarrow> keeps Q (dispatch_branch P cfg step c m1 m2)"
  unfolding dispatch_branch_def by (intro keeps_intros; simp)

lemma quiet_loop [keeps_intros]: "quiet P Q \<Longrightarrow> keeps Q m \<Longrightarrow> keeps Q (dispatch_loop P cfg step n u m)"
  unfolding dispatch_loop_def by (intro keeps_intros; simp)

text \<open>Messages and tool calls also move their counter.\<close>

lemma quiet_leaf:
  assumes "quiet P Q" "\<And>s w. Q (s\<lparr>eg_world := w\<rparr>) = Q s" "\<And>s n. Q s \<Longrightarrow> Q (s\<lparr>eg_turns := n\<rparr>)" "\<And>s n. Q s \<Longrightarrow> Q (s\<lparr>eg_tool_calls := n\<rparr>)"
  shows "keeps Q (dispatch_leaf P cfg step d)"
  unfolding dispatch_leaf_def
proof (cases step)
  case (SendMessage b m r)
  show "keeps Q (case step of SendMessage _ message reference \<Rightarrow> dispatch_send P cfg step message reference d
     | InvokeFixtureTool _ tool arguments mode \<Rightarrow> dispatch_tool P cfg step tool arguments mode d
     | CheckpointStep _ label \<Rightarrow> dispatch_checkpoint P cfg step label
     | TriggerFixtureEvent _ event payload \<Rightarrow> dispatch_event P cfg step event payload d
     | _ \<Rightarrow> dispatch_assert P step)"
    unfolding SendMessage step.case dispatch_send_def
    by (intro keeps_intros keeps_wop assms; simp add: assms quiet_updates [OF assms(1)])
next
  case (InvokeFixtureTool b t a m)
  show "keeps Q (case step of SendMessage _ message reference \<Rightarrow> dispatch_send P cfg step message reference d
     | InvokeFixtureTool _ tool arguments mode \<Rightarrow> dispatch_tool P cfg step tool arguments mode d
     | CheckpointStep _ label \<Rightarrow> dispatch_checkpoint P cfg step label
     | TriggerFixtureEvent _ event payload \<Rightarrow> dispatch_event P cfg step event payload d
     | _ \<Rightarrow> dispatch_assert P step)"
    unfolding InvokeFixtureTool step.case dispatch_tool_def
    by (intro keeps_intros keeps_wop assms; simp add: assms quiet_updates [OF assms(1)])
qed (auto intro!: keeps_intros assms(1))

section \<open>Budgets\<close>

text \<open>The counters, the deadline and the numbers of the recorded steps.\<close>

definition counters :: "'w eng \<Rightarrow> int \<times> int \<times> int \<times> int \<times> rat \<times> int list" where
  "counters s = (eg_step_count s, eg_turns s, eg_tool_calls s, eg_seq s, eg_deadline s, map ev_seq (eg_evidence s))"

definition on_counters :: "(int \<times> int \<times> int \<times> int \<times> rat \<times> int list \<Rightarrow> bool) \<Rightarrow> 'w eng \<Rightarrow> bool" where
  "on_counters Q s \<longleftrightarrow> Q (counters s)"

lemma counters_quiet [simp, keeps_intros]: "quiet P (on_counters Q)"
  by (simp add: quiet_def free_frame on_counters_def counters_def)

lemmas frame_counters [simp] = quiet_frame [OF counters_quiet]

lemma counters_wop [keeps_intros]: "keeps (on_counters Q) (wop m)"
  by (rule keeps_wop) (simp add: on_counters_def counters_def)

lemma counters_handle_failure [keeps_intros]: "keeps (on_counters Q) (handle_failure cfg s d)"
  by (rule quiet_handle_failure) (simp_all add: on_counters_def counters_def)

text \<open>
  \<open>ledger cfg m N\<close>: the counters are within the limits of the workflow; \<open>m\<close> admitted steps have not
  taken their turn or tool call yet, and the steps numbered \<open>N\<close> have not been recorded yet.
\<close>

definition ledger :: "config \<Rightarrow> int \<Rightarrow> int set \<Rightarrow> int \<times> int \<times> int \<times> int \<times> rat \<times> int list \<Rightarrow> bool" where
  "ledger cfg m N = (\<lambda>(steps, turns, tools, seq, deadline, recorded).
     seq = steps \<and> 0 \<le> steps \<and> steps \<le> max 0 (max_total_steps cfg) \<and>
     0 \<le> turns \<and> turns \<le> max 0 (max_turns cfg) \<and> 0 \<le> tools \<and> turns + tools + m \<le> steps \<and>
     distinct recorded \<and> set recorded \<subseteq> {1..seq} \<and> N \<inter> set recorded = {} \<and> N \<subseteq> {1..seq})"

abbreviation ledger_at :: "config \<Rightarrow> int \<Rightarrow> int set \<Rightarrow> 'w eng \<Rightarrow> bool" where
  "ledger_at cfg m N \<equiv> on_counters (ledger cfg m N)"

lemma ledger_mono: "ledger_at cfg m N s \<Longrightarrow> m' \<le> m \<Longrightarrow> N' \<subseteq> N \<Longrightarrow> ledger_at cfg m' N' s"
  by (auto simp: on_counters_def ledger_def split: prod.splits)

lemma ledger_budget_stop:
  "triple (ledger_at cfg m N) (budget_stop P cfg k)
     (\<lambda>r s. ledger_at cfg m N s \<and> (r = None \<longrightarrow> eg_step_count s < max_total_steps cfg \<and>
        (k = ''send_message'' \<longrightarrow> eg_turns s < max_turns cfg)))
     (ledger_at cfg m N)"
proof -
  have remaining: "keeps (\<lambda>s. (ledger_at cfg m N s \<and> eg_step_count s = n) \<and> eg_turns s = t) (remaining_seconds P)"
    for n t by (rule keeps_remaining) (simp add: free_frame on_counters_def counters_def)
  show ?thesis
    unfolding budget_stop_def
    by (intro triple_if triple_return triple_read triple_first [OF keeps_cancelled] triple_first [OF remaining])
      auto
qed

text \<open>What an action may do with the step it was admitted for.\<close>

definition action_ok :: "config \<Rightarrow> step \<Rightarrow> ('w, dispatch_result) eop \<Rightarrow> bool" where
  "action_ok cfg step m \<longleftrightarrow> (\<forall>k N. triple
     (\<lambda>s. ledger_at cfg (k + 1) N s \<and> (step_kind step = ''send_message'' \<longrightarrow> eg_turns s < max_turns cfg)) m
     (\<lambda>_. ledger_at cfg k N) (ledger_at cfg k N))"

lemma action_okI:
  assumes "\<And>k N. triple (ledger_at cfg k N) m (\<lambda>_. ledger_at cfg k N) (ledger_at cfg k N)"
  shows "action_ok cfg step m"
  unfolding action_ok_def
proof (intro allI)
  fix k :: int and N
  show "triple (\<lambda>s. ledger_at cfg (k + 1) N s \<and> (step_kind step = ''send_message'' \<longrightarrow> eg_turns s < max_turns cfg)) m
     (\<lambda>_. ledger_at cfg k N) (ledger_at cfg k N)"
    by (rule triple_pre [OF assms]) (auto elim: ledger_mono)
qed

lemma action_ok_bind:
  assumes "\<And>Q. frame P Q \<Longrightarrow> keeps Q m" and "\<And>x. action_ok cfg step (f x)"
  shows "action_ok cfg step (st_bind m f)"
  unfolding action_ok_def
proof (intro allI, rule triple_first)
  fix k N
  show "keeps (\<lambda>s. ledger_at cfg (k + 1) N s \<and>
      (step_kind step = ''send_message'' \<longrightarrow> eg_turns s < max_turns cfg)) m"
    by (rule assms) (simp add: free_frame on_counters_def counters_def)
qed (use assms(2) in \<open>auto simp: action_ok_def elim: ledger_mono\<close>)

lemma action_ok_if: "(b \<Longrightarrow> action_ok cfg step m) \<Longrightarrow> (\<not> b \<Longrightarrow> action_ok cfg step n) \<Longrightarrow>
    action_ok cfg step (if b then m else n)"
  by simp

lemma action_ok_spend:
  assumes "\<And>k N s. ledger_at cfg (k + 1) N s \<Longrightarrow>
      (step_kind step = ''send_message'' \<longrightarrow> eg_turns s < max_turns cfg) \<Longrightarrow> ledger_at cfg k N (g s)"
    and "\<And>k N. keeps (ledger_at cfg k N) (f ())"
  shows "action_ok cfg step (st_bind (st_modify g) f)"
  unfolding action_ok_def
proof (intro allI, rule triple_set)
  fix k N and s :: "'a eng"
  assume "ledger_at cfg (k + 1) N s \<and> (step_kind step = ''send_message'' \<longrightarrow> eg_turns s < max_turns cfg)"
  then show "ledger_at cfg k N (g s)" using assms(1) by blast
qed (rule triple_kept [OF assms(2)])

lemma action_ok_keeps: "(\<And>k N. keeps (ledger_at cfg k N) m) \<Longrightarrow> action_ok cfg step m"
  by (rule action_okI) (rule triple_kept)

lemma send_ok: "action_ok cfg (SendMessage b m r) (dispatch_send P cfg (SendMessage b m r) m r d)"
  unfolding dispatch_send_def
proof (rule action_ok_bind [OF keeps_resolve_message], rule action_ok_spend)
  fix k N and s :: "'a eng"
  assume "ledger_at cfg (k + 1) N s"
    "step_kind (SendMessage b m r) = ''send_message'' \<longrightarrow> eg_turns s < max_turns cfg"
  then show "ledger_at cfg k N (s\<lparr>eg_turns := eg_turns s + 1\<rparr>)"
    by (auto simp: on_counters_def ledger_def counters_def)
qed (intro keeps_intros; simp add: quiet_updates)+

lemma tool_ok: "action_ok cfg step (dispatch_tool P cfg step t a m d)"
  unfolding dispatch_tool_def
proof (rule action_ok_bind [OF keeps_clock], assumption, rule action_ok_if [OF action_ok_keeps [OF quiet_expired [OF counters_quiet]]],
    rule action_ok_spend)
  fix k N and s :: "'a eng"
  assume "ledger_at cfg (k + 1) N s"
  then show "ledger_at cfg k N (s\<lparr>eg_tool_calls := eg_tool_calls s + 1\<rparr>)"
    by (auto simp: on_counters_def ledger_def counters_def)
qed (intro keeps_intros; simp add: quiet_updates)+

lemma leaf_ok: "action_ok cfg step (dispatch_leaf P cfg step d)"
  unfolding dispatch_leaf_def
  by (cases step) (auto intro!: send_ok tool_ok action_ok_keeps keeps_intros)

text \<open>The bookkeeping of an admitted step around its action.\<close>

lemma ledger_weaken: "ledger_at cfg k (insert n N) s \<Longrightarrow> ledger_at cfg k N s"
  by (rule ledger_mono) auto

lemma ledger_record_step:
  "n \<notin> N \<Longrightarrow> triple (ledger_at cfg k (insert n N)) (record_step n step st d dt a du)
     (\<lambda>_. ledger_at cfg k N) (ledger_at cfg k N)"
  unfolding record_step_def by (rule triple_modify) (auto simp: on_counters_def ledger_def counters_def)

lemma ledger_execute:
  assumes "action_ok cfg step action" "n \<notin> N"
  shows "triple (\<lambda>s. ledger_at cfg (k + 1) (insert n N) s \<and>
      (step_kind step = ''send_message'' \<longrightarrow> eg_turns s < max_turns cfg))
    (execute_step P cfg depth step n started action) (\<lambda>_. ledger_at cfg k N) (ledger_at cfg k N)"
proof -
  have action: "triple (\<lambda>s. ledger_at cfg (k + 1) (insert n N) s \<and>
      (step_kind step = ''send_message'' \<longrightarrow> eg_turns s < max_turns cfg)) (guarded action)
      (\<lambda>_. ledger_at cfg k (insert n N)) (ledger_at cfg k N)"
    unfolding guarded_def
  proof (rule triple_catch)
    show "triple (\<lambda>s. ledger_at cfg (k + 1) (insert n N) s \<and>
      (step_kind step = ''send_message'' \<longrightarrow> eg_turns s < max_turns cfg)) action
      (\<lambda>_. ledger_at cfg k (insert n N)) (ledger_at cfg k (insert n N))"
      using assms(1) by (simp add: action_ok_def)
  next
    fix e :: eexn
    show "triple (ledger_at cfg k (insert n N)) (case e of EvidenceBoundaryError _ _ \<Rightarrow> st_raise e
       | _ \<Rightarrow> st_return (''failed'', Some (error_detail e), [])) (\<lambda>_. ledger_at cfg k (insert n N)) (ledger_at cfg k N)"
      by (cases e) (auto intro!: triple_raise triple_return elim: ledger_weaken)
  qed
  show ?thesis
    unfolding execute_step_def Let_def
    by (rule triple_bind [OF action], intro triple_prod_case triple_first [OF keeps_clock [OF frame_counters] ledger_weaken]
          triple_bind [OF ledger_record_step [OF assms(2)]], assumption)
      (rule triple_kept, intro keeps_intros, assumption)
qed

lemma ledger_announce:
  assumes "\<And>d. action_ok cfg step (action d)" and n: "n \<notin> N"
  shows "triple (\<lambda>s. ledger_at cfg (k + 1) (insert n N) s \<and>
      (step_kind step = ''send_message'' \<longrightarrow> eg_turns s < max_turns cfg))
    (announce_step P cfg depth step action n) (\<lambda>_. ledger_at cfg k N) (ledger_at cfg k N)"
    (is "triple ?P _ _ _")
proof -
  have fr: "frame P ?P" by (simp add: free_frame on_counters_def counters_def)
  have out: "?P s \<Longrightarrow> ledger_at cfg k N s" for s
    by (auto elim!: ledger_mono)
  have recorded: "triple ?P (record_step n step st d dt a du) (\<lambda>_. ledger_at cfg k N) (ledger_at cfg k N)" for st d dt a du
    by (rule triple_pre [OF ledger_record_step [OF n]]) (auto elim!: ledger_mono)
  show ?thesis
    unfolding announce_step_def
    by (intro triple_first [OF keeps_clock [OF fr] out] triple_first [OF keeps_step_deadline [OF fr] out]
          triple_first [OF keeps_remaining [OF fr] out] triple_first [OF keeps_emit [OF fr] out]
          triple_first [OF keeps_get out] triple_if recorded ledger_execute assms)
qed

lemma ledger_admitted:
  assumes "\<And>d. action_ok cfg step (action d)"
  shows "triple (\<lambda>s. ledger_at cfg k N s \<and> eg_step_count s < max_total_steps cfg \<and>
       (step_kind step = ''send_message'' \<longrightarrow> eg_turns s < max_turns cfg))
    (admitted_step P cfg depth step action) (\<lambda>_. ledger_at cfg k N) (ledger_at cfg k N)"
  unfolding admitted_step_def
proof (rule triple_set [where R = "\<lambda>s. (ledger_at cfg (k + 1) (insert (eg_seq s) N) s \<and>
       (step_kind step = ''send_message'' \<longrightarrow> eg_turns s < max_turns cfg)) \<and> eg_seq s \<notin> N"], rule_tac [2] triple_read)
  show "triple (\<lambda>s. ((ledger_at cfg (k + 1) (insert (eg_seq s) N) s \<and>
       (step_kind step = ''send_message'' \<longrightarrow> eg_turns s < max_turns cfg)) \<and> eg_seq s \<notin> N) \<and> eg_seq s = n)
     (announce_step P cfg depth step action n) (\<lambda>_. ledger_at cfg k N) (ledger_at cfg k N)" for n
  proof (cases "n \<in> N")
    case False
    show ?thesis by (rule triple_pre [OF ledger_announce [OF assms False]]) auto
  qed (auto simp: triple_def)
qed (auto simp: on_counters_def ledger_def counters_def)

lemma ledger_frame:
  assumes "\<And>d. action_ok cfg step (action d)"
  shows "triple (ledger_at cfg k N) (step_frame P cfg depth step action) (\<lambda>_. ledger_at cfg k N) (ledger_at cfg k N)"
proof -
  have blocked: "triple (ledger_at cfg k N) (emit P cfg t p) (\<lambda>_. ledger_at cfg k N) (ledger_at cfg k N)" for t p
    by (rule triple_kept [OF keeps_emit]) simp_all
  show ?thesis
    unfolding step_frame_def
    by (rule triple_bind [OF ledger_budget_stop], intro triple_option triple_prod_case triple_set [OF _ blocked]
        triple_pre [OF ledger_admitted [OF assms]]) (auto simp: on_counters_def counters_def)
qed

lemma branch_ok:
  "(\<And>k N. keeps (ledger_at cfg k N) m1) \<Longrightarrow> (\<And>k N. keeps (ledger_at cfg k N) m2) \<Longrightarrow>
   action_ok cfg step (dispatch_branch P cfg step c m1 m2)"
  unfolding dispatch_branch_def by (rule action_ok_keeps) (intro keeps_intros; simp)

lemma loop_ok:
  "(\<And>k N. keeps (ledger_at cfg k N) m) \<Longrightarrow> action_ok cfg step (dispatch_loop P cfg step n u m)"
  unfolding dispatch_loop_def by (rule action_ok_keeps) (intro keeps_intros; simp)

lemma ledger_frame_keeps: "(\<And>d. action_ok cfg step (action d)) \<Longrightarrow> keeps (ledger_at cfg k N) (step_frame P cfg depth step action)"
  by (simp add: triple_keeps ledger_frame)

lemma ledger_run:
  "keeps (ledger_at cfg k N) (run_step P cfg depth step)"
  "keeps (ledger_at cfg k N) (run_sequence P cfg depth steps)"
proof (induction P cfg depth step and P cfg depth steps arbitrary: k N and k N rule: run_step_run_sequence.induct)
  case (9 P cfg depth s ss)
  show ?case unfolding run_sequence.simps by (intro keeps_intros 9)
qed (auto intro!: ledger_frame_keeps branch_ok loop_ok leaf_ok keeps_return)

text \<open>\<^verbatim>\<open>finally\<close> runs from the state either exit of the body leaves.\<close>

lemma keeps_finally [keeps_intros]: "keeps P m \<Longrightarrow> keeps P f \<Longrightarrow> keeps P (st_finally m f)"
  unfolding keeps_def st_finally_def by (fastforce split: prod.splits sum.splits)

lemma ledger_engine: "keeps (ledger_at cfg k N) (run_engine P cfg)"
  unfolding run_engine_def by (intro keeps_intros ledger_run; simp add: on_counters_def counters_def)

lemma ledger_start: "ledger_at cfg 0 {} (engine_start P cfg w)"
  by (auto simp: on_counters_def ledger_def counters_def engine_start_def split: prod.splits)

text \<open>The figures of the outcome are those of the final state.\<close>

lemma outcome_figures:
  "outcome P cfg t s = (Inr oc, u) \<Longrightarrow> oc_step_count oc = eg_step_count u \<and> oc_turns oc = eg_turns u \<and>
     oc_tool_calls oc = eg_tool_calls u \<and> oc_steps oc = eg_evidence u"
  unfolding outcome_def by (auto simp: sop_Inr Let_def)

lemma run_engine_outcome:
  "run_engine P cfg s = (Inr oc, u) \<Longrightarrow> \<exists>t v. outcome P cfg t v = (Inr oc, u)"
  unfolding run_engine_def by (auto simp: sop_Inr split: option.splits if_splits)

lemma workflow_ledger:
  assumes "run_workflow P cfg w = (r, s)"
  shows "ledger_at cfg 0 {} s"
proof -
  have "ledger_at cfg 0 {} (snd (run_engine P cfg (engine_start P cfg w)))"
    by (rule keepsD [OF ledger_engine ledger_start])
  then show ?thesis using assms by (simp add: run_workflow_def)
qed

lemma workflow_figures:
  "run_workflow P cfg w = (Inr oc, s) \<Longrightarrow> oc_step_count oc = eg_step_count s \<and> oc_turns oc = eg_turns s \<and>
     oc_tool_calls oc = eg_tool_calls s \<and> oc_steps oc = eg_evidence s"
  unfolding run_workflow_def using run_engine_outcome outcome_figures by blast

end
