(* ===== verification/Engine_Verdict.thy ===== *)
theory Engine_Verdict
  imports Engine_Safety
begin

text \<open>
  The verdict of \<^verbatim>\<open>WorkflowEngine.run\<close>: a case is reported \<^verbatim>\<open>completed\<close> only when every step of the
  workflow was executed, every recorded step succeeded and nothing is left to review.
\<close>

section \<open>What the results of an action can be\<close>

definition yields :: "'a set \<Rightarrow> ('s, 'e, 'a) sop \<Rightarrow> bool" where
  "yields S m \<longleftrightarrow> (\<forall>s x t. m s = (Inr x, t) \<longrightarrow> x \<in> S)"

named_theorems yields_intros \<open>composition rules for the results of an operation\<close>

lemma yields_bind [yields_intros]: "(\<And>x. yields S (f x)) \<Longrightarrow> yields S (st_bind m f)"
  by (auto simp: yields_def sop_Inr)

lemma yields_return [yields_intros]: "x \<in> S \<Longrightarrow> yields S (st_return x)"
  by (auto simp: yields_def sop_Inr)

lemma yields_raise [yields_intros]: "yields S (st_raise e)"
  by (auto simp: yields_def sop_Inr)

lemma yields_if [yields_intros]: "yields S m \<Longrightarrow> yields S n \<Longrightarrow> yields S (if b then m else n)"
  by simp

lemma yields_option [yields_intros]:
  "yields S m \<Longrightarrow> (\<And>x. yields S (f x)) \<Longrightarrow> yields S (case v of None \<Rightarrow> m | Some x \<Rightarrow> f x)"
  by (cases v) auto

lemma yields_prod [yields_intros]: "(\<And>a b. yields S (f a b)) \<Longrightarrow> yields S (case_prod f v)"
  by (cases v) auto

lemma yields_pyval [yields_intros]:
  "yields S a \<Longrightarrow> (\<And>x. yields S (b x)) \<Longrightarrow> (\<And>x. yields S (c x)) \<Longrightarrow> (\<And>x. yields S (d x)) \<Longrightarrow>
   (\<And>x. yields S (e x)) \<Longrightarrow> (\<And>x. yields S (f x)) \<Longrightarrow> (\<And>x. yields S (g x)) \<Longrightarrow> yields S (case_pyval a b c d e f g v)"
  by (cases v) auto

text \<open>A step that was dispatched either succeeded or failed.\<close>

definition verdicts :: "dispatch_result set" where
  "verdicts = {r. fst r = ''succeeded'' \<or> fst r = ''failed''}"

lemma verdicts_simp [simp]: "(st, x) \<in> verdicts \<longleftrightarrow> st = ''succeeded'' \<or> st = ''failed''"
  by (simp add: verdicts_def)

lemma yields_check_assertions [yields_intros]: "yields verdicts (check_assertions P step f)"
  unfolding check_assertions_def by (intro yields_intros) simp_all

lemma yields_timeout [yields_intros]: "yields verdicts (timeout_outcome P cfg sid)"
  unfolding timeout_outcome_def by (intro yields_intros) simp_all

lemma yields_leaf: "yields verdicts (dispatch_leaf P cfg step d)"
  by (cases step)
    (auto simp: dispatch_leaf_def dispatch_send_def after_send_def Let_def dispatch_tool_def expired_def
      dispatch_event_def dispatch_checkpoint_def dispatch_assert_def intro!: yields_intros)

lemma yields_container_result [yields_intros]: "yields verdicts (container_result rows)"
  unfolding container_result_def by (intro yields_intros) simp_all

lemma yields_containers [yields_intros]:
  "yields verdicts (dispatch_branch P cfg step c m1 m2)" "yields verdicts (dispatch_loop P cfg step n u m)"
  unfolding dispatch_branch_def dispatch_loop_def by (intro yields_intros)+

lemma triple_yields: "triple P m Q E \<Longrightarrow> yields S m \<Longrightarrow> triple P m (\<lambda>x s. Q x s \<and> x \<in> S) E"
  by (rule tripleI) (auto dest: tripleD tripleE simp: yields_def)

section \<open>The verdict invariant\<close>

text \<open>
  \<open>open_verdict\<close>: nothing but the completion check may report completion.  \<open>clean\<close>: moreover, as long as
  no terminal status is set and the run is not reduced to collecting evidence, every record succeeded.
\<close>

definition open_verdict :: "'w eng \<Rightarrow> bool" where
  "open_verdict s \<longleftrightarrow> (case eg_terminal s of None \<Rightarrow> True | Some (st, _) \<Rightarrow> st \<noteq> ''completed'')"

definition clean :: "'w eng \<Rightarrow> bool" where
  "clean s \<longleftrightarrow> open_verdict s \<and>
     (eg_terminal s = None \<and> \<not> eg_evidence_only s \<longrightarrow> (\<forall>e\<in>set (eg_evidence s). ev_status e = ''succeeded''))"

lemma clean_open: "clean s \<Longrightarrow> open_verdict s"
  by (simp add: clean_def)

lemma clean_quiet [keeps_intros]: "quiet P clean"
  by (simp add: quiet_def free_frame clean_def open_verdict_def)

lemmas clean_frame = quiet_frame [OF clean_quiet]

lemma clean_leaf [keeps_intros]: "keeps clean (dispatch_leaf P cfg step d)"
  by (rule quiet_leaf [OF clean_quiet]) (simp_all add: clean_def open_verdict_def)

lemma clean_updates [simp]:
  "clean (s\<lparr>eg_step_count := n\<rparr>) = clean s" "clean (s\<lparr>eg_seq := n\<rparr>) = clean s"
  "clean (s\<lparr>eg_terminal := Some (st, r)\<rparr>) = (st \<noteq> ''completed'')"
  by (simp_all add: clean_def open_verdict_def)

text \<open>What every dispatched action satisfies.\<close>

abbreviation fair_action :: "('w, dispatch_result) eop \<Rightarrow> bool" where
  "fair_action m \<equiv> triple clean m (\<lambda>r s. clean s \<and> r \<in> verdicts) open_verdict"

lemma fair_leaf: "fair_action (dispatch_leaf P cfg step d)"
  by (rule triple_yields [OF triple_post [OF triple_kept [OF clean_leaf]] yields_leaf]) (auto intro: clean_open)

lemma fair_guarded:
  assumes "fair_action m"
  shows "triple clean (guarded m) (\<lambda>r s. open_verdict s \<and> r \<in> verdicts \<and> (fst r = ''succeeded'' \<longrightarrow> clean s)) open_verdict"
  unfolding guarded_def
proof (rule triple_catch)
  show "triple clean m (\<lambda>r s. open_verdict s \<and> r \<in> verdicts \<and> (fst r = ''succeeded'' \<longrightarrow> clean s)) open_verdict"
    by (rule triple_post [OF assms]) (auto intro: clean_open)
next
  fix e :: eexn
  show "triple open_verdict (case e of EvidenceBoundaryError _ _ \<Rightarrow> st_raise e
       | _ \<Rightarrow> st_return (''failed'', Some (error_detail e), []))
     (\<lambda>r s. open_verdict s \<and> r \<in> verdicts \<and> (fst r = ''succeeded'' \<longrightarrow> clean s)) open_verdict"
    by (cases e) (auto intro!: triple_raise triple_return)
qed

text \<open>A recorded failure is answered by a terminal status or by the evidence-only mode.\<close>

lemma handle_failure_clean: "triple open_verdict (handle_failure cfg step d) (\<lambda>_. clean) open_verdict"
  unfolding handle_failure_def
  by (rule tripleI)
    (auto simp: sop_simps st_bind_def clean_def open_verdict_def split: if_splits option.splits)

lemma clean_execute:
  assumes "fair_action action"
  shows "triple clean (execute_step P cfg depth step n started action) (\<lambda>_. clean) open_verdict"
  unfolding execute_step_def Let_def
proof (rule triple_bind [OF fair_guarded [OF assms]], rule triple_prod_case, rule triple_prod_case)
  fix r :: dispatch_result and st y d a
  assume r: "r = (st, y)" "y = (d, a)"
  let ?R = "\<lambda>s. open_verdict s \<and> r \<in> verdicts \<and> (st = ''succeeded'' \<longrightarrow> clean s)"
  have fr: "frame P ?R" by (auto intro!: free_frame simp: open_verdict_def clean_def)
  have rec: "keeps ?R (record_step n step st depth d a du)" for du
    unfolding record_step_def by (rule keeps_modify) (auto simp: clean_def open_verdict_def)
  show "triple (\<lambda>s. open_verdict s \<and> r \<in> verdicts \<and> (fst r = ''succeeded'' \<longrightarrow> clean s))
     (st_bind (clock_now P) (\<lambda>t.
      st_bind (record_step n step st depth d a (py_round ((t - started) * 1000) 3)) (\<lambda>_.
      st_bind (emit P cfg ''step_end'' [(''step_id'', str_val (step_id step)), (''kind'', str_val (step_kind step)),
          (''status'', str_val st), (''detail'', EText d), (''duration_ms'', real_val (py_round ((t - started) * 1000) 3))]) (\<lambda>_.
      if st = ''failed'' then handle_failure cfg step d else st_return ()))))
     (\<lambda>_. clean) open_verdict"
    by (rule triple_pre [where R = ?R], intro triple_first [OF keeps_clock [OF fr]] triple_first [OF rec]
        triple_first [OF keeps_emit [OF fr]] triple_if triple_pre [OF handle_failure_clean] triple_return)
      (auto simp: r)
qed

lemma clean_announce:
  assumes "\<And>d. fair_action (action d)"
  shows "triple clean (announce_step P cfg depth step action n) (\<lambda>_. clean) open_verdict"
proof -
  have skip: "triple (\<lambda>s. clean s \<and> eg_evidence_only s = eo) (if eo \<and> b then record_step n step ''skipped'' depth dt [] 0
       else execute_step P cfg depth step n started (action deadline)) (\<lambda>_. clean) open_verdict" for eo b dt started deadline
    by (rule triple_if, (unfold record_step_def)[1], rule triple_modify, simp add: clean_def open_verdict_def,
        rule triple_pre [OF clean_execute [OF assms]]) simp
  show ?thesis
    unfolding announce_step_def
    by (intro triple_first [OF keeps_clock [OF clean_frame] clean_open] triple_first [OF keeps_step_deadline [OF clean_frame] clean_open]
          triple_first [OF keeps_remaining [OF clean_frame] clean_open] triple_first [OF keeps_emit [OF clean_frame] clean_open]
          triple_read skip)
qed

lemma yields_budget_stop: "yields {r. \<forall>x. r \<noteq> Some (''completed'', x)} (budget_stop P cfg k)"
  unfolding budget_stop_def by (intro yields_intros) simp_all

lemma clean_budget_stop:
  "triple clean (budget_stop P cfg k) (\<lambda>r s. clean s \<and> r \<in> {r. \<forall>x. r \<noteq> Some (''completed'', x)}) open_verdict"
proof (rule triple_yields [OF _ yields_budget_stop])
  show "triple clean (budget_stop P cfg k) (\<lambda>_. clean) open_verdict"
    by (rule triple_post [OF triple_kept [OF keeps_budget_stop [OF clean_frame]]]) (auto intro: clean_open)
qed

lemma clean_step:
  assumes "\<And>d. fair_action (action d)"
  shows "triple clean (step_frame P cfg depth step action) (\<lambda>_. clean) open_verdict"
proof -
  have blocked: "triple clean (emit P cfg t p) (\<lambda>_. clean) open_verdict" for t p
    by (rule triple_post [OF triple_kept [OF keeps_emit [OF clean_frame]]]) (auto intro: clean_open)
  have admitted: "triple clean (admitted_step P cfg depth step action) (\<lambda>_. clean) open_verdict"
    unfolding admitted_step_def
    by (rule triple_set [where R = clean], simp) (intro triple_first [OF keeps_get clean_open] clean_announce assms)
  show ?thesis
    unfolding step_frame_def
    by (rule triple_bind [OF clean_budget_stop], intro triple_option triple_prod_case triple_set [OF _ blocked]
        triple_pre [OF admitted]) auto
qed

text \<open>Containers run their children, which may raise past the recorder of a failed child.\<close>

abbreviation fair_body :: "('w, unit) eop \<Rightarrow> bool" where
  "fair_body m \<equiv> triple clean m (\<lambda>_. clean) open_verdict"

lemma fair_loop_iterations:
  assumes "fair_body body"
  shows "triple clean (loop_iterations P cfg step until body n i rows) (\<lambda>_. clean) open_verdict"
proof (induction n arbitrary: i rows)
  case (Suc n)
  show ?case unfolding loop_iterations.simps
    by (intro triple_first [OF keeps_get clean_open] triple_first [OF keeps_loop_until [OF clean_frame] clean_open]
        triple_first [OF keeps_emit [OF clean_frame] clean_open] triple_bind [OF assms] Suc.IH
        triple_if triple_option triple_return triple_set [where R = clean]) simp_all
qed (simp add: triple_return)

lemma fair_container: "triple clean (container_result rows) (\<lambda>_. clean) open_verdict"
  by (rule triple_post [OF triple_kept [OF keeps_container_result [of clean]]]) (auto intro: clean_open)

lemma fair_loop: "fair_body body \<Longrightarrow> fair_action (dispatch_loop P cfg step n u body)"
  by (rule triple_yields [OF _ yields_containers(2)], unfold dispatch_loop_def)
    (rule triple_bind [OF fair_loop_iterations fair_container])

lemma fair_branch:
  assumes "fair_body m1" "fair_body m2"
  shows "fair_action (dispatch_branch P cfg step c m1 m2)"
proof (rule triple_yields [OF _ yields_containers(1)])
  have body: "fair_body (if b then m1 else m2)" for b using assms by simp
  show "triple clean (dispatch_branch P cfg step c m1 m2) (\<lambda>_. clean) open_verdict"
    unfolding dispatch_branch_def
    by (intro triple_first [OF keeps_lift clean_open] triple_first [OF keeps_context [OF clean_frame] clean_open]
      triple_first [OF keeps_emit [OF clean_frame] clean_open] triple_bind [OF body fair_container])
qed

lemma clean_run:
  "fair_body (run_step P cfg depth step)"
  "fair_body (run_sequence P cfg depth steps)"
proof (induction P cfg depth step and P cfg depth steps rule: run_step_run_sequence.induct)
  case (9 P cfg depth s ss)
  show ?case unfolding run_sequence.simps
    by (rule triple_read, rule triple_if, rule triple_return, simp)
      (rule triple_pre [OF triple_bind [OF 9(1) 9(2)]], auto)
qed (auto intro!: clean_step fair_branch fair_loop fair_leaf triple_return)

section \<open>Every top-level step is executed, in order\<close>

text \<open>The identifiers of the records made at depth one, oldest first.\<close>

definition executed :: "'w eng \<Rightarrow> string list" where
  "executed s = map ev_step (filter (\<lambda>e. ev_depth e = 1) (eg_evidence s))"

definition on_executed :: "(string list \<Rightarrow> bool) \<Rightarrow> 'w eng \<Rightarrow> bool" where
  "on_executed Q s \<longleftrightarrow> Q (executed s)"

lemma executed_quiet [keeps_intros]: "quiet P (on_executed Q)"
  by (simp add: quiet_def free_frame on_executed_def executed_def)

lemma executed_updates [simp]:
  "on_executed Q (s\<lparr>eg_step_count := n\<rparr>) = on_executed Q s" "on_executed Q (s\<lparr>eg_seq := m\<rparr>) = on_executed Q s"
  "on_executed Q (s\<lparr>eg_terminal := t\<rparr>) = on_executed Q s"
  by (simp_all add: on_executed_def executed_def)

lemma executed_leaf [keeps_intros]: "keeps (on_executed Q) (dispatch_leaf P cfg step d)"
  by (rule quiet_leaf [OF executed_quiet]) (simp_all add: on_executed_def executed_def)

lemma executed_handle_failure [keeps_intros]: "keeps (on_executed Q) (handle_failure cfg s d)"
  by (rule quiet_handle_failure [OF executed_quiet]) (simp add: on_executed_def executed_def)

lemma keeps_guarded [keeps_intros]: "keeps Q m \<Longrightarrow> keeps Q (guarded m)"
  unfolding guarded_def by (intro keeps_intros)

text \<open>Below the top level nothing is recorded at depth one.\<close>

lemma executed_record_below: "depth \<noteq> 1 \<Longrightarrow> keeps (on_executed Q) (record_step n step st depth d a du)"
  unfolding record_step_def by (rule keeps_modify) (simp add: on_executed_def executed_def)

lemma executed_frame_below:
  assumes "\<And>d. keeps (on_executed Q) (action d)" "depth \<noteq> 1"
  shows "keeps (on_executed Q) (step_frame P cfg depth step action)"
  unfolding step_frame_def admitted_step_def announce_step_def execute_step_def Let_def
  by (intro keeps_intros assms executed_record_below; simp)

lemma executed_run_below:
  "1 < depth \<Longrightarrow> keeps (on_executed Q) (run_step P cfg depth step)"
  "1 < depth \<Longrightarrow> keeps (on_executed Q) (run_sequence P cfg depth steps)"
proof (induction P cfg depth step and P cfg depth steps rule: run_step_run_sequence.induct)
  case (9 P cfg depth s ss)
  show ?case unfolding run_sequence.simps by (intro keeps_intros 9)
qed (auto intro!: executed_frame_below quiet_branch quiet_loop executed_quiet executed_leaf keeps_return)

text \<open>At the top level a step that leaves the case open has been recorded.\<close>

definition progressed :: "string list \<Rightarrow> 'w eng \<Rightarrow> bool" where
  "progressed ids s \<longleftrightarrow> (eg_terminal s = None \<longrightarrow> executed s = ids)"

lemma executed_record: "triple (on_executed ((=) X)) (record_step n step st 1 d a du)
    (\<lambda>_. on_executed ((=) (X @ [step_id step]))) (\<lambda>_. True)"
  unfolding record_step_def by (rule triple_modify) (simp add: on_executed_def executed_def)

lemma progressed_execute:
  assumes "keeps (on_executed ((=) X)) action"
  shows "triple (on_executed ((=) X)) (execute_step P cfg 1 step n started action)
    (\<lambda>_. on_executed ((=) (X @ [step_id step]))) (\<lambda>_. True)"
proof -
  have rest: "triple (on_executed Q) m (\<lambda>_. on_executed Q) (\<lambda>_. True)" if "keeps (on_executed Q) m"
    for Q and m :: "('a, unit) eop"
    by (rule triple_post [OF triple_kept [OF that]]) simp_all
  show ?thesis
    unfolding execute_step_def Let_def
    by (rule triple_first [OF keeps_guarded [OF assms]], simp,
        intro triple_prod_case triple_first [OF keeps_clock [OF quiet_frame [OF executed_quiet]]]
          triple_bind [OF executed_record] rest keeps_intros) simp_all
qed

lemma progressed_step:
  assumes "\<And>d. keeps (on_executed ((=) X)) (action d)"
  shows "triple (on_executed ((=) X)) (step_frame P cfg 1 step action)
    (\<lambda>_. progressed (X @ [step_id step])) (\<lambda>_. True)"
proof -
  let ?X = "on_executed ((=) X) :: 'a eng \<Rightarrow> bool"
  note fr = quiet_frame [OF executed_quiet]
  have announce: "triple ?X (announce_step P cfg 1 step action n) (\<lambda>_. on_executed ((=) (X @ [step_id step]))) (\<lambda>_. True)" for n
    unfolding announce_step_def
    by (intro triple_first [OF keeps_clock [OF fr]] triple_first [OF keeps_step_deadline [OF fr]]
        triple_first [OF keeps_remaining [OF fr]] triple_first [OF keeps_emit [OF fr]] triple_first [OF keeps_get]
        triple_if executed_record progressed_execute assms TrueI)
  have admitted: "triple ?X (admitted_step P cfg 1 step action) (\<lambda>_. progressed (X @ [step_id step])) (\<lambda>_. True)"
    unfolding admitted_step_def
    by (rule triple_set [where R = ?X], simp, rule triple_first [OF keeps_get TrueI], rule triple_post [OF announce])
      (auto simp: progressed_def on_executed_def)
  have blocked: "triple (\<lambda>s. eg_terminal s \<noteq> None) (emit P cfg t p) (\<lambda>_. progressed Y) (\<lambda>_. True)" for t p Y
    by (rule triple_post [OF triple_kept [OF keeps_emit [where Q = "\<lambda>s. eg_terminal s \<noteq> None"]]])
      (auto intro!: free_frame simp: progressed_def)
  show ?thesis
    unfolding step_frame_def
    by (rule triple_first [OF keeps_budget_stop [OF fr] TrueI], intro triple_option triple_prod_case
        triple_set [OF _ blocked] admitted) simp
qed

lemma progressed_run_step:
  "triple (on_executed ((=) X)) (run_step P cfg 1 step) (\<lambda>_. progressed (X @ [step_id step])) (\<lambda>_. True)"
  by (cases step) (auto simp only: run_step.simps intro!: progressed_step quiet_branch quiet_loop executed_quiet executed_leaf
      executed_run_below(2))

lemma progressed_sequence:
  "triple (progressed X) (run_sequence P cfg 1 steps) (\<lambda>_. progressed (X @ map step_id steps)) (\<lambda>_. True)"
proof (induction steps arbitrary: X)
  case (Cons step steps)
  have "triple (\<lambda>s. progressed X s \<and> eg_terminal s = None)
     (st_bind (run_step P cfg 1 step) (\<lambda>_. run_sequence P cfg 1 steps))
     (\<lambda>_. progressed (X @ map step_id (step # steps))) (\<lambda>_. True)"
    by (rule triple_bind [OF triple_pre [OF progressed_run_step] Cons.IH [THEN triple_post]])
      (auto simp: progressed_def on_executed_def)
  note still_open = this
  show ?case
    unfolding run_sequence.simps
  proof (intro triple_read triple_if)
    fix t :: "(string \<times> fstr option) option"
    assume "\<not> t \<noteq> None"
    then have "t = None" by blast
    then show "triple (\<lambda>s. progressed X s \<and> eg_terminal s = t)
       (st_bind (run_step P cfg 1 step) (\<lambda>_. run_sequence P cfg 1 steps))
       (\<lambda>_. progressed (X @ map step_id (step # steps))) (\<lambda>_. True)"
      using still_open by (simp only:)
  qed (rule triple_return, simp add: progressed_def)
qed (simp add: triple_return)

section \<open>The verdict\<close>

text \<open>What a completed outcome says of the state it was computed from.\<close>

lemma downgrade_completed [simp]:
  "fst (downgrade s v) = ''completed'' \<longleftrightarrow> fst v = ''completed'' \<and> \<not> eg_evidence_only s \<and> \<not> eg_needs_review s"
  by (auto simp: downgrade_def)

lemma outcome_completed:
  assumes run: "outcome P cfg t s = (Inr oc, u)" and status: "oc_status oc = ''completed''"
    and t: "\<And>x. t \<noteq> Some (''completed'', x)"
  shows "t = None \<and> \<not> eg_evidence_only u \<and> \<not> oc_needs_review oc \<and> oc_steps oc = eg_evidence u"
proof -
  from run obtain v s1 where v: "(case t of None \<Rightarrow> completion_verdict P cfg | Some x \<Rightarrow> st_return x) s = (Inr v, s1)"
    and oc: "oc_status oc = fst (downgrade u v)" "oc_steps oc = eg_evidence u"
      "oc_needs_review oc \<longleftrightarrow> eg_needs_review u \<or> fst (downgrade u v) = ''needs_review''"
    unfolding outcome_def st_bind_Inr st_get_Inr Let_def by auto
  have d: "fst (downgrade u v) = ''completed''" using oc(1) status by (rule trans [OF sym])
  then have c: "fst v = ''completed''" "\<not> eg_evidence_only u" "\<not> eg_needs_review u" by simp_all
  have "t = None"
  proof (cases t)
    case (Some x)
    with v have "x = v" by (simp add: sop_Inr)
    with c(1) Some t show ?thesis by (cases v) auto
  qed
  with c(2,3) oc(2,3) show ?thesis by (simp only: d) simp
qed

definition finished :: "config \<Rightarrow> 'w eng \<Rightarrow> bool" where
  "finished cfg s \<longleftrightarrow> clean s \<and> progressed (map step_id (wf_steps (cf_workflow cfg))) s"

lemma finished_quiet [keeps_intros]: "quiet P (finished cfg)"
  by (simp add: quiet_def free_frame finished_def clean_def open_verdict_def progressed_def executed_def)

lemma finished_run:
  "triple (\<lambda>s. clean s \<and> progressed [] s) (run_sequence P cfg 1 (wf_steps (cf_workflow cfg))) (\<lambda>_. finished cfg) (\<lambda>_. True)"
proof (rule tripleI)
  fix s x t
  assume "clean s \<and> progressed [] s" "run_sequence P cfg 1 (wf_steps (cf_workflow cfg)) s = (Inr x, t)"
  then show "finished cfg t"
    using tripleD [OF clean_run(2), of s P cfg] tripleD [OF progressed_sequence, of "[]" s P cfg]
    by (simp add: finished_def)
qed simp

lemma finally_Inr: "st_finally m f s = (Inr y, u) \<Longrightarrow> \<exists>x t. m s = (Inr x, t) \<and> f t = (Inr y, u)"
  by (auto simp: st_finally_def split: prod.splits sum.splits)

lemma close_result: "close_target P cfg s = (Inr c, u) \<Longrightarrow> c \<noteq> Some (''completed'', x)"
proof -
  have "yields {r. \<forall>x. r \<noteq> Some (''completed'', x)} (close_target P cfg)"
    unfolding close_target_def st_catch_def yields_def
    by (auto simp: sop_Inr split: prod.splits sum.splits)
  then show "close_target P cfg s = (Inr c, u) \<Longrightarrow> c \<noteq> Some (''completed'', x)"
    by (auto simp: yields_def)
qed

lemma begin_result: "begin_target P cfg s = (Inr c, u) \<Longrightarrow> c \<noteq> Some (''completed'', x)"
proof -
  have "yields {r. \<forall>x. r \<noteq> Some (''completed'', x)} (begin_target P cfg)"
    unfolding begin_target_def st_catch_def yields_def
    by (auto simp: sop_Inr split: prod.splits sum.splits)
  then show "begin_target P cfg s = (Inr c, u) \<Longrightarrow> c \<noteq> Some (''completed'', x)"
    by (auto simp: yields_def)
qed

lemma clean_start: "clean (engine_start P cfg w)" "progressed [] (engine_start P cfg w)"
  by (auto simp: engine_start_def clean_def open_verdict_def progressed_def executed_def split: prod.splits)

lemma workflow_completed:
  assumes run: "run_workflow P cfg w = (Inr oc, u)" and status: "oc_status oc = ''completed''"
  shows "finished cfg u \<and> eg_terminal u = None \<and> \<not> eg_evidence_only u \<and> \<not> oc_needs_review oc \<and> oc_steps oc = eg_evidence u"
proof -
  let ?s = "engine_start P cfg w"
  from run obtain b s1 where b: "begin_target P cfg ?s = (Inr b, s1)"
    and rest: "(case b of Some t \<Rightarrow> outcome P cfg (Some t)
       | None \<Rightarrow> st_bind (st_finally (run_sequence P cfg 1 (wf_steps (cf_workflow cfg))) (close_target P cfg)) (\<lambda>closed.
           st_bind (st_get eg_terminal) (\<lambda>terminal.
           if closed \<noteq> None \<and> terminal = None then
             st_bind (st_modify (\<lambda>s. s\<lparr>eg_terminal := closed\<rparr>)) (\<lambda>_. outcome P cfg closed)
           else outcome P cfg terminal))) s1 = (Inr oc, u)"
    unfolding run_workflow_def run_engine_def st_bind_Inr by auto
  have "b = None"
    using b rest begin_result [OF b] outcome_completed [of P cfg b s1 oc u] status by (cases b) auto
  with rest obtain c x s2 s3 where s2: "run_sequence P cfg 1 (wf_steps (cf_workflow cfg)) s1 = (Inr x, s2)"
    and c: "close_target P cfg s2 = (Inr c, s3)"
    and rest: "(if c \<noteq> None \<and> eg_terminal s3 = None then
             st_bind (st_modify (\<lambda>s. s\<lparr>eg_terminal := c\<rparr>)) (\<lambda>_. outcome P cfg c)
           else outcome P cfg (eg_terminal s3)) s3 = (Inr oc, u)"
    by (auto simp: sop_Inr dest!: finally_Inr)
  have fr: "frame P (\<lambda>s. clean s \<and> progressed [] s)"
    by (simp add: free_frame clean_def open_verdict_def progressed_def executed_def)
  have "clean s1 \<and> progressed [] s1"
    using keepsD [OF keeps_begin [OF fr], of ?s cfg] clean_start [of P cfg w] b by simp
  then have "finished cfg s2" using tripleD [OF finished_run _ s2] by blast
  then have s3: "finished cfg s3" using keepsD [OF quiet_close [OF finished_quiet], of cfg s2 P cfg] c by simp
  then have t3: "eg_terminal s3 \<noteq> Some (''completed'', x)" for x
    by (auto simp: finished_def clean_def open_verdict_def)
  show ?thesis
  proof (cases "c \<noteq> None \<and> eg_terminal s3 = None")
    case True
    with rest have "outcome P cfg c (s3\<lparr>eg_terminal := c\<rparr>) = (Inr oc, u)" by (simp add: sop_Inr)
    from outcome_completed [OF this status] close_result [OF c] True show ?thesis by auto
  next
    case False
    with rest have o: "outcome P cfg (eg_terminal s3) s3 = (Inr oc, u)" by auto
    from outcome_completed [OF o status t3] have "eg_terminal s3 = None" "\<not> eg_evidence_only u"
      "\<not> oc_needs_review oc" "oc_steps oc = eg_evidence u" by auto
    moreover have "finished cfg u \<and> eg_terminal u = None"
    proof -
      have "frame P (\<lambda>s. finished cfg s \<and> eg_terminal s = None)"
        by (simp add: free_frame finished_def clean_def open_verdict_def progressed_def executed_def)
      from keepsD [OF keeps_outcome [OF this], of s3 cfg "eg_terminal s3"] s3 o \<open>eg_terminal s3 = None\<close>
      show ?thesis by simp
    qed
    ultimately show ?thesis by simp
  qed
qed

text \<open>Spelled out over the records of the outcome.\<close>

lemma completed_evidence:
  assumes "run_workflow P cfg w = (Inr oc, u)" "oc_status oc = ''completed''"
  shows "(\<forall>e\<in>set (oc_steps oc). ev_status e = ''succeeded'') \<and>
    map ev_step (filter (\<lambda>e. ev_depth e = 1) (oc_steps oc)) = map step_id (wf_steps (cf_workflow cfg)) \<and>
    \<not> oc_needs_review oc"
  using workflow_completed [OF assms] by (simp add: finished_def clean_def progressed_def executed_def)

end
