(* ===== verification/Engine_Progress.thy ===== *)
theory Engine_Progress
  imports Engine_Verdict
begin

text \<open>
  The engine always comes back with an outcome: whatever exceptions the target, the tools and the
  interrupts raise, a compiled workflow run against an event sink and a fixture state that do not
  themselves raise returns a \<^verbatim>\<open>WorkflowOutcome\<close>.
\<close>

section \<open>Which exceptions an operation may raise\<close>

definition raises :: "('e \<Rightarrow> bool) \<Rightarrow> ('s, 'e, 'a) sop \<Rightarrow> bool" where
  "raises S m \<longleftrightarrow> (\<forall>s e t. m s = (Inl e, t) \<longrightarrow> S e)"

abbreviation silent :: "'e \<Rightarrow> bool" where
  "silent \<equiv> \<lambda>_. False"

named_theorems raises_intros \<open>composition rules for the exceptions of an operation\<close>

lemma raises_bind [raises_intros]: "raises S m \<Longrightarrow> (\<And>x. raises S (f x)) \<Longrightarrow> raises S (st_bind m f)"
  by (fastforce simp: raises_def st_bind_def split: prod.splits sum.splits)

lemma raises_return [raises_intros]: "raises S (st_return x)"
  by (simp add: raises_def sop_simps)

lemma raises_raise [raises_intros]: "S e \<Longrightarrow> raises S (st_raise e)"
  by (simp add: raises_def sop_simps)

lemma raises_get [raises_intros]: "raises S (st_get f)"
  by (simp add: raises_def sop_simps)

lemma raises_modify [raises_intros]: "raises S (st_modify f)"
  by (simp add: raises_def sop_simps)

lemma raises_lift [raises_intros]: "(\<And>e. r = Inl e \<Longrightarrow> S e) \<Longrightarrow> raises S (st_lift r)"
  by (simp add: raises_def sop_simps)

lemma raises_if [raises_intros]: "(b \<Longrightarrow> raises S m) \<Longrightarrow> (\<not> b \<Longrightarrow> raises S n) \<Longrightarrow> raises S (if b then m else n)"
  by simp

lemma raises_option [raises_intros]:
  "(v = None \<Longrightarrow> raises S m) \<Longrightarrow> (\<And>x. v = Some x \<Longrightarrow> raises S (f x)) \<Longrightarrow> raises S (case v of None \<Rightarrow> m | Some x \<Rightarrow> f x)"
  by (cases v) auto

lemma raises_prod [raises_intros]: "(\<And>a b. raises S (f a b)) \<Longrightarrow> raises S (case_prod f v)"
  by (cases v) auto

lemma raises_pyval [raises_intros]:
  "raises S a \<Longrightarrow> (\<And>x. raises S (b x)) \<Longrightarrow> (\<And>x. raises S (c x)) \<Longrightarrow> (\<And>x. raises S (d x)) \<Longrightarrow>
   (\<And>x. raises S (e x)) \<Longrightarrow> (\<And>x. raises S (f x)) \<Longrightarrow> (\<And>x. raises S (g x)) \<Longrightarrow> raises S (case_pyval a b c d e f g v)"
  by (cases v) auto

lemma raises_catch: "raises S m \<Longrightarrow> (\<And>e. S e \<Longrightarrow> raises T (h e)) \<Longrightarrow> raises T (st_catch m h)"
  by (fastforce simp: raises_def st_catch_def split: prod.splits sum.splits)

lemma raises_any: "raises (\<lambda>_. True) m"
  by (simp add: raises_def)

lemma raises_caught [raises_intros]: "(\<And>e. raises S (h e)) \<Longrightarrow> raises S (st_catch m h)"
  by (rule raises_catch [OF raises_any])

lemma raises_finally [raises_intros]: "raises S m \<Longrightarrow> raises S f \<Longrightarrow> raises S (st_finally m f)"
  by (fastforce simp: raises_def st_finally_def split: prod.splits sum.splits)

lemma raises_mono: "raises S m \<Longrightarrow> (\<And>e. S e \<Longrightarrow> T e) \<Longrightarrow> raises T m"
  by (auto simp: raises_def)

lemma raises_wop [raises_intros]: "raises S m \<Longrightarrow> raises S (wop m)"
  by (fastforce simp: raises_def wop_def split: prod.splits)

lemma silent_returns: "raises silent m \<Longrightarrow> \<exists>x t. m s = (Inr x, t)"
  by (cases "m s"; cases "fst (m s)") (auto simp: raises_def)

section \<open>Well-behaved environments\<close>

text \<open>Everything but the failure of the evidence boundary is turned into a failed step.\<close>

definition ordinary :: "eexn \<Rightarrow> bool" where
  "ordinary e \<longleftrightarrow> (case e of EvidenceBoundaryError _ _ \<Rightarrow> False | _ \<Rightarrow> True)"

lemma ordinary_simps [simp]:
  "ordinary (EngineError c m)" "ordinary (ConditionError c m)" "ordinary (OtherError n c' m)"
  "\<not> ordinary (EvidenceBoundaryError c m)"
  by (simp_all add: ordinary_def)

text \<open>
  The event sink and the fixture state do not raise, and no action of the fixture or the target
  reports a failure of the evidence boundary.  They may raise anything else, and \<^verbatim>\<open>begin\<close>, \<^verbatim>\<open>interrupt\<close>,
  \<^verbatim>\<open>close\<close> and the cancellation probe anything at all.
\<close>

definition orderly :: "'w ports \<Rightarrow> bool" where
  "orderly P \<longleftrightarrow> raises silent (pt_state P) \<and> (\<forall>sink e. pt_sink P = Some sink \<longrightarrow> raises silent (sink e)) \<and>
     raises ordinary (pt_snapshot P) \<and> (\<forall>t a m. raises ordinary (pt_tool P t a m)) \<and>
     (\<forall>e p. raises ordinary (pt_apply_event P e p)) \<and> (\<forall>m d. raises ordinary (pt_send P m d))"

text \<open>Compilation and evaluation raise only condition errors and programming errors.\<close>

lemma build_ordinary:
  "build roots d m depth c n = Inl e \<Longrightarrow> ordinary e"
  "build_all roots d m depth' cs n' = Inl e \<Longrightarrow> ordinary e"
  by (induction roots d m depth c n and roots d m depth' cs n' arbitrary: e and e rule: build_build_all.induct)
    (auto simp: compile_path_def Let_def split: if_splits option.splits sum.splits prod.splits)

lemma compile_ordinary: "compile_condition c = Inl e \<Longrightarrow> ordinary e"
  unfolding compile_condition_def compile_condition_with_def map_sum_Inl_iff by (rule build_ordinary(1))

lemma evaluate_ordinary:
  "evaluate_condition k ctx = Inl e \<Longrightarrow> ordinary e"
  "evaluate_all ks ctx = Inl e \<Longrightarrow> ordinary e"
  by (induction k ctx and ks ctx arbitrary: e and e rule: evaluate_condition_evaluate_all.induct)
    (auto simp: evaluate_leaf_def list_value_def split: if_splits option.splits sum.splits list.splits pyval.splits)

section \<open>The operations of the engine\<close>

lemma raises_clock [raises_intros]: "raises S (clock_now P)"
  by (simp add: raises_def clock_now_def wop_def split: prod.splits)

lemma raises_remaining [raises_intros]: "raises S (remaining_seconds P)"
  unfolding remaining_seconds_def by (intro raises_intros)

lemma raises_cancelled [raises_intros]: "raises S (cancelled P)"
  unfolding cancelled_def by (intro raises_intros)

lemma raises_budget_stop [raises_intros]: "raises S (budget_stop P cfg k)"
  unfolding budget_stop_def by (intro raises_intros)

lemma raises_emit [raises_intros]: "orderly P \<Longrightarrow> raises S (emit P cfg t p)"
  unfolding emit_def by (intro raises_intros) (auto simp: orderly_def raises_def)

lemma raises_context [raises_intros]: "orderly P \<Longrightarrow> raises S (eval_context P)"
  unfolding eval_context_def by (intro raises_intros) (auto simp: orderly_def raises_def)

lemma raises_evaluate_one: "orderly P \<Longrightarrow> raises ordinary (evaluate_one P k)"
  unfolding evaluate_one_def
  by (rule raises_catch [where S = ordinary]) (auto intro!: raises_intros dest: evaluate_ordinary split: eexn.splits)

lemma raises_evaluate [raises_intros]: "orderly P \<Longrightarrow> raises ordinary (evaluate P cs)"
  by (induction cs) (auto intro!: raises_intros raises_evaluate_one dest: compile_ordinary)

lemma raises_check_assertions [raises_intros]: "orderly P \<Longrightarrow> raises ordinary (check_assertions P step f)"
  unfolding check_assertions_def by (intro raises_intros)

lemma raises_interrupt [raises_intros]: "orderly P \<Longrightarrow> raises S (interrupt_target P cfg r)"
  unfolding interrupt_target_def Let_def by (intro raises_intros)

lemma raises_timeout [raises_intros]: "orderly P \<Longrightarrow> raises S (timeout_outcome P cfg sid)"
  unfolding timeout_outcome_def by (intro raises_intros)

lemma raises_overrun [raises_intros]: "orderly P \<Longrightarrow> raises S (deadline_overrun P cfg step d)"
  unfolding deadline_overrun_def Let_def by (intro raises_intros)

lemma raises_expired [raises_intros]: "orderly P \<Longrightarrow> raises S (expired P cfg step)"
  unfolding expired_def by (intro raises_intros)

lemma raises_step_deadline [raises_intros]: "raises S (step_deadline P step)"
  unfolding step_deadline_def by (intro raises_intros)

lemma raises_ports [raises_intros]:
  "orderly P \<Longrightarrow> raises ordinary (pt_snapshot P)" "orderly P \<Longrightarrow> raises ordinary (pt_tool P t a m)"
  "orderly P \<Longrightarrow> raises ordinary (pt_apply_event P e p)" "orderly P \<Longrightarrow> raises ordinary (pt_send P msg d)"
  by (simp_all add: orderly_def)

lemma raises_resolve [raises_intros]: "raises ordinary (resolve_message sid m r)"
  unfolding resolve_message_def by (intro raises_intros) simp

lemma raises_after_send [raises_intros]: "orderly P \<Longrightarrow> raises ordinary (after_send P cfg step d r)"
  unfolding after_send_def Let_def by (intro raises_intros)

lemma raises_leaf: "orderly P \<Longrightarrow> raises ordinary (dispatch_leaf P cfg step d)"
  by (cases step) (auto simp: dispatch_leaf_def dispatch_send_def dispatch_tool_def dispatch_event_def
      dispatch_checkpoint_def dispatch_assert_def intro!: raises_intros)

lemma raises_container_result [raises_intros]: "raises S (container_result rows)"
  unfolding container_result_def by (intro raises_intros)

lemma raises_branch:
  assumes "orderly P" "raises silent m1" "raises silent m2"
  shows "raises ordinary (dispatch_branch P cfg step c m1 m2)"
  unfolding dispatch_branch_def
  by (intro raises_intros assms raises_mono [OF assms(2)] raises_mono [OF assms(3)])
    (auto dest: compile_ordinary evaluate_ordinary)

lemma raises_loop_until [raises_intros]: "orderly P \<Longrightarrow> raises ordinary (loop_until P u)"
  unfolding loop_until_def by (intro raises_intros) (auto dest: compile_ordinary evaluate_ordinary)

lemma raises_loop:
  assumes "orderly P" "raises silent body"
  shows "raises ordinary (dispatch_loop P cfg step n u body)"
proof -
  have "raises ordinary (loop_iterations P cfg step u body k i rows)" for k i rows
  proof (induction k arbitrary: i rows)
    case (Suc k)
    show ?case unfolding loop_iterations.simps
      by (intro raises_intros assms(1) Suc.IH raises_mono [OF assms(2)]) simp
  qed (simp add: raises_return)
  then show ?thesis unfolding dispatch_loop_def by (intro raises_intros)
qed

lemma raises_guarded: "raises ordinary m \<Longrightarrow> raises silent (guarded m)"
  unfolding guarded_def
  by (erule raises_catch) (auto simp: ordinary_def intro!: raises_intros split: eexn.splits)

lemma raises_step:
  assumes "orderly P" "\<And>d. raises ordinary (action d)"
  shows "raises silent (step_frame P cfg depth step action)"
  unfolding step_frame_def admitted_step_def announce_step_def execute_step_def record_step_def handle_failure_def Let_def
  by (intro raises_intros assms raises_guarded)

lemma raises_run:
  "orderly P \<Longrightarrow> raises silent (run_step P cfg depth step)"
  "orderly P \<Longrightarrow> raises silent (run_sequence P cfg depth steps)"
proof (induction P cfg depth step and P cfg depth steps rule: run_step_run_sequence.induct)
  case (9 P cfg depth s ss)
  then show ?case unfolding run_sequence.simps by (intro raises_intros) auto
qed (auto intro!: raises_step raises_branch raises_loop raises_leaf raises_return)

section \<open>The run\<close>

text \<open>The completion assertions are evaluated outside of any step.\<close>

lemma silent_evaluate:
  assumes "orderly P" "\<And>c. c \<in> set cs \<Longrightarrow> condition_ok c \<and> (\<exists>k. compile_condition c = Inr k)"
  shows "raises silent (evaluate P cs)"
  using assms(2)
proof (induction cs)
  case (Cons c cs)
  then obtain k where k: "compile_condition c = Inr k" "condition_ok c" by auto
  then have "k = compiled_of c" by (simp add: compile_condition_Inr)
  then have only: "\<exists>m. e = ConditionError ''CONDITION_PATH_MISSING'' m" if "evaluate_condition k ctx = Inl e" for ctx e
    using that evaluate_condition_spec [OF k(2), of ctx] by (auto simp: evaluates_def)
  have "raises silent (evaluate_one P k)"
    unfolding evaluate_one_def
  proof (rule raises_catch [where S = "\<lambda>e. \<exists>m. e = ConditionError ''CONDITION_PATH_MISSING'' m"])
    show "raises (\<lambda>e. \<exists>m. e = ConditionError ''CONDITION_PATH_MISSING'' m)
       (st_bind (eval_context P) (\<lambda>ctx. st_bind (st_lift (evaluate_condition k ctx)) (\<lambda>out.
          st_return (outcome_row out, co_satisfied out))))"
      by (intro raises_intros assms(1) only)
  qed (auto intro!: raises_intros)
  then have "raises silent (st_bind (evaluate_one P k) (\<lambda>(row, ok).
     st_bind (evaluate P cs) (\<lambda>(rows, oks). st_return (row # rows, ok \<and> oks))))"
    using Cons by (intro raises_intros) auto
  with k(1) show ?case by (simp add: raises_def st_bind_def sop_simps)
qed (simp add: raises_return)

definition completion_ok :: "config \<Rightarrow> bool" where
  "completion_ok cfg \<longleftrightarrow> (\<forall>c\<in>set (wf_completion (cf_workflow cfg)). condition_ok c \<and> (\<exists>k. compile_condition c = Inr k))"

lemma raises_outcome:
  assumes "orderly P" "completion_ok cfg"
  shows "raises silent (outcome P cfg t)"
proof -
  have "raises silent (evaluate P (wf_completion (cf_workflow cfg)))"
    using assms by (intro silent_evaluate) (auto simp: completion_ok_def)
  moreover have "raises silent (pt_state P)" using assms(1) by (simp add: orderly_def)
  ultimately show ?thesis
    unfolding outcome_def completion_verdict_def by (intro raises_intros assms(1))
qed

lemma raises_engine:
  assumes "orderly P" "completion_ok cfg"
  shows "raises silent (run_engine P cfg)"
  unfolding run_engine_def begin_target_def close_target_def
  by (intro raises_intros raises_outcome raises_run assms)

lemma workflow_returns:
  "orderly P \<Longrightarrow> completion_ok cfg \<Longrightarrow> \<exists>oc s. run_workflow P cfg w = (Inr oc, s)"
  unfolding run_workflow_def by (rule silent_returns [OF raises_engine])

text \<open>A workflow the compiler accepted has completion assertions that compile.\<close>

lemma completion_conditions:
  "c \<in> set (wf_completion w) \<Longrightarrow> \<exists>sid tag. (sid, tag, c) \<in> set (iter_conditions w)"
proof -
  assume "c \<in> set (wf_completion w)"
  then have "c \<in> snd ` set (enumerate 0 (wf_completion w))"
    by (metis list.set_map map_snd_enumerate)
  then show ?thesis unfolding iter_conditions_def by fastforce
qed

lemma compiled_completion_ok:
  assumes "compile_workflow hash store draft (cf_workflow cfg) = Inr cw"
    and "\<And>c. c \<in> set (wf_completion (cf_workflow cfg)) \<Longrightarrow> condition_ok c"
  shows "completion_ok cfg"
  using compile_workflow_conditions [OF assms(1)] assms(2) completion_conditions
  unfolding completion_ok_def by blast

end
