(* ===== verification/Engine_Isolation.thy ===== *)
theory Engine_Isolation
  imports Engine_Safety
begin

text \<open>
  The evidence-only mode: after a failure under \<^verbatim>\<open>continue_for_evidence\<close> the engine goes on, but nothing
  it does from then on can change the target or the fixture.  The statement is a non-interference
  property: replacing \<^verbatim>\<open>send\<close>, \<^verbatim>\<open>apply_event\<close> and every tool that is not denied by arbitrary other
  operations makes no difference to the rest of the run.
\<close>

section \<open>Equality of operations on a set of states\<close>

definition eqon :: "('s \<Rightarrow> bool) \<Rightarrow> ('s, 'e, 'a) sop \<Rightarrow> ('s, 'e, 'a) sop \<Rightarrow> bool" where
  "eqon I m m' \<longleftrightarrow> keeps I m \<and> (\<forall>s. I s \<longrightarrow> m s = m' s)"

lemma eqon_refl: "keeps I m \<Longrightarrow> eqon I m m"
  by (simp add: eqon_def)

lemma eqon_bind: "eqon I m m' \<Longrightarrow> (\<And>x. eqon I (f x) (f' x)) \<Longrightarrow> eqon I (st_bind m f) (st_bind m' f')"
  unfolding eqon_def keeps_def st_bind_def by (fastforce split: prod.splits sum.splits)

lemma eqon_catch: "eqon I m m' \<Longrightarrow> (\<And>e. eqon I (h e) (h' e)) \<Longrightarrow> eqon I (st_catch m h) (st_catch m' h')"
  unfolding eqon_def keeps_def st_catch_def by (fastforce split: prod.splits sum.splits)

lemma eqon_if: "(b \<Longrightarrow> eqon I m m') \<Longrightarrow> (\<not> b \<Longrightarrow> eqon I n n') \<Longrightarrow> eqon I (if b then m else n) (if b then m' else n')"
  by simp

lemma eqon_option:
  "(v = None \<Longrightarrow> eqon I m m') \<Longrightarrow> (\<And>x. v = Some x \<Longrightarrow> eqon I (f x) (f' x)) \<Longrightarrow>
   eqon I (case v of None \<Rightarrow> m | Some x \<Rightarrow> f x) (case v of None \<Rightarrow> m' | Some x \<Rightarrow> f' x)"
  by (cases v) auto

lemma eqon_prod: "(\<And>a b. eqon I (f a b) (f' a b)) \<Longrightarrow> eqon I (case_prod f v) (case_prod f' v)"
  by (cases v) auto

section \<open>Environments that agree on what is read-only\<close>

definition swap_effects ::
    "(string \<Rightarrow> rat \<Rightarrow> 'w \<Rightarrow> (eexn + pyval) \<times> 'w) \<Rightarrow> (string \<Rightarrow> pydict \<Rightarrow> 'w \<Rightarrow> (eexn + pyval) \<times> 'w)
     \<Rightarrow> (string \<Rightarrow> pydict \<Rightarrow> string \<Rightarrow> 'w \<Rightarrow> (eexn + pyval) \<times> 'w) \<Rightarrow> 'w ports \<Rightarrow> 'w ports" where
  "swap_effects send event tool P = P\<lparr>pt_send := send, pt_apply_event := event,
     pt_tool := (\<lambda>t a m. if m = ''deny'' then pt_tool P t a m else tool t a m)\<rparr>"

lemma swap_ports [simp]:
  "pt_now (swap_effects f g h P) = pt_now P" "pt_cancel (swap_effects f g h P) = pt_cancel P"
  "pt_sink (swap_effects f g h P) = pt_sink P" "pt_state (swap_effects f g h P) = pt_state P"
  "pt_snapshot (swap_effects f g h P) = pt_snapshot P" "pt_interrupt (swap_effects f g h P) = pt_interrupt P"
  "pt_tool (swap_effects f g h P) t a ''deny'' = pt_tool P t a ''deny''"
  by (simp_all add: swap_effects_def)

lemma swap_operations [simp]:
  "clock_now (swap_effects f g h P) = clock_now P"
  "remaining_seconds (swap_effects f g h P) = remaining_seconds P"
  "cancelled (swap_effects f g h P) = cancelled P"
  "emit (swap_effects f g h P) cfg t p = emit P cfg t p"
  "budget_stop (swap_effects f g h P) cfg k = budget_stop P cfg k"
  "eval_context (swap_effects f g h P) = eval_context P"
  "evaluate_one (swap_effects f g h P) c = evaluate_one P c"
  "interrupt_target (swap_effects f g h P) cfg r = interrupt_target P cfg r"
  "timeout_outcome (swap_effects f g h P) cfg sid = timeout_outcome P cfg sid"
  "deadline_overrun (swap_effects f g h P) cfg step d = deadline_overrun P cfg step d"
  "step_deadline (swap_effects f g h P) step = step_deadline P step"
  "loop_until (swap_effects f g h P) u = loop_until P u"
  "expired (swap_effects f g h P) cfg step = expired P cfg step"
  unfolding clock_now_def remaining_seconds_def cancelled_def emit_def budget_stop_def eval_context_def
    evaluate_one_def interrupt_target_def timeout_outcome_def deadline_overrun_def step_deadline_def loop_until_def
    expired_def swap_ports
  by (rule refl)+

lemma swap_evaluate [simp]: "evaluate (swap_effects f g h P) cs = evaluate P cs"
  by (induction cs) simp_all

text \<open>The actions that remain allowed do not notice the replacement.\<close>

lemma swap_check_assertions [simp]: "check_assertions (swap_effects f g h P) step m = check_assertions P step m"
  by (simp add: check_assertions_def)

lemma swap_denied_tool:
  "dispatch_tool (swap_effects f g h P) cfg step t a ''deny'' d = dispatch_tool P cfg step t a ''deny'' d"
  unfolding dispatch_tool_def swap_operations swap_ports swap_check_assertions by (rule refl)

lemma swap_leaf:
  "\<not> has_side_effect step \<Longrightarrow> dispatch_leaf (swap_effects f g h P) cfg step d = dispatch_leaf P cfg step d"
  by (cases step) (simp_all add: dispatch_leaf_def swap_denied_tool dispatch_checkpoint_def dispatch_assert_def)

section \<open>The mode persists\<close>

lemma evidence_only_quiet [keeps_intros]: "quiet P eg_evidence_only"
  by (simp add: quiet_def free_frame)

lemma evidence_only_record [keeps_intros]: "keeps eg_evidence_only (record_step n step st d dt a du)"
  unfolding record_step_def by (rule keeps_modify) simp

lemma evidence_only_failure [keeps_intros]: "keeps eg_evidence_only (handle_failure cfg step d)"
  by (rule quiet_handle_failure [OF evidence_only_quiet]) simp

lemma evidence_only_leaf [keeps_intros]: "keeps eg_evidence_only (dispatch_leaf P cfg step d)"
  by (rule quiet_leaf [OF evidence_only_quiet]) simp_all

section \<open>Non-interference\<close>

lemma isolated_guarded: "eqon eg_evidence_only m m' \<Longrightarrow> eqon eg_evidence_only (guarded m) (guarded m')"
  unfolding guarded_def by (rule eqon_catch) (auto intro!: eqon_refl keeps_intros)

lemma isolated_execute:
  "eqon eg_evidence_only m m' \<Longrightarrow> eqon eg_evidence_only (execute_step P cfg depth step n started m)
     (execute_step (swap_effects f g h P) cfg depth step n started m')"
  unfolding execute_step_def swap_operations
  by (intro eqon_bind isolated_guarded eqon_prod eqon_refl) (auto simp: Let_def intro!: keeps_intros)

lemma isolated_announce:
  assumes "\<not> has_side_effect step \<Longrightarrow> (\<And>d. eqon eg_evidence_only (action d) (action' d))"
  shows "eqon eg_evidence_only (announce_step P cfg depth step action n)
     (announce_step (swap_effects f g h P) cfg depth step action' n)"
proof -
  have branch: "eqon eg_evidence_only
      (st_bind (st_get eg_evidence_only) (\<lambda>eo. if eo \<and> has_side_effect step then r
         else execute_step P cfg depth step n started (action d)))
      (st_bind (st_get eg_evidence_only) (\<lambda>eo. if eo \<and> has_side_effect step then r
         else execute_step (swap_effects f g h P) cfg depth step n started (action' d)))"
    if "keeps eg_evidence_only r" for r :: "('a, unit) eop" and started d
  proof (cases "has_side_effect step")
    case True
    with that show ?thesis by (simp add: eqon_def keeps_def st_bind_def sop_simps)
  next
    case False
    have "eqon eg_evidence_only (execute_step P cfg depth step n started (action d))
        (execute_step (swap_effects f g h P) cfg depth step n started (action' d))"
      by (rule isolated_execute [OF assms [OF False]])
    then show ?thesis using False by (auto intro!: eqon_bind eqon_refl keeps_get)
  qed
  show ?thesis
    unfolding announce_step_def swap_operations
    by (intro eqon_bind branch eqon_refl keeps_intros)
qed

lemma isolated_frame:
  assumes "\<not> has_side_effect step \<Longrightarrow> (\<And>d. eqon eg_evidence_only (action d) (action' d))"
  shows "eqon eg_evidence_only (step_frame P cfg depth step action)
     (step_frame (swap_effects f g h P) cfg depth step action')"
proof -
  have set: "eqon eg_evidence_only (st_modify u) (st_modify u)" if "\<And>s. eg_evidence_only (u s) = eg_evidence_only s" for u
    by (rule eqon_refl, rule keeps_modify) (simp add: that)
  show ?thesis
    unfolding step_frame_def admitted_step_def swap_operations
    by (intro eqon_bind eqon_option eqon_prod set isolated_announce assms; (intro eqon_refl keeps_intros)?; simp)
qed

lemma isolated_loop:
  assumes "eqon eg_evidence_only m m'"
  shows "eqon eg_evidence_only (dispatch_loop P cfg step n u m) (dispatch_loop (swap_effects f g h P) cfg step n u m')"
proof -
  have "eqon eg_evidence_only (loop_iterations P cfg step u m k i rows)
      (loop_iterations (swap_effects f g h P) cfg step u m' k i rows)" for k i rows
  proof (induction k arbitrary: i rows)
    case (Suc k)
    show ?case unfolding loop_iterations.simps swap_operations
      by (intro eqon_bind eqon_if eqon_option assms Suc.IH; (intro eqon_refl keeps_intros)?; simp)
  qed (simp add: eqon_refl keeps_return)
  then show ?thesis
    unfolding dispatch_loop_def by (intro eqon_bind eqon_refl keeps_intros)
qed

lemma isolated_branch:
  assumes "eqon eg_evidence_only m1 m1'" "eqon eg_evidence_only m2 m2'"
  shows "eqon eg_evidence_only (dispatch_branch P cfg step c m1 m2)
    (dispatch_branch (swap_effects f g h P) cfg step c m1' m2')"
  unfolding dispatch_branch_def swap_operations
  by (intro eqon_bind eqon_if assms; (intro eqon_refl keeps_intros)?; simp)

lemma isolated_leaf:
  "\<not> has_side_effect step \<Longrightarrow> eqon eg_evidence_only (dispatch_leaf P cfg step d) (dispatch_leaf (swap_effects f g h P) cfg step d)"
  by (simp add: swap_leaf eqon_refl evidence_only_leaf)

lemma isolated_run:
  "eqon eg_evidence_only (run_step P cfg depth step) (run_step (swap_effects f g h P) cfg depth step)"
  "eqon eg_evidence_only (run_sequence P cfg depth steps) (run_sequence (swap_effects f g h P) cfg depth steps)"
proof (induction P cfg depth step and P cfg depth steps rule: run_step_run_sequence.induct)
  case (9 P cfg depth s ss)
  show ?case unfolding run_sequence.simps by (intro eqon_bind eqon_if 9 eqon_refl keeps_intros)
qed (auto intro!: isolated_frame isolated_branch isolated_loop isolated_leaf intro: eqon_refl keeps_return)

lemma evidence_only_isolated:
  "eg_evidence_only s \<Longrightarrow> run_sequence (swap_effects send event tool P) cfg depth steps s = run_sequence P cfg depth steps s"
  using isolated_run(2) [of P cfg depth steps send event tool] by (simp add: eqon_def)

end
