(* ===== verification/Engine_Metering.thy ===== *)
theory Engine_Metering
  imports Engine_Safety
begin

text \<open>
  The counters of the engine count what it really does.  A meter is a pair of numbers in the world, one that
  goes up with every message sent to the target and one that goes up with every tool call, whatever the
  ports answer; the engine never does more of either than its counters say.
\<close>

section \<open>Meters\<close>

definition metered :: "'w ports \<Rightarrow> ('w \<Rightarrow> int) \<Rightarrow> ('w \<Rightarrow> int) \<Rightarrow> bool" where
  "metered P sent called \<longleftrightarrow>
     (\<forall>msg deadline w. sent (snd (pt_send P msg deadline w)) = sent w + 1 \<and> called (snd (pt_send P msg deadline w)) = called w) \<and>
     (\<forall>tool arguments mode w. called (snd (pt_tool P tool arguments mode w)) = called w + 1 \<and>
        sent (snd (pt_tool P tool arguments mode w)) = sent w) \<and>
     (\<forall>w w'. side_port P w w' \<longrightarrow> sent w' = sent w \<and> called w' = called w)"

text \<open>Any ports can be metered: the world is paired with the two numbers.\<close>

definition on_fst :: "('w \<Rightarrow> 'a \<times> 'w) \<Rightarrow> 'w \<times> int \<times> int \<Rightarrow> 'a \<times> 'w \<times> int \<times> int" where
  "on_fst m w = (case m (fst w) of (x, w') \<Rightarrow> (x, w', snd w))"

definition counted :: "'w ports \<Rightarrow> ('w \<times> int \<times> int) ports" where
  "counted P = \<lparr>pt_now = on_fst (pt_now P), pt_cancel = map_option on_fst (pt_cancel P),
     pt_sink = map_option (\<lambda>sink e. on_fst (sink e)) (pt_sink P), pt_state = on_fst (pt_state P),
     pt_snapshot = on_fst (pt_snapshot P),
     pt_tool = (\<lambda>tool arguments mode (w, n, k). on_fst (pt_tool P tool arguments mode) (w, n, k + 1)),
     pt_apply_event = (\<lambda>event payload. on_fst (pt_apply_event P event payload)), pt_begin = on_fst (pt_begin P),
     pt_send = (\<lambda>msg deadline (w, n, k). on_fst (pt_send P msg deadline) (w, n + 1, k)),
     pt_interrupt = (\<lambda>reason. on_fst (pt_interrupt P reason)), pt_close = on_fst (pt_close P)\<rparr>"

lemma snd_on_fst: "snd (snd (on_fst m w)) = snd w"
  by (simp add: on_fst_def split: prod.split)

lemma counted_side: "side_port (counted P) w w' \<Longrightarrow> snd w' = snd w"
  by (auto simp: side_port_def counted_def snd_on_fst)

lemma counted_calls:
  "snd (snd (pt_send (counted P) msg deadline w)) = (fst (snd w) + 1, snd (snd w))"
  "snd (snd (pt_tool (counted P) tool arguments mode w)) = (fst (snd w), snd (snd w) + 1)"
  by (simp_all add: counted_def snd_on_fst split: prod.split)

lemma counted_metered: "metered (counted P) (fst \<circ> snd) (snd \<circ> snd)"
  by (auto simp: metered_def counted_calls dest!: counted_side)

lemma meteredD:
  assumes "metered P sent called"
  shows "pt_send P msg deadline w = (r, w') \<Longrightarrow> sent w' = sent w + 1 \<and> called w' = called w"
    "pt_tool P tool arguments mode w = (r, w') \<Longrightarrow> called w' = called w + 1 \<and> sent w' = sent w"
    "side_port P w w' \<Longrightarrow> sent w' = sent w \<and> called w' = called w"
proof -
  show "pt_send P msg deadline w = (r, w') \<Longrightarrow> sent w' = sent w + 1 \<and> called w' = called w"
    using assms unfolding metered_def by (metis snd_conv)
  show "pt_tool P tool arguments mode w = (r, w') \<Longrightarrow> called w' = called w + 1 \<and> sent w' = sent w"
    using assms unfolding metered_def by (metis snd_conv)
  show "side_port P w w' \<Longrightarrow> sent w' = sent w \<and> called w' = called w"
    using assms unfolding metered_def by blast
qed

section \<open>The engine under a meter\<close>

text \<open>\<open>n\<close> messages and \<open>k\<close> tool calls may still be made before the counters have to move.\<close>

definition covered :: "('w \<Rightarrow> int) \<Rightarrow> ('w \<Rightarrow> int) \<Rightarrow> int \<Rightarrow> int \<Rightarrow> 'w eng \<Rightarrow> bool" where
  "covered sent called n k s \<longleftrightarrow> sent (eg_world s) + n \<le> eg_turns s \<and> called (eg_world s) + k \<le> eg_tool_calls s"

lemma covered_mono: "covered sent called n k s \<Longrightarrow> n' \<le> n \<Longrightarrow> k' \<le> k \<Longrightarrow> covered sent called n' k' s"
  by (auto simp: covered_def)

lemma covered_quiet:
  assumes "metered P sent called"
  shows "quiet P (covered sent called n k)"
  by (auto simp: quiet_def frame_def covered_def dest: meteredD(3) [OF assms])

lemma covered_send:
  assumes "metered P sent called"
  shows "keeps (covered sent called n k) (dispatch_send P cfg step message reference deadline)" (is "keeps ?Q _")
proof -
  note q = covered_quiet [OF assms]
  note fr = quiet_frame [OF q]
  have later: "covered sent called (n + 1) k s \<Longrightarrow> ?Q s" for s
    by (erule covered_mono) simp_all
  have send: "triple (covered sent called (n + 1) k) (wop (pt_send P msg deadline)) (\<lambda>_. ?Q) ?Q" for msg
    by (auto simp: triple_def wop_def covered_def split: prod.splits sum.splits dest: meteredD(1,2) [OF assms])
  have rest: "keeps ?Q (case answer of PDict result \<Rightarrow>
           st_bind (st_modify (\<lambda>s. s\<lparr>eg_step_results := g result s\<rparr>)) (\<lambda>_. after_send P cfg step deadline result)
       | _ \<Rightarrow> st_raise e)" for answer g e
    by (intro keeps_intros q; simp add: quiet_updates [OF q])
  show ?thesis
    unfolding dispatch_send_def triple_keeps
    by (intro triple_first [OF keeps_resolve_message] triple_set [where R = "covered sent called (n + 1) k"]
        triple_first [OF keeps_get later] triple_first [OF keeps_remaining [OF fr] later] triple_first [OF keeps_emit [OF fr] later]
        triple_bind [OF send] triple_kept [OF rest])
      (auto simp: covered_def)
qed

lemma covered_tool:
  assumes "metered P sent called"
  shows "keeps (covered sent called n k) (dispatch_tool P cfg step tool arguments mode deadline)" (is "keeps ?Q _")
proof -
  note q = covered_quiet [OF assms]
  note fr = quiet_frame [OF q]
  have later: "covered sent called n (k + 1) s \<Longrightarrow> ?Q s" for s
    by (erule covered_mono) simp_all
  have call: "triple (covered sent called n (k + 1)) (wop (pt_tool P tool arguments mode)) (\<lambda>_. ?Q) ?Q"
    by (auto simp: triple_def wop_def covered_def split: prod.splits sum.splits dest: meteredD(1,2) [OF assms])
  have rest: "keeps ?Q (st_bind (st_modify (\<lambda>s. s\<lparr>eg_tool_results := g s, eg_step_results := h s\<rparr>)) (\<lambda>_.
      st_bind (deadline_overrun P cfg step deadline) (\<lambda>overrun. if overrun \<noteq> None then st_return (f overrun)
        else check_assertions P step failure)))" for f g h failure
    by (intro keeps_intros q; simp add: quiet_updates [OF q])
  show ?thesis
    unfolding dispatch_tool_def triple_keeps
    by (intro triple_first [OF keeps_clock [OF fr]] triple_if triple_kept [OF quiet_expired [OF q]]
        triple_set [where R = "covered sent called n (k + 1)"] triple_first [OF keeps_remaining [OF fr] later]
        triple_first [OF keeps_emit [OF fr] later] triple_bind [OF call] triple_kept [OF rest])
      (auto simp: covered_def)
qed

lemma covered_leaf:
  assumes "metered P sent called"
  shows "keeps (covered sent called n k) (dispatch_leaf P cfg step deadline)"
  unfolding dispatch_leaf_def
  by (cases step) (auto intro!: covered_send covered_tool quiet_checkpoint quiet_event keeps_dispatch_assert
      quiet_frame covered_quiet assms)

lemma covered_frame:
  assumes "metered P sent called" "\<And>d. keeps (covered sent called n k) (action d)"
  shows "keeps (covered sent called n k) (step_frame P cfg depth step action)"
proof -
  note q = covered_quiet [OF assms(1)]
  have "keeps (covered sent called n k) (handle_failure cfg step d)" for d
    by (rule quiet_handle_failure [OF q]) (simp add: covered_def)
  then show ?thesis
    unfolding step_frame_def admitted_step_def announce_step_def execute_step_def guarded_def record_step_def Let_def
    by (intro keeps_intros assms(2) q; simp add: covered_def)
qed

lemma covered_run:
  assumes "metered P sent called"
  shows "keeps (covered sent called n k) (run_step P cfg depth step)"
    "keeps (covered sent called n k) (run_sequence P cfg depth steps)"
  using assms
proof (induction P cfg depth step and P cfg depth steps rule: run_step_run_sequence.induct)
  case (9 P cfg depth s ss)
  then show ?case unfolding run_sequence.simps by (intro keeps_intros; simp)
qed (auto intro!: covered_frame quiet_branch quiet_loop covered_quiet covered_leaf keeps_return)

lemma covered_engine:
  assumes "metered P sent called"
  shows "keeps (covered sent called n k) (run_engine P cfg)"
  unfolding run_engine_def
  by (intro keeps_intros covered_run [OF assms] covered_quiet [OF assms]; simp add: covered_def)

lemma workflow_metered:
  assumes "metered P sent called" "run_workflow P cfg w = (r, s)"
  shows "sent (eg_world s) - sent w \<le> eg_turns s \<and> called (eg_world s) - called w \<le> eg_tool_calls s"
proof -
  have "side_port P w (snd (pt_now P w))" by (simp add: side_port_def)
  then have "covered sent called (- sent w) (- called w) (engine_start P cfg w)"
    by (auto simp: covered_def engine_start_def split: prod.split dest!: meteredD(3) [OF assms(1)])
  from keepsD [OF covered_engine [OF assms(1)] this, of cfg] assms(2) show ?thesis
    by (simp add: run_workflow_def covered_def)
qed

end
