(* ===== verification/Scenario_Example.thy ===== *)
theory Scenario_Example
  imports Engine_Progress Engine_Isolation Engine_Metering
begin

text \<open>
  A concrete workflow (one message, one assertion on its answer, one completion assertion) and a
  concrete environment, on which the properties of the engine are instantiated.
\<close>

definition demo_step :: "string \<Rightarrow> condition list \<Rightarrow> step_base" where
  "demo_step sid cs = \<lparr>sb_id = sid, sb_timeout = None, sb_assertions = cs, sb_policy = ''stop_case''\<rparr>"

definition demo_workflow :: workflow_version where
  "demo_workflow = \<lparr>wf_id = ''w'', wf_version = ''1'', wf_schema = 1, wf_fixtures = [],
     wf_target = \<lparr>tr_multi_turn = True, tr_min_turns = 1, tr_required_tools = [], tr_tool_modes = [''real''],
       tr_interrupt = False, tr_skill_injection = False, tr_evidence = [''events'']\<rparr>,
     wf_steps = [SendMessage (demo_step ''ask'' []) ''hello'' None,
       AssertStep (demo_step ''check'' [Condition ''eq'' (Some ''step_results.ask.output'') (PStr ''ok'') []])],
     wf_completion = [Condition ''exists'' (Some ''state.ready'') PNone []],
     wf_limits = \<lparr>lm_total = 10, lm_turns = 2, lm_wall = 60\<rparr>, wf_policy = ''stop_case'', wf_lifecycle = ''published'',
     wf_hash = None\<rparr>"

definition demo_config :: config where
  "demo_config = \<lparr>cf_workflow = demo_workflow, cf_run = Some ''r'', cf_case = Some ''c'', cf_attempt = None\<rparr>"

text \<open>The world counts the messages sent.\<close>

definition demo_ports :: "nat ports" where
  "demo_ports = \<lparr>pt_now = (\<lambda>w. (0, w)), pt_cancel = None, pt_sink = None,
     pt_state = (\<lambda>w. (Inr [(''ready'', PBool True)], w)), pt_snapshot = (\<lambda>w. (Inr ([], ''h''), w)),
     pt_tool = (\<lambda>_ _ _ w. (Inr PNone, w)), pt_apply_event = (\<lambda>_ _ w. (Inr PNone, w)),
     pt_begin = (\<lambda>w. (Inr PNone, w)), pt_send = (\<lambda>_ _ w. (Inr (PDict [(''output'', PStr ''ok'')]), Suc w)),
     pt_interrupt = (\<lambda>_ w. (Inr PNone, w)), pt_close = (\<lambda>w. (Inr PNone, w))\<rparr>"

lemma demo_run:
  "run_workflow demo_ports demo_config 0 = (Inr (projr (fst (run_workflow demo_ports demo_config 0))),
     snd (run_workflow demo_ports demo_config 0))"
  "oc_status (projr (fst (run_workflow demo_ports demo_config 0))) = ''completed''"
proof -
  have "\<not> isl (fst (run_workflow demo_ports demo_config 0))" by code_simp
  then show "run_workflow demo_ports demo_config 0 = (Inr (projr (fst (run_workflow demo_ports demo_config 0))),
     snd (run_workflow demo_ports demo_config 0))"
    by (cases "run_workflow demo_ports demo_config 0") auto
  show "oc_status (projr (fst (run_workflow demo_ports demo_config 0))) = ''completed''" by code_simp
qed

lemma demo_orderly: "orderly demo_ports"
  by (simp add: orderly_def raises_def demo_ports_def)

end
