(* ===== verification/Decimal.thy ===== *)
theory Decimal
  imports Main
begin

text \<open>
  The decimal text of a number, as \<^verbatim>\<open>str(n)\<close> and f-strings write it: reading the digits back gives the number, and
  the text of a natural number has no sign.
\<close>

text \<open>The decimal digits of a number, as in an f-string.\<close>

fun dec_digit :: "nat \<Rightarrow> char" where
  "dec_digit d = char_of (48 + d)"

fun dec_nat :: "nat \<Rightarrow> string" where
  "dec_nat n = (if n < 10 then [dec_digit n] else dec_nat (n div 10) @ [dec_digit (n mod 10)])"

declare dec_nat.simps [simp del]

definition dec_int :: "int \<Rightarrow> string" where
  "dec_int n = (if n < 0 then CHR ''-'' # dec_nat (nat (- n)) else dec_nat (nat n))"

text \<open>Reading a number back from its digits.\<close>

definition nat_of_dec :: "string \<Rightarrow> nat" where
  "nat_of_dec s = foldl (\<lambda>n c. 10 * n + (of_char c - 48)) 0 s"

lemma dec_digit_value: "d < 10 \<Longrightarrow> of_char (dec_digit d) = 48 + d"
  by simp

lemma nat_of_dec_snoc: "nat_of_dec (s @ [c]) = 10 * nat_of_dec s + (of_char c - 48)"
  by (simp add: nat_of_dec_def)

lemma nat_of_dec_dec_nat: "nat_of_dec (dec_nat n) = n"
proof (induction n rule: less_induct)
  case (less n)
  show ?case
  proof (cases "n < 10")
    case True
    then show ?thesis by (subst dec_nat.simps) (simp add: nat_of_dec_def)
  next
    case False
    then show ?thesis using less [of "n div 10"]
      by (subst dec_nat.simps) (simp add: nat_of_dec_snoc)
  qed
qed

lemma dec_nat_digits: "c \<in> set (dec_nat n) \<Longrightarrow> c \<noteq> CHR ''-''"
proof (induction n rule: less_induct)
  case (less n)
  have digit: "dec_digit d \<noteq> CHR ''-''" if "d < 10" for d
  proof
    assume "dec_digit d = CHR ''-''"
    then have "of_char (dec_digit d) = (45 :: nat)" by (simp del: dec_digit.simps)
    then show False using dec_digit_value [OF that] by simp
  qed
  show ?case
  proof (cases "n < 10")
    case True
    then show ?thesis using less.prems digit [of n] by (subst (asm) dec_nat.simps) (simp del: dec_digit.simps)
  next
    case False
    then show ?thesis using less.prems less.IH [of "n div 10"] digit [of "n mod 10"]
      by (subst (asm) dec_nat.simps) (auto simp del: dec_digit.simps)
  qed
qed

end
