(* ===== verification/Py_Float.thy ===== *)
theory Py_Float
  imports Py_Value
begin

text \<open>
  The doubles of Python: rounding of exact values to the nearest double (ties to even, gradual
  underflow, overflow to infinity), conversion from integers, addition and order.  What the sign of a
  rounded difference says about the operands is shown here once.
\<close>

section \<open>Rounding\<close>

fun bit_len :: "nat \<Rightarrow> nat" where
  "bit_len n = (if n = 0 then 0 else Suc (bit_len (n div 2)))"

declare bit_len.simps [simp del]

text \<open>
  Every finite double is a multiple of \<open>2 ^ -1074\<close>; a larger one keeps 53 bits.
\<close>

definition round_double :: "rat \<Rightarrow> pyfloat" where
  "round_double q =
     (let x = q * 2 ^ 1074; e = bit_len (nat \<lfloor>\<bar>x\<bar>\<rfloor>) - 53;
          r = of_int (round_half_even (x / 2 ^ e)) * 2 ^ e / 2 ^ 1074 in
      if r \<ge> 2 ^ 1024 then FPosInf else if r \<le> - (2 ^ 1024) then FNegInf else FFin r)"

datatype float_error = OverflowError

text \<open>\<^verbatim>\<open>float(n)\<close> of an \<^verbatim>\<open>int\<close>\<close>

definition float_of_int :: "int \<Rightarrow> float_error + pyfloat" where
  "float_of_int n = (case round_double (of_int n) of FFin q \<Rightarrow> Inr (FFin q) | _ \<Rightarrow> Inl OverflowError)"

fun float_neg :: "pyfloat \<Rightarrow> pyfloat" where
  "float_neg (FFin q) = FFin (- q)"
| "float_neg FPosInf = FNegInf"
| "float_neg FNegInf = FPosInf"
| "float_neg FNan = FNan"

fun float_add :: "pyfloat \<Rightarrow> pyfloat \<Rightarrow> pyfloat" where
  "float_add (FFin a) (FFin b) = round_double (a + b)"
| "float_add FNan _ = FNan"
| "float_add _ FNan = FNan"
| "float_add FPosInf FNegInf = FNan"
| "float_add FNegInf FPosInf = FNan"
| "float_add FPosInf _ = FPosInf"
| "float_add _ FPosInf = FPosInf"
| "float_add FNegInf _ = FNegInf"
| "float_add _ FNegInf = FNegInf"

definition float_sub :: "pyfloat \<Rightarrow> pyfloat \<Rightarrow> pyfloat" where
  "float_sub a b = float_add a (float_neg b)"

fun float_less :: "pyfloat \<Rightarrow> pyfloat \<Rightarrow> bool" where
  "float_less (FFin a) (FFin b) = (a < b)"
| "float_less FNan _ = False"
| "float_less _ FNan = False"
| "float_less FPosInf _ = False"
| "float_less FNegInf FNegInf = False"
| "float_less FNegInf _ = True"
| "float_less _ FPosInf = True"
| "float_less _ _ = False"

text \<open>The finite floats are on the grid of the smallest positive double.\<close>

fun on_grid :: "pyfloat \<Rightarrow> bool" where
  "on_grid (FFin q) \<longleftrightarrow> q * 2 ^ 1074 = of_int \<lfloor>q * 2 ^ 1074\<rfloor>"
| "on_grid _ \<longleftrightarrow> True"

section \<open>The sign of a difference\<close>

lemma bit_len_le: "0 < n \<Longrightarrow> 2 ^ (bit_len n - 1) \<le> n"
proof (induction n rule: bit_len.induct)
  case (1 n)
  show ?case
  proof (cases "n div 2 = 0")
    case True
    then show ?thesis using 1(2) by (simp add: bit_len.simps [of n] bit_len.simps [of 0])
  next
    case False
    then have "2 ^ (bit_len (n div 2) - 1) \<le> n div 2" using 1 by simp
    moreover have "bit_len (n div 2) = Suc (bit_len (n div 2) - 1)" using False by (simp add: bit_len.simps [of "n div 2"])
    then have "(2::nat) ^ bit_len (n div 2) = 2 * 2 ^ (bit_len (n div 2) - 1)" by (metis power_Suc)
    ultimately show ?thesis using 1(2) by (simp add: bit_len.simps [of n])
  qed
qed

lemma round_half_even_ge: "1 \<le> y \<Longrightarrow> 1 \<le> round_half_even y"
  by (auto simp: round_half_even_def Let_def le_floor_iff)

lemma round_half_even_le: "y \<le> - 1 \<Longrightarrow> round_half_even y \<le> - 1"
proof -
  assume y: "y \<le> - 1"
  then have "\<lfloor>y\<rfloor> \<le> - 1" by linarith
  show ?thesis
  proof (cases "\<lfloor>y\<rfloor> = - 1")
    case True
    then have "y = - 1" using y by linarith
    then show ?thesis unfolding round_half_even_def Let_def True by simp
  next
    case False
    with \<open>\<lfloor>y\<rfloor> \<le> - 1\<close> show ?thesis by (auto simp: round_half_even_def Let_def)
  qed
qed

lemma scaled_ge:
  assumes "0 < k"
  shows "(2::rat) ^ (bit_len (nat k) - 53) \<le> of_int k"
proof -
  have "(2::nat) ^ (bit_len (nat k) - 53) \<le> 2 ^ (bit_len (nat k) - 1)" by (intro power_increasing) auto
  also have "\<dots> \<le> nat k" by (rule bit_len_le) (use assms in simp)
  finally have "of_nat (2 ^ (bit_len (nat k) - 53)) \<le> (of_nat (nat k) :: rat)" by (rule of_nat_mono)
  then show ?thesis using assms by simp
qed

lemma round_double_sign:
  assumes "q * 2 ^ 1074 = of_int k"
  shows "float_less (FFin 0) (round_double q) \<longleftrightarrow> 0 < q" "float_less (round_double q) (FFin 0) \<longleftrightarrow> q < 0"
proof -
  define P where "P = (2::rat) ^ 1074"
  define B where "B = (2::rat) ^ 1024"
  define e where "e = bit_len (nat \<lfloor>\<bar>of_int k :: rat\<bar>\<rfloor>) - 53"
  define r where "r = of_int (round_half_even (of_int k / 2 ^ e)) * 2 ^ e / P"
  have pos: "0 < P" "0 < B" by (simp_all add: P_def B_def)
  have q: "q * P = of_int k" using assms by (simp add: P_def)
  have rd: "round_double q = (if r \<ge> B then FPosInf else if r \<le> - B then FNegInf else FFin r)"
    by (simp only: round_double_def Let_def assms r_def e_def P_def B_def)
  have e: "e = bit_len (nat \<bar>k\<bar>) - 53" by (simp add: e_def flip: of_int_abs)
  consider "0 < k" | "k = 0" | "k < 0" by linarith
  then have "(0 < r \<longleftrightarrow> 0 < q) \<and> (r < 0 \<longleftrightarrow> q < 0)"
  proof cases
    case 1
    then have "1 \<le> of_int k / (2::rat) ^ e" using scaled_ge [of k] by (simp add: e)
    then have "(0::rat) < of_int (round_half_even (of_int k / 2 ^ e))" using round_half_even_ge by fastforce
    then have "0 < r" using pos by (simp add: r_def)
    moreover have "0 < q * P" using 1 q by simp
    then have "0 < q" using pos by (simp add: zero_less_mult_iff)
    ultimately show ?thesis by linarith
  next
    case 2
    then have "q = 0" "r = 0" using q pos by (auto simp: r_def round_half_even_def)
    then show ?thesis by simp
  next
    case 3
    then have "(2::rat) ^ e \<le> of_int (- k)" using scaled_ge [of "- k"] by (simp add: e)
    then have "of_int k / (2::rat) ^ e \<le> - 1" by (simp add: divide_le_eq)
    then have "of_int (round_half_even (of_int k / 2 ^ e)) < (0::rat)" using round_half_even_le by fastforce
    then have "r < 0" using pos by (simp add: r_def mult_neg_pos divide_neg_pos)
    moreover have "q * P < 0" using 3 q by simp
    then have "q < 0" using pos by (simp add: mult_less_0_iff)
    ultimately show ?thesis by linarith
  qed
  then show "float_less (FFin 0) (round_double q) \<longleftrightarrow> 0 < q" "float_less (round_double q) (FFin 0) \<longleftrightarrow> q < 0"
    using pos by (auto simp: rd)
qed

lemma on_grid_round_double: "on_grid (round_double q)"
proof -
  have grid: "on_grid (FFin (of_int x * 2 ^ e / 2 ^ 1074))" for x :: int and e
  proof -
    have "of_int x * 2 ^ e / 2 ^ 1074 * 2 ^ 1074 = (of_int (x * 2 ^ e) :: rat)" by simp
    then show ?thesis unfolding on_grid.simps by (metis floor_of_int)
  qed
  have cases: "on_grid (if b then FPosInf else if c then FNegInf else FFin r)" if "on_grid (FFin r)" for b c r
    using that by simp
  show ?thesis unfolding round_double_def Let_def by (rule cases [OF grid])
qed

lemma float_of_int_grid: "float_of_int n = Inr f \<Longrightarrow> on_grid f"
  using on_grid_round_double [of "of_int n"] by (auto simp: float_of_int_def simp del: on_grid.simps split: pyfloat.splits)

text \<open>
  The rounded difference of two floats has the sign of the exact one; equal infinities are not
  comparable and their difference is not a number.
\<close>

lemma float_sub_sign:
  assumes "on_grid a" "on_grid b"
  shows "float_less (FFin 0) (float_sub a b) \<longleftrightarrow> float_less b a" "float_less (float_sub a b) (FFin 0) \<longleftrightarrow> float_less a b"
proof -
  have "(float_less (FFin 0) (float_sub a b) \<longleftrightarrow> float_less b a) \<and> (float_less (float_sub a b) (FFin 0) \<longleftrightarrow> float_less a b)"
  proof (cases "\<exists>x y. a = FFin x \<and> b = FFin y")
    case True
    then obtain x y where ab: "a = FFin x" "b = FFin y" by blast
    obtain k l where "x * 2 ^ 1074 = of_int k" "y * 2 ^ 1074 = of_int l"
      using assms ab by (metis on_grid.simps(1))
    then have "(x + - y) * 2 ^ 1074 = of_int (k - l)" by (simp only: ring_distribs of_int_diff)
    from round_double_sign [OF this] show ?thesis by (simp add: ab float_sub_def)
  next
    case False
    then show ?thesis by (cases a; cases b) (auto simp: float_sub_def)
  qed
  then show "float_less (FFin 0) (float_sub a b) \<longleftrightarrow> float_less b a" "float_less (float_sub a b) (FFin 0) \<longleftrightarrow> float_less a b"
    by blast+
qed

end
