(* ===== verification/Float_Error.thy ===== *)
theory Float_Error
  imports Py_Float
begin

text \<open>
  How far rounding to a double moves a value, and which values it keeps.  Multiplication, absolute value,
  exact summation (\<^verbatim>\<open>math.fsum\<close>) and closeness (\<^verbatim>\<open>math.isclose\<close>) of finite floats.
\<close>

section \<open>Rounding\<close>

lemma round_half_even_error: "\<bar>of_int (round_half_even y) - y\<bar> \<le> 1 / 2"
proof -
  have "of_int \<lfloor>y\<rfloor> \<le> y" "y < of_int \<lfloor>y\<rfloor> + 1" by linarith+
  then show ?thesis by (auto simp: round_half_even_def Let_def)
qed

lemma round_half_even_of_int: "round_half_even (of_int n) = n"
  by (simp add: round_half_even_def Let_def)

lemma grid_error:
  fixes x P :: rat
  assumes "0 < P"
  defines "e \<equiv> bit_len (nat \<lfloor>\<bar>x\<bar>\<rfloor>) - 53"
  shows "\<bar>of_int (round_half_even (x / 2 ^ e)) * 2 ^ e / P - x / P\<bar> \<le> \<bar>x / P\<bar> / 2 ^ 53 + 1 / (2 * P)"
proof -
  have "of_int (round_half_even (x / 2 ^ e)) * 2 ^ e - x = (of_int (round_half_even (x / 2 ^ e)) - x / 2 ^ e) * 2 ^ e"
    by (simp add: left_diff_distrib)
  then have "\<bar>of_int (round_half_even (x / 2 ^ e)) * 2 ^ e - x\<bar> = \<bar>of_int (round_half_even (x / 2 ^ e)) - x / 2 ^ e\<bar> * 2 ^ e"
    by (simp add: abs_mult)
  also have "\<dots> \<le> 1 / 2 * 2 ^ e" by (rule mult_right_mono [OF round_half_even_error]) simp
  finally have err: "\<bar>of_int (round_half_even (x / 2 ^ e)) * 2 ^ e - x\<bar> \<le> 2 ^ e / 2" by simp
  have "2 ^ e / 2 \<le> \<bar>x\<bar> / 2 ^ 53 + 1 / 2"
  proof (cases "e = 0")
    case False
    then have "53 < bit_len (nat \<lfloor>\<bar>x\<bar>\<rfloor>)" by (simp add: e_def)
    then have n: "0 < nat \<lfloor>\<bar>x\<bar>\<rfloor>" and s: "bit_len (nat \<lfloor>\<bar>x\<bar>\<rfloor>) - 1 = e + 52"
      by (auto simp: e_def bit_len.simps [of 0] intro: ccontr)
    have "of_nat (2 ^ (e + 52)) \<le> (of_nat (nat \<lfloor>\<bar>x\<bar>\<rfloor>) :: rat)" using bit_len_le [OF n] s by (metis of_nat_le_iff)
    also have "\<dots> = of_int \<lfloor>\<bar>x\<bar>\<rfloor>" by simp
    also have "\<dots> \<le> \<bar>x\<bar>" by (rule of_int_floor_le)
    finally have "2 ^ (e + 52) \<le> \<bar>x\<bar>" by simp
    then have "2 ^ e * 2 ^ 53 \<le> 2 * \<bar>x\<bar>" by (simp add: power_add)
    then have "2 ^ e / 2 \<le> \<bar>x\<bar> / 2 ^ 53" by (simp add: field_simps)
    then show ?thesis by simp
  qed simp
  with err have "\<bar>of_int (round_half_even (x / 2 ^ e)) * 2 ^ e - x\<bar> / P \<le> (\<bar>x\<bar> / 2 ^ 53 + 1 / 2) / P"
    using assms(1) by (intro divide_right_mono) auto
  then show ?thesis using assms(1) by (simp add: diff_divide_distrib [symmetric] add_divide_distrib abs_divide divide_divide_eq_left mult.commute)
qed

lemma round_double_error:
  assumes "round_double q = FFin r"
  shows "\<bar>r - q\<bar> \<le> \<bar>q\<bar> / 2 ^ 53 + 1 / 2 ^ 1075"
proof -
  define P where "P = (2::rat) ^ 1074"
  define B where "B = (2::rat) ^ 1024"
  have P: "0 < P" "2 * P = 2 ^ 1075" by (simp_all add: P_def flip: power_Suc)
  define e where "e = bit_len (nat \<lfloor>\<bar>q * P\<bar>\<rfloor>) - 53"
  define s where "s = of_int (round_half_even (q * P / 2 ^ e)) * 2 ^ e / P"
  have "round_double q = (if s \<ge> B then FPosInf else if s \<le> - B then FNegInf else FFin s)"
    by (simp only: round_double_def Let_def s_def e_def P_def B_def)
  then have "r = s" using assms by (simp split: if_splits)
  then show ?thesis using grid_error [of P "q * P", folded e_def, folded s_def] P by simp
qed

lemma bit_len_less: "n < 2 ^ bit_len n"
proof (induction n rule: bit_len.induct)
  case (1 n)
  show ?case
  proof (cases "n = 0")
    case False
    then have "n div 2 < 2 ^ bit_len (n div 2)" by (rule 1)
    then have "n < 2 * 2 ^ bit_len (n div 2)" by linarith
    then show ?thesis using False by (simp add: bit_len.simps [of n])
  qed (simp add: bit_len.simps [of 0])
qed

lemma bit_len_bound: "n < 2 ^ m \<Longrightarrow> bit_len n \<le> m"
proof -
  assume n: "n < 2 ^ m"
  show ?thesis
  proof (cases "n = 0")
    case False
    then have "2 ^ (bit_len n - 1) \<le> n" by (intro bit_len_le) simp
    then have "(2::nat) ^ (bit_len n - 1) < 2 ^ m" using n by linarith
    then have "bit_len n - 1 < m" by simp
    then show ?thesis by linarith
  qed (simp add: bit_len.simps [of 0])
qed

lemma round_double_grid:
  assumes "q * 2 ^ 1074 = of_int k * 2 ^ m" "\<bar>k\<bar> < 2 ^ 53" "\<bar>q\<bar> < 2 ^ 1024"
  shows "round_double q = FFin q"
proof -
  define P where "P = (2::rat) ^ 1074"
  define B where "B = (2::rat) ^ 1024"
  have q: "q * P = of_int k * 2 ^ m" "0 < P" "\<bar>q\<bar> < B" using assms(1,3) by (simp_all add: P_def B_def)
  define e where "e = bit_len (nat \<lfloor>\<bar>q * P\<bar>\<rfloor>) - 53"
  have "\<bar>q * P\<bar> = of_int (\<bar>k\<bar> * 2 ^ m)" by (simp add: q(1) abs_mult)
  then have "nat \<lfloor>\<bar>q * P\<bar>\<rfloor> = nat (\<bar>k\<bar> * 2 ^ m)" by (simp only: floor_of_int)
  also have "\<dots> < 2 ^ (53 + m)"
    using assms(2) by (simp add: nat_less_iff power_add)
  finally have e: "e \<le> m" using bit_len_bound by (fastforce simp: e_def)
  have m: "(2::rat) ^ m = 2 ^ (m - e) * 2 ^ e" using e by (simp flip: power_add)
  have "q * P / 2 ^ e = of_int (k * 2 ^ (m - e))" by (simp add: q(1) m)
  then have "of_int (round_half_even (q * P / 2 ^ e)) * 2 ^ e / P = of_int k * 2 ^ (m - e) * 2 ^ e / P"
    by (simp only: round_half_even_of_int) simp
  also have "\<dots> = q" using q(1,2) by (simp add: mult.assoc flip: m) (metis nonzero_mult_div_cancel_right less_irrefl)
  finally have "round_double q = (if q \<ge> B then FPosInf else if q \<le> - B then FNegInf else FFin q)"
    by (simp only: round_double_def Let_def e_def P_def B_def)
  then show ?thesis using q(3) by auto
qed

text \<open>Numbers with a small numerator over a power of two are doubles.\<close>

lemma round_double_exact:
  assumes "q * 2 ^ n = of_int k" "n \<le> 1074" "\<bar>k\<bar> < 2 ^ 53"
  shows "round_double q = FFin q"
proof (rule round_double_grid [OF _ assms(3)])
  define m where "m = 1074 - n"
  have "(2::rat) ^ 1074 = 2 ^ n * 2 ^ m" using assms(2) by (simp add: m_def flip: power_add)
  then show "q * 2 ^ 1074 = of_int k * 2 ^ m" unfolding assms(1) [symmetric] by (simp only: mult.assoc)
  have "\<bar>q\<bar> \<le> \<bar>q\<bar> * 2 ^ n" by (simp add: mult_le_cancel_left1)
  also have "\<dots> = of_int \<bar>k\<bar>" unfolding of_int_abs assms(1) [symmetric] by (simp add: abs_mult)
  also have "\<dots> < of_int (2 ^ 53)" using assms(3) by (simp only: of_int_less_iff)
  also have "\<dots> < (2::rat) ^ 1024" by simp
  finally show "\<bar>q\<bar> < 2 ^ 1024" .
qed

section \<open>Operations\<close>

definition float_le :: "pyfloat \<Rightarrow> pyfloat \<Rightarrow> bool" where
  "float_le a b \<longleftrightarrow> float_less a b \<or> num_eq a b"

fun float_abs :: "pyfloat \<Rightarrow> pyfloat" where
  "float_abs (FFin q) = FFin \<bar>q\<bar>"
| "float_abs FNegInf = FPosInf"
| "float_abs f = f"

text \<open>
  \<^verbatim>\<open>math.isclose(a, b, rel_tol=rel, abs_tol=tol)\<close> of finite floats; \<^verbatim>\<open>math.fsum(vs) / n\<close>, where \<^verbatim>\<open>fsum\<close> rounds the
  exact sum once.  An overflow of the sum would raise; it takes more numbers than fit in a memory.
\<close>

definition isclose :: "rat \<Rightarrow> rat \<Rightarrow> rat \<Rightarrow> rat \<Rightarrow> bool" where
  "isclose rel tol a b \<longleftrightarrow> a = b \<or>
     (let diff = float_abs (float_sub (FFin b) (FFin a)) in
      float_le diff (float_abs (round_double (rel * b))) \<or> float_le diff (float_abs (round_double (rel * a))) \<or> float_le diff (FFin tol))"

definition fsum_mean :: "rat list \<Rightarrow> int \<Rightarrow> pyfloat" where
  "fsum_mean vs n = (case (round_double (sum_list vs), round_double (of_int n)) of
       (FFin s, FFin m) \<Rightarrow> round_double (s / m)
     | _ \<Rightarrow> FNan)"

text \<open>The unit of rounding.\<close>

definition ulp :: rat where
  "ulp = 1 / 2 ^ 53"

lemma round_double_near:
  assumes "round_double q = FFin r" "\<bar>q\<bar> \<le> b"
  shows "\<bar>r - q\<bar> \<le> ulp * b + ulp * ulp"
proof -
  have "(1::rat) / 2 ^ 1075 \<le> ulp * ulp" by (simp add: ulp_def)
  moreover have "\<bar>q\<bar> / 2 ^ 53 \<le> ulp * b" using assms(2) by (simp add: ulp_def)
  ultimately show ?thesis using round_double_error [OF assms(1)] by linarith
qed

lemma fsum_mean_error:
  assumes "fsum_mean vs n = FFin e" "1 \<le> n" "0 \<le> sum_list vs" "sum_list vs \<le> of_int n"
  shows "\<bar>e - sum_list vs / of_int n\<bar> \<le> 8 * ulp"
proof -
  define s N where "s = sum_list vs" and "N = (of_int n :: rat)"
  obtain s' N' where r: "round_double s = FFin s'" "round_double N = FFin N'" "round_double (s' / N') = FFin e"
    using assms(1) by (auto simp: fsum_mean_def s_def N_def split: pyfloat.splits)
  have n: "1 \<le> N" "0 \<le> s" "s \<le> N" using assms by (simp_all add: s_def N_def)
  have u: "0 < ulp" "ulp \<le> 1 / 1000" by (simp_all add: ulp_def)
  have uN: "ulp * ulp \<le> ulp * N" using u n by (intro mult_left_mono) auto
  have s': "\<bar>s' - s\<bar> \<le> 2 * ulp * N" using round_double_near [OF r(1), of N] n uN by simp
  have N': "\<bar>N' - N\<bar> \<le> 2 * ulp * N" using round_double_near [OF r(2), of N] n uN by simp
  have "2 * ulp * N \<le> N / 500" using u n by (simp add: field_simps)
  then have pos: "N * (499 / 500) \<le> N'" using N' by (simp add: abs_le_iff)
  then have pos': "0 < N'" using n by (intro less_le_trans [OF _ pos]) simp
  have "s' / N' - s / N = ((s' - s) * N - s * (N' - N)) / (N' * N)" using pos' n by (simp add: field_simps)
  moreover have "\<bar>(s' - s) * N - s * (N' - N)\<bar> / (N' * N) \<le> 4 * ulp * (N * N) / (N' * N)"
  proof (rule divide_right_mono)
    have "\<bar>(s' - s) * N\<bar> \<le> 2 * ulp * N * N" using s' n by (simp add: abs_mult mult_right_mono)
    moreover have "\<bar>s * (N' - N)\<bar> \<le> N * (2 * ulp * N)" unfolding abs_mult using N' n by (intro mult_mono) auto
    ultimately show "\<bar>(s' - s) * N - s * (N' - N)\<bar> \<le> 4 * ulp * (N * N)" by (simp add: mult.assoc mult.left_commute)
  qed (use pos' n in simp)
  ultimately have "\<bar>s' / N' - s / N\<bar> \<le> 4 * ulp * (N * N) / (N' * N)"
    using pos' n by (simp only: abs_divide) (simp add: abs_mult)
  also have "\<dots> = 4 * ulp * (N / N')" using n pos' by simp
  also have "\<dots> \<le> 4 * ulp * (500 / 499)" using u pos pos' n by (intro mult_left_mono) (simp_all add: divide_le_eq)
  also have "\<dots> \<le> 9 / 2 * ulp" using u by simp
  finally have mean: "\<bar>s' / N' - s / N\<bar> \<le> 9 / 2 * ulp" .
  have "0 \<le> s / N" "s / N \<le> 1" using n by simp_all
  then have "\<bar>s' / N'\<bar> \<le> 2" using mean u by linarith
  from round_double_near [OF r(3) this] have "\<bar>e - s' / N'\<bar> \<le> ulp * 2 + ulp * ulp" .
  moreover have "ulp * ulp \<le> ulp / 1000" using u by (simp add: mult_left_mono)
  ultimately show ?thesis using mean u unfolding s_def N_def by linarith
qed

lemma round_double_finite:
  assumes "\<bar>q\<bar> \<le> 4"
  shows "\<exists>r. round_double q = FFin r"
proof -
  define P where "P = (2::rat) ^ 1074"
  define B where "B = (2::rat) ^ 1024"
  have P: "1 \<le> P" "8 < B" by (simp_all add: P_def B_def)
  define e where "e = bit_len (nat \<lfloor>\<bar>q * P\<bar>\<rfloor>) - 53"
  define s where "s = of_int (round_half_even (q * P / 2 ^ e)) * 2 ^ e / P"
  have "\<bar>s - q\<bar> \<le> \<bar>q\<bar> / 2 ^ 53 + 1 / (2 * P)" using grid_error [of P "q * P", folded e_def, folded s_def] P(1) by simp
  moreover have "1 / (2 * P) \<le> 1" using P(1) by (simp add: divide_le_eq)
  moreover have "\<bar>q\<bar> / 2 ^ 53 \<le> 1" using assms by (simp add: divide_le_eq)
  ultimately have "\<bar>s\<bar> < B" using assms P(2) by linarith
  moreover have "round_double q = (if s \<ge> B then FPosInf else if s \<le> - B then FNegInf else FFin s)"
    by (simp only: round_double_def Let_def s_def e_def P_def B_def)
  ultimately show ?thesis by auto
qed

text \<open>\<^verbatim>\<open>1e-15\<close>\<close>

definition TOL :: rat where
  "TOL = (case round_double (1 / 10 ^ 15) of FFin t \<Rightarrow> t | _ \<Rightarrow> 0)"

lemma TOL_bounds: "round_double (1 / 10 ^ 15) = FFin TOL" "0 \<le> TOL" "TOL \<le> 1001 / 1000 / 10 ^ 15"
proof -
  obtain t where t: "round_double (1 / 10 ^ 15) = FFin t" using round_double_finite [of "1 / 10 ^ 15"] by auto
  then show "round_double (1 / 10 ^ 15) = FFin TOL" by (simp add: TOL_def)
  have T: "TOL = t" using t by (simp add: TOL_def)
  have "\<bar>t - 1 / 10 ^ 15\<bar> \<le> ulp * (1 / 10 ^ 15) + ulp * ulp" by (rule round_double_near [OF t]) simp
  then have "\<bar>t - 1 / 10 ^ 15\<bar> \<le> 1 / 1000 / 10 ^ 15" by (rule order_trans) (simp add: ulp_def)
  then show "0 \<le> TOL" "TOL \<le> 1001 / 1000 / 10 ^ 15" unfolding T by linarith+
qed

lemma isclose_error:
  assumes "isclose TOL TOL v e" "\<bar>v\<bar> \<le> 1001 / 1000" "\<bar>e\<bar> \<le> 1001 / 1000"
  shows "\<bar>v - e\<bar> \<le> 101 / 100 / 10 ^ 15"
proof (cases "v = e")
  case False
  have small: "\<bar>r\<bar> \<le> 1003 / 1000 / 10 ^ 15" if r: "round_double (TOL * x) = FFin r" and x: "\<bar>x\<bar> \<le> 1001 / 1000" for r x
  proof -
    have "\<bar>TOL * x\<bar> \<le> TOL * (1001 / 1000)" unfolding abs_mult abs_of_nonneg [OF TOL_bounds(2)]
      by (rule mult_left_mono [OF x TOL_bounds(2)])
    also have "\<dots> \<le> 1001 / 1000 / 10 ^ 15 * (1001 / 1000)" by (intro mult_right_mono TOL_bounds(3)) simp
    finally have b: "\<bar>TOL * x\<bar> \<le> 1001 / 1000 / 10 ^ 15 * (1001 / 1000)" .
    have "ulp * (1001 / 1000 / 10 ^ 15 * (1001 / 1000)) + ulp * ulp \<le> 1 / 10000 / 10 ^ 15" by (simp add: ulp_def)
    with round_double_near [OF r b] have "\<bar>r - TOL * x\<bar> \<le> 1 / 10000 / 10 ^ 15" by (rule order_trans)
    moreover define y where "y = TOL * x"
    ultimately show ?thesis using b unfolding y_def [symmetric] by (auto simp: abs_if split: if_splits)
  qed
  have fin: "\<exists>r. round_double (TOL * x) = FFin r" if x: "\<bar>x\<bar> \<le> 1001 / 1000" for x
  proof (rule round_double_finite)
    have "\<bar>TOL * x\<bar> \<le> 1 * 2" unfolding abs_mult using TOL_bounds(2,3) x by (intro mult_mono) auto
    then show "\<bar>TOL * x\<bar> \<le> 4" by simp
  qed
  have "\<bar>e - v\<bar> \<le> 4" using assms(2,3) by linarith
  then obtain d where d: "round_double (e - v) = FFin d" using round_double_finite by blast
  obtain x y where xy: "round_double (TOL * e) = FFin x" "round_double (TOL * v) = FFin y" using fin assms(2,3) by blast
  have "\<bar>d\<bar> \<le> \<bar>x\<bar> \<or> \<bar>d\<bar> \<le> \<bar>y\<bar> \<or> \<bar>d\<bar> \<le> TOL"
    using assms(1) False by (auto simp: isclose_def Let_def float_sub_def float_le_def d xy)
  then have "\<bar>d\<bar> \<le> 1003 / 1000 / 10 ^ 15" using small [OF xy(1) assms(3)] small [OF xy(2) assms(2)] TOL_bounds(3) by auto
  moreover have "\<bar>d - (e - v)\<bar> \<le> \<bar>e - v\<bar> / 1000 + 1 / 1000 / 10 ^ 15"
  proof (rule order_trans [OF round_double_near [OF d order_refl] add_mono])
    show "ulp * \<bar>e - v\<bar> \<le> \<bar>e - v\<bar> / 1000" unfolding ulp_def by (simp add: field_simps)
    show "ulp * ulp \<le> 1 / 1000 / 10 ^ 15" by (simp add: ulp_def)
  qed
  moreover have "\<bar>e - v\<bar> \<le> \<bar>d\<bar> + \<bar>d - (e - v)\<bar>" by linarith
  ultimately have "\<bar>e - v\<bar> \<le> 101 / 100 / 10 ^ 15" by (simp add: field_simps)
  then show ?thesis by (simp add: abs_minus_commute)
qed simp

end
