(* ===== verification/Agent_Session.thy ===== *)
theory Agent_Session
  imports Conditions Decimal Float_Error
begin

text \<open>
  The execution budget and the session of the builtin agent:
  \<^verbatim>\<open>packages/agent-runtime/motte_agent/budget.py\<close> and \<^verbatim>\<open>session.py\<close>.  A reading of the monotonic clock is
  an argument.  Limits are floats as they were
  configured, infinities and NaN included; sums of costs and of seconds are exact.
\<close>

section \<open>Configuration of a budget\<close>

definition LIMITS_CEILING :: "(string \<times> rat) list" where
  "LIMITS_CEILING = [(''max_steps'', 64), (''max_tool_calls'', 256), (''wall_time_sec'', 3600),
     (''per_call_timeout_sec'', 600), (''max_output_tokens'', 1000000), (''total_token_limit'', 100000000),
     (''observed_cost_limit'', 10000)]"

definition BUDGET_FIELDS :: "string list" where
  "BUDGET_FIELDS = [''max_steps'', ''max_tool_calls'', ''wall_time_sec'', ''per_call_timeout_sec'',
     ''max_output_tokens'', ''total_token_limit'', ''observed_cost_limit'']"

definition INTEGER_FIELDS :: "string list" where
  "INTEGER_FIELDS = [''max_steps'', ''max_tool_calls'', ''max_output_tokens'', ''total_token_limit'']"

text \<open>\<^verbatim>\<open>math.isfinite\<close> raises \<^verbatim>\<open>OverflowError\<close> for an integer that rounds beyond the largest double.\<close>

definition is_finite_number :: "pyval \<Rightarrow> bool" where
  "is_finite_number v = (case v of
       PInt n \<Rightarrow> \<bar>n\<bar> < 2 ^ 1024 - 2 ^ 970
     | PBool _ \<Rightarrow> True
     | PFloat (FFin _) \<Rightarrow> True
     | _ \<Rightarrow> False)"

text \<open>
  The number of an \<^verbatim>\<open>int\<close> or \<^verbatim>\<open>float\<close> that is not a \<^verbatim>\<open>bool\<close>, as Python compares it: exactly, and every
  comparison with NaN is false.
\<close>

fun plain_number :: "pyval \<Rightarrow> bool" where
  "plain_number (PInt _) = True"
| "plain_number (PFloat _) = True"
| "plain_number _ = False"

fun number_value :: "pyval \<Rightarrow> pyfloat" where
  "number_value (PInt n) = FFin (of_int n)"
| "number_value (PFloat f) = f"
| "number_value _ = FNan"

fun int_value :: "pyval \<Rightarrow> int" where
  "int_value (PInt n) = n"
| "int_value _ = 0"

fun finite_part :: "pyfloat \<Rightarrow> rat" where
  "finite_part (FFin q) = q"
| "finite_part _ = 0"

text \<open>A ceiling prints as an integer or as a float.\<close>

definition ceiling_text :: "string \<Rightarrow> rat \<Rightarrow> frag" where
  "ceiling_text name q = (if name \<in> set INTEGER_FIELDS then Num \<lfloor>q\<rfloor> else Real q)"

definition budget_field :: "pydict \<Rightarrow> string \<Rightarrow> fstr + pyval option" where
  "budget_field config name = (let v = dget config name; upper = the (map_of LIMITS_CEILING name) in
     if v = PNone then Inr None
     else if \<not> plain_number v then Inl [Txt (''budget.'' @ name @ '' must be a number'')]
     else if \<not> is_finite_number v then Inl [Txt (''budget.'' @ name @ '' must be finite'')]
     else if float_le (number_value v) (FFin 0) then Inl [Txt (''budget.'' @ name @ '' must be positive'')]
     else if float_less (FFin upper) (number_value v) then
       Inl [Txt (''budget.'' @ name @ ''=''), Val v, Txt '' exceeds the allowed ceiling '', ceiling_text name upper]
     else if name \<in> set INTEGER_FIELDS \<and> (case v of PInt _ \<Rightarrow> False | _ \<Rightarrow> True) then
       Inl [Txt (''budget.'' @ name @ '' must be an integer'')]
     else Inr (Some (if name \<in> set INTEGER_FIELDS then v else PFloat (number_value v))))"

record budget =
  bu_max_steps :: int
  bu_max_tool_calls :: "int option"
  bu_wall_time :: "pyfloat option"
  bu_per_call :: "pyfloat option"
  bu_max_output :: "int option"
  bu_token_limit :: "int option"
  bu_cost_limit :: "pyfloat option"
  bu_per_call_enforced :: bool
  bu_started :: rat
  bu_tool_calls :: int
  bu_usage_reported :: bool
  bu_total_tokens :: int
  bu_observed_cost :: rat

definition from_config :: "rat \<Rightarrow> pydict \<Rightarrow> fstr + budget" where
  "from_config now config =
     (let unknown = sort (remdups (filter (\<lambda>k. k \<notin> set (''per_call_timeout_enforced'' # BUDGET_FIELDS)) (map fst config))) in
      if unknown \<noteq> [] then Inl (Txt ''unknown budget fields: '' # map Txt (intersperse '', '' unknown))
      else
        res_bind (budget_field config ''max_steps'') (\<lambda>steps.
        res_bind (budget_field config ''max_tool_calls'') (\<lambda>tools.
        res_bind (budget_field config ''wall_time_sec'') (\<lambda>wall.
        res_bind (budget_field config ''per_call_timeout_sec'') (\<lambda>per_call.
        res_bind (budget_field config ''max_output_tokens'') (\<lambda>out.
        res_bind (budget_field config ''total_token_limit'') (\<lambda>tokens.
        res_bind (budget_field config ''observed_cost_limit'') (\<lambda>cost.
          (case dget_default config ''per_call_timeout_enforced'' (PBool False) of
             PBool enforced \<Rightarrow> Inr \<lparr>bu_max_steps = (case steps of None \<Rightarrow> 8 | Some v \<Rightarrow> int_value v),
               bu_max_tool_calls = map_option int_value tools, bu_wall_time = map_option number_value wall,
               bu_per_call = map_option number_value per_call,
               bu_max_output = map_option int_value out, bu_token_limit = map_option int_value tokens,
               bu_cost_limit = map_option number_value cost, bu_per_call_enforced = enforced, bu_started = now, bu_tool_calls = 0,
               bu_usage_reported = False, bu_total_tokens = 0, bu_observed_cost = 0\<rparr>
           | _ \<Rightarrow> Inl [Txt ''per_call_timeout_enforced must be a boolean''])))))))))"

section \<open>Checks and metering\<close>

definition wall_elapsed :: "rat \<Rightarrow> budget \<Rightarrow> rat" where
  "wall_elapsed now b = now - bu_started b"

definition wall_or_usage_stop :: "rat \<Rightarrow> budget \<Rightarrow> string option" where
  "wall_or_usage_stop now b =
     (if (case bu_wall_time b of None \<Rightarrow> False | Some w \<Rightarrow> float_less w (FFin (wall_elapsed now b))) then Some ''wall_time''
      else if (case bu_token_limit b of None \<Rightarrow> False
               | Some l \<Rightarrow> bu_usage_reported b \<and> bu_total_tokens b > l) then Some ''token_limit''
      else if (case bu_cost_limit b of None \<Rightarrow> False | Some l \<Rightarrow> float_less l (FFin (bu_observed_cost b))) then Some ''cost_limit''
      else None)"

definition step_allowed :: "rat \<Rightarrow> int \<Rightarrow> budget \<Rightarrow> string option" where
  "step_allowed now step b = (if step > bu_max_steps b then Some ''max_steps'' else wall_or_usage_stop now b)"

definition tool_call_allowed :: "budget \<Rightarrow> string option" where
  "tool_call_allowed b = (case bu_max_tool_calls b of
       None \<Rightarrow> None
     | Some l \<Rightarrow> if bu_tool_calls b \<ge> l then Some ''max_tool_calls'' else None)"

definition record_tool_call :: "budget \<Rightarrow> budget" where
  "record_tool_call b = b\<lparr>bu_tool_calls := bu_tool_calls b + 1\<rparr>"

definition per_call_deadline :: "rat \<Rightarrow> budget \<Rightarrow> pyfloat option" where
  "per_call_deadline now b = map_option (\<lambda>t. case t of FFin q \<Rightarrow> FFin (now + q) | _ \<Rightarrow> t) (bu_per_call b)"

text \<open>\<^verbatim>\<open>x.get(k) if isinstance(x, dict) else None\<close>\<close>

definition get_if_dict :: "pyval \<Rightarrow> string \<Rightarrow> pyval" where
  "get_if_dict v k = (case v of PDict d \<Rightarrow> dget d k | _ \<Rightarrow> PNone)"

definition record_tokens :: "pyval \<Rightarrow> (budget, fstr, unit) sop" where
  "record_tokens v = (case v of
       PNone \<Rightarrow> st_return ()
     | PInt n \<Rightarrow>
         if n < 0 then st_raise [Txt ''usage.total_tokens must be non-negative'']
         else st_modify (\<lambda>b. b\<lparr>bu_usage_reported := True, bu_total_tokens := bu_total_tokens b + n\<rparr>)
     | _ \<Rightarrow> st_raise [Txt ''usage.total_tokens must be a non-negative integer''])"

definition record_cost :: "pyval \<Rightarrow> (budget, fstr, unit) sop" where
  "record_cost v =
     (if v = PNone then st_return ()
      else if \<not> plain_number v \<or> \<not> is_finite_number v then st_raise [Txt ''cost.total must be finite'']
      else if float_less (number_value v) (FFin 0) then st_raise [Txt ''cost.total must be non-negative'']
      else st_modify (\<lambda>b. b\<lparr>bu_observed_cost := bu_observed_cost b + finite_part (number_value v)\<rparr>))"

definition record_usage :: "pyval \<Rightarrow> pyval \<Rightarrow> (budget, fstr, unit) sop" where
  "record_usage usage cost =
     st_bind (record_tokens (get_if_dict usage ''total_tokens'')) (\<lambda>_.
     record_cost (get_if_dict cost ''total''))"

text \<open>The limit and the enforcement each dimension really has.\<close>

definition opt_int :: "int option \<Rightarrow> pyval" where
  "opt_int x = (case x of None \<Rightarrow> PNone | Some n \<Rightarrow> PInt n)"

definition opt_float :: "pyfloat option \<Rightarrow> pyval" where
  "opt_float x = (case x of None \<Rightarrow> PNone | Some f \<Rightarrow> PFloat f)"

definition enforcement_report :: "budget \<Rightarrow> (string \<times> pyval \<times> string) list" where
  "enforcement_report b =
     [(''max_steps'', PInt (bu_max_steps b), ''enforced''),
      (''max_tool_calls'', opt_int (bu_max_tool_calls b),
         if bu_max_tool_calls b \<noteq> None then ''enforced'' else ''not_configured''),
      (''wall_time_sec'', opt_float (bu_wall_time b), if bu_wall_time b \<noteq> None then ''enforced'' else ''not_configured''),
      (''per_call_timeout_sec'', opt_float (bu_per_call b),
         if bu_per_call b \<noteq> None \<and> bu_per_call_enforced b then ''enforced''
         else if bu_per_call b \<noteq> None then ''observed'' else ''not_configured''),
      (''max_output_tokens'', opt_int (bu_max_output b), if bu_max_output b = None then ''not_configured'' else ''enforced''),
      (''total_token_limit'', opt_int (bu_token_limit b), if bu_token_limit b = None then ''not_configured''
         else if \<not> bu_usage_reported b then ''unknown'' else ''enforced''),
      (''observed_cost_limit'', opt_float (bu_cost_limit b), if bu_cost_limit b \<noteq> None then ''observed'' else ''not_configured'')]"

definition observed_usage :: "budget \<Rightarrow> pydict" where
  "observed_usage b =
     [(''reported'', PBool (bu_usage_reported b)),
      (''total_tokens'', if bu_usage_reported b then PInt (bu_total_tokens b) else PNone),
      (''observed_cost'', PFloat (FFin (py_round (bu_observed_cost b) 6)))]"

section \<open>Sessions\<close>

text \<open>
  The state of one case: messages and events are opaque here, \<^verbatim>\<open>executed_call_ids\<close> is a set.
\<close>

record 'm session =
  se_budget :: budget
  se_id :: string
  se_messages :: "'m list"
  se_executed :: "string set"
  se_events :: "pydict list"
  se_event_seq :: int
  se_steps :: int
  se_turns :: int
  se_legacy_seq :: int
  se_state :: string
  se_begun :: bool
  se_closed :: bool
  se_cancelled :: bool
  se_reason :: "string option"
  se_detail :: "fstr option"
  se_output :: pyval

datatype session_error = SessionStateError string string "string option"

type_synonym ('m, 'a) sess_op = "('m session, session_error, 'a) sop"

definition new_session :: "budget \<Rightarrow> string \<Rightarrow> 'm session" where
  "new_session b sid = \<lparr>se_budget = b, se_id = sid, se_messages = [], se_executed = {}, se_events = [],
     se_event_seq = 0, se_steps = 0, se_turns = 0, se_legacy_seq = 0, se_state = ''idle'', se_begun = False,
     se_closed = False, se_cancelled = False, se_reason = None, se_detail = None, se_output = PNone\<rparr>"

definition activate :: "('m, unit) sess_op" where
  "activate = st_bind (st_get (\<lambda>s. s)) (\<lambda>s.
     if se_begun s then
       st_raise (SessionStateError (''session already begun: '' @ se_id s) (se_state s) (se_reason s))
     else st_modify (\<lambda>s. s\<lparr>se_begun := True, se_state := ''active''\<rparr>))"

text \<open>\<^verbatim>\<open>self.termination_reason or self.state\<close>\<close>

definition terminal_reason :: "'m session \<Rightarrow> string" where
  "terminal_reason s = (case se_reason s of None \<Rightarrow> se_state s | Some r \<Rightarrow> if r = [] then se_state s else r)"

definition send_refusal :: "'m session \<Rightarrow> string option" where
  "send_refusal s =
     (if \<not> se_begun s then Some ''session has not begun; call begin() before send()''
      else if se_cancelled s then Some ''session was interrupted; send() is refused''
      else if se_closed s then Some ''session is closed; send() is refused''
      else if se_state s \<noteq> ''active'' then
        Some (''session is terminal ('' @ terminal_reason s @ ''); send() is refused'')
      else None)"

definition cancel :: "('m, unit) sess_op" where
  "cancel = st_modify (\<lambda>s. s\<lparr>se_cancelled := True,
     se_reason := (if se_reason s = None then Some ''cancelled'' else se_reason s),
     se_state := (if se_closed s then se_state s else ''terminated'')\<rparr>)"

definition close :: "('m, bool) sess_op" where
  "close = st_bind (st_get se_closed) (\<lambda>closed.
     if closed then st_return False
     else st_bind (st_modify (\<lambda>s. s\<lparr>se_closed := True,
       se_state := (if se_state s \<noteq> ''terminated'' then ''closed'' else se_state s)\<rparr>)) (\<lambda>_. st_return True))"

definition record_termination :: "string \<Rightarrow> fstr option \<Rightarrow> pyval \<Rightarrow> ('m, unit) sess_op" where
  "record_termination reason detail output =
     st_modify (\<lambda>s. (let t = s\<lparr>se_reason := Some reason, se_detail := detail, se_output := output\<rparr> in
       if se_closed s then t
       else if reason = ''final_answer'' \<and> \<not> se_cancelled s then t\<lparr>se_state := ''active''\<rparr>
       else t\<lparr>se_state := ''terminated''\<rparr>))"

definition mark_failed :: "string \<Rightarrow> fstr \<Rightarrow> ('m, unit) sess_op" where
  "mark_failed class_name message =
     st_modify (\<lambda>s. s\<lparr>se_reason := Some ''error'', se_detail := Some (Txt (class_name @ '': '') # message),
       se_state := (if se_closed s then se_state s else ''terminated'')\<rparr>)"

definition record_event :: "string \<Rightarrow> pydict \<Rightarrow> ('m, pydict) sess_op" where
  "record_event event_type payload =
     (let event = od_merge [(''type'', PStr event_type)] payload in
      st_bind (st_modify (\<lambda>s. s\<lparr>se_event_seq := se_event_seq s + 1, se_events := se_events s @ [event]\<rparr>)) (\<lambda>_.
      st_return event))"

definition note_legacy_call :: "int \<Rightarrow> ('m, string) sess_op" where
  "note_legacy_call step =
     st_bind (st_modify (\<lambda>s. s\<lparr>se_legacy_seq := se_legacy_seq s + 1\<rparr>)) (\<lambda>_.
     st_get (\<lambda>s. ''legacy-'' @ dec_int step @ ''-'' @ dec_int (se_legacy_seq s)))"

text \<open>The one value of the snapshot that is a formatted text is \<^verbatim>\<open>termination_detail\<close>.\<close>

definition session_view :: "'m session \<Rightarrow> (string \<times> (pyval + fstr option)) list" where
  "session_view s = map (\<lambda>(k, v). (k, Inl v))
     [(''session_id'', PStr (se_id s)), (''state'', PStr (se_state s)), (''begun'', PBool (se_begun s)),
      (''closed'', PBool (se_closed s)), (''cancelled'', PBool (se_cancelled s)), (''turns'', PInt (se_turns s)),
      (''steps'', PInt (se_steps s)), (''tool_calls'', PInt (bu_tool_calls (se_budget s))),
      (''event_seq'', PInt (se_event_seq s)), (''message_count'', PInt (int (length (se_messages s)))),
      (''executed_call_ids'', PList (map PStr (sorted_list_of_set (se_executed s)))),
      (''termination_reason'', case se_reason s of None \<Rightarrow> PNone | Some r \<Rightarrow> PStr r)]
     @ [(''termination_detail'', Inr (se_detail s)), (''final_output'', Inl (se_output s))]"

section \<open>What a configured budget guarantees\<close>

text \<open>Positive and below the ceiling, when the limit is there at all; a limit that is no finite number is not.\<close>

definition in_range :: "int \<Rightarrow> int option \<Rightarrow> bool" where
  "in_range upper x = (case x of None \<Rightarrow> True | Some n \<Rightarrow> 0 < n \<and> n \<le> upper)"

definition float_in_range :: "rat \<Rightarrow> pyfloat option \<Rightarrow> bool" where
  "float_in_range upper x = (case x of None \<Rightarrow> True | Some (FFin q) \<Rightarrow> 0 < q \<and> q \<le> upper | _ \<Rightarrow> False)"

lemma budget_field_float:
  assumes "budget_field config name = Inr x" "map_of LIMITS_CEILING name = Some upper"
  shows "float_in_range upper (map_option number_value x)"
  using assms
  by (cases "dget config name" rule: number_value.cases)
    (auto simp: budget_field_def Let_def float_in_range_def float_le_def is_finite_number_def not_less split: if_splits pyfloat.splits)

lemma budget_field_int:
  assumes "budget_field config name = Inr x" "map_of LIMITS_CEILING name = Some (of_int upper)" "name \<in> set INTEGER_FIELDS"
  shows "in_range upper (map_option int_value x)"
  using budget_field_float [OF assms(1,2)] assms(1,3)
  by (auto simp: budget_field_def Let_def in_range_def float_in_range_def split: if_splits pyval.splits)

lemma from_config_bounds:
  assumes "from_config now config = Inr b"
  shows "1 \<le> bu_max_steps b \<and> bu_max_steps b \<le> 64 \<and> in_range 256 (bu_max_tool_calls b) \<and> float_in_range 3600 (bu_wall_time b) \<and>
    float_in_range 600 (bu_per_call b) \<and> in_range 1000000 (bu_max_output b) \<and> in_range 100000000 (bu_token_limit b) \<and>
    float_in_range 10000 (bu_cost_limit b)"
proof -
  from assms obtain steps tools wall per out tokens cost where
    f: "budget_field config ''max_steps'' = Inr steps" "budget_field config ''max_tool_calls'' = Inr tools"
      "budget_field config ''wall_time_sec'' = Inr wall" "budget_field config ''per_call_timeout_sec'' = Inr per"
      "budget_field config ''max_output_tokens'' = Inr out" "budget_field config ''total_token_limit'' = Inr tokens"
      "budget_field config ''observed_cost_limit'' = Inr cost"
    and b: "bu_max_steps b = (case steps of None \<Rightarrow> 8 | Some v \<Rightarrow> int_value v)" "bu_max_tool_calls b = map_option int_value tools"
      "bu_wall_time b = map_option number_value wall" "bu_per_call b = map_option number_value per"
      "bu_max_output b = map_option int_value out" "bu_token_limit b = map_option int_value tokens"
      "bu_cost_limit b = map_option number_value cost"
    by (cases "dget_default config ''per_call_timeout_enforced'' (PBool False)")
      (auto simp: from_config_def Let_def res_bind_Inr split: if_splits)
  note ceilings = LIMITS_CEILING_def INTEGER_FIELDS_def
  have "in_range 64 (map_option int_value steps)" by (rule budget_field_int [OF f(1)]) (simp_all add: ceilings)
  then have "1 \<le> bu_max_steps b \<and> bu_max_steps b \<le> 64" using b(1) by (cases steps) (simp_all add: in_range_def)
  moreover have "in_range 256 (bu_max_tool_calls b)" unfolding b
    by (rule budget_field_int [OF f(2)]) (simp_all add: ceilings)
  moreover have "in_range 1000000 (bu_max_output b)" unfolding b
    by (rule budget_field_int [OF f(5)]) (simp_all add: ceilings)
  moreover have "in_range 100000000 (bu_token_limit b)" unfolding b
    by (rule budget_field_int [OF f(6)]) (simp_all add: ceilings)
  moreover have "float_in_range 3600 (bu_wall_time b)" "float_in_range 600 (bu_per_call b)" "float_in_range 10000 (bu_cost_limit b)"
    unfolding b using f(3,4,7)[THEN budget_field_float] by (simp_all add: ceilings)
  ultimately show ?thesis by blast
qed

text \<open>A tool call recorded only when it is allowed never exceeds the configured number.\<close>

definition tool_calls_within :: "budget \<Rightarrow> bool" where
  "tool_calls_within b = (case bu_max_tool_calls b of None \<Rightarrow> True | Some l \<Rightarrow> bu_tool_calls b \<le> l)"

lemma allowed_call_within: "tool_call_allowed b = None \<Longrightarrow> tool_calls_within (record_tool_call b)"
  by (auto simp: tool_call_allowed_def tool_calls_within_def record_tool_call_def split: option.splits if_splits)

lemma not_negative: "\<not> float_less f (FFin 0) \<Longrightarrow> 0 \<le> finite_part f"
  by (cases f) auto

lemma usage_monotone:
  assumes "record_usage usage cost b = (r, b')"
  shows "bu_total_tokens b \<le> bu_total_tokens b' \<and> bu_observed_cost b \<le> bu_observed_cost b' \<and>
    (bu_usage_reported b \<longrightarrow> bu_usage_reported b') \<and> bu_tool_calls b' = bu_tool_calls b \<and> bu_max_steps b' = bu_max_steps b"
proof -
  let ?K = "\<lambda>x. bu_total_tokens b \<le> bu_total_tokens x \<and> bu_observed_cost b \<le> bu_observed_cost x \<and>
      (bu_usage_reported b \<longrightarrow> bu_usage_reported x) \<and> bu_tool_calls x = bu_tool_calls b \<and> bu_max_steps x = bu_max_steps b"
  have tokens: "keeps ?K (record_tokens v)" for v
    by (auto simp: record_tokens_def intro!: keeps_intros split: pyval.splits)
  have cost: "keeps ?K (record_cost v)" for v
    unfolding record_cost_def by (intro keeps_intros) (use not_negative [of "number_value v"] in auto)
  have "keeps ?K (record_usage usage cost)"
    unfolding record_usage_def by (intro keeps_bind tokens cost)
  from keepsD [OF this, of b] assms show ?thesis by simp
qed

section \<open>What a session guarantees\<close>

datatype session_step = SActivate | SCancel | SClose | STerminate string "fstr option" pyval
  | SFail string fstr | SEvent string pydict | SLegacy int

definition session_exec :: "session_step \<Rightarrow> 'm session \<Rightarrow> 'm session" where
  "session_exec op s = (case op of
       SActivate \<Rightarrow> snd (activate s)
     | SCancel \<Rightarrow> snd (cancel s)
     | SClose \<Rightarrow> snd (close s)
     | STerminate r d v \<Rightarrow> snd (record_termination r d v s)
     | SFail c m \<Rightarrow> snd (mark_failed c m s)
     | SEvent t p \<Rightarrow> snd (record_event t p s)
     | SLegacy n \<Rightarrow> snd (note_legacy_call n s))"

lemmas session_defs = activate_def cancel_def close_def record_termination_def mark_failed_def record_event_def
  note_legacy_call_def

lemma session_exec_sticky:
  "(se_cancelled s \<longrightarrow> se_cancelled (session_exec op s)) \<and> (se_closed s \<longrightarrow> se_closed (session_exec op s)) \<and>
   (se_begun s \<longrightarrow> se_begun (session_exec op s)) \<and> se_event_seq s \<le> se_event_seq (session_exec op s) \<and>
   se_legacy_seq s \<le> se_legacy_seq (session_exec op s)"
  by (cases op) (simp_all add: session_exec_def session_defs Let_def st_bind_def sop_simps)

lemma send_refusal_None:
  "send_refusal s = None \<longleftrightarrow> se_begun s \<and> \<not> se_cancelled s \<and> \<not> se_closed s \<and> se_state s = ''active''"
  by (simp add: send_refusal_def)

lemma fold_sticky:
  "(se_cancelled s \<longrightarrow> se_cancelled (fold session_exec ops s)) \<and> (se_closed s \<longrightarrow> se_closed (fold session_exec ops s))"
  by (induction ops arbitrary: s) (use session_exec_sticky in fastforce)+

lemma stopped_session_refuses:
  "se_cancelled s \<or> se_closed s \<Longrightarrow> send_refusal (fold session_exec ops s) \<noteq> None"
  using fold_sticky [of s ops] by (auto simp: send_refusal_None)

text \<open>The events of a session are numbered by its event counter.\<close>

lemma event_seq_counts:
  "se_event_seq (session_exec op s) - int (length (se_events (session_exec op s))) = se_event_seq s - int (length (se_events s))"
  by (cases op) (simp_all add: session_exec_def session_defs Let_def st_bind_def sop_simps)

lemma fold_event_seq:
  "se_event_seq (fold session_exec ops s) - int (length (se_events (fold session_exec ops s)))
     = se_event_seq s - int (length (se_events s))"
  by (induction ops arbitrary: s) (simp_all add: event_seq_counts)

section \<open>Call identifiers\<close>

lemma split_at_last_dash:
  assumes "CHR ''-'' \<notin> set b" "CHR ''-'' \<notin> set b'" "a @ ''-'' @ b = a' @ ''-'' @ b'"
  shows "b = b'"
proof -
  have "takeWhile (\<lambda>c. c \<noteq> CHR ''-'') (rev (a @ ''-'' @ b)) = rev b"
    if "CHR ''-'' \<notin> set b" for a b :: string
  proof -
    have "takeWhile (\<lambda>c. c \<noteq> CHR ''-'') (rev b @ CHR ''-'' # rev a) = rev b @ takeWhile (\<lambda>c. c \<noteq> CHR ''-'') (CHR ''-'' # rev a)"
      using that by (intro takeWhile_append2) auto
    then show ?thesis by simp
  qed
  with assms show ?thesis by (metis rev_is_rev_conv)
qed

text \<open>Two calls of a session never get the same identifier, whatever steps they are made at.\<close>

lemma legacy_ids_distinct:
  assumes "0 \<le> m" "0 \<le> n" "''legacy-'' @ dec_int i @ ''-'' @ dec_int m = ''legacy-'' @ dec_int j @ ''-'' @ dec_int n"
  shows "m = n"
proof -
  have "dec_nat (nat m) = dec_nat (nat n)"
    by (rule split_at_last_dash [where a = "''legacy-'' @ dec_int i" and a' = "''legacy-'' @ dec_int j"])
      (use assms dec_nat_digits in \<open>auto simp: dec_int_def [of m] dec_int_def [of n]\<close>)
  then have "nat m = nat n" by (metis nat_of_dec_dec_nat)
  then show ?thesis using assms by simp
qed

lemma legacy_seq_fold: "se_legacy_seq s \<le> se_legacy_seq (fold session_exec ops s)"
proof (induction ops arbitrary: s)
  case (Cons op ops)
  have "se_legacy_seq s \<le> se_legacy_seq (session_exec op s)" using session_exec_sticky by blast
  also have "\<dots> \<le> se_legacy_seq (fold session_exec ops (session_exec op s))" by (rule Cons.IH)
  finally show ?case by simp
qed simp

lemma legacy_calls_differ:
  assumes "0 \<le> se_legacy_seq s" "note_legacy_call i s = (r, t)"
  shows "fst (note_legacy_call j (fold session_exec ops t)) \<noteq> r"
proof
  let ?u = "fold session_exec ops t"
  assume same: "fst (note_legacy_call j ?u) = r"
  have t: "se_legacy_seq t = se_legacy_seq s + 1"
    and r: "r = Inr (''legacy-'' @ dec_int i @ ''-'' @ dec_int (se_legacy_seq s + 1))"
    using assms(2) by (auto simp: note_legacy_call_def st_bind_def sop_simps)
  have u: "fst (note_legacy_call j ?u) = Inr (''legacy-'' @ dec_int j @ ''-'' @ dec_int (se_legacy_seq ?u + 1))"
    by (simp add: note_legacy_call_def st_bind_def sop_simps)
  have "se_legacy_seq t \<le> se_legacy_seq ?u" by (rule legacy_seq_fold)
  moreover have "se_legacy_seq ?u + 1 = se_legacy_seq s + 1"
    by (rule legacy_ids_distinct [of _ _ j i]) (use same u r t calculation assms(1) in auto)
  ultimately show False using t by simp
qed

text \<open>
  A rejected cost does not undo the tokens that were reported with it, and a termination recorded
  after a cancellation replaces its reason.
\<close>

lemma tokens_kept_on_rejected_cost:
  "record_usage (PDict [(''total_tokens'', PInt 5)]) (PDict [(''total'', PInt (- 1))]) b
     = (Inl [Txt ''cost.total must be non-negative''], b\<lparr>bu_usage_reported := True, bu_total_tokens := bu_total_tokens b + 5\<rparr>)"
  by (simp add: record_usage_def record_tokens_def record_cost_def get_if_dict_def dget_def is_finite_number_def st_bind_def sop_simps)

lemma cancellation_reason_overwritten:
  "se_reason (snd (record_termination ''final_answer'' None PNone (snd (cancel s)))) = Some ''final_answer''"
  by (simp add: record_termination_def cancel_def Let_def sop_simps)

end
