(* ===== verification/Regression.thy ===== *)
theory Regression
  imports Py_Float
begin

text \<open>
  Regression classification, \<^verbatim>\<open>packages/evaluators/motte_eval/regression.py\<close>: a baseline and a candidate,
  dictionaries from case identifiers to outcomes, are compared case by case.  A dictionary is an
  association list with distinct keys.
\<close>

section \<open>Classification\<close>

definition REGRESSION_CLASSES :: "string list" where
  "REGRESSION_CLASSES = [''new_failure'', ''fixed'', ''persistent_failure'', ''persistent_pass'',
     ''changed_unknown'', ''added_case'', ''removed_case'', ''instability'']"

definition DEFINITIVE_OUTCOMES :: "string list" where
  "DEFINITIVE_OUTCOMES = [''pass'', ''fail'']"

definition CHANGED_CLASSES :: "string list" where
  "CHANGED_CLASSES = [''new_failure'', ''fixed'', ''changed_unknown'']"

definition normalize_outcome :: "pyval \<Rightarrow> string" where
  "normalize_outcome v = (case v of
       PStr s \<Rightarrow> if s \<in> set DEFINITIVE_OUTCOMES then s else ''unknown''
     | _ \<Rightarrow> ''unknown'')"

definition classify_pair :: "string \<Rightarrow> string \<Rightarrow> string" where
  "classify_pair base cand =
     (if base = ''instability'' \<or> cand = ''instability'' then ''instability''
      else if base \<notin> set DEFINITIVE_OUTCOMES \<or> cand \<notin> set DEFINITIVE_OUTCOMES then ''changed_unknown''
      else if base = cand then (if base = ''pass'' then ''persistent_pass'' else ''persistent_failure'')
      else if base = ''pass'' then ''new_failure'' else ''fixed'')"

type_synonym outcomes = "(string, string) odict"

record regression =
  rg_classification :: "(string, string) odict"
  rg_counts :: "(string, int) odict"
  rg_common :: "string list"
  rg_added :: "string list"
  rg_removed :: "string list"
  rg_changed :: "string list"
  rg_total_baseline :: nat
  rg_total_candidate :: nat

text \<open>\<^verbatim>\<open>sorted(set(a) & set(b))\<close> and \<^verbatim>\<open>sorted(set(a) - set(b))\<close> on the keys.\<close>

definition shared_keys :: "outcomes \<Rightarrow> outcomes \<Rightarrow> string list" where
  "shared_keys a b = sort (remdups (filter (\<lambda>k. k \<in> set (map fst b)) (map fst a)))"

definition only_keys :: "outcomes \<Rightarrow> outcomes \<Rightarrow> string list" where
  "only_keys a b = sort (remdups (filter (\<lambda>k. k \<notin> set (map fst b)) (map fst a)))"

definition count_classes :: "(string, string) odict \<Rightarrow> (string, int) odict" where
  "count_classes cl = map (\<lambda>name. (name, int (length (filter (\<lambda>(_, c). c = name) cl)))) REGRESSION_CLASSES"

definition classify_aligned :: "outcomes \<Rightarrow> outcomes \<Rightarrow> regression" where
  "classify_aligned baseline candidate =
     (let common = shared_keys baseline candidate;
          added = only_keys candidate baseline;
          removed = only_keys baseline candidate;
          classification = map (\<lambda>k. (k, classify_pair (the (map_of baseline k)) (the (map_of candidate k)))) common
            @ map (\<lambda>k. (k, ''added_case'')) added @ map (\<lambda>k. (k, ''removed_case'')) removed
      in \<lparr>rg_classification = classification, rg_counts = count_classes classification,
          rg_common = common, rg_added = added, rg_removed = removed,
          rg_changed = sort (map fst (filter (\<lambda>(_, c). c \<in> set CHANGED_CLASSES) classification)),
          rg_total_baseline = length baseline, rg_total_candidate = length candidate\<rparr>)"

definition normalize_all :: "(string, pyval) odict \<Rightarrow> outcomes" where
  "normalize_all d = map (\<lambda>(k, v). (k, normalize_outcome v)) d"

definition classify_cases :: "(string, pyval) odict \<Rightarrow> (string, pyval) odict \<Rightarrow> regression" where
  "classify_cases baseline candidate = classify_aligned (normalize_all baseline) (normalize_all candidate)"

section \<open>Several trials of a case\<close>

definition aggregate_trials :: "pyval \<Rightarrow> string" where
  "aggregate_trials v = (case v of
       PList outcomes \<Rightarrow>
         if outcomes = [] then ''unknown''
         else (let has_pass = list_ex (\<lambda>x. py_eq x (PStr ''pass'')) outcomes;
                   has_fail = list_ex (\<lambda>x. py_eq x (PStr ''fail'')) outcomes in
           if has_pass \<and> has_fail then ''instability''
           else if \<not> has_pass \<and> \<not> has_fail then ''unknown''
           else (let definitive = (if has_pass then ''pass'' else ''fail'') in
             if list_all (\<lambda>x. py_eq x (PStr definitive)) outcomes then definitive else ''unknown''))
     | _ \<Rightarrow> ''unknown'')"

definition aggregate_all :: "(string, pyval) odict \<Rightarrow> outcomes" where
  "aggregate_all d = map (\<lambda>(k, v). (k, aggregate_trials v)) d"

definition classify_with_trials :: "(string, pyval) odict \<Rightarrow> (string, pyval) odict \<Rightarrow> regression \<times> string list" where
  "classify_with_trials baseline candidate =
     (let b = aggregate_all baseline; c = aggregate_all candidate in
      (classify_aligned b c,
       sort (filter (\<lambda>k. map_of b k = Some ''instability'' \<or> map_of c k = Some ''instability'')
         (remdups (map fst baseline @ map fst candidate)))))"

fun is_list :: "pyval \<Rightarrow> bool" where
  "is_list (PList _) = True"
| "is_list _ = False"

definition as_trials :: "(string, pyval) odict \<Rightarrow> (string, pyval) odict" where
  "as_trials d = map (\<lambda>(k, v). (k, if is_list v then v else PList [v])) d"

record report =
  rp_result :: regression
  rp_unstable :: "string list option"
  rp_has_regressions :: bool
  rp_has_improvements :: bool

definition count_of :: "regression \<Rightarrow> string \<Rightarrow> int" where
  "count_of r name = (case map_of (rg_counts r) name of None \<Rightarrow> 0 | Some n \<Rightarrow> n)"

definition regression_report :: "(string, pyval) odict \<Rightarrow> (string, pyval) odict \<Rightarrow> report" where
  "regression_report baseline candidate =
     (let trials_mode = list_ex is_list (map snd baseline @ map snd candidate);
          (r, unstable) = (if trials_mode then
              (case classify_with_trials (as_trials baseline) (as_trials candidate) of (r, u) \<Rightarrow> (r, Some u))
            else (classify_cases baseline candidate, None))
      in \<lparr>rp_result = r, rp_unstable = unstable,
          rp_has_regressions = (count_of r ''new_failure'' > 0 \<or> count_of r ''removed_case'' > 0 \<or> count_of r ''instability'' > 0),
          rp_has_improvements = (count_of r ''fixed'' > 0)\<rparr>)"

section \<open>Differences of summary metrics\<close>

text \<open>\<^verbatim>\<open>float(value)\<close> raises for an integer beyond the range of doubles.\<close>

definition numeric :: "pyval \<Rightarrow> float_error + pyfloat option" where
  "numeric v = (case v of
       PInt n \<Rightarrow> res_bind (float_of_int n) (\<lambda>f. Inr (Some f))
     | PFloat f \<Rightarrow> Inr (if f = FNan then None else Some f)
     | _ \<Rightarrow> Inr None)"

record deltas =
  dl_deltas :: "(string, pyfloat option) odict"
  dl_applicable :: "(string, bool) odict"
  dl_improved :: "string list"
  dl_regressed :: "string list"

definition delta_step :: "pydict \<Rightarrow> pydict \<Rightarrow> string \<Rightarrow> deltas \<Rightarrow> float_error + deltas" where
  "delta_step baseline candidate metric acc =
     res_bind (numeric (dget baseline metric)) (\<lambda>base.
     res_bind (numeric (dget candidate metric)) (\<lambda>cand.
     (case (base, cand) of
        (Some b, Some c) \<Rightarrow>
          (let delta = float_sub c b in
           Inr (acc\<lparr>dl_deltas := od_set metric (Some delta) (dl_deltas acc),
             dl_applicable := od_set metric True (dl_applicable acc),
             dl_improved := (if float_less (FFin 0) delta then dl_improved acc @ [metric] else dl_improved acc),
             dl_regressed := (if \<not> float_less (FFin 0) delta \<and> float_less delta (FFin 0)
               then dl_regressed acc @ [metric] else dl_regressed acc)\<rparr>))
      | _ \<Rightarrow> Inr (acc\<lparr>dl_deltas := od_set metric None (dl_deltas acc),
             dl_applicable := od_set metric False (dl_applicable acc)\<rparr>))))"

fun delta_loop :: "pydict \<Rightarrow> pydict \<Rightarrow> string list \<Rightarrow> deltas \<Rightarrow> float_error + deltas" where
  "delta_loop baseline candidate [] acc = Inr acc"
| "delta_loop baseline candidate (metric # metrics) acc =
     res_bind (delta_step baseline candidate metric acc) (delta_loop baseline candidate metrics)"

definition summary_delta :: "pydict \<Rightarrow> pydict \<Rightarrow> string list \<Rightarrow> float_error + deltas" where
  "summary_delta baseline candidate metrics =
     delta_loop baseline candidate metrics \<lparr>dl_deltas = [], dl_applicable = [], dl_improved = [], dl_regressed = []\<rparr>"

section \<open>The classification is a partition\<close>

text \<open>The class of one case, from the two lookups alone.\<close>

definition class_of :: "string option \<Rightarrow> string option \<Rightarrow> string option" where
  "class_of b c = (case (b, c) of
       (Some x, Some y) \<Rightarrow> Some (classify_pair x y)
     | (None, Some _) \<Rightarrow> Some ''added_case''
     | (Some _, None) \<Rightarrow> Some ''removed_case''
     | (None, None) \<Rightarrow> None)"

lemma set_keys [simp]:
  "set (shared_keys a b) = fst ` set a \<inter> fst ` set b" "set (only_keys a b) = fst ` set a - fst ` set b"
  "distinct (shared_keys a b)" "distinct (only_keys a b)" "sorted (shared_keys a b)" "sorted (only_keys a b)"
  by (auto simp: shared_keys_def only_keys_def)

lemma keys_lookup: "k \<in> fst ` set d \<longleftrightarrow> map_of d k \<noteq> None"
  by (simp add: map_of_eq_None_iff)

lemma map_of_tagged: "map_of (map (\<lambda>k. (k, f k)) ks) k = (if k \<in> set ks then Some (f k) else None)"
  by (induction ks) auto

lemma classification_keys: "map fst (rg_classification (classify_aligned b c)) = shared_keys b c @ only_keys c b @ only_keys b c"
  by (simp add: classify_aligned_def Let_def comp_def)

lemma classification_distinct: "distinct (map fst (rg_classification (classify_aligned b c)))"
  by (auto simp: classification_keys)

lemma classification_lookup:
  "map_of (rg_classification (classify_aligned b c)) k = class_of (map_of b k) (map_of c k)"
  by (auto simp: classify_aligned_def Let_def map_of_append map_add_def map_of_tagged keys_lookup class_of_def
      split: option.splits)

lemma class_of_known: "class_of b c = Some x \<Longrightarrow> x \<in> set REGRESSION_CLASSES"
  by (auto simp: class_of_def classify_pair_def REGRESSION_CLASSES_def split: option.splits if_splits)

lemma sum_counts:
  assumes "\<And>c. c \<in> set (map snd cl) \<Longrightarrow> c \<in> set names" "distinct names"
  shows "(\<Sum>name\<leftarrow>names. int (length (filter (\<lambda>(_, c). c = name) cl))) = int (length cl)"
  using assms(1)
proof (induction cl)
  case (Cons p cl)
  obtain k c where p: "p = (k, c)" by (cases p)
  have "(\<Sum>name\<leftarrow>names. (if c = name then 1 else 0 :: int)) = 1"
    using Cons.prems p assms(2) by (simp add: sum_list_distinct_conv_sum_set)
  moreover have "(\<Sum>name\<leftarrow>names. int (length (filter (\<lambda>(_, x). x = name) (p # cl)))) =
      (\<Sum>name\<leftarrow>names. (if c = name then 1 else 0)) + (\<Sum>name\<leftarrow>names. int (length (filter (\<lambda>(_, x). x = name) cl)))"
    unfolding sum_list_addf [symmetric] by (rule arg_cong [where f = sum_list]) (auto simp: p)
  ultimately show ?case using Cons by simp
qed simp

lemma classes_known: "c \<in> set (map snd (rg_classification (classify_aligned b d))) \<Longrightarrow> c \<in> set REGRESSION_CLASSES"
proof -
  assume "c \<in> set (map snd (rg_classification (classify_aligned b d)))"
  then obtain k where "(k, c) \<in> set (rg_classification (classify_aligned b d))" by auto
  then have "map_of (rg_classification (classify_aligned b d)) k = Some c"
    using classification_distinct by (simp add: map_of_is_SomeI)
  then show ?thesis using class_of_known by (simp add: classification_lookup)
qed

lemma counts_total:
  "(\<Sum>(_, n)\<leftarrow>rg_counts (classify_aligned b c). n) = int (card (fst ` set b \<union> fst ` set c))"
proof -
  let ?cl = "rg_classification (classify_aligned b c)"
  have "(\<Sum>(_, n)\<leftarrow>rg_counts (classify_aligned b c). n) = int (length ?cl)"
    using sum_counts [of ?cl REGRESSION_CLASSES] classes_known
    by (simp add: classify_aligned_def Let_def count_classes_def comp_def REGRESSION_CLASSES_def)
  also have "length ?cl = card (set (map fst ?cl))"
    using distinct_card [OF classification_distinct] by simp
  also have "set (map fst ?cl) = fst ` set b \<union> fst ` set c"
    unfolding classification_keys by auto
  finally show ?thesis .
qed

lemma count_of_aligned:
  "name \<in> set REGRESSION_CLASSES \<Longrightarrow>
   count_of (classify_aligned b c) name = int (card {k. class_of (map_of b k) (map_of c k) = Some name})"
proof -
  let ?cl = "rg_classification (classify_aligned b c)"
  assume "name \<in> set REGRESSION_CLASSES"
  then have "count_of (classify_aligned b c) name = int (length (filter (\<lambda>(_, x). x = name) ?cl))"
    by (simp add: count_of_def classify_aligned_def Let_def count_classes_def map_of_tagged)
  also have "length (filter (\<lambda>(_, x). x = name) ?cl) = card (fst ` set (filter (\<lambda>(_, x). x = name) ?cl))"
    using distinct_card [of "map fst (filter (\<lambda>(_, x). x = name) ?cl)"] distinct_map_filter [OF classification_distinct]
    by simp
  also have "fst ` set (filter (\<lambda>(_, x). x = name) ?cl) = {k. map_of ?cl k = Some name}"
    using classification_distinct [of b c] by (force simp: map_of_eq_Some_iff)
  finally show ?thesis by (simp add: classification_lookup)
qed

lemma finite_class: "finite {k. class_of (map_of b k) (map_of c k) = Some name}"
proof (rule finite_subset)
  show "{k. class_of (map_of b k) (map_of c k) = Some name} \<subseteq> fst ` set b \<union> fst ` set c"
    by (auto simp: class_of_def keys_lookup split: option.splits)
qed simp

lemma count_pos:
  "name \<in> set REGRESSION_CLASSES \<Longrightarrow>
   count_of (classify_aligned b c) name > 0 \<longleftrightarrow> (\<exists>k. class_of (map_of b k) (map_of c k) = Some name)"
  using finite_class [of b c name] by (auto simp: count_of_aligned card_gt_0_iff)

section \<open>Stable cases\<close>

text \<open>A case is counted as passing only when every one of its trials passed.\<close>

lemma list_ex_py_eq: "list_ex (\<lambda>x. py_eq x (PStr s)) xs \<longleftrightarrow> PStr s \<in> set xs"
  by (induction xs) auto

lemma list_all_py_eq: "list_all (\<lambda>x. py_eq x (PStr s)) xs \<longleftrightarrow> set xs \<subseteq> {PStr s}"
  by (induction xs) auto

lemma aggregate_PList:
  "aggregate_trials (PList xs) =
     (if xs = [] then ''unknown''
      else if PStr ''pass'' \<in> set xs \<and> PStr ''fail'' \<in> set xs then ''instability''
      else if set xs \<subseteq> {PStr ''pass''} then ''pass''
      else if set xs \<subseteq> {PStr ''fail''} then ''fail''
      else ''unknown'')"
proof (cases xs)
  case (Cons y ys)
  then have y: "y \<in> set xs" by simp
  show ?thesis
  proof (cases "PStr ''pass'' \<in> set xs")
    case True
    then have "\<not> set xs \<subseteq> {PStr ''fail''}" by auto
    with True Cons show ?thesis unfolding aggregate_trials_def Let_def list_ex_py_eq list_all_py_eq by (simp only: pyval.case) simp
  next
    case False
    with y have "\<not> set xs \<subseteq> {PStr ''pass''}" by auto
    moreover have "PStr ''fail'' \<in> set xs" if "set xs \<subseteq> {PStr ''fail''}" using that y by auto
    ultimately show ?thesis using False Cons
      unfolding aggregate_trials_def Let_def list_ex_py_eq list_all_py_eq by (simp only: pyval.case) auto
  qed
qed (simp add: aggregate_trials_def)

lemma aggregate_pass: "aggregate_trials v = ''pass'' \<longleftrightarrow> (\<exists>xs. v = PList xs \<and> xs \<noteq> [] \<and> set xs \<subseteq> {PStr ''pass''})"
proof (cases v)
  case (PList xs)
  then show ?thesis by (auto simp: aggregate_PList)
qed (simp_all add: aggregate_trials_def)

section \<open>Reports\<close>

lemma map_of_normalize_all: "map_of (normalize_all d) k = map_option normalize_outcome (map_of d k)"
  by (simp add: normalize_all_def map_of_map)

lemma map_of_aggregate_all: "map_of (aggregate_all d) k = map_option aggregate_trials (map_of d k)"
  by (simp add: aggregate_all_def map_of_map)

lemma fst_normalize_all: "fst ` set (normalize_all d) = fst ` set d"
  by (force simp: normalize_all_def)

lemma normalize_definitive: "normalize_outcome v \<in> {''pass'', ''fail'', ''unknown''}"
  by (auto simp: normalize_outcome_def DEFINITIVE_OUTCOMES_def split: pyval.splits)

lemma class_new_failure: "class_of b c = Some ''new_failure'' \<longleftrightarrow> b = Some ''pass'' \<and> c = Some ''fail''"
  by (auto simp: class_of_def classify_pair_def DEFINITIVE_OUTCOMES_def split: option.splits if_splits)

lemma classify_cases_partition:
  "distinct (map fst (rg_classification (classify_cases b c))) \<and>
   map_of (rg_classification (classify_cases b c)) k
     = class_of (map_option normalize_outcome (map_of b k)) (map_option normalize_outcome (map_of c k)) \<and>
   (\<Sum>(_, n)\<leftarrow>rg_counts (classify_cases b c). n) = int (card (fst ` set b \<union> fst ` set c)) \<and>
   (0 < count_of (classify_cases b c) ''new_failure'' \<longleftrightarrow>
     (\<exists>k. map_option normalize_outcome (map_of b k) = Some ''pass'' \<and> map_option normalize_outcome (map_of c k) = Some ''fail''))"
proof (intro conjI)
  have known: "''new_failure'' \<in> set REGRESSION_CLASSES" by (simp add: REGRESSION_CLASSES_def)
  show "distinct (map fst (rg_classification (classify_cases b c)))"
    unfolding classify_cases_def by (rule classification_distinct)
  show "map_of (rg_classification (classify_cases b c)) k
     = class_of (map_option normalize_outcome (map_of b k)) (map_option normalize_outcome (map_of c k))"
    by (simp add: classify_cases_def classification_lookup map_of_normalize_all)
  show "(\<Sum>(_, n)\<leftarrow>rg_counts (classify_cases b c). n) = int (card (fst ` set b \<union> fst ` set c))"
    unfolding classify_cases_def counts_total fst_normalize_all ..
  show "0 < count_of (classify_cases b c) ''new_failure'' \<longleftrightarrow>
     (\<exists>k. map_option normalize_outcome (map_of b k) = Some ''pass'' \<and> map_option normalize_outcome (map_of c k) = Some ''fail'')"
    unfolding classify_cases_def count_pos [OF known] class_new_failure map_of_normalize_all ..
qed

lemma class_pass: "class_of b c \<in> {Some ''fixed'', Some ''persistent_pass''} \<Longrightarrow> c = Some ''pass''"
  by (auto simp: class_of_def classify_pair_def DEFINITIVE_OUTCOMES_def split: option.splits if_splits)

lemma trials_pass:
  assumes "map_of (rg_classification (fst (classify_with_trials b c))) k \<in> {Some ''fixed'', Some ''persistent_pass''}"
  shows "\<exists>xs. map_of c k = Some (PList xs) \<and> xs \<noteq> [] \<and> set xs \<subseteq> {PStr ''pass''}"
proof -
  have "class_of (map_option aggregate_trials (map_of b k)) (map_option aggregate_trials (map_of c k)) \<in>
      {Some ''fixed'', Some ''persistent_pass''}"
    using assms by (simp only: classify_with_trials_def Let_def fst_conv classification_lookup map_of_aggregate_all)
  then have "map_option aggregate_trials (map_of c k) = Some ''pass''" by (rule class_pass)
  then show ?thesis by (auto simp: aggregate_pass)
qed

section \<open>What the differences say\<close>

text \<open>The values of a metric on both sides, when both are comparable, in an order.\<close>

definition metric_less :: "pydict \<Rightarrow> pydict \<Rightarrow> string \<Rightarrow> bool" where
  "metric_less a b m \<longleftrightarrow> (case (numeric (dget a m), numeric (dget b m)) of
     (Inr (Some x), Inr (Some y)) \<Rightarrow> float_less x y | _ \<Rightarrow> False)"

definition floats_on_grid :: "pydict \<Rightarrow> bool" where
  "floats_on_grid d \<longleftrightarrow> list_all (\<lambda>(_, v). case v of PFloat f \<Rightarrow> on_grid f | _ \<Rightarrow> True) d"

lemma numeric_on_grid:
  assumes "floats_on_grid d" "numeric (dget d m) = Inr (Some f)"
  shows "on_grid f"
proof (cases "dget d m")
  case (PFloat g)
  then have "(m, PFloat g) \<in> set d" by (auto simp: dget_def split: option.splits dest: map_of_SomeD)
  then show ?thesis using assms PFloat by (auto simp: floats_on_grid_def numeric_def list_all_iff simp del: on_grid.simps split: if_splits)
qed (use assms(2) in \<open>auto simp: numeric_def res_bind_Inr dest: float_of_int_grid\<close>)

lemma float_less_asym: "float_less a b \<Longrightarrow> \<not> float_less b a"
  by (cases a; cases b) auto

lemma delta_step_Inr:
  assumes "floats_on_grid b" "floats_on_grid c" "delta_step b c m acc = Inr acc'"
  shows "dl_improved acc' = dl_improved acc @ (if metric_less b c m then [m] else []) \<and>
    dl_regressed acc' = dl_regressed acc @ (if metric_less c b m then [m] else [])"
proof -
  obtain x y where x: "numeric (dget b m) = Inr x" and y: "numeric (dget c m) = Inr y"
    using assms(3) by (auto simp: delta_step_def res_bind_Inr)
  show ?thesis
  proof (cases "\<exists>p q. x = Some p \<and> y = Some q")
    case True
    then obtain p q where pq: "x = Some p" "y = Some q" by blast
    have grid: "on_grid q" "on_grid p" using numeric_on_grid assms(1,2) x y pq by blast+
    show ?thesis
      using assms(3) x y pq float_sub_sign [OF grid] float_less_asym [of p q]
      by (auto simp: delta_step_def Let_def metric_less_def)
  next
    case False
    then show ?thesis using assms(3) x y by (cases x; cases y) (auto simp: delta_step_def metric_less_def)
  qed
qed

lemma delta_loop_Inr:
  assumes "floats_on_grid b" "floats_on_grid c"
  shows "delta_loop b c ms acc = Inr d \<Longrightarrow> dl_improved d = dl_improved acc @ filter (metric_less b c) ms \<and>
    dl_regressed d = dl_regressed acc @ filter (metric_less c b) ms"
proof (induction ms arbitrary: acc)
  case (Cons m ms)
  then obtain acc' where "delta_step b c m acc = Inr acc'" "delta_loop b c ms acc' = Inr d" by (auto simp: res_bind_Inr)
  then show ?case using delta_step_Inr [OF assms] Cons.IH by auto
qed simp

lemma summary_delta_Inr:
  assumes "floats_on_grid b" "floats_on_grid c" "summary_delta b c ms = Inr d"
  shows "dl_improved d = filter (metric_less b c) ms \<and> dl_regressed d = filter (metric_less c b) ms"
  using delta_loop_Inr [OF assms(1,2) assms(3) [unfolded summary_delta_def]] by simp

text \<open>As the protocol has it: only finite numbers give a conclusion.  For summaries without infinities it is the same.\<close>

definition finite_less :: "pydict \<Rightarrow> pydict \<Rightarrow> string \<Rightarrow> bool" where
  "finite_less a b m \<longleftrightarrow> (case (numeric (dget a m), numeric (dget b m)) of
     (Inr (Some (FFin x)), Inr (Some (FFin y))) \<Rightarrow> x < y | _ \<Rightarrow> False)"

definition no_infinity :: "pydict \<Rightarrow> bool" where
  "no_infinity d \<longleftrightarrow> list_all (\<lambda>(_, v). v \<noteq> PFloat FPosInf \<and> v \<noteq> PFloat FNegInf) d"

lemma numeric_finite:
  assumes "no_infinity d" "numeric (dget d m) = Inr (Some f)"
  shows "\<exists>q. f = FFin q"
proof (cases "dget d m")
  case (PFloat g)
  then have "(m, PFloat g) \<in> set d" by (auto simp: dget_def split: option.splits dest: map_of_SomeD)
  then show ?thesis using assms PFloat by (cases g) (auto simp: no_infinity_def numeric_def list_all_iff)
qed (use assms(2) in \<open>auto simp: numeric_def res_bind_Inr float_of_int_def split: pyfloat.splits dest: sym\<close>)

lemma metric_less_finite:
  assumes "no_infinity a" "no_infinity b"
  shows "metric_less a b m \<longleftrightarrow> finite_less a b m"
proof (cases "numeric (dget a m)")
  case (Inr x)
  show ?thesis
  proof (cases x)
    case (Some f)
    then obtain p where p: "numeric (dget a m) = Inr (Some (FFin p))" using numeric_finite [OF assms(1)] Inr by blast
    show ?thesis
    proof (cases "numeric (dget b m)")
      case (Inr y)
      then show ?thesis using numeric_finite [OF assms(2), of m] p by (cases y) (auto simp: metric_less_def finite_less_def)
    qed (simp add: metric_less_def finite_less_def p)
  qed (simp add: metric_less_def finite_less_def Inr)
qed (simp add: metric_less_def finite_less_def)

text \<open>
  Two equal infinities are reported as an applicable difference, whose value is not a number.
\<close>

lemma infinite_metric_applicable:
  "map_of (dl_deltas (projr (summary_delta [(m, PFloat FPosInf)] [(m, PFloat FPosInf)] [m]))) m = Some (Some FNan)"
  "map_of (dl_applicable (projr (summary_delta [(m, PFloat FPosInf)] [(m, PFloat FPosInf)] [m]))) m = Some True"
  by (simp_all add: summary_delta_def delta_step_def numeric_def dget_def float_sub_def)

end
