(* ===== verification/Selection.thy ===== *)
theory Selection
  imports Conditions "HOL-Library.Sublist"
begin

text \<open>
  Selection of the cases of a run, \<^verbatim>\<open>packages/contracts/motte_contracts/selection.py\<close>.  The generator
  \<^verbatim>\<open>random.Random(int(seed, 16)).sample\<close>, the digest and a fresh seed of \<^verbatim>\<open>secrets.token_hex(8)\<close> are
  arguments.
\<close>

datatype select_error = SelectValueError fstr | SelectError exn

definition CASE_SELECTION_MODES :: "string list" where
  "CASE_SELECTION_MODES = [''all'', ''ids'', ''random'']"

text \<open>\<^verbatim>\<open>re.fullmatch("[0-9a-fA-F]{8,64}", s)\<close>\<close>

definition hex_char :: "char \<Rightarrow> bool" where
  "hex_char c \<longleftrightarrow> ascii_digit c \<or> CHR ''a'' \<le> c \<and> c \<le> CHR ''f'' \<or> CHR ''A'' \<le> c \<and> c \<le> CHR ''F''"

definition SEED :: "string \<Rightarrow> bool" where
  "SEED s \<longleftrightarrow> 8 \<le> length s \<and> length s \<le> 64 \<and> list_all hex_char s"

record case_selection =
  cs_mode :: pyval
  cs_count :: nat
  cs_case_ids :: "string list"
  cs_seed :: "string option"
  cs_sha256 :: string

definition dataset_case_ids :: "pydict list \<Rightarrow> select_error + string list" where
  "dataset_case_ids cases = res_map (\<lambda>c. map_sum SelectError id (ditem_str c ''case_id'')) cases"

fun str_of :: "pyval \<Rightarrow> string option" where
  "str_of (PStr s) = Some s"
| "str_of _ = None"

definition known_id :: "string list \<Rightarrow> pyval \<Rightarrow> bool" where
  "known_id all_ids v = (case v of PStr s \<Rightarrow> s \<in> set all_ids | _ \<Rightarrow> False)"

text \<open>
  \<^verbatim>\<open>unknown = next((item ... if not known), None)\<close>: the default \<^verbatim>\<open>None\<close> of \<^verbatim>\<open>next\<close> cannot be told apart from
  a requested item that is \<^verbatim>\<open>None\<close>.  \<^verbatim>\<open>set(requested)\<close> raises on unhashable items.
\<close>

definition select_ids :: "string list \<Rightarrow> pyval \<Rightarrow> select_error + string list" where
  "select_ids all_ids requested = (case requested of
       PList items \<Rightarrow>
         if items = [] then Inl (SelectValueError [Txt ''case_selection.case_ids must be a non-empty list''])
         else (let unknown = (case find (\<lambda>v. \<not> known_id all_ids v) items of None \<Rightarrow> PNone | Some v \<Rightarrow> v) in
           if unknown \<noteq> PNone then Inl (SelectValueError [Txt ''case not in dataset: '', Rep unknown])
           else if list_ex is_container items then Inl (SelectError (TypeError ''unhashable type''))
           else Inr (filter (\<lambda>k. PStr k \<in> set items) all_ids))
     | _ \<Rightarrow> Inl (SelectValueError [Txt ''case_selection.case_ids must be a non-empty list'']))"

definition select_seed :: "string \<Rightarrow> pyval \<Rightarrow> select_error + string" where
  "select_seed fresh candidate = (case candidate of
       PNone \<Rightarrow> Inr fresh
     | PStr s \<Rightarrow> if s = [] then Inr fresh
         else if SEED s then Inr s
         else Inl (SelectValueError [Txt ''case_selection.seed must be 8-64 hex characters''])
     | _ \<Rightarrow> Inl (SelectValueError [Txt ''case_selection.seed must be 8-64 hex characters'']))"

definition select_random ::
    "(string \<Rightarrow> string list \<Rightarrow> nat \<Rightarrow> string list) \<Rightarrow> string \<Rightarrow> string list \<Rightarrow> pydict \<Rightarrow> select_error + string list \<times> string" where
  "select_random sample fresh all_ids selection =
     (case dget selection ''count'' of
        PInt n \<Rightarrow>
          if \<not> (0 < n \<and> n \<le> int (length all_ids)) then
            Inl (SelectValueError [Txt ''case_selection.count must be between 1 and '', Num (int (length all_ids))])
          else res_bind (select_seed fresh (dget selection ''seed'')) (\<lambda>seed.
            (let picked = sample seed all_ids (nat n) in
             Inr (filter (\<lambda>k. k \<in> set picked) all_ids, seed)))
      | _ \<Rightarrow> Inl (SelectValueError [Txt ''case_selection.count must be between 1 and '', Num (int (length all_ids))]))"

definition select_cases ::
    "(string \<Rightarrow> string list \<Rightarrow> nat \<Rightarrow> string list) \<Rightarrow> (string list \<Rightarrow> string) \<Rightarrow> string \<Rightarrow> pydict list \<Rightarrow> pyval
     \<Rightarrow> select_error + case_selection" where
  "select_cases sample digest fresh cases selection =
     res_bind (dataset_case_ids cases) (\<lambda>all_ids.
     (case (if selection = PNone then PDict [(''mode'', PStr ''all'')] else selection) of
        PDict d \<Rightarrow>
          (let mode = (if py_truthy (dget d ''mode'') then dget d ''mode'' else PStr ''all'') in
           res_bind
             (if mode = PStr ''all'' then Inr (all_ids, None)
              else if mode = PStr ''ids'' then
                res_bind (select_ids all_ids (dget d ''case_ids'')) (\<lambda>ids. Inr (ids, None))
              else if mode = PStr ''random'' then
                res_bind (select_random sample fresh all_ids d) (\<lambda>(ids, seed). Inr (ids, Some seed))
              else Inl (SelectValueError [Txt ''unsupported case_selection mode: '', Val mode]))
             (\<lambda>(selected, seed). Inr \<lparr>cs_mode = mode, cs_count = length selected, cs_case_ids = selected,
                cs_seed = seed, cs_sha256 = digest selected\<rparr>))
      | _ \<Rightarrow> Inl (SelectValueError [Txt ''case_selection must be an object''])))"

definition pos_int_value :: "pyval \<Rightarrow> int option" where
  "pos_int_value v = (case v of PInt n \<Rightarrow> if n > 0 then Some n else None | _ \<Rightarrow> None)"

definition run_selected_count :: "pyval \<Rightarrow> int option" where
  "run_selected_count provenance = (case provenance of
       PDict d \<Rightarrow>
         (case (case dget d ''run_selection'' of PDict r \<Rightarrow> pos_int_value (dget r ''count'') | _ \<Rightarrow> None) of
            Some n \<Rightarrow> Some n
          | None \<Rightarrow> pos_int_value (dget d ''selected_count''))
     | _ \<Rightarrow> None)"

section \<open>Facts\<close>

text \<open>\<^verbatim>\<open>sample(population, k)\<close> returns \<open>k\<close> elements of the population, at distinct positions.\<close>

definition sampler :: "(string \<Rightarrow> string list \<Rightarrow> nat \<Rightarrow> string list) \<Rightarrow> bool" where
  "sampler sample \<longleftrightarrow> (\<forall>seed xs n. n \<le> length xs \<longrightarrow> distinct xs \<longrightarrow>
     length (sample seed xs n) = n \<and> set (sample seed xs n) \<subseteq> set xs \<and> distinct (sample seed xs n))"

lemma sampled_length:
  assumes "sampler sample" "distinct xs" "n \<le> length xs"
  shows "length (filter (\<lambda>k. k \<in> set (sample seed xs n)) xs) = n"
proof -
  have p: "length (sample seed xs n) = n" "set (sample seed xs n) \<subseteq> set xs" "distinct (sample seed xs n)"
    using assms by (auto simp: sampler_def)
  have "length (filter (\<lambda>k. k \<in> set (sample seed xs n)) xs) = card (set xs \<inter> set (sample seed xs n))"
    using assms(2) by (metis distinct_card distinct_filter inter_set_filter Int_commute)
  also have "set xs \<inter> set (sample seed xs n) = set (sample seed xs n)" using p(2) by blast
  also have "card \<dots> = n" using p(1,3) by (simp add: distinct_card)
  finally show ?thesis .
qed

lemma select_cases_Inr:
  assumes "select_cases sample digest fresh cases selection = Inr r"
  shows "\<exists>all_ids. dataset_case_ids cases = Inr all_ids \<and> subseq (cs_case_ids r) all_ids \<and>
    cs_count r = length (cs_case_ids r) \<and> cs_sha256 r = digest (cs_case_ids r)"
proof -
  obtain all_ids where ids: "dataset_case_ids cases = Inr all_ids"
    using assms by (auto simp: select_cases_def res_bind_Inr)
  have sel: "subseq xs all_ids" if "select_ids all_ids v = Inr xs" for v xs
    using that by (auto simp: select_ids_def Let_def split: pyval.splits if_splits)
  have rnd: "subseq xs all_ids" if "select_random sample fresh all_ids d = Inr (xs, seed)" for d xs seed
    using that by (auto simp: select_random_def res_bind_Inr Let_def split: pyval.splits if_splits)
  from assms ids show ?thesis
    by (auto simp: select_cases_def res_bind_Inr Let_def split: pyval.splits if_splits dest: sel rnd)
qed

lemma select_random_Inr:
  assumes "select_random sample fresh all_ids d = Inr (xs, seed)"
  shows "\<exists>n. dget d ''count'' = PInt n \<and> 0 < n \<and> n \<le> int (length all_ids) \<and>
    xs = filter (\<lambda>k. k \<in> set (sample seed all_ids (nat n))) all_ids"
  using assms by (auto simp: select_random_def res_bind_Inr Let_def split: pyval.splits if_splits)

lemma select_cases_random:
  assumes "select_cases sample digest fresh cases selection = Inr r" "cs_mode r = PStr ''random''"
    "dataset_case_ids cases = Inr all_ids"
  shows "\<exists>d seed. selection = PDict d \<and> select_random sample fresh all_ids d = Inr (cs_case_ids r, seed) \<and>
    cs_count r = length (cs_case_ids r)"
  using assms
  by (cases selection) (auto simp: select_cases_def res_bind_Inr Let_def dget_def split: if_splits)

lemma select_cases_sound:
  assumes "sampler sample" "select_cases sample digest fresh cases selection = Inr r"
  shows "\<exists>all_ids. dataset_case_ids cases = Inr all_ids \<and> subseq (cs_case_ids r) all_ids \<and>
    cs_count r = length (cs_case_ids r) \<and> cs_sha256 r = digest (cs_case_ids r) \<and>
    (distinct all_ids \<and> cs_mode r = PStr ''random'' \<longrightarrow> (\<exists>d. selection = PDict d \<and> dget d ''count'' = PInt (int (cs_count r))))"
proof -
  obtain all_ids where ids: "dataset_case_ids cases = Inr all_ids" "subseq (cs_case_ids r) all_ids"
    "cs_count r = length (cs_case_ids r)" "cs_sha256 r = digest (cs_case_ids r)"
    using select_cases_Inr [OF assms(2)] by blast
  have "\<exists>d. selection = PDict d \<and> dget d ''count'' = PInt (int (cs_count r))"
    if d: "distinct all_ids" and m: "cs_mode r = PStr ''random''"
  proof -
    obtain d seed where sel: "selection = PDict d" "select_random sample fresh all_ids d = Inr (cs_case_ids r, seed)"
      using select_cases_random [OF assms(2) m ids(1)] by blast
    obtain n where n: "dget d ''count'' = PInt n" "0 < n" "n \<le> int (length all_ids)"
      "cs_case_ids r = filter (\<lambda>k. k \<in> set (sample seed all_ids (nat n))) all_ids"
      using select_random_Inr [OF sel(2)] by blast
    have "length (cs_case_ids r) = nat n"
      unfolding n(4) by (rule sampled_length [OF assms(1) d]) (use n(3) in linarith)
    then show ?thesis using sel(1) n(1,2) ids(3) by simp
  qed
  with ids show ?thesis by blast
qed

text \<open>A request for the identifier \<^verbatim>\<open>None\<close> alone is not refused, and selects nothing.\<close>

lemma none_id_selects_nothing: "select_ids all_ids (PList [PNone]) = Inr []"
  by (simp add: select_ids_def known_id_def)

end
