(* ===== verification/Invocations.thy ===== *)
theory Invocations
  imports Conditions Run_Repository
begin

text \<open>
  Persistent boundaries of model and tool calls, \<^verbatim>\<open>packages/storage/motte_storage/invocations.py\<close>, with the
  validator of \<^verbatim>\<open>InvocationRecord\<close> (\<^verbatim>\<open>packages/contracts/motte_contracts/evaluation.py\<close>).  Parsing and
  dumping of the fields by pydantic is the parameter \<open>parse\<close>; the text pydantic prints around a message
  is left out.
\<close>

section \<open>Validation\<close>

datatype inv_error = InvValue fstr | InvConflict string | InvExn exn

definition INVOCATION_TRANSITIONS :: "(string \<times> string list) list" where
  "INVOCATION_TRANSITIONS = [(''prepared'', [''dispatching'', ''settled'']), (''dispatching'', [''settled'']), (''settled'', [])]"

definition EXTENSION_FIELDS :: "string list" where
  "EXTENSION_FIELDS = [''revision'', ''purpose'', ''owner'', ''job_id'', ''scoring_pass_id'', ''criterion_id'']"

definition call_invariants :: "pydict \<Rightarrow> string option" where
  "call_invariants v =
     (if dget v ''status'' = PStr ''settled'' then
        if dget v ''outcome'' = PNone then Some ''settled invocation requires an outcome''
        else if dget v ''settled_at'' = PNone then Some ''settled invocation requires settled_at''
        else if dget v ''kind'' = PStr ''tool'' \<and> \<not> py_truthy (dget v ''tool_name'') then Some ''tool invocation requires tool_name''
        else if dget v ''kind'' = PStr ''model'' \<and> dget v ''tool_name'' \<noteq> PNone then Some ''model invocation cannot carry tool_name''
        else None
      else if dget v ''outcome'' \<noteq> PNone then Some ''only settled invocations carry an outcome''
      else if dget v ''kind'' = PStr ''tool'' \<and> \<not> py_truthy (dget v ''tool_name'') then Some ''tool invocation requires tool_name''
      else if dget v ''kind'' = PStr ''model'' \<and> dget v ''tool_name'' \<noteq> PNone then Some ''model invocation cannot carry tool_name''
      else None)"

type_synonym field_parser = "pydict \<Rightarrow> string + pydict"

definition model_validate :: "field_parser \<Rightarrow> pydict \<Rightarrow> inv_error + pydict" where
  "model_validate parse d = (case parse d of
       Inl m \<Rightarrow> Inl (InvValue [Txt (''invocation does not match the contract: '' @ m)])
     | Inr v \<Rightarrow> (case call_invariants v of
           Some m \<Rightarrow> Inl (InvValue [Txt (''invocation does not match the contract: '' @ m)])
         | None \<Rightarrow> Inr v))"

definition inv_str :: "pydict \<Rightarrow> string \<Rightarrow> inv_error + string" where
  "inv_str d k = map_sum InvExn id (ditem_str d k)"

fun nonempty_string :: "pyval \<Rightarrow> bool" where
  "nonempty_string (PStr s) = (s \<noteq> [])"
| "nonempty_string _ = False"

definition calibration_prefix :: string where
  "calibration_prefix = ''calibration:''"

definition validate_subject_owner :: "pydict \<Rightarrow> pydict \<Rightarrow> string \<Rightarrow> string \<Rightarrow> inv_error + pydict" where
  "validate_subject_owner owner validated run_id case_id =
     (if dget owner ''run_id'' \<notin> {PNone, PStr run_id} then Inl (InvValue [Txt ''subject invocation owner must match the run''])
      else if take (length calibration_prefix) run_id = calibration_prefix then
        Inl (InvValue [Txt ''subject invocation cannot use a calibration owner reference''])
      else Inr [(''kind'', PStr ''subject''), (''run_id'', PStr run_id), (''case_id'', PStr case_id),
        (''attempt_id'', if py_truthy (dget owner ''attempt_id'') then dget owner ''attempt_id''
           else dget validated ''attempt_id'')])"

definition validate_calibration_owner ::
    "pydict \<Rightarrow> pydict \<Rightarrow> string \<Rightarrow> string \<Rightarrow> string \<Rightarrow> inv_error + pydict" where
  "validate_calibration_owner owner validated purpose run_id case_id =
     (case (dget owner ''calibration_job_id'', dget owner ''sample_id'') of
        (PStr job, PStr sample) \<Rightarrow>
          if job = [] then Inl (InvValue [Txt ''calibration owner requires calibration_job_id''])
          else if sample = [] then Inl (InvValue [Txt ''calibration owner requires sample_id''])
          else if run_id \<noteq> calibration_prefix @ job then
            Inl (InvValue [Txt ''calibration invocation must use the namespaced owner reference '',
              Rep (PStr (calibration_prefix @ job)), Txt '', never a fabricated Run''])
          else if case_id \<noteq> sample then
            Inl (InvValue [Txt ''calibration invocation case_id must be the calibration sample id''])
          else if dget validated ''kind'' \<noteq> PStr ''model'' then
            Inl (InvValue [Txt ''calibration invocations must be model calls''])
          else if purpose \<noteq> ''judge'' then
            Inl (InvValue [Txt ''calibration invocations must be judge-purpose calls''])
          else Inr [(''kind'', PStr ''calibration''), (''calibration_job_id'', PStr job), (''sample_id'', PStr sample),
            (''run_id'', PStr run_id), (''case_id'', PStr case_id)]
      | (v, w) \<Rightarrow>
          if \<not> nonempty_string v then Inl (InvValue [Txt ''calibration owner requires calibration_job_id''])
          else Inl (InvValue [Txt ''calibration owner requires sample_id'']))"

definition validate_owner :: "pyval \<Rightarrow> pydict \<Rightarrow> string \<Rightarrow> inv_error + pydict" where
  "validate_owner owner validated purpose = (case owner of
       PDict ow \<Rightarrow>
         if dget ow ''kind'' \<notin> {PStr ''subject'', PStr ''calibration''} then
           Inl (InvValue [Txt ''unknown invocation owner kind: '', Rep (dget ow ''kind'')])
         else res_bind (inv_str validated ''run_id'') (\<lambda>run_id.
           res_bind (inv_str validated ''case_id'') (\<lambda>case_id.
           if dget ow ''kind'' = PStr ''subject'' then validate_subject_owner ow validated run_id case_id
           else validate_calibration_owner ow validated purpose run_id case_id))
     | _ \<Rightarrow> Inl (InvValue [Txt ''invocation owner must be an object'']))"

text \<open>\<^verbatim>\<open>x is not None and not isinstance(x, str)\<close>\<close>

fun optional_str :: "pyval \<Rightarrow> bool" where
  "optional_str PNone = True"
| "optional_str (PStr _) = True"
| "optional_str _ = False"

definition validate_purpose :: "pydict \<Rightarrow> inv_error + string" where
  "validate_purpose rec = (case dget_default rec ''purpose'' (PStr ''subject'') of
       PStr p \<Rightarrow> if p \<in> {''subject'', ''judge''} then Inr p
         else Inl (InvValue [Txt ''unknown invocation purpose: '', Rep (PStr p)])
     | v \<Rightarrow> Inl (InvValue [Txt ''unknown invocation purpose: '', Rep v]))"

definition validate_job :: "pydict \<Rightarrow> string \<Rightarrow> pydict \<Rightarrow> inv_error + pydict" where
  "validate_job rec purpose validated =
     (if purpose = ''judge'' then
        if \<not> nonempty_string (dget rec ''job_id'') then
          Inl (InvValue [Txt ''judge invocations must carry the scoring job id''])
        else Inr (od_set ''job_id'' (dget rec ''job_id'') validated)
      else if dget rec ''job_id'' \<noteq> PNone then
        Inl (InvValue [Txt ''only judge invocations may carry a scoring job id''])
      else Inr validated)"

definition validate_invocation :: "field_parser \<Rightarrow> pydict \<Rightarrow> inv_error + pydict" where
  "validate_invocation parse rec =
     res_bind (model_validate parse (filter (\<lambda>(k, _). k \<notin> set EXTENSION_FIELDS) rec)) (\<lambda>v.
     res_bind (validate_purpose rec) (\<lambda>purpose.
     res_bind (if dget rec ''owner'' = PNone then
         res_bind (inv_str v ''run_id'') (\<lambda>r. Inr (PDict [(''kind'', PStr ''subject''), (''run_id'', PStr r)]))
       else Inr (dget rec ''owner'')) (\<lambda>owner.
     res_bind (validate_owner owner v purpose) (\<lambda>normalized.
     res_bind (validate_job rec purpose (od_set ''purpose'' (PStr purpose) (od_set ''owner'' (PDict normalized) v))) (\<lambda>v2.
     if \<not> optional_str (dget rec ''scoring_pass_id'') then
       Inl (InvValue [Txt ''scoring_pass_id must be a string when provided''])
     else if \<not> optional_str (dget rec ''criterion_id'') then
       Inl (InvValue [Txt ''criterion_id must be a string when provided''])
     else
       (let v3 = od_set ''criterion_id'' (dget rec ''criterion_id'')
              (od_set ''scoring_pass_id'' (dget rec ''scoring_pass_id'') v2) in
        Inr (case map_of rec ''revision'' of None \<Rightarrow> v3 | Some r \<Rightarrow> od_set ''revision'' r v3)))))))"

text \<open>\<^verbatim>\<open>validate_invocation({**record, "status": record.get("status", "prepared")})\<close> with its revision.\<close>

definition prepare_invocation :: "field_parser \<Rightarrow> pydict \<Rightarrow> inv_error + pydict" where
  "prepare_invocation parse rec =
     map_sum id (dsetdefault ''revision'' (PInt 1))
       (validate_invocation parse (od_set ''status'' (dget_default rec ''status'' (PStr ''prepared'')) rec))"

text \<open>The compare-and-set on a stored record.\<close>

definition advance_invocation ::
    "field_parser \<Rightarrow> string \<Rightarrow> pydict \<Rightarrow> int \<Rightarrow> string \<Rightarrow> string \<Rightarrow> pydict \<Rightarrow> inv_error + pydict" where
  "advance_invocation parse iid current expected_revision expected_status status changes =
     (if \<not> py_eq (dget current ''revision'') (PInt expected_revision)
         \<or> \<not> py_eq (dget current ''status'') (PStr expected_status) then
        Inl (InvConflict (''invocation revision or status changed: '' @ iid))
      else if status \<notin> set (case map_of INVOCATION_TRANSITIONS expected_status of None \<Rightarrow> [] | Some xs \<Rightarrow> xs) then
        Inl (InvValue [Txt (''invalid invocation transition: '' @ expected_status @ '' -> '' @ status)])
      else validate_invocation parse (od_set ''revision'' (PInt (expected_revision + 1))
             (od_set ''status'' (PStr status) (od_merge current changes))))"

section \<open>The in-memory store\<close>

type_synonym mem_inv = "(string, pydict) odict"

definition mem_inv_create :: "field_parser \<Rightarrow> pydict \<Rightarrow> (mem_inv, inv_error, pydict) sop" where
  "mem_inv_create parse rec =
     st_bind (st_lift (prepare_invocation parse rec)) (\<lambda>stored.
     st_bind (st_lift (inv_str stored ''id'')) (\<lambda>iid.
     st_bind (st_get (\<lambda>rows. map_of rows iid)) (\<lambda>old.
     if old \<noteq> None then st_raise (InvConflict (''invocation already exists: '' @ iid))
     else st_bind (st_modify (od_set iid stored)) (\<lambda>_. st_return stored))))"

definition mem_inv_get :: "string \<Rightarrow> mem_inv \<Rightarrow> pydict option" where
  "mem_inv_get iid rows = map_of rows iid"

definition mem_inv_transition ::
    "field_parser \<Rightarrow> string \<Rightarrow> int \<Rightarrow> string \<Rightarrow> string \<Rightarrow> pydict \<Rightarrow> (mem_inv, inv_error, pydict) sop" where
  "mem_inv_transition parse iid expected_revision expected_status status changes =
     st_bind (st_get (mem_inv_get iid)) (\<lambda>current. case current of
         None \<Rightarrow> st_raise (InvConflict (''invocation missing: '' @ iid))
       | Some cur \<Rightarrow>
           st_bind (st_lift (advance_invocation parse iid cur expected_revision expected_status status changes)) (\<lambda>stored.
           st_bind (st_modify (od_set iid stored)) (\<lambda>_. st_return stored)))"

definition mem_inv_list_for_run :: "string \<Rightarrow> mem_inv \<Rightarrow> pydict list" where
  "mem_inv_list_for_run run_id rows = filter (\<lambda>r. py_eq (dget r ''run_id'') (PStr run_id)) (od_values rows)"

definition of_case :: "string \<Rightarrow> pydict list \<Rightarrow> pydict list" where
  "of_case case_id items = filter (\<lambda>r. py_eq (dget r ''case_id'') (PStr case_id)) items"

definition unsettled :: "pydict list \<Rightarrow> pydict list" where
  "unsettled items = filter (\<lambda>r. dget r ''status'' \<in> {PStr ''prepared'', PStr ''dispatching''}) items"

definition mem_inv_list_for_job :: "string \<Rightarrow> mem_inv \<Rightarrow> pydict list" where
  "mem_inv_list_for_job job rows = filter (\<lambda>r. py_eq (dget r ''job_id'') (PStr job)) (od_values rows)"

section \<open>The SQLite store\<close>

record inv_row =
  iv_id :: string
  iv_run :: string
  iv_case :: string
  iv_kind :: pyval
  iv_step :: pyval
  iv_status :: pyval
  iv_revision :: pyval
  iv_payload :: pydict

type_synonym sql_inv_table = "inv_row list"

definition sql_inv_select :: "string \<Rightarrow> sql_inv_table \<Rightarrow> inv_row option" where
  "sql_inv_select iid rows = find (\<lambda>r. iv_id r = iid) rows"

definition create_invocation_in_transaction :: "field_parser \<Rightarrow> pydict \<Rightarrow> (sql_inv_table, inv_error, pydict) sop" where
  "create_invocation_in_transaction parse rec =
     st_bind (st_lift (prepare_invocation parse rec)) (\<lambda>stored.
     st_bind (st_lift (inv_str stored ''id'')) (\<lambda>iid.
     st_bind (st_lift (inv_str stored ''run_id'')) (\<lambda>run_id.
     st_bind (st_lift (inv_str stored ''case_id'')) (\<lambda>case_id.
     st_bind (st_get (sql_inv_select iid)) (\<lambda>old.
     if old \<noteq> None then st_raise (InvConflict (''invocation already exists: '' @ iid))
     else st_bind (st_modify (\<lambda>rows. rows @ [\<lparr>iv_id = iid, iv_run = run_id, iv_case = case_id,
         iv_kind = dget stored ''kind'', iv_step = dget stored ''step'', iv_status = dget stored ''status'',
         iv_revision = dget stored ''revision'', iv_payload = jnorm_dict stored\<rparr>])) (\<lambda>_. st_return stored))))))"

definition inv_row_matches :: "string \<Rightarrow> string \<Rightarrow> int \<Rightarrow> inv_row \<Rightarrow> bool" where
  "inv_row_matches iid status revision r \<longleftrightarrow>
     iv_id r = iid \<and> py_eq (iv_status r) (PStr status) \<and> py_eq (iv_revision r) (PInt revision)"

definition transition_invocation_in_transaction ::
    "field_parser \<Rightarrow> string \<Rightarrow> int \<Rightarrow> string \<Rightarrow> string \<Rightarrow> pydict \<Rightarrow> (sql_inv_table, inv_error, pydict) sop" where
  "transition_invocation_in_transaction parse iid expected_revision expected_status status changes =
     st_bind (st_get (sql_inv_select iid)) (\<lambda>row. case row of
         None \<Rightarrow> st_raise (InvConflict (''invocation missing: '' @ iid))
       | Some r \<Rightarrow>
           st_bind (st_lift (advance_invocation parse iid (iv_payload r) expected_revision expected_status status changes)) (\<lambda>stored.
           st_bind (st_get (\<lambda>rows. length (filter (inv_row_matches iid expected_status expected_revision) rows))) (\<lambda>n.
           st_bind (st_modify (map (\<lambda>r. if inv_row_matches iid expected_status expected_revision r
               then r\<lparr>iv_payload := jnorm_dict stored, iv_status := PStr status, iv_revision := dget stored ''revision''\<rparr>
               else r))) (\<lambda>_.
           if n \<noteq> 1 then st_raise (InvConflict (''invocation revision or status changed: '' @ iid))
           else st_return stored))))"

definition sql_inv_create :: "field_parser \<Rightarrow> pydict \<Rightarrow> (sql_inv_table, inv_error, pydict) sop" where
  "sql_inv_create parse rec = transaction (create_invocation_in_transaction parse rec)"

definition sql_inv_transition ::
    "field_parser \<Rightarrow> string \<Rightarrow> int \<Rightarrow> string \<Rightarrow> string \<Rightarrow> pydict \<Rightarrow> (sql_inv_table, inv_error, pydict) sop" where
  "sql_inv_transition parse iid expected_revision expected_status status changes =
     transaction (transition_invocation_in_transaction parse iid expected_revision expected_status status changes)"

definition sql_inv_get :: "string \<Rightarrow> sql_inv_table \<Rightarrow> pydict option" where
  "sql_inv_get iid rows = map_option iv_payload (sql_inv_select iid rows)"

definition sql_inv_list_for_run :: "string \<Rightarrow> sql_inv_table \<Rightarrow> pydict list" where
  "sql_inv_list_for_run run_id rows = map iv_payload (filter (\<lambda>r. iv_run r = run_id) rows)"

definition sql_inv_list_for_job :: "string \<Rightarrow> sql_inv_table \<Rightarrow> pydict list" where
  "sql_inv_list_for_job job rows = map iv_payload (filter (\<lambda>r. py_eq (dget (iv_payload r) ''job_id'') (PStr job)) rows)"

end
