(* ===== verification/Invocation_Contract.thy ===== *)
theory Invocation_Contract
  imports Invocations
begin

text \<open>
  What both invocation stores promise: a stored call is well formed, its status only moves forward
  from \<^verbatim>\<open>prepared\<close> over \<^verbatim>\<open>dispatching\<close> to \<^verbatim>\<open>settled\<close>, and a settled call is final.
\<close>

section \<open>What the field parser keeps\<close>

text \<open>
  Parsing the fields of \<^verbatim>\<open>InvocationRecord\<close> with pydantic: string and literal fields come back as they
  were given, \<^verbatim>\<open>min_length=1\<close> and the literal types hold, and fields outside the model are refused.
\<close>

definition parser_ok :: "field_parser \<Rightarrow> bool" where
  "parser_ok parse \<longleftrightarrow> (\<forall>d v. parse d = Inr v \<longrightarrow>
     dget v ''status'' = dget d ''status'' \<and> dget v ''status'' \<in> {PStr ''prepared'', PStr ''dispatching'', PStr ''settled''} \<and>
     (\<forall>k\<in>{''id'', ''run_id'', ''case_id''}. dget v k = dget d k \<and> nonempty_string (dget v k)) \<and>
     (\<forall>k\<in>set EXTENSION_FIELDS. map_of v k = None))"

lemma parser_okD:
  assumes "parser_ok parse" "parse d = Inr v"
  shows "dget v ''status'' = dget d ''status''" "dget v ''status'' \<in> {PStr ''prepared'', PStr ''dispatching'', PStr ''settled''}"
    "nonempty_string (dget v ''id'')" "nonempty_string (dget v ''run_id'')" "nonempty_string (dget v ''case_id'')"
    "k \<in> set EXTENSION_FIELDS \<Longrightarrow> map_of v k = None"
proof -
  note * = assms(1) [unfolded parser_ok_def, THEN spec, THEN spec, THEN mp, OF assms(2)]
  show "dget v ''status'' = dget d ''status''" "dget v ''status'' \<in> {PStr ''prepared'', PStr ''dispatching'', PStr ''settled''}"
    "nonempty_string (dget v ''id'')" "nonempty_string (dget v ''run_id'')" "nonempty_string (dget v ''case_id'')"
    "k \<in> set EXTENSION_FIELDS \<Longrightarrow> map_of v k = None"
    using * by blast+
qed

lemma nonempty_stringE: "nonempty_string v \<Longrightarrow> (\<And>s. v = PStr s \<Longrightarrow> s \<noteq> [] \<Longrightarrow> thesis) \<Longrightarrow> thesis"
  by (cases v) auto

section \<open>Well-formed records\<close>

text \<open>An outcome exactly when settled; a job exactly when judging.\<close>

definition invocation_ok :: "pydict \<Rightarrow> bool" where
  "invocation_ok d \<longleftrightarrow>
     dget d ''status'' \<in> {PStr ''prepared'', PStr ''dispatching'', PStr ''settled''} \<and>
     (dget d ''outcome'' \<noteq> PNone \<longleftrightarrow> dget d ''status'' = PStr ''settled'') \<and>
     (dget d ''purpose'' = PStr ''subject'' \<and> dget d ''job_id'' = PNone \<or>
      dget d ''purpose'' = PStr ''judge'' \<and> nonempty_string (dget d ''job_id''))"

lemma model_validate_Inr:
  "model_validate parse d = Inr v \<longleftrightarrow> parse d = Inr v \<and> call_invariants v = None"
  by (auto simp: model_validate_def split: sum.splits option.splits)

lemma call_invariants_outcome:
  "call_invariants v = None \<Longrightarrow> dget v ''outcome'' \<noteq> PNone \<longleftrightarrow> dget v ''status'' = PStr ''settled''"
  by (auto simp: call_invariants_def split: if_splits)

lemma validate_job_Inr:
  assumes "validate_job rec purpose v = Inr w"
  shows "w = v \<and> purpose \<noteq> ''judge'' \<or> purpose = ''judge'' \<and> nonempty_string (dget rec ''job_id'') \<and> w = od_set ''job_id'' (dget rec ''job_id'') v"
  using assms by (auto simp: validate_job_def split: if_splits)

lemma validate_purpose_Inr: "validate_purpose rec = Inr p \<Longrightarrow> p = ''subject'' \<or> p = ''judge''"
  by (auto simp: validate_purpose_def split: pyval.splits if_splits)

text \<open>What validation returns: the parsed fields, and the extension fields around them.\<close>

lemma validate_invocation_Inr:
  assumes "validate_invocation parse rec = Inr w"
  obtains v p where "parse (filter (\<lambda>(k, _). k \<notin> set EXTENSION_FIELDS) rec) = Inr v" "call_invariants v = None"
    "p = ''subject'' \<or> p = ''judge''"
    "\<forall>k. k \<notin> set EXTENSION_FIELDS \<longrightarrow> dget w k = dget v k" "dget w ''purpose'' = PStr p"
    "if p = ''judge'' then nonempty_string (dget w ''job_id'') else dget w ''job_id'' = dget v ''job_id''"
    "dget w ''revision'' = (case map_of rec ''revision'' of None \<Rightarrow> dget v ''revision'' | Some r \<Rightarrow> r)"
proof -
  from assms obtain v p ow n v2 where v: "model_validate parse (filter (\<lambda>(k, _). k \<notin> set EXTENSION_FIELDS) rec) = Inr v"
    and p: "validate_purpose rec = Inr p"
    and v2: "validate_job rec p (od_set ''purpose'' (PStr p) (od_set ''owner'' (PDict n) v)) = Inr v2"
    and w: "w = (case map_of rec ''revision'' of
        None \<Rightarrow> od_set ''criterion_id'' (dget rec ''criterion_id'') (od_set ''scoring_pass_id'' (dget rec ''scoring_pass_id'') v2)
      | Some r \<Rightarrow> od_set ''revision'' r (od_set ''criterion_id'' (dget rec ''criterion_id'')
          (od_set ''scoring_pass_id'' (dget rec ''scoring_pass_id'') v2)))"
    unfolding validate_invocation_def res_bind_Inr Let_def by (auto split: if_splits)
  have job: "v2 = od_set ''purpose'' (PStr p) (od_set ''owner'' (PDict n) v) \<and> p \<noteq> ''judge'' \<or>
      p = ''judge'' \<and> nonempty_string (dget rec ''job_id'') \<and>
      v2 = od_set ''job_id'' (dget rec ''job_id'') (od_set ''purpose'' (PStr p) (od_set ''owner'' (PDict n) v))"
    by (rule validate_job_Inr [OF v2])
  show thesis
  proof (rule that)
    show "parse (filter (\<lambda>(k, _). k \<notin> set EXTENSION_FIELDS) rec) = Inr v" "call_invariants v = None"
      using v by (simp_all add: model_validate_Inr)
    show "p = ''subject'' \<or> p = ''judge''" by (rule validate_purpose_Inr [OF p])
    show "\<forall>k. k \<notin> set EXTENSION_FIELDS \<longrightarrow> dget w k = dget v k"
      using job w by (auto simp: dict_simps EXTENSION_FIELDS_def split: option.splits)
    show "dget w ''purpose'' = PStr p" using job w by (auto simp: dict_simps split: option.splits)
    show "if p = ''judge'' then nonempty_string (dget w ''job_id'') else dget w ''job_id'' = dget v ''job_id''"
      using job w by (auto simp: dict_simps split: option.splits)
    show "dget w ''revision'' = (case map_of rec ''revision'' of None \<Rightarrow> dget v ''revision'' | Some r \<Rightarrow> r)"
      using job w by (auto simp: dict_simps split: option.splits)
  qed
qed

lemma dget_filter: "k \<notin> set EXTENSION_FIELDS \<Longrightarrow> dget (filter (\<lambda>(k, _). k \<notin> set EXTENSION_FIELDS) d) k = dget d k"
proof -
  assume k: "k \<notin> set EXTENSION_FIELDS"
  have "map_of (filter (\<lambda>(k, _). k \<notin> set EXTENSION_FIELDS) d) k = map_of d k" using k by (induction d) auto
  then show ?thesis by (simp add: dget_def)
qed

lemma not_extension [simp]:
  "''status'' \<notin> set EXTENSION_FIELDS" "''outcome'' \<notin> set EXTENSION_FIELDS" "''id'' \<notin> set EXTENSION_FIELDS"
  "''run_id'' \<notin> set EXTENSION_FIELDS" "''case_id'' \<notin> set EXTENSION_FIELDS"
  by (simp_all add: EXTENSION_FIELDS_def)

lemma validated_ok:
  assumes "parser_ok parse" "validate_invocation parse rec = Inr w"
  shows "invocation_ok w" "dget w ''status'' = dget rec ''status''" "nonempty_string (dget w ''id'')"
    "nonempty_string (dget w ''run_id'')" "nonempty_string (dget w ''case_id'')"
    "map_of rec ''revision'' = Some r \<Longrightarrow> dget w ''revision'' = r"
proof -
  obtain v p where v: "parse (filter (\<lambda>(k, _). k \<notin> set EXTENSION_FIELDS) rec) = Inr v" "call_invariants v = None"
    "p = ''subject'' \<or> p = ''judge''"
    "\<forall>k. k \<notin> set EXTENSION_FIELDS \<longrightarrow> dget w k = dget v k" "dget w ''purpose'' = PStr p"
    "if p = ''judge'' then nonempty_string (dget w ''job_id'') else dget w ''job_id'' = dget v ''job_id''"
    "dget w ''revision'' = (case map_of rec ''revision'' of None \<Rightarrow> dget v ''revision'' | Some r \<Rightarrow> r)"
    by (rule validate_invocation_Inr [OF assms(2)])
  note parsed = parser_okD [OF assms(1) v(1)] and v4 = v(4) [rule_format]
  have "map_of v ''job_id'' = None" by (rule parsed(6)) (simp add: EXTENSION_FIELDS_def)
  then have "dget v ''job_id'' = PNone" by (simp add: dget_def)
  then show "invocation_ok w"
    using v(3,5,6) parsed(2) call_invariants_outcome [OF v(2)] by (auto simp: invocation_ok_def v4)
  show "dget w ''status'' = dget rec ''status''" using parsed(1) by (simp add: v4 dget_filter)
  show "nonempty_string (dget w ''id'')" "nonempty_string (dget w ''run_id'')" "nonempty_string (dget w ''case_id'')"
    using parsed(3-5) by (simp_all add: v4)
  show "map_of rec ''revision'' = Some r \<Longrightarrow> dget w ''revision'' = r" using v(7) by simp
qed

text \<open>The rank of a status; a transition strictly increases it.\<close>

definition rank :: "pydict \<Rightarrow> nat" where
  "rank d = (if dget d ''status'' = PStr ''prepared'' then 0 else if dget d ''status'' = PStr ''dispatching'' then 1 else 2)"

lemma rank_le: "rank d \<le> 2"
  by (simp add: rank_def)

lemma advance_invocation_Inr:
  assumes "parser_ok parse" "advance_invocation parse iid cur r es st ch = Inr w"
  shows "py_eq (dget cur ''revision'') (PInt r)" "dget cur ''status'' = PStr es" "dget w ''status'' = PStr st"
    "dget w ''revision'' = PInt (r + 1)" "invocation_ok w" "rank cur < rank w"
proof -
  have w: "validate_invocation parse (od_set ''revision'' (PInt (r + 1)) (od_set ''status'' (PStr st) (od_merge cur ch))) = Inr w"
    and cur: "py_eq (dget cur ''revision'') (PInt r)" "dget cur ''status'' = PStr es"
    and st: "st \<in> set (case map_of INVOCATION_TRANSITIONS es of None \<Rightarrow> [] | Some xs \<Rightarrow> xs)"
    using assms(2) by (auto simp: advance_invocation_def split: if_splits)
  note ok = validated_ok [OF assms(1) w]
  show "py_eq (dget cur ''revision'') (PInt r)" "dget cur ''status'' = PStr es" by (fact cur)+
  show "invocation_ok w" "dget w ''status'' = PStr st" using ok(1,2) by (simp_all add: dict_simps)
  then show "rank cur < rank w"
    using cur(2) st by (auto simp: rank_def INVOCATION_TRANSITIONS_def split: if_splits)
  show "dget w ''revision'' = PInt (r + 1)" by (rule ok(6)) simp
qed

lemma prepare_invocation_Inr:
  assumes "parser_ok parse" "prepare_invocation parse rec = Inr w"
  shows "invocation_ok w" "nonempty_string (dget w ''id'')" "nonempty_string (dget w ''run_id'')"
    "nonempty_string (dget w ''case_id'')"
proof -
  obtain v where v: "validate_invocation parse (od_set ''status'' (dget_default rec ''status'' (PStr ''prepared'')) rec) = Inr v"
    and w: "w = dsetdefault ''revision'' (PInt 1) v"
    using assms(2) by (auto simp: prepare_invocation_def map_sum_Inr_iff)
  have same: "dget w k = dget v k" if "k \<noteq> ''revision''" for k
    using that by (auto simp: w dsetdefault_def dict_simps split: option.splits)
  note ok = validated_ok [OF assms(1) v]
  show "invocation_ok w" using ok(1) by (simp add: invocation_ok_def same)
  show "nonempty_string (dget w ''id'')" "nonempty_string (dget w ''run_id'')" "nonempty_string (dget w ''case_id'')"
    using ok(3-5) by (simp_all add: same)
qed

section \<open>The interface of a store\<close>

datatype inv_op = InvCreate pydict | InvTransition string int string string pydict

definition inv_exec ::
    "(pydict \<Rightarrow> ('s, inv_error, pydict) sop) \<Rightarrow>
     (string \<Rightarrow> int \<Rightarrow> string \<Rightarrow> string \<Rightarrow> pydict \<Rightarrow> ('s, inv_error, pydict) sop) \<Rightarrow> inv_op \<Rightarrow> ('s, inv_error, pydict) sop" where
  "inv_exec create transition op =
     (case op of InvCreate rec \<Rightarrow> create rec | InvTransition i er es st ch \<Rightarrow> transition i er es st ch)"

text \<open>The number of successful transitions of a call in a script with its results.\<close>

fun transitions_done :: "string \<Rightarrow> inv_op list \<Rightarrow> (inv_error + pydict) list \<Rightarrow> nat" where
  "transitions_done i (InvTransition j _ _ _ _ # ops) (r # rs) = (if j = i \<and> \<not> isl r then 1 else 0) + transitions_done i ops rs"
| "transitions_done i (_ # ops) (_ # rs) = transitions_done i ops rs"
| "transitions_done i _ _ = 0"

text \<open>
  \<open>norm\<close> is the form in which a store keeps a record: as it is, or through JSON.
\<close>

locale invocation_store =
  fixes parse :: field_parser
    and create :: "pydict \<Rightarrow> ('s, inv_error, pydict) sop"
    and transition :: "string \<Rightarrow> int \<Rightarrow> string \<Rightarrow> string \<Rightarrow> pydict \<Rightarrow> ('s, inv_error, pydict) sop"
    and lookup :: "'s \<Rightarrow> string \<Rightarrow> pydict option"
    and ok :: "'s \<Rightarrow> bool"
    and norm :: "pydict \<Rightarrow> pydict"
  assumes parser: "parser_ok parse"
    and norm: "dget (norm d) k = jnorm (dget d k) \<or> dget (norm d) k = dget d k"
    and create_ok: "ok s \<Longrightarrow> create rec s = (r, t) \<Longrightarrow> ok t"
    and transition_ok: "ok s \<Longrightarrow> transition i er es st ch s = (r, t) \<Longrightarrow> ok t"
    and create_Inr: "ok s \<Longrightarrow> create rec s = (Inr w, t) \<Longrightarrow>
      \<exists>i. prepare_invocation parse rec = Inr w \<and> lookup s i = None \<and> lookup t = (lookup s)(i \<mapsto> norm w)"
    and create_Inl: "ok s \<Longrightarrow> create rec s = (Inl e, t) \<Longrightarrow> lookup t = lookup s"
    and transition_Inr: "ok s \<Longrightarrow> transition i er es st ch s = (Inr w, t) \<Longrightarrow>
      \<exists>cur. lookup s i = Some cur \<and> advance_invocation parse i cur er es st ch = Inr w \<and> lookup t = (lookup s)(i \<mapsto> norm w)"
    and transition_Inl: "ok s \<Longrightarrow> transition i er es st ch s = (Inl e, t) \<Longrightarrow> lookup t = lookup s"
begin

abbreviation exec :: "inv_op \<Rightarrow> 's \<Rightarrow> (inv_error + pydict) \<times> 's" where
  "exec \<equiv> inv_exec create transition"

lemmas exec_def = inv_exec_def

lemma exec_ok: "ok s \<Longrightarrow> ok (snd (exec op s))"
  by (cases op) (simp_all add: exec_def create_ok [OF _ surjective_pairing] transition_ok [OF _ surjective_pairing])

lemma script_ok: "ok s \<Longrightarrow> ok (snd (exec_all exec ops s))"
  by (induction ops arbitrary: s) (auto simp: split_def exec_ok)

lemma norm_status [simp]: "dget (norm d) k = PStr x \<longleftrightarrow> dget d k = PStr x" "dget (norm d) k = PNone \<longleftrightarrow> dget d k = PNone"
  using norm [of d k] by (metis jnorm_eq_scalar(5), metis jnorm_eq_scalar(1))

lemma norm_invocation_ok: "invocation_ok d \<Longrightarrow> invocation_ok (norm d)"
proof -
  have "nonempty_string (dget (norm d) k) \<longleftrightarrow> nonempty_string (dget d k)" for k
    using norm_status(1) [of d k] by (metis nonempty_string.simps(1) nonempty_stringE)
  then show "invocation_ok d \<Longrightarrow> invocation_ok (norm d)" by (auto simp: invocation_ok_def)
qed

lemma norm_rank [simp]: "rank (norm d) = rank d"
  by (simp add: rank_def)

text \<open>One step: nothing is lost, statuses move forward, new records are well formed.\<close>

lemma exec_cases:
  assumes "ok s" "exec op s = (r, t)"
  shows "isl r \<and> lookup t = lookup s \<or>
    (\<exists>i w. \<not> isl r \<and> lookup t = (lookup s)(i \<mapsto> norm w) \<and> invocation_ok w \<and>
       (case op of InvCreate _ \<Rightarrow> lookup s i = None
        | InvTransition j _ _ _ _ \<Rightarrow> j = i \<and> (\<exists>cur. lookup s i = Some cur \<and> rank cur < rank w)))"
proof (cases r)
  case (Inl e)
  then show ?thesis using assms create_Inl transition_Inl by (cases op) (auto simp: exec_def)
next
  case (Inr w)
  show ?thesis
  proof (cases op)
    case (InvCreate rec)
    then obtain i where "prepare_invocation parse rec = Inr w" "lookup s i = None" "lookup t = (lookup s)(i \<mapsto> norm w)"
      using create_Inr assms Inr by (fastforce simp: exec_def)
    then show ?thesis using prepare_invocation_Inr(1) [OF parser] InvCreate Inr by auto
  next
    case (InvTransition i er es st ch)
    then obtain cur where "lookup s i = Some cur" "advance_invocation parse i cur er es st ch = Inr w"
      "lookup t = (lookup s)(i \<mapsto> norm w)"
      using transition_Inr assms Inr by (fastforce simp: exec_def)
    then show ?thesis using advance_invocation_Inr(5,6) [OF parser] InvTransition Inr by auto
  qed
qed

abbreviation all_ok :: "'s \<Rightarrow> bool" where
  "all_ok s \<equiv> (\<forall>i d. lookup s i = Some d \<longrightarrow> invocation_ok d)"

lemma exec_all_ok: "ok s \<Longrightarrow> all_ok s \<Longrightarrow> all_ok (snd (exec op s))"
  using exec_cases [of s op "fst (exec op s)" "snd (exec op s)"] norm_invocation_ok
  by (auto split: if_splits)

lemma script_all_ok: "ok s \<Longrightarrow> all_ok s \<Longrightarrow> all_ok (snd (exec_all exec ops s))"
proof (induction ops arbitrary: s)
  case (Cons op ops)
  then have "all_ok (snd (exec_all exec ops (snd (exec op s))))" using exec_ok exec_all_ok by blast
  then show ?case by (simp add: split_def)
qed simp

text \<open>A settled call is final.\<close>

lemma settled_refused:
  assumes "ok s" "lookup s i = Some d" "dget d ''status'' = PStr ''settled''"
  shows "isl (fst (transition i er es st ch s)) \<and> lookup (snd (transition i er es st ch s)) = lookup s"
proof (cases "fst (transition i er es st ch s)")
  case (Inl e)
  then show ?thesis using transition_Inl [OF assms(1), of i er es st ch e] by (metis isl_def surjective_pairing)
next
  case (Inr w)
  then obtain cur where "lookup s i = Some cur" "advance_invocation parse i cur er es st ch = Inr w"
    using transition_Inr [OF assms(1), of i er es st ch w] by (metis surjective_pairing)
  then have "rank d < rank w" using assms(2) advance_invocation_Inr(6) [OF parser] by auto
  moreover have "rank d = 2" using assms(3) by (simp add: rank_def)
  ultimately show ?thesis using rank_le [of w] by simp
qed

text \<open>A call has at most two successful transitions in its life.\<close>

definition rank_of :: "'s \<Rightarrow> string \<Rightarrow> nat" where
  "rank_of s i = (case lookup s i of None \<Rightarrow> 0 | Some d \<Rightarrow> rank d)"

lemma transitions_rank: "ok s \<Longrightarrow> transitions_done i ops (fst (exec_all exec ops s)) + rank_of s i \<le> rank_of (snd (exec_all exec ops s)) i"
proof (induction ops arbitrary: s)
  case (Cons op ops)
  let ?r = "fst (exec op s)" and ?t = "snd (exec op s)"
  have IH: "transitions_done i ops (fst (exec_all exec ops ?t)) + rank_of ?t i \<le> rank_of (snd (exec_all exec ops ?t)) i"
    using Cons.IH [OF exec_ok [OF Cons.prems]] .
  have "(case op of InvTransition j _ _ _ _ \<Rightarrow> if j = i \<and> \<not> isl ?r then 1 else 0 | _ \<Rightarrow> 0) + rank_of s i \<le> rank_of ?t i"
    using exec_cases [OF Cons.prems, of op ?r ?t] by (cases op) (auto simp: rank_of_def split: option.splits if_splits)
  moreover have "transitions_done i (op # ops) (?r # rs) =
      (case op of InvTransition j _ _ _ _ \<Rightarrow> if j = i \<and> \<not> isl ?r then 1 else 0 | _ \<Rightarrow> 0) + transitions_done i ops rs" for rs
    by (cases op) auto
  ultimately show ?case using IH by (simp add: split_def)
qed simp

lemma at_most_two: "ok s \<Longrightarrow> transitions_done i ops (fst (exec_all exec ops s)) \<le> 2"
proof -
  assume "ok s"
  moreover have "rank_of (snd (exec_all exec ops s)) i \<le> 2"
    using rank_le by (simp add: rank_of_def split: option.splits)
  ultimately show ?thesis using transitions_rank [of s i ops] by linarith
qed

end

section \<open>Both stores provide it\<close>

locale invocation_parser =
  fixes parse :: field_parser
  assumes parser: "parser_ok parse"

lemma mem_inv_create_Inr:
  "mem_inv_create parse rec s = (Inr w, t) \<longleftrightarrow>
     (\<exists>i. prepare_invocation parse rec = Inr w \<and> inv_str w ''id'' = Inr i \<and> map_of s i = None \<and> t = od_set i w s)"
  unfolding mem_inv_create_def by (auto simp: sop_Inr)

lemma mem_inv_transition_Inr:
  "mem_inv_transition parse i er es st ch s = (Inr w, t) \<longleftrightarrow>
     (\<exists>cur. map_of s i = Some cur \<and> advance_invocation parse i cur er es st ch = Inr w \<and> t = od_set i w s)"
  unfolding mem_inv_transition_def by (auto simp: sop_Inr mem_inv_get_def)

lemma atomic_inv:
  "atomic (mem_inv_create parse rec)" "atomic (mem_inv_transition parse i er es st ch)"
  "atomic (sql_inv_create parse rec)" "atomic (sql_inv_transition parse i er es st ch)"
  unfolding mem_inv_create_def mem_inv_transition_def sql_inv_create_def sql_inv_transition_def
  by (intro atomic_intros)+

lemma atomic_Inl: "atomic m \<Longrightarrow> m s = (Inl e, t) \<Longrightarrow> t = s"
  by (simp add: atomic_def)

sublocale invocation_parser \<subseteq> meminv: invocation_store parse "mem_inv_create parse" "mem_inv_transition parse" map_of
  "\<lambda>_. True" "\<lambda>d. d"
proof
  show "parser_ok parse" by (rule parser)
qed (auto simp: mem_inv_create_Inr mem_inv_transition_Inr dest: atomic_Inl [OF atomic_inv(1)] atomic_Inl [OF atomic_inv(2)])

text \<open>The columns of a row agree with its payload, and the primary key is unique.\<close>

definition inv_row_ok :: "inv_row \<Rightarrow> bool" where
  "inv_row_ok r \<longleftrightarrow> iv_status r = dget (iv_payload r) ''status'' \<and> dget (iv_payload r) ''revision'' = jnorm (iv_revision r)"

definition sql_inv_ok :: "sql_inv_table \<Rightarrow> bool" where
  "sql_inv_ok rows \<longleftrightarrow> distinct (map iv_id rows) \<and> list_all inv_row_ok rows"

lemma sql_inv_select_iff:
  "distinct (map iv_id rows) \<Longrightarrow> sql_inv_select i rows = Some r \<longleftrightarrow> r \<in> set rows \<and> iv_id r = i"
  by (induction rows) (auto simp: sql_inv_select_def)

lemma sql_inv_select_None: "sql_inv_select i rows = None \<longleftrightarrow> i \<notin> iv_id ` set rows"
  by (auto simp: sql_inv_select_def find_None_iff)

lemma sql_inv_select_snoc:
  "sql_inv_select i (rows @ [r]) = (case sql_inv_select i rows of Some x \<Rightarrow> Some x | None \<Rightarrow> if iv_id r = i then Some r else None)"
  by (induction rows) (auto simp: sql_inv_select_def)

lemma sql_inv_select_map:
  "(\<And>r. iv_id (f r) = iv_id r) \<Longrightarrow> sql_inv_select i (map f rows) = map_option f (sql_inv_select i rows)"
  by (induction rows) (auto simp: sql_inv_select_def)

lemma py_eq_jnorm_PInt: "py_eq (jnorm v) (PInt n) = py_eq v (PInt n)"
  by (cases v) auto

lemma scalar_jnorm: "v \<in> {PStr a, PStr b, PStr c} \<Longrightarrow> jnorm v = v"
  by auto

lemma sql_inv_create_Inr:
  assumes "parser_ok parse" "sql_inv_ok s" "sql_inv_create parse rec s = (Inr w, t)"
  shows "\<exists>i. prepare_invocation parse rec = Inr w \<and> sql_inv_get i s = None \<and>
    (\<lambda>k. sql_inv_get k t) = (\<lambda>k. sql_inv_get k s)(i \<mapsto> jnorm_dict w) \<and> sql_inv_ok t"
proof -
  from assms(3) obtain i run c where w: "prepare_invocation parse rec = Inr w" and fresh: "sql_inv_select i s = None"
    and t: "t = s @ [\<lparr>iv_id = i, iv_run = run, iv_case = c, iv_kind = dget w ''kind'', iv_step = dget w ''step'',
      iv_status = dget w ''status'', iv_revision = dget w ''revision'', iv_payload = jnorm_dict w\<rparr>]"
    unfolding sql_inv_create_def create_invocation_in_transaction_def by (auto simp: sop_Inr)
  have status: "jnorm (dget w ''status'') = dget w ''status''"
    using prepare_invocation_Inr(1) [OF assms(1) w] by (auto simp: invocation_ok_def)
  have "sql_inv_ok t"
    using assms(2) fresh status by (auto simp: t sql_inv_ok_def inv_row_ok_def dget_jnorm_dict sql_inv_select_None)
  moreover have "(\<lambda>k. sql_inv_get k t) = (\<lambda>k. sql_inv_get k s)(i \<mapsto> jnorm_dict w)"
    using fresh by (auto simp: fun_eq_iff sql_inv_get_def t sql_inv_select_snoc split: option.splits)
  ultimately show ?thesis using w fresh by (auto simp: sql_inv_get_def)
qed

text \<open>The guarded update hits exactly the row that was read.\<close>

lemma sql_inv_match_unique:
  assumes "sql_inv_ok s" "sql_inv_select i s = Some r" "py_eq (dget (iv_payload r) ''revision'') (PInt er)"
    "dget (iv_payload r) ''status'' = PStr es"
  shows "x \<in> set s \<Longrightarrow> inv_row_matches i es er x \<longleftrightarrow> x = r" "length (filter (inv_row_matches i es er) s) = 1"
proof -
  have r: "r \<in> set s" "iv_id r = i" using assms(1,2) by (auto simp: sql_inv_ok_def sql_inv_select_iff)
  then have "inv_row_ok r" using assms(1) by (auto simp: sql_inv_ok_def list_all_iff)
  then have m: "inv_row_matches i es er r"
    using assms(3,4) r(2) by (simp add: inv_row_matches_def inv_row_ok_def py_eq_jnorm_PInt del: py_eq.simps)
  have unique: "x \<in> set s \<Longrightarrow> inv_row_matches i es er x \<longleftrightarrow> x = r" for x
  proof
    assume "x \<in> set s" "inv_row_matches i es er x"
    then have "sql_inv_select i s = Some x" using assms(1) by (simp add: sql_inv_ok_def sql_inv_select_iff inv_row_matches_def)
    then show "x = r" using assms(2) by simp
  qed (use m in simp)
  then show "x \<in> set s \<Longrightarrow> inv_row_matches i es er x \<longleftrightarrow> x = r" for x .
  have "filter (inv_row_matches i es er) s = filter (\<lambda>x. x = r) s"
    by (rule filter_cong) (simp_all add: unique)
  moreover have "distinct s" using assms(1) by (auto simp: sql_inv_ok_def distinct_map)
  ultimately show "length (filter (inv_row_matches i es er) s) = 1"
    using r(1) by (simp add: distinct_length_filter Int_absorb2 inf_commute flip: set_filter)
qed

definition inv_write :: "string \<Rightarrow> string \<Rightarrow> int \<Rightarrow> string \<Rightarrow> pydict \<Rightarrow> inv_row \<Rightarrow> inv_row" where
  "inv_write i es er st w r = (if inv_row_matches i es er r
     then r\<lparr>iv_payload := jnorm_dict w, iv_status := PStr st, iv_revision := dget w ''revision''\<rparr> else r)"

lemma sql_inv_transition_step:
  assumes "sql_inv_transition parse i er es st ch s = (Inr w, t)"
  shows "\<exists>r. sql_inv_select i s = Some r \<and> advance_invocation parse i (iv_payload r) er es st ch = Inr w \<and>
    t = map (inv_write i es er st w) s"
  using assms unfolding sql_inv_transition_def transition_invocation_in_transaction_def inv_write_def [abs_def]
  by (auto simp: sop_Inr split: option.splits if_splits)

lemma sql_inv_transition_Inr:
  assumes parse: "parser_ok parse" and ok: "sql_inv_ok s" and step: "sql_inv_transition parse i er es st ch s = (Inr w, t)"
  shows "\<exists>cur. sql_inv_get i s = Some cur \<and> advance_invocation parse i cur er es st ch = Inr w \<and>
    (\<lambda>k. sql_inv_get k t) = (\<lambda>k. sql_inv_get k s)(i \<mapsto> jnorm_dict w) \<and> sql_inv_ok t"
proof -
  obtain r where r: "sql_inv_select i s = Some r" and w: "advance_invocation parse i (iv_payload r) er es st ch = Inr w"
    and t: "t = map (inv_write i es er st w) s"
    using sql_inv_transition_step [OF step] by blast
  note adv = advance_invocation_Inr [OF parse w]
  note hit = sql_inv_match_unique(1) [OF ok r adv(1,2)]
  have id: "iv_id (inv_write i es er st w x) = iv_id x" for x by (simp add: inv_write_def)
  have "inv_row_ok (inv_write i es er st w x)" if "x \<in> set s" for x
    using ok that adv(3,4) by (auto simp: sql_inv_ok_def list_all_iff inv_row_ok_def inv_write_def dget_jnorm_dict)
  then have "sql_inv_ok t" using ok by (auto simp: t sql_inv_ok_def list_all_iff comp_def id)
  moreover have "sql_inv_get k t = (if k = i then Some (jnorm_dict w) else sql_inv_get k s)" for k
  proof (cases "sql_inv_select k s")
    case None
    then have "k \<noteq> i" using r by auto
    with None show ?thesis by (simp add: sql_inv_get_def t sql_inv_select_map id)
  next
    case (Some x)
    then have "x \<in> set s" "iv_id x = k" using ok by (auto simp: sql_inv_ok_def sql_inv_select_iff)
    moreover have "iv_id r = i" using r ok by (simp add: sql_inv_ok_def sql_inv_select_iff)
    then have "x = r \<longleftrightarrow> k = i" using Some r \<open>iv_id x = k\<close> by (metis option.inject)
    ultimately show ?thesis using Some hit [of x] by (simp add: sql_inv_get_def t sql_inv_select_map id inv_write_def)
  qed
  ultimately show ?thesis using r w by (auto simp: sql_inv_get_def fun_eq_iff)
qed

lemma sql_inv_Inl:
  "sql_inv_create parse rec s = (Inl e, t) \<Longrightarrow> t = s" "sql_inv_transition parse i er es st ch s = (Inl e, t) \<Longrightarrow> t = s"
  by (rule atomic_Inl [OF atomic_inv(3)], assumption) (rule atomic_Inl [OF atomic_inv(4)], assumption)

sublocale invocation_parser \<subseteq> sqlinv: invocation_store parse "sql_inv_create parse" "sql_inv_transition parse"
  "\<lambda>rows i. sql_inv_get i rows" sql_inv_ok jnorm_dict
proof
  show "parser_ok parse" by (rule parser)
  show "dget (jnorm_dict d) k = jnorm (dget d k) \<or> dget (jnorm_dict d) k = dget d k" for d k
    by (simp add: dget_jnorm_dict)
  show "sql_inv_ok t" if "sql_inv_ok s" "sql_inv_create parse rec s = (r, t)" for s rec r t
    using that sql_inv_create_Inr [OF parser] sql_inv_Inl(1) by (cases r) blast+
  show "sql_inv_ok t" if "sql_inv_ok s" "sql_inv_transition parse i er es st ch s = (r, t)" for s i er es st ch r t
    using that sql_inv_transition_Inr [OF parser] sql_inv_Inl(2) by (cases r) blast+
  show "\<exists>i. prepare_invocation parse rec = Inr w \<and> sql_inv_get i s = None \<and>
      (\<lambda>i. sql_inv_get i t) = (\<lambda>i. sql_inv_get i s)(i \<mapsto> jnorm_dict w)"
    if "sql_inv_ok s" "sql_inv_create parse rec s = (Inr w, t)" for s rec w t
    using sql_inv_create_Inr [OF parser that] by blast
  show "\<exists>cur. sql_inv_get i s = Some cur \<and> advance_invocation parse i cur er es st ch = Inr w \<and>
      (\<lambda>i. sql_inv_get i t) = (\<lambda>i. sql_inv_get i s)(i \<mapsto> jnorm_dict w)"
    if "sql_inv_ok s" "sql_inv_transition parse i er es st ch s = (Inr w, t)" for s i er es st ch w t
    using sql_inv_transition_Inr [OF parser that] by blast
qed (auto dest: sql_inv_Inl)

context invocation_parser
begin

lemma stored_calls_ok:
  "map_of (snd (exec_all (inv_exec (mem_inv_create parse) (mem_inv_transition parse)) ops [])) i = Some d \<Longrightarrow> invocation_ok d"
  "sql_inv_get i (snd (exec_all (inv_exec (sql_inv_create parse) (sql_inv_transition parse)) ops [])) = Some d \<Longrightarrow> invocation_ok d"
proof -
  have "\<forall>i d. map_of [] i = Some d \<longrightarrow> invocation_ok d" by simp
  from meminv.script_all_ok [OF TrueI this]
  show "map_of (snd (exec_all (inv_exec (mem_inv_create parse) (mem_inv_transition parse)) ops [])) i = Some d \<Longrightarrow> invocation_ok d"
    by blast
  have "sql_inv_ok []" "\<forall>i d. sql_inv_get i [] = Some d \<longrightarrow> invocation_ok d"
    by (simp_all add: sql_inv_ok_def sql_inv_get_def sql_inv_select_def)
  from sqlinv.script_all_ok [OF this]
  show "sql_inv_get i (snd (exec_all (inv_exec (sql_inv_create parse) (sql_inv_transition parse)) ops [])) = Some d \<Longrightarrow> invocation_ok d"
    by blast
qed

lemma settled_calls_refuse:
  assumes "dget d ''status'' = PStr ''settled''"
  shows "map_of m i = Some d \<Longrightarrow>
      isl (fst (mem_inv_transition parse i er es st ch m)) \<and> map_of (snd (mem_inv_transition parse i er es st ch m)) = map_of m"
    "sql_inv_ok rows \<Longrightarrow> sql_inv_get i rows = Some d \<Longrightarrow>
      isl (fst (sql_inv_transition parse i er es st ch rows)) \<and>
      (\<lambda>k. sql_inv_get k (snd (sql_inv_transition parse i er es st ch rows))) = (\<lambda>k. sql_inv_get k rows)"
  by (rule meminv.settled_refused [OF TrueI _ assms], assumption) (rule sqlinv.settled_refused [OF _ _ assms], assumption+)

lemma call_advances:
  "transitions_done i ops (fst (exec_all (inv_exec (mem_inv_create parse) (mem_inv_transition parse)) ops [])) \<le> 2"
  "transitions_done i ops (fst (exec_all (inv_exec (sql_inv_create parse) (sql_inv_transition parse)) ops [])) \<le> 2"
  by (rule meminv.at_most_two [OF TrueI], rule sqlinv.at_most_two) (simp add: sql_inv_ok_def)

end

text \<open>
  A parser of this kind, written out for records whose fields already have their types.
\<close>

definition plain_parser :: field_parser where
  "plain_parser d =
     (if list_all (\<lambda>k. nonempty_string (dget d k)) [''id'', ''run_id'', ''case_id''] \<and>
         dget d ''status'' \<in> {PStr ''prepared'', PStr ''dispatching'', PStr ''settled''} \<and> \<not> dhas_any EXTENSION_FIELDS d
      then Inr d else Inl ''invalid'')"

interpretation plain: invocation_parser plain_parser
  by unfold_locales (auto simp: parser_ok_def plain_parser_def dhas_any_iff split: if_splits)

end
