(* ===== verification/External_Jobs.thy ===== *)
theory External_Jobs
  imports Run_Repository
begin

text \<open>
  External jobs and their imported records, \<^verbatim>\<open>packages/storage/motte_storage/external_jobs.py\<close>: a job is
  started once, a record of a job is imported once per source key and parser version, and a different
  content under the same key goes to a ledger of conflicts.  Both stores are modelled; readings of
  \<^verbatim>\<open>_now_iso()\<close> are arguments.
\<close>

section \<open>Values of another type\<close>

text \<open>
  \<^verbatim>\<open>str(v)\<close>, \<^verbatim>\<open>int(v)\<close> and \<^verbatim>\<open>dict(v)\<close> of a value that does not have the type already, and the text a column
  of type \<^verbatim>\<open>TEXT NOT NULL\<close> holds for a bound value that is not a string: they only matter for records that do
  not satisfy the contract.
\<close>

record coercions =
  co_str :: "pyval \<Rightarrow> string"
  co_int :: "pyval \<Rightarrow> exn + int"
  co_dict :: "pyval \<Rightarrow> exn + pydict"
  co_text :: "pyval \<Rightarrow> exn + string"

definition to_str :: "coercions \<Rightarrow> pyval \<Rightarrow> string" where
  "to_str C v = (case v of PStr s \<Rightarrow> s | _ \<Rightarrow> co_str C v)"

definition to_int :: "coercions \<Rightarrow> pyval \<Rightarrow> exn + int" where
  "to_int C v = (case v of PInt n \<Rightarrow> Inr n | _ \<Rightarrow> co_int C v)"

definition to_dict :: "coercions \<Rightarrow> pyval \<Rightarrow> exn + pydict" where
  "to_dict C v = (case v of PDict d \<Rightarrow> Inr d | _ \<Rightarrow> co_dict C v)"

definition to_text :: "coercions \<Rightarrow> pyval \<Rightarrow> exn + string" where
  "to_text C v = (case v of PStr s \<Rightarrow> Inr s | PNone \<Rightarrow> Inl IntegrityError | _ \<Rightarrow> co_text C v)"

section \<open>Validation\<close>

definition RECOVERABLE_STATUSES :: "string list" where
  "RECOVERABLE_STATUSES = [''launching'', ''active'', ''collecting'']"

definition nonempty_field :: "pyval \<Rightarrow> bool" where
  "nonempty_field v = (case v of PStr s \<Rightarrow> s \<noteq> [] | _ \<Rightarrow> False)"

definition check_job :: "pyval \<Rightarrow> exn + pydict" where
  "check_job job = (case job of
       PDict d \<Rightarrow> (case find (\<lambda>k. \<not> nonempty_field (dget d k)) [''job_id'', ''run_id'', ''status'', ''launch_token''] of
           Some k \<Rightarrow> Inl (ValueError (''job requires a nonempty string '' @ k))
         | None \<Rightarrow> Inr d)
     | _ \<Rightarrow> Inl (ValueError ''job must be an object''))"

definition validate_import_args :: "string \<Rightarrow> string \<Rightarrow> string \<Rightarrow> string \<Rightarrow> exn + unit" where
  "validate_import_args job_id source_key parser_version content_hash =
     (case find (\<lambda>(_, v). v = []) [(''job_id'', job_id), (''source_record_key'', source_key),
         (''parser_version'', parser_version), (''content_hash'', content_hash)] of
        Some (name, _) \<Rightarrow> Inl (ValueError (''import requires a nonempty string '' @ name))
      | None \<Rightarrow> Inr ())"

definition job_defaults :: "string \<Rightarrow> pydict \<Rightarrow> pydict" where
  "job_defaults now stored =
     od_set ''updated_at'' (PStr now) (dsetdefault ''created_at'' (PStr now)
       (dsetdefault ''checkpoint'' (PDict []) (dsetdefault ''handle'' (PDict []) (dsetdefault ''spec'' (PDict []) stored))))"

text \<open>\<^verbatim>\<open>checkpoint["records_consumed"] + 1\<close>, written into the job together with the time.\<close>

definition consume_record :: "coercions \<Rightarrow> string \<Rightarrow> pydict \<Rightarrow> exn + pydict" where
  "consume_record C now job =
     res_bind (if py_truthy (dget job ''checkpoint'') then to_dict C (dget job ''checkpoint'') else Inr []) (\<lambda>checkpoint.
     res_bind (to_int C (dget_default checkpoint ''records_consumed'' (PInt 0))) (\<lambda>n.
     Inr (od_set ''updated_at'' (PStr now)
       (od_set ''checkpoint'' (PDict (od_set ''records_consumed'' (PInt (n + 1)) checkpoint)) job))))"

type_synonym record_key = "string \<times> string \<times> string"

definition import_view :: "record_key \<Rightarrow> string \<Rightarrow> pydict \<Rightarrow> pydict" where
  "import_view key content_hash payload = (case key of (job_id, source_key, parser_version) \<Rightarrow>
     [(''job_id'', PStr job_id), (''source_record_key'', PStr source_key), (''parser_version'', PStr parser_version),
      (''content_hash'', PStr content_hash), (''payload'', PDict payload)])"

definition conflict_view :: "record_key \<Rightarrow> pyval \<Rightarrow> string \<Rightarrow> pydict \<Rightarrow> string \<Rightarrow> pydict" where
  "conflict_view key existing_hash content_hash payload now = (case key of (job_id, source_key, parser_version) \<Rightarrow>
     [(''job_id'', PStr job_id), (''source_record_key'', PStr source_key), (''parser_version'', PStr parser_version),
      (''existing_hash'', existing_hash), (''incoming_hash'', PStr content_hash), (''incoming_payload'', PDict payload),
      (''detected_at'', PStr now)])"

text \<open>The three answers of \<^verbatim>\<open>import_record\<close>.\<close>

datatype import_result = Noop pydict | Conflict pydict string pydict | Imported pydict

section \<open>The in-memory store\<close>

record mem_jobs =
  mj_jobs :: "(string, pydict) odict"
  mj_records :: "(record_key, pydict) odict"
  mj_conflicts :: "pydict list"

definition mem_begin_job :: "string \<Rightarrow> pyval \<Rightarrow> (mem_jobs, exn, pydict) sop" where
  "mem_begin_job now job =
     st_bind (st_lift (map_sum id (job_defaults now) (check_job job))) (\<lambda>stored.
     st_bind (st_lift (ditem_str stored ''job_id'')) (\<lambda>job_id.
     st_bind (st_get (\<lambda>s. map_of (mj_jobs s) job_id)) (\<lambda>existing. case existing of
         Some old \<Rightarrow>
           if \<not> py_eq (dget old ''launch_token'') (dget stored ''launch_token'') then
             st_raise (RunConflictError (''job '' @ job_id @
               '' already exists with a different launch token; a job is never started twice''))
           else st_return old
       | None \<Rightarrow> st_bind (st_modify (\<lambda>s. s\<lparr>mj_jobs := od_set job_id stored (mj_jobs s)\<rparr>)) (\<lambda>_. st_return stored))))"

definition mem_update_job :: "string \<Rightarrow> string \<Rightarrow> pydict \<Rightarrow> string option \<Rightarrow> (mem_jobs, exn, pydict option) sop" where
  "mem_update_job now job_id changes guard_status_not =
     st_bind (st_get (\<lambda>s. map_of (mj_jobs s) job_id)) (\<lambda>current. case current of
         None \<Rightarrow> st_raise (KeyError job_id)
       | Some job \<Rightarrow>
           if (case guard_status_not of None \<Rightarrow> False | Some g \<Rightarrow> py_eq (dget job ''status'') (PStr g)) then st_return None
           else (let updated = od_set ''updated_at'' (PStr now) (od_merge job changes) in
             st_bind (st_modify (\<lambda>s. s\<lparr>mj_jobs := od_set job_id updated (mj_jobs s)\<rparr>)) (\<lambda>_. st_return (Some updated))))"

definition mem_get_job :: "string \<Rightarrow> mem_jobs \<Rightarrow> pydict option" where
  "mem_get_job job_id s = map_of (mj_jobs s) job_id"

definition mem_jobs_for_run :: "string \<Rightarrow> mem_jobs \<Rightarrow> pydict list" where
  "mem_jobs_for_run run_id s = filter (\<lambda>job. py_eq (dget job ''run_id'') (PStr run_id)) (od_values (mj_jobs s))"

definition recoverable :: "pydict list \<Rightarrow> pydict list" where
  "recoverable jobs = filter (\<lambda>job. list_ex (\<lambda>x. py_eq (dget job ''status'') (PStr x)) RECOVERABLE_STATUSES) jobs"

definition mem_import_record ::
    "coercions \<Rightarrow> string \<Rightarrow> string \<Rightarrow> record_key \<Rightarrow> string \<Rightarrow> pydict \<Rightarrow> (mem_jobs, exn, import_result) sop" where
  "mem_import_record C now now' key content_hash payload = (case key of (job_id, source_key, parser_version) \<Rightarrow>
     st_bind (st_lift (validate_import_args job_id source_key parser_version content_hash)) (\<lambda>_.
     st_bind (st_get (\<lambda>s. map_of (mj_jobs s) job_id)) (\<lambda>found. case found of
         None \<Rightarrow> st_raise (KeyError job_id)
       | Some job \<Rightarrow>
           st_bind (st_get (\<lambda>s. map_of (mj_records s) key)) (\<lambda>existing. case existing of
               Some old \<Rightarrow>
                 if py_eq (dget old ''content_hash'') (PStr content_hash) then st_return (Noop old)
                 else st_bind (st_modify (\<lambda>s. s\<lparr>mj_conflicts := mj_conflicts s
                     @ [conflict_view key (dget old ''content_hash'') content_hash payload now]\<rparr>)) (\<lambda>_.
                   st_return (Conflict old content_hash payload))
             | None \<Rightarrow>
                 (let rec = import_view key content_hash payload @ [(''imported_at'', PStr now)] in
                  st_bind (st_modify (\<lambda>s. s\<lparr>mj_records := od_set key rec (mj_records s)\<rparr>)) (\<lambda>_.
                  st_bind (st_lift (consume_record C now' job)) (\<lambda>job'.
                  st_bind (st_modify (\<lambda>s. s\<lparr>mj_jobs := od_set job_id job' (mj_jobs s)\<rparr>)) (\<lambda>_.
                  st_return (Imported rec)))))))))"

definition mem_list_records :: "string \<Rightarrow> mem_jobs \<Rightarrow> pydict list" where
  "mem_list_records job_id s = filter (\<lambda>r. py_eq (dget r ''job_id'') (PStr job_id)) (od_values (mj_records s))"

definition mem_list_conflicts :: "string option \<Rightarrow> mem_jobs \<Rightarrow> pydict list" where
  "mem_list_conflicts job_id s = filter (\<lambda>c. case job_id of None \<Rightarrow> True | Some j \<Rightarrow> py_eq (dget c ''job_id'') (PStr j)) (mj_conflicts s)"

section \<open>The SQLite store\<close>

record job_row =
  jb_id :: string
  jb_run :: string
  jb_status :: string
  jb_token :: string
  jb_payload :: pydict

record imported_row =
  im_key :: record_key
  im_hash :: string
  im_payload :: pydict
  im_at :: string

record conflict_row =
  cf_key :: record_key
  cf_existing :: string
  cf_incoming :: string
  cf_payload :: pydict
  cf_at :: string

record sql_jobs =
  sj_jobs :: "job_row list"
  sj_records :: "imported_row list"
  sj_conflicts :: "conflict_row list"

definition select_job :: "string \<Rightarrow> sql_jobs \<Rightarrow> job_row option" where
  "select_job job_id db = find (\<lambda>r. jb_id r = job_id) (sj_jobs db)"

definition select_record :: "record_key \<Rightarrow> sql_jobs \<Rightarrow> imported_row option" where
  "select_record key db = find (\<lambda>r. im_key r = key) (sj_records db)"

definition sql_begin_job :: "coercions \<Rightarrow> string \<Rightarrow> pyval \<Rightarrow> (sql_jobs, exn, pydict) sop" where
  "sql_begin_job C now job =
     st_bind (st_lift (map_sum id (job_defaults now) (check_job job))) (\<lambda>stored.
     st_bind (st_lift (ditem_str stored ''job_id'')) (\<lambda>job_id. transaction (
     st_bind (st_get (select_job job_id)) (\<lambda>found. case found of
         Some row \<Rightarrow>
           if to_str C (dget (jb_payload row) ''launch_token'') \<noteq> to_str C (dget stored ''launch_token'') then
             st_raise (RunConflictError
               (''job already exists with a different launch token; a job is never started twice: '' @ job_id))
           else st_return (jb_payload row)
       | None \<Rightarrow> st_bind (st_modify (\<lambda>db. db\<lparr>sj_jobs := sj_jobs db @ [\<lparr>jb_id = job_id,
             jb_run = to_str C (dget stored ''run_id''), jb_status = to_str C (dget stored ''status''),
             jb_token = to_str C (dget stored ''launch_token''), jb_payload = jnorm_dict stored\<rparr>]\<rparr>)) (\<lambda>_.
           st_return stored)))))"

text \<open>\<^verbatim>\<open>UPDATE external_jobs SET status = ?, payload = ? WHERE ...\<close> with the number of rows it hit.\<close>

definition update_jobs :: "(job_row \<Rightarrow> bool) \<Rightarrow> string \<Rightarrow> pydict \<Rightarrow> (sql_jobs, exn, nat) sop" where
  "update_jobs hit status payload =
     st_bind (st_get (\<lambda>db. length (filter hit (sj_jobs db)))) (\<lambda>n.
     st_bind (st_modify (\<lambda>db. db\<lparr>sj_jobs := map (\<lambda>r. if hit r
         then r\<lparr>jb_status := status, jb_payload := jnorm_dict payload\<rparr> else r) (sj_jobs db)\<rparr>)) (\<lambda>_.
     st_return n))"

definition sql_update_job ::
    "coercions \<Rightarrow> string \<Rightarrow> string \<Rightarrow> pydict \<Rightarrow> string option \<Rightarrow> (sql_jobs, exn, pydict option) sop" where
  "sql_update_job C now job_id changes guard_status_not = transaction (
     st_bind (st_get (select_job job_id)) (\<lambda>found. case found of
         None \<Rightarrow> st_raise (KeyError job_id)
       | Some row \<Rightarrow>
           (let job = jb_payload row;
                updated = od_set ''updated_at'' (PStr now) (od_merge job changes);
                new_status = to_str C (if py_truthy (dget updated ''status'') then dget updated ''status'' else dget job ''status'')
            in st_bind (update_jobs (\<lambda>r. jb_id r = job_id \<and>
                  (case guard_status_not of None \<Rightarrow> True | Some g \<Rightarrow> jb_status r \<noteq> g)) new_status updated) (\<lambda>guarded.
               if guarded = 0 then st_return None else st_return (Some updated)))))"

definition sql_get_job :: "string \<Rightarrow> sql_jobs \<Rightarrow> pydict option" where
  "sql_get_job job_id db = map_option jb_payload (select_job job_id db)"

definition sql_jobs_for_run :: "string \<Rightarrow> sql_jobs \<Rightarrow> pydict list" where
  "sql_jobs_for_run run_id db = map jb_payload (filter (\<lambda>r. jb_run r = run_id) (sj_jobs db))"

definition sql_import_record ::
    "coercions \<Rightarrow> string \<Rightarrow> string \<Rightarrow> record_key \<Rightarrow> string \<Rightarrow> pydict \<Rightarrow> (sql_jobs, exn, import_result) sop" where
  "sql_import_record C now now' key content_hash payload = (case key of (job_id, source_key, parser_version) \<Rightarrow>
     st_bind (st_lift (validate_import_args job_id source_key parser_version content_hash)) (\<lambda>_. transaction (
     st_bind (st_get (select_job job_id)) (\<lambda>found. case found of
         None \<Rightarrow> st_raise (KeyError job_id)
       | Some row \<Rightarrow>
           st_bind (st_get (select_record key)) (\<lambda>existing. case existing of
               Some old \<Rightarrow>
                 if im_hash old = content_hash then st_return (Noop (import_view key (im_hash old) (im_payload old)))
                 else st_bind (st_modify (\<lambda>db. db\<lparr>sj_conflicts := sj_conflicts db @ [\<lparr>cf_key = key,
                     cf_existing = im_hash old, cf_incoming = content_hash, cf_payload = jnorm_dict payload,
                     cf_at = now\<rparr>]\<rparr>)) (\<lambda>_.
                   st_return (Conflict (import_view key (im_hash old) (im_payload old)) content_hash payload))
             | None \<Rightarrow>
                 st_bind (st_modify (\<lambda>db. db\<lparr>sj_records := sj_records db @ [\<lparr>im_key = key, im_hash = content_hash,
                   im_payload = jnorm_dict payload, im_at = now\<rparr>]\<rparr>)) (\<lambda>_.
                 st_bind (st_lift (consume_record C now' (jb_payload row))) (\<lambda>job'.
                 st_bind (st_lift (to_text C (dget job' ''status''))) (\<lambda>status.
                 st_bind (update_jobs (\<lambda>r. jb_id r = job_id) status job') (\<lambda>_.
                 st_return (Imported (import_view key content_hash payload @ [(''imported_at'', PStr now)])))))))))))"

text \<open>\<^verbatim>\<open>ORDER BY imported_at, rowid\<close>\<close>

definition sql_list_records :: "string \<Rightarrow> sql_jobs \<Rightarrow> pydict list" where
  "sql_list_records job_id db = map (\<lambda>r. import_view (im_key r) (im_hash r) (im_payload r))
     (sort_key im_at (filter (\<lambda>r. fst (im_key r) = job_id) (sj_records db)))"

definition sql_list_conflicts :: "string option \<Rightarrow> sql_jobs \<Rightarrow> pydict list" where
  "sql_list_conflicts job_id db = map (\<lambda>c. conflict_view (cf_key c) (PStr (cf_existing c)) (cf_incoming c) (cf_payload c) (cf_at c))
     (filter (\<lambda>c. case job_id of None \<Rightarrow> True | Some j \<Rightarrow> fst (cf_key c) = j) (sj_conflicts db))"

end
