(* ===== verification/Import_Ledger.thy ===== *)
theory Import_Ledger
  imports External_Jobs
begin

text \<open>
  What both stores of external jobs promise: a record is imported exactly once, nothing that was
  imported changes, every different content is kept in the ledger of conflicts, the checkpoint of a job
  counts its records, and a job is started with one launch token only.
\<close>

section \<open>The operations of a store\<close>

datatype job_op =
    JBegin string pyval
  | JUpdate string string pydict "string option"
  | JImport string string record_key string pydict

datatype job_out = OJob pydict | OChanged "pydict option" | OImport import_result

definition mem_job_exec :: "coercions \<Rightarrow> job_op \<Rightarrow> (mem_jobs, exn, job_out) sop" where
  "mem_job_exec C op s = (case op of
       JBegin now job \<Rightarrow> out_map OJob (mem_begin_job now job s)
     | JUpdate now i changes g \<Rightarrow> out_map OChanged (mem_update_job now i changes g s)
     | JImport now now' key h p \<Rightarrow> out_map OImport (mem_import_record C now now' key h p s))"

definition sql_job_exec :: "coercions \<Rightarrow> job_op \<Rightarrow> (sql_jobs, exn, job_out) sop" where
  "sql_job_exec C op s = (case op of
       JBegin now job \<Rightarrow> out_map OJob (sql_begin_job C now job s)
     | JUpdate now i changes g \<Rightarrow> out_map OChanged (sql_update_job C now i changes g s)
     | JImport now now' key h p \<Rightarrow> out_map OImport (sql_import_record C now now' key h p s))"

definition mem_jobs_empty :: mem_jobs where
  "mem_jobs_empty = \<lparr>mj_jobs = [], mj_records = [], mj_conflicts = []\<rparr>"

definition sql_jobs_empty :: sql_jobs where
  "sql_jobs_empty = \<lparr>sj_jobs = [], sj_records = [], sj_conflicts = []\<rparr>"

type_synonym conflict = "record_key \<times> string \<times> string \<times> pydict"

fun imported_key :: "record_key \<Rightarrow> job_op \<Rightarrow> (exn + job_out) \<Rightarrow> bool" where
  "imported_key k (JImport _ _ key _ _) (Inr (OImport (Imported _))) = (key = k)"
| "imported_key _ _ _ = False"

fun is_conflict :: "(exn + job_out) \<Rightarrow> bool" where
  "is_conflict (Inr (OImport (Conflict _ _ _))) = True"
| "is_conflict _ = False"

fun is_import :: "job_op \<Rightarrow> bool" where
  "is_import (JImport _ _ _ _ _) = True"
| "is_import _ = False"

text \<open>How often a script imported a key.\<close>

fun import_count :: "record_key \<Rightarrow> job_op list \<Rightarrow> (exn + job_out) list \<Rightarrow> nat" where
  "import_count k (op # ops) (r # rs) = of_bool (imported_key k op r) + import_count k ops rs"
| "import_count k _ _ = 0"

section \<open>The interface\<close>

text \<open>
  \<open>lookup\<close> gives the hash and the stored payload of an imported record, \<open>ledger\<close> the conflicts in order.
\<close>

locale import_ledger =
  fixes exec :: "job_op \<Rightarrow> ('s, exn, job_out) sop"
    and inv :: "'s \<Rightarrow> bool"
    and lookup :: "'s \<Rightarrow> record_key \<Rightarrow> (string \<times> pydict) option"
    and ledger :: "'s \<Rightarrow> conflict list"
  assumes exec_inv: "inv s \<Longrightarrow> inv (snd (exec op s))"
    and exec_other: "inv s \<Longrightarrow> \<not> is_import op \<Longrightarrow> exec op s = (r, t) \<Longrightarrow>
      lookup t = lookup s \<and> ledger t = ledger s \<and> (case r of Inr (OImport _) \<Rightarrow> False | _ \<Rightarrow> True)"
    and import_same: "inv s \<Longrightarrow> lookup s key = Some (h, p0) \<Longrightarrow>
      \<exists>d. exec (JImport now now' key h p) s = (Inr (OImport (Noop d)), s)"
    and import_other: "inv s \<Longrightarrow> lookup s key = Some (h0, p0) \<Longrightarrow> h \<noteq> h0 \<Longrightarrow> h \<noteq> [] \<Longrightarrow>
      \<exists>d t. exec (JImport now now' key h p) s = (Inr (OImport (Conflict d h p)), t) \<and>
        lookup t = lookup s \<and> ledger t = ledger s @ [(key, h0, h, jnorm_dict p)]"
    and import_empty: "exec (JImport now now' key [] p) s = (r, t) \<Longrightarrow> isl r \<and> t = s"
    and import_new: "inv s \<Longrightarrow> lookup s key = None \<Longrightarrow> exec (JImport now now' key h p) s = (r, t) \<Longrightarrow>
      ledger t = ledger s \<and> (isl r \<and> lookup t = lookup s \<or>
        (isl r \<or> (\<exists>d. r = Inr (OImport (Imported d)))) \<and> lookup t = (lookup s)(key \<mapsto> (h, jnorm_dict p)))"
begin

lemma script_inv: "inv s \<Longrightarrow> inv (snd (exec_all exec ops s))"
proof (induction ops arbitrary: s)
  case (Cons op ops)
  then show ?case using exec_inv [OF Cons.prems, of op] by (simp add: split_def)
qed simp

text \<open>One step: what was imported stays, the ledger grows by the conflicts.\<close>

lemma step_cases:
  assumes "inv s" "exec op s = (r, t)"
  shows "(lookup s k = Some x \<longrightarrow> lookup t k = Some x) \<and>
    (\<exists>new. ledger t = ledger s @ new \<and> length new = of_bool (is_conflict r)) \<and>
    (imported_key k op r \<longrightarrow> lookup s k = None \<and> lookup t k \<noteq> None)"
proof (cases op)
  case op: (JImport now now' key h p)
  show ?thesis
  proof (cases "lookup s key")
    case None
    from import_new [OF assms(1) None, of now now' h p r t] assms(2) op
    consider "isl r" "lookup t = lookup s" "ledger t = ledger s"
      | "isl r" "lookup t = (lookup s)(key \<mapsto> (h, jnorm_dict p))" "ledger t = ledger s"
      | d where "r = Inr (OImport (Imported d))" "lookup t = (lookup s)(key \<mapsto> (h, jnorm_dict p))" "ledger t = ledger s"
      by auto
    then show ?thesis using None op by cases (auto simp: isl_def)
  next
    case (Some y)
    obtain h0 p0 where y: "lookup s key = Some (h0, p0)" using Some by (cases y) auto
    consider "h = h0" | "h = []" | "h \<noteq> h0" "h \<noteq> []" by blast
    then show ?thesis
    proof cases
      case 1
      then show ?thesis using import_same [OF assms(1) y, of now now' p] assms(2) op by auto
    next
      case 2
      then have "isl r \<and> t = s" using import_empty [of now now' key p s r t] assms(2) op by simp
      then show ?thesis by (auto simp: op isl_def)
    next
      case 3
      then show ?thesis using import_other [OF assms(1) y 3, of now now' p] assms(2) op by auto
    qed
  qed
next
  case (JBegin now job)
  with exec_other [OF assms(1), of op r t] assms(2) show ?thesis by (auto split: sum.splits job_out.splits)
next
  case (JUpdate now i changes g)
  with exec_other [OF assms(1), of op r t] assms(2) show ?thesis by (auto split: sum.splits job_out.splits)
qed

lemma record_kept:
  assumes "inv s" "lookup s k = Some x"
  shows "lookup (snd (exec_all exec ops s)) k = Some x"
  using assms
proof (induction ops arbitrary: s)
  case (Cons op ops)
  have "lookup (snd (exec op s)) k = Some x"
    using step_cases [OF Cons.prems(1), of op "fst (exec op s)" "snd (exec op s)" k x] Cons.prems(2) by simp
  then show ?case using Cons.IH [OF exec_inv [OF Cons.prems(1)]] by (simp add: split_def)
qed simp

lemma ledger_grows:
  "inv s \<Longrightarrow> \<exists>new. ledger (snd (exec_all exec ops s)) = ledger s @ new \<and>
     length new = length (filter is_conflict (fst (exec_all exec ops s)))"
proof (induction ops arbitrary: s)
  case (Cons op ops)
  let ?r = "fst (exec op s)" and ?t = "snd (exec op s)"
  obtain new where new: "ledger ?t = ledger s @ new" "length new = of_bool (is_conflict ?r)"
    using step_cases [OF Cons.prems surjective_pairing] by blast
  obtain more where "ledger (snd (exec_all exec ops ?t)) = ledger ?t @ more"
    "length more = length (filter is_conflict (fst (exec_all exec ops ?t)))"
    using Cons.IH [OF exec_inv [OF Cons.prems]] by blast
  then show ?case using new by (intro exI [of _ "new @ more"]) (simp add: split_def)
qed simp

lemma imported_once:
  "inv s \<Longrightarrow> import_count k ops (fst (exec_all exec ops s)) \<le> of_bool (lookup s k = None)"
proof (induction ops arbitrary: s)
  case (Cons op ops)
  let ?r = "fst (exec op s)" and ?t = "snd (exec op s)"
  have "import_count k ops (fst (exec_all exec ops ?t)) \<le> of_bool (lookup ?t k = None)"
    by (rule Cons.IH [OF exec_inv [OF Cons.prems]])
  moreover have "of_bool (imported_key k op ?r) + of_bool (lookup ?t k = None) \<le> (of_bool (lookup s k = None) :: nat)"
    using step_cases [OF Cons.prems, of op ?r ?t k] by (cases "lookup s k") auto
  ultimately show ?case by (simp add: split_def)
qed simp

text \<open>Importing the same content again does nothing, at any later time.\<close>

lemma reimport_noop:
  assumes "inv s" "fst (exec (JImport now now' key h p) s) = Inr (OImport (Imported d))"
  shows "\<exists>d'. exec (JImport m m' key h q) (snd (exec_all exec (JImport now now' key h p # ops) s))
    = (Inr (OImport (Noop d')), snd (exec_all exec (JImport now now' key h p # ops) s))"
proof -
  let ?t = "snd (exec (JImport now now' key h p) s)"
  have e: "exec (JImport now now' key h p) s = (Inr (OImport (Imported d)), ?t)" using assms(2) by (simp add: prod_eq_iff)
  then have "lookup s key = None" using step_cases [OF assms(1) e, of key] by auto
  then have "lookup ?t key = Some (h, jnorm_dict p)" using import_new [OF assms(1) _ e] by auto
  then have "lookup (snd (exec_all exec ops ?t)) key = Some (h, jnorm_dict p)"
    by (rule record_kept [OF exec_inv [OF assms(1)]])
  from import_same [OF script_inv [OF exec_inv [OF assms(1)]] this] show ?thesis by (simp add: split_def)
qed

end

section \<open>The in-memory store\<close>

fun key_ok :: "record_key \<Rightarrow> bool" where
  "key_ok (j, k, v) \<longleftrightarrow> j \<noteq> [] \<and> k \<noteq> [] \<and> v \<noteq> []"

lemma validate_import_args_Inr: "validate_import_args j k v h = Inr u \<longleftrightarrow> key_ok (j, k, v) \<and> h \<noteq> []"
  by (auto simp: validate_import_args_def)

lemma validate_import_args_ok [simp]: "key_ok (j, k, v) \<Longrightarrow> h \<noteq> [] \<Longrightarrow> validate_import_args j k v h = Inr ()"
  using validate_import_args_Inr by simp

lemma validate_import_args_empty: "\<exists>e. validate_import_args j k v [] = Inl e"
  by (cases "validate_import_args j k v []") (simp_all add: validate_import_args_Inr)

text \<open>Hash and payload of a record as it is stored.\<close>

definition record_of :: "pydict \<Rightarrow> string \<times> pydict" where
  "record_of d = (case (dget d ''content_hash'', dget d ''payload'') of
     (PStr h, PDict p) \<Rightarrow> (h, jnorm_dict p) | _ \<Rightarrow> ([], []))"

definition conflict_of :: "pydict \<Rightarrow> conflict" where
  "conflict_of d = (case (dget d ''job_id'', dget d ''source_record_key'', dget d ''parser_version'',
       dget d ''existing_hash'', dget d ''incoming_hash'', dget d ''incoming_payload'') of
     (PStr j, PStr k, PStr v, PStr h0, PStr h, PDict p) \<Rightarrow> ((j, k, v), h0, h, jnorm_dict p) | _ \<Rightarrow> (([], [], []), [], [], []))"

lemma record_of_view [simp]: "record_of (import_view key h p @ rest) = (h, jnorm_dict p)"
  by (cases key) (simp add: record_of_def import_view_def dget_def)

lemma conflict_of_view [simp]: "conflict_of (conflict_view key (PStr h0) h p now) = (key, h0, h, jnorm_dict p)"
  by (cases key) (simp add: conflict_of_def conflict_view_def dget_def)

definition mem_lookup :: "mem_jobs \<Rightarrow> record_key \<Rightarrow> (string \<times> pydict) option" where
  "mem_lookup s key = map_option record_of (map_of (mj_records s) key)"

definition mem_ledger :: "mem_jobs \<Rightarrow> conflict list" where
  "mem_ledger s = map conflict_of (mj_conflicts s)"

definition mem_jobs_inv :: "mem_jobs \<Rightarrow> bool" where
  "mem_jobs_inv s \<longleftrightarrow> (\<forall>key d. map_of (mj_records s) key = Some d \<longrightarrow>
     key_ok key \<and> map_of (mj_jobs s) (fst key) \<noteq> None \<and> (\<exists>h p rest. h \<noteq> [] \<and> d = import_view key h p @ rest))"

lemma mem_jobs_invD:
  assumes "mem_jobs_inv s" "map_of (mj_records s) key = Some d"
  shows "key_ok key" "\<exists>job. map_of (mj_jobs s) (fst key) = Some job" "\<exists>h p rest. h \<noteq> [] \<and> d = import_view key h p @ rest"
  using assms unfolding mem_jobs_inv_def by blast+

lemma dget_import_hash [simp]: "dget (import_view key h p @ rest) ''content_hash'' = PStr h"
  by (cases key) (simp add: import_view_def dget_def)

text \<open>Writing a job keeps the records.\<close>

lemma mem_put_job_inv: "mem_jobs_inv s \<Longrightarrow> mem_jobs_inv (s\<lparr>mj_jobs := od_set j job (mj_jobs s)\<rparr>)"
  by (auto simp: mem_jobs_inv_def)

lemma mem_put_record_inv:
  "mem_jobs_inv s \<Longrightarrow> key_ok key \<Longrightarrow> h \<noteq> [] \<Longrightarrow> map_of (mj_jobs s) (fst key) \<noteq> None \<Longrightarrow>
   mem_jobs_inv (s\<lparr>mj_records := od_set key (import_view key h p @ rest) (mj_records s)\<rparr>)"
  by (auto simp: mem_jobs_inv_def)

lemma mem_other_unchanged:
  "mj_records (snd (mem_begin_job now job s)) = mj_records s \<and> mj_conflicts (snd (mem_begin_job now job s)) = mj_conflicts s"
  "mj_records (snd (mem_update_job now i ch g s)) = mj_records s \<and> mj_conflicts (snd (mem_update_job now i ch g s)) = mj_conflicts s"
proof -
  let ?P = "\<lambda>t. mj_records t = mj_records s \<and> mj_conflicts t = mj_conflicts s"
  have "keeps ?P (mem_begin_job now job)" unfolding mem_begin_job_def by (intro keeps_intros) auto
  then show "?P (snd (mem_begin_job now job s))" by (rule keepsD) simp
  have "keeps ?P (mem_update_job now i ch g)" unfolding mem_update_job_def Let_def by (intro keeps_intros) auto
  then show "?P (snd (mem_update_job now i ch g s))" by (rule keepsD) simp
qed

lemma mem_begin_inv: "keeps mem_jobs_inv (mem_begin_job now job)"
  unfolding mem_begin_job_def by (intro keeps_intros mem_put_job_inv)

lemma mem_update_inv: "keeps mem_jobs_inv (mem_update_job now i ch g)"
  unfolding mem_update_job_def Let_def by (intro keeps_intros mem_put_job_inv)

lemma mem_import_new:
  assumes "map_of (mj_records s) key = None" "mem_import_record C now now' key h p s = (r, t)"
  shows "isl r \<and> t = s \<or> (\<exists>job rec. key_ok key \<and> h \<noteq> [] \<and> map_of (mj_jobs s) (fst key) = Some job \<and>
     rec = import_view key h p @ [(''imported_at'', PStr now)] \<and>
     (\<exists>s1. s1 = s\<lparr>mj_records := od_set key rec (mj_records s)\<rparr> \<and>
       (isl r \<and> t = s1 \<or> (\<exists>job'. consume_record C now' job = Inr job' \<and> r = Inr (Imported rec) \<and>
          t = s1\<lparr>mj_jobs := od_set (fst key) job' (mj_jobs s)\<rparr>))))"
proof (cases key)
  case (fields j k v)
  show ?thesis
  proof (cases "validate_import_args j k v h")
    case (Inl e)
    then show ?thesis using assms(2) by (auto simp: fields mem_import_record_def st_bind_def sop_simps)
  next
    case (Inr u)
    then have ok: "key_ok key" "h \<noteq> []" by (simp_all add: validate_import_args_Inr fields)
    show ?thesis
    proof (cases "map_of (mj_jobs s) j")
      case None
      then show ?thesis using assms(2) Inr by (auto simp: fields mem_import_record_def st_bind_def sop_simps)
    next
      case (Some job)
      then show ?thesis using assms Inr ok
        by (cases "consume_record C now' job") (auto simp: fields mem_import_record_def st_bind_def sop_simps Let_def)
    qed
  qed
qed

lemma mem_import_seen:
  assumes "mem_jobs_inv s" "mem_lookup s key = Some (h0, p0)" "h \<noteq> []"
  shows "\<exists>d. mem_import_record C now now' key h p s = (if h = h0 then (Inr (Noop d), s)
    else (Inr (Conflict d h p), s\<lparr>mj_conflicts := mj_conflicts s @ [conflict_view key (PStr h0) h p now]\<rparr>))"
proof -
  obtain d where d: "map_of (mj_records s) key = Some d" "record_of d = (h0, p0)" using assms(2) by (auto simp: mem_lookup_def)
  note inv = mem_jobs_invD [OF assms(1) d(1)]
  then obtain h1 p1 rest job where h1: "d = import_view key h1 p1 @ rest" and job: "map_of (mj_jobs s) (fst key) = Some job" by blast
  have "h1 = h0" using d(2) h1 by simp
  then have "mem_import_record C now now' key h p s = (if h = h0 then (Inr (Noop d), s)
    else (Inr (Conflict d h p), s\<lparr>mj_conflicts := mj_conflicts s @ [conflict_view key (PStr h0) h p now]\<rparr>))"
    using d(1) h1 job inv(1) assms(3)
    by (cases key) (auto simp: mem_import_record_def st_bind_def sop_simps)
  then show ?thesis by blast
qed

lemma mem_import_inv: "keeps mem_jobs_inv (mem_import_record C now now' key h p)"
proof (rule keepsI)
  fix s assume inv: "mem_jobs_inv s"
  let ?r = "fst (mem_import_record C now now' key h p s)" and ?t = "snd (mem_import_record C now now' key h p s)"
  show "mem_jobs_inv ?t"
  proof (cases "map_of (mj_records s) key")
    case None
    from mem_import_new [OF None surjective_pairing] consider "?t = s"
      | job rec job' where "key_ok key" "h \<noteq> []" "map_of (mj_jobs s) (fst key) = Some job"
          "rec = import_view key h p @ [(''imported_at'', PStr now)]"
          "?t = s\<lparr>mj_records := od_set key rec (mj_records s)\<rparr> \<or>
           ?t = s\<lparr>mj_records := od_set key rec (mj_records s)\<rparr>\<lparr>mj_jobs := od_set (fst key) job' (mj_jobs s)\<rparr>" by blast
    then show ?thesis
    proof cases
      case 1
      then show ?thesis using inv by simp
    next
      case 2
      then have "mem_jobs_inv (s\<lparr>mj_records := od_set key rec (mj_records s)\<rparr>)" using inv mem_put_record_inv by simp
      with mem_put_job_inv [OF this, of "fst key" job'] 2(5) show ?thesis by auto
    qed
  next
    case (Some d)
    show ?thesis
    proof (cases "h = []")
      case True
      obtain e where "validate_import_args (fst key) (fst (snd key)) (snd (snd key)) [] = Inl e"
        using validate_import_args_empty by blast
      then show ?thesis using inv True by (simp add: mem_import_record_def st_bind_def sop_simps split_def)
    next
      case False
      obtain h0 p0 where "mem_lookup s key = Some (h0, p0)" using Some by (cases "record_of d") (auto simp: mem_lookup_def)
      then obtain d' where "mem_import_record C now now' key h p s = (if h = h0 then (Inr (Noop d'), s)
          else (Inr (Conflict d' h p), s\<lparr>mj_conflicts := mj_conflicts s @ [conflict_view key (PStr h0) h p now]\<rparr>))"
        using mem_import_seen [OF inv _ False] by blast
      then show ?thesis using inv by (cases "h = h0") (simp_all add: mem_jobs_inv_def)
    qed
  qed
qed

interpretation memj: import_ledger "mem_job_exec C" mem_jobs_inv mem_lookup mem_ledger for C
proof
  show "mem_jobs_inv (snd (mem_job_exec C op s))" if "mem_jobs_inv s" for op s
    using that keepsD [OF mem_begin_inv] keepsD [OF mem_update_inv] keepsD [OF mem_import_inv]
    by (cases op) (simp_all add: mem_job_exec_def)
  show "mem_lookup t = mem_lookup s \<and> mem_ledger t = mem_ledger s \<and> (case r of Inr (OImport _) \<Rightarrow> False | _ \<Rightarrow> True)"
    if "mem_jobs_inv s" "\<not> is_import op" "mem_job_exec C op s = (r, t)" for s op r t
    using that(2,3) mem_other_unchanged
    by (cases op) (auto simp: mem_job_exec_def out_map_def mem_lookup_def mem_ledger_def map_sum_def split: sum.splits)
  show "\<exists>d. mem_job_exec C (JImport now now' key h p) s = (Inr (OImport (Noop d)), s)"
    if inv: "mem_jobs_inv s" and seen: "mem_lookup s key = Some (h, p0)" for s key h p0 now now' p
  proof -
    obtain d where "map_of (mj_records s) key = Some d" "record_of d = (h, p0)" using seen by (auto simp: mem_lookup_def)
    then have "h \<noteq> []" using mem_jobs_invD(3) [OF inv] by fastforce
    from mem_import_seen [OF inv seen this, of C now now' p] show ?thesis by (auto simp: mem_job_exec_def out_map_def)
  qed
  show "\<exists>d t. mem_job_exec C (JImport now now' key h p) s = (Inr (OImport (Conflict d h p)), t) \<and>
      mem_lookup t = mem_lookup s \<and> mem_ledger t = mem_ledger s @ [(key, h0, h, jnorm_dict p)]"
    if "mem_jobs_inv s" "mem_lookup s key = Some (h0, p0)" "h \<noteq> h0" "h \<noteq> []" for s key h0 p0 h now now' p
    using mem_import_seen [OF that(1,2,4), of C now now' p] that(3)
    by (auto simp: mem_job_exec_def out_map_def mem_lookup_def mem_ledger_def)
  show "isl r \<and> t = s" if "mem_job_exec C (JImport now now' key [] p) s = (r, t)" for now now' key p s r t
    using that validate_import_args_empty [of "fst key" "fst (snd key)" "snd (snd key)"]
    by (auto simp: mem_job_exec_def out_map_def mem_import_record_def st_bind_def sop_simps split_def)
  show "mem_ledger t = mem_ledger s \<and> (isl r \<and> mem_lookup t = mem_lookup s \<or>
        (isl r \<or> (\<exists>d. r = Inr (OImport (Imported d)))) \<and> mem_lookup t = (mem_lookup s)(key \<mapsto> (h, jnorm_dict p)))"
    if "mem_jobs_inv s" and new: "mem_lookup s key = None" and step: "mem_job_exec C (JImport now now' key h p) s = (r, t)"
    for s key now now' h p r t
  proof -
    have None: "map_of (mj_records s) key = None" using new by (simp add: mem_lookup_def)
    obtain r' where "mem_import_record C now now' key h p s = (r', t)" "r = map_sum id OImport r'"
      using step by (cases "mem_import_record C now now' key h p s") (auto simp: mem_job_exec_def out_map_def)
    from mem_import_new [OF None this(1)] this(2) show ?thesis
      by (auto simp: mem_lookup_def mem_ledger_def fun_eq_iff isl_map_sum)
  qed
qed

section \<open>The SQLite store\<close>

definition sql_lookup :: "sql_jobs \<Rightarrow> record_key \<Rightarrow> (string \<times> pydict) option" where
  "sql_lookup db key = map_option (\<lambda>r. (im_hash r, im_payload r)) (select_record key db)"

definition sql_ledger :: "sql_jobs \<Rightarrow> conflict list" where
  "sql_ledger db = map (\<lambda>c. (cf_key c, cf_existing c, cf_incoming c, cf_payload c)) (sj_conflicts db)"

definition sql_jobs_inv :: "sql_jobs \<Rightarrow> bool" where
  "sql_jobs_inv db \<longleftrightarrow> (\<forall>r\<in>set (sj_records db). key_ok (im_key r) \<and> im_hash r \<noteq> [] \<and> fst (im_key r) \<in> jb_id ` set (sj_jobs db))"

lemma select_job_None: "select_job j db = None \<longleftrightarrow> j \<notin> jb_id ` set (sj_jobs db)"
  by (auto simp: select_job_def find_None_iff)

lemma select_record_SomeD: "select_record key db = Some r \<Longrightarrow> r \<in> set (sj_records db) \<and> im_key r = key"
  by (auto simp: select_record_def find_Some_iff)

lemma select_record_snoc:
  "find (\<lambda>r. im_key r = k) (rows @ [r]) = (case find (\<lambda>r. im_key r = k) rows of Some x \<Rightarrow> Some x | None \<Rightarrow> if im_key r = k then Some r else None)"
  by (induction rows) auto

lemma sql_put_jobs_inv:
  "sql_jobs_inv db \<Longrightarrow> jb_id ` set (sj_jobs db) \<subseteq> jb_id ` set jobs \<Longrightarrow> sql_jobs_inv (db\<lparr>sj_jobs := jobs\<rparr>)"
  by (auto simp: sql_jobs_inv_def)

lemma update_jobs_ids: "jb_id ` set (map (\<lambda>r. if hit r then r\<lparr>jb_status := st, jb_payload := p\<rparr> else r) rows) = jb_id ` set rows"
  by (induction rows) auto

lemma update_jobs_inv [keeps_intros]: "keeps sql_jobs_inv (update_jobs hit st p)"
  unfolding update_jobs_def by (intro keeps_intros sql_put_jobs_inv equalityD2 [OF update_jobs_ids])

lemma update_jobs_frame [keeps_intros]:
  "keeps (\<lambda>db. P (sj_records db) (sj_conflicts db)) (update_jobs hit st p)"
  unfolding update_jobs_def by (intro keeps_intros) simp

lemma sql_begin_inv: "keeps sql_jobs_inv (sql_begin_job C now job)"
  unfolding sql_begin_job_def by (intro keeps_intros sql_put_jobs_inv) auto

lemma sql_update_inv: "keeps sql_jobs_inv (sql_update_job C now i ch g)"
  unfolding sql_update_job_def Let_def by (intro keeps_intros)

lemma sql_begin_frame: "keeps (\<lambda>db. P (sj_records db) (sj_conflicts db)) (sql_begin_job C now job)"
  unfolding sql_begin_job_def by (intro keeps_intros) simp

lemma sql_update_frame: "keeps (\<lambda>db. P (sj_records db) (sj_conflicts db)) (sql_update_job C now i ch g)"
  unfolding sql_update_job_def Let_def by (intro keeps_intros)

lemma sql_other_unchanged:
  "sj_records (snd (sql_begin_job C now job db)) = sj_records db \<and> sj_conflicts (snd (sql_begin_job C now job db)) = sj_conflicts db"
  "sj_records (snd (sql_update_job C now i ch g db)) = sj_records db \<and> sj_conflicts (snd (sql_update_job C now i ch g db)) = sj_conflicts db"
  using keepsD [OF sql_begin_frame [of "\<lambda>a b. a = sj_records db \<and> b = sj_conflicts db"]]
    keepsD [OF sql_update_frame [of "\<lambda>a b. a = sj_records db \<and> b = sj_conflicts db"]] by simp_all

definition new_row :: "record_key \<Rightarrow> string \<Rightarrow> pydict \<Rightarrow> string \<Rightarrow> imported_row" where
  "new_row key h p now = \<lparr>im_key = key, im_hash = h, im_payload = jnorm_dict p, im_at = now\<rparr>"

definition put_job :: "string \<Rightarrow> string \<Rightarrow> pydict \<Rightarrow> sql_jobs \<Rightarrow> sql_jobs" where
  "put_job j status job db = db\<lparr>sj_jobs := map (\<lambda>r. if jb_id r = j
     then r\<lparr>jb_status := status, jb_payload := jnorm_dict job\<rparr> else r) (sj_jobs db)\<rparr>"

lemma atomic_sql_import: "atomic (sql_import_record C now now' key h p)"
  unfolding sql_import_record_def split_def by (intro atomic_intros)

lemma sql_import_Inr:
  assumes "sql_import_record C now now' key h p db = (Inr x, t)"
  shows "sj_jobs t = sj_jobs db \<and> sj_records t = sj_records db \<or>
    (\<exists>row d job' status. key_ok key \<and> h \<noteq> [] \<and> x = Imported d \<and> select_job (fst key) db = Some row \<and>
       consume_record C now' (jb_payload row) = Inr job' \<and>
       t = put_job (fst key) status job' (db\<lparr>sj_records := sj_records db @ [new_row key h p now]\<rparr>))"
proof -
  obtain j k v where key: "key = (j, k, v)" by (cases key)
  show ?thesis
  proof (cases "select_record key db")
    case None
    with assms show ?thesis unfolding sql_import_record_def key update_jobs_def put_job_def
      by (auto simp: sop_Inr validate_import_args_Inr new_row_def)
  next
    case (Some old)
    with assms show ?thesis unfolding sql_import_record_def key by (auto simp: sop_Inr)
  qed
qed

lemma sql_import_new:
  assumes "select_record key db = None" "sql_import_record C now now' key h p db = (r, t)"
  shows "isl r \<and> t = db \<or> (\<exists>d jobs. key_ok key \<and> h \<noteq> [] \<and> r = Inr (Imported d) \<and> fst key \<in> jb_id ` set (sj_jobs db) \<and>
     jb_id ` set jobs = jb_id ` set (sj_jobs db) \<and>
     t = db\<lparr>sj_records := sj_records db @ [new_row key h p now], sj_jobs := jobs\<rparr>)"
proof (cases r)
  case (Inl e)
  then show ?thesis using assms(2) atomic_sql_import by (auto simp: atomic_def)
next
  case (Inr x)
  obtain j k v where key: "key = (j, k, v)" by (cases key)
  from assms(2) Inr assms(1) obtain row d job' status where "key_ok key" "h \<noteq> []" "x = Imported d" "select_job (fst key) db = Some row"
    "t = db\<lparr>sj_records := sj_records db @ [new_row key h p now], sj_jobs := map (\<lambda>r. if jb_id r = fst key
       then r\<lparr>jb_status := status, jb_payload := jnorm_dict job'\<rparr> else r) (sj_jobs db)\<rparr>"
    unfolding sql_import_record_def key update_jobs_def by (auto simp: sop_Inr validate_import_args_Inr new_row_def)
  moreover from this(4) have "fst key \<in> jb_id ` set (sj_jobs db)" using select_job_None [of "fst key" db] by auto
  ultimately show ?thesis using Inr update_jobs_ids [of "\<lambda>r. jb_id r = fst key"] by blast
qed

lemma sql_import_seen:
  assumes "sql_jobs_inv db" "sql_lookup db key = Some (h0, p0)" "h \<noteq> []"
  shows "\<exists>d. sql_import_record C now now' key h p db = (if h = h0 then (Inr (Noop d), db)
    else (Inr (Conflict d h p), db\<lparr>sj_conflicts := sj_conflicts db @
      [\<lparr>cf_key = key, cf_existing = h0, cf_incoming = h, cf_payload = jnorm_dict p, cf_at = now\<rparr>]\<rparr>))"
proof -
  obtain r where r: "select_record key db = Some r" "im_hash r = h0" "im_payload r = p0"
    using assms(2) by (auto simp: sql_lookup_def)
  then have ok: "key_ok key" "fst key \<in> jb_id ` set (sj_jobs db)"
    using select_record_SomeD [OF r(1)] assms(1) by (auto simp: sql_jobs_inv_def)
  then obtain row where "select_job (fst key) db = Some row" using select_job_None by (cases "select_job (fst key) db") auto
  then show ?thesis using r ok(1) assms(3)
    by (cases key) (auto simp: sql_import_record_def transaction_def st_bind_def sop_simps)
qed

lemma sql_import_inv: "keeps sql_jobs_inv (sql_import_record C now now' key h p)"
proof -
  obtain j k v where key: "key = (j, k, v)" by (cases key)
  have "sql_jobs_inv (snd (sql_import_record C now now' key h p db))" if inv: "sql_jobs_inv db" for db
  proof (cases "select_record key db")
    case None
    let ?t = "snd (sql_import_record C now now' key h p db)"
    from sql_import_new [OF None surjective_pairing] consider "?t = db"
      | jobs where "key_ok key" "h \<noteq> []" "fst key \<in> jb_id ` set (sj_jobs db)" "jb_id ` set jobs = jb_id ` set (sj_jobs db)"
          "?t = db\<lparr>sj_records := sj_records db @ [new_row key h p now], sj_jobs := jobs\<rparr>" by blast
    then show ?thesis using inv by cases (auto simp: sql_jobs_inv_def new_row_def)
  next
    case (Some r)
    then have seen: "sql_lookup db key = Some (im_hash r, im_payload r)" by (simp add: sql_lookup_def)
    show ?thesis
    proof (cases "h = []")
      case True
      obtain e where "validate_import_args j k v [] = Inl e" using validate_import_args_empty by blast
      then show ?thesis using inv True by (simp add: key sql_import_record_def st_bind_def sop_simps)
    next
      case False
      obtain d where "sql_import_record C now now' key h p db = (if h = im_hash r then (Inr (Noop d), db)
        else (Inr (Conflict d h p), db\<lparr>sj_conflicts := sj_conflicts db @
          [\<lparr>cf_key = key, cf_existing = im_hash r, cf_incoming = h, cf_payload = jnorm_dict p, cf_at = now\<rparr>]\<rparr>))"
        using sql_import_seen [OF inv seen False] by blast
      then show ?thesis using inv by (cases "h = im_hash r") (simp_all add: sql_jobs_inv_def)
    qed
  qed
  then show ?thesis by (rule keepsI)
qed

interpretation sqlj: import_ledger "sql_job_exec C" sql_jobs_inv sql_lookup sql_ledger for C
proof
  show "sql_jobs_inv (snd (sql_job_exec C op s))" if "sql_jobs_inv s" for op s
    using that keepsD [OF sql_begin_inv] keepsD [OF sql_update_inv] keepsD [OF sql_import_inv]
    by (cases op) (simp_all add: sql_job_exec_def)
  show "sql_lookup t = sql_lookup s \<and> sql_ledger t = sql_ledger s \<and> (case r of Inr (OImport _) \<Rightarrow> False | _ \<Rightarrow> True)"
    if "sql_jobs_inv s" "\<not> is_import op" "sql_job_exec C op s = (r, t)" for s op r t
    using that(2,3) sql_other_unchanged
    by (cases op) (auto simp: sql_job_exec_def out_map_def sql_lookup_def select_record_def sql_ledger_def map_sum_def fun_eq_iff split: sum.splits)
  show "\<exists>d. sql_job_exec C (JImport now now' key h p) s = (Inr (OImport (Noop d)), s)"
    if inv: "sql_jobs_inv s" and seen: "sql_lookup s key = Some (h, p0)" for s key h p0 now now' p
  proof -
    have "h \<noteq> []" using inv seen select_record_SomeD by (fastforce simp: sql_lookup_def sql_jobs_inv_def)
    from sql_import_seen [OF inv seen this, of C now now' p] show ?thesis by (auto simp: sql_job_exec_def out_map_def)
  qed
  show "\<exists>d t. sql_job_exec C (JImport now now' key h p) s = (Inr (OImport (Conflict d h p)), t) \<and>
      sql_lookup t = sql_lookup s \<and> sql_ledger t = sql_ledger s @ [(key, h0, h, jnorm_dict p)]"
    if "sql_jobs_inv s" "sql_lookup s key = Some (h0, p0)" "h \<noteq> h0" "h \<noteq> []" for s key h0 p0 h now now' p
    using sql_import_seen [OF that(1,2,4), of C now now' p] that(3)
    by (auto simp: sql_job_exec_def out_map_def sql_lookup_def select_record_def sql_ledger_def fun_eq_iff)
  show "isl r \<and> t = s" if "sql_job_exec C (JImport now now' key [] p) s = (r, t)" for now now' key p s r t
    using that validate_import_args_empty [of "fst key" "fst (snd key)" "snd (snd key)"]
    by (auto simp: sql_job_exec_def out_map_def sql_import_record_def st_bind_def sop_simps split_def)
  show "sql_ledger t = sql_ledger s \<and> (isl r \<and> sql_lookup t = sql_lookup s \<or>
        (isl r \<or> (\<exists>d. r = Inr (OImport (Imported d)))) \<and> sql_lookup t = (sql_lookup s)(key \<mapsto> (h, jnorm_dict p)))"
    if "sql_jobs_inv s" and new: "sql_lookup s key = None" and step: "sql_job_exec C (JImport now now' key h p) s = (r, t)"
    for s key now now' h p r t
  proof -
    have None: "select_record key s = None" using new by (simp add: sql_lookup_def)
    obtain r' where "sql_import_record C now now' key h p s = (r', t)" "r = map_sum id OImport r'"
      using step by (cases "sql_import_record C now now' key h p s") (auto simp: sql_job_exec_def out_map_def)
    from sql_import_new [OF None this(1)] this(2) None show ?thesis
      by (auto simp: sql_lookup_def select_record_def sql_ledger_def fun_eq_iff isl_map_sum select_record_snoc new_row_def split: option.splits)
  qed
qed

section \<open>A job is started once\<close>

fun keeps_token :: "job_op \<Rightarrow> bool" where
  "keeps_token (JUpdate _ _ changes _) \<longleftrightarrow> ''launch_token'' \<notin> fst ` set changes"
| "keeps_token _ \<longleftrightarrow> True"

locale job_starts =
  fixes start :: "string \<Rightarrow> pyval \<Rightarrow> ('s, exn, pydict) sop"
    and exec :: "job_op \<Rightarrow> ('s, exn, job_out) sop"
    and token :: "'s \<Rightarrow> string \<Rightarrow> pyval option"
    and ok :: "'s \<Rightarrow> bool"
  assumes start_known: "token s j = Some v \<Longrightarrow> dget d ''job_id'' = PStr j \<Longrightarrow> dget d ''launch_token'' \<noteq> v \<Longrightarrow>
      \<exists>e. start now (PDict d) s = (Inl e, s)"
    and start_token: "start now (PDict d) s = (Inr out, t) \<Longrightarrow> dget d ''job_id'' = PStr j \<Longrightarrow>
      token t j = Some (dget d ''launch_token'')"
    and start_ok: "ok s \<Longrightarrow> ok (snd (start now job s))"
    and exec_ok: "ok s \<Longrightarrow> ok (snd (exec op s))"
    and exec_token: "ok s \<Longrightarrow> keeps_token op \<Longrightarrow> token s j = Some v \<Longrightarrow> token (snd (exec op s)) j = Some v"
begin

lemma script_token: "ok s \<Longrightarrow> list_all keeps_token ops \<Longrightarrow> token s j = Some v \<Longrightarrow> token (snd (exec_all exec ops s)) j = Some v"
  by (induction ops arbitrary: s) (simp_all add: split_def exec_token exec_ok)

lemma started_once:
  assumes "ok s" "start now (PDict d) s = (Inr out, t)" "dget d ''job_id'' = PStr j" "dget d' ''job_id'' = PStr j"
    "dget d' ''launch_token'' \<noteq> dget d ''launch_token''" "list_all keeps_token ops"
  shows "\<exists>e. start now' (PDict d') (snd (exec_all exec ops t)) = (Inl e, snd (exec_all exec ops t))"
proof -
  have "ok t" using start_ok [OF assms(1), of now "PDict d"] assms(2) by simp
  from start_known [OF script_token [OF this assms(6) start_token [OF assms(2,3)]] assms(4,5)] show ?thesis .
qed

end

lemma check_job_PDict: "check_job (PDict d) = Inr x \<longleftrightarrow> x = d \<and>
    list_all (\<lambda>k. nonempty_field (dget d k)) [''job_id'', ''run_id'', ''status'', ''launch_token'']"
  by (auto simp: check_job_def)

lemma nonempty_fieldE: "nonempty_field v \<Longrightarrow> (\<And>s. v = PStr s \<Longrightarrow> s \<noteq> [] \<Longrightarrow> thesis) \<Longrightarrow> thesis"
  by (cases v) (auto simp: nonempty_field_def)

lemma check_job_cases:
  obtains e where "check_job (PDict d) = Inl e"
    | j tk where "check_job (PDict d) = Inr d" "dget d ''job_id'' = PStr j" "dget d ''launch_token'' = PStr tk"
proof (cases "check_job (PDict d)")
  case (Inr x)
  then have "x = d" "nonempty_field (dget d ''job_id'')" "nonempty_field (dget d ''launch_token'')"
    by (simp_all add: check_job_PDict)
  then show thesis using that(2) Inr by (metis nonempty_fieldE)
qed (use that in blast)

text \<open>The defaults touch only the fields they fill in.\<close>

lemma dget_dsetdefault: "dget (dsetdefault k v d) k' = (if k' = k \<and> map_of d k = None then v else dget d k')"
  by (auto simp: dsetdefault_def dget_def split: option.splits)

lemma dget_job_defaults:
  "k \<notin> {''updated_at'', ''created_at'', ''checkpoint'', ''handle'', ''spec''} \<Longrightarrow> dget (job_defaults now d) k = dget d k"
  by (simp add: job_defaults_def dget_od_set dget_dsetdefault)

lemma ditem_str_job_defaults:
  "dget d ''job_id'' = PStr j \<Longrightarrow> ditem_str (job_defaults now d) ''job_id'' = Inr j"
  using dget_job_defaults [of "''job_id''" now d]
  by (auto simp: ditem_str_Inr dget_def split: option.splits)

lemma dget_od_merge_notin: "k \<notin> fst ` set b \<Longrightarrow> dget (od_merge a b) k = dget a k"
  by (simp add: dget_def map_of_od_merge_untouched)

lemma consume_record_token:
  "consume_record C now job = Inr job' \<Longrightarrow> k \<notin> {''updated_at'', ''checkpoint''} \<Longrightarrow> dget job' k = dget job k"
  by (auto simp: consume_record_def res_bind_Inr dget_def)

definition mem_token :: "mem_jobs \<Rightarrow> string \<Rightarrow> pyval option" where
  "mem_token s j = map_option (\<lambda>d. dget d ''launch_token'') (map_of (mj_jobs s) j)"

definition sql_token :: "coercions \<Rightarrow> sql_jobs \<Rightarrow> string \<Rightarrow> pyval option" where
  "sql_token C db j = map_option (\<lambda>r. PStr (to_str C (dget (jb_payload r) ''launch_token''))) (select_job j db)"

lemma mem_begin_token: "keeps (\<lambda>s. mem_token s j = Some v) (mem_begin_job now job)"
proof (rule keepsI)
  fix s assume v: "mem_token s j = Some v"
  show "mem_token (snd (mem_begin_job now job s)) j = Some v"
    using v unfolding mem_begin_job_def
    by (auto simp: mem_token_def st_bind_def sop_simps split: sum.splits option.splits)
qed

lemma mem_update_token:
  "''launch_token'' \<notin> fst ` set ch \<Longrightarrow> keeps (\<lambda>s. mem_token s j = Some v) (mem_update_job now i ch g)"
  by (rule keepsI) (auto simp: mem_update_job_def mem_token_def st_bind_def sop_simps Let_def dict_simps dget_od_merge_notin
      split: option.splits)

lemma mem_import_token: "keeps (\<lambda>s. mem_token s j = Some v) (mem_import_record C now now' key h p)"
  by (rule keepsI) (auto simp: mem_import_record_def mem_token_def st_bind_def sop_simps Let_def consume_record_token
      split: option.splits sum.splits prod.splits)

interpretation memst: job_starts mem_begin_job "mem_job_exec C" mem_token "\<lambda>_. True" for C
proof
  show "\<exists>e. mem_begin_job now (PDict d) s = (Inl e, s)"
    if known: "mem_token s j = Some v" and id: "dget d ''job_id'' = PStr j" and other: "dget d ''launch_token'' \<noteq> v" for s j v d now
  proof (cases d rule: check_job_cases)
    case (1 e)
    then show ?thesis by (simp add: mem_begin_job_def st_bind_def sop_simps)
  next
    case (2 j' tk)
    then show ?thesis using known id other ditem_str_job_defaults [OF id, of now] dget_job_defaults [of "''launch_token''" now d]
      by (auto simp: mem_begin_job_def mem_token_def st_bind_def sop_simps split: option.splits)
  qed
  show "mem_token t j = Some (dget d ''launch_token'')"
    if step: "mem_begin_job now (PDict d) s = (Inr out, t)" and id: "dget d ''job_id'' = PStr j" for now d s out t j
  proof (cases d rule: check_job_cases)
    case (1 e)
    then show ?thesis using step by (simp add: mem_begin_job_def st_bind_def sop_simps)
  next
    case (2 j' tk)
    then show ?thesis using step ditem_str_job_defaults [OF id, of now] dget_job_defaults [of "''launch_token''" now d]
      by (auto simp: mem_begin_job_def mem_token_def st_bind_def sop_simps split: option.splits if_splits)
  qed
  show "mem_token (snd (mem_job_exec C op s)) j = Some v" if "keeps_token op" "mem_token s j = Some v" for op s j v
    using that keepsD [OF mem_begin_token] keepsD [OF mem_update_token] keepsD [OF mem_import_token]
    by (cases op) (simp_all add: mem_job_exec_def)
qed

text \<open>Every stored payload went through JSON.\<close>

definition rows_normal :: "sql_jobs \<Rightarrow> bool" where
  "rows_normal db \<longleftrightarrow> (\<forall>r\<in>set (sj_jobs db). jnorm_dict (jb_payload r) = jb_payload r)"

lemma update_jobs_normal [keeps_intros]: "keeps rows_normal (update_jobs hit st p)"
  unfolding update_jobs_def by (intro keeps_intros) (auto simp: rows_normal_def jnorm_dict_idem)

lemma sql_begin_normal: "keeps rows_normal (sql_begin_job C now job)"
  unfolding sql_begin_job_def by (intro keeps_intros) (auto simp: rows_normal_def jnorm_dict_idem)

lemma sql_update_normal: "keeps rows_normal (sql_update_job C now i ch g)"
  unfolding sql_update_job_def Let_def by (intro keeps_intros)

lemma sql_import_normal: "keeps rows_normal (sql_import_record C now now' key h p)"
  unfolding sql_import_record_def split_def by (intro keeps_intros) (auto simp: rows_normal_def)

lemma sql_job_exec_normal: "rows_normal s \<Longrightarrow> rows_normal (snd (sql_job_exec C op s))"
  using keepsD [OF sql_begin_normal] keepsD [OF sql_update_normal] keepsD [OF sql_import_normal]
  by (cases op) (simp_all add: sql_job_exec_def)

lemma select_job_SomeD: "select_job j db = Some r \<Longrightarrow> r \<in> set (sj_jobs db) \<and> jb_id r = j"
  by (auto simp: select_job_def find_Some_iff)

lemma select_job_snoc:
  "find (\<lambda>r. jb_id r = k) (rows @ [r]) = (case find (\<lambda>r. jb_id r = k) rows of Some x \<Rightarrow> Some x | None \<Rightarrow> if jb_id r = k then Some r else None)"
  by (induction rows) auto

lemma find_update_jobs:
  "find (\<lambda>r. jb_id r = j) (map (\<lambda>r. if hit r then r\<lparr>jb_status := st, jb_payload := p\<rparr> else r) rows)
     = map_option (\<lambda>r. if hit r then r\<lparr>jb_status := st, jb_payload := p\<rparr> else r) (find (\<lambda>r. jb_id r = j) rows)"
  by (induction rows) auto

text \<open>Writing a payload with the same token into rows of one job keeps every token.\<close>

lemma sql_token_update:
  assumes "rows_normal db" "select_job i db = Some row" "dget p ''launch_token'' = dget (jb_payload row) ''launch_token''"
    "\<And>r. hit r \<Longrightarrow> jb_id r = i"
  shows "sql_token C (snd (update_jobs hit st p db)) j = sql_token C db j"
proof -
  have "jnorm (dget (jb_payload row) ''launch_token'') = dget (jb_payload row) ''launch_token''"
    using assms(1) select_job_SomeD [OF assms(2)] by (metis dget_jnorm_dict rows_normal_def)
  then have tok: "dget (jnorm_dict p) ''launch_token'' = dget (jb_payload row) ''launch_token''"
    using assms(3) by (simp add: dget_jnorm_dict)
  have "r = row" if "select_job j db = Some r" "hit r" for r
    using that assms(2,4) select_job_SomeD [OF that(1)] by fastforce
  then show ?thesis using tok
    by (cases "select_job j db")
      (auto simp: sql_token_def update_jobs_def st_bind_def sop_simps select_job_def find_update_jobs)
qed

lemma sql_begin_token: "keeps (\<lambda>s. sql_token C s j = Some v) (sql_begin_job C now job)"
  unfolding sql_begin_job_def by (intro keeps_intros) (auto simp: sql_token_def select_job_def select_job_snoc split: option.splits)

lemma sql_update_token:
  assumes "rows_normal s" "''launch_token'' \<notin> fst ` set ch" "sql_token C s j = Some v"
  shows "sql_token C (snd (sql_update_job C now i ch g s)) j = Some v"
proof (cases "select_job i s")
  case None
  then show ?thesis using assms(3) by (simp add: sql_update_job_def transaction_def st_bind_def sop_simps)
next
  case (Some row)
  let ?u = "od_set ''updated_at'' (PStr now) (od_merge (jb_payload row) ch)"
  have "dget ?u ''launch_token'' = dget (jb_payload row) ''launch_token''"
    using assms(2) by (simp add: dget_od_set dget_od_merge_notin)
  note tok = sql_token_update [OF assms(1) Some this, where C = C and j = j]
  have "snd (sql_update_job C now i ch g s) = snd (update_jobs (\<lambda>r. jb_id r = i \<and> (case g of None \<Rightarrow> True | Some x \<Rightarrow> jb_status r \<noteq> x))
      (to_str C (if py_truthy (dget ?u ''status'') then dget ?u ''status'' else dget (jb_payload row) ''status'')) ?u s)"
    using Some by (simp add: sql_update_job_def update_jobs_def transaction_def st_bind_def sop_simps Let_def)
  also have "sql_token C \<dots> j = sql_token C s j" by (rule tok) simp
  finally show ?thesis using assms(3) by simp
qed

lemma sql_import_token:
  assumes "rows_normal s" "sql_token C s j = Some v"
  shows "sql_token C (snd (sql_import_record C now now' key h p s)) j = Some v"
proof (cases "sql_import_record C now now' key h p s")
  case (Pair r t)
  show ?thesis
  proof (cases r)
    case (Inl e)
    then have "t = s" using Pair atomic_sql_import [of C now now' key h p] unfolding atomic_def by blast
    then show ?thesis using Pair assms(2) by simp
  next
    case (Inr x)
    from sql_import_Inr [OF Pair [unfolded Inr]] show ?thesis
    proof (elim disjE exE conjE)
      assume "sj_jobs t = sj_jobs s"
      then show ?thesis using assms(2) Pair by (simp add: sql_token_def select_job_def)
    next
      fix row d job' status
      let ?s1 = "s\<lparr>sj_records := sj_records s @ [new_row key h p now]\<rparr>"
      assume row: "select_job (fst key) s = Some row" "consume_record C now' (jb_payload row) = Inr job'"
        and t: "t = put_job (fst key) status job' ?s1"
      have "rows_normal ?s1" "select_job (fst key) ?s1 = Some row" "sql_token C ?s1 j = Some v"
        using assms row(1) by (simp_all add: rows_normal_def select_job_def sql_token_def)
      moreover have "dget job' ''launch_token'' = dget (jb_payload row) ''launch_token''"
        by (rule consume_record_token [OF row(2)]) simp
      ultimately have "sql_token C (snd (update_jobs (\<lambda>r. jb_id r = fst key) status job' ?s1)) j = Some v"
        using sql_token_update by simp
      then show ?thesis using t Pair by (simp add: put_job_def update_jobs_def st_bind_def sop_simps)
    qed
  qed
qed

interpretation sqlst: job_starts "sql_begin_job C" "sql_job_exec C" "sql_token C" rows_normal for C
proof
  show "\<exists>e. sql_begin_job C now (PDict d) s = (Inl e, s)"
    if known: "sql_token C s j = Some v" and id: "dget d ''job_id'' = PStr j" and other: "dget d ''launch_token'' \<noteq> v" for s j v d now
  proof (cases d rule: check_job_cases)
    case (1 e)
    then show ?thesis by (simp add: sql_begin_job_def st_bind_def sop_simps)
  next
    case (2 j' tk)
    then show ?thesis using known id other ditem_str_job_defaults [OF id, of now] dget_job_defaults [of "''launch_token''" now d]
      by (auto simp: sql_begin_job_def sql_token_def st_bind_def transaction_def sop_simps to_str_def [of C "PStr tk"] split: option.splits)
  qed
  show "sql_token C t j = Some (dget d ''launch_token'')"
    if step: "sql_begin_job C now (PDict d) s = (Inr out, t)" and id: "dget d ''job_id'' = PStr j" for now d s out t j
  proof (cases d rule: check_job_cases)
    case (1 e)
    then show ?thesis using step by (simp add: sql_begin_job_def st_bind_def sop_simps)
  next
    case (2 j' tk)
    then show ?thesis using step ditem_str_job_defaults [OF id, of now] dget_job_defaults [of "''launch_token''" now d]
      by (auto simp: sql_begin_job_def sql_token_def st_bind_def transaction_def sop_simps select_job_def select_job_snoc
          dget_jnorm_dict to_str_def [of C "PStr tk"] split: option.splits if_splits)
  qed
  show "rows_normal (snd (sql_begin_job C now job s))" if "rows_normal s" for now job s
    by (rule keepsD [OF sql_begin_normal that])
  show "rows_normal (snd (sql_job_exec C op s))" if "rows_normal s" for op s
    by (rule sql_job_exec_normal [OF that])
  show "sql_token C (snd (sql_job_exec C op s)) j = Some v"
    if "rows_normal s" "keeps_token op" "sql_token C s j = Some v" for op s j v
    using that keepsD [OF sql_begin_token] sql_update_token sql_import_token
    by (cases op) (simp_all add: sql_job_exec_def)
qed

end
