(* ===== verification/Import_Progress.thy ===== *)
theory Import_Progress
  imports Import_Ledger
begin

text \<open>
  The checkpoint of an external job counts its imported records, in both stores, as long as callers
  leave the checkpoint to the import.
\<close>

definition consumed :: "pydict \<Rightarrow> int option" where
  "consumed job = (case dget job ''checkpoint'' of
       PDict c \<Rightarrow> (case dget_default c ''records_consumed'' (PInt 0) of PInt n \<Rightarrow> Some n | _ \<Rightarrow> None)
     | _ \<Rightarrow> None)"

fun keeps_checkpoint :: "job_op \<Rightarrow> bool" where
  "keeps_checkpoint (JBegin _ job) \<longleftrightarrow> (case job of PDict d \<Rightarrow> map_of d ''checkpoint'' = None | _ \<Rightarrow> True)"
| "keeps_checkpoint (JUpdate _ _ changes _) \<longleftrightarrow> ''checkpoint'' \<notin> fst ` set changes"
| "keeps_checkpoint (JImport _ _ _ _ _) \<longleftrightarrow> True"

lemma consumed_cong: "dget a ''checkpoint'' = dget b ''checkpoint'' \<Longrightarrow> consumed a = consumed b"
  by (simp add: consumed_def)

lemma consumed_jnorm [simp]: "consumed (jnorm_dict d) = consumed d"
proof (cases "dget d ''checkpoint''")
  case (PDict c)
  have "dget_default (jnorm_dict c) k (PInt 0) = jnorm (dget_default c k (PInt 0))" for k
    by (simp add: dget_default_def map_of_jnorm_dict split: option.splits)
  then show ?thesis using PDict by (auto simp: consumed_def dget_jnorm_dict jnorm_PDict simp del: jnorm.simps(2) split: pyval.splits)
qed (simp_all add: consumed_def dget_jnorm_dict)

lemma consume_record_consumed:
  assumes "consumed job = Some n"
  shows "\<exists>job'. consume_record C now job = Inr job' \<and> consumed job' = Some (n + 1)"
proof -
  obtain c where c: "dget job ''checkpoint'' = PDict c" "dget_default c ''records_consumed'' (PInt 0) = PInt n"
    using assms by (auto simp: consumed_def split: pyval.splits)
  then show ?thesis
    by (auto simp: consume_record_def to_dict_def to_int_def consumed_def dget_od_set dget_default_def)
qed

lemma consumed_defaults:
  "map_of d ''checkpoint'' = None \<Longrightarrow> consumed (job_defaults now d) = Some 0"
proof -
  assume "map_of d ''checkpoint'' = None"
  then have "dget (job_defaults now d) ''checkpoint'' = PDict []"
    by (simp add: job_defaults_def dget_od_set dget_dsetdefault dsetdefault_def split: option.splits)
  then show ?thesis by (simp add: consumed_def dget_default_def)
qed

lemma consumed_update:
  "''checkpoint'' \<notin> fst ` set ch \<Longrightarrow> consumed (od_set ''updated_at'' v (od_merge job ch)) = consumed job"
  by (rule consumed_cong) (simp add: dget_od_set dget_od_merge_notin)

section \<open>The in-memory store\<close>

definition mem_count :: "mem_jobs \<Rightarrow> string \<Rightarrow> nat" where
  "mem_count s j = length (filter (\<lambda>(key, _). fst key = j) (mj_records s))"

definition mem_counts :: "mem_jobs \<Rightarrow> bool" where
  "mem_counts s \<longleftrightarrow> mem_jobs_inv s \<and> (\<forall>j job. map_of (mj_jobs s) j = Some job \<longrightarrow> consumed job = Some (int (mem_count s j)))"

lemma mem_countsD: "mem_counts s \<Longrightarrow> mem_jobs_inv s" "mem_counts s \<Longrightarrow> map_of (mj_jobs s) j = Some job \<Longrightarrow> consumed job = Some (int (mem_count s j))"
  by (auto simp: mem_counts_def)

text \<open>A job that is not there has no records.\<close>

lemma mem_count_0:
  assumes "mem_jobs_inv s" "map_of (mj_jobs s) j = None"
  shows "mem_count s j = 0"
proof -
  have "fst key \<noteq> j" if m: "(key, d) \<in> set (mj_records s)" for key d
  proof -
    obtain d' where "map_of (mj_records s) key = Some d'" using m by (metis weak_map_of_SomeI)
    from mem_jobs_invD(2) [OF assms(1) this] assms(2) show ?thesis by auto
  qed
  then show ?thesis by (auto simp: mem_count_def filter_empty_conv)
qed

lemma mem_put_job_counts:
  assumes "mem_counts s" "consumed job = Some (int (mem_count s j))"
  shows "mem_counts (s\<lparr>mj_jobs := od_set j job (mj_jobs s)\<rparr>)"
  using assms mem_put_job_inv [of s j job] by (auto simp: mem_counts_def mem_count_def)

lemma mem_begin_counts:
  assumes "mem_counts s" "keeps_checkpoint (JBegin now job)"
  shows "mem_counts (snd (mem_begin_job now job s))"
proof (cases "check_job job")
  case (Inl e)
  then show ?thesis using assms(1) by (simp add: mem_begin_job_def st_bind_def sop_simps)
next
  case (Inr d)
  then have d: "job = PDict d" by (auto simp: check_job_def split: pyval.splits option.splits)
  have "consumed (job_defaults now d) = Some 0" using assms(2) d by (intro consumed_defaults) simp
  then have "mem_counts (s\<lparr>mj_jobs := od_set j (job_defaults now d) (mj_jobs s)\<rparr>)" if "map_of (mj_jobs s) j = None" for j
    using mem_put_job_counts [OF assms(1)] mem_count_0 [OF mem_countsD(1) [OF assms(1)] that] by simp
  then show ?thesis using Inr assms(1)
    by (auto simp: mem_begin_job_def st_bind_def sop_simps split: sum.splits option.splits)
qed

lemma mem_update_counts:
  assumes "mem_counts s" "''checkpoint'' \<notin> fst ` set ch"
  shows "mem_counts (snd (mem_update_job now i ch g s))"
proof (cases "map_of (mj_jobs s) i")
  case None
  then show ?thesis using assms(1) by (simp add: mem_update_job_def st_bind_def sop_simps)
next
  case (Some job)
  then have "consumed (od_set ''updated_at'' (PStr now) (od_merge job ch)) = Some (int (mem_count s i))"
    using mem_countsD(2) [OF assms(1)] consumed_update [OF assms(2)] by simp
  then show ?thesis using Some assms(1) mem_put_job_counts
    by (auto simp: mem_update_job_def st_bind_def sop_simps Let_def)
qed

lemma mem_import_counts:
  assumes "mem_counts s"
  shows "mem_counts (snd (mem_import_record C now now' key h p s))"
proof -
  have inv: "mem_jobs_inv (snd (mem_import_record C now now' key h p s))"
    by (rule keepsD [OF mem_import_inv mem_countsD(1) [OF assms]])
  show ?thesis
  proof (cases "map_of (mj_records s) key")
    case (Some d)
    have "mj_jobs (snd (mem_import_record C now now' key h p s)) = mj_jobs s \<and> mj_records (snd (mem_import_record C now now' key h p s)) = mj_records s"
      using Some by (cases key) (auto simp: mem_import_record_def st_bind_def sop_simps split: sum.splits option.splits)
    then show ?thesis using inv assms by (simp add: mem_counts_def mem_count_def)
  next
    case None
    let ?t = "snd (mem_import_record C now now' key h p s)"
    from mem_import_new [OF None surjective_pairing, where C = C and now = now and now' = now' and h = h and p = p] consider "?t = s"
      | job rec where "map_of (mj_jobs s) (fst key) = Some job"
          "?t = s\<lparr>mj_records := od_set key rec (mj_records s)\<rparr>" "isl (fst (mem_import_record C now now' key h p s))"
      | job rec job' where "map_of (mj_jobs s) (fst key) = Some job" "consume_record C now' job = Inr job'"
          "?t = s\<lparr>mj_records := od_set key rec (mj_records s), mj_jobs := od_set (fst key) job' (mj_jobs s)\<rparr>" by blast
    then show ?thesis
    proof cases
      case 1
      then show ?thesis using assms by simp
    next
      case 2
      obtain job' where "consume_record C now' job = Inr job'"
        using consume_record_consumed mem_countsD(2) [OF assms 2(1)] by blast
      then have "\<not> isl (fst (mem_import_record C now now' key h p s)) \<or> ?t = s"
        using None 2(1) by (cases key) (auto simp: mem_import_record_def st_bind_def sop_simps Let_def split: sum.splits)
      then show ?thesis using 2(3) assms by auto
    next
      case 3
      have n: "consumed job = Some (int (mem_count s (fst key)))" by (rule mem_countsD(2) [OF assms 3(1)])
      then have "consumed job' = Some (int (mem_count s (fst key)) + 1)"
        using consume_record_consumed [OF n, of C now'] 3(2) by auto
      moreover have "key \<notin> fst ` set (mj_records s)" using None by (simp add: map_of_eq_None_iff)
      then have "mem_count ?t j = mem_count s j + of_bool (j = fst key)" for j
        by (simp add: 3(3) mem_count_def od_set_fresh)
      ultimately show ?thesis using inv mem_countsD(2) [OF assms] by (auto simp: mem_counts_def 3(3))
    qed
  qed
qed

lemma mem_script_counts: "list_all keeps_checkpoint ops \<Longrightarrow> mem_counts s \<Longrightarrow> mem_counts (snd (exec_all (mem_job_exec C) ops s))"
proof (induction ops arbitrary: s)
  case (Cons op ops)
  then have "mem_counts (snd (mem_job_exec C op s))"
    using mem_begin_counts mem_update_counts mem_import_counts by (cases op) (auto simp: mem_job_exec_def)
  then show ?case using Cons by (simp add: split_def)
qed simp

section \<open>The SQLite store\<close>

definition sql_count :: "sql_jobs \<Rightarrow> string \<Rightarrow> nat" where
  "sql_count db j = length (filter (\<lambda>r. fst (im_key r) = j) (sj_records db))"

definition sql_counts :: "sql_jobs \<Rightarrow> bool" where
  "sql_counts db \<longleftrightarrow> sql_jobs_inv db \<and> (\<forall>r\<in>set (sj_jobs db). consumed (jb_payload r) = Some (int (sql_count db (jb_id r))))"

lemma sql_countsD: "sql_counts db \<Longrightarrow> sql_jobs_inv db" "sql_counts db \<Longrightarrow> select_job j db = Some r \<Longrightarrow> consumed (jb_payload r) = Some (int (sql_count db j))"
  using select_job_SomeD [of j db r] by (auto simp: sql_counts_def)

lemma sql_count_0: "sql_jobs_inv db \<Longrightarrow> select_job j db = None \<Longrightarrow> sql_count db j = 0"
  by (auto simp: sql_count_def filter_empty_conv sql_jobs_inv_def select_job_None)

lemma sql_begin_counts:
  assumes "sql_counts db" "keeps_checkpoint (JBegin now job)"
  shows "sql_counts (snd (sql_begin_job C now job db))"
proof (cases "check_job job")
  case (Inl e)
  then show ?thesis using assms(1) by (simp add: sql_begin_job_def st_bind_def sop_simps)
next
  case (Inr d)
  then have d: "job = PDict d" by (auto simp: check_job_def split: pyval.splits option.splits)
  have new: "consumed (job_defaults now d) = Some 0" using assms(2) d by (intro consumed_defaults) simp
  have inv: "sql_jobs_inv (snd (sql_begin_job C now job db))" by (rule keepsD [OF sql_begin_inv sql_countsD(1) [OF assms(1)]])
  show ?thesis
    using inv Inr assms(1) new sql_count_0 [OF sql_countsD(1) [OF assms(1)]]
    by (auto simp: sql_begin_job_def st_bind_def sop_simps transaction_def sql_counts_def sql_count_def split: sum.splits option.splits)
qed

lemma sql_update_counts:
  assumes "sql_counts db" "''checkpoint'' \<notin> fst ` set ch"
  shows "sql_counts (snd (sql_update_job C now i ch g db))"
proof (cases "select_job i db")
  case None
  then show ?thesis using assms(1) by (simp add: sql_update_job_def transaction_def st_bind_def sop_simps)
next
  case (Some row)
  have inv: "sql_jobs_inv (snd (sql_update_job C now i ch g db))" by (rule keepsD [OF sql_update_inv sql_countsD(1) [OF assms(1)]])
  have "consumed (od_set ''updated_at'' (PStr now) (od_merge (jb_payload row) ch)) = Some (int (sql_count db i))"
    using sql_countsD(2) [OF assms(1) Some] consumed_update [OF assms(2)] by simp
  then show ?thesis using Some inv assms(1)
    by (auto simp: sql_update_job_def update_jobs_def transaction_def st_bind_def sop_simps Let_def sql_counts_def sql_count_def)
qed

lemma sql_import_counts:
  assumes "sql_counts db"
  shows "sql_counts (snd (sql_import_record C now now' key h p db))"
proof (cases "sql_import_record C now now' key h p db")
  case (Pair r t)
  have inv: "sql_jobs_inv t" using keepsD [OF sql_import_inv sql_countsD(1) [OF assms]] Pair by (metis snd_conv)
  show ?thesis
  proof (cases r)
    case (Inl e)
    then have "t = db" using Pair atomic_sql_import [of C now now' key h p] unfolding atomic_def by blast
    then show ?thesis using Pair assms by simp
  next
    case (Inr x)
    from sql_import_Inr [OF Pair [unfolded Inr]] show ?thesis
    proof (elim disjE exE conjE)
      assume "sj_jobs t = sj_jobs db" "sj_records t = sj_records db"
      then show ?thesis using inv assms Pair by (simp add: sql_counts_def sql_count_def)
    next
      fix row d job' status
      assume row: "select_job (fst key) db = Some row" "consume_record C now' (jb_payload row) = Inr job'"
        and t: "t = put_job (fst key) status job' (db\<lparr>sj_records := sj_records db @ [new_row key h p now]\<rparr>)"
      have n: "consumed (jb_payload row) = Some (int (sql_count db (fst key)))" by (rule sql_countsD(2) [OF assms row(1)])
      then have "consumed job' = Some (int (sql_count db (fst key)) + 1)"
        using consume_record_consumed [OF n, of C now'] row(2) by auto
      moreover have "sql_count t j = sql_count db j + of_bool (j = fst key)" for j
        by (simp add: t put_job_def sql_count_def new_row_def)
      moreover have "jb_payload r = jnorm_dict job' \<and> jb_id r = fst key \<or> r \<in> set (sj_jobs db) \<and> jb_id r \<noteq> fst key"
        if "r \<in> set (sj_jobs t)" for r
        using that by (auto simp: t put_job_def)
      ultimately have "consumed (jb_payload r) = Some (int (sql_count t (jb_id r)))" if "r \<in> set (sj_jobs t)" for r
        using that assms unfolding sql_counts_def by fastforce
      then show ?thesis using inv Pair by (simp add: sql_counts_def)
    qed
  qed
qed

lemma sql_script_counts: "list_all keeps_checkpoint ops \<Longrightarrow> sql_counts s \<Longrightarrow> sql_counts (snd (exec_all (sql_job_exec C) ops s))"
proof (induction ops arbitrary: s)
  case (Cons op ops)
  then have "sql_counts (snd (sql_job_exec C op s))"
    using sql_begin_counts sql_update_counts sql_import_counts by (cases op) (auto simp: sql_job_exec_def)
  then show ?case using Cons by (simp add: split_def)
qed simp

lemma counts_empty: "mem_counts mem_jobs_empty" "sql_counts sql_jobs_empty"
  by (simp_all add: mem_counts_def mem_jobs_inv_def mem_jobs_empty_def sql_counts_def sql_jobs_inv_def sql_jobs_empty_def)

lemma sql_script_normal: "rows_normal (snd (exec_all (sql_job_exec C) ops sql_jobs_empty))"
proof -
  have "rows_normal s \<Longrightarrow> rows_normal (snd (exec_all (sql_job_exec C) ops s))" for s
    by (induction ops arbitrary: s) (simp_all add: split_def sql_job_exec_normal)
  moreover have "rows_normal sql_jobs_empty" by (simp add: rows_normal_def sql_jobs_empty_def)
  ultimately show ?thesis by blast
qed

section \<open>A sample\<close>

definition plain_coercions :: coercions where
  "plain_coercions = \<lparr>co_str = (\<lambda>_. []), co_int = (\<lambda>_. Inl (TypeError ''int'')), co_dict = (\<lambda>_. Inl (TypeError ''dict'')),
     co_text = (\<lambda>_. Inl IntegrityError)\<rparr>"

definition sample_job :: "string \<Rightarrow> pydict" where
  "sample_job token = [(''job_id'', PStr ''j''), (''run_id'', PStr ''r''), (''status'', PStr ''active''), (''launch_token'', PStr token)]"

definition sample_imports :: "job_op list" where
  "sample_imports = [JBegin ''t0'' (PDict (sample_job ''a'')), JImport ''t1'' ''t2'' (''j'', ''k'', ''v'') ''h'' [],
     JImport ''t3'' ''t4'' (''j'', ''k'', ''v'') ''h'' [], JImport ''t5'' ''t6'' (''j'', ''k'', ''v'') ''x'' []]"

text \<open>
  The count rests on callers that leave the checkpoint alone: an update with a checkpoint of its own, as the
  runner makes it, replaces the count.
\<close>

lemma checkpoint_replaced:
  "map (consumed \<circ> snd) (mj_jobs (snd (exec_all (mem_job_exec plain_coercions) sample_imports mem_jobs_empty))) = [Some 1]"
  "map (consumed \<circ> snd) (mj_jobs (snd (exec_all (mem_job_exec plain_coercions)
     (sample_imports @ [JUpdate ''t'' ''j'' [(''checkpoint'', PDict [(''import_completed'', PBool True)])] None]) mem_jobs_empty))) = [Some 0]"
  by code_simp+

end
