(* ===== verification/Runtime_Sessions.thy ===== *)
theory Runtime_Sessions
  imports Scoring_Store Py_Float
begin

text \<open>
  Interactive sessions and the dispatch of commands, \<^verbatim>\<open>packages/storage/motte_storage/runtime_sessions.py\<close>.
  The module is written once against a transaction object; here the transaction is the record \<open>tx\<close> of its
  operations, and \<open>mem_tx\<close> and \<open>sql_tx\<close> are its in-memory and SQLite instances.  Sessions and commands are
  dictionaries whose fields may hold anything, so that the accesses of the source may raise
  \<^verbatim>\<open>KeyError\<close>, \<^verbatim>\<open>TypeError\<close> or \<^verbatim>\<open>AttributeError\<close>.  Points of time are rational numbers; reading one from
  a field, \<^verbatim>\<open>datetime.fromisoformat(str(value))\<close>, is a parameter.
\<close>

section \<open>Accesses that may raise\<close>

text \<open>\<^verbatim>\<open>v.get\<close> and \<^verbatim>\<open>v.items\<close>\<close>

definition attr_dict :: "string \<Rightarrow> pyval \<Rightarrow> exn + pydict" where
  "attr_dict attr v = (case v of PDict d \<Rightarrow> Inr d | _ \<Rightarrow> Inl (AttributeError attr))"

text \<open>A value as a key of a dictionary with string keys; lists and dictionaries are not hashable.\<close>

definition hash_key :: "pyval \<Rightarrow> exn + string option" where
  "hash_key v = (case v of PStr s \<Rightarrow> Inr (Some s) | PList _ \<Rightarrow> Inl (TypeError ''unhashable'')
     | PDict _ \<Rightarrow> Inl (TypeError ''unhashable'') | _ \<Rightarrow> Inr None)"

text \<open>\<^verbatim>\<open>v in {...}\<close> for a set of strings\<close>

definition py_in_strs :: "pyval \<Rightarrow> string list \<Rightarrow> exn + bool" where
  "py_in_strs v ks = map_sum id (\<lambda>key. case key of None \<Rightarrow> False | Some s \<Rightarrow> s \<in> set ks) (hash_key v)"

text \<open>\<^verbatim>\<open>d[v]\<close>\<close>

definition dict_item :: "pydict \<Rightarrow> pyval \<Rightarrow> exn + pyval" where
  "dict_item d v = res_bind (hash_key v) (\<lambda>key. case key of None \<Rightarrow> Inl (KeyError []) | Some k \<Rightarrow> ditem d k)"

text \<open>A value that is indexed with a string: only dictionaries are.\<close>

definition subscriptable :: "pyval \<Rightarrow> exn + pydict" where
  "subscriptable v = (case v of PDict d \<Rightarrow> Inr d | _ \<Rightarrow> Inl (TypeError ''[]''))"

text \<open>\<^verbatim>\<open>v + 1\<close>\<close>

definition py_succ :: "pyval \<Rightarrow> exn + pyval" where
  "py_succ v = (case v of
       PInt n \<Rightarrow> Inr (PInt (n + 1))
     | PBool b \<Rightarrow> Inr (PInt (of_bool b + 1))
     | PFloat f \<Rightarrow> Inr (PFloat (float_add f (FFin 1)))
     | _ \<Rightarrow> Inl (TypeError ''+''))"

section \<open>Deadlines\<close>

datatype time_reading = NoTime | NaiveTime | AwareTime rat

definition deadline :: "(pyval \<Rightarrow> time_reading) \<Rightarrow> pyval \<Rightarrow> exn + rat" where
  "deadline read_time v = (case read_time v of
       NoTime \<Rightarrow> Inl (RunConflictError ''invalid command/approval deadline'')
     | NaiveTime \<Rightarrow> Inl (RunConflictError ''deadline must have a timezone'')
     | AwareTime t \<Rightarrow> Inr t)"

section \<open>Transactions\<close>

definition SESSION_IDENTITIES :: "string list" where
  "SESSION_IDENTITIES = [''session_id'', ''run_id'', ''case_id'', ''attempt_id'', ''operation_id'', ''start_token'',
     ''worker_token'', ''config_hash'', ''parser_version'', ''created_at'', ''revision'', ''control_revision'']"

definition COMMAND_IDENTITIES :: "string list" where
  "COMMAND_IDENTITIES = [''session_id'', ''expected_session_revision'', ''dedupe_key'', ''intent_hash'', ''request_hash'',
     ''payload'', ''type'', ''content'', ''actor'', ''expires_at'', ''created_at'', ''intervention'']"

text \<open>
  The operations of a transaction: reading a run, a session or a command, the sessions and commands of a
  run, inserting and overwriting, appending an event, and whether leaving it by an exception rolls back.
  \<open>tx_key\<close> says which identity a value that is looked up stands for.
\<close>

record 's tx =
  tx_rollback :: bool
  tx_key :: "pyval \<Rightarrow> exn + string option"
  tx_run :: "string \<Rightarrow> 's \<Rightarrow> pydict option"
  tx_session :: "string \<Rightarrow> 's \<Rightarrow> pydict option"
  tx_command :: "string \<Rightarrow> 's \<Rightarrow> pydict option"
  tx_sessions :: "string \<Rightarrow> 's \<Rightarrow> exn + pydict list"
  tx_commands :: "string \<Rightarrow> 's \<Rightarrow> exn + pydict list"
  tx_new_session :: "pydict \<Rightarrow> ('s, exn, unit) sop"
  tx_put_session :: "pydict \<Rightarrow> ('s, exn, unit) sop"
  tx_new_command :: "pydict \<Rightarrow> ('s, exn, unit) sop"
  tx_put_command :: "pydict \<Rightarrow> ('s, exn, unit) sop"
  tx_append :: "pydict \<Rightarrow> ('s, exn, unit) sop"

definition tx_open :: "'s tx \<Rightarrow> ('s, exn, 'a) sop \<Rightarrow> ('s, exn, 'a) sop" where
  "tx_open T body = (if tx_rollback T then transaction body else body)"

definition tx_audit :: "'s tx \<Rightarrow> pydict option \<Rightarrow> string \<Rightarrow> ('s, exn, unit) sop" where
  "tx_audit T event run_id = st_bind (st_lift (validate_event event run_id)) (\<lambda>pending. case pending of
       None \<Rightarrow> st_return ()
     | Some e \<Rightarrow> tx_append T e)"

text \<open>\<^verbatim>\<open>tx.get('runtime_sessions', v)\<close> for a value of a record\<close>

definition find_session :: "'s tx \<Rightarrow> pyval \<Rightarrow> ('s, exn, pydict option) sop" where
  "find_session T v = st_bind (st_lift (tx_key T v)) (\<lambda>key. case key of
       None \<Rightarrow> st_return None
     | Some sid \<Rightarrow> st_get (tx_session T sid))"

section \<open>Sessions\<close>

definition new_session_record :: "string \<Rightarrow> pydict \<Rightarrow> exn + pydict" where
  "new_session_record now rec =
     (case find (\<lambda>k. \<not> nonempty_str (dget rec k)) [''session_id'', ''run_id'', ''case_id'', ''attempt_id'',
         ''operation_id'', ''start_token'', ''worker_token''] of
        Some k \<Rightarrow> Inl (ValueError (''session requires '' @ k))
      | None \<Rightarrow>
          (let stored = dsetdefault ''created_at'' (PStr now) (dsetdefault ''pending_approvals'' (PDict [])
             (dsetdefault ''state'' (PStr ''prepared'') (dsetdefault ''control_revision'' (PInt 1)
             (dsetdefault ''revision'' (PInt 1) rec))))
           in if \<not> py_eq (dget stored ''revision'') (PInt 1) then Inl (ValueError ''new session must have revision 1'')
              else Inr stored))"

definition session_create :: "'s tx \<Rightarrow> string \<Rightarrow> pydict \<Rightarrow> ('s, exn, pydict) sop" where
  "session_create T now rec =
     st_bind (st_lift (new_session_record now rec)) (\<lambda>stored.
     st_bind (st_lift (ditem_str stored ''run_id'')) (\<lambda>run_id.
     st_bind (st_lift (ditem_str stored ''session_id'')) (\<lambda>sid. tx_open T (
     st_bind (st_get (tx_run T run_id)) (\<lambda>run.
     if run = None then st_raise (RunConflictError ''session run missing'')
     else st_bind (st_get (tx_session T sid)) (\<lambda>old.
     if old \<noteq> None then st_raise (RunConflictError ''session already exists'')
     else st_bind (tx_new_session T stored) (\<lambda>_. st_return stored)))))))"

definition session_get :: "'s tx \<Rightarrow> string \<Rightarrow> ('s, exn, pydict option) sop" where
  "session_get T sid = tx_open T (st_get (tx_session T sid))"

definition session_list_for_run :: "'s tx \<Rightarrow> string \<Rightarrow> ('s, exn, pydict list) sop" where
  "session_list_for_run T run_id = tx_open T (st_bind (st_get (tx_sessions T run_id)) st_lift)"

definition SESSION_STATES :: "string list" where
  "SESSION_STATES = [''prepared'', ''starting'', ''active'', ''stopping'', ''terminal'', ''abandoned'']"

definition MUTABLE_APPROVAL_FIELDS :: "string list" where
  "MUTABLE_APPROVAL_FIELDS = [''state'', ''claimed_command_id'', ''resolution_evidence'']"

definition approval_identity :: "pydict \<Rightarrow> pyval" where
  "approval_identity approval = PDict (filter (\<lambda>(k, _). k \<notin> set MUTABLE_APPROVAL_FIELDS) approval)"

text \<open>One round of the loop over the known approvals.\<close>

definition check_approval_change :: "pyval \<Rightarrow> string \<Rightarrow> pyval \<Rightarrow> exn + unit" where
  "check_approval_change changed key approval =
     res_bind (attr_dict ''get'' changed) (\<lambda>changed'.
     if dget changed' key = PNone then Inl (ValueError ''approval identity/action is immutable'')
     else res_bind (attr_dict ''items'' approval) (\<lambda>a.
     res_bind (attr_dict ''items'' (dget changed' key)) (\<lambda>incoming.
     if \<not> py_eq (approval_identity a) (approval_identity incoming) then
       Inl (ValueError ''approval identity/action is immutable'')
     else res_bind (py_in_strs (dget a ''state'') [''resolved'', ''expired'', ''abandoned'']) (\<lambda>closed.
     if closed \<and> \<not> py_eq (dget incoming ''state'') (dget a ''state'') then
       Inl (ValueError ''closed approval cannot reopen'')
     else Inr ()))))"

fun check_approval_changes :: "pyval \<Rightarrow> pydict \<Rightarrow> exn + unit" where
  "check_approval_changes changed [] = Inr ()"
| "check_approval_changes changed ((key, approval) # rest) =
     res_bind (check_approval_change changed key approval) (\<lambda>_. check_approval_changes changed rest)"

definition rebinds_native :: "pydict \<Rightarrow> pydict \<Rightarrow> string \<Rightarrow> bool" where
  "rebinds_native previous changes key \<longleftrightarrow> py_truthy (dget previous key) \<and>
     (case map_of changes key of None \<Rightarrow> False | Some v \<Rightarrow> \<not> py_eq v (dget previous key))"

definition changes_field :: "pydict \<Rightarrow> pydict \<Rightarrow> string \<Rightarrow> bool" where
  "changes_field previous changes key \<longleftrightarrow>
     (case map_of changes key of None \<Rightarrow> False | Some v \<Rightarrow> \<not> py_eq v (dget previous key))"

text \<open>The checks of a transition after the revision and state matched, and the record it writes.\<close>

definition next_session :: "pydict \<Rightarrow> int \<Rightarrow> pydict \<Rightarrow> exn + pydict" where
  "next_session previous expected_revision changes =
     res_bind (py_in_strs (dget previous ''state'') [''terminal'', ''abandoned'']) (\<lambda>closed.
     if closed then Inl (RunConflictError ''session is closed'')
     else res_bind (py_in_strs (dget_default changes ''state'' (dget previous ''state'')) SESSION_STATES) (\<lambda>known.
     if \<not> known then Inl (ValueError ''unknown runtime session state'')
     else if list_ex (rebinds_native previous changes) [''native_thread_id'', ''active_turn_id''] then
       Inl (ValueError ''native session identity is immutable once bound'')
     else res_bind (case map_of changes ''pending_approvals'' of
         None \<Rightarrow> Inr ()
       | Some changed \<Rightarrow> res_bind (attr_dict ''items'' (dget_default previous ''pending_approvals'' (PDict [])))
           (check_approval_changes changed)) (\<lambda>_.
     (let stored = od_set ''revision'' (PInt (expected_revision + 1)) (od_merge previous changes) in
      if list_ex (changes_field previous changes) [''state'', ''native_thread_id'', ''active_turn_id'', ''pending_approvals''] then
        res_bind (ditem previous ''control_revision'') (\<lambda>c.
        res_bind (py_succ c) (\<lambda>c'. Inr (od_set ''control_revision'' c' stored)))
      else Inr stored))))"

text \<open>\<^verbatim>\<open>d[k] != v or d[l] != w\<close>\<close>

definition fields_moved :: "pydict \<Rightarrow> string \<Rightarrow> pyval \<Rightarrow> string \<Rightarrow> pyval \<Rightarrow> exn + bool" where
  "fields_moved d k v l w = res_bind (ditem d k) (\<lambda>x.
     if \<not> py_eq x v then Inr True else res_bind (ditem d l) (\<lambda>y. Inr (\<not> py_eq y w)))"

definition session_transition :: "'s tx \<Rightarrow> string \<Rightarrow> int \<Rightarrow> string \<Rightarrow> pydict \<Rightarrow> ('s, exn, pydict) sop" where
  "session_transition T sid expected_revision expected_state changes =
     (if dhas_any SESSION_IDENTITIES changes then st_raise (ValueError ''session identity is immutable'')
      else tx_open T (
      st_bind (st_get (tx_session T sid)) (\<lambda>found. case found of
          None \<Rightarrow> st_raise (RunConflictError ''session revision/state changed'')
        | Some previous \<Rightarrow>
            st_bind (st_lift (fields_moved previous ''revision'' (PInt expected_revision) ''state'' (PStr expected_state))) (\<lambda>moved.
            if moved then st_raise (RunConflictError ''session revision/state changed'')
            else st_bind (st_lift (next_session previous expected_revision changes)) (\<lambda>stored.
              st_bind (tx_put_session T stored) (\<lambda>_. st_return stored))))))"

section \<open>Binding of a command\<close>

definition check_approval :: "(pyval \<Rightarrow> time_reading) \<Rightarrow> pydict \<Rightarrow> pydict \<Rightarrow> rat \<Rightarrow> exn + unit" where
  "check_approval read_time session command now =
     (let payload = (if py_truthy (dget command ''payload'') then dget command ''payload'' else PDict []) in
      res_bind (attr_dict ''get'' (dget_default session ''pending_approvals'' (PDict []))) (\<lambda>approvals.
      res_bind (attr_dict ''get'' payload) (\<lambda>p.
      res_bind (hash_key (dget p ''approval_id'')) (\<lambda>key.
      let approval = (case key of None \<Rightarrow> PNone | Some k \<Rightarrow> dget approvals k) in
      if \<not> py_truthy approval then Inl (RunConflictError ''approval is not pending'')
      else res_bind (attr_dict ''get'' approval) (\<lambda>a.
      if \<not> py_eq (dget a ''state'') (PStr ''pending'') then Inl (RunConflictError ''approval is not pending'')
      else if \<not> py_eq (dget p ''request_hash'') (dget a ''request_hash'') then
        Inl (RunConflictError ''approval request hash mismatch'')
      else res_bind (deadline read_time (dget a ''expires_at'')) (\<lambda>t.
      if now \<ge> t then Inl (RunConflictError ''approval expired'') else Inr ()))))))"

definition check_binding ::
    "(pyval \<Rightarrow> time_reading) \<Rightarrow> pydict option \<Rightarrow> pydict option \<Rightarrow> pydict \<Rightarrow> rat \<Rightarrow> exn + unit" where
  "check_binding read_time run session command now =
     (let r = (case run of None \<Rightarrow> [] | Some d \<Rightarrow> d); s = (case session of None \<Rightarrow> [] | Some d \<Rightarrow> d) in
      if r = [] \<or> \<not> py_eq (dget r ''status'') (PStr ''running'') \<or>
         (py_truthy (dget r ''cancellation'') \<and> \<not> py_eq (dget command ''type'') (PStr ''interrupt'')) then
        Inl (RunConflictError ''run is not active or is cancelling'')
      else if s = [] \<or> \<not> py_eq (dget s ''state'') (PStr ''active'') then
        Inl (RunConflictError ''session is not active'')
      else if list_ex (\<lambda>k. \<not> py_eq (dget command k) (dget s k)) [''run_id'', ''case_id'', ''session_id''] then
        Inl (RunConflictError ''command session binding mismatch'')
      else if \<not> py_eq (dget command ''expected_session_revision'') (dget s ''control_revision'') then
        Inl (RunConflictError ''session control revision mismatch'')
      else res_bind (deadline read_time (dget command ''expires_at'')) (\<lambda>t.
      if now \<ge> t then Inl (RunConflictError ''command expired'')
      else res_bind (py_in_strs (dget command ''type'') [''approve'', ''reject'']) (\<lambda>deciding.
      if deciding then check_approval read_time s command now else Inr ())))"

section \<open>Commands\<close>

definition command_get :: "'s tx \<Rightarrow> string \<Rightarrow> ('s, exn, pydict option) sop" where
  "command_get T cid = tx_open T (st_get (tx_command T cid))"

definition command_list_for_run :: "'s tx \<Rightarrow> string \<Rightarrow> ('s, exn, pydict list) sop" where
  "command_list_for_run T run_id = tx_open T (st_bind (st_get (tx_commands T run_id)) st_lift)"

definition create_or_get ::
    "'s tx \<Rightarrow> (pyval \<Rightarrow> time_reading) \<Rightarrow> rat \<Rightarrow> string \<Rightarrow> pydict \<Rightarrow> pydict option \<Rightarrow> ('s, exn, pydict \<times> bool) sop" where
  "create_or_get T read_time now hex rec event =
     st_bind (st_lift (new_record rec ''command'' ''queued'' hex)) (\<lambda>stored.
     if \<not> py_truthy (dget stored ''dedupe_key'') \<or> \<not> py_truthy (dget stored ''intent_hash'') then
       st_raise (ValueError ''command requires dedupe key and canonical intent hash'')
     else st_bind (st_lift (ditem_str stored ''run_id'')) (\<lambda>run_id.
     st_bind (st_lift (ditem_str stored ''id'')) (\<lambda>cid.
     st_bind (st_lift (validate_event event run_id)) (\<lambda>pending. tx_open T (
     st_bind (st_get (tx_run T run_id)) (\<lambda>run.
     st_bind (st_get (tx_commands T run_id)) (\<lambda>fetched.
     st_bind (st_lift fetched) (\<lambda>known.
     case find (\<lambda>c. py_eq (dget c ''dedupe_key'') (dget stored ''dedupe_key'')) known of
         Some existing \<Rightarrow>
           if \<not> py_eq (dget existing ''intent_hash'') (dget stored ''intent_hash'') then
             st_raise (RunConflictError ''dedupe key has a different command intent'')
           else st_return (existing, False)
       | None \<Rightarrow>
           st_bind (find_session T (dget stored ''session_id'')) (\<lambda>session.
           st_bind (st_lift (check_binding read_time run session stored now)) (\<lambda>_.
           st_bind (st_get (tx_command T cid)) (\<lambda>old.
           if old \<noteq> None then st_raise (RunConflictError ''command already exists'')
           else st_bind (tx_new_command T stored) (\<lambda>_.
             st_bind (tx_audit T pending run_id) (\<lambda>_. st_return (stored, True))))))))))))))"

text \<open>\<^verbatim>\<open>event or {'type': ..., 'command_id': ...}\<close>\<close>

definition event_or :: "pydict option \<Rightarrow> string \<Rightarrow> string \<Rightarrow> pydict" where
  "event_or event kind cid = (case event of
       Some (x # e) \<Rightarrow> x # e
     | _ \<Rightarrow> [(''type'', PStr kind), (''command_id'', PStr cid)])"

text \<open>The session after the approval a command decides was reserved for it.\<close>

definition reserve_approval :: "pydict \<Rightarrow> pydict \<Rightarrow> string \<Rightarrow> exn + pydict" where
  "reserve_approval session command cid =
     res_bind (ditem session ''pending_approvals'') (\<lambda>pa.
     res_bind (subscriptable pa) (\<lambda>approvals.
     res_bind (ditem command ''payload'') (\<lambda>payload.
     res_bind (subscriptable payload) (\<lambda>p.
     res_bind (ditem p ''approval_id'') (\<lambda>aid.
     res_bind (dict_item approvals aid) (\<lambda>approval.
     res_bind (attr_dict ''update'' approval) (\<lambda>a.
     res_bind (ditem session ''revision'') (\<lambda>rev.
     res_bind (py_succ rev) (\<lambda>rev'.
     Inr (od_set ''revision'' rev' (od_set ''pending_approvals''
       (PDict (od_set (str_part aid) (PDict (od_set ''claimed_command_id'' (PStr cid) (od_set ''state'' (PStr ''claimed'') a)))
         approvals)) session)))))))))))"

definition reserve :: "'s tx \<Rightarrow> pydict \<Rightarrow> pydict \<Rightarrow> string \<Rightarrow> bool \<Rightarrow> ('s, exn, unit) sop" where
  "reserve T session command cid deciding =
     (if deciding then st_bind (st_lift (reserve_approval session command cid)) (tx_put_session T) else st_return ())"

text \<open>
  \<^verbatim>\<open>claim\<close>: the reference is read in a transaction of its own; no command is ever deleted, so the command
  is still there in the second one.
\<close>

definition claim_changes :: "string \<Rightarrow> string \<Rightarrow> string \<Rightarrow> pydict" where
  "claim_changes now_text token worker_token =
     [(''delivered_at'', PStr now_text), (''execution_token'', PStr token), (''worker_token'', PStr worker_token)]"

definition command_claim ::
    "'s tx \<Rightarrow> (pyval \<Rightarrow> time_reading) \<Rightarrow> string \<Rightarrow> string \<Rightarrow> int \<Rightarrow> string \<Rightarrow> int \<Rightarrow> string \<Rightarrow> rat \<Rightarrow> string \<Rightarrow> pydict option \<Rightarrow>
     ('s, exn, pydict) sop" where
  "command_claim T read_time token cid expected_revision sid expected_control_revision worker_token now now_text event =
     st_bind (command_get T cid) (\<lambda>reference. case reference of
         None \<Rightarrow> st_raise (RunConflictError ''command missing'')
       | Some ref \<Rightarrow>
     if ref = [] then st_raise (RunConflictError ''command missing'')
     else tx_open T (
     st_bind (st_lift (ditem_str ref ''run_id'')) (\<lambda>ref_run.
     st_bind (st_get (tx_run T ref_run)) (\<lambda>run.
     st_bind (st_get (tx_session T sid)) (\<lambda>session.
     st_bind (st_get (tx_command T cid)) (\<lambda>found. case found of
         None \<Rightarrow> st_raise (AttributeError ''get'')
       | Some command \<Rightarrow>
     st_bind (st_lift (check_binding read_time run session command now)) (\<lambda>_.
     (let s = (case session of None \<Rightarrow> [] | Some d \<Rightarrow> d) in
     st_bind (st_lift (fields_moved s ''worker_token'' (PStr worker_token) ''control_revision'' (PInt expected_control_revision))) (\<lambda>moved.
     if moved then st_raise (RunConflictError ''session owner/revision changed'')
     else st_bind (st_lift (advance_record command expected_revision ''queued'' ''delivered''
         (claim_changes now_text token worker_token) COMMAND_TRANSITIONS)) (\<lambda>stored.
     st_bind (st_lift (ditem_str command ''run_id'')) (\<lambda>run_id.
     st_bind (st_lift (validate_event (Some (event_or event ''command_delivered'' cid)) run_id)) (\<lambda>pending.
     st_bind (st_lift (res_bind (ditem command ''type'') (\<lambda>ty. py_in_strs ty [''approve'', ''reject'']))) (\<lambda>deciding.
     st_bind (reserve T s command cid deciding) (\<lambda>_.
     st_bind (tx_put_command T stored) (\<lambda>_.
     st_bind (tx_audit T pending run_id) (\<lambda>_. st_return stored))))))))))))))))"

definition command_transition ::
    "'s tx \<Rightarrow> string \<Rightarrow> int \<Rightarrow> string \<Rightarrow> string \<Rightarrow> pydict \<Rightarrow> pydict option \<Rightarrow> ('s, exn, pydict) sop" where
  "command_transition T cid expected_revision expected_status status changes event =
     (if dhas_any COMMAND_IDENTITIES changes then st_raise (ValueError ''command intent/binding is immutable'')
      else st_bind (command_get T cid) (\<lambda>reference. case reference of
          None \<Rightarrow> st_raise (RunConflictError ''command missing'')
        | Some ref \<Rightarrow>
      if ref = [] then st_raise (RunConflictError ''command missing'')
      else tx_open T (
      st_bind (st_lift (ditem_str ref ''run_id'')) (\<lambda>_.
      st_bind (st_get (tx_command T cid)) (\<lambda>found. case found of
          None \<Rightarrow> st_raise (AttributeError ''get'')
        | Some previous \<Rightarrow>
      st_bind (st_lift (advance_record previous expected_revision expected_status status changes COMMAND_TRANSITIONS)) (\<lambda>stored.
      st_bind (st_lift (ditem_str stored ''run_id'')) (\<lambda>run_id.
      st_bind (st_lift (validate_event (Some (event_or event (''command_'' @ status) cid)) run_id)) (\<lambda>pending.
      st_bind (tx_put_command T stored) (\<lambda>_.
      st_bind (tx_audit T pending run_id) (\<lambda>_. st_return stored))))))))))"

section \<open>The in-memory transaction\<close>

record mem_live =
  ml_store :: mem_store
  ml_sessions :: "(string, pydict) odict"

definition on_mem :: "(mem_store, exn, 'a) sop \<Rightarrow> (mem_live, exn, 'a) sop" where
  "on_mem m w = (case m (ml_store w) of (r, s) \<Rightarrow> (r, w\<lparr>ml_store := s\<rparr>))"

definition rows_of_run :: "string \<Rightarrow> pydict list \<Rightarrow> exn + pydict list" where
  "rows_of_run run_id rows =
     (if list_ex (\<lambda>r. map_of r ''run_id'' = None) rows then Inl (KeyError ''run_id'')
      else Inr (filter (\<lambda>r. py_eq (dget r ''run_id'') (PStr run_id)) rows))"

definition mem_put_session :: "bool \<Rightarrow> pydict \<Rightarrow> (mem_live, exn, unit) sop" where
  "mem_put_session create rec =
     st_bind (st_lift (ditem_str rec ''session_id'')) (\<lambda>sid.
     st_bind (st_get (\<lambda>w. map_of (ml_sessions w) sid)) (\<lambda>old.
     if create \<and> old \<noteq> None then st_raise (RunConflictError ''runtime_sessions already exists'')
     else st_modify (\<lambda>w. w\<lparr>ml_sessions := od_set sid rec (ml_sessions w)\<rparr>)))"

definition mem_put_command :: "bool \<Rightarrow> pydict \<Rightarrow> (mem_live, exn, unit) sop" where
  "mem_put_command create rec =
     st_bind (st_lift (ditem_str rec ''id'')) (\<lambda>cid.
     st_bind (st_get (\<lambda>w. map_of (ms_commands (ml_store w)) cid)) (\<lambda>old.
     if create \<and> old \<noteq> None then st_raise (RunConflictError ''run_commands already exists'')
     else on_mem (st_modify (\<lambda>s. s\<lparr>ms_commands := od_set cid rec (ms_commands s)\<rparr>))))"

definition mem_tx :: "(nat \<Rightarrow> utc) \<Rightarrow> mem_live tx" where
  "mem_tx clock = \<lparr>tx_rollback = False, tx_key = hash_key,
     tx_run = (\<lambda>k w. map_of (ms_runs (ml_store w)) k),
     tx_session = (\<lambda>k w. map_of (ml_sessions w) k),
     tx_command = (\<lambda>k w. map_of (ms_commands (ml_store w)) k),
     tx_sessions = (\<lambda>r w. rows_of_run r (od_values (ml_sessions w))),
     tx_commands = (\<lambda>r w. rows_of_run r (od_values (ms_commands (ml_store w)))),
     tx_new_session = mem_put_session True, tx_put_session = mem_put_session False,
     tx_new_command = mem_put_command True, tx_put_command = mem_put_command False,
     tx_append = (\<lambda>e. on_mem (st_bind (mem_append_event clock e) (\<lambda>_. st_return ())))\<rparr>"

section \<open>The SQLite transaction\<close>

record session_row =
  ss_id :: string
  ss_run :: string
  ss_state :: pyval
  ss_revision :: pyval
  ss_payload :: pydict

record sql_live =
  sl_store :: sql_store
  sl_sessions :: "session_row list"

definition on_sql :: "(sql_store, exn, 'a) sop \<Rightarrow> (sql_live, exn, 'a) sop" where
  "on_sql m w = (case m (sl_store w) of (r, s) \<Rightarrow> (r, w\<lparr>sl_store := s\<rparr>))"

text \<open>Binding a value to a column that is \<^verbatim>\<open>NOT NULL\<close>.\<close>

definition bind_column :: "pydict \<Rightarrow> string \<Rightarrow> exn + pyval" where
  "bind_column rec k = res_bind (ditem rec k) (\<lambda>v. case v of
       PNone \<Rightarrow> Inl IntegrityError | PList _ \<Rightarrow> Inl InterfaceError | PDict _ \<Rightarrow> Inl InterfaceError | _ \<Rightarrow> Inr v)"

definition select_session :: "string \<Rightarrow> sql_live \<Rightarrow> session_row option" where
  "select_session sid w = find (\<lambda>r. ss_id r = sid) (sl_sessions w)"

definition insert_session :: "pydict \<Rightarrow> (sql_live, exn, unit) sop" where
  "insert_session rec =
     st_bind (st_lift (ditem_str rec ''session_id'')) (\<lambda>sid.
     st_bind (st_lift (ditem_str rec ''run_id'')) (\<lambda>run_id.
     st_bind (st_lift (bind_column rec ''state'')) (\<lambda>state.
     st_bind (st_lift (bind_column rec ''revision'')) (\<lambda>rev.
     st_bind (st_get (select_session sid)) (\<lambda>old.
     if old \<noteq> None then st_raise IntegrityError
     else st_modify (\<lambda>w. w\<lparr>sl_sessions := sl_sessions w @ [\<lparr>ss_id = sid, ss_run = run_id, ss_state = state,
       ss_revision = rev, ss_payload = jnorm_dict rec\<rparr>]\<rparr>))))))"

definition update_session :: "pydict \<Rightarrow> (sql_live, exn, unit) sop" where
  "update_session rec =
     st_bind (st_lift (bind_column rec ''state'')) (\<lambda>state.
     st_bind (st_lift (bind_column rec ''revision'')) (\<lambda>rev.
     st_bind (st_lift (ditem_str rec ''session_id'')) (\<lambda>sid.
     st_modify (\<lambda>w. w\<lparr>sl_sessions := update_where (\<lambda>r. ss_id r = sid)
       (\<lambda>r. r\<lparr>ss_state := state, ss_revision := rev, ss_payload := jnorm_dict rec\<rparr>) (sl_sessions w)\<rparr>))))"

definition sql_new_command :: "pydict \<Rightarrow> (sql_store, exn, unit) sop" where
  "sql_new_command rec =
     st_bind (st_lift (ditem_str rec ''id'')) (\<lambda>cid.
     st_bind (st_lift (ditem_str rec ''run_id'')) (\<lambda>run_id.
     st_bind (st_lift (ditem_str rec ''status'')) (\<lambda>status.
     st_bind (st_lift (ditem rec ''revision'')) (\<lambda>rev.
     insert_command \<lparr>cm_id = cid, cm_run = run_id, cm_status = status, cm_revision = int_of_val rev,
       cm_payload = jnorm_dict rec\<rparr>))))"

definition sql_put_command :: "pydict \<Rightarrow> (sql_store, exn, unit) sop" where
  "sql_put_command rec =
     st_bind (st_lift (ditem_str rec ''status'')) (\<lambda>status.
     st_bind (st_lift (ditem rec ''revision'')) (\<lambda>rev.
     st_bind (st_lift (ditem_str rec ''id'')) (\<lambda>cid.
     st_bind (st_get (\<lambda>db. list_ex (\<lambda>old. cm_id old = cid \<and>
         list_ex (\<lambda>r. cm_id r \<noteq> cid \<and> dedupe_clash (cm_run old) rec r) (sq_commands db)) (sq_commands db))) (\<lambda>dup.
     if dup then st_raise IntegrityError
     else st_modify (\<lambda>db. db\<lparr>sq_commands := update_where (\<lambda>r. cm_id r = cid)
       (\<lambda>r. r\<lparr>cm_status := status, cm_revision := int_of_val rev, cm_payload := jnorm_dict rec\<rparr>) (sq_commands db)\<rparr>)))))"

text \<open>
  A string selects the row with that key and \<^verbatim>\<open>NULL\<close> no row; what else can be bound is the parameter
  \<open>bound\<close>.
\<close>

definition bind_key :: "(pyval \<Rightarrow> exn + string option) \<Rightarrow> pyval \<Rightarrow> exn + string option" where
  "bind_key bound v = (case v of PStr s \<Rightarrow> Inr (Some s) | PNone \<Rightarrow> Inr None | _ \<Rightarrow> bound v)"

definition sql_tx :: "(nat \<Rightarrow> utc) \<Rightarrow> (pyval \<Rightarrow> exn + string option) \<Rightarrow> sql_live tx" where
  "sql_tx clock bound = \<lparr>tx_rollback = True, tx_key = bind_key bound,
     tx_run = (\<lambda>k w. map_option rr_payload (find (\<lambda>r. rr_id r = k) (sq_runs (sl_store w)))),
     tx_session = (\<lambda>k w. map_option ss_payload (select_session k w)),
     tx_command = (\<lambda>k w. sql_command_get k (sl_store w)),
     tx_sessions = (\<lambda>r w. Inr (map ss_payload (filter (\<lambda>row. ss_run row = r) (sl_sessions w)))),
     tx_commands = (\<lambda>r w. Inr (sql_command_list r (sl_store w))),
     tx_new_session = insert_session, tx_put_session = update_session,
     tx_new_command = (\<lambda>c. on_sql (sql_new_command c)), tx_put_command = (\<lambda>c. on_sql (sql_put_command c)),
     tx_append = (\<lambda>e. on_sql (st_bind (sql_append_event clock e) (\<lambda>_. st_return ())))\<rparr>"

end
