(* ===== verification/Session_Contract.thy ===== *)
theory Session_Contract
  imports Runtime_Sessions
begin

text \<open>
  What sessions and commands promise, whatever sequence of operations callers run: a command is
  delivered at most once and moves forward only, a dedupe key of a run creates one command, a closed
  session is final, and identities of sessions, bound native identities and decided approvals never
  change.  The record-level rules come first, then the locale of a transaction and its two instances.
\<close>

type_synonym fields = "string \<Rightarrow> pyval option"

section \<open>How a session may evolve\<close>

definition approval_of :: "fields \<Rightarrow> string \<Rightarrow> pydict option" where
  "approval_of s k = (case s ''pending_approvals'' of
       Some (PDict d) \<Rightarrow> (case map_of d k of Some (PDict a) \<Rightarrow> Some a | _ \<Rightarrow> None)
     | _ \<Rightarrow> None)"

definition approval_evolves :: "pydict \<Rightarrow> pydict \<Rightarrow> bool" where
  "approval_evolves a b \<longleftrightarrow>
     (\<forall>k x. k \<notin> set MUTABLE_APPROVAL_FIELDS \<longrightarrow> dget a k = PStr x \<longrightarrow> dget b k = PStr x) \<and>
     (\<forall>x \<in> {''resolved'', ''expired'', ''abandoned''}. dget a ''state'' = PStr x \<longrightarrow> dget b ''state'' = PStr x)"

definition session_closed :: "fields \<Rightarrow> bool" where
  "session_closed s \<longleftrightarrow> s ''state'' \<in> {Some (PStr ''terminal''), Some (PStr ''abandoned'')}"

definition session_evolves :: "fields \<Rightarrow> fields \<Rightarrow> bool" where
  "session_evolves a b \<longleftrightarrow>
     (\<forall>k \<in> set SESSION_IDENTITIES - {''revision'', ''control_revision''}. b k = a k) \<and>
     (session_closed a \<longrightarrow> b = a) \<and>
     (\<forall>k \<in> {''native_thread_id'', ''active_turn_id''}. \<forall>x. a k = Some (PStr x) \<longrightarrow> x \<noteq> [] \<longrightarrow> b k = Some (PStr x)) \<and>
     (\<forall>k p. approval_of a k = Some p \<longrightarrow> (\<exists>q. approval_of b k = Some q \<and> approval_evolves p q))"

lemma approval_evolves_refl [simp]: "approval_evolves a a"
  by (simp add: approval_evolves_def)

lemma approval_evolves_trans: "approval_evolves a b \<Longrightarrow> approval_evolves b c \<Longrightarrow> approval_evolves a c"
  unfolding approval_evolves_def by blast

lemma approval_evolves_jnorm [simp]: "approval_evolves (jnorm_dict a) (jnorm_dict b) \<longleftrightarrow> approval_evolves a b"
  by (simp add: approval_evolves_def dget_jnorm_dict)

lemma session_evolves_refl [simp]: "session_evolves a a"
  by (auto simp: session_evolves_def)

lemma session_evolves_trans: "session_evolves a b \<Longrightarrow> session_evolves b c \<Longrightarrow> session_evolves a c"
proof -
  assume ab: "session_evolves a b" and bc: "session_evolves b c"
  have "session_closed a \<longrightarrow> c = a" using ab bc unfolding session_evolves_def by metis
  moreover have "\<exists>r. approval_of c k = Some r \<and> approval_evolves p r" if p: "approval_of a k = Some p" for k p
  proof -
    obtain q where q: "approval_of b k = Some q" "approval_evolves p q" using ab p unfolding session_evolves_def by blast
    obtain r where "approval_of c k = Some r" "approval_evolves q r" using bc q(1) unfolding session_evolves_def by blast
    then show ?thesis using approval_evolves_trans [OF q(2)] by blast
  qed
  ultimately show ?thesis using ab bc unfolding session_evolves_def by simp
qed

lemma approval_of_content: "approval_of (content d) k =
    (case map_of d ''pending_approvals'' of
       Some (PDict e) \<Rightarrow> (case map_of e k of Some (PDict a) \<Rightarrow> Some (jnorm_dict a) | _ \<Rightarrow> None)
     | _ \<Rightarrow> None)"
  by (auto simp: approval_of_def content_def map_of_jnorm_dict jnorm_PDict simp del: jnorm.simps(2)
      split: option.splits pyval.splits)

text \<open>Equal dictionaries agree on their strings.\<close>

lemma py_eq_items_PStr: "py_eq_items d e \<Longrightarrow> (k, PStr x) \<in> set d \<Longrightarrow> map_of e k = Some (PStr x)"
  by (induction d) (auto split: option.splits)

lemma approval_identity_PStr:
  assumes "py_eq (approval_identity a) (approval_identity b)" "k \<notin> set MUTABLE_APPROVAL_FIELDS" "dget a k = PStr x"
  shows "dget b k = PStr x"
proof -
  have *: "map_of (filter (\<lambda>(k, _). k \<notin> set MUTABLE_APPROVAL_FIELDS) d) k = map_of d k" for d :: pydict
    using assms(2) by (induction d) auto
  have "map_of a k = Some (PStr x)" using assms(3) by (auto simp: dget_def split: option.splits)
  then have "(k, PStr x) \<in> set (filter (\<lambda>(k, _). k \<notin> set MUTABLE_APPROVAL_FIELDS) a)"
    using assms(2) by (auto dest: map_of_SomeD)
  then have "map_of (filter (\<lambda>(k, _). k \<notin> set MUTABLE_APPROVAL_FIELDS) b) k = Some (PStr x)"
    using assms(1) by (auto simp: approval_identity_def intro: py_eq_items_PStr)
  then show ?thesis by (simp add: * dget_def)
qed

lemma py_in_strs_PStr [simp]: "py_in_strs (PStr s) ks = Inr (s \<in> set ks)"
  by (simp add: py_in_strs_def hash_key_def)

lemma check_approval_change_Inr:
  assumes "check_approval_change changed k (PDict a) = Inr u"
  shows "\<exists>e b. changed = PDict e \<and> map_of e k = Some (PDict b) \<and> approval_evolves a b"
proof -
  obtain e b closed where *: "changed = PDict e" "dget e k = PDict b" "py_eq (approval_identity a) (approval_identity b)"
      "py_in_strs (dget a ''state'') [''resolved'', ''expired'', ''abandoned''] = Inr closed"
      "closed \<Longrightarrow> py_eq (dget b ''state'') (dget a ''state'')"
    using assms by (auto simp: check_approval_change_def attr_dict_def res_bind_Inr split: pyval.splits if_splits)
  have "dget b ''state'' = PStr x" if "x \<in> {''resolved'', ''expired'', ''abandoned''}" "dget a ''state'' = PStr x" for x
    using *(4,5) that by auto
  then have "approval_evolves a b" using approval_identity_PStr [OF *(3)] by (simp add: approval_evolves_def)
  moreover have "map_of e k = Some (PDict b)" using *(2) by (auto simp: dget_def split: option.splits)
  ultimately show ?thesis using *(1) by blast
qed

lemma check_approval_changes_Inr:
  "check_approval_changes changed d = Inr u \<Longrightarrow> (k, v) \<in> set d \<Longrightarrow> check_approval_change changed k v = Inr ()"
  by (induction d arbitrary: u) (auto simp: res_bind_Inr)

section \<open>The record a transition writes\<close>

lemma next_session_Inr:
  assumes "next_session a e ch = Inr b"
  shows "dget a ''state'' \<notin> {PStr ''terminal'', PStr ''abandoned''}"
    "\<not> list_ex (rebinds_native a ch) [''native_thread_id'', ''active_turn_id'']"
    "map_of ch ''pending_approvals'' = Some changed \<Longrightarrow>
       \<exists>d. dget_default a ''pending_approvals'' (PDict []) = PDict d \<and> check_approval_changes changed d = Inr ()"
    "\<exists>c. b = od_set ''revision'' (PInt (e + 1)) (od_merge a ch) \<or>
       b = od_set ''control_revision'' c (od_set ''revision'' (PInt (e + 1)) (od_merge a ch))"
  using assms by (auto simp: next_session_def res_bind_Inr attr_dict_def Let_def split: if_splits pyval.splits option.splits)

lemma approvals_evolve:
  assumes "next_session a e ch = Inr b" "distinct (map fst ch)" "approval_of (content a) k = Some p"
  shows "\<exists>q. approval_of (content b) k = Some q \<and> approval_evolves p q"
proof -
  obtain d ap where d: "map_of a ''pending_approvals'' = Some (PDict d)" "map_of d k = Some (PDict ap)" "p = jnorm_dict ap"
    using assms(3) by (auto simp: approval_of_content split: option.splits pyval.splits)
  have b: "map_of b ''pending_approvals'' = (case map_of ch ''pending_approvals'' of None \<Rightarrow> Some (PDict d) | Some v \<Rightarrow> Some v)"
    using next_session_Inr(4) [OF assms(1)] d(1) assms(2) by (auto simp: map_of_od_merge map_add_def split: option.splits)
  show ?thesis
  proof (cases "map_of ch ''pending_approvals''")
    case None
    then show ?thesis using b d by (simp add: approval_of_content)
  next
    case (Some changed)
    have "check_approval_changes changed d = Inr ()"
      using next_session_Inr(3) [OF assms(1) Some] d(1) by (simp add: dget_default_def)
    from check_approval_changes_Inr [OF this map_of_SomeD [OF d(2)]]
    obtain f q where "changed = PDict f" "map_of f k = Some (PDict q)" "approval_evolves ap q"
      by (blast dest: check_approval_change_Inr)
    then show ?thesis using b d(3) Some by (simp add: approval_of_content)
  qed
qed

lemma next_session_evolves:
  assumes "next_session a e ch = Inr b" "distinct (map fst ch)" "\<not> dhas_any SESSION_IDENTITIES ch"
  shows "session_evolves (content a) (content b)"
proof -
  have fixed: "content b k = content a k" if "k \<in> set SESSION_IDENTITIES - {''revision'', ''control_revision''}" for k
    using that next_session_Inr(4) [OF assms(1)] dhas_any_untouched [OF assms(3), of k] by (auto simp: content_def)
  have "\<not> session_closed (content a)"
    using next_session_Inr(1) [OF assms(1)] by (auto simp: session_closed_def content_def dget_def)
  moreover have "content b k = Some (PStr x)"
    if k: "k \<in> {''native_thread_id'', ''active_turn_id''}" and x: "content a k = Some (PStr x)" "x \<noteq> []" for k x
  proof -
    have a: "map_of a k = Some (PStr x)" using x(1) by (auto simp: content_def)
    then have "\<not> rebinds_native a ch k" using next_session_Inr(2) [OF assms(1)] k by auto
    then have "map_of ch k = None \<or> map_of ch k = Some (PStr x)"
      using a x(2) by (auto simp: rebinds_native_def dget_def split: option.splits)
    then show ?thesis using next_session_Inr(4) [OF assms(1)] k a assms(2)
      by (auto simp: content_def map_of_od_merge map_add_def)
  qed
  ultimately show ?thesis using fixed approvals_evolve [OF assms(1,2)] unfolding session_evolves_def by blast
qed

text \<open>Reserving an approval that is pending.\<close>

lemma check_binding_Inr:
  assumes "check_binding rt run session c now = Inr u"
  shows "\<exists>s. session = Some s \<and> dget s ''state'' = PStr ''active''"
    "dget c ''type'' \<in> {PStr ''approve'', PStr ''reject''} \<Longrightarrow> session = Some s \<Longrightarrow> check_approval rt s c now = Inr ()"
  using assms by (auto simp: check_binding_def Let_def res_bind_Inr split: if_splits option.splits)

lemma check_approval_Inr:
  assumes "check_approval rt s c now = Inr u"
  shows "\<exists>d p k a. dget_default s ''pending_approvals'' (PDict []) = PDict d \<and> dget c ''payload'' = PDict p \<and>
    dget p ''approval_id'' = PStr k \<and> map_of d k = Some (PDict a) \<and> dget a ''state'' = PStr ''pending''"
proof -
  define payload where "payload = (if py_truthy (dget c ''payload'') then dget c ''payload'' else PDict [])"
  obtain d p key where 1: "attr_dict ''get'' (dget_default s ''pending_approvals'' (PDict [])) = Inr d"
      "attr_dict ''get'' payload = Inr p" "hash_key (dget p ''approval_id'') = Inr key"
    using assms unfolding check_approval_def Let_def payload_def [symmetric] res_bind_Inr by blast
  define v where "v = (case key of None \<Rightarrow> PNone | Some k \<Rightarrow> dget d k)"
  have 2: "py_truthy v" "\<exists>a. attr_dict ''get'' v = Inr a \<and> dget a ''state'' = PStr ''pending''"
    using assms unfolding check_approval_def Let_def payload_def [symmetric]
    by (simp_all add: 1 v_def [symmetric] res_bind_Inr split: if_splits)
  then obtain k a where k: "key = Some k" "dget d k = PDict a" "dget a ''state'' = PStr ''pending''"
    by (auto simp: v_def attr_dict_def split: option.splits pyval.splits)
  have p: "dget p ''approval_id'' = PStr k" using 1(3) k(1) by (simp add: hash_key_def split: pyval.splits)
  then have "dget c ''payload'' = PDict p"
    using 1(2) by (auto simp: payload_def attr_dict_def dget_def [of "[]"] split: pyval.splits if_splits)
  moreover have "map_of d k = Some (PDict a)" using k(2) by (auto simp: dget_def split: option.splits)
  ultimately show ?thesis using p k(3) 1(1) by (auto simp: attr_dict_def split: pyval.splits)
qed

lemma dict_item_PStr [simp]: "dict_item d (PStr k) = ditem d k"
  by (simp add: dict_item_def hash_key_def)

lemma reserve_approval_evolves:
  assumes "reserve_approval s c cid = Inr s'" "check_approval rt s c now = Inr u" "dget s ''state'' = PStr ''active''"
  shows "session_evolves (content s) (content s')"
proof -
  obtain d p k a where c: "dget_default s ''pending_approvals'' (PDict []) = PDict d" "dget c ''payload'' = PDict p"
      "dget p ''approval_id'' = PStr k" "map_of d k = Some (PDict a)" "dget a ''state'' = PStr ''pending''"
    using check_approval_Inr [OF assms(2)] by blast
  have s: "map_of s ''pending_approvals'' = Some (PDict d)"
    using c(1,4) by (auto simp: dget_default_def split: option.splits)
  have item: "ditem e x = Inr y \<Longrightarrow> y = dget e x" for e :: pydict and x y
    by (auto simp: ditem_def dget_def split: option.splits)
  define a' where "a' = od_set ''claimed_command_id'' (PStr cid) (od_set ''state'' (PStr ''claimed'') a)"
  have "\<exists>rev. s' = od_set ''revision'' rev (od_set ''pending_approvals'' (PDict (od_set k (PDict a') d)) s)"
    using assms(1) c s unfolding a'_def
    by (auto simp: reserve_approval_def res_bind_Inr subscriptable_def attr_dict_def ditem_def [of s "''pending_approvals''"]
        ditem_def [of d k] dest!: item) (rule exI, rule refl)
  then obtain rev where s': "s' = od_set ''revision'' rev (od_set ''pending_approvals'' (PDict (od_set k (PDict a') d)) s)" by blast
  have "approval_evolves a a'"
    using c(5) by (auto simp: approval_evolves_def a'_def dget_od_set MUTABLE_APPROVAL_FIELDS_def)
  then have "\<exists>q. approval_of (content s') j = Some q \<and> approval_evolves p' q" if "approval_of (content s) j = Some p'" for j p'
    using that c(4) by (auto simp: approval_of_content s' s split: option.splits pyval.splits)
  moreover have "\<not> session_closed (content s)"
    using assms(3) by (auto simp: session_closed_def content_def dget_def split: option.splits)
  moreover have other: "content s' x = content s x" if "x \<notin> {''revision'', ''pending_approvals''}" for x
    using that by (simp add: s' content_od_set)
  moreover have "content s' x = content s x" if "x \<in> set SESSION_IDENTITIES - {''revision'', ''control_revision''}" for x
    by (rule other) (use that in \<open>auto simp: SESSION_IDENTITIES_def\<close>)
  ultimately show ?thesis unfolding session_evolves_def by simp
qed

section \<open>How a command may evolve\<close>

definition command_rank :: "fields \<Rightarrow> nat" where
  "command_rank c = (if c ''status'' = Some (PStr ''queued'') then 0 else if c ''status'' = Some (PStr ''delivered'') then 1 else 2)"

definition command_evolves :: "fields \<Rightarrow> fields \<Rightarrow> bool" where
  "command_evolves c d \<longleftrightarrow> (\<forall>k \<in> set COMMAND_IDENTITIES \<union> {''id'', ''run_id'', ''case_id''}. d k = c k) \<and>
     (d = c \<or> command_rank c < command_rank d)"

lemma command_evolves_refl [simp]: "command_evolves c c"
  by (simp add: command_evolves_def)

lemma command_evolves_trans: "command_evolves a b \<Longrightarrow> command_evolves b c \<Longrightarrow> command_evolves a c"
  unfolding command_evolves_def by auto

lemma advance_command_evolves:
  assumes "advance_record c r es st ch COMMAND_TRANSITIONS = Inr d" "\<not> dhas_any COMMAND_IDENTITIES ch"
  shows "command_evolves (content c) (content d)"
proof -
  note adv = advance_record_Inr [OF assms(1)]
  have "content d k = content c k" if "k \<in> set COMMAND_IDENTITIES \<union> {''id'', ''run_id'', ''case_id''}" for k
  proof -
    have "k \<noteq> ''revision''" "k \<noteq> ''status''" using that by (auto simp: COMMAND_IDENTITIES_def)
    moreover have "map_of (od_merge c ch) k = map_of c k"
      using that dhas_any_untouched [OF assms(2)] dhas_any_untouched [OF adv(4)] by (auto simp: RECORD_IDENTITY_def)
    ultimately show ?thesis by (simp add: adv(5) content_def)
  qed
  moreover have "content c ''status'' = Some (PStr es)" using adv(2) content_dget_PStr by blast
  moreover have "content d ''status'' = Some (PStr st)" by (simp add: adv(5) content_od_set)
  ultimately show ?thesis using adv(3) by (auto simp: command_evolves_def command_rank_def may_follow_command)
qed

lemma claim_changes_allowed: "\<not> dhas_any COMMAND_IDENTITIES (claim_changes n t w)"
  by (simp add: dhas_any_def COMMAND_IDENTITIES_def claim_changes_def)

section \<open>Triples\<close>

text \<open>\<open>leads P m Q\<close>: from a state with \<open>P\<close>, \<open>m\<close> leaves a state with \<open>Q\<close>, whether it returns or raises.\<close>

definition leads :: "('s \<Rightarrow> bool) \<Rightarrow> ('s, 'e, 'a) sop \<Rightarrow> ('s \<Rightarrow> bool) \<Rightarrow> bool" where
  "leads P m Q \<longleftrightarrow> (\<forall>s. P s \<longrightarrow> Q (snd (m s)))"

named_theorems leads_intros \<open>composition rules for triples\<close>

lemma leadsD: "leads P m Q \<Longrightarrow> P s \<Longrightarrow> Q (snd (m s))"
  by (simp add: leads_def)

lemma leads_return [leads_intros]: "(\<And>s. P s \<Longrightarrow> Q s) \<Longrightarrow> leads P (st_return x) Q"
  by (simp add: leads_def sop_simps)

lemma leads_raise [leads_intros]: "(\<And>s. P s \<Longrightarrow> Q s) \<Longrightarrow> leads P (st_raise x) Q"
  by (simp add: leads_def sop_simps)

lemma leads_bind_lift [leads_intros]:
  "(\<And>s. P s \<Longrightarrow> Q s) \<Longrightarrow> (\<And>x. r = Inr x \<Longrightarrow> leads P (f x) Q) \<Longrightarrow> leads P (st_bind (st_lift r) f) Q"
  by (cases r) (simp_all add: leads_def sop_simps st_bind_def)

lemma leads_bind_get [leads_intros]:
  "(\<And>x. leads (\<lambda>s. P s \<and> g s = x) (f x) Q) \<Longrightarrow> leads P (st_bind (st_get g) f) Q"
  by (simp add: leads_def sop_simps st_bind_def)

lemma leads_bind:
  "leads P m R \<Longrightarrow> (\<And>s. R s \<Longrightarrow> Q s) \<Longrightarrow> (\<And>x. leads R (f x) Q) \<Longrightarrow> leads P (st_bind m f) Q"
  by (fastforce simp: leads_def st_bind_def split: prod.splits sum.splits)

lemma leads_if [leads_intros]:
  "(b \<Longrightarrow> leads P m Q) \<Longrightarrow> (\<not> b \<Longrightarrow> leads P n Q) \<Longrightarrow> leads P (if b then m else n) Q"
  by simp

lemma leads_option [leads_intros]:
  "(r = None \<Longrightarrow> leads P m Q) \<Longrightarrow> (\<And>x. r = Some x \<Longrightarrow> leads P (f x) Q) \<Longrightarrow>
   leads P (case r of None \<Rightarrow> m | Some x \<Rightarrow> f x) Q"
  by (cases r) simp_all

lemma leads_open [leads_intros]: "(\<And>s. P s \<Longrightarrow> Q s) \<Longrightarrow> leads P m Q \<Longrightarrow> leads P (tx_open T m) Q"
  by (fastforce simp: leads_def tx_open_def transaction_def split: prod.splits sum.splits)

lemma leads_weaken: "leads P m Q \<Longrightarrow> (\<And>s. P' s \<Longrightarrow> P s) \<Longrightarrow> leads P' m Q"
  by (auto simp: leads_def)

lemma tx_open_Inr: "tx_open T m s = (Inr x, t) \<longleftrightarrow> m s = (Inr x, t)"
  by (simp add: tx_open_def transaction_Inr)

end
