(* ===== verification/Live_Sessions.thy ===== *)
theory Live_Sessions
  imports Session_Contract
begin

text \<open>
  Scripts of session and command operations.  The locale \<open>live_store\<close> states what the primitives of a
  transaction promise; sessions and commands evolve by the rules of \<open>Session_Contract\<close> under every script,
  a command is delivered at most once and a dedupe key of a run creates at most one command.  Both
  transactions of the source are instances.
\<close>

section \<open>Scripts\<close>

datatype live_op =
    ROp repo_op
  | SCreate string pydict
  | STransition string int string pydict
  | CImport string pydict
  | CCreate rat string pydict "pydict option"
  | CClaim string string int string int string rat string "pydict option"
  | CTransition string int string string pydict "pydict option"

datatype live_out = ORepo repo_out | OSession pydict | OCommand pydict | OCreated pydict bool

definition live_exec ::
    "'s tx \<Rightarrow> (repo_op \<Rightarrow> ('s, exn, repo_out) sop) \<Rightarrow> (string \<Rightarrow> pydict \<Rightarrow> ('s, exn, pydict) sop) \<Rightarrow>
     (pyval \<Rightarrow> time_reading) \<Rightarrow> live_op \<Rightarrow> ('s, exn, live_out) sop" where
  "live_exec T run_exec import_command read_time op s = (case op of
       ROp rop \<Rightarrow> out_map ORepo (run_exec rop s)
     | SCreate now rec \<Rightarrow> out_map OSession (session_create T now rec s)
     | STransition sid n st ch \<Rightarrow> out_map OSession (session_transition T sid n st ch s)
     | CImport hex rec \<Rightarrow> out_map OCommand (import_command hex rec s)
     | CCreate now hex rec ev \<Rightarrow> out_map (\<lambda>(c, new). OCreated c new) (create_or_get T read_time now hex rec ev s)
     | CClaim token cid n sid cn w now stamp ev \<Rightarrow>
         out_map OCommand (command_claim T read_time token cid n sid cn w now stamp ev s)
     | CTransition cid n st st' ch ev \<Rightarrow> out_map OCommand (command_transition T cid n st st' ch ev s))"

text \<open>The changes of a session are a dictionary, whose keys are distinct.\<close>

fun dict_changes :: "live_op \<Rightarrow> bool" where
  "dict_changes (STransition _ _ _ ch) \<longleftrightarrow> distinct (map fst ch)"
| "dict_changes _ \<longleftrightarrow> True"

fun delivers :: "string \<Rightarrow> live_op \<Rightarrow> exn + live_out \<Rightarrow> bool" where
  "delivers cid (CClaim _ c _ _ _ _ _ _ _) (Inr _) \<longleftrightarrow> c = cid"
| "delivers _ _ _ \<longleftrightarrow> False"

fun deliveries :: "string \<Rightarrow> live_op list \<Rightarrow> (exn + live_out) list \<Rightarrow> nat" where
  "deliveries cid (op # ops) (r # rs) = of_bool (delivers cid op r) + deliveries cid ops rs"
| "deliveries _ _ _ = 0"

fun creates :: "string \<Rightarrow> string \<Rightarrow> live_op \<Rightarrow> exn + live_out \<Rightarrow> bool" where
  "creates run key (CCreate _ _ rec _) (Inr (OCreated _ new)) \<longleftrightarrow>
     new \<and> dget rec ''run_id'' = PStr run \<and> dget rec ''dedupe_key'' = PStr key"
| "creates _ _ _ _ \<longleftrightarrow> False"

fun creations :: "string \<Rightarrow> string \<Rightarrow> live_op list \<Rightarrow> (exn + live_out) list \<Rightarrow> nat" where
  "creations run key (op # ops) (r # rs) = of_bool (creates run key op r) + creations run key ops rs"
| "creations _ _ _ _ = 0"

section \<open>The interface\<close>

definition stored_session :: "'s tx \<Rightarrow> 's \<Rightarrow> string \<Rightarrow> fields option" where
  "stored_session T s i = map_option content (tx_session T i s)"

definition command_view :: "'s tx \<Rightarrow> 's \<Rightarrow> string \<Rightarrow> fields option" where
  "command_view T s i = map_option content (tx_command T i s)"

definition same_views :: "'s tx \<Rightarrow> 's \<Rightarrow> 's \<Rightarrow> bool" where
  "same_views T s t \<longleftrightarrow> stored_session T t = stored_session T s \<and> command_view T t = command_view T s"

definition evolves :: "'s tx \<Rightarrow> 's \<Rightarrow> 's \<Rightarrow> bool" where
  "evolves T s t \<longleftrightarrow>
     (\<forall>i a. stored_session T s i = Some a \<longrightarrow> (\<exists>b. stored_session T t i = Some b \<and> session_evolves a b)) \<and>
     (\<forall>i a. command_view T s i = Some a \<longrightarrow> (\<exists>b. command_view T t i = Some b \<and> command_evolves a b))"

definition has_key :: "'s tx \<Rightarrow> 's \<Rightarrow> string \<Rightarrow> string \<Rightarrow> bool" where
  "has_key T s run key \<longleftrightarrow> (\<exists>i c. command_view T s i = Some c \<and> c ''run_id'' = Some (PStr run) \<and> c ''dedupe_key'' = Some (PStr key))"

lemma evolves_refl [simp]: "evolves T s s"
  by (auto simp: evolves_def)

lemma evolves_trans: "evolves T s t \<Longrightarrow> evolves T t u \<Longrightarrow> evolves T s u"
  unfolding evolves_def by (meson session_evolves_trans command_evolves_trans)

lemma same_views_evolves: "same_views T s t \<Longrightarrow> evolves T s t"
  by (auto simp: same_views_def evolves_def)

lemma put_session_evolves:
  assumes "stored_session T t = (stored_session T s)(i \<mapsto> b)" "command_view T t = command_view T s"
    "\<And>a. stored_session T s i = Some a \<Longrightarrow> session_evolves a b"
  shows "evolves T s t"
  using assms by (auto simp: evolves_def)

lemma put_command_evolves:
  assumes "command_view T t = (command_view T s)(i \<mapsto> b)" "stored_session T t = stored_session T s"
    "\<And>a. command_view T s i = Some a \<Longrightarrow> command_evolves a b"
  shows "evolves T s t"
  using assms by (auto simp: evolves_def)

lemma has_key_evolves:
  assumes "has_key T s run key" "evolves T s t"
  shows "has_key T t run key"
proof -
  obtain i c where c: "command_view T s i = Some c" "c ''run_id'' = Some (PStr run)" "c ''dedupe_key'' = Some (PStr key)"
    using assms(1) by (auto simp: has_key_def)
  then obtain d where d: "command_view T t i = Some d" "command_evolves c d" using assms(2) unfolding evolves_def by blast
  then have "d ''run_id'' = c ''run_id''" "d ''dedupe_key'' = c ''dedupe_key''"
    by (simp_all add: command_evolves_def COMMAND_IDENTITIES_def)
  then show ?thesis using c d(1) by (auto simp: has_key_def)
qed

definition good :: "'s tx \<Rightarrow> ('s \<Rightarrow> bool) \<Rightarrow> 's \<Rightarrow> 's \<Rightarrow> bool" where
  "good T I s0 s \<longleftrightarrow> I s \<and> evolves T s0 s"

locale live_store =
  fixes T :: "'s tx" and run_exec :: "repo_op \<Rightarrow> ('s, exn, repo_out) sop" and import_command :: "string \<Rightarrow> pydict \<Rightarrow> ('s, exn, pydict) sop" and inv :: "'s \<Rightarrow> bool"
  assumes new_session: "inv s \<Longrightarrow> stored_session T s i = None \<Longrightarrow> dget d ''session_id'' = PStr i \<Longrightarrow>
      tx_new_session T d s = (r, t) \<Longrightarrow> t = s \<and> isl r \<or>
      inv t \<and> stored_session T t = (stored_session T s)(i \<mapsto> content d) \<and> command_view T t = command_view T s"
    and put_session: "inv s \<Longrightarrow> stored_session T s i \<noteq> None \<Longrightarrow> dget d ''session_id'' = PStr i \<Longrightarrow>
      tx_put_session T d s = (r, t) \<Longrightarrow> t = s \<and> isl r \<or>
      inv t \<and> stored_session T t = (stored_session T s)(i \<mapsto> content d) \<and> command_view T t = command_view T s"
    and new_command: "inv s \<Longrightarrow> command_view T s i = None \<Longrightarrow> dget d ''id'' = PStr i \<Longrightarrow> dget d ''run_id'' = PStr run \<Longrightarrow>
      tx_new_command T d s = (r, t) \<Longrightarrow> t = s \<and> isl r \<or>
      inv t \<and> command_view T t = (command_view T s)(i \<mapsto> content d) \<and> stored_session T t = stored_session T s"
    and put_command: "inv s \<Longrightarrow> command_view T s i = Some c \<Longrightarrow> content d ''id'' = c ''id'' \<Longrightarrow> content d ''run_id'' = c ''run_id'' \<Longrightarrow>
      tx_put_command T d s = (r, t) \<Longrightarrow> t = s \<and> isl r \<or>
      inv t \<and> command_view T t = (command_view T s)(i \<mapsto> content d) \<and> stored_session T t = stored_session T s"
    and append: "inv s \<Longrightarrow> tx_append T e s = (r, t) \<Longrightarrow> inv t \<and> same_views T s t"
    and run_ok: "inv s \<Longrightarrow> run_exec op s = (r0, t) \<Longrightarrow> inv t \<and> same_views T s t"
    and import_ok: "inv s \<Longrightarrow> import_command hex d s = (r', t) \<Longrightarrow> inv t \<and> evolves T s t"
    and session_id: "inv s \<Longrightarrow> stored_session T s i = Some c \<Longrightarrow> c ''session_id'' = Some (PStr i)"
    and listed: "inv s \<Longrightarrow> command_view T s i = Some c \<Longrightarrow> c ''run_id'' = Some (PStr run) \<Longrightarrow>
      \<exists>ds. tx_commands T run s = Inr ds \<and> (\<exists>d \<in> set ds. content d = c)"
begin

lemma leads_audit: "leads (good T inv s0) (tx_audit T ev run) (good T inv s0)"
  unfolding tx_audit_def
proof (intro leads_intros)
  fix e
  show "leads (good T inv s0) (tx_append T e) (good T inv s0)"
    unfolding leads_def good_def using append same_views_evolves evolves_trans by (metis prod.collapse)
qed simp_all

lemma leads_create: "leads (good T inv s0) (session_create T now rec) (good T inv s0)"
  unfolding session_create_def
proof (intro leads_intros)
  fix stored run sid v w
  assume "ditem_str stored ''session_id'' = Inr sid"
  then have id: "dget stored ''session_id'' = PStr sid" by (simp add: ditem_str_Inr dget_def)
  let ?P = "\<lambda>s. ((good T inv s0 s \<and> tx_run T run s = v) \<and> tx_session T sid s = w)"
  assume w: "\<not> w \<noteq> None"
  have "good T inv s0 (snd (tx_new_session T stored s))" if "?P s" for s
    using new_session [of s sid stored, OF _ _ id surjective_pairing] that w
      put_session_evolves [of T "snd (tx_new_session T stored s)" s sid "content stored"] evolves_trans [of T s0 s]
    by (auto simp: good_def stored_session_def)
  then show "leads ?P (st_bind (tx_new_session T stored) (\<lambda>_. st_return stored)) (good T inv s0)"
    by (intro leads_bind [where R = "good T inv s0"] leads_intros) (auto simp: leads_def)
qed auto

lemma session_put_good:
  assumes "good T inv s0 s" "stored_session T s i = Some a" "session_evolves a (content b)"
  shows "good T inv s0 (snd (tx_put_session T b s)) \<and> command_view T (snd (tx_put_session T b s)) = command_view T s"
proof -
  have "content b ''session_id'' = a ''session_id''"
    using assms(3) unfolding session_evolves_def SESSION_IDENTITIES_def by simp
  then have id: "dget b ''session_id'' = PStr i"
    using session_id [of s i a] assms(1,2) by (simp add: good_def content_dget_PStr)
  have "stored_session T s i \<noteq> None" using assms(2) by simp
  from put_session [OF _ this id surjective_pairing] assms put_session_evolves [of T "snd (tx_put_session T b s)" s i "content b"]
  show ?thesis using evolves_trans [of T s0 s] by (auto simp: good_def)
qed

lemma command_put_good:
  assumes "good T inv s0 s" "command_view T s i = Some c" "command_evolves c (content d)"
  shows "good T inv s0 (snd (tx_put_command T d s))"
proof -
  have "content d ''id'' = c ''id''" "content d ''run_id'' = c ''run_id''" using assms(3) by (simp_all add: command_evolves_def)
  from put_command [OF _ assms(2) this surjective_pairing] assms put_command_evolves [of T "snd (tx_put_command T d s)" s i "content d"]
  show ?thesis using evolves_trans [of T s0 s] by (auto simp: good_def)
qed

lemma leads_transition:
  assumes "distinct (map fst ch)"
  shows "leads (good T inv s0) (session_transition T sid n st ch) (good T inv s0)"
  unfolding session_transition_def
proof (intro leads_intros)
  fix x a m b
  assume ids: "\<not> dhas_any SESSION_IDENTITIES ch" and x: "x = Some a" and b: "next_session a n ch = Inr b"
  let ?P = "\<lambda>s. good T inv s0 s \<and> tx_session T sid s = x"
  have "leads ?P (tx_put_session T b) (good T inv s0)"
    using session_put_good [OF _ _ next_session_evolves [OF b assms ids], where i = sid] x
    by (auto simp: leads_def stored_session_def)
  then show "leads ?P (st_bind (tx_put_session T b) (\<lambda>_. st_return b)) (good T inv s0)"
    by (intro leads_bind [where R = "good T inv s0"] leads_intros)
qed auto

text \<open>Writing a command and its event.\<close>

lemma leads_put_command:
  assumes "command_evolves (content c) (content d)"
  shows "leads (\<lambda>s. good T inv s0 s \<and> command_view T s cid = Some (content c))
    (st_bind (tx_put_command T d) (\<lambda>_. st_bind (tx_audit T ev run) (\<lambda>_. st_return d))) (good T inv s0)"
proof (rule leads_bind [where R = "good T inv s0"])
  show "leads (\<lambda>s. good T inv s0 s \<and> command_view T s cid = Some (content c)) (tx_put_command T d) (good T inv s0)"
    using command_put_good [OF _ _ assms] by (auto simp: leads_def)
  show "leads (good T inv s0) (st_bind (tx_audit T ev run) (\<lambda>_. st_return d)) (good T inv s0)" for x :: unit
    by (intro leads_bind [where R = "good T inv s0"] leads_audit leads_intros)
qed

lemma leads_command_get:
  "(\<And>x. leads (\<lambda>s. P s \<and> tx_command T cid s = x) (f x) Q) \<Longrightarrow> leads P (st_bind (command_get T cid) f) Q"
  by (auto simp: leads_def command_get_def tx_open_def transaction_def st_bind_def sop_simps)

lemma leads_command_transition: "leads (good T inv s0) (command_transition T cid n st st' ch ev) (good T inv s0)"
  unfolding command_transition_def
proof (intro leads_intros leads_command_get)
  fix x ref r y c d run p
  assume ids: "\<not> dhas_any COMMAND_IDENTITIES ch" and y: "y = Some c"
    and d: "advance_record c n st st' ch COMMAND_TRANSITIONS = Inr d"
  show "leads (\<lambda>s. (good T inv s0 s \<and> tx_command T cid s = x) \<and> tx_command T cid s = y)
    (st_bind (tx_put_command T d) (\<lambda>_. st_bind (tx_audit T p run) (\<lambda>_. st_return d))) (good T inv s0)"
    by (rule leads_weaken [OF leads_put_command [OF advance_command_evolves [OF d ids], where cid = cid]])
      (use y in \<open>auto simp: command_view_def\<close>)
qed auto

lemma leads_reserve:
  assumes "check_binding rt run session c now = Inr u" "a = (case session of None \<Rightarrow> [] | Some d \<Rightarrow> d)"
    "res_bind (ditem c ''type'') (\<lambda>ty. py_in_strs ty [''approve'', ''reject'']) = Inr deciding"
  shows "leads (\<lambda>s. good T inv s0 s \<and> tx_session T sid s = session \<and> command_view T s cid = Some (content c))
    (reserve T a c cid deciding) (\<lambda>s. good T inv s0 s \<and> command_view T s cid = Some (content c))"
  unfolding reserve_def
proof (intro leads_intros)
  fix b
  assume deciding and b: "reserve_approval a c cid = Inr b"
  obtain d where d: "session = Some d" "dget d ''state'' = PStr ''active''" using check_binding_Inr(1) [OF assms(1)] by blast
  have "dget c ''type'' \<in> {PStr ''approve'', PStr ''reject''}"
    using assms(3) \<open>deciding\<close> by (auto simp: res_bind_Inr ditem_def dget_def py_in_strs_def map_sum_Inr_iff hash_key_def split: option.splits pyval.splits)
  then have "session_evolves (content a) (content b)"
    using reserve_approval_evolves [OF b] check_binding_Inr(2) [OF assms(1)] d assms(2) by simp
  from session_put_good [OF _ _ this, where i = sid]
  show "leads (\<lambda>s. good T inv s0 s \<and> tx_session T sid s = session \<and> command_view T s cid = Some (content c))
    (tx_put_session T b) (\<lambda>s. good T inv s0 s \<and> command_view T s cid = Some (content c))"
    using d(1) assms(2) by (auto simp: leads_def stored_session_def)
qed auto

lemma leads_claim: "leads (good T inv s0) (command_claim T rt token cid n sid cn w now stamp ev) (good T inv s0)"
  unfolding command_claim_def Let_def
proof (intro leads_intros leads_command_get)
  fix x ref r run session y c u m d run' p deciding
  assume y: "y = Some c" and u: "check_binding rt run session c now = Inr u"
    and d: "advance_record c n ''queued'' ''delivered'' (claim_changes stamp token w) COMMAND_TRANSITIONS = Inr d"
    and deciding: "res_bind (ditem c ''type'') (\<lambda>ty. py_in_strs ty [''approve'', ''reject'']) = Inr deciding"
  let ?s = "case session of None \<Rightarrow> [] | Some d \<Rightarrow> d"
  let ?R = "\<lambda>s. good T inv s0 s \<and> command_view T s cid = Some (content c)"
  have "leads (\<lambda>s. good T inv s0 s \<and> tx_session T sid s = session \<and> command_view T s cid = Some (content c))
    (st_bind (reserve T ?s c cid deciding) (\<lambda>_. st_bind (tx_put_command T d) (\<lambda>_. st_bind (tx_audit T p run') (\<lambda>_. st_return d))))
    (good T inv s0)"
    by (rule leads_bind [OF leads_reserve [OF u refl deciding]])
      (auto intro: leads_put_command advance_command_evolves [OF d claim_changes_allowed])
  then show "leads (\<lambda>s. (((good T inv s0 s \<and> tx_command T cid s = x) \<and> tx_run T r s = run) \<and> tx_session T sid s = session) \<and> tx_command T cid s = y)
    (st_bind (reserve T ?s c cid deciding) (\<lambda>_. st_bind (tx_put_command T d) (\<lambda>_. st_bind (tx_audit T p run') (\<lambda>_. st_return d))))
    (good T inv s0)"
    by (rule leads_weaken) (use y in \<open>auto simp: command_view_def\<close>)
qed auto

lemma leads_find_session: "leads P (find_session T v) P"
  unfolding find_session_def by (intro leads_intros) (auto simp: leads_def sop_simps)

lemma new_command_good:
  assumes "good T inv s0 s" "command_view T s cid = None" "dget d ''id'' = PStr cid" "dget d ''run_id'' = PStr run"
  shows "good T inv s0 (snd (tx_new_command T d s))"
  using new_command [of s cid d run, OF _ assms(2-4) surjective_pairing] assms(1,2)
    put_command_evolves [of T "snd (tx_new_command T d s)" s cid "content d"] evolves_trans [of T s0 s]
  by (auto simp: good_def)

lemma leads_create_or_get: "leads (good T inv s0) (create_or_get T rt now hex rec ev) (good T inv s0)"
  unfolding create_or_get_def
proof (intro leads_intros)
  fix d run cid p r cs known
  assume "ditem_str d ''run_id'' = Inr run" "ditem_str d ''id'' = Inr cid"
  then have d: "dget d ''id'' = PStr cid" "dget d ''run_id'' = PStr run" by (simp_all add: ditem_str_Inr dget_def)
  let ?P = "\<lambda>s. (good T inv s0 s \<and> tx_run T run s = r) \<and> tx_commands T run s = cs"
  have new: "leads (\<lambda>s. ?P s \<and> tx_command T cid s = old)
     (st_bind (tx_new_command T d) (\<lambda>_. st_bind (tx_audit T p run) (\<lambda>_. st_return (d, True)))) (good T inv s0)" if "\<not> old \<noteq> None" for old
  proof (rule leads_bind [where R = "good T inv s0"])
    show "leads (\<lambda>s. ?P s \<and> tx_command T cid s = old) (tx_new_command T d) (good T inv s0)"
      using new_command_good [OF _ _ d] that by (auto simp: leads_def command_view_def)
    show "leads (good T inv s0) (st_bind (tx_audit T p run) (\<lambda>_. st_return (d, True))) (good T inv s0)" for x :: unit
      by (intro leads_bind [where R = "good T inv s0"] leads_audit leads_intros)
  qed
  show "leads ?P (st_bind (find_session T (dget d ''session_id'')) (\<lambda>session.
      st_bind (st_lift (check_binding rt r session d now)) (\<lambda>_.
      st_bind (st_get (tx_command T cid)) (\<lambda>old.
      if old \<noteq> None then st_raise (RunConflictError ''command already exists'')
      else st_bind (tx_new_command T d) (\<lambda>_. st_bind (tx_audit T p run) (\<lambda>_. st_return (d, True))))))) (good T inv s0)"
    by (intro leads_bind [OF leads_find_session] leads_intros new) auto
qed auto

section \<open>Scripts\<close>

lemma exec_good:
  assumes "good T inv s0 s" "dict_changes op"
  shows "good T inv s0 (snd (live_exec T run_exec import_command rt op s))"
proof (cases op)
  case (CImport hex rec)
  then show ?thesis using import_ok [of s hex rec, OF _ surjective_pairing] assms(1) evolves_trans [of T s0 s]
    by (auto simp: live_exec_def good_def)
next
  case (ROp rop)
  then show ?thesis using run_ok [of s rop, OF _ surjective_pairing] assms(1) evolves_trans [of T s0 s] same_views_evolves [of T s]
    by (auto simp: live_exec_def good_def)
qed (use assms leadsD [OF leads_create] leadsD [OF leads_transition] leadsD [OF leads_create_or_get] leadsD [OF leads_claim]
    leadsD [OF leads_command_transition] in \<open>simp_all add: live_exec_def\<close>)

lemma step_evolves: "inv s \<Longrightarrow> dict_changes op \<Longrightarrow> inv (snd (live_exec T run_exec import_command rt op s)) \<and> evolves T s (snd (live_exec T run_exec import_command rt op s))"
  using exec_good [of s s op rt] by (simp add: good_def)

lemma script_evolves:
  "inv s \<Longrightarrow> list_all dict_changes ops \<Longrightarrow>
   inv (snd (exec_all (live_exec T run_exec import_command rt) ops s)) \<and> evolves T s (snd (exec_all (live_exec T run_exec import_command rt) ops s))"
proof (induction ops arbitrary: s)
  case (Cons op ops)
  then show ?case using step_evolves [of s op rt] Cons.IH [of "snd (live_exec T run_exec import_command rt op s)"] evolves_trans
    by (fastforce simp: split_def)
qed simp

section \<open>Delivery and creation happen once\<close>

lemma audit_views: "inv s \<Longrightarrow> tx_audit T ev run s = (r, t) \<Longrightarrow> same_views T s t"
  using append [of s] by (auto simp: tx_audit_def st_bind_def sop_simps same_views_def split: sum.splits option.splits)

lemma put_audit_view:
  assumes "inv s" "command_view T s cid = Some (content c)" "command_evolves (content c) (content d)"
    "tx_put_command T d s = (Inr u, s1)" "tx_audit T ev run s1 = (r, t)"
  shows "command_view T t cid = Some (content d)"
proof -
  have "content d ''id'' = content c ''id''" "content d ''run_id'' = content c ''run_id''"
    using assms(3) by (simp_all add: command_evolves_def)
  from put_command [OF assms(1,2) this assms(4)] have s1: "inv s1" "command_view T s1 cid = Some (content d)" by auto
  then show ?thesis using audit_views [OF s1(1) assms(5)] by (simp add: same_views_def)
qed

lemma claim_Inr:
  assumes "inv s" "command_claim T rt token cid n sid cn w now stamp ev s = (Inr x, t)"
  shows "\<exists>a b. command_view T s cid = Some a \<and> command_rank a = 0 \<and> command_view T t cid = Some b \<and> command_rank b = 1"
proof -
  let ?ch = "claim_changes stamp token w"
  obtain run session c d p deciding run' s1 s2 u where c: "tx_session T sid s = session" "tx_command T cid s = Some c"
      "check_binding rt run session c now = Inr u"
      "advance_record c n ''queued'' ''delivered'' ?ch COMMAND_TRANSITIONS = Inr d"
      "res_bind (ditem c ''type'') (\<lambda>ty. py_in_strs ty [''approve'', ''reject'']) = Inr deciding"
      "reserve T (case session of None \<Rightarrow> [] | Some d \<Rightarrow> d) c cid deciding s = (Inr (), s1)"
      "tx_put_command T d s1 = (Inr (), s2)" "tx_audit T p run' s2 = (Inr (), t)"
    using assms(2) by (auto simp: command_claim_def command_get_def Let_def sop_Inr tx_open_Inr)
  note ev = advance_command_evolves [OF c(4) claim_changes_allowed]
  have "inv s1 \<and> command_view T s1 cid = Some (content c)"
    using leadsD [OF leads_reserve [OF c(3) refl c(5)], of s s sid cid] c(1,2,6) assms(1) by (simp add: good_def command_view_def)
  with put_audit_view [OF _ _ ev c(7,8)] have "command_view T t cid = Some (content d)" by blast
  moreover have "content c ''status'' = Some (PStr ''queued'')" "content d ''status'' = Some (PStr ''delivered'')"
    using advance_record_Inr(2,5) [OF c(4)] content_dget_PStr by (auto simp: content_od_set)
  ultimately show ?thesis using c(2) by (auto simp: command_rank_def command_view_def)
qed

text \<open>A command can still be delivered as long as it is missing or queued.\<close>

lemma delivered_once:
  assumes "inv s" "list_all dict_changes ops"
  shows "deliveries cid ops (fst (exec_all (live_exec T run_exec import_command rt) ops s))
    \<le> of_bool (case command_view T s cid of None \<Rightarrow> True | Some c \<Rightarrow> command_rank c = 0)"
  using assms
proof (induction ops arbitrary: s)
  case (Cons op ops)
  let ?open = "\<lambda>s. case command_view T s cid of None \<Rightarrow> True | Some c \<Rightarrow> command_rank c = 0"
  let ?r = "fst (live_exec T run_exec import_command rt op s)" and ?t = "snd (live_exec T run_exec import_command rt op s)"
  have t: "inv ?t" "evolves T s ?t" using step_evolves [of s op rt] Cons.prems by auto
  have "deliveries cid ops (fst (exec_all (live_exec T run_exec import_command rt) ops ?t)) \<le> of_bool (?open ?t)"
    using Cons.IH [OF t(1)] Cons.prems(2) by simp
  moreover have "?open s" if "?open ?t"
  proof (cases "command_view T s cid")
    case (Some a)
    then obtain b where "command_view T ?t cid = Some b" "command_evolves a b" using t(2) unfolding evolves_def by blast
    then show ?thesis using that Some by (auto simp: command_evolves_def)
  qed simp
  moreover have "?open s \<and> \<not> ?open ?t" if del: "delivers cid op ?r"
  proof -
    obtain token n sid cn w now stamp ev x where op: "op = CClaim token cid n sid cn w now stamp ev" "?r = Inr x"
      using del by (cases "(cid, op, ?r)" rule: delivers.cases) auto
    then obtain y where "command_claim T rt token cid n sid cn w now stamp ev s = (Inr y, ?t)"
      by (cases "command_claim T rt token cid n sid cn w now stamp ev s"; cases "fst (command_claim T rt token cid n sid cn w now stamp ev s)")
        (auto simp: live_exec_def out_map_def)
    from claim_Inr [OF Cons.prems(1) this] show ?thesis by auto
  qed
  ultimately show ?case by (cases "delivers cid op ?r") (auto simp: split_def of_bool_def split: if_splits)
qed simp

lemma new_record_field:
  "new_record rec pre st hex = Inr d \<Longrightarrow> k \<notin> {''id'', ''status'', ''revision''} \<Longrightarrow> dget d k = dget rec k"
  by (auto simp: new_record_def Let_def dsetdefault_def dget_od_set split: if_splits option.splits)

lemma find_session_Inr: "find_session T v s = (Inr x, t) \<Longrightarrow> t = s"
  by (auto simp: find_session_def sop_Inr)

lemma created_Inr:
  assumes "inv s" "create_or_get T rt now hex rec ev s = (Inr (x, True), t)"
    "dget rec ''run_id'' = PStr run" "dget rec ''dedupe_key'' = PStr key"
  shows "\<not> has_key T s run key \<and> has_key T t run key"
proof -
  have "\<exists>d run' cid p known s1 u v. new_record rec ''command'' ''queued'' hex = Inr d \<and>
      ditem_str d ''run_id'' = Inr run' \<and> ditem_str d ''id'' = Inr cid \<and> tx_commands T run' s = Inr known \<and>
      find (\<lambda>c. py_eq (dget c ''dedupe_key'') (dget d ''dedupe_key'')) known = None \<and>
      tx_command T cid s = None \<and> tx_new_command T d s = (Inr u, s1) \<and> tx_audit T p run' s1 = (Inr v, t)"
    using assms(2) unfolding create_or_get_def sop_Inr tx_open_Inr
    apply (elim exE conjE disjE FalseE)
    subgoal by (drule find_session_Inr, hypsubst, intro exI conjI, assumption+, erule notnotD, assumption+)
    subgoal by (simp only: prod.inject simp_thms)
    done
  then obtain d run' cid p known s1 u v where d: "new_record rec ''command'' ''queued'' hex = Inr d"
      "ditem_str d ''run_id'' = Inr run'" "ditem_str d ''id'' = Inr cid" "tx_commands T run' s = Inr known"
      "find (\<lambda>c. py_eq (dget c ''dedupe_key'') (dget d ''dedupe_key'')) known = None"
      "tx_command T cid s = None" "tx_new_command T d s = (Inr u, s1)" "tx_audit T p run' s1 = (Inr v, t)" by blast
  have f: "dget d ''run_id'' = PStr run" "dget d ''dedupe_key'' = PStr key" "dget d ''id'' = PStr cid" "run' = run"
    using new_record_field [OF d(1), of "''run_id''"] new_record_field [OF d(1), of "''dedupe_key''"] assms(3,4) d(2,3)
    by (simp_all add: ditem_str_Inr dget_def [of d "''id''"] dget_def [of d "''run_id''"])
  have "\<not> has_key T s run key"
  proof
    assume "has_key T s run key"
    then obtain i c where c: "command_view T s i = Some c" "c ''run_id'' = Some (PStr run)" "c ''dedupe_key'' = Some (PStr key)"
      by (auto simp: has_key_def)
    then obtain e where "e \<in> set known" "content e = c" using listed [OF assms(1) c(1,2)] d(4) f(4) by auto
    then have "e \<in> set known \<and> dget e ''dedupe_key'' = PStr key" using c(3) content_dget_PStr by blast
    then show False using d(5) f(2) by (auto simp: find_None_iff)
  qed
  moreover have "has_key T t run key"
  proof -
    have "command_view T s cid = None" using d(6) by (simp add: command_view_def)
    from new_command [OF assms(1) this f(3,1) d(7)] have s1: "inv s1" "command_view T s1 cid = Some (content d)" by auto
    have "command_view T t cid = Some (content d)" using s1 audit_views [OF s1(1) d(8)] by (simp add: same_views_def)
    moreover have "content d ''run_id'' = Some (PStr run)" "content d ''dedupe_key'' = Some (PStr key)"
      using f(1,2) content_dget_PStr by blast+
    ultimately show ?thesis unfolding has_key_def by blast
  qed
  ultimately show ?thesis ..
qed

lemma created_once:
  assumes "inv s" "list_all dict_changes ops"
  shows "creations run key ops (fst (exec_all (live_exec T run_exec import_command rt) ops s)) \<le> of_bool (\<not> has_key T s run key)"
  using assms
proof (induction ops arbitrary: s)
  case (Cons op ops)
  let ?r = "fst (live_exec T run_exec import_command rt op s)" and ?t = "snd (live_exec T run_exec import_command rt op s)"
  have t: "inv ?t" "evolves T s ?t" using step_evolves [of s op rt] Cons.prems by auto
  have "creations run key ops (fst (exec_all (live_exec T run_exec import_command rt) ops ?t)) \<le> of_bool (\<not> has_key T ?t run key)"
    using Cons.IH [OF t(1)] Cons.prems(2) by simp
  moreover have "has_key T ?t run key" if "has_key T s run key" by (rule has_key_evolves [OF that t(2)])
  moreover have "\<not> has_key T s run key \<and> has_key T ?t run key" if cr: "creates run key op ?r"
  proof -
    obtain now hex rec ev x where op: "op = CCreate now hex rec ev" "?r = Inr (OCreated x True)"
        "dget rec ''run_id'' = PStr run" "dget rec ''dedupe_key'' = PStr key"
      using cr by (cases "(run, key, op, ?r)" rule: creates.cases) auto
    then have "create_or_get T rt now hex rec ev s = (Inr (x, True), ?t)"
      by (cases "create_or_get T rt now hex rec ev s"; cases "fst (create_or_get T rt now hex rec ev s)")
        (auto simp: live_exec_def out_map_def)
    from created_Inr [OF Cons.prems(1) this op(3,4)] show ?thesis .
  qed
  ultimately show ?case by (cases "creates run key op ?r") (auto simp: split_def of_bool_def split: if_splits)
qed simp

end

section \<open>The in-memory instance\<close>

definition mem_live_inv :: "mem_live \<Rightarrow> bool" where
  "mem_live_inv w \<longleftrightarrow> (\<forall>(i, d) \<in> set (ml_sessions w). dget d ''session_id'' = PStr i) \<and>
     (\<forall>(i, d) \<in> set (ms_commands (ml_store w)). dget d ''id'' = PStr i \<and> (\<exists>run. dget d ''run_id'' = PStr run))"

definition mem_run_exec :: "(nat \<Rightarrow> utc) \<Rightarrow> repo_op \<Rightarrow> (mem_live, exn, repo_out) sop" where
  "mem_run_exec clock op = on_mem (mem_exec clock op)"

definition mem_import :: "string \<Rightarrow> pydict \<Rightarrow> (mem_live, exn, pydict) sop" where
  "mem_import hex rec = on_mem (mem_command_create rec hex)"

lemma mem_views [simp]:
  "stored_session (mem_tx clock) w i = map_option content (map_of (ml_sessions w) i)"
  "command_view (mem_tx clock) w i = map_option content (map_of (ms_commands (ml_store w)) i)"
  by (simp_all add: stored_session_def command_view_def mem_tx_def)

lemma mem_tx_ops [simp]:
  "tx_new_session (mem_tx clock) = mem_put_session True" "tx_put_session (mem_tx clock) = mem_put_session False"
  "tx_new_command (mem_tx clock) = mem_put_command True" "tx_put_command (mem_tx clock) = mem_put_command False"
  "tx_append (mem_tx clock) e = on_mem (st_bind (mem_append_event clock e) (\<lambda>_. st_return ()))"
  "tx_commands (mem_tx clock) run w = rows_of_run run (od_values (ms_commands (ml_store w)))"
  by (simp_all add: mem_tx_def)

lemma mem_session_inv:
  "mem_live_inv w \<Longrightarrow> dget d ''session_id'' = PStr i \<Longrightarrow> mem_live_inv (w\<lparr>ml_sessions := od_set i d (ml_sessions w)\<rparr>)"
  using set_od_set [of i d "ml_sessions w"] by (auto simp: mem_live_inv_def)

lemma mem_command_inv:
  "mem_live_inv w \<Longrightarrow> dget d ''id'' = PStr i \<Longrightarrow> dget d ''run_id'' = PStr run \<Longrightarrow>
   mem_live_inv (w\<lparr>ml_store := ml_store w\<lparr>ms_commands := od_set i d (ms_commands (ml_store w))\<rparr>\<rparr>)"
  using set_od_set [of i d "ms_commands (ml_store w)"] by (auto simp: mem_live_inv_def)

lemma dget_ditem_str: "dget d k = PStr x \<Longrightarrow> ditem_str d k = Inr x"
  by (auto simp: ditem_str_Inr dget_def split: option.splits)

lemma new_record_ids:
  assumes "new_record rec pre st hex = Inr d"
  shows "\<exists>i run. dget d ''id'' = PStr i \<and> dget d ''run_id'' = PStr run"
proof -
  have "nonempty_str (dget d ''id'')" "nonempty_str (dget d ''run_id'')"
    using assms by (auto simp: new_record_def Let_def dget_od_set split: if_splits)
  then show ?thesis by (auto elim!: nonempty_str.elims)
qed

lemma mem_put_session_run:
  "dget d ''session_id'' = PStr i \<Longrightarrow> mem_put_session create d w = (r, t) \<Longrightarrow>
   t = w \<and> isl r \<or> t = w\<lparr>ml_sessions := od_set i d (ml_sessions w)\<rparr>"
  by (auto simp: mem_put_session_def st_bind_def sop_simps dget_ditem_str split: if_splits)

lemma mem_put_command_run:
  "dget d ''id'' = PStr i \<Longrightarrow> mem_put_command create d w = (r, t) \<Longrightarrow>
   t = w \<and> isl r \<or> t = w\<lparr>ml_store := ml_store w\<lparr>ms_commands := od_set i d (ms_commands (ml_store w))\<rparr>\<rparr>"
  by (auto simp: mem_put_command_def on_mem_def st_bind_def sop_simps dget_ditem_str split: if_splits)

lemma mem_live_invD:
  assumes "mem_live_inv w"
  shows "map_of (ml_sessions w) i = Some d \<Longrightarrow> dget d ''session_id'' = PStr i"
    "map_of (ms_commands (ml_store w)) i = Some d \<Longrightarrow> dget d ''id'' = PStr i"
    "map_of (ms_commands (ml_store w)) i = Some d \<Longrightarrow> \<exists>run. dget d ''run_id'' = PStr run"
  using assms by (auto simp: mem_live_inv_def dest!: map_of_SomeD)

lemma mem_append_frame: "mem_append_event clock e s = (r, t) \<Longrightarrow> ms_commands t = ms_commands s"
  by (auto simp: mem_append_event_def st_bind_def sop_simps Let_def split: sum.splits)

lemma mem_run_frame: "keeps (\<lambda>s. ms_commands s = c) (mem_exec clock op)"
proof (rule keepsI)
  fix s :: mem_store assume "ms_commands s = c"
  then show "ms_commands (snd (mem_exec clock op s)) = c"
    using keepsD [OF mem_run_rest [of "mem_rest s" clock op], of s] by simp
qed

interpretation meml: live_store "mem_tx clock" "mem_run_exec clock'" mem_import mem_live_inv for clock clock'
proof
  fix s :: mem_live and i d r t
  assume s: "mem_live_inv s" and d: "dget d ''session_id'' = PStr i"
  have *: "t = s \<and> isl r \<or> mem_live_inv t \<and> stored_session (mem_tx clock) t = (stored_session (mem_tx clock) s)(i \<mapsto> content d) \<and>
      command_view (mem_tx clock) t = command_view (mem_tx clock) s"
    if "mem_put_session create d s = (r, t)" for create
    using mem_put_session_run [OF d that] mem_session_inv [OF s d] by (auto simp: fun_eq_iff)
  show "t = s \<and> isl r \<or> mem_live_inv t \<and> stored_session (mem_tx clock) t = (stored_session (mem_tx clock) s)(i \<mapsto> content d) \<and>
      command_view (mem_tx clock) t = command_view (mem_tx clock) s" if "tx_new_session (mem_tx clock) d s = (r, t)"
    using that * by simp
  show "t = s \<and> isl r \<or> mem_live_inv t \<and> stored_session (mem_tx clock) t = (stored_session (mem_tx clock) s)(i \<mapsto> content d) \<and>
      command_view (mem_tx clock) t = command_view (mem_tx clock) s" if "tx_put_session (mem_tx clock) d s = (r, t)"
    using that * by simp
next
  fix s :: mem_live and i d run r t
  assume s: "mem_live_inv s" and d: "dget d ''id'' = PStr i" "dget d ''run_id'' = PStr run"
    and t: "tx_new_command (mem_tx clock) d s = (r, t)"
  then show "t = s \<and> isl r \<or> mem_live_inv t \<and> command_view (mem_tx clock) t = (command_view (mem_tx clock) s)(i \<mapsto> content d) \<and>
      stored_session (mem_tx clock) t = stored_session (mem_tx clock) s"
    using mem_put_command_run [OF d(1), of True s r t] mem_command_inv [OF s d] by (auto simp: fun_eq_iff)
next
  fix s :: mem_live and i c d r t
  assume s: "mem_live_inv s" and c: "command_view (mem_tx clock) s i = Some c" "content d ''id'' = c ''id''" "content d ''run_id'' = c ''run_id''"
    and t: "tx_put_command (mem_tx clock) d s = (r, t)"
  obtain e run where e: "map_of (ms_commands (ml_store s)) i = Some e" "c = content e" "dget e ''id'' = PStr i" "dget e ''run_id'' = PStr run"
    using c(1) mem_live_invD [OF s] by fastforce
  then have d: "dget d ''id'' = PStr i" "dget d ''run_id'' = PStr run" using c(2,3) by (simp_all add: content_dget_PStr)
  show "t = s \<and> isl r \<or> mem_live_inv t \<and> command_view (mem_tx clock) t = (command_view (mem_tx clock) s)(i \<mapsto> content d) \<and>
      stored_session (mem_tx clock) t = stored_session (mem_tx clock) s"
    using mem_put_command_run [OF d(1), of False s r t] mem_command_inv [OF s d] t by (auto simp: fun_eq_iff)
next
  fix s :: mem_live and e r t
  assume s: "mem_live_inv s" and t: "tx_append (mem_tx clock) e s = (r, t)"
  then have "ml_sessions t = ml_sessions s \<and> ms_commands (ml_store t) = ms_commands (ml_store s)"
    using mem_append_frame by (fastforce simp: on_mem_def st_bind_def sop_simps split: prod.splits sum.splits)
  then show "mem_live_inv t \<and> same_views (mem_tx clock) s t" using s by (simp add: mem_live_inv_def same_views_def fun_eq_iff)
next
  fix s :: mem_live and op r t
  assume s: "mem_live_inv s" and t: "mem_run_exec clock' op s = (r, t)"
  have "ml_sessions t = ml_sessions s \<and> ms_commands (ml_store t) = ms_commands (ml_store s)"
    using keepsD [OF mem_run_frame [of "ms_commands (ml_store s)" clock' op], of "ml_store s"] t
    by (auto simp: mem_run_exec_def on_mem_def split: prod.splits)
  then show "mem_live_inv t \<and> same_views (mem_tx clock) s t" using s by (simp add: mem_live_inv_def same_views_def fun_eq_iff)
next
  fix s :: mem_live and hex d r t
  assume s: "mem_live_inv s" and t: "mem_import hex d s = (r, t)"
  show "mem_live_inv t \<and> evolves (mem_tx clock) s t"
  proof (cases "new_record d ''command'' ''queued'' hex")
    case (Inl e)
    then have "t = s" using t by (auto simp: mem_import_def mem_command_create_def on_mem_def st_bind_def sop_simps)
    then show ?thesis using s by simp
  next
    case (Inr c)
    obtain i run where c: "dget c ''id'' = PStr i" "dget c ''run_id'' = PStr run" using new_record_ids [OF Inr] by blast
    have "t = s \<or> map_of (ms_commands (ml_store s)) i = None \<and>
        t = s\<lparr>ml_store := ml_store s\<lparr>ms_commands := od_set i c (ms_commands (ml_store s))\<rparr>\<rparr>"
      using t Inr c(1) by (auto simp: mem_import_def mem_command_create_def on_mem_def st_bind_def sop_simps dget_ditem_str split: if_splits)
    then show ?thesis
      using s mem_command_inv [OF s c] put_command_evolves [of "mem_tx clock" t s i "content c"] by (auto simp: fun_eq_iff)
  qed
next
  fix s :: mem_live and i c
  assume "mem_live_inv s" "stored_session (mem_tx clock) s i = Some c"
  then show "c ''session_id'' = Some (PStr i)" using mem_live_invD(1) content_dget_PStr by fastforce
next
  fix s :: mem_live and i c run
  assume s: "mem_live_inv s" and c: "command_view (mem_tx clock) s i = Some c" "c ''run_id'' = Some (PStr run)"
  obtain e where e: "map_of (ms_commands (ml_store s)) i = Some e" "c = content e" using c(1) by auto
  have "\<not> list_ex (\<lambda>r. map_of r ''run_id'' = None) (od_values (ms_commands (ml_store s)))"
    using s by (fastforce simp: mem_live_inv_def list_ex_iff od_values_def dget_def)
  moreover have "dget e ''run_id'' = PStr run" using c(2) e(2) content_dget_PStr by blast
  moreover have "e \<in> set (od_values (ms_commands (ml_store s)))" using map_of_SomeD [OF e(1)] by (force simp: od_values_def)
  ultimately show "\<exists>ds. tx_commands (mem_tx clock) run s = Inr ds \<and> (\<exists>d \<in> set ds. content d = c)"
    using e(2) by (auto simp: rows_of_run_def)
qed

end
