(* ===== verification/Live_Sessions_Sql.thy ===== *)
theory Live_Sessions_Sql
  imports Live_Sessions
begin

text \<open>
  The SQLite transaction is an instance of \<open>live_store\<close>: rows are found by their key, the columns agree with
  the payload, and a statement writes the normal form of a record.
\<close>

definition sql_live_inv :: "sql_live \<Rightarrow> bool" where
  "sql_live_inv w \<longleftrightarrow> (\<forall>r \<in> set (sl_sessions w). dget (ss_payload r) ''session_id'' = PStr (ss_id r)) \<and>
     distinct (map cm_id (sq_commands (sl_store w))) \<and>
     (\<forall>r \<in> set (sq_commands (sl_store w)). dget (cm_payload r) ''id'' = PStr (cm_id r) \<and> dget (cm_payload r) ''run_id'' = PStr (cm_run r))"

definition sql_run_exec :: "(nat \<Rightarrow> utc) \<Rightarrow> repo_op \<Rightarrow> (sql_live, exn, repo_out) sop" where
  "sql_run_exec clock op = on_sql (sql_exec clock op)"

definition sql_import :: "string \<Rightarrow> pydict \<Rightarrow> (sql_live, exn, pydict) sop" where
  "sql_import hex rec = on_sql (sql_command_create rec hex)"

section \<open>Rows by key\<close>

lemma find_keyD: "find (\<lambda>r. key r = k) rows = Some r \<Longrightarrow> r \<in> set rows \<and> key r = k"
  by (auto simp: find_Some_iff)

lemma find_key_snoc:
  "find (\<lambda>r. key r = k) rows = None \<Longrightarrow> key x = k \<Longrightarrow>
   find (\<lambda>r. key r = j) (rows @ [x]) = (if j = k then Some x else find (\<lambda>r. key r = j) rows)"
  by (induction rows) (auto split: if_splits)

lemma find_key_update:
  "(\<And>r. key (f r) = key r) \<Longrightarrow>
   find (\<lambda>r. key r = j) (update_where (\<lambda>r. key r = k) f rows) =
   (if j = k then map_option f (find (\<lambda>r. key r = k) rows) else find (\<lambda>r. key r = j) rows)"
  by (induction rows) (auto simp: update_where_def)

lemma sql_views:
  "stored_session (sql_tx clock bound) w i = map_option (content \<circ> ss_payload) (find (\<lambda>r. ss_id r = i) (sl_sessions w))"
  "command_view (sql_tx clock bound) w i = map_option (content \<circ> cm_payload) (find (\<lambda>r. cm_id r = i) (sq_commands (sl_store w)))"
  by (simp_all add: stored_session_def command_view_def sql_tx_def select_session_def sql_command_get_def select_command_def option.map_comp)

lemma sql_tx_ops:
  "tx_new_session (sql_tx clock bound) = insert_session" "tx_put_session (sql_tx clock bound) = update_session"
  "tx_new_command (sql_tx clock bound) c = on_sql (sql_new_command c)" "tx_put_command (sql_tx clock bound) c = on_sql (sql_put_command c)"
  "tx_append (sql_tx clock bound) e = on_sql (st_bind (sql_append_event clock e) (\<lambda>_. st_return ()))"
  "tx_commands (sql_tx clock bound) run w = Inr (sql_command_list run (sl_store w))"
  by (simp_all add: sql_tx_def)

lemma insert_session_run:
  assumes "dget d ''session_id'' = PStr i" "insert_session d w = (r, t)"
  shows "t = w \<and> isl r \<or> find (\<lambda>r. ss_id r = i) (sl_sessions w) = None \<and>
    (\<exists>run st rev. t = w\<lparr>sl_sessions := sl_sessions w @ [\<lparr>ss_id = i, ss_run = run, ss_state = st, ss_revision = rev, ss_payload = jnorm_dict d\<rparr>]\<rparr>)"
  using assms by (auto simp: insert_session_def st_bind_def sop_simps dget_ditem_str select_session_def split: sum.splits if_splits)

lemma update_session_run:
  assumes "dget d ''session_id'' = PStr i" "update_session d w = (r, t)"
  shows "t = w \<and> isl r \<or> (\<exists>st rev. t = w\<lparr>sl_sessions := update_where (\<lambda>r. ss_id r = i)
     (\<lambda>r. r\<lparr>ss_state := st, ss_revision := rev, ss_payload := jnorm_dict d\<rparr>) (sl_sessions w)\<rparr>)"
  using assms by (auto simp: update_session_def st_bind_def sop_simps dget_ditem_str split: sum.splits)

lemma insert_command_run:
  assumes "insert_command row db = (r, t)"
  shows "t = db \<and> isl r \<or> find (\<lambda>r. cm_id r = cm_id row) (sq_commands db) = None \<and> t = db\<lparr>sq_commands := sq_commands db @ [row]\<rparr>"
  using assms by (auto simp: insert_command_def st_bind_def sop_simps list_ex_iff find_None_iff split: if_splits)

lemma new_command_run:
  assumes "dget d ''id'' = PStr i" "dget d ''run_id'' = PStr run" "sql_new_command d db = (r, t)"
  shows "t = db \<and> isl r \<or> find (\<lambda>r. cm_id r = i) (sq_commands db) = None \<and>
    (\<exists>st rev. t = db\<lparr>sq_commands := sq_commands db @ [\<lparr>cm_id = i, cm_run = run, cm_status = st, cm_revision = rev, cm_payload = jnorm_dict d\<rparr>]\<rparr>)"
  using assms insert_command_run by (fastforce simp: sql_new_command_def st_bind_def sop_simps dget_ditem_str split: sum.splits)

lemma put_command_run:
  assumes "dget d ''id'' = PStr i" "sql_put_command d db = (r, t)"
  shows "t = db \<and> isl r \<or> (\<exists>st rev. t = db\<lparr>sq_commands := update_where (\<lambda>r. cm_id r = i)
     (\<lambda>r. r\<lparr>cm_status := st, cm_revision := rev, cm_payload := jnorm_dict d\<rparr>) (sq_commands db)\<rparr>)"
  using assms by (auto simp: sql_put_command_def st_bind_def sop_simps dget_ditem_str split: sum.splits if_splits)

lemma import_command_run:
  assumes "new_record d ''command'' ''queued'' hex = Inr c" "dget c ''id'' = PStr i" "dget c ''run_id'' = PStr run"
    "sql_command_create d hex db = (r, t)"
  shows "t = db \<or> find (\<lambda>r. cm_id r = i) (sq_commands db) = None \<and>
    (\<exists>st rev. t = db\<lparr>sq_commands := sq_commands db @ [\<lparr>cm_id = i, cm_run = run, cm_status = st, cm_revision = rev, cm_payload = jnorm_dict c\<rparr>]\<rparr>)"
proof -
  let ?row = "\<lparr>cm_id = i, cm_run = run, cm_status = ''queued'', cm_revision = 1, cm_payload = jnorm_dict c\<rparr>"
  have "t = db \<or> t = snd (insert_command ?row db)"
    using assms by (auto simp: sql_command_create_def st_bind_def st_catch_def transaction_def sop_simps dget_ditem_str as_conflict_def
        split: sum.splits prod.splits exn.splits)
  then show ?thesis using insert_command_run [of ?row db, OF surjective_pairing] by auto
qed

lemma map_key_update: "(\<And>r. key (f r) = key r) \<Longrightarrow> map key (update_where p f rows) = map key rows"
  by (simp add: update_where_def)

lemma set_update_where: "r \<in> set (update_where p f rows) \<Longrightarrow> \<exists>x \<in> set rows. r = (if p x then f x else x)"
  by (auto simp: update_where_def)

section \<open>What the statements do to the views\<close>

lemma session_row_added:
  assumes "sql_live_inv w" "dget d ''session_id'' = PStr i" "find (\<lambda>r. ss_id r = i) (sl_sessions w) = None"
    "t = w\<lparr>sl_sessions := sl_sessions w @ [\<lparr>ss_id = i, ss_run = run, ss_state = st, ss_revision = n, ss_payload = jnorm_dict d\<rparr>]\<rparr>"
  shows "sql_live_inv t \<and> stored_session (sql_tx clock bound) t = (stored_session (sql_tx clock bound) w)(i \<mapsto> content d) \<and>
    command_view (sql_tx clock bound) t = command_view (sql_tx clock bound) w"
  using assms(1,2,4) find_key_snoc [of ss_id i, OF assms(3)] by (auto simp: sql_live_inv_def dget_jnorm_dict sql_views fun_eq_iff)

lemma session_row_changed:
  assumes "sql_live_inv w" "dget d ''session_id'' = PStr i" "find (\<lambda>r. ss_id r = i) (sl_sessions w) \<noteq> None"
    "t = w\<lparr>sl_sessions := update_where (\<lambda>r. ss_id r = i) (\<lambda>r. r\<lparr>ss_state := st, ss_revision := n, ss_payload := jnorm_dict d\<rparr>) (sl_sessions w)\<rparr>"
  shows "sql_live_inv t \<and> stored_session (sql_tx clock bound) t = (stored_session (sql_tx clock bound) w)(i \<mapsto> content d) \<and>
    command_view (sql_tx clock bound) t = command_view (sql_tx clock bound) w"
proof -
  have "sql_live_inv t" using assms(1,2,4) by (auto simp: sql_live_inv_def dget_jnorm_dict update_where_def)
  then show ?thesis using assms(3,4) by (auto simp: sql_views fun_eq_iff find_key_update)
qed

lemma command_row_added:
  assumes "sql_live_inv w" "dget d ''id'' = PStr i" "dget d ''run_id'' = PStr run"
    "find (\<lambda>r. cm_id r = i) (sq_commands (sl_store w)) = None" "sl_sessions t = sl_sessions w"
    "sq_commands (sl_store t) = sq_commands (sl_store w) @ [\<lparr>cm_id = i, cm_run = run, cm_status = st, cm_revision = n, cm_payload = jnorm_dict d\<rparr>]"
  shows "sql_live_inv t \<and> command_view (sql_tx clock bound) t = (command_view (sql_tx clock bound) w)(i \<mapsto> content d) \<and>
    stored_session (sql_tx clock bound) t = stored_session (sql_tx clock bound) w"
  using assms find_key_snoc [of cm_id i, OF assms(4)] by (auto simp: sql_live_inv_def find_None_iff dget_jnorm_dict sql_views fun_eq_iff)

lemma command_row_changed:
  assumes "sql_live_inv w" "dget d ''id'' = PStr i" "content d ''run_id'' = c ''run_id''" "command_view (sql_tx clock bound) w i = Some c"
    "sl_sessions t = sl_sessions w"
    "sq_commands (sl_store t) = update_where (\<lambda>r. cm_id r = i)
       (\<lambda>r. r\<lparr>cm_status := st, cm_revision := n, cm_payload := jnorm_dict d\<rparr>) (sq_commands (sl_store w))"
  shows "sql_live_inv t \<and> command_view (sql_tx clock bound) t = (command_view (sql_tx clock bound) w)(i \<mapsto> content d) \<and>
    stored_session (sql_tx clock bound) t = stored_session (sql_tx clock bound) w"
proof -
  obtain row where row: "find (\<lambda>r. cm_id r = i) (sq_commands (sl_store w)) = Some row" "c = content (cm_payload row)"
    using assms(4) by (auto simp: sql_views)
  then have mem: "row \<in> set (sq_commands (sl_store w))" "cm_id row = i" by (auto dest: find_keyD)
  have same: "r = row" if "r \<in> set (sq_commands (sl_store w))" "cm_id r = i" for r
    using that mem assms(1) by (auto simp: sql_live_inv_def distinct_map dest: inj_onD)
  have "dget d ''run_id'' = PStr (cm_run row)"
    using assms(1,3) row(2) mem by (simp add: sql_live_inv_def content_dget_PStr)
  then have "dget (cm_payload r) ''id'' = PStr (cm_id r) \<and> dget (cm_payload r) ''run_id'' = PStr (cm_run r)"
    if "r \<in> set (sq_commands (sl_store t))" for r
    using set_update_where [OF that [unfolded assms(6)]] same assms(1,2)
    by (auto simp: sql_live_inv_def dget_jnorm_dict split: if_splits)
  then have "sql_live_inv t" using assms(1,5,6) by (simp add: sql_live_inv_def map_key_update)
  then show ?thesis using assms(5,6) row(1) by (auto simp: sql_views fun_eq_iff find_key_update)
qed

lemma on_sql_cases:
  assumes "on_sql m w = (r, t)"
  obtains s where "m (sl_store w) = (r, s)" "t = w\<lparr>sl_store := s\<rparr>"
  using assms that by (auto simp: on_sql_def split: prod.splits)

lemma sql_append_frame: "sql_append_event clock e s = (r, t) \<Longrightarrow> sq_commands t = sq_commands s"
  by (auto simp: sql_append_event_def st_bind_def sop_simps Let_def split: sum.splits)

lemma sql_store_same: "w\<lparr>sl_store := sl_store w\<rparr> = w"
  by (cases w) simp

lemma sql_run_frame: "keeps (\<lambda>s. sq_commands s = c) (sql_exec clock op)"
proof (rule keepsI)
  fix s :: sql_store assume "sq_commands s = c"
  then show "sq_commands (snd (sql_exec clock op s)) = c"
    using keepsD [OF sql_run_rest [of "sql_rest s" clock op], of s] by simp
qed

interpretation sqll: live_store "sql_tx clock bound" "sql_run_exec clock'" sql_import sql_live_inv for clock bound clock'
proof
  fix s :: sql_live and i d r t
  assume s: "sql_live_inv s" "dget d ''session_id'' = PStr i"
  show "t = s \<and> isl r \<or> sql_live_inv t \<and> stored_session (sql_tx clock bound) t = (stored_session (sql_tx clock bound) s)(i \<mapsto> content d) \<and>
      command_view (sql_tx clock bound) t = command_view (sql_tx clock bound) s" if "tx_new_session (sql_tx clock bound) d s = (r, t)"
    using insert_session_run [OF s(2), of s r t] that session_row_added [OF s] by (auto simp: sql_tx_ops)
  show "t = s \<and> isl r \<or> sql_live_inv t \<and> stored_session (sql_tx clock bound) t = (stored_session (sql_tx clock bound) s)(i \<mapsto> content d) \<and>
      command_view (sql_tx clock bound) t = command_view (sql_tx clock bound) s"
    if "stored_session (sql_tx clock bound) s i \<noteq> None" "tx_put_session (sql_tx clock bound) d s = (r, t)"
    using update_session_run [OF s(2), of s r t] that session_row_changed [OF s] by (auto simp: sql_tx_ops sql_views)
next
  fix s :: sql_live and i d run r t
  assume s: "sql_live_inv s" "dget d ''id'' = PStr i" "dget d ''run_id'' = PStr run"
    and t: "tx_new_command (sql_tx clock bound) d s = (r, t)"
  obtain u where u: "sql_new_command d (sl_store s) = (r, u)" "t = s\<lparr>sl_store := u\<rparr>" using t by (auto simp: sql_tx_ops elim: on_sql_cases)
  from new_command_run [OF s(2,3) u(1)]
  show "t = s \<and> isl r \<or> sql_live_inv t \<and> command_view (sql_tx clock bound) t = (command_view (sql_tx clock bound) s)(i \<mapsto> content d) \<and>
      stored_session (sql_tx clock bound) t = stored_session (sql_tx clock bound) s"
  proof (elim disjE conjE exE)
    fix st n
    assume "find (\<lambda>r. cm_id r = i) (sq_commands (sl_store s)) = None"
      "u = (sl_store s)\<lparr>sq_commands := sq_commands (sl_store s) @ [\<lparr>cm_id = i, cm_run = run, cm_status = st, cm_revision = n, cm_payload = jnorm_dict d\<rparr>]\<rparr>"
    then show ?thesis using command_row_added [OF s, where t = t and st = st and n = n] u(2) by simp
  qed (simp add: u(2) sql_store_same)
next
  fix s :: sql_live and i c d r t
  assume s: "sql_live_inv s" and c: "command_view (sql_tx clock bound) s i = Some c" "content d ''id'' = c ''id''" "content d ''run_id'' = c ''run_id''"
    and t: "tx_put_command (sql_tx clock bound) d s = (r, t)"
  have "c ''id'' = Some (PStr i)" using c(1) s by (auto simp: sql_views sql_live_inv_def content_dget_PStr dest!: find_keyD)
  then have d: "dget d ''id'' = PStr i" using c(2) content_dget_PStr by metis
  obtain u where u: "sql_put_command d (sl_store s) = (r, u)" "t = s\<lparr>sl_store := u\<rparr>" using t by (auto simp: sql_tx_ops elim: on_sql_cases)
  from put_command_run [OF d u(1)]
  show "t = s \<and> isl r \<or> sql_live_inv t \<and> command_view (sql_tx clock bound) t = (command_view (sql_tx clock bound) s)(i \<mapsto> content d) \<and>
      stored_session (sql_tx clock bound) t = stored_session (sql_tx clock bound) s"
  proof (elim disjE conjE exE)
    fix st n
    assume "u = (sl_store s)\<lparr>sq_commands := update_where (\<lambda>r. cm_id r = i)
      (\<lambda>r. r\<lparr>cm_status := st, cm_revision := n, cm_payload := jnorm_dict d\<rparr>) (sq_commands (sl_store s))\<rparr>"
    then show ?thesis using command_row_changed [OF s d c(3,1), where t = t and st = st and n = n] u(2) by simp
  qed (simp add: u(2) sql_store_same)
next
  fix s :: sql_live and e r t
  assume s: "sql_live_inv s" and t: "tx_append (sql_tx clock bound) e s = (r, t)"
  then have "sl_sessions t = sl_sessions s \<and> sq_commands (sl_store t) = sq_commands (sl_store s)"
    using sql_append_frame by (fastforce simp: sql_tx_ops on_sql_def st_bind_def sop_simps split: prod.splits sum.splits)
  then show "sql_live_inv t \<and> same_views (sql_tx clock bound) s t" using s by (simp add: sql_live_inv_def same_views_def sql_views fun_eq_iff)
next
  fix s :: sql_live and op r t
  assume s: "sql_live_inv s" and t: "sql_run_exec clock' op s = (r, t)"
  have "sl_sessions t = sl_sessions s \<and> sq_commands (sl_store t) = sq_commands (sl_store s)"
    using keepsD [OF sql_run_frame [of "sq_commands (sl_store s)" clock' op], of "sl_store s"] t
    by (auto simp: sql_run_exec_def on_sql_def split: prod.splits)
  then show "sql_live_inv t \<and> same_views (sql_tx clock bound) s t" using s by (simp add: sql_live_inv_def same_views_def sql_views fun_eq_iff)
next
  fix s :: sql_live and hex d r t
  assume s: "sql_live_inv s" and t: "sql_import hex d s = (r, t)"
  obtain u where u: "sql_command_create d hex (sl_store s) = (r, u)" "t = s\<lparr>sl_store := u\<rparr>" using t by (auto simp: sql_import_def elim: on_sql_cases)
  show "sql_live_inv t \<and> evolves (sql_tx clock bound) s t"
  proof (cases "new_record d ''command'' ''queued'' hex")
    case (Inl e)
    then have "t = s" using u by (auto simp: sql_command_create_def st_bind_def sop_simps sql_store_same)
    then show ?thesis using s by simp
  next
    case (Inr c)
    obtain i run where c: "dget c ''id'' = PStr i" "dget c ''run_id'' = PStr run" using new_record_ids [OF Inr] by blast
    from import_command_run [OF Inr c u(1)] show ?thesis
    proof (elim disjE conjE exE)
      fix st n
      assume none: "find (\<lambda>r. cm_id r = i) (sq_commands (sl_store s)) = None"
        and "u = (sl_store s)\<lparr>sq_commands := sq_commands (sl_store s) @ [\<lparr>cm_id = i, cm_run = run, cm_status = st, cm_revision = n, cm_payload = jnorm_dict c\<rparr>]\<rparr>"
      then have "sql_live_inv t \<and> command_view (sql_tx clock bound) t = (command_view (sql_tx clock bound) s)(i \<mapsto> content c) \<and>
          stored_session (sql_tx clock bound) t = stored_session (sql_tx clock bound) s"
        using command_row_added [OF s c none, where t = t and st = st and n = n] u(2) by simp
      then show ?thesis using put_command_evolves [of "sql_tx clock bound" t s i "content c"] none by (auto simp: sql_views)
    qed (use s in \<open>simp add: u(2) sql_store_same\<close>)
  qed
next
  fix s :: sql_live and i c
  assume "sql_live_inv s" "stored_session (sql_tx clock bound) s i = Some c"
  then show "c ''session_id'' = Some (PStr i)" by (auto simp: sql_views sql_live_inv_def content_dget_PStr dest!: find_keyD)
next
  fix s :: sql_live and i c run
  assume s: "sql_live_inv s" and c: "command_view (sql_tx clock bound) s i = Some c" "c ''run_id'' = Some (PStr run)"
  obtain row where row: "row \<in> set (sq_commands (sl_store s))" "c = content (cm_payload row)"
    using c(1) by (auto simp: sql_views dest!: find_keyD)
  then have "cm_run row = run" using s c(2) by (auto simp: sql_live_inv_def content_dget_PStr)
  then show "\<exists>ds. tx_commands (sql_tx clock bound) run s = Inr ds \<and> (\<exists>d \<in> set ds. content d = c)"
    using row by (auto simp: sql_tx_ops sql_command_list_def)
qed

section \<open>Empty stores\<close>

definition mem_live_empty :: mem_live where
  "mem_live_empty = \<lparr>ml_store = mem_empty, ml_sessions = []\<rparr>"

definition sql_live_empty :: sql_live where
  "sql_live_empty = \<lparr>sl_store = sql_empty, sl_sessions = []\<rparr>"

lemma live_inv_empty: "mem_live_inv mem_live_empty" "sql_live_inv sql_live_empty"
  by (simp_all add: mem_live_inv_def mem_live_empty_def mem_empty_def sql_live_inv_def sql_live_empty_def sql_empty_def)

section \<open>A sample script\<close>

text \<open>A run, an active session, a command that is created twice and claimed twice.\<close>

definition sample_time :: "pyval \<Rightarrow> time_reading" where
  "sample_time v = (if v = PStr ''later'' then AwareTime 10 else NoTime)"

definition sample_session :: pydict where
  "sample_session = [(''session_id'', PStr ''s''), (''run_id'', PStr ''r''), (''case_id'', PStr ''k''), (''attempt_id'', PStr ''a''),
     (''operation_id'', PStr ''o''), (''start_token'', PStr ''t''), (''worker_token'', PStr ''w''), (''state'', PStr ''active'')]"

definition sample_command :: pydict where
  "sample_command = [(''id'', PStr ''c''), (''run_id'', PStr ''r''), (''case_id'', PStr ''k''), (''session_id'', PStr ''s''),
     (''type'', PStr ''message''), (''dedupe_key'', PStr ''d''), (''intent_hash'', PStr ''h''),
     (''expected_session_revision'', PInt 1), (''expires_at'', PStr ''later'')]"

definition sample_script :: "live_op list" where
  "sample_script = [ROp (OpCreate [(''id'', PStr ''r''), (''status'', PStr ''running'')] None), SCreate ''t0'' sample_session,
     CCreate 1 ''x'' sample_command None, CCreate 2 ''x'' sample_command None,
     CClaim ''e'' ''c'' 1 ''s'' 1 ''w'' 3 ''t3'' None, CClaim ''e'' ''c'' 1 ''s'' 1 ''w'' 4 ''t4'' None,
     STransition ''s'' 1 ''active'' [(''state'', PStr ''terminal'')]]"

abbreviation mem_live_run :: "(nat \<Rightarrow> utc) \<Rightarrow> (pyval \<Rightarrow> time_reading) \<Rightarrow> live_op list \<Rightarrow> mem_live \<Rightarrow> (exn + live_out) list \<times> mem_live" where
  "mem_live_run clock rt \<equiv> exec_all (live_exec (mem_tx clock) (mem_run_exec clock) mem_import rt)"

abbreviation sql_live_run :: "(nat \<Rightarrow> utc) \<Rightarrow> (pyval \<Rightarrow> exn + string option) \<Rightarrow> (pyval \<Rightarrow> time_reading) \<Rightarrow> live_op list \<Rightarrow> sql_live \<Rightarrow> (exn + live_out) list \<times> sql_live" where
  "sql_live_run clock bound rt \<equiv> exec_all (live_exec (sql_tx clock bound) (sql_run_exec clock) sql_import rt)"

end
