(* ===== verification/Gate_Policy.thy ===== *)
theory Gate_Policy
  imports Conditions Py_Float
begin

text \<open>
  The contracts of regression gates: metric definitions and their registry
  (\<^verbatim>\<open>packages/contracts/motte_contracts/metrics.py\<close>), gate rules, policies, decisions and exit codes
  (\<^verbatim>\<open>packages/contracts/motte_contracts/gates.py\<close>).  A validator returns the message of the \<^verbatim>\<open>ValueError\<close>
  it raises; coercion of fields by pydantic is not part of the model, whose
  records are typed; limits are finite, as \<^verbatim>\<open>allow_inf_nan=False\<close> demands.  \<open>gr_explicit\<close> is \<^verbatim>\<open>model_fields_set\<close>.
\<close>

section \<open>Metrics\<close>

record metric_definition =
  md_id :: string
  md_version :: string
  md_unit :: string
  md_direction :: string
  md_aggregation :: string
  md_denominator :: string
  md_eligibility :: string
  md_evidence :: "string list"
  md_missing :: string

definition METRIC_DENOMINATORS :: "string list" where
  "METRIC_DENOMINATORS = [''selected_cases'', ''judged_cases'', ''valid_trials'', ''planned_trials'', ''planned_pairs'', ''tasks'', ''run'']"

definition METRIC_AGGREGATIONS :: "string list" where
  "METRIC_AGGREGATIONS = [''mean'', ''median'', ''ratio'', ''sum'', ''pass_at_k'', ''paired_difference'']"

definition METRIC_MISSING_POLICIES :: "string list" where
  "METRIC_MISSING_POLICIES = [''fail_closed'', ''excluded_by_design'']"

definition metric_ok :: "metric_definition \<Rightarrow> bool" where
  "metric_ok d \<longleftrightarrow> md_id d \<noteq> [] \<and> md_version d \<noteq> [] \<and> md_unit d \<noteq> [] \<and> md_eligibility d \<noteq> [] \<and>
     md_direction d \<in> {''gte'', ''lte''} \<and> md_denominator d \<in> set METRIC_DENOMINATORS \<and>
     md_aggregation d \<in> set METRIC_AGGREGATIONS \<and> md_missing d \<in> set METRIC_MISSING_POLICIES"

definition metric :: "string \<Rightarrow> string \<Rightarrow> string \<Rightarrow> string \<Rightarrow> string \<Rightarrow> string \<Rightarrow> string list \<Rightarrow> string \<Rightarrow> metric_definition" where
  "metric metric_id unit direction aggregation denominator eligibility required_evidence missing_policy =
     \<lparr>md_id = metric_id, md_version = ''1'', md_unit = unit, md_direction = direction, md_aggregation = aggregation,
      md_denominator = denominator, md_eligibility = eligibility, md_evidence = required_evidence, md_missing = missing_policy\<rparr>"

definition METRIC_DEFINITIONS :: "metric_definition list" where
  "METRIC_DEFINITIONS =
     [metric ''accuracy'' ''ratio'' ''gte'' ''ratio'' ''selected_cases'' ''all selected cases judged'' [] ''fail_closed'',
      metric ''judged_accuracy'' ''ratio'' ''gte'' ''ratio'' ''judged_cases''
        ''cases with expectation and deterministic judgement'' [] ''excluded_by_design'',
      metric ''valid_trial_pass_rate'' ''ratio'' ''gte'' ''ratio'' ''valid_trials'' ''valid trials (Harbor rewards)'' [] ''fail_closed'',
      metric ''valid_trial_coverage'' ''ratio'' ''gte'' ''ratio'' ''planned_trials''
        ''valid trials over frozen trial plan'' [] ''fail_closed'',
      metric ''cost.total_usd'' ''USD'' ''lte'' ''sum'' ''run'' ''all usages priced in one currency'' [''price_table''] ''fail_closed'',
      metric ''cost.per_success_usd'' ''USD'' ''lte'' ''sum'' ''run'' ''at least one success'' [''price_table''] ''fail_closed'',
      metric ''pass_at_k'' ''ratio'' ''gte'' ''pass_at_k'' ''tasks''
        ''planned, independent, complete trials (n>=k>=1)'' [] ''fail_closed'',
      metric ''latency.p50_ms'' ''ms'' ''lte'' ''median'' ''run'' ''observed case latencies'' [] ''fail_closed'']"

definition METRIC_REGISTRY :: "(string \<times> metric_definition) list" where
  "METRIC_REGISTRY = map (\<lambda>d. (md_id d, d)) METRIC_DEFINITIONS"

definition PAIRWISE_METRIC :: metric_definition where
  "PAIRWISE_METRIC = metric ''pairwise_challenger_score'' ''ratio'' ''gte'' ''mean'' ''planned_pairs''
     ''complete unique successful planned calls and explicit challenger/reference roles''
     [''pairwise_roles'', ''frozen_plan'', ''invocation_ledger''] ''fail_closed''"

definition METRIC_REGISTRY_V2 :: "(string \<times> metric_definition) list" where
  "METRIC_REGISTRY_V2 = od_set ''pairwise_challenger_score'' PAIRWISE_METRIC METRIC_REGISTRY"

definition METRIC_REGISTRY_VERSION :: string where
  "METRIC_REGISTRY_VERSION = ''metric-registry@1''"

text \<open>\<^verbatim>\<open>s.partition("@")\<close>, without the separator.\<close>

definition partition_at :: "string \<Rightarrow> string \<times> string" where
  "partition_at s = (takeWhile (\<lambda>c. c \<noteq> CHR ''@'') s, drop 1 (dropWhile (\<lambda>c. c \<noteq> CHR ''@'') s))"

definition lookup_metric :: "string \<Rightarrow> string \<Rightarrow> metric_definition option" where
  "lookup_metric registry_version metric_id =
     (let registry = (if registry_version = METRIC_REGISTRY_VERSION then Some METRIC_REGISTRY
        else if registry_version = ''metric-registry@2'' then Some METRIC_REGISTRY_V2 else None) in
      case registry of
        None \<Rightarrow> None
      | Some reg \<Rightarrow>
          if CHR ''@'' \<in> set metric_id then
            (case partition_at metric_id of (base, version) \<Rightarrow>
               (case map_of reg base of
                  None \<Rightarrow> None
                | Some d \<Rightarrow> if md_version d \<noteq> version then None else Some d))
          else map_of reg metric_id)"

lemma registry_ok: "list_all metric_ok METRIC_DEFINITIONS" "metric_ok PAIRWISE_METRIC"
  by code_simp+

lemma lookup_metric_ok:
  assumes "lookup_metric v m = Some d"
  shows "metric_ok d"
proof -
  have "\<exists>k. map_of METRIC_REGISTRY k = Some d \<or> map_of METRIC_REGISTRY_V2 k = Some d"
    using assms by (auto simp: lookup_metric_def Let_def split: if_splits option.splits prod.splits)
  then have "d = PAIRWISE_METRIC \<or> d \<in> set METRIC_DEFINITIONS"
    by (auto simp: METRIC_REGISTRY_V2_def METRIC_REGISTRY_def dest!: map_of_SomeD split: if_splits)
  then show ?thesis using registry_ok by (auto simp: list_all_iff)
qed

section \<open>Decisions\<close>

datatype gate_decision = PASS | QUALITY_FAIL | INSUFFICIENT_EVIDENCE | NOT_COMPARABLE | EXECUTION_ERROR | SAFETY_BLOCK

definition DECISION_EXIT_CODES :: "(gate_decision \<times> int) list" where
  "DECISION_EXIT_CODES = [(PASS, 0), (QUALITY_FAIL, 1), (EXECUTION_ERROR, 3), (INSUFFICIENT_EVIDENCE, 5), (NOT_COMPARABLE, 5), (SAFETY_BLOCK, 6)]"

definition DECISION_PRIORITY :: "gate_decision list" where
  "DECISION_PRIORITY = [SAFETY_BLOCK, EXECUTION_ERROR, INSUFFICIENT_EVIDENCE, NOT_COMPARABLE, QUALITY_FAIL, PASS]"

definition decide :: "gate_decision option list \<Rightarrow> gate_decision" where
  "decide rule_decisions = (case find (\<lambda>d. Some d \<in> set rule_decisions) DECISION_PRIORITY of Some d \<Rightarrow> d | None \<Rightarrow> PASS)"

definition gate_exit_code :: "gate_decision \<Rightarrow> int" where
  "gate_exit_code d = (case map_of DECISION_EXIT_CODES d of Some n \<Rightarrow> n | None \<Rightarrow> 0)"

text \<open>How bad a decision is.\<close>

fun severity_rank :: "gate_decision \<Rightarrow> nat" where
  "severity_rank PASS = 0"
| "severity_rank QUALITY_FAIL = 1"
| "severity_rank NOT_COMPARABLE = 2"
| "severity_rank INSUFFICIENT_EVIDENCE = 3"
| "severity_rank EXECUTION_ERROR = 4"
| "severity_rank SAFETY_BLOCK = 5"

lemma decide_worst: "Some d \<in> set ds \<Longrightarrow> severity_rank d \<le> severity_rank (decide ds)"
  by (cases d) (auto simp: decide_def DECISION_PRIORITY_def)

lemma decide_member: "decide ds = PASS \<or> Some (decide ds) \<in> set ds"
  by (auto simp: decide_def DECISION_PRIORITY_def)

lemma decide_PASS: "decide ds = PASS \<longleftrightarrow> (\<forall>d. Some d \<in> set ds \<longrightarrow> d = PASS)"
proof
  assume "decide ds = PASS"
  moreover have "d = PASS" if "severity_rank d \<le> 0" for d using that by (cases d) simp_all
  ultimately show "\<forall>d. Some d \<in> set ds \<longrightarrow> d = PASS" using decide_worst by (metis severity_rank.simps(1))
next
  assume "\<forall>d. Some d \<in> set ds \<longrightarrow> d = PASS"
  then show "decide ds = PASS" using decide_member [of ds] by metis
qed

lemma exit_code_zero: "gate_exit_code d = 0 \<longleftrightarrow> d = PASS"
  by (cases d) (simp_all add: gate_exit_code_def DECISION_EXIT_CODES_def)

section \<open>Rules and policies\<close>

definition GATE_RULE_KINDS :: "string list" where
  "GATE_RULE_KINDS = [''metric_threshold'', ''baseline_delta'', ''critical_case'', ''coverage'', ''model_identity'',
     ''cost'', ''latency'', ''no_side_effect'', ''safety_marker'']"

definition GATE_OPERATORS :: "string list" where
  "GATE_OPERATORS = [''gte'', ''lte'', ''gt'', ''lt'']"

record gate_rule =
  gr_id :: string
  gr_kind :: string
  gr_metric :: "string option"
  gr_metric_version :: "string option"
  gr_operator :: "string option"
  gr_threshold :: "rat option"
  gr_max_regression :: "rat option"
  gr_critical :: "string list"
  gr_min_samples :: "int option"
  gr_min_coverage :: "rat option"
  gr_comparability :: "string option"
  gr_missing :: string
  gr_severity :: string
  gr_requires_run :: bool
  gr_experimental :: bool
  gr_expected :: "string option"
  gr_explicit :: "string list"

text \<open>\<^verbatim>\<open>sep.join(xs)\<close>\<close>

fun join_with :: "string \<Rightarrow> string list \<Rightarrow> string" where
  "join_with sep [] = []"
| "join_with sep [w] = w"
| "join_with sep (w # ws) = w @ sep @ join_with sep ws"

text \<open>The validators of a rule in the order they run; \<open>None\<close> accepts it.\<close>

definition rule_problem :: "gate_rule \<Rightarrow> fstr option" where
  "rule_problem r =
     (if gr_id r = [] then Some [Txt ''rule_id'']
      else if gr_kind r \<notin> set GATE_RULE_KINDS then Some [Txt ''unknown rule kind: '', Rep (PStr (gr_kind r)),
        Txt '' (known: baseline_delta,cost,coverage,critical_case,latency,metric_threshold,model_identity,no_side_effect,safety_marker)'']
      else if (case gr_operator r of None \<Rightarrow> False | Some x \<Rightarrow> x \<notin> set GATE_OPERATORS) then
        Some [Txt ''unknown operator: '', Rep (PStr (the (gr_operator r))), Txt '' (known: gt,gte,lt,lte)'']
      else if (case gr_min_samples r of None \<Rightarrow> False | Some n \<Rightarrow> n < 0) then Some [Txt ''min_samples'']
      else if (case gr_min_coverage r of None \<Rightarrow> False | Some x \<Rightarrow> x < 0 \<or> x > 1) then Some [Txt ''min_coverage'']
      else if gr_missing r \<notin> {''fail_closed'', ''diagnostic_skip''} then Some [Txt ''unknown missing_policy: '', Rep (PStr (gr_missing r)),
        Txt '' (known: diagnostic_skip,fail_closed)'']
      else if gr_severity r \<notin> {''block'', ''warn''} then Some [Txt ''unknown severity: '', Rep (PStr (gr_severity r)),
        Txt '' (known: block,warn)'']
      else if gr_comparability r \<notin> {None, Some ''comparable'', Some ''partial''} then
        Some [Txt ''unknown required_comparability: '', Rep (PStr (the (gr_comparability r))), Txt '' (known: comparable,partial)'']
      else if gr_kind r \<in> {''metric_threshold'', ''baseline_delta'', ''cost'', ''latency''} \<and> gr_metric r \<in> {None, Some []} then
        Some [Txt ''rule kind '', Rep (PStr (gr_kind r)), Txt '' requires metric_id'']
      else if gr_kind r = ''metric_threshold'' \<and> (gr_operator r = None \<or> gr_threshold r = None) then
        Some [Txt ''metric_threshold requires operator and threshold'']
      else if gr_kind r = ''baseline_delta'' \<and> gr_max_regression r = None then Some [Txt ''baseline_delta requires max_regression'']
      else if gr_kind r = ''critical_case'' \<and> gr_critical r = [] then Some [Txt ''critical_case requires critical_case_ids'']
      else if gr_kind r = ''model_identity'' \<and> gr_expected r = None then Some [Txt ''model_identity requires expected identity value'']
      else None)"

record gate_policy =
  gp_id :: string
  gp_version :: string
  gp_lifecycle :: string
  gp_rules :: "gate_rule list"
  gp_diagnostic :: bool
  gp_created_by :: string
  gp_reason :: string

fun first_problem :: "gate_rule list \<Rightarrow> fstr option" where
  "first_problem [] = None"
| "first_problem (r # rs) = (case rule_problem r of Some m \<Rightarrow> Some m | None \<Rightarrow> first_problem rs)"

definition policy_problem :: "gate_policy \<Rightarrow> fstr option" where
  "policy_problem p =
     (if gp_id p = [] \<or> gp_version p = [] \<or> gp_created_by p = [] \<or> gp_reason p = [] then Some [Txt ''string too short'']
      else if gp_lifecycle p \<notin> {''draft'', ''published'', ''deprecated''} then Some [Txt ''unknown lifecycle: '', Rep (PStr (gp_lifecycle p)),
        Txt '' (known: draft,published,deprecated)'']
      else if gp_rules p = [] then Some [Txt ''rules'']
      else if first_problem (gp_rules p) \<noteq> None then first_problem (gp_rules p)
      else if \<not> distinct (map gr_id (gp_rules p)) then
        Some [Txt (''duplicate rule ids: '' @ join_with '','' (sort (remdups (filter (\<lambda>i. 1 < count_list (map gr_id (gp_rules p)) i) (map gr_id (gp_rules p))))))]
      else if \<not> gp_diagnostic p \<and> list_ex (\<lambda>r. gr_missing r = ''diagnostic_skip'') (gp_rules p) then
        Some [Txt (''diagnostic_skip requires a diagnostic policy: '' @
          join_with '','' (map gr_id (filter (\<lambda>r. gr_missing r = ''diagnostic_skip'') (gp_rules p))))]
      else None)"

lemma rule_problem_None:
  assumes "rule_problem r = None"
  shows "gr_kind r \<in> set GATE_RULE_KINDS" "gr_missing r \<in> {''fail_closed'', ''diagnostic_skip''}" "gr_severity r \<in> {''block'', ''warn''}"
    "gr_kind r \<in> {''metric_threshold'', ''baseline_delta'', ''cost'', ''latency''} \<Longrightarrow> \<exists>m. gr_metric r = Some m"
    "gr_kind r = ''metric_threshold'' \<Longrightarrow> (\<exists>x t. gr_operator r = Some x \<and> x \<in> set GATE_OPERATORS \<and> gr_threshold r = Some t)"
    "gr_operator r = Some x \<Longrightarrow> x \<in> set GATE_OPERATORS"
    "gr_kind r = ''baseline_delta'' \<Longrightarrow> \<exists>x. gr_max_regression r = Some x"
    "gr_kind r = ''model_identity'' \<Longrightarrow> \<exists>x. gr_expected r = Some x"
    "gr_comparability r \<in> {None, Some ''comparable'', Some ''partial''}"
  using assms by (auto simp: rule_problem_def split: if_splits option.splits)

lemma first_problem_None: "first_problem rs = None \<longleftrightarrow> (\<forall>r \<in> set rs. rule_problem r = None)"
  by (induction rs) (auto split: option.splits)

lemma policy_problem_None:
  assumes "policy_problem p = None"
  shows "r \<in> set (gp_rules p) \<Longrightarrow> rule_problem r = None" "\<not> gp_diagnostic p \<Longrightarrow> r \<in> set (gp_rules p) \<Longrightarrow> gr_missing r \<noteq> ''diagnostic_skip''"
proof -
  have "first_problem (gp_rules p) = None" "\<not> (\<not> gp_diagnostic p \<and> list_ex (\<lambda>r. gr_missing r = ''diagnostic_skip'') (gp_rules p))"
    using assms unfolding policy_problem_def by (metis option.distinct(1))+
  then show "r \<in> set (gp_rules p) \<Longrightarrow> rule_problem r = None" "\<not> gp_diagnostic p \<Longrightarrow> r \<in> set (gp_rules p) \<Longrightarrow> gr_missing r \<noteq> ''diagnostic_skip''"
    by (auto simp: first_problem_None list_ex_iff)
qed

end
