(* ===== verification/Pairwise_Quality.thy ===== *)
theory Pairwise_Quality
  imports Gate_Policy Float_Error
begin

text \<open>
  Pairwise quality evidence (\<^verbatim>\<open>packages/contracts/motte_contracts/pairwise_quality.py\<close>): which candidate challenges
  which in every planned pair, how the calls settled, the value of every pair and their mean, sealed by a
  digest; and what a gate reads from it (\<^verbatim>\<open>resolve_pairwise_gate_metric\<close> in
  \<^verbatim>\<open>packages/evaluators/motte_eval/gates.py\<close>).  \<open>canonical_hash\<close>, SHA-256 of the canonical JSON text, is a parameter.
  Ratios are finite floats, as the field types demand.
\<close>

section \<open>The contract\<close>

record role_binding =
  rb_case :: string
  rb_pair :: string
  rb_challenger :: string
  rb_reference :: string
  rb_challenger_attempt :: string
  rb_reference_attempt :: string
  rb_inputs :: "(string \<times> string) list"

record pairwise_quality =
  pq_source_pass :: string
  pq_job :: "string option"
  pq_plan :: "string option"
  pq_ledger :: "string option"
  pq_roles_sha :: string
  pq_roles :: "role_binding list"
  pq_planned_pairs :: int
  pq_valid_pairs :: int
  pq_planned_calls :: int
  pq_settled_calls :: int
  pq_pair_values :: "(string \<times> rat option) list"
  pq_value :: "rat option"
  pq_coverage :: "rat option"
  pq_reasons :: "string list"
  pq_content :: string

definition is_digest :: "string \<Rightarrow> bool" where
  "is_digest s \<longleftrightarrow> take 7 s = ''sha256:'' \<and> length s = 71 \<and> list_all (\<lambda>c. c \<in> set ''0123456789abcdef'') (drop 7 s)"

definition is_ratio :: "rat \<Rightarrow> bool" where
  "is_ratio x \<longleftrightarrow> 0 \<le> x \<and> x \<le> 1"

definition role_fields_ok :: "role_binding \<Rightarrow> bool" where
  "role_fields_ok r \<longleftrightarrow> [] \<notin> set [rb_case r, rb_pair r, rb_challenger r, rb_reference r, rb_challenger_attempt r, rb_reference_attempt r] \<and>
     list_all (\<lambda>(k, d). k \<noteq> [] \<and> is_digest d) (rb_inputs r)"

definition role_problem :: "role_binding \<Rightarrow> string option" where
  "role_problem r =
     (if \<not> role_fields_ok r then Some ''role binding fields''
      else if rb_challenger r = rb_reference r then Some ''challenger and reference candidates must differ''
      else if rb_challenger_attempt r = rb_reference_attempt r then Some ''challenger and reference attempts must differ''
      else if fst ` set (rb_inputs r) \<noteq> {rb_challenger r, rb_reference r} then
        Some ''candidate input digests must bind exactly the two role candidates''
      else None)"

definition quality_fields_ok :: "pairwise_quality \<Rightarrow> bool" where
  "quality_fields_ok q \<longleftrightarrow> pq_source_pass q \<noteq> [] \<and> pq_job q \<noteq> Some [] \<and> pred_option is_digest (pq_plan q) \<and> pred_option is_digest (pq_ledger q) \<and>
     is_digest (pq_roles_sha q) \<and> list_all (\<lambda>r. role_problem r = None) (pq_roles q) \<and>
     0 \<le> pq_planned_pairs q \<and> 0 \<le> pq_valid_pairs q \<and> 0 \<le> pq_planned_calls q \<and> 0 \<le> pq_settled_calls q \<and>
     list_all (\<lambda>(k, v). k \<noteq> [] \<and> pred_option is_ratio v) (pq_pair_values q) \<and> distinct (map fst (pq_pair_values q)) \<and>
     pred_option is_ratio (pq_value q) \<and> pred_option is_ratio (pq_coverage q) \<and> [] \<notin> set (pq_reasons q)"

text \<open>\<^verbatim>\<open>model_dump(mode="json")\<close>\<close>

definition opt_val :: "('a \<Rightarrow> pyval) \<Rightarrow> 'a option \<Rightarrow> pyval" where
  "opt_val f x = (case x of None \<Rightarrow> PNone | Some y \<Rightarrow> f y)"

definition float_val :: "rat \<Rightarrow> pyval" where
  "float_val x = PFloat (FFin x)"

definition dump_role :: "role_binding \<Rightarrow> pyval" where
  "dump_role r = PDict [(''case_id'', PStr (rb_case r)), (''pair_id'', PStr (rb_pair r)),
     (''challenger_candidate_id'', PStr (rb_challenger r)), (''reference_candidate_id'', PStr (rb_reference r)),
     (''challenger_attempt_id'', PStr (rb_challenger_attempt r)), (''reference_attempt_id'', PStr (rb_reference_attempt r)),
     (''candidate_input_sha256'', PDict (map (\<lambda>(k, d). (k, PStr d)) (rb_inputs r)))]"

definition dump_quality :: "pairwise_quality \<Rightarrow> pyval" where
  "dump_quality q = PDict [(''schema_version'', PInt 1), (''metric_id'', PStr ''pairwise_challenger_score''), (''metric_version'', PStr ''1''),
     (''algorithm'', PStr ''pairwise-quality@1''), (''source_pass_id'', PStr (pq_source_pass q)), (''job_id'', opt_val PStr (pq_job q)),
     (''plan_sha256'', opt_val PStr (pq_plan q)), (''ledger_sha256'', opt_val PStr (pq_ledger q)), (''roles_sha256'', PStr (pq_roles_sha q)),
     (''roles'', PList (map dump_role (pq_roles q))), (''planned_pairs'', PInt (pq_planned_pairs q)), (''valid_pairs'', PInt (pq_valid_pairs q)),
     (''planned_calls'', PInt (pq_planned_calls q)), (''settled_calls'', PInt (pq_settled_calls q)),
     (''pair_values'', PDict (map (\<lambda>(k, v). (k, opt_val float_val v)) (pq_pair_values q))), (''value'', opt_val float_val (pq_value q)),
     (''coverage'', opt_val float_val (pq_coverage q)), (''reasons'', PList (map PStr (pq_reasons q)))]"

text \<open>The pairs with a value, and the values in the order of the pairs.\<close>

definition valid_ids :: "pairwise_quality \<Rightarrow> string list" where
  "valid_ids q = map fst (filter (\<lambda>(_, v). v \<noteq> None) (pq_pair_values q))"

definition present_values :: "pairwise_quality \<Rightarrow> rat list" where
  "present_values q = map (the \<circ> snd) (filter (\<lambda>(_, v). v \<noteq> None) (pq_pair_values q))"

definition planned_coverage :: "pairwise_quality \<Rightarrow> pyfloat option" where
  "planned_coverage q = (if pq_planned_pairs q \<noteq> 0 then Some (round_double (of_int (pq_valid_pairs q) / of_int (pq_planned_pairs q))) else None)"

definition source_gap :: "pairwise_quality \<Rightarrow> string option \<times> string \<Rightarrow> bool" where
  "source_gap q item = (case item of (digest, reason) \<Rightarrow> digest = None \<and> (reason \<notin> set (pq_reasons q) \<or> pq_valid_pairs q \<noteq> 0))"

definition value_problem :: "pairwise_quality \<Rightarrow> string option" where
  "value_problem q = (case pq_value q of
       None \<Rightarrow> if pq_reasons q = [] then Some ''unavailable quality requires explicit reasons'' else None
     | Some v \<Rightarrow>
         if pq_planned_pairs q = 0 \<or> pq_valid_pairs q \<noteq> pq_planned_pairs q \<or> pq_settled_calls q \<noteq> pq_planned_calls q \<or>
            pq_reasons q \<noteq> [] \<or> pq_plan q = None \<or> pq_ledger q = None \<or> pq_job q = None then
           Some ''available quality requires complete roles, pairs, calls and source digests''
         else (case fsum_mean (present_values q) (pq_planned_pairs q) of
             FFin expected \<Rightarrow> if isclose TOL TOL v expected then None
               else Some ''quality must equally average pair values, never weight by call count''
           | _ \<Rightarrow> Some ''quality must equally average pair values, never weight by call count''))"

text \<open>The checks of \<^verbatim>\<open>_evidence_is_coherent\<close> in their order.\<close>

definition coherence_problem :: "(pyval \<Rightarrow> string) \<Rightarrow> pairwise_quality \<Rightarrow> string option" where
  "coherence_problem canonical_hash q =
     (let roles = pq_roles q; planned = pq_planned_pairs q in
      if \<not> distinct (map rb_pair roles) \<or> \<not> distinct (map rb_case roles) then
        Some ''exactly one unique role binding is allowed per pair and selected case''
      else if \<not> distinct (concat (map (\<lambda>r. [rb_challenger r, rb_reference r]) roles)) \<or>
          \<not> distinct (concat (map (\<lambda>r. [rb_challenger_attempt r, rb_reference_attempt r]) roles)) then
        Some ''saved candidates and attempts cannot be reused across selected cases''
      else if int (length (pq_pair_values q)) \<noteq> planned \<or> \<not> set (map rb_pair roles) \<subseteq> set (map fst (pq_pair_values q)) then
        Some ''pair values must retain all independently planned pair identities''
      else if pq_roles_sha q \<noteq> canonical_hash (PList (map dump_role roles)) then
        Some ''roles_sha256 must hash the actual explicit role bindings''
      else if int (length roles) < planned \<and> ''missing_pairwise_roles'' \<notin> set (pq_reasons q) then
        Some ''incomplete historical roles require an explicit missing-role reason''
      else if \<not> set (valid_ids q) \<subseteq> set (map rb_pair roles) \<or> int (length (valid_ids q)) \<noteq> pq_valid_pairs q then
        Some ''valid pair counts/values require explicit roles for those pairs''
      else if pq_planned_calls q < planned \<or> pq_planned_calls q < pq_settled_calls q \<or> pq_settled_calls q < pq_valid_pairs q then
        Some ''planned pairs and settled planned calls must retain separate valid counts''
      else if planned = 0 \<and> (pq_planned_calls q \<noteq> 0 \<or> pq_settled_calls q \<noteq> 0) then
        Some ''an empty pair plan cannot claim planned or settled pairwise calls''
      else if map_option FFin (pq_coverage q) \<noteq> planned_coverage q then
        Some ''coverage must be valid_pairs/planned_pairs, or null for an empty plan''
      else if list_ex (source_gap q) [(pq_plan q, ''plan_digest_unavailable''), (pq_ledger q, ''ledger_digest_unavailable''),
          (pq_job q, ''subject_job_unavailable'')] then
        Some ''unknown source digest requires an explicit reason and zero valid pairs''
      else value_problem q)"

definition quality_problem :: "(pyval \<Rightarrow> string) \<Rightarrow> pairwise_quality \<Rightarrow> string option" where
  "quality_problem canonical_hash q =
     (if \<not> quality_fields_ok q \<or> \<not> is_digest (pq_content q) then Some ''pairwise quality fields''
      else if coherence_problem canonical_hash q \<noteq> None then coherence_problem canonical_hash q
      else if pq_content q \<noteq> canonical_hash (dump_quality q) then
        Some ''pairwise quality content_sha256 does not match its complete content''
      else None)"

definition seal :: "(pyval \<Rightarrow> string) \<Rightarrow> pairwise_quality \<Rightarrow> string + pairwise_quality" where
  "seal canonical_hash payload =
     (if \<not> quality_fields_ok payload then Inl ''pairwise quality fields''
      else case coherence_problem canonical_hash payload of
        Some m \<Rightarrow> Inl m
      | None \<Rightarrow>
          (let sealed = payload\<lparr>pq_content := canonical_hash (dump_quality payload)\<rparr> in
           case quality_problem canonical_hash sealed of Some m \<Rightarrow> Inl m | None \<Rightarrow> Inr sealed))"

section \<open>What a gate reads\<close>

record report_ref =
  rr_run :: string
  rr_pass :: string
  rr_schema :: string
  rr_evidence :: string

definition resolve_pairwise_gate_metric :: "(pyval \<Rightarrow> string) \<Rightarrow> report_ref \<Rightarrow> string \<Rightarrow> pairwise_quality option \<Rightarrow> fstr + rat" where
  "resolve_pairwise_gate_metric canonical_hash ref registry_version section =
     (case section of
        None \<Rightarrow> Inl [Txt ''pairwise quality typed evidence/digest is missing or invalid'']
      | Some q \<Rightarrow>
          if quality_problem canonical_hash q \<noteq> None then Inl [Txt ''pairwise quality typed evidence/digest is missing or invalid'']
          else if rr_pass ref \<noteq> pq_source_pass q \<or> rr_schema ref \<noteq> ''report-pairwise-v1'' \<or> registry_version \<noteq> ''metric-registry@2'' then
            Inl [Txt ''pairwise selected source/report binding mismatch'']
          else case pq_value q of
            None \<Rightarrow> Inl [Txt (''pairwise quality unavailable: '' @ join_with ''; '' (pq_reasons q))]
          | Some v \<Rightarrow>
              if pq_planned_pairs q \<le> 0 \<or> pq_valid_pairs q \<noteq> pq_planned_pairs q \<or> pq_settled_calls q \<noteq> pq_planned_calls q \<or>
                 pq_coverage q \<noteq> Some 1 then Inl [Txt ''pairwise quality requires complete planned pairs and calls'']
              else Inr v)"

text \<open>
  The shape of the qualification that the service verified; \<open>binding_ok\<close> says whether a value is a
  \<^verbatim>\<open>QualificationBinding\<close>.
\<close>

definition pairwise_qualification :: "(pyval \<Rightarrow> bool) \<Rightarrow> pyval \<Rightarrow> pairwise_quality option \<Rightarrow> bool \<times> fstr" where
  "pairwise_qualification binding_ok value section =
     (let source = (case section of None \<Rightarrow> PNone | Some q \<Rightarrow> PStr (pq_source_pass q)) in
      case value of
        PDict d \<Rightarrow>
          if dget d ''required'' \<noteq> PBool True \<or> dget d ''gate_eligible'' \<noteq> PBool True \<or> dget d ''mode'' \<noteq> PStr ''pairwise'' \<or>
             dget d ''experimental'' \<noteq> PBool False \<or> dget d ''pass_id'' \<noteq> source \<or> dget d ''judge_pass_id'' \<noteq> source then
            (False, [Txt ''pairwise quality requires exact selected-Pass Judge qualification''])
          else if \<not> binding_ok (dget d ''binding'') then
            (False, [Txt ''pairwise quality requires a complete qualification source binding''])
          else (True, [Txt ''verified_calibration_source''])
      | _ \<Rightarrow> (False, [Txt ''pairwise quality requires exact selected-Pass Judge qualification'']))"

section \<open>Sealed evidence\<close>

lemma content_selectors:
  "pq_source_pass (q\<lparr>pq_content := h\<rparr>) = pq_source_pass q"
  "pq_job (q\<lparr>pq_content := h\<rparr>) = pq_job q"
  "pq_plan (q\<lparr>pq_content := h\<rparr>) = pq_plan q"
  "pq_ledger (q\<lparr>pq_content := h\<rparr>) = pq_ledger q"
  "pq_roles_sha (q\<lparr>pq_content := h\<rparr>) = pq_roles_sha q"
  "pq_roles (q\<lparr>pq_content := h\<rparr>) = pq_roles q"
  "pq_planned_pairs (q\<lparr>pq_content := h\<rparr>) = pq_planned_pairs q"
  "pq_valid_pairs (q\<lparr>pq_content := h\<rparr>) = pq_valid_pairs q"
  "pq_planned_calls (q\<lparr>pq_content := h\<rparr>) = pq_planned_calls q"
  "pq_settled_calls (q\<lparr>pq_content := h\<rparr>) = pq_settled_calls q"
  "pq_pair_values (q\<lparr>pq_content := h\<rparr>) = pq_pair_values q"
  "pq_value (q\<lparr>pq_content := h\<rparr>) = pq_value q"
  "pq_coverage (q\<lparr>pq_content := h\<rparr>) = pq_coverage q"
  "pq_reasons (q\<lparr>pq_content := h\<rparr>) = pq_reasons q"
  by simp_all

lemma seal_content [simp]:
  "quality_fields_ok (q\<lparr>pq_content := h\<rparr>) = quality_fields_ok q" "dump_quality (q\<lparr>pq_content := h\<rparr>) = dump_quality q"
  "coherence_problem c (q\<lparr>pq_content := h\<rparr>) = coherence_problem c q"
proof -
  have parts: "valid_ids (q\<lparr>pq_content := h\<rparr>) = valid_ids q" "planned_coverage (q\<lparr>pq_content := h\<rparr>) = planned_coverage q"
    "source_gap (q\<lparr>pq_content := h\<rparr>) = source_gap q" "value_problem (q\<lparr>pq_content := h\<rparr>) = value_problem q"
    unfolding fun_eq_iff valid_ids_def planned_coverage_def source_gap_def value_problem_def present_values_def content_selectors
    by (rule refl | rule allI)+
  show "quality_fields_ok (q\<lparr>pq_content := h\<rparr>) = quality_fields_ok q" "dump_quality (q\<lparr>pq_content := h\<rparr>) = dump_quality q"
    "coherence_problem c (q\<lparr>pq_content := h\<rparr>) = coherence_problem c q"
    unfolding quality_fields_ok_def dump_quality_def coherence_problem_def content_selectors parts by (rule refl)+
qed

text \<open>Sealing accepts exactly the coherent payloads, and what it seals is accepted again.\<close>

lemma seal_accepts:
  assumes "\<And>v. is_digest (canonical_hash v)"
  shows "seal canonical_hash q = Inr s \<longleftrightarrow>
    quality_fields_ok q \<and> coherence_problem canonical_hash q = None \<and> s = q\<lparr>pq_content := canonical_hash (dump_quality q)\<rparr>"
  using assms by (auto simp: seal_def quality_problem_def Let_def split: option.splits)

lemma seal_valid: "seal canonical_hash q = Inr s \<Longrightarrow> quality_problem canonical_hash s = None"
  by (auto simp: seal_def Let_def split: if_splits option.splits)

section \<open>Complete evidence\<close>

lemma filter_all: "length (filter P xs) = length xs \<longleftrightarrow> list_all P xs"
  by (metis length_filter_less less_irrefl list_all_iff filter_True)

lemma sum_list_ratio: "list_all is_ratio vs \<Longrightarrow> 0 \<le> sum_list vs \<and> sum_list vs \<le> of_nat (length vs)"
  by (induction vs) (auto simp: is_ratio_def)

lemma resolved:
  assumes "resolve_pairwise_gate_metric canonical_hash ref registry section = Inr v"
  shows "\<exists>q. section = Some q \<and> quality_fields_ok q \<and> coherence_problem canonical_hash q = None \<and> pq_content q = canonical_hash (dump_quality q) \<and>
    pq_source_pass q = rr_pass ref \<and> pq_value q = Some v \<and> 0 < pq_planned_pairs q \<and> pq_valid_pairs q = pq_planned_pairs q \<and>
    pq_settled_calls q = pq_planned_calls q"
  using assms by (auto simp: resolve_pairwise_gate_metric_def quality_problem_def split: option.splits if_splits)

lemma coherentD:
  assumes "coherence_problem canonical_hash q = None"
  shows "distinct (map rb_pair (pq_roles q))" "int (length (pq_pair_values q)) = pq_planned_pairs q"
    "set (map rb_pair (pq_roles q)) \<subseteq> set (map fst (pq_pair_values q))" "set (valid_ids q) \<subseteq> set (map rb_pair (pq_roles q))"
    "int (length (valid_ids q)) = pq_valid_pairs q" "value_problem q = None"
  using assms by (auto simp: coherence_problem_def Let_def split: if_splits)

lemma all_present:
  assumes "int (length (valid_ids q)) = int (length (pq_pair_values q))"
  shows "filter (\<lambda>(_, v). v \<noteq> None) (pq_pair_values q) = pq_pair_values q"
  using assms filter_all [of "\<lambda>(_, v). v \<noteq> None" "pq_pair_values q"] by (auto simp: valid_ids_def list_all_iff filter_id_conv)

lemma fsum_mean_bounds:
  assumes "list_all is_ratio vs" "vs \<noteq> []" "fsum_mean vs (int (length vs)) = FFin e"
  shows "\<bar>e - sum_list vs / of_nat (length vs)\<bar> \<le> 8 * ulp" "\<bar>e\<bar> \<le> 1001 / 1000"
proof -
  define s where "s = sum_list vs"
  define n where "n = (of_nat (length vs) :: rat)"
  have n: "1 \<le> n" using assms(2) by (cases vs) (simp_all add: n_def)
  have s: "0 \<le> s" "s \<le> n" using sum_list_ratio [OF assms(1)] by (simp_all add: s_def n_def)
  have "1 \<le> int (length vs)" using assms(2) by (cases vs) simp_all
  from fsum_mean_error [OF assms(3) this] s show err: "\<bar>e - sum_list vs / of_nat (length vs)\<bar> \<le> 8 * ulp" by (simp add: s_def n_def)
  have "0 \<le> s / n" "s / n \<le> 1" using s n by simp_all
  moreover have "8 * ulp \<le> 1 / 1000" by (simp add: ulp_def)
  ultimately show "\<bar>e\<bar> \<le> 1001 / 1000" using err unfolding s_def [symmetric] n_def [symmetric] by linarith
qed

lemma close_to_mean:
  assumes "list_all is_ratio vs" "vs \<noteq> []" "fsum_mean vs (int (length vs)) = FFin e" "isclose TOL TOL v e" "is_ratio v"
  shows "\<bar>v - sum_list vs / of_nat (length vs)\<bar> \<le> 2 / 10 ^ 15"
proof -
  have "\<bar>v\<bar> \<le> 1001 / 1000" using assms(5) by (auto simp: is_ratio_def)
  from isclose_error [OF assms(4) this fsum_mean_bounds(2) [OF assms(1-3)]] have close: "\<bar>v - e\<bar> \<le> 101 / 100 / 10 ^ 15" .
  have "8 * ulp \<le> 9 / 10 / 10 ^ 15" by (simp add: ulp_def)
  with fsum_mean_bounds(1) [OF assms(1-3)] have mean: "\<bar>e - sum_list vs / of_nat (length vs)\<bar> \<le> 9 / 10 / 10 ^ 15" by (rule order_trans)
  have "\<bar>v - sum_list vs / of_nat (length vs)\<bar> \<le> \<bar>v - e\<bar> + \<bar>e - sum_list vs / of_nat (length vs)\<bar>" by linarith
  also have "\<dots> \<le> 101 / 100 / 10 ^ 15 + 9 / 10 / 10 ^ 15" by (rule add_mono [OF close mean])
  also have "\<dots> \<le> 2 / 10 ^ 15" by simp
  finally show ?thesis .
qed

text \<open>
  A value is read only from complete evidence: every planned pair has explicit roles and a value, and the
  value is their mean, up to the tolerance of the contract and the rounding of floats.
\<close>

lemma resolved_complete:
  assumes "resolve_pairwise_gate_metric canonical_hash ref registry section = Inr v"
  shows "\<exists>q. section = Some q \<and> pq_source_pass q = rr_pass ref \<and> pq_pair_values q \<noteq> [] \<and>
    set (map rb_pair (pq_roles q)) = set (map fst (pq_pair_values q)) \<and>
    (\<forall>(k, x) \<in> set (pq_pair_values q). \<exists>y. x = Some y \<and> is_ratio y) \<and>
    \<bar>v - sum_list (map (the \<circ> snd) (pq_pair_values q)) / of_nat (length (pq_pair_values q))\<bar> \<le> 2 / 10 ^ 15"
proof -
  obtain q where q: "section = Some q" "quality_fields_ok q" "coherence_problem canonical_hash q = None" "pq_source_pass q = rr_pass ref"
      "pq_value q = Some v" "0 < pq_planned_pairs q" "pq_valid_pairs q = pq_planned_pairs q"
    using resolved [OF assms] by blast
  note c = coherentD [OF q(3)]
  let ?pv = "pq_pair_values q"
  have "int (length (valid_ids q)) = int (length ?pv)" using c(2,5) q(7) by simp
  from all_present [OF this] have f: "filter (\<lambda>(_, v). v \<noteq> None) ?pv = ?pv" .
  have ratio: "\<exists>y. x = Some y \<and> is_ratio y" if x: "(k, x) \<in> set ?pv" for k x
  proof -
    have "x \<noteq> None" using x f by (auto simp: filter_id_conv)
    moreover have "pred_option is_ratio x" using q(2) x by (auto simp: quality_fields_ok_def list_all_iff)
    ultimately show ?thesis by auto
  qed
  define vs where "vs = map (the \<circ> snd) ?pv"
  have vs: "present_values q = vs" "length vs = length ?pv" by (simp_all only: present_values_def f vs_def length_map)
  have "list_all is_ratio vs" using ratio by (fastforce simp: vs_def list_all_iff)
  moreover have ne: "?pv \<noteq> []" using c(2) q(6) by auto
  then have "vs \<noteq> []" by (simp add: vs_def)
  moreover have "\<exists>e. fsum_mean vs (int (length vs)) = FFin e \<and> isclose TOL TOL v e"
    using c(6) q(5) c(2) unfolding value_problem_def vs(1) vs(2) by (auto split: if_splits pyfloat.splits)
  moreover have "is_ratio v" using q(2,5) by (simp add: quality_fields_ok_def)
  ultimately have "\<bar>v - sum_list vs / of_nat (length vs)\<bar> \<le> 2 / 10 ^ 15" using close_to_mean by blast
  moreover have "set (map rb_pair (pq_roles q)) = set (map fst ?pv)" using c(3,4) unfolding valid_ids_def f by blast
  ultimately show ?thesis using q(1,4) ne ratio by (auto simp: vs_def)
qed

end
