(* ===== verification/Gate_Engine.thy ===== *)
theory Gate_Engine
  imports Pairwise_Quality
begin

text \<open>
  The rule engine of regression gates, the second half of \<^verbatim>\<open>packages/evaluators/motte_eval/gates.py\<close>:
  a policy is evaluated against the frozen report of a run.  The report is a record with the fields of
  \<^verbatim>\<open>ReportSnapshot\<close> the engine reads and the \<^verbatim>\<open>case_results\<close> its caller adds.  A \<open>pairwise_view\<close> collects what a
  policy on the pairwise metric reads from the typed evidence and the qualification of its judge.  The digests
  that identify a result are left out.
\<close>

section \<open>Inputs\<close>

datatype comparability_level = LevelComparable | LevelPartial | LevelNot

fun level_value :: "comparability_level \<Rightarrow> string" where
  "level_value LevelComparable = ''comparable''"
| "level_value LevelPartial = ''partially_comparable''"
| "level_value LevelNot = ''not_comparable''"

record gate_snapshot =
  gs_metric_values :: "(string \<times> pyfloat option) list"
  gs_coverage :: "rat option"
  gs_counts :: "(string \<times> int) list"
  gs_dispositions :: "(string \<times> string) list"
  gs_case_results :: "(string \<times> bool option) list"
  gs_ref :: "report_ref option"
  gs_registry :: string
  gs_quality :: "pairwise_quality option"

record gate_evidence =
  ge_qualifications :: "(string \<times> pyval) list"
  ge_model_identity :: "string option"
  ge_side_effects :: pyval
  ge_safety :: pyval

record pairwise_view =
  pw_policy :: bool
  pw_resolved :: "fstr + rat"
  pw_coverage :: "rat option"
  pw_pairs :: "int option"
  pw_eligible :: bool
  pw_reason :: fstr

record gate_inputs =
  gi_ref :: report_ref
  gi_snapshot :: gate_snapshot
  gi_run_status :: string
  gi_baseline_ref :: "(string \<times> string) option"
  gi_baseline :: "gate_snapshot option"
  gi_level :: "comparability_level option"
  gi_eligibility :: "(string \<times> bool) list"
  gi_evidence :: gate_evidence

record rule_result =
  rs_id :: string
  rs_kind :: string
  rs_status :: string
  rs_severity :: string
  rs_decision :: "gate_decision option"
  rs_reason :: fstr
  rs_skipped :: bool

datatype gate_error = GateInputError string fstr | GateTypeError

section \<open>Values\<close>

definition qualified_id :: "string \<Rightarrow> metric_definition \<Rightarrow> string" where
  "qualified_id metric_id d = metric_id @ ''@'' @ md_version d"

definition metric_value :: "gate_snapshot \<Rightarrow> string \<Rightarrow> fstr + rat" where
  "metric_value snapshot metric_id = (case lookup_metric METRIC_REGISTRY_VERSION metric_id of
       None \<Rightarrow> Inl [Txt ''unknown metric: '', Rep (PStr metric_id), Txt ('' (registry '' @ METRIC_REGISTRY_VERSION @ '')'')]
     | Some d \<Rightarrow> (case map_of (gs_metric_values snapshot) metric_id of
           None \<Rightarrow> Inl [Txt (''metric value missing: '' @ qualified_id metric_id d @
             '' (insufficient evidence; missing values never become 0 or pass)'')]
         | Some None \<Rightarrow> Inl [Txt (if ''price_table'' \<in> set (md_evidence d)
             then ''cost unknown: '' @ qualified_id metric_id d @ '' cannot pass without observed cost''
             else ''metric value missing: '' @ qualified_id metric_id d @ '' (empty denominator or unscored)'')]
         | Some (Some (FFin v)) \<Rightarrow> Inr v
         | Some (Some FNan) \<Rightarrow> Inl [Txt (''metric value is NaN: '' @ qualified_id metric_id d)]
         | Some (Some _) \<Rightarrow> Inl [Txt (''metric value is infinite: '' @ qualified_id metric_id d)]))"

definition rule_direction_reason :: "gate_rule \<Rightarrow> metric_definition \<Rightarrow> fstr option" where
  "rule_direction_reason rule d = (case gr_operator rule of
       None \<Rightarrow> None
     | Some x \<Rightarrow>
         if x = md_direction d then None
         else if x \<in> {''gt'', ''lt''} \<and> take 2 x = take 2 (md_direction d) then None
         else Some [Txt ''rule operator '', Rep (PStr x), Txt '' contradicts metric direction '', Rep (PStr (md_direction d)),
           Txt '' for '', Val (case gr_metric rule of None \<Rightarrow> PNone | Some m \<Rightarrow> PStr m)])"

definition comparability_gate ::
    "gate_rule \<Rightarrow> comparability_level option \<Rightarrow> (string \<times> bool) list \<Rightarrow> (fstr \<times> gate_decision) option" where
  "comparability_gate rule level eligibility =
     (if gr_comparability rule = None then None
      else case level of
        None \<Rightarrow> Some ([Txt ''no comparison result available''], NOT_COMPARABLE)
      | Some l \<Rightarrow>
          if gr_comparability rule = Some ''comparable'' \<and> l \<noteq> LevelComparable then
            Some ([Txt (''comparison level '' @ level_value l @ '' does not satisfy required_comparability=comparable'')], NOT_COMPARABLE)
          else if gr_comparability rule = Some ''partial'' \<and> l = LevelNot then
            Some ([Txt ''comparison level not_comparable does not satisfy required_comparability=partial''], NOT_COMPARABLE)
          else if l = LevelPartial \<and> eligibility \<noteq> [] then
            (let scope = (if take 5 (case gr_metric rule of None \<Rightarrow> [] | Some m \<Rightarrow> m) = ''cost.'' then ''cost'' else ''quality'') in
             if map_of eligibility scope = Some False then
               Some ([Txt ''metric scope '', Rep (PStr scope), Txt '' ineligible under partial comparability''], INSUFFICIENT_EVIDENCE)
             else None)
          else None)"

definition case_outcome :: "gate_snapshot \<Rightarrow> string \<Rightarrow> string option" where
  "case_outcome snapshot case_id = (case find (\<lambda>(c, _). c = case_id) (gs_dispositions snapshot) of
       None \<Rightarrow> None
     | Some (_, disposition) \<Rightarrow>
         if disposition = ''judged'' then
           (case map_of (gs_case_results snapshot) case_id of
              Some (Some True) \<Rightarrow> Some ''pass'' | Some (Some False) \<Rightarrow> Some ''fail'' | _ \<Rightarrow> Some ''unknown'')
         else if disposition \<in> {''unknown'', ''needs_review''} then Some ''unknown''
         else if disposition = ''no_expectation'' then None
         else if disposition = ''call_failed'' then Some ''fail''
         else Some ''unknown'')"

section \<open>One rule\<close>

definition finish :: "gate_rule \<Rightarrow> string \<Rightarrow> fstr \<Rightarrow> gate_decision option \<Rightarrow> rule_result" where
  "finish rule status reason decision =
     (let skipped = (status = ''skipped_diagnostic'') in
      \<lparr>rs_id = gr_id rule, rs_kind = gr_kind rule, rs_status = status, rs_severity = gr_severity rule,
       rs_decision = (if skipped \<and> decision = None then Some INSUFFICIENT_EVIDENCE else decision),
       rs_reason = reason, rs_skipped = skipped\<rparr>)"

text \<open>\<^verbatim>\<open>finish\<close> for evidence that is not there: skipped by a diagnostic rule, otherwise insufficient.\<close>

definition finish_missing :: "gate_rule \<Rightarrow> fstr \<Rightarrow> gate_decision \<Rightarrow> rule_result" where
  "finish_missing rule reason decision =
     (if gr_missing rule = ''diagnostic_skip'' then finish rule ''skipped_diagnostic'' reason None
      else finish rule ''insufficient'' reason (Some decision))"

definition gate_op :: "string \<Rightarrow> rat \<Rightarrow> rat \<Rightarrow> bool" where
  "gate_op x value threshold = (if x = ''gte'' then value \<ge> threshold else if x = ''lte'' then value \<le> threshold
     else if x = ''gt'' then value > threshold else value < threshold)"

text \<open>\<^verbatim>\<open>round(x, 6)\<close> of a float\<close>

fun round6 :: "pyfloat \<Rightarrow> pyfloat" where
  "round6 (FFin q) = round_double (py_round q 6)"
| "round6 f = f"

definition delta :: "metric_definition \<Rightarrow> rat \<Rightarrow> rat \<Rightarrow> pyfloat" where
  "delta d base value = (if md_direction d = ''gte'' then float_sub (FFin base) (FFin value) else float_sub (FFin value) (FFin base))"

definition evaluate_delta :: "gate_inputs \<Rightarrow> gate_rule \<Rightarrow> metric_definition \<Rightarrow> string \<Rightarrow> rat \<Rightarrow> rule_result" where
  "evaluate_delta gi rule d metric_id value =
     (if gi_baseline gi = None \<or> gi_baseline_ref gi = None then
        finish rule ''insufficient'' [Txt ''baseline_delta requires a baseline report''] (Some INSUFFICIENT_EVIDENCE)
      else case metric_value (the (gi_baseline gi)) metric_id of
        Inl reason \<Rightarrow> finish rule ''insufficient'' (Txt ''baseline metric unavailable: '' # reason) (Some INSUFFICIENT_EVIDENCE)
      | Inr base \<Rightarrow>
          (let regression = delta d base value;
               limit = (case gr_max_regression rule of None \<Rightarrow> 0 | Some x \<Rightarrow> x);
               note = (if base = 0 then '' (baseline=0: relative regression treated as absolute delta)'' else []);
               passed = float_le regression (FFin limit)
           in finish rule (if passed then ''pass'' else ''fail'')
                [Txt (qualified_id metric_id d @ '' regression ''), Val (PFloat (round6 regression)),
                 Txt (if passed then '' <= '' else '' > ''), Val (PFloat (FFin limit)), Txt note]
                (if passed then None else Some QUALITY_FAIL)))"

definition evaluate_threshold :: "gate_rule \<Rightarrow> metric_definition \<Rightarrow> string \<Rightarrow> rat \<Rightarrow> rule_result" where
  "evaluate_threshold rule d metric_id value = (case (gr_threshold rule, gr_operator rule) of
       (Some t, Some x) \<Rightarrow>
         (let passed = gate_op x value t;
              verdict = [Txt (qualified_id metric_id d @ ''=''), Val (PFloat (FFin value)),
                Txt ('' ('' @ md_unit d @ '') '' @ x @ '' ''), Val (PFloat (FFin t))]
          in finish rule (if passed then ''pass'' else ''fail'') (if passed then verdict else verdict @ [Txt '' NOT satisfied''])
               (if passed then None else Some QUALITY_FAIL))
     | _ \<Rightarrow> finish rule ''pass'' [Txt (qualified_id metric_id d @ ''=''), Val (PFloat (FFin value)), Txt '' observed and known''] None)"

definition evaluate_metric_rule :: "pairwise_view \<Rightarrow> gate_inputs \<Rightarrow> gate_rule \<Rightarrow> gate_error + rule_result" where
  "evaluate_metric_rule pw gi rule =
     (let metric_id = (case gr_metric rule of None \<Rightarrow> [] | Some m \<Rightarrow> m);
          pairwise_rule = (pw_policy pw \<and> gr_kind rule = ''metric_threshold'');
          resolved = (if pairwise_rule then pw_resolved pw else metric_value (gi_snapshot gi) metric_id);
          found = (if pairwise_rule then lookup_metric ''metric-registry@2'' ''pairwise_challenger_score@1''
            else lookup_metric METRIC_REGISTRY_VERSION metric_id)
      in case found of
           None \<Rightarrow> Inr (finish rule ''insufficient'' (case resolved of Inl reason \<Rightarrow> reason | Inr _ \<Rightarrow> []) (Some INSUFFICIENT_EVIDENCE))
         | Some d \<Rightarrow> (case rule_direction_reason rule d of
               Some reason \<Rightarrow> Inl (GateInputError ''RULE_DIRECTION_INVALID'' reason)
             | None \<Rightarrow> Inr (case resolved of
                   Inl reason \<Rightarrow> finish_missing rule reason INSUFFICIENT_EVIDENCE
                 | Inr value \<Rightarrow>
                     if gr_kind rule = ''baseline_delta'' then evaluate_delta gi rule d metric_id value
                     else evaluate_threshold rule d metric_id value)))"

definition coverage_problems :: "rat option \<Rightarrow> int option \<Rightarrow> gate_rule \<Rightarrow> fstr list" where
  "coverage_problems coverage denominator rule =
     (case gr_min_coverage rule of
        None \<Rightarrow> []
      | Some m \<Rightarrow> (case coverage of
            None \<Rightarrow> [[Txt ''coverage missing (empty denominator)'']]
          | Some c \<Rightarrow> if c < m then [[Txt ''coverage '', Val (PFloat (FFin c)), Txt '' < required '', Val (PFloat (FFin m))]] else []))
     @ (case (gr_min_samples rule, denominator) of
          (Some n, Some k) \<Rightarrow> if k < n then [[Txt ''samples '', Num k, Txt '' < required '', Num n]] else []
        | _ \<Rightarrow> [])"

fun join_parts :: "string \<Rightarrow> fstr list \<Rightarrow> fstr" where
  "join_parts sep [] = []"
| "join_parts sep [x] = x"
| "join_parts sep (x # xs) = x @ Txt sep # join_parts sep xs"

definition evaluate_coverage :: "pairwise_view \<Rightarrow> gate_inputs \<Rightarrow> gate_rule \<Rightarrow> rule_result" where
  "evaluate_coverage pw gi rule =
     (let counts = gs_counts (gi_snapshot gi);
          coverage = (if pw_policy pw then (if isl (pw_resolved pw) then None else pw_coverage pw) else gs_coverage (gi_snapshot gi));
          denominator = (if pw_policy pw then pw_pairs pw else Some (case map_of counts ''selected'' of Some n \<Rightarrow> n
            | None \<Rightarrow> (case map_of counts ''judged'' of Some n \<Rightarrow> n | None \<Rightarrow> 0)));
          problems = coverage_problems coverage denominator rule
      in if problems \<noteq> [] then finish_missing rule (join_parts ''; '' problems) INSUFFICIENT_EVIDENCE
         else finish rule ''pass'' [Txt ''coverage '', Val (case coverage of None \<Rightarrow> PNone | Some c \<Rightarrow> PFloat (FFin c)),
           Txt '' and samples '', Val (case denominator of None \<Rightarrow> PNone | Some n \<Rightarrow> PInt n), Txt '' satisfy minimums''] None)"

definition evaluate_critical :: "gate_inputs \<Rightarrow> gate_rule \<Rightarrow> rule_result" where
  "evaluate_critical gi rule =
     (let outcome = case_outcome (gi_snapshot gi);
          failures = filter (\<lambda>c. outcome c = Some ''fail'') (gr_critical rule);
          insufficient = map (\<lambda>c. if outcome c = Some ''unknown'' then c else c @ '' (missing/no-expectation)'')
            (filter (\<lambda>c. outcome c \<notin> {Some ''pass'', Some ''fail''}) (gr_critical rule));
          parts = (if failures = [] then [] else [[Txt (''failed: '' @ join_with '','' failures)]])
            @ (if insufficient = [] then [] else [[Txt (''unknown/missing: '' @ join_with '','' insufficient)]])
      in if failures \<noteq> [] then finish rule ''fail'' (Txt ''critical cases '' # join_parts ''; '' parts) (Some QUALITY_FAIL)
         else if insufficient \<noteq> [] then finish_missing rule (Txt ''critical cases '' # join_parts ''; '' parts) INSUFFICIENT_EVIDENCE
         else finish rule ''pass'' [Txt (''all critical cases passed: '' @ join_with '','' (gr_critical rule))] None)"

definition evaluate_identity :: "gate_inputs \<Rightarrow> gate_rule \<Rightarrow> rule_result" where
  "evaluate_identity gi rule = (case ge_model_identity (gi_evidence gi) of
       None \<Rightarrow> finish rule ''insufficient''
         [Txt ''actual model identity not reported (requested model never substitutes for the reported one)''] (Some INSUFFICIENT_EVIDENCE)
     | Some reported \<Rightarrow>
         if Some reported \<noteq> gr_expected rule then
           finish rule ''fail'' [Txt ''actual model identity '', Rep (PStr reported), Txt '' != expected '',
             Rep (case gr_expected rule of None \<Rightarrow> PNone | Some x \<Rightarrow> PStr x)] (Some QUALITY_FAIL)
         else finish rule ''pass'' [Txt ''actual model identity '', Rep (PStr reported), Txt '' matches''] None)"

text \<open>\<^verbatim>\<open>marker if isinstance(marker, int) else len(marker)\<close>\<close>

fun marker_count :: "pyval \<Rightarrow> gate_error + int" where
  "marker_count (PInt n) = Inr n"
| "marker_count (PBool b) = Inr (of_bool b)"
| "marker_count (PStr s) = Inr (int (length s))"
| "marker_count (PList xs) = Inr (int (length xs))"
| "marker_count (PDict d) = Inr (int (length d))"
| "marker_count _ = Inl GateTypeError"

definition evaluate_marker :: "gate_inputs \<Rightarrow> gate_rule \<Rightarrow> gate_error + rule_result" where
  "evaluate_marker gi rule =
     (let effects = (gr_kind rule = ''no_side_effect'');
          key = (if effects then ''side_effect_violations'' else ''safety_markers'');
          marker = (if effects then ge_side_effects (gi_evidence gi) else ge_safety (gi_evidence gi))
      in if marker = PNone then Inr (finish rule ''insufficient''
             [Txt (key @ '' not observable from the fixed report (absence of evidence is not evidence of absence)'')] (Some INSUFFICIENT_EVIDENCE))
         else if effects then res_bind (marker_count marker) (\<lambda>count. Inr (
             if count \<noteq> 0 then finish rule ''fail'' [Num count, Txt '' side-effect violation(s) observed''] (Some SAFETY_BLOCK)
             else finish rule ''pass'' [Txt ''no side-effect violations observed''] None))
         else (let markers = (case marker of PList xs \<Rightarrow> xs | _ \<Rightarrow> [marker]) in
             Inr (if markers \<noteq> [] then finish rule ''fail''
                 (Txt ''safety markers present: '' # join_parts '','' (map (\<lambda>m. [Val m]) markers)) (Some SAFETY_BLOCK)
               else finish rule ''pass'' [Txt ''no safety markers present''] None)))"

definition evaluate_rule :: "pairwise_view \<Rightarrow> gate_policy \<Rightarrow> gate_inputs \<Rightarrow> gate_rule \<Rightarrow> gate_error + rule_result" where
  "evaluate_rule pw policy gi rule =
     (if gr_requires_run rule \<and> gi_run_status gi \<noteq> ''completed'' then
        Inr (finish rule ''fail'' [Txt ''run status '', Rep (PStr (gi_run_status gi)),
          Txt '' is not completed; execution error does not overwrite scores but blocks release''] (Some EXECUTION_ERROR))
      else if gr_experimental rule \<and> \<not> gp_diagnostic policy then
        Inr (finish rule ''insufficient''
          [Txt ''experimental evidence source (uncalibrated judge / unknown runtime identity) is fail-closed in formal gates'']
          (Some INSUFFICIENT_EVIDENCE))
      else case comparability_gate rule (gi_level gi) (gi_eligibility gi) of
        Some (reason, decision) \<Rightarrow> Inr (finish_missing rule reason decision)
      | None \<Rightarrow>
          if gr_kind rule \<in> {''metric_threshold'', ''baseline_delta'', ''cost'', ''latency''} then evaluate_metric_rule pw gi rule
          else if gr_kind rule = ''coverage'' then Inr (evaluate_coverage pw gi rule)
          else if gr_kind rule = ''critical_case'' then Inr (evaluate_critical gi rule)
          else if gr_kind rule = ''model_identity'' then Inr (evaluate_identity gi rule)
          else if gr_kind rule \<in> {''no_side_effect'', ''safety_marker''} then evaluate_marker gi rule
          else Inr (finish rule ''not_applicable'' [Txt ''rule kind '', Rep (PStr (gr_kind rule)), Txt '' not wired''] None))"

section \<open>Policies on the pairwise metric\<close>

definition references_pairwise_quality :: "gate_policy \<Rightarrow> bool" where
  "references_pairwise_quality policy \<longleftrightarrow> list_ex (\<lambda>r. case gr_metric r of None \<Rightarrow> False
     | Some m \<Rightarrow> take 25 m = ''pairwise_challenger_score'') (gp_rules policy)"

definition UNSUPPORTED_METRICS :: "string list" where
  "UNSUPPORTED_METRICS = [''pass_at_k'', ''pass@k'', ''paired_difference'', ''paired_inference'']"

definition pairwise_identity :: "string option \<Rightarrow> string option \<Rightarrow> bool" where
  "pairwise_identity metric_id version \<longleftrightarrow> metric_id = Some ''pairwise_challenger_score@1'' \<and> (version = None \<or> version = Some ''1'') \<or>
     metric_id = Some ''pairwise_challenger_score'' \<and> version = Some ''1''"

definition pairwise_invalid :: "string \<Rightarrow> gate_error" where
  "pairwise_invalid m = GateInputError ''PAIRWISE_POLICY_INVALID'' [Txt m]"

definition pairwise_unsupported :: "string \<Rightarrow> gate_error" where
  "pairwise_unsupported m = GateInputError ''PAIRWISE_POLICY_UNSUPPORTED'' [Txt m]"

definition pairwise_ratio :: "string \<Rightarrow> rat option \<Rightarrow> gate_error + unit" where
  "pairwise_ratio label value = (if value \<noteq> None \<and> is_ratio (the value) then Inr ()
     else Inl (pairwise_invalid (label @ '' requires an explicit finite non-Boolean number in [0,1]'')))"

definition check_pairwise_threshold :: "gate_rule \<Rightarrow> gate_error + unit" where
  "check_pairwise_threshold r =
     (if gr_min_samples r \<noteq> None \<or> gr_min_coverage r \<noteq> None then
        Inl (pairwise_invalid ''pairwise sample/coverage limits require an explicit coverage rule'')
      else if ''operator'' \<notin> set (gr_explicit r) \<or> gr_operator r \<noteq> Some ''gte'' then
        Inl (pairwise_invalid ''pairwise threshold operator must be explicitly gte'')
      else if ''threshold'' \<notin> set (gr_explicit r) then Inl (pairwise_invalid ''pairwise threshold must be explicitly supplied'')
      else pairwise_ratio ''pairwise threshold'' (gr_threshold r))"

definition check_pairwise_coverage :: "gate_rule \<Rightarrow> gate_error + unit" where
  "check_pairwise_coverage r =
     (if ''min_coverage'' \<notin> set (gr_explicit r) then Inl (pairwise_invalid ''pairwise coverage must be explicitly supplied'')
      else res_bind (pairwise_ratio ''pairwise coverage'' (gr_min_coverage r)) (\<lambda>_.
        if gr_min_coverage r \<noteq> Some 1 then Inl (pairwise_invalid ''pairwise coverage must be exactly 1.0'')
        else if (case gr_min_samples r of None \<Rightarrow> False | Some n \<Rightarrow> n \<le> 0) then
          Inl (pairwise_invalid ''pairwise min_samples must be a positive strict integer'')
        else Inr ()))"

text \<open>One round of the loop over the rules.\<close>

definition check_pairwise_rule :: "gate_rule \<Rightarrow> gate_error + unit" where
  "check_pairwise_rule r =
     (let metric_id = (case gr_metric r of None \<Rightarrow> [] | Some m \<Rightarrow> m); selected = pairwise_identity (gr_metric r) (gr_metric_version r) in
      if list_ex (\<lambda>n. metric_id = n \<or> take (length n + 1) metric_id = n @ ''@'') UNSUPPORTED_METRICS then
        Inl (pairwise_unsupported ''pairwise paired inference and pass@k are unsupported'')
      else if gr_kind r \<in> {''baseline_delta'', ''critical_case'', ''paired_inference'', ''pass_at_k''} \<or> gr_comparability r \<noteq> None \<or>
          gr_max_regression r \<noteq> None \<or> gr_critical r \<noteq> [] then
        Inl (pairwise_unsupported ''pairwise comparison and critical-case rules are unsupported'')
      else if gr_kind r \<in> {''metric_threshold'', ''coverage''} \<or> selected \<or> take 25 metric_id = ''pairwise_challenger_score'' then
        (if \<not> selected then Inl (pairwise_invalid ''pairwise quality/coverage requires the explicit pairwise metric version 1'')
         else if ''metric_id'' \<notin> set (gr_explicit r) \<or>
             gr_metric r = Some ''pairwise_challenger_score'' \<and> ''metric_version'' \<notin> set (gr_explicit r) then
           Inl (pairwise_invalid ''pairwise quality/coverage requires explicitly supplied metric identity'')
         else if gr_kind r \<notin> {''metric_threshold'', ''coverage''} then
           Inl (pairwise_invalid ''pairwise metric supports only threshold and coverage rules'')
         else if gr_severity r \<noteq> ''block'' \<or> gr_missing r \<noteq> ''fail_closed'' then
           Inl (pairwise_invalid ''pairwise quality/coverage requires blocking, fail-closed rules'')
         else if gr_kind r = ''metric_threshold'' then check_pairwise_threshold r else check_pairwise_coverage r)
      else Inr ())"

definition validate_pairwise_quality_policy :: "gate_policy \<Rightarrow> gate_error + unit" where
  "validate_pairwise_quality_policy policy =
     (if gp_diagnostic policy then Inl (pairwise_invalid ''pairwise quality policy cannot be diagnostic'')
      else if gp_rules policy = [] then Inl (pairwise_invalid ''pairwise policy requires a blocking quality threshold rule'')
      else res_bind (res_map check_pairwise_rule (gp_rules policy)) (\<lambda>_.
        if \<not> list_ex (\<lambda>r. gr_kind r = ''metric_threshold'') (gp_rules policy) then
          Inl (pairwise_invalid ''pairwise policy requires a blocking quality threshold rule'')
        else case policy_problem policy of
          Some m \<Rightarrow> Inl (GateInputError ''PAIRWISE_POLICY_INVALID'' (Txt ''invalid pairwise policy contract: '' # m))
        | None \<Rightarrow> Inr ()))"

definition view_pairwise :: "(pyval \<Rightarrow> string) \<Rightarrow> (pyval \<Rightarrow> bool) \<Rightarrow> bool \<Rightarrow> gate_inputs \<Rightarrow> pairwise_view" where
  "view_pairwise canonical_hash binding_ok paired gi =
     (if \<not> paired then \<lparr>pw_policy = False, pw_resolved = Inl [], pw_coverage = None, pw_pairs = None, pw_eligible = False, pw_reason = []\<rparr>
      else
        (let s = gi_snapshot gi; ref = (case gs_ref s of None \<Rightarrow> gi_ref gi | Some r \<Rightarrow> r);
             candidate = (case map_of (ge_qualifications (gi_evidence gi)) ''candidate'' of None \<Rightarrow> PNone | Some v \<Rightarrow> v);
             qualification = pairwise_qualification binding_ok candidate (gs_quality s)
         in \<lparr>pw_policy = True,
             pw_resolved = (if ref = gi_ref gi then resolve_pairwise_gate_metric canonical_hash ref (gs_registry s) (gs_quality s)
               else Inl [Txt ''pairwise selected source/report binding mismatch'']),
             pw_coverage = Option.bind (gs_quality s) pq_coverage,
             pw_pairs = (case gs_quality s of None \<Rightarrow> Some 0 | Some q \<Rightarrow> if pq_planned_pairs q < 0 then None else Some (pq_planned_pairs q)),
             pw_eligible = fst qualification, pw_reason = snd qualification\<rparr>))"

section \<open>The verdict\<close>

definition qualification_result :: "string \<Rightarrow> bool \<Rightarrow> fstr \<Rightarrow> rule_result" where
  "qualification_result rule_id eligible reason =
     \<lparr>rs_id = rule_id, rs_kind = ''judge_qualification'', rs_status = (if eligible then ''pass'' else ''insufficient''),
      rs_severity = ''block'', rs_decision = (if eligible then None else Some INSUFFICIENT_EVIDENCE), rs_reason = reason, rs_skipped = False\<rparr>"

text \<open>One round of the loop over the roles.\<close>

definition role_result :: "pairwise_view \<Rightarrow> string \<times> pyval \<Rightarrow> rule_result list" where
  "role_result pw item = (case item of
       (role, PDict d) \<Rightarrow>
         if \<not> (pw_policy pw \<and> role = ''candidate'') \<and> py_truthy (dget d ''required'') then
           [qualification_result (if role = ''candidate'' then ''judge_qualification'' else ''baseline_judge_qualification'')
              (dget d ''gate_eligible'' = PBool True)
              [Val (if py_truthy (dget d ''reason'') then dget d ''reason'' else PStr ''Judge qualification unknown'')]]
         else []
     | _ \<Rightarrow> [])"

definition qualification_results :: "pairwise_view \<Rightarrow> gate_inputs \<Rightarrow> rule_result list" where
  "qualification_results pw gi =
     (if pw_policy pw then [qualification_result ''judge_qualification'' (pw_eligible pw) (pw_reason pw)] else [])
     @ concat (map (role_result pw) (ge_qualifications (gi_evidence gi)))"

definition BOOLEAN_QUALITY_METRICS :: "string list" where
  "BOOLEAN_QUALITY_METRICS = [''accuracy'', ''judged_accuracy'', ''valid_trial_pass_rate'', ''cost.per_success_usd'']"

definition pairwise_unavailable :: "gate_policy \<Rightarrow> gate_inputs \<Rightarrow> bool" where
  "pairwise_unavailable policy gi \<longleftrightarrow>
     list_ex (\<lambda>(_, q). case q of PDict d \<Rightarrow> dget d ''mode'' = PStr ''pairwise'' | _ \<Rightarrow> False) (ge_qualifications (gi_evidence gi)) \<and>
     list_ex (\<lambda>r. gr_kind r = ''critical_case'' \<or> (\<exists>m \<in> set BOOLEAN_QUALITY_METRICS. gr_metric r = Some m)) (gp_rules policy)"

definition unavailable_result :: rule_result where
  "unavailable_result = \<lparr>rs_id = ''pairwise_quality_unavailable'', rs_kind = ''quality_availability'', rs_status = ''insufficient'',
     rs_severity = ''block'', rs_decision = Some INSUFFICIENT_EVIDENCE,
     rs_reason = [Txt ''pairwise preference has no supported Boolean quality metric''], rs_skipped = False\<rparr>"

definition aggregate_decision :: "rule_result list \<Rightarrow> gate_decision" where
  "aggregate_decision results =
     (let decision = decide (map rs_decision (filter (\<lambda>r. rs_severity r = ''block'') results)) in
      if decision = PASS \<and> list_ex rs_skipped results then INSUFFICIENT_EVIDENCE else decision)"

definition suggested_actions :: "gate_decision \<Rightarrow> string list" where
  "suggested_actions decision =
     (if decision \<in> {INSUFFICIENT_EVIDENCE, NOT_COMPARABLE} then
        [''collect the missing evidence or re-score both sides from the same frozen evidence into a common scoring pass (explicit, possibly paid; never triggered automatically by the gate)'']
      else [])
     @ (if decision = EXECUTION_ERROR then
        [''inspect the failing run; an explicit retry creates a superseding child run and preserves the original result''] else [])"

record gate_result =
  gt_policy :: string
  gt_version :: string
  gt_decision :: gate_decision
  gt_results :: "rule_result list"
  gt_suggested :: "string list"

definition evaluate_gate_policy ::
    "(pyval \<Rightarrow> string) \<Rightarrow> (pyval \<Rightarrow> bool) \<Rightarrow> gate_policy \<Rightarrow> gate_inputs \<Rightarrow> gate_error + gate_result" where
  "evaluate_gate_policy canonical_hash binding_ok policy gi =
     (let paired = references_pairwise_quality policy in
      res_bind (if paired then validate_pairwise_quality_policy policy else Inr ()) (\<lambda>_.
      if paired \<and> (gi_baseline_ref gi \<noteq> None \<or> gi_baseline gi \<noteq> None \<or> gi_level gi \<noteq> None) then
        Inl (GateInputError ''PAIRWISE_POLICY_UNSUPPORTED'' [Txt ''pairwise baseline comparison is unsupported''])
      else
        (let pw = view_pairwise canonical_hash binding_ok paired gi in
         res_bind (res_map (evaluate_rule pw policy gi) (gp_rules policy)) (\<lambda>rules.
           let results = rules @ qualification_results pw gi @ (if pairwise_unavailable policy gi then [unavailable_result] else []);
               decision = aggregate_decision results
           in Inr \<lparr>gt_policy = gp_id policy, gt_version = gp_version policy, gt_decision = decision, gt_results = results,
                gt_suggested = suggested_actions decision\<rparr>))))"

end
