(* ===== verification/Frozen_Store.thy ===== *)
theory Frozen_Store
  imports Run_Repository Conditions
begin

text \<open>
  What the stores of published records (gate policies and results, baselines, experiments, trials) have in
  common: a record that was published stays, and changes only as its kind allows.  The locale states the
  contract; the theories of the stores interpret it for both backends.  Also here: reading fields and
  limits of listings.
\<close>

section \<open>Fields\<close>

text \<open>The string at a key that was validated.\<close>

definition dstr :: "pydict \<Rightarrow> string \<Rightarrow> string" where
  "dstr d k = (case dget d k of PStr s \<Rightarrow> s | _ \<Rightarrow> [])"

lemma nonempty_strD: "nonempty_str (dget d k) \<Longrightarrow> dget d k = PStr (dstr d k)"
  by (cases "dget d k") (simp_all add: dstr_def)

lemma dstr_jnorm_dict [simp]: "dstr (jnorm_dict d) k = dstr d k"
proof -
  have "dget (jnorm_dict d) k = PStr s \<longleftrightarrow> dget d k = PStr s" for s by (simp add: dget_jnorm_dict)
  then show ?thesis unfolding dstr_def by (cases "dget d k"; cases "dget (jnorm_dict d) k") auto
qed

lemma content_eq_dget: "content d k = None \<longleftrightarrow> map_of d k = None"
  by (simp add: content_def)

definition is_dict :: "pyval \<Rightarrow> bool" where
  "is_dict v = (case v of PDict _ \<Rightarrow> True | _ \<Rightarrow> False)"

text \<open>\<^verbatim>\<open>list(v)\<close>: a dictionary gives its keys, a string its characters.\<close>

definition py_iter :: "pyval \<Rightarrow> exn + pyval list" where
  "py_iter v = (case v of
       PList xs \<Rightarrow> Inr xs
     | PStr s \<Rightarrow> Inr (map (\<lambda>ch. PStr [ch]) s)
     | PDict d \<Rightarrow> Inr (map (PStr \<circ> fst) d)
     | _ \<Rightarrow> Inl (TypeError ''object is not iterable''))"

text \<open>\<^verbatim>\<open>list(v or [])\<close>\<close>

definition list_or_empty :: "pyval \<Rightarrow> exn + pyval list" where
  "list_or_empty v = (if \<not> py_truthy v then Inr [] else py_iter v)"

text \<open>The limit of a listing: \<^verbatim>\<open>None\<close> or a nonnegative integer.\<close>

definition check_limit :: "int option \<Rightarrow> exn + unit" where
  "check_limit limit = (case limit of
       None \<Rightarrow> Inr ()
     | Some n \<Rightarrow> if n < 0 then Inl (ValueError ''limit must be a nonnegative integer or None'') else Inr ())"

definition take_limit :: "int option \<Rightarrow> 'a list \<Rightarrow> 'a list" where
  "take_limit limit xs = (case limit of None \<Rightarrow> xs | Some n \<Rightarrow> take (nat n) xs)"

text \<open>An exception of a plain class, or one with a class or code and a composed message.\<close>

datatype store_exn = Plain exn | Coded string fstr

definition plain :: "exn + 'a \<Rightarrow> store_exn + 'a" where
  "plain r = map_sum Plain id r"

lemma plain_simps [simp]: "plain (Inr x) = Inr x" "plain (Inl e) = Inl (Plain e)"
  by (simp_all add: plain_def)

lemma plain_Inr [simp]: "plain r = Inr x \<longleftrightarrow> r = Inr x"
  by (cases r) (simp_all add: plain_def)

section \<open>The contract\<close>

text \<open>
  \<open>evolved change\<close> relates two views: every record of the first is in the second, changed at most as
  \<open>change\<close> allows.
\<close>

definition evolved :: "('k \<Rightarrow> 'v \<Rightarrow> 'v \<Rightarrow> bool) \<Rightarrow> ('k \<Rightarrow> 'v option) \<Rightarrow> ('k \<Rightarrow> 'v option) \<Rightarrow> bool" where
  "evolved change a b \<longleftrightarrow> (\<forall>k v. a k = Some v \<longrightarrow> (\<exists>w. b k = Some w \<and> change k v w))"

lemma evolvedD: "evolved change a b \<Longrightarrow> a k = Some v \<Longrightarrow> \<exists>w. b k = Some w \<and> change k v w"
  by (simp add: evolved_def)

locale frozen_store =
  fixes exec :: "'op \<Rightarrow> ('s, 'e, 'o) sop"
    and inv :: "'s \<Rightarrow> bool"
    and view :: "'s \<Rightarrow> 'k \<Rightarrow> 'v option"
    and change :: "'k \<Rightarrow> 'v \<Rightarrow> 'v \<Rightarrow> bool"
  assumes exec_inv: "inv s \<Longrightarrow> inv (snd (exec op s))"
    and change_refl: "change k v v"
    and change_trans: "change k u v \<Longrightarrow> change k v w \<Longrightarrow> change k u w"
    and exec_evolved: "inv s \<Longrightarrow> evolved change (view s) (view (snd (exec op s)))"
begin

lemma evolved_refl: "evolved change a a"
  by (auto simp: evolved_def change_refl)

lemma evolved_trans: "evolved change a b \<Longrightarrow> evolved change b c \<Longrightarrow> evolved change a c"
  unfolding evolved_def by (meson change_trans)

lemma frozen_script:
  "inv s \<Longrightarrow> inv (snd (exec_all exec ops s)) \<and> evolved change (view s) (view (snd (exec_all exec ops s)))"
proof (induction ops arbitrary: s)
  case (Cons op ops)
  have "inv (snd (exec op s))" by (rule exec_inv [OF Cons.prems])
  from Cons.IH [OF this] show ?case
    using evolved_trans [OF exec_evolved [OF Cons.prems, of op]] by (simp add: split_def)
qed (simp add: evolved_refl)

lemma frozen: "inv s \<Longrightarrow> evolved change (view s) (view (snd (exec_all exec ops s)))"
  by (simp add: frozen_script)

end

text \<open>
  Two ways a dictionary of records evolves: a fresh key is added, or the record of a key is changed.
\<close>

lemma evolved_update:
  assumes "\<And>k v. change k v v" "a k = None \<or> (\<exists>v. a k = Some v \<and> change k v w)"
  shows "evolved change a (a(k \<mapsto> w))"
  using assms by (auto simp: evolved_def)

lemma evolved_same: "(\<And>k v. change k v v) \<Longrightarrow> b = a \<Longrightarrow> evolved change a b"
  by (auto simp: evolved_def)

text \<open>Looking up in a table after its rows with a key were rewritten.\<close>

lemma map_of_rewrite:
  "map_of (map (\<lambda>(j, p). if j = k then (j, f p) else (j, p)) rows) i = (if i = k then map_option f (map_of rows i) else map_of rows i)"
  by (induction rows) auto

lemma map_of_append_fresh: "map_of rows k = None \<Longrightarrow> map_of (rows @ [(k, v)]) = (map_of rows)(k \<mapsto> v)"
  by (auto simp: fun_eq_iff map_add_def split: option.splits)

section \<open>Counting the calls of a script\<close>

text \<open>
  The calls that are \<open>p\<close> of themselves and their results.  When every call of \<open>gain\<close> costs one unit of a
  potential and only calls of \<open>refund\<close> give one back, a script has no more gains than the potential it
  starts with and its refunds.
\<close>

definition count_calls :: "('op \<Rightarrow> 'r \<Rightarrow> bool) \<Rightarrow> 'op list \<Rightarrow> 'r list \<Rightarrow> nat" where
  "count_calls p ops rs = length (filter (\<lambda>(op, r). p op r) (zip ops rs))"

lemma count_calls_simps [simp]:
  "count_calls p [] rs = 0" "count_calls p (op # ops) (r # rs) = of_bool (p op r) + count_calls p ops rs"
  by (simp_all add: count_calls_def)

lemma count_bound:
  assumes step: "\<And>op s. of_bool (gain op (fst (exec op s))) + pot (snd (exec op s)) \<le> pot s + of_bool (refund op (fst (exec op s)))"
  shows "count_calls gain ops (fst (exec_all exec ops s)) \<le> pot s + count_calls refund ops (fst (exec_all exec ops s))"
proof (induction ops arbitrary: s)
  case (Cons op ops)
  show ?case using step [of op s] Cons.IH [of "snd (exec op s)"] by (simp add: split_def)
qed simp

end
