(* ===== verification/Comparison.thy ===== *)
theory Comparison
  imports Gate_Engine Frozen_Store
begin

text \<open>
  Whether two run reports may be compared: \<^verbatim>\<open>packages/evaluators/motte_eval/comparison.py\<close>.  Two frozen manifests are
  compared condition by condition; every difference is either a reason that blocks the comparison or a
  difference the policy allows by name.  Manifests are JSON objects; \<open>pystr\<close> stands for \<^verbatim>\<open>str()\<close> of a value.
\<close>

section \<open>Reading a manifest\<close>

text \<open>\<^verbatim>\<open>(v or {}).get(k)\<close>\<close>

definition or_dict_get :: "pyval \<Rightarrow> string \<Rightarrow> exn + pyval" where
  "or_dict_get v k =
     (if \<not> py_truthy v then Inr PNone else case v of PDict d \<Rightarrow> Inr (dget d k) | _ \<Rightarrow> Inl (AttributeError ''get''))"

text \<open>A dictionary, or an empty one in place of anything else.\<close>

definition dict_or_empty :: "pyval \<Rightarrow> pydict" where
  "dict_or_empty v = (case v of PDict d \<Rightarrow> d | _ \<Rightarrow> [])"

definition external_of :: "pydict \<Rightarrow> pydict" where
  "external_of manifest = dict_or_empty (dget manifest ''external_benchmark'')"

definition profile_of :: "pydict \<Rightarrow> pydict" where
  "profile_of manifest = dict_or_empty (dget (external_of manifest) ''profile'')"

definition PROFILE_INVARIANTS :: "(string \<times> string \<times> string list) list" where
  "PROFILE_INVARIANTS =
     [(''benchmark_id'', ''BENCHMARK_IDENTITY_CHANGED'', [''profile'']),
      (''benchmark_version'', ''BENCHMARK_IDENTITY_CHANGED'', [''profile'']),
      (''dataset_revision'', ''DATASET_REVISION_CHANGED'', [''profile'', ''external'']),
      (''split'', ''SPLIT_CHANGED'', [''profile'']),
      (''few_shot'', ''FEWSHOT_CHANGED'', [''profile'']),
      (''prompt_template_version'', ''EXTRACTOR_OR_PROMPT_CHANGED'', [''profile'']),
      (''answer_extractor'', ''EXTRACTOR_OR_PROMPT_CHANGED'', [''profile'']),
      (''extractor_version'', ''EXTRACTOR_OR_PROMPT_CHANGED'', [''profile'']),
      (''aggregation'', ''AGGREGATION_CHANGED'', [''profile'']),
      (''aggregation_version'', ''AGGREGATION_CHANGED'', [''profile'']),
      (''seed'', ''SEED_CHANGED'', [''profile'']),
      (''runner_version'', ''RUNNER_CHANGED'', [''profile'', ''external'']),
      (''environment_digest'', ''ENVIRONMENT_CHANGED'', [''profile'', ''external'']),
      (''agent_id'', ''AGENT_CHANGED'', [''profile'']),
      (''agent_version'', ''AGENT_CHANGED'', [''profile'']),
      (''n_trials'', ''REPEATS_CHANGED'', [''profile'']),
      (''timeouts'', ''TIMEOUTS_CHANGED'', [''profile'']),
      (''resources'', ''RESOURCES_CHANGED'', [''profile'']),
      (''tools'', ''TOOLS_CHANGED'', [''profile'']),
      (''retries'', ''RETRIES_CHANGED'', [''profile'']),
      (''limits'', ''LIMITS_CHANGED'', [''profile'']),
      (''environment'', ''ENVIRONMENT_CHANGED'', [''profile'']),
      (''credentials'', ''CREDENTIALS_CHANGED'', [''profile''])]"

fun invariant_value :: "pydict \<Rightarrow> pydict \<Rightarrow> string \<Rightarrow> string list \<Rightarrow> pyval" where
  "invariant_value profile external field [] = PNone"
| "invariant_value profile external field (source # sources) =
     (let value = dget (if source = ''profile'' then profile else external) field in
      if value \<noteq> PNone then value else invariant_value profile external field sources)"

definition model_identity :: "(pyval \<Rightarrow> string) \<Rightarrow> pydict \<Rightarrow> exn + pyval" where
  "model_identity pystr manifest =
     (let profile_model = dict_or_empty (dget (profile_of manifest) ''model'') in
      if py_truthy (dget profile_model ''model'') then
        Inr (PDict [(''provider'', dget profile_model ''provider''), (''model'', dget profile_model ''model'')])
      else case dget manifest ''runtime_profile'' of
        PDict runtime_profile \<Rightarrow>
          res_bind (or_dict_get (dget runtime_profile ''native_settings'') ''model'') (\<lambda>native_model.
          Inr (if py_truthy native_model then PStr (pystr native_model) else dget manifest ''model''))
      | _ \<Rightarrow> Inr (dget manifest ''model''))"

text \<open>\<^verbatim>\<open>dict(v or {})\<close> of settings, which the profile's contract has as an object.\<close>

definition native_dict :: "pyval \<Rightarrow> exn + pydict" where
  "native_dict v = (if \<not> py_truthy v then Inr [] else case v of PDict d \<Rightarrow> Inr d | _ \<Rightarrow> Inl (TypeError ''native_settings''))"

definition runtime_identity :: "pydict \<Rightarrow> exn + pyval" where
  "runtime_identity manifest =
     (let runtime = dget manifest ''runtime''; given = dget manifest ''runtime_profile''; profile = dict_or_empty given;
          named = (case runtime of PStr _ \<Rightarrow> True | _ \<Rightarrow> False) in
      if \<not> named \<and> \<not> is_dict given then Inr PNone
      else res_bind (native_dict (dget profile ''native_settings'')) (\<lambda>native.
        Inr (PDict [(''runtime'', if named then runtime else PNone),
          (''native_settings'', PDict (filter (\<lambda>(k, _). k \<noteq> ''model'') native)),
          (''budgets'', dget profile ''budgets''), (''workspace'', dget profile ''workspace''),
          (''credential_refs'', dget profile ''credential_refs'')])))"

definition agent_config_identity :: "pydict \<Rightarrow> pyval" where
  "agent_config_identity manifest = (case dget manifest ''agent_config'' of
       PDict config \<Rightarrow> (let stripped = filter (\<lambda>(k, _). k \<noteq> ''budget'') config in if stripped = [] then PNone else PDict stripped)
     | config \<Rightarrow> config)"

text \<open>\<^verbatim>\<open>a or b\<close>\<close>

definition py_or :: "pyval \<Rightarrow> pyval \<Rightarrow> pyval" where
  "py_or a b = (if py_truthy a then a else b)"

definition fixture_identity :: "(pyval \<Rightarrow> string) \<Rightarrow> pyval \<Rightarrow> exn + pyval" where
  "fixture_identity pystr fixtures = (case fixtures of
       PDict d \<Rightarrow>
         res_bind (res_map (\<lambda>(key, r). res_bind (or_dict_get r ''content_hash'') (\<lambda>h. Inr (key @ '':'' @ pystr h))) d) (\<lambda>texts.
         Inr (PList (map PStr (sort texts))))
     | _ \<Rightarrow> Inr PNone)"

definition workflow_identity :: "(pyval \<Rightarrow> string) \<Rightarrow> pydict \<Rightarrow> exn + pyval" where
  "workflow_identity pystr manifest =
     (let snapshot = dict_or_empty (dget manifest ''workflow_snapshot''); reference = dget manifest ''workflow'' in
      if snapshot \<noteq> [] then
        res_bind (list_or_empty (dget snapshot ''step_ids'')) (\<lambda>step_ids.
        res_bind (fixture_identity pystr (dget manifest ''fixture_snapshot'')) (\<lambda>fixtures.
        Inr (PDict [(''ref'', py_or (dget snapshot ''ref'') reference), (''content_hash'', dget snapshot ''content_hash''),
          (''schema_version'', dget snapshot ''schema_version''), (''step_ids'', PList step_ids), (''limits'', dget snapshot ''limits''),
          (''failure_policy'', dget snapshot ''failure_policy''), (''fixtures'', fixtures)])))
      else case reference of
        PStr _ \<Rightarrow>
          res_bind (fixture_identity pystr (dget manifest ''fixture_snapshot'')) (\<lambda>fixtures.
          Inr (PDict [(''ref'', reference), (''content_hash'', PNone), (''schema_version'', PNone), (''step_ids'', PList []),
            (''limits'', PNone), (''failure_policy'', PNone), (''fixtures'', fixtures)]))
      | _ \<Rightarrow> Inr PNone)"

definition skill_identity :: "pydict \<Rightarrow> exn + pyval" where
  "skill_identity manifest =
     (let skills = dget manifest ''skills''; snapshot = dget manifest ''skill_snapshot''; arm = dget manifest ''skill_arm'' in
      if \<not> py_truthy skills \<and> \<not> py_truthy snapshot \<and> \<not> py_truthy arm then Inr PNone
      else res_bind (list_or_empty skills) (\<lambda>refs.
        Inr (PDict [(''arm'', arm), (''refs'', PList refs), (''snapshot'', if is_dict snapshot then snapshot else PNone)])))"

section \<open>Budgets\<close>

definition COMPARABLE_BUDGET_POLICIES :: "string list" where
  "COMPARABLE_BUDGET_POLICIES = [''same-total-budget'', ''same-execution-budget'']"

definition BUDGET_POLICY_KEYS :: "string list" where
  "BUDGET_POLICY_KEYS = [''policy'', ''comparison_policy'']"

definition TOTAL_ALLOWANCE_KEYS :: "string list" where
  "TOTAL_ALLOWANCE_KEYS = [''total_allowance'', ''max_total_tokens'', ''total_tokens'']"

definition EXECUTION_ALLOWANCE_KEYS :: "string list" where
  "EXECUTION_ALLOWANCE_KEYS = [''execution_allowance'', ''max_execution_tokens'', ''execution_tokens'']"

definition INSTRUCTION_OVERHEAD_KEYS :: "string list" where
  "INSTRUCTION_OVERHEAD_KEYS = [''instruction_overhead'', ''instruction_overhead_tokens'', ''skill_instruction_tokens'']"

definition BUDGET_ALIAS_KEYS :: "string list" where
  "BUDGET_ALIAS_KEYS = BUDGET_POLICY_KEYS @ TOTAL_ALLOWANCE_KEYS @ EXECUTION_ALLOWANCE_KEYS @ INSTRUCTION_OVERHEAD_KEYS"

definition budget_source :: "pydict \<Rightarrow> pydict option" where
  "budget_source manifest =
     (let nested = dget (dict_or_empty (dget manifest ''agent_config'')) ''budget''; budget = dget manifest ''budget'' in
      if \<not> is_dict nested \<and> \<not> is_dict budget then None
      else Some (od_merge (od_merge [] (dict_or_empty nested)) (dict_or_empty budget)))"

fun pick_allowance :: "pydict \<Rightarrow> string list \<Rightarrow> pyval" where
  "pick_allowance budget [] = PNone"
| "pick_allowance budget (key # keys) = (if dget budget key \<noteq> PNone then dget budget key else pick_allowance budget keys)"

definition other_allowances :: "pydict \<Rightarrow> pydict" where
  "other_allowances budget = filter (\<lambda>(key, _). key \<notin> set BUDGET_ALIAS_KEYS) budget"

definition declared_policy :: "pydict \<Rightarrow> pyval" where
  "declared_policy budget = (if dget budget ''policy'' \<noteq> PNone then dget budget ''policy'' else dget budget ''comparison_policy'')"

definition budget_dimensions :: "pydict \<Rightarrow> pydict" where
  "budget_dimensions budget =
     [(''policy'', declared_policy budget),
      (''total_allowance'', pick_allowance budget TOTAL_ALLOWANCE_KEYS),
      (''execution_allowance'', pick_allowance budget EXECUTION_ALLOWANCE_KEYS),
      (''instruction_overhead'', pick_allowance budget INSTRUCTION_OVERHEAD_KEYS),
      (''other_allowances'', PDict (other_allowances budget))]"

definition manifest_dimensions :: "pydict \<Rightarrow> pydict option" where
  "manifest_dimensions manifest = map_option budget_dimensions (budget_source manifest)"

definition budget_policy :: "pydict \<Rightarrow> pyval" where
  "budget_policy manifest = (case budget_source manifest of None \<Rightarrow> PNone | Some budget \<Rightarrow> declared_policy budget)"

section \<open>Conditions\<close>

text \<open>The outcome of a check: the reasons that block, and the differences the policy allows.\<close>

type_synonym check = "fstr list \<times> fstr list"

definition check_ok :: check where "check_ok = ([], [])"
definition blocked :: "fstr \<Rightarrow> check" where "blocked m = ([m], [])"
definition allowed :: "fstr \<Rightarrow> check" where "allowed m = ([], [m])"

definition checks :: "check list \<Rightarrow> check" where
  "checks cs = (concat (map fst cs), concat (map snd cs))"

text \<open>\<^verbatim>\<open>(a is None) != (b is None)\<close>\<close>

definition one_missing :: "pyval \<Rightarrow> pyval \<Rightarrow> bool" where
  "one_missing b c \<longleftrightarrow> (b = PNone) \<noteq> (c = PNone)"

definition missing_text :: "string \<Rightarrow> pyval \<Rightarrow> pyval \<Rightarrow> fstr" where
  "missing_text what b c = [Txt (''IDENTITY_MISSING:'' @ what @ '': ''), Rep b, Txt '' vs '', Rep c]"

definition changed_text :: "string \<Rightarrow> string \<Rightarrow> pyval \<Rightarrow> pyval \<Rightarrow> fstr" where
  "changed_text code what b c = [Txt (code @ '':'' @ what @ '': ''), Rep b, Txt '' -> '', Rep c]"

definition sorted_keys :: "pydict \<Rightarrow> pydict \<Rightarrow> string list" where
  "sorted_keys b c = sort (remdups (map fst b @ map fst c))"

definition check_allowance :: "pydict \<Rightarrow> pydict \<Rightarrow> string \<Rightarrow> check" where
  "check_allowance base cand key =
     (let b = dget base key; c = dget cand key in
      if py_eq b c then check_ok
      else if one_missing b c then blocked (missing_text (''budget.'' @ key) b c)
      else blocked (changed_text ''BUDGET_ALLOWANCE_CHANGED'' (''budget.'' @ key) b c))"

definition check_fixed :: "string \<Rightarrow> string \<Rightarrow> pyval \<Rightarrow> pyval \<Rightarrow> check" where
  "check_fixed policy fixed b c =
     (if b = PNone \<and> c = PNone then
        allowed [Txt (''BUDGET_DIMENSION_UNKNOWN:'' @ fixed @ '': neither arm declares it; '' @ policy @ '' is recorded as unknown, never defaulted to equal'')]
      else if b = PNone \<or> c = PNone then blocked (missing_text (''budget.'' @ fixed) b c)
      else if \<not> py_eq b c then blocked (changed_text ''BUDGET_ALLOWANCE_CHANGED'' (''budget.'' @ fixed) b c)
      else allowed [Txt (''BUDGET_ALLOWANCE_EQUAL:budget.'' @ fixed @ '': ''), Rep b, Txt ('' (held equal by '' @ policy @ '')'')])"

definition check_movable :: "string \<Rightarrow> pydict \<Rightarrow> pydict \<Rightarrow> string \<Rightarrow> check" where
  "check_movable policy base cand key =
     (let b = dget base key; c = dget cand key in
      if py_eq b c then check_ok
      else if one_missing b c then
        allowed [Txt (''BUDGET_ALLOCATION_UNKNOWN:'' @ key @ '': ''), Rep b, Txt '' -> '', Rep c,
          Txt ('' (permitted by '' @ policy @ ''; unknown is never filled with 0)'')]
      else allowed [Txt (''BUDGET_ALLOCATION:'' @ key @ '': ''), Rep b, Txt '' -> '', Rep c, Txt ('' (permitted by '' @ policy @ '')'')])"

definition compare_budget_dimensions :: "pydict \<Rightarrow> pydict \<Rightarrow> pyval \<Rightarrow> check" where
  "compare_budget_dimensions base cand policy_value =
     (let base_other = dict_or_empty (dget base ''other_allowances''); cand_other = dict_or_empty (dget cand ''other_allowances'');
          others = map (check_allowance base_other cand_other) (sorted_keys base_other cand_other) in
      case policy_value of
        PStr policy \<Rightarrow>
          if policy \<notin> set COMPARABLE_BUDGET_POLICIES then checks others
          else (let (fixed, movable) = (if policy = ''same-total-budget'' then (''total_allowance'', [''execution_allowance'', ''instruction_overhead''])
                  else (''execution_allowance'', [''total_allowance'', ''instruction_overhead''])) in
            checks (others @ [check_fixed policy fixed (dget base fixed) (dget cand fixed)] @ map (check_movable policy base cand) movable))
      | _ \<Rightarrow> checks others)"

section \<open>Execution conditions\<close>

definition check_intervention :: "string list \<Rightarrow> pydict \<Rightarrow> pydict \<Rightarrow> exn + check" where
  "check_intervention factors base cand =
     (let b = dget base ''interventions''; c = dget cand ''interventions'' in
      res_bind (or_dict_get b ''possible'') (\<lambda>base_possible.
      res_bind (or_dict_get c ''possible'') (\<lambda>cand_possible.
      res_bind (or_dict_get b ''condition_hash'') (\<lambda>base_hash.
      res_bind (or_dict_get c ''condition_hash'') (\<lambda>cand_hash.
      (let unknown = py_truthy base_possible \<or> py_truthy cand_possible in
       Inr (if unknown \<or> \<not> py_eq base_hash cand_hash then
              (if ''intervention'' \<in> set factors then allowed [Txt ''ALLOWED_FACTOR:intervention: human input/decision conditions differ or are unknown'']
               else blocked [Txt (if unknown then ''INTERVENTION_UNKNOWN'' else ''INTERVENTION_CHANGED'')])
            else check_ok)))))))"

definition check_model :: "string list \<Rightarrow> pyval \<Rightarrow> pyval \<Rightarrow> check" where
  "check_model factors b c =
     (if py_eq b c then check_ok
      else if ''model'' \<notin> set factors then blocked (changed_text ''FACTOR_NOT_ALLOWED'' ''model'' b c)
      else allowed (changed_text ''ALLOWED_FACTOR'' ''model'' b c))"

definition check_runtime :: "string list \<Rightarrow> pyval \<Rightarrow> pyval \<Rightarrow> check" where
  "check_runtime factors b c =
     (if one_missing b c then blocked (missing_text ''runtime'' b c)
      else if b \<noteq> PNone \<and> \<not> py_eq b c then
        (if ''runtime'' \<in> set factors then
           allowed (changed_text ''ALLOWED_FACTOR'' ''runtime'' (dget (dict_or_empty b) ''runtime'') (dget (dict_or_empty c) ''runtime''))
         else blocked (changed_text ''RUNTIME_CHANGED'' ''runtime'' b c))
      else check_ok)"

definition check_profile :: "string list \<Rightarrow> pydict \<Rightarrow> pydict \<Rightarrow> string \<times> string \<times> string list \<Rightarrow> check" where
  "check_profile factors base cand = (\<lambda>(field, code, sources).
     (let b = invariant_value (profile_of base) (external_of base) field sources;
          c = invariant_value (profile_of cand) (external_of cand) field sources in
      if one_missing b c then blocked (missing_text field b c)
      else if b \<noteq> PNone \<and> \<not> py_eq b c then
        (if field \<in> set factors then allowed (changed_text ''ALLOWED_FACTOR'' field b c) else blocked (changed_text code field b c))
      else check_ok))"

definition check_agent :: "string list \<Rightarrow> pyval \<Rightarrow> pyval \<Rightarrow> check" where
  "check_agent factors b c =
     (if one_missing b c then blocked (missing_text ''agent'' b c)
      else if b \<noteq> PNone \<and> \<not> py_eq b c then
        (if ''agent_id'' \<in> set factors \<or> ''agent_version'' \<in> set factors then allowed (changed_text ''ALLOWED_FACTOR'' ''agent'' b c)
         else blocked (changed_text ''AGENT_CHANGED'' ''agent'' b c))
      else check_ok)"

definition check_agent_config :: "pyval \<Rightarrow> pyval \<Rightarrow> check" where
  "check_agent_config b c =
     (if one_missing b c then blocked (missing_text ''agent_config'' b c)
      else if b \<noteq> PNone \<and> \<not> py_eq b c then blocked (changed_text ''AGENT_CONFIG_CHANGED'' ''agent_config'' b c)
      else check_ok)"

definition check_evaluation :: "pyval \<Rightarrow> pyval \<Rightarrow> check" where
  "check_evaluation b c = (case (b, c) of
       (PDict base, PDict cand) \<Rightarrow> checks (map (\<lambda>field.
         if \<not> py_eq (dget base field) (dget cand field) then
           blocked (changed_text ''SCORER_CHANGED'' field (dget base field) (dget cand field))
         else check_ok) [''scorer_id'', ''scorer_version''])
     | _ \<Rightarrow> check_ok)"

definition compare_invariants :: "(pyval \<Rightarrow> string) \<Rightarrow> string list \<Rightarrow> pydict \<Rightarrow> pydict \<Rightarrow> exn + check" where
  "compare_invariants pystr factors base cand =
     res_bind (check_intervention factors base cand) (\<lambda>intervention.
     res_bind (model_identity pystr base) (\<lambda>base_model.
     res_bind (model_identity pystr cand) (\<lambda>cand_model.
     res_bind (runtime_identity base) (\<lambda>base_runtime.
     res_bind (runtime_identity cand) (\<lambda>cand_runtime.
     Inr (checks ([intervention, check_model factors base_model cand_model, check_runtime factors base_runtime cand_runtime]
       @ map (check_profile factors base cand) PROFILE_INVARIANTS
       @ [check_agent factors (dget base ''agent'') (dget cand ''agent''),
          check_agent_config (agent_config_identity base) (agent_config_identity cand),
          check_evaluation (dget base ''evaluation'') (dget cand ''evaluation'')])))))))"

section \<open>Workflow, skills, budgets and scoring\<close>

definition check_workflow :: "string list \<Rightarrow> pyval \<Rightarrow> pyval \<Rightarrow> check" where
  "check_workflow factors b c =
     (if one_missing b c then blocked (missing_text ''workflow'' b c)
      else if b \<noteq> PNone \<and> \<not> py_eq b c then
        (if ''workflow'' \<in> set factors then
           allowed (changed_text ''ALLOWED_FACTOR'' ''workflow'' (dget (dict_or_empty b) ''ref'') (dget (dict_or_empty c) ''ref''))
         else blocked (changed_text ''WORKFLOW_CHANGED'' ''workflow'' b c))
      else check_ok)"

definition check_fixtures :: "string list \<Rightarrow> pyval \<Rightarrow> pyval \<Rightarrow> check" where
  "check_fixtures factors b c =
     (let base = dget (dict_or_empty b) ''fixtures''; cand = dget (dict_or_empty c) ''fixtures'' in
      if b \<noteq> PNone \<and> c \<noteq> PNone \<and> \<not> py_eq base cand then
        (if ''fixture'' \<in> set factors then allowed [Txt ''ALLOWED_FACTOR:fixture: fixture content hashes differ'']
         else blocked (changed_text ''FIXTURE_CHANGED'' ''fixture'' base cand))
      else check_ok)"

definition check_skill :: "string list \<Rightarrow> pyval \<Rightarrow> pyval \<Rightarrow> check" where
  "check_skill factors b c =
     (if py_eq b c then check_ok
      else if b = PNone \<or> c = PNone then blocked (missing_text ''skill'' b c)
      else (let base = dget (dict_or_empty b) ''arm''; cand = dget (dict_or_empty c) ''arm'' in
        if ''skill'' \<in> set factors then allowed (changed_text ''ALLOWED_FACTOR'' ''skill'' base cand)
        else blocked (changed_text ''SKILL_CHANGED'' ''skill'' base cand)))"

definition dimensions_val :: "pydict option \<Rightarrow> pyval" where
  "dimensions_val d = (case d of None \<Rightarrow> PNone | Some x \<Rightarrow> PDict x)"

definition check_budget :: "string list \<Rightarrow> pydict \<Rightarrow> pydict \<Rightarrow> check" where
  "check_budget factors base cand =
     (let b = budget_policy base; c = budget_policy cand in
      if \<not> py_eq b c then
        (if ''budget_policy'' \<in> set factors then allowed (changed_text ''ALLOWED_FACTOR'' ''budget_policy'' b c)
         else blocked (changed_text ''BUDGET_POLICY_CHANGED'' ''budget_policy'' b c))
      else case (manifest_dimensions base, manifest_dimensions cand) of
        (Some x, Some y) \<Rightarrow> compare_budget_dimensions x y b
      | (None, None) \<Rightarrow> check_ok
      | (x, y) \<Rightarrow> blocked (missing_text ''budget'' (dimensions_val x) (dimensions_val y)))"

text \<open>Attributing a difference to skills: only asked when nothing above blocks.\<close>

definition check_attribution :: "pydict \<Rightarrow> pydict \<Rightarrow> exn + check" where
  "check_attribution base cand =
     (let interventions = py_or (dget base ''interventions'') (py_or (dget cand ''interventions'') (PDict [])) in
      res_bind (or_dict_get interventions ''possible'') (\<lambda>possible.
      res_bind (or_dict_get interventions ''condition_hash'') (\<lambda>condition_hash.
      Inr (checks
        [if \<not> list_ex (\<lambda>p. py_eq (budget_policy base) (PStr p)) COMPARABLE_BUDGET_POLICIES then
           blocked (Txt ''SKILL_ATTRIBUTION_UNSAFE:budget_policy: skill arms must declare one of '' # intersperse (Txt '', '') (map Txt COMPARABLE_BUDGET_POLICIES))
         else check_ok,
         if py_truthy possible \<or> py_truthy condition_hash then
           blocked [Txt ''SKILL_ATTRIBUTION_UNSAFE:intervention: manual intervention makes a pure skill attribution invalid'']
         else check_ok]))))"

definition SCENARIO_TOP_LEVEL_FIELDS :: "(string \<times> string) list" where
  "SCENARIO_TOP_LEVEL_FIELDS =
     [(''tools'', ''TOOLS_CHANGED''), (''tool_policy'', ''TOOLS_CHANGED''), (''timeouts'', ''TIMEOUTS_CHANGED''),
      (''limits'', ''LIMITS_CHANGED''), (''retries'', ''RETRIES_CHANGED''), (''environment'', ''ENVIRONMENT_CHANGED''),
      (''credentials'', ''CREDENTIALS_CHANGED''), (''provider'', ''PROVIDER_CHANGED''), (''target_snapshot'', ''TARGET_CHANGED'')]"

definition check_scenario_field :: "string list \<Rightarrow> pydict \<Rightarrow> pydict \<Rightarrow> string \<times> string \<Rightarrow> check" where
  "check_scenario_field factors base cand = (\<lambda>(field, code).
     (let b = dget base field; c = dget cand field in
      if py_eq b c then check_ok
      else if one_missing b c then blocked (missing_text field b c)
      else if field \<in> set factors then allowed (Txt ''ALLOWED_FACTOR:'' # changed_text code field b c)
      else blocked (changed_text code field b c)))"

definition check_scenario :: "string list \<Rightarrow> pyval \<Rightarrow> pyval \<Rightarrow> pydict \<Rightarrow> pydict \<Rightarrow> check" where
  "check_scenario factors base_workflow cand_workflow base cand =
     (if base_workflow \<noteq> PNone \<or> cand_workflow \<noteq> PNone \<or>
         list_ex (\<lambda>(field, _). dget base field \<noteq> PNone \<or> dget cand field \<noteq> PNone) SCENARIO_TOP_LEVEL_FIELDS then
        checks (map (check_scenario_field factors base cand) SCENARIO_TOP_LEVEL_FIELDS)
      else check_ok)"

definition PROVENANCE_FIELDS :: "(string \<times> string \<times> string) list" where
  "PROVENANCE_FIELDS =
     [(''scorer_id'', ''judge'', ''SCORER_CHANGED''), (''scorer_version'', ''judge'', ''SCORER_CHANGED''),
      (''judge_profile_id'', ''judge'', ''JUDGE_CHANGED''), (''mode'', ''judge'', ''JUDGE_MODE_CHANGED''),
      (''profile_sha256'', ''judge'', ''JUDGE_PROFILE_CHANGED''), (''spec_sha256'', ''judge'', ''JUDGE_SPEC_CHANGED''),
      (''model'', ''judge'', ''JUDGE_MODEL_CHANGED''), (''prompt'', ''judge'', ''JUDGE_PROMPT_CHANGED''),
      (''prompt_sha256'', ''judge'', ''JUDGE_PROMPT_CHANGED''), (''rubric_id'', ''rubric'', ''RUBRIC_CHANGED''),
      (''rubric_version'', ''rubric'', ''RUBRIC_CHANGED''), (''rubric_sha256'', ''rubric'', ''RUBRIC_CONTENT_CHANGED''),
      (''calibration_version'', ''calibration'', ''CALIBRATION_CHANGED''), (''input_selector'', ''judge'', ''JUDGE_INPUT_CHANGED''),
      (''missing_evidence_policy'', ''judge'', ''JUDGE_POLICY_CHANGED''), (''manual_revision'', ''intervention'', ''MANUAL_REVISION_CHANGED'')]"

definition check_provenance_field :: "string list \<Rightarrow> pydict \<Rightarrow> pydict \<Rightarrow> string \<times> string \<times> string \<Rightarrow> check" where
  "check_provenance_field factors base cand = (\<lambda>(field, factor, code).
     (let b = dget base field; c = dget cand field in
      if py_eq b c then check_ok
      else if field \<noteq> ''manual_revision'' \<and> one_missing b c then blocked (missing_text (''scoring_provenance.'' @ field) b c)
      else if factor \<in> set factors then allowed (Txt ''ALLOWED_FACTOR:'' # changed_text code field b c)
      else blocked (changed_text code field b c)))"

text \<open>\<^verbatim>\<open>_scoring_provenance\<close>: an object, or nothing.\<close>

definition scoring_provenance :: "pydict \<Rightarrow> pydict option" where
  "scoring_provenance manifest = (case dget manifest ''scoring_provenance'' of PDict d \<Rightarrow> Some d | _ \<Rightarrow> None)"

definition check_provenance :: "string list \<Rightarrow> pydict option \<Rightarrow> pydict option \<Rightarrow> check" where
  "check_provenance factors base cand = (case (base, cand) of
       (Some b, Some c) \<Rightarrow>
         if \<not> py_eq (PDict b) (PDict c) then checks (map (check_provenance_field factors b c) PROVENANCE_FIELDS) else check_ok
     | (None, None) \<Rightarrow> check_ok
     | _ \<Rightarrow> blocked (missing_text ''scoring_provenance'' (dimensions_val base) (dimensions_val cand)))"

definition compare_m5_invariants :: "(pyval \<Rightarrow> string) \<Rightarrow> string list \<Rightarrow> pydict \<Rightarrow> pydict \<Rightarrow> exn + check" where
  "compare_m5_invariants pystr factors base cand =
     res_bind (workflow_identity pystr base) (\<lambda>base_workflow.
     res_bind (workflow_identity pystr cand) (\<lambda>cand_workflow.
     res_bind (skill_identity base) (\<lambda>base_skill.
     res_bind (skill_identity cand) (\<lambda>cand_skill.
     (let first = checks [check_workflow factors base_workflow cand_workflow, check_fixtures factors base_workflow cand_workflow,
            check_skill factors base_skill cand_skill, check_budget factors base cand] in
     res_bind (if \<not> py_eq base_skill cand_skill \<and> fst first = [] then check_attribution base cand else Inr check_ok) (\<lambda>attribution.
     Inr (checks [first, attribution, check_scenario factors base_workflow cand_workflow base cand,
       check_provenance factors (scoring_provenance base) (scoring_provenance cand)])))))))"

section \<open>Cases\<close>

definition strings_of :: "(pyval \<Rightarrow> string) \<Rightarrow> pyval \<Rightarrow> exn + string list" where
  "strings_of pystr v = res_bind (list_or_empty v) (\<lambda>items. Inr (map pystr items))"

definition case_ids :: "(pyval \<Rightarrow> string) \<Rightarrow> pydict \<Rightarrow> exn + string list" where
  "case_ids pystr manifest =
     res_bind (strings_of pystr (dget manifest ''case_ids'')) (\<lambda>ids.
       if ids \<noteq> [] then Inr ids
       else res_bind (case dget manifest ''task_manifest'' of PDict d \<Rightarrow> strings_of pystr (dget d ''task_keys'') | _ \<Rightarrow> Inr []) (\<lambda>keys.
         if keys \<noteq> [] then Inr keys else strings_of pystr (dget manifest ''selected_tasks'')))"

text \<open>\<^verbatim>\<open>sorted(set(xs) - set(ys))\<close> and \<^verbatim>\<open>sorted(set(xs) & set(ys))\<close>\<close>

definition sorted_diff :: "string list \<Rightarrow> string list \<Rightarrow> string list" where
  "sorted_diff xs ys = sort (remdups (filter (\<lambda>x. x \<notin> set ys) xs))"

definition sorted_common :: "string list \<Rightarrow> string list \<Rightarrow> string list" where
  "sorted_common xs ys = sort (remdups (filter (\<lambda>x. x \<in> set ys) xs))"

definition changed_cases :: "pyval \<Rightarrow> pyval \<Rightarrow> string list \<Rightarrow> exn + string list" where
  "changed_cases base cand cases =
     res_bind (res_map (\<lambda>i. res_bind (or_dict_get base i) (\<lambda>b. res_bind (or_dict_get cand i) (\<lambda>c. Inr (i, py_eq b c)))) cases) (\<lambda>ps.
     Inr (map fst (filter (\<lambda>(_, same). \<not> same) ps)))"

definition type_name :: "pyval \<Rightarrow> string" where
  "type_name v = (case v of PNone \<Rightarrow> ''NoneType'' | PBool _ \<Rightarrow> ''bool'' | PInt _ \<Rightarrow> ''int'' | PFloat _ \<Rightarrow> ''float'' | PStr _ \<Rightarrow> ''str''
     | PList _ \<Rightarrow> ''list'' | PDict _ \<Rightarrow> ''dict'')"

definition strs :: "string list \<Rightarrow> pyval" where
  "strs xs = PList (map PStr xs)"

definition content_changed :: "pyval \<Rightarrow> pyval \<Rightarrow> string list \<Rightarrow> string list" where
  "content_changed b c common = (case (b, c) of
       (PDict base, PDict cand) \<Rightarrow> filter (\<lambda>i. \<not> py_eq (dget base i) (dget cand i)) common
     | _ \<Rightarrow> [])"

definition case_reasons :: "string list \<Rightarrow> string list \<Rightarrow> string list \<Rightarrow> fstr list" where
  "case_reasons added removed changed =
     (if added \<noteq> [] \<or> removed \<noteq> [] \<or> changed \<noteq> [] then
        [[Txt ''CASE_SET_CHANGED: added='', Rep (strs added), Txt '' removed='', Rep (strs removed), Txt '' changed='', Rep (strs changed)]]
      else [])"

definition content_reasons :: "pyval \<Rightarrow> pyval \<Rightarrow> string list \<Rightarrow> fstr list" where
  "content_reasons b c common =
     (if one_missing b c then [[Txt (''IDENTITY_MISSING:case_content_hashes: '' @ type_name b @ '' vs '' @ type_name c)]]
      else if content_changed b c common \<noteq> [] then [[Txt ''CASE_CONTENT_CHANGED: '', Rep (strs (content_changed b c common))]]
      else [])"

definition few_shot_reasons :: "pyval \<Rightarrow> pyval \<Rightarrow> fstr list" where
  "few_shot_reasons b c =
     (if one_missing b c then [[Txt ''IDENTITY_MISSING:few_shot_hashes'']]
      else if b \<noteq> PNone \<and> \<not> py_eq b c then [[Txt ''FEWSHOT_CONTENT_CHANGED: few-shot example content differs'']]
      else [])"

section \<open>Costs\<close>

definition cost_known :: "pydict option \<Rightarrow> bool" where
  "cost_known cost = py_truthy (dget (case cost of None \<Rightarrow> [] | Some d \<Rightarrow> d) ''known'')"

definition hashable :: "pyval \<Rightarrow> bool" where
  "hashable v = (case v of PList _ \<Rightarrow> False | PDict _ \<Rightarrow> False | _ \<Rightarrow> True)"

text \<open>\<^verbatim>\<open>set((cost or {}).get("currencies") or [(cost or {}).get("currency", "USD")])\<close>\<close>

definition currencies :: "pydict option \<Rightarrow> exn + pyval list" where
  "currencies cost =
     (let d = (case cost of None \<Rightarrow> [] | Some d \<Rightarrow> d) in
      res_bind (if py_truthy (dget d ''currencies'') then py_iter (dget d ''currencies'') else Inr [dget_default d ''currency'' (PStr ''USD'')]) (\<lambda>vs.
      if list_all hashable vs then Inr vs else Inl (TypeError ''unhashable type'')))"

definition same_set :: "pyval list \<Rightarrow> pyval list \<Rightarrow> bool" where
  "same_set xs ys \<longleftrightarrow> list_all (\<lambda>x. list_ex (py_eq x) ys) xs \<and> list_all (\<lambda>y. list_ex (py_eq y) xs) ys"

section \<open>The result\<close>

record comparison_result =
  cr_eligible :: bool
  cr_reasons :: "fstr list"
  cr_baseline :: report_ref
  cr_candidate :: report_ref
  cr_metrics :: "(string \<times> bool) list"
  cr_added :: "string list"
  cr_removed :: "string list"
  cr_changed :: "string list"
  cr_allowed :: "fstr list"
  cr_level :: comparability_level
  cr_structural :: "fstr list"
  cr_metric_reasons :: "fstr list"
  cr_pairwise :: "(rat option \<times> rat option) option"

definition metric_gaps :: "bool \<Rightarrow> bool \<Rightarrow> bool \<Rightarrow> fstr list" where
  "metric_gaps base_known cand_known currency_match =
     (if \<not> base_known then [[Txt ''COST_UNKNOWN:baseline'']] else []) @
     (if \<not> cand_known then [[Txt ''COST_UNKNOWN:candidate'']] else []) @
     (if base_known \<and> cand_known \<and> \<not> currency_match then [[Txt ''COST_CURRENCY_MISMATCH'']] else [])"

text \<open>From the structural reasons to the eligibility of the metrics and the level.\<close>

definition conclude :: "report_ref \<Rightarrow> report_ref \<Rightarrow> string list \<Rightarrow> string list \<Rightarrow> string list \<Rightarrow> fstr list \<Rightarrow> fstr list \<Rightarrow> bool \<Rightarrow>
    pydict option \<Rightarrow> pydict option \<Rightarrow> pairwise_quality option \<Rightarrow> pairwise_quality option \<Rightarrow> comparison_result" where
  "conclude baseline_ref candidate_ref added removed changed structural allowed_differences currency_match
      baseline_cost candidate_cost baseline_pairwise candidate_pairwise =
     (let ok = (structural = []);
          cost_ok = (ok \<and> cost_known baseline_cost \<and> cost_known candidate_cost \<and> currency_match);
          paired = (baseline_pairwise \<noteq> None \<or> candidate_pairwise \<noteq> None \<or> rr_schema baseline_ref = ''report-pairwise-v1'' \<or>
            rr_schema candidate_ref = ''report-pairwise-v1'');
          metric_reasons = (if ok \<and> \<not> cost_ok then metric_gaps (cost_known baseline_cost) (cost_known candidate_cost) currency_match else []) @
            (if paired then [[Txt ''pairwise_baseline_comparison_unsupported'']] else []) in
      \<lparr>cr_eligible = ok, cr_reasons = structural @ metric_reasons, cr_baseline = baseline_ref, cr_candidate = candidate_ref,
        cr_metrics = [(''quality'', ok), (''cost'', cost_ok)] @
          (if paired then [(''pairwise_challenger_score@1'', False), (''pairwise_challenger_score'', False)] else []),
        cr_added = added, cr_removed = removed, cr_changed = changed, cr_allowed = allowed_differences,
        cr_level = (if \<not> ok then LevelNot else if metric_reasons \<noteq> [] then LevelPartial else LevelComparable),
        cr_structural = structural, cr_metric_reasons = metric_reasons,
        cr_pairwise = (if paired then Some (Option.bind baseline_pairwise pq_value, Option.bind candidate_pairwise pq_value) else None)\<rparr>)"

definition compare_run_reports ::
    "(pyval \<Rightarrow> string) \<Rightarrow> report_ref \<Rightarrow> report_ref \<Rightarrow> pydict \<Rightarrow> pydict \<Rightarrow> string list \<Rightarrow> pydict option \<Rightarrow> pydict option \<Rightarrow>
     pairwise_quality option \<Rightarrow> pairwise_quality option \<Rightarrow> exn + comparison_result" where
  "compare_run_reports pystr baseline_ref candidate_ref base cand factors baseline_cost candidate_cost baseline_pairwise candidate_pairwise =
     res_bind (compare_invariants pystr factors base cand) (\<lambda>invariance.
     res_bind (compare_m5_invariants pystr factors base cand) (\<lambda>m5.
     res_bind (case_ids pystr base) (\<lambda>base_cases.
     res_bind (case_ids pystr cand) (\<lambda>cand_cases.
     (let added = sorted_diff cand_cases base_cases; removed = sorted_diff base_cases cand_cases; common = sorted_common base_cases cand_cases;
          base_content = dget base ''case_content_hashes''; cand_content = dget cand ''case_content_hashes'' in
     res_bind (changed_cases (dget base ''case_expectations'') (dget cand ''case_expectations'') common) (\<lambda>changed.
     res_bind (currencies baseline_cost) (\<lambda>base_currencies.
     res_bind (currencies candidate_cost) (\<lambda>cand_currencies.
     Inr (conclude baseline_ref candidate_ref added removed (sort (remdups (changed @ content_changed base_content cand_content common)))
       (fst invariance @ fst m5 @ case_reasons added removed changed @ content_reasons base_content cand_content common @
          few_shot_reasons (dget base ''few_shot_hashes'') (dget cand ''few_shot_hashes''))
       (snd invariance @ snd m5) (same_set base_currencies cand_currencies)
       baseline_cost candidate_cost baseline_pairwise candidate_pairwise)))))))))"

section \<open>Like with like\<close>

text \<open>
  What it means that two manifests are alike, condition by condition.  A condition is kept when both sides
  have the same value (or none), or when the policy names its factor and both sides declare one: an identity
  that one side leaves out is never equal to the other's.
\<close>

definition kept :: "string list \<Rightarrow> string \<Rightarrow> pyval \<Rightarrow> pyval \<Rightarrow> bool" where
  "kept factors factor b c \<longleftrightarrow> py_eq b c \<or> factor \<in> set factors \<and> b \<noteq> PNone \<and> c \<noteq> PNone"

definition no_intervention :: "pydict \<Rightarrow> pydict \<Rightarrow> bool" where
  "no_intervention base cand \<longleftrightarrow>
     (let b = dict_or_empty (dget base ''interventions''); c = dict_or_empty (dget cand ''interventions'') in
      \<not> py_truthy (dget b ''possible'') \<and> \<not> py_truthy (dget c ''possible'') \<and> py_eq (dget b ''condition_hash'') (dget c ''condition_hash''))"

definition same_execution :: "(pyval \<Rightarrow> string) \<Rightarrow> string list \<Rightarrow> pydict \<Rightarrow> pydict \<Rightarrow> bool" where
  "same_execution pystr factors base cand \<longleftrightarrow>
     (''intervention'' \<in> set factors \<or> no_intervention base cand) \<and>
     kept factors ''model'' (projr (model_identity pystr base)) (projr (model_identity pystr cand)) \<and>
     kept factors ''runtime'' (projr (runtime_identity base)) (projr (runtime_identity cand)) \<and>
     (\<forall>(field, _, sources) \<in> set PROFILE_INVARIANTS. kept factors field
        (invariant_value (profile_of base) (external_of base) field sources) (invariant_value (profile_of cand) (external_of cand) field sources)) \<and>
     (kept factors ''agent_id'' (dget base ''agent'') (dget cand ''agent'') \<or> kept factors ''agent_version'' (dget base ''agent'') (dget cand ''agent'')) \<and>
     py_eq (agent_config_identity base) (agent_config_identity cand) \<and>
     (\<forall>field \<in> {''scorer_id'', ''scorer_version''}.
        py_eq (dget (dict_or_empty (dget base ''evaluation'')) field) (dget (dict_or_empty (dget cand ''evaluation'')) field))"

text \<open>
  Budgets: the same policy, every other allowance the same, and the dimension the policy holds fixed known and
  the same on both sides.
\<close>

definition fixed_dimension :: "pyval \<Rightarrow> string option" where
  "fixed_dimension policy =
     (if policy = PStr ''same-total-budget'' then Some ''total_allowance''
      else if policy = PStr ''same-execution-budget'' then Some ''execution_allowance'' else None)"

definition same_budget :: "string list \<Rightarrow> pydict \<Rightarrow> pydict \<Rightarrow> bool" where
  "same_budget factors base cand \<longleftrightarrow>
     (if py_eq (budget_policy base) (budget_policy cand) then
        (budget_source base = None \<longleftrightarrow> budget_source cand = None) \<and>
        (\<forall>b c. budget_source base = Some b \<longrightarrow> budget_source cand = Some c \<longrightarrow>
           (\<forall>key. key \<notin> set BUDGET_ALIAS_KEYS \<longrightarrow> py_eq (dget b key) (dget c key)) \<and>
           (\<forall>d. fixed_dimension (budget_policy base) = Some d \<longrightarrow> 
             dget (budget_dimensions b) d \<noteq> PNone \<and> py_eq (dget (budget_dimensions b) d) (dget (budget_dimensions c) d)))
      else kept factors ''budget_policy'' (budget_policy base) (budget_policy cand))"

text \<open>A difference can be attributed to skills: comparable budgets and no human intervention, on both sides.\<close>

definition attributable :: "pydict \<Rightarrow> pydict \<Rightarrow> bool" where
  "attributable base cand \<longleftrightarrow> (\<forall>m \<in> {base, cand}. fixed_dimension (budget_policy m) \<noteq> None \<and>
     \<not> py_truthy (dget (dict_or_empty (dget m ''interventions'')) ''possible'') \<and>
     \<not> py_truthy (dget (dict_or_empty (dget m ''interventions'')) ''condition_hash''))"

definition same_provenance :: "string list \<Rightarrow> pydict \<Rightarrow> pydict \<Rightarrow> bool" where
  "same_provenance factors base cand \<longleftrightarrow> (case (scoring_provenance base, scoring_provenance cand) of
       (None, None) \<Rightarrow> True
     | (Some b, Some c) \<Rightarrow> py_eq (PDict b) (PDict c) \<or> (\<forall>(field, factor, _) \<in> set PROVENANCE_FIELDS.
         kept factors factor (dget b field) (dget c field) \<or> field = ''manual_revision'' \<and> factor \<in> set factors)
     | _ \<Rightarrow> False)"

definition same_scenario :: "(pyval \<Rightarrow> string) \<Rightarrow> string list \<Rightarrow> pydict \<Rightarrow> pydict \<Rightarrow> bool" where
  "same_scenario pystr factors base cand \<longleftrightarrow>
     (let bw = projr (workflow_identity pystr base); cw = projr (workflow_identity pystr cand);
          bs = projr (skill_identity base); cs = projr (skill_identity cand) in
      kept factors ''workflow'' bw cw \<and>
      (bw \<noteq> PNone \<longrightarrow> cw \<noteq> PNone \<longrightarrow> ''fixture'' \<in> set factors \<or> py_eq (dget (dict_or_empty bw) ''fixtures'') (dget (dict_or_empty cw) ''fixtures'')) \<and>
      kept factors ''skill'' bs cs \<and> same_budget factors base cand \<and> (py_eq bs cs \<or> attributable base cand) \<and>
      (\<forall>(field, _) \<in> set SCENARIO_TOP_LEVEL_FIELDS. kept factors field (dget base field) (dget cand field)) \<and>
      same_provenance factors base cand)"

definition same_cases :: "(pyval \<Rightarrow> string) \<Rightarrow> pydict \<Rightarrow> pydict \<Rightarrow> bool" where
  "same_cases pystr base cand \<longleftrightarrow>
     (let cases = set (projr (case_ids pystr base)); b = dget base ''case_content_hashes''; c = dget cand ''case_content_hashes'' in
      set (projr (case_ids pystr cand)) = cases \<and>
      (\<forall>i \<in> cases. py_eq (dget (dict_or_empty (dget base ''case_expectations'')) i) (dget (dict_or_empty (dget cand ''case_expectations'')) i)) \<and>
      \<not> one_missing b c \<and>
      (\<forall>i \<in> cases. py_eq (dget (dict_or_empty b) i) (dget (dict_or_empty c) i)) \<and>
      py_eq (dget base ''few_shot_hashes'') (dget cand ''few_shot_hashes''))"

definition like_with_like :: "(pyval \<Rightarrow> string) \<Rightarrow> string list \<Rightarrow> pydict \<Rightarrow> pydict \<Rightarrow> bool" where
  "like_with_like pystr factors base cand \<longleftrightarrow>
     same_execution pystr factors base cand \<and> same_scenario pystr factors base cand \<and> same_cases pystr base cand"

text \<open>
  The pairs for which the checks decide exactly that.  Outside of it the code is more lenient or more strict
  than its documentation: an evaluation, a model or a budget policy that only one side declares, content
  hashes that are no object, a budget dimension that the policy holds fixed and nobody declares, a policy
  that names \<^verbatim>\<open>fixture\<close> without \<^verbatim>\<open>workflow\<close>, and one that names \<^verbatim>\<open>skill\<close> together with \<^verbatim>\<open>intervention\<close> or \<^verbatim>\<open>budget_policy\<close>.
\<close>

definition fixed_known :: "pydict \<Rightarrow> pydict \<Rightarrow> bool" where
  "fixed_known base cand \<longleftrightarrow> (case (fixed_dimension (budget_policy base), budget_source base, budget_source cand) of
       (Some d, Some b, Some c) \<Rightarrow> dget (budget_dimensions b) d \<noteq> PNone \<or> dget (budget_dimensions c) d \<noteq> PNone
     | _ \<Rightarrow> True)"

definition declared_alike :: "(pyval \<Rightarrow> string) \<Rightarrow> pydict \<Rightarrow> pydict \<Rightarrow> bool" where
  "declared_alike pystr base cand \<longleftrightarrow>
     (is_dict (dget base ''evaluation'') \<longleftrightarrow> is_dict (dget cand ''evaluation'')) \<and>
     \<not> one_missing (projr (model_identity pystr base)) (projr (model_identity pystr cand)) \<and>
     \<not> one_missing (budget_policy base) (budget_policy cand) \<and> fixed_known base cand \<and>
     (\<forall>m \<in> {base, cand}. dget m ''case_content_hashes'' = PNone \<or> is_dict (dget m ''case_content_hashes''))"

definition factors_apart :: "string list \<Rightarrow> bool" where
  "factors_apart factors \<longleftrightarrow> (''fixture'' \<in> set factors \<longrightarrow> ''workflow'' \<in> set factors) \<and>
     (''skill'' \<in> set factors \<longrightarrow> ''intervention'' \<notin> set factors \<and> ''budget_policy'' \<notin> set factors)"

lemma py_eq_PNone [simp]: "py_eq v PNone \<longleftrightarrow> v = PNone" "py_eq PNone v \<longleftrightarrow> v = PNone"
  by (cases v; simp)+

lemma num_eq_zero: "num_eq x y \<Longrightarrow> x = FFin 0 \<longleftrightarrow> y = FFin 0"
  by (cases x; cases y) auto

lemma py_eq_truthy:
  assumes "py_eq v w" shows "py_truthy v \<longleftrightarrow> py_truthy w"
  using assms by (cases v; cases w) (auto simp: of_bool_def dest: num_eq_zero split: if_splits elim: py_eq_list.elims)

lemma fst_checks: "fst (checks cs) = [] \<longleftrightarrow> (\<forall>c \<in> set cs. fst c = [])"
  by (simp add: checks_def)

lemmas check_results = check_ok_def blocked_def allowed_def

lemma or_dict_get_val: "or_dict_get v k = Inr x \<Longrightarrow> x = dget (dict_or_empty v) k"
  by (cases v) (auto simp: or_dict_get_def dict_or_empty_def dget_def split: if_splits)

lemma check_intervention_iff:
  "check_intervention factors base cand = Inr r \<Longrightarrow> fst r = [] \<longleftrightarrow> ''intervention'' \<in> set factors \<or> no_intervention base cand"
  by (auto simp: check_intervention_def res_bind_def Let_def no_intervention_def check_results dest!: or_dict_get_val split: sum.splits if_splits)

lemma check_runtime_iff: "fst (check_runtime factors b c) = [] \<longleftrightarrow> kept factors ''runtime'' b c"
  by (auto simp: check_runtime_def kept_def one_missing_def check_results)

lemma check_model_iff: "\<not> one_missing b c \<Longrightarrow> fst (check_model factors b c) = [] \<longleftrightarrow> kept factors ''model'' b c"
  by (auto simp: check_model_def check_results kept_def one_missing_def)

lemma check_profile_iff:
  "fst (check_profile factors base cand (field, code, sources)) = [] \<longleftrightarrow> kept factors field
     (invariant_value (profile_of base) (external_of base) field sources) (invariant_value (profile_of cand) (external_of cand) field sources)"
  by (auto simp: check_profile_def kept_def one_missing_def check_results Let_def)

lemma check_agent_iff: "fst (check_agent factors b c) = [] \<longleftrightarrow> kept factors ''agent_id'' b c \<or> kept factors ''agent_version'' b c"
  by (auto simp: check_agent_def kept_def one_missing_def check_results)

lemma check_agent_config_iff: "fst (check_agent_config b c) = [] \<longleftrightarrow> py_eq b c"
  by (auto simp: check_agent_config_def one_missing_def check_results)

lemma check_evaluation_iff:
  assumes "is_dict v \<longleftrightarrow> is_dict w"
  shows "fst (check_evaluation v w) = [] \<longleftrightarrow>
    (\<forall>field \<in> {''scorer_id'', ''scorer_version''}. py_eq (dget (dict_or_empty v) field) (dget (dict_or_empty w) field))"
  using assms by (cases v; cases w) (simp_all add: check_evaluation_def fst_checks check_results is_dict_def dict_or_empty_def dget_def)

lemma compare_invariants_iff:
  assumes "compare_invariants pystr factors base cand = Inr r" "declared_alike pystr base cand"
  shows "fst r = [] \<longleftrightarrow> same_execution pystr factors base cand"
proof -
  obtain i bm cm br cr where ids: "check_intervention factors base cand = Inr i" "model_identity pystr base = Inr bm"
      "model_identity pystr cand = Inr cm" "runtime_identity base = Inr br" "runtime_identity cand = Inr cr"
    and r: "r = checks ([i, check_model factors bm cm, check_runtime factors br cr]
       @ map (check_profile factors base cand) PROFILE_INVARIANTS
       @ [check_agent factors (dget base ''agent'') (dget cand ''agent''),
          check_agent_config (agent_config_identity base) (agent_config_identity cand),
          check_evaluation (dget base ''evaluation'') (dget cand ''evaluation'')])"
    using assms(1) by (auto simp: compare_invariants_def res_bind_def split: sum.splits)
  have alike: "is_dict (dget base ''evaluation'') \<longleftrightarrow> is_dict (dget cand ''evaluation'')" "\<not> one_missing bm cm"
    using assms(2) by (simp_all add: declared_alike_def ids)
  have profile: "(\<forall>x \<in> set PROFILE_INVARIANTS. fst (check_profile factors base cand x) = []) \<longleftrightarrow>
      (\<forall>(field, _, sources) \<in> set PROFILE_INVARIANTS. kept factors field
        (invariant_value (profile_of base) (external_of base) field sources) (invariant_value (profile_of cand) (external_of cand) field sources))"
    by (rule ball_cong) (auto simp: check_profile_iff)
  have "fst r = [] \<longleftrightarrow> fst i = [] \<and> fst (check_model factors bm cm) = [] \<and> fst (check_runtime factors br cr) = [] \<and>
      (\<forall>x \<in> set PROFILE_INVARIANTS. fst (check_profile factors base cand x) = []) \<and>
      fst (check_agent factors (dget base ''agent'') (dget cand ''agent'')) = [] \<and>
      fst (check_agent_config (agent_config_identity base) (agent_config_identity cand)) = [] \<and>
      fst (check_evaluation (dget base ''evaluation'') (dget cand ''evaluation'')) = []"
    unfolding r fst_checks by auto
  then show ?thesis
    unfolding profile check_intervention_iff [OF ids(1)] check_model_iff [OF alike(2)] check_runtime_iff check_agent_iff check_agent_config_iff
      check_evaluation_iff [OF alike(1)] same_execution_def ids sum.sel .
qed

lemma check_workflow_iff: "fst (check_workflow factors b c) = [] \<longleftrightarrow> kept factors ''workflow'' b c"
  by (auto simp: check_workflow_def kept_def one_missing_def check_results)

lemma check_fixtures_iff:
  "fst (check_fixtures factors b c) = [] \<longleftrightarrow>
   (b \<noteq> PNone \<longrightarrow> c \<noteq> PNone \<longrightarrow> ''fixture'' \<in> set factors \<or> py_eq (dget (dict_or_empty b) ''fixtures'') (dget (dict_or_empty c) ''fixtures''))"
  by (auto simp: check_fixtures_def check_results Let_def)

lemma check_skill_iff: "fst (check_skill factors b c) = [] \<longleftrightarrow> kept factors ''skill'' b c"
  by (auto simp: check_skill_def kept_def check_results Let_def)

lemma check_allowance_iff: "fst (check_allowance base cand key) = [] \<longleftrightarrow> py_eq (dget base key) (dget cand key)"
  by (auto simp: check_allowance_def check_results Let_def)

lemma check_fixed_iff: "fst (check_fixed policy fixed b c) = [] \<longleftrightarrow> py_eq b c"
  by (auto simp: check_fixed_def check_results)

lemma check_movable_never: "fst (check_movable policy base cand key) = []"
  by (auto simp: check_movable_def check_results Let_def)

lemma dget_other: "dget (other_allowances budget) key = (if key \<in> set BUDGET_ALIAS_KEYS then PNone else dget budget key)"
  unfolding other_allowances_def dget_def by (induction budget) auto

lemma other_allowances_iff:
  "(\<forall>key \<in> set (sorted_keys (other_allowances b) (other_allowances c)). py_eq (dget (other_allowances b) key) (dget (other_allowances c) key)) \<longleftrightarrow>
   (\<forall>key. key \<notin> set BUDGET_ALIAS_KEYS \<longrightarrow> py_eq (dget b key) (dget c key))"
proof -
  have out: "dget d key = PNone" if "key \<notin> fst ` set d" for d key
    using that by (auto simp: dget_def split: option.splits) (metis image_eqI fst_conv map_of_SomeD)
  have "(\<forall>key \<in> set (sorted_keys (other_allowances b) (other_allowances c)). py_eq (dget (other_allowances b) key) (dget (other_allowances c) key)) \<longleftrightarrow>
      (\<forall>key. py_eq (dget (other_allowances b) key) (dget (other_allowances c) key))"
  proof (intro iffI allI ballI)
    fix key assume all: "\<forall>key \<in> set (sorted_keys (other_allowances b) (other_allowances c)). py_eq (dget (other_allowances b) key) (dget (other_allowances c) key)"
    show "py_eq (dget (other_allowances b) key) (dget (other_allowances c) key)"
    proof (cases "key \<in> fst ` set (other_allowances b) \<union> fst ` set (other_allowances c)")
      case True
      then show ?thesis using all by (auto simp: sorted_keys_def)
    next
      case False
      then show ?thesis using out [of key "other_allowances b"] out [of key "other_allowances c"] by simp
    qed
  qed blast
  also have "\<dots> \<longleftrightarrow> (\<forall>key. key \<notin> set BUDGET_ALIAS_KEYS \<longrightarrow> py_eq (dget b key) (dget c key))" by (auto simp: dget_other)
  finally show ?thesis .
qed

lemma dimension_others: "dict_or_empty (dget (budget_dimensions b) ''other_allowances'') = other_allowances b"
  by (simp add: budget_dimensions_def dget_def dict_or_empty_def)

lemma compare_budget_dimensions_iff:
  "fst (compare_budget_dimensions (budget_dimensions b) (budget_dimensions c) policy) = [] \<longleftrightarrow>
   (\<forall>key. key \<notin> set BUDGET_ALIAS_KEYS \<longrightarrow> py_eq (dget b key) (dget c key)) \<and>
   (\<forall>d. fixed_dimension policy = Some d \<longrightarrow> py_eq (dget (budget_dimensions b) d) (dget (budget_dimensions c) d))"
proof -
  let ?others = "map (check_allowance (other_allowances b) (other_allowances c)) (sorted_keys (other_allowances b) (other_allowances c))"
  have others: "fst (checks ?others) = [] \<longleftrightarrow> (\<forall>key. key \<notin> set BUDGET_ALIAS_KEYS \<longrightarrow> py_eq (dget b key) (dget c key))"
    unfolding other_allowances_iff [symmetric] by (simp add: fst_checks check_allowance_iff)
  show ?thesis
  proof (cases "fixed_dimension policy")
    case None
    then have "compare_budget_dimensions (budget_dimensions b) (budget_dimensions c) policy = checks ?others"
      by (cases policy) (auto simp: compare_budget_dimensions_def dimension_others fixed_dimension_def COMPARABLE_BUDGET_POLICIES_def
          Let_def split: if_splits)
    then show ?thesis using others None by simp
  next
    case (Some d)
    then consider "policy = PStr ''same-total-budget''" "d = ''total_allowance''" | "policy = PStr ''same-execution-budget''" "d = ''execution_allowance''"
      by (auto simp: fixed_dimension_def split: if_splits)
    then have "fst (compare_budget_dimensions (budget_dimensions b) (budget_dimensions c) policy) = [] \<longleftrightarrow>
        fst (checks ?others) = [] \<and> py_eq (dget (budget_dimensions b) d) (dget (budget_dimensions c) d)"
      by cases (auto simp: compare_budget_dimensions_def dimension_others COMPARABLE_BUDGET_POLICIES_def Let_def fst_checks check_fixed_iff
          check_movable_never)
    then show ?thesis using others Some by simp
  qed
qed

lemma check_budget_iff:
  assumes "\<not> one_missing (budget_policy base) (budget_policy cand)" "fixed_known base cand"
  shows "fst (check_budget factors base cand) = [] \<longleftrightarrow> same_budget factors base cand"
proof (cases "py_eq (budget_policy base) (budget_policy cand)")
  case True
  have "(\<forall>d. fixed_dimension (budget_policy base) = Some d \<longrightarrow> py_eq (dget (budget_dimensions b) d) (dget (budget_dimensions c) d)) \<longleftrightarrow>
      (\<forall>d. fixed_dimension (budget_policy base) = Some d \<longrightarrow>
        dget (budget_dimensions b) d \<noteq> PNone \<and> py_eq (dget (budget_dimensions b) d) (dget (budget_dimensions c) d))"
    if "budget_source base = Some b" "budget_source cand = Some c" for b c
    using assms(2) that by (auto simp: fixed_known_def)
  then show ?thesis using True
    by (cases "budget_source base"; cases "budget_source cand")
      (simp_all add: check_budget_def same_budget_def manifest_dimensions_def compare_budget_dimensions_iff Let_def check_results)
next
  case False
  then show ?thesis using assms(1) by (auto simp: check_budget_def same_budget_def Let_def check_results kept_def one_missing_def)
qed

lemma fixed_dimension_declared:
  "fixed_dimension policy \<noteq> None \<longleftrightarrow> list_ex (\<lambda>p. py_eq policy (PStr p)) COMPARABLE_BUDGET_POLICIES"
  by (auto simp: fixed_dimension_def COMPARABLE_BUDGET_POLICIES_def)

text \<open>The code looks at one side; with equal conditions on interventions that is the other side too.\<close>

lemma check_attribution_iff:
  assumes "check_attribution base cand = Inr r" "no_intervention base cand" "py_eq (budget_policy base) (budget_policy cand)"
  shows "fst r = [] \<longleftrightarrow> attributable base cand"
proof -
  let ?b = "dict_or_empty (dget base ''interventions'')" and ?c = "dict_or_empty (dget cand ''interventions'')"
  let ?i = "dict_or_empty (py_or (dget base ''interventions'') (py_or (dget cand ''interventions'') (PDict [])))"
  have "?i = ?b \<or> ?b = [] \<and> ?i = ?c"
    by (cases "dget base ''interventions''"; cases "dget cand ''interventions''") (auto simp: py_or_def dict_or_empty_def)
  moreover have "py_truthy (dget ?b ''condition_hash'') \<longleftrightarrow> py_truthy (dget ?c ''condition_hash'')"
    using assms(2) py_eq_truthy by (auto simp: no_intervention_def Let_def)
  ultimately have "py_truthy (dget ?i ''condition_hash'') \<longleftrightarrow> py_truthy (dget ?c ''condition_hash'')"
      "\<not> py_truthy (dget ?i ''possible'')"
    using assms(2) by (auto simp: no_intervention_def Let_def)
  moreover have "fixed_dimension (budget_policy cand) = fixed_dimension (budget_policy base)"
    using assms(3) by (cases "budget_policy base"; cases "budget_policy cand") (auto simp: fixed_dimension_def)
  moreover have "fst r = [] \<longleftrightarrow> fixed_dimension (budget_policy base) \<noteq> None \<and> \<not> py_truthy (dget ?i ''possible'') \<and> \<not> py_truthy (dget ?i ''condition_hash'')"
    using assms(1) unfolding fixed_dimension_declared
    by (auto simp: check_attribution_def res_bind_def Let_def fst_checks check_results dest!: or_dict_get_val split: sum.splits if_splits)
  ultimately show ?thesis
    using assms(2) py_eq_truthy by (auto simp: attributable_def no_intervention_def Let_def)
qed

lemma check_scenario_field_iff:
  "fst (check_scenario_field factors base cand (field, code)) = [] \<longleftrightarrow> kept factors field (dget base field) (dget cand field)"
  by (auto simp: check_scenario_field_def kept_def one_missing_def check_results Let_def)

lemma check_scenario_iff:
  "fst (check_scenario factors bw cw base cand) = [] \<longleftrightarrow>
   (\<forall>(field, _) \<in> set SCENARIO_TOP_LEVEL_FIELDS. kept factors field (dget base field) (dget cand field))"
proof -
  have "(\<forall>x \<in> set SCENARIO_TOP_LEVEL_FIELDS. fst (check_scenario_field factors base cand x) = []) \<longleftrightarrow>
      (\<forall>(field, _) \<in> set SCENARIO_TOP_LEVEL_FIELDS. kept factors field (dget base field) (dget cand field))"
    by (rule ball_cong) (auto simp: check_scenario_field_iff)
  moreover have "\<forall>(field, _) \<in> set SCENARIO_TOP_LEVEL_FIELDS. kept factors field (dget base field) (dget cand field)"
    if "\<not> list_ex (\<lambda>(field, _). dget base field \<noteq> PNone \<or> dget cand field \<noteq> PNone) SCENARIO_TOP_LEVEL_FIELDS"
    using that by (auto simp: list_ex_iff kept_def)
  ultimately show ?thesis by (auto simp: check_scenario_def fst_checks check_results)
qed

lemma check_provenance_field_iff:
  "fst (check_provenance_field factors b c (field, factor, code)) = [] \<longleftrightarrow>
   kept factors factor (dget b field) (dget c field) \<or> field = ''manual_revision'' \<and> factor \<in> set factors"
  by (auto simp: check_provenance_field_def kept_def one_missing_def check_results Let_def)

lemma check_provenance_iff:
  "fst (check_provenance factors (scoring_provenance base) (scoring_provenance cand)) = [] \<longleftrightarrow> same_provenance factors base cand"
proof -
  have "(\<forall>x \<in> set PROVENANCE_FIELDS. fst (check_provenance_field factors b c x) = []) \<longleftrightarrow>
      (\<forall>(field, factor, _) \<in> set PROVENANCE_FIELDS. kept factors factor (dget b field) (dget c field) \<or> field = ''manual_revision'' \<and> factor \<in> set factors)"
    for b c by (rule ball_cong) (auto simp: check_provenance_field_iff)
  then show ?thesis
    by (auto simp: check_provenance_def same_provenance_def fst_checks check_results simp del: py_eq.simps split: option.splits)
qed

lemma compare_m5_invariants_iff:
  assumes "compare_m5_invariants pystr factors base cand = Inr r" "declared_alike pystr base cand" "factors_apart factors"
    "''intervention'' \<in> set factors \<or> no_intervention base cand"
  shows "fst r = [] \<longleftrightarrow> same_scenario pystr factors base cand"
proof -
  obtain bw cw bs cs where ids: "workflow_identity pystr base = Inr bw" "workflow_identity pystr cand = Inr cw"
      "skill_identity base = Inr bs" "skill_identity cand = Inr cs"
    using assms(1) by (auto simp: compare_m5_invariants_def res_bind_def split: sum.splits)
  define first where "first = checks [check_workflow factors bw cw, check_fixtures factors bw cw, check_skill factors bs cs, check_budget factors base cand]"
  obtain a where a: "(if \<not> py_eq bs cs \<and> fst first = [] then check_attribution base cand else Inr check_ok) = Inr a"
    and r: "r = checks [first, a, check_scenario factors bw cw base cand, check_provenance factors (scoring_provenance base) (scoring_provenance cand)]"
    using assms(1) by (auto simp: compare_m5_invariants_def res_bind_def ids first_def [symmetric] Let_def split: sum.splits)
  have first: "fst first = [] \<longleftrightarrow> kept factors ''workflow'' bw cw \<and>
      (bw \<noteq> PNone \<longrightarrow> cw \<noteq> PNone \<longrightarrow> ''fixture'' \<in> set factors \<or> py_eq (dget (dict_or_empty bw) ''fixtures'') (dget (dict_or_empty cw) ''fixtures'')) \<and>
      kept factors ''skill'' bs cs \<and> same_budget factors base cand"
    using check_budget_iff [of base cand factors] assms(2) unfolding first_def fst_checks declared_alike_def
    by (simp only: list.set ball_simps check_workflow_iff check_fixtures_iff check_skill_iff simp_thms)
  have attribution: "fst a = [] \<longleftrightarrow> py_eq bs cs \<or> attributable base cand" if clean: "fst first = []"
  proof (cases "py_eq bs cs")
    case False
    then have "''skill'' \<in> set factors" using first clean by (simp add: kept_def)
    then have "no_intervention base cand" "''budget_policy'' \<notin> set factors" using assms(3,4) by (auto simp: factors_apart_def)
    moreover from this have "py_eq (budget_policy base) (budget_policy cand)"
      using first clean by (auto simp: same_budget_def kept_def split: if_splits)
    ultimately show ?thesis using a False clean check_attribution_iff [of base cand a] by simp
  qed (use a in \<open>auto simp: check_ok_def\<close>)
  have "fst r = [] \<longleftrightarrow> fst first = [] \<and> fst a = [] \<and> fst (check_scenario factors bw cw base cand) = [] \<and>
      fst (check_provenance factors (scoring_provenance base) (scoring_provenance cand)) = []"
    by (simp add: r fst_checks)
  also have "\<dots> \<longleftrightarrow> same_scenario pystr factors base cand"
    unfolding check_scenario_iff check_provenance_iff same_scenario_def ids sum.sel Let_def using first attribution by blast
  finally show ?thesis .
qed

lemma changed_cases_iff:
  assumes "changed_cases base cand cases = Inr changed"
  shows "changed = [] \<longleftrightarrow> (\<forall>i \<in> set cases. py_eq (dget (dict_or_empty base) i) (dget (dict_or_empty cand) i))"
proof -
  obtain ps where ps: "list_all2 (\<lambda>i p. res_bind (or_dict_get base i) (\<lambda>b. res_bind (or_dict_get cand i) (\<lambda>c. Inr (i, py_eq b c))) = Inr p) cases ps"
    and changed: "changed = map fst (filter (\<lambda>(_, same). \<not> same) ps)"
    using assms by (auto simp: changed_cases_def res_bind_def res_map_Inr split: sum.splits)
  have "list_all2 (\<lambda>i p. p = (i, py_eq (dget (dict_or_empty base) i) (dget (dict_or_empty cand) i))) cases ps"
    by (rule list_all2_mono [OF ps]) (auto simp: res_bind_def dest!: or_dict_get_val split: sum.splits)
  then have "ps = map (\<lambda>i. (i, py_eq (dget (dict_or_empty base) i) (dget (dict_or_empty cand) i))) cases"
    by (induction rule: list_all2_induct) simp_all
  then show ?thesis by (auto simp: changed filter_empty_conv)
qed

lemma case_reasons_iff: "case_reasons added removed changed = [] \<longleftrightarrow> added = [] \<and> removed = [] \<and> changed = []"
  by (simp add: case_reasons_def)

lemma sort_Nil_iff: "sort xs = [] \<longleftrightarrow> xs = []" for xs :: "string list"
  by (metis length_0_conv length_sort)

lemma sorted_diff_Nil: "sorted_diff xs ys = [] \<longleftrightarrow> set xs \<subseteq> set ys"
  by (auto simp: sorted_diff_def sort_Nil_iff filter_empty_conv)

lemma set_sorted_common [simp]: "set (sorted_common xs ys) = set xs \<inter> set ys"
  by (auto simp: sorted_common_def)

lemma content_reasons_iff:
  "b = PNone \<or> is_dict b \<Longrightarrow> c = PNone \<or> is_dict c \<Longrightarrow> content_reasons b c common = [] \<longleftrightarrow> \<not> one_missing b c \<and>
     (\<forall>i \<in> set common. py_eq (dget (dict_or_empty b) i) (dget (dict_or_empty c) i))"
  by (cases b; cases c) (auto simp: content_reasons_def content_changed_def is_dict_def dict_or_empty_def one_missing_def filter_empty_conv dget_def)

lemma few_shot_reasons_iff: "few_shot_reasons b c = [] \<longleftrightarrow> py_eq b c"
  by (auto simp: few_shot_reasons_def one_missing_def)

lemma cases_iff:
  assumes "case_ids pystr base = Inr bs" "case_ids pystr cand = Inr cs"
    "changed_cases (dget base ''case_expectations'') (dget cand ''case_expectations'') (sorted_common bs cs) = Inr changed"
    "declared_alike pystr base cand"
  shows "case_reasons (sorted_diff cs bs) (sorted_diff bs cs) changed = [] \<and>
      content_reasons (dget base ''case_content_hashes'') (dget cand ''case_content_hashes'') (sorted_common bs cs) = [] \<and>
      few_shot_reasons (dget base ''few_shot_hashes'') (dget cand ''few_shot_hashes'') = [] \<longleftrightarrow> same_cases pystr base cand"
proof -
  have "dget m ''case_content_hashes'' = PNone \<or> is_dict (dget m ''case_content_hashes'')" if "m = base \<or> m = cand" for m
    using assms(4) that by (auto simp: declared_alike_def)
  then show ?thesis
    unfolding case_reasons_iff sorted_diff_Nil changed_cases_iff [OF assms(3)] few_shot_reasons_iff
      same_cases_def assms(1,2) sum.sel Let_def by (subst content_reasons_iff) auto
qed

lemma compare_unfold:
  assumes "compare_run_reports pystr bref cref base cand factors bcost ccost bpair cpair = Inr r"
  obtains inv m5 bs cs changed matched where "compare_invariants pystr factors base cand = Inr inv" "compare_m5_invariants pystr factors base cand = Inr m5"
    "case_ids pystr base = Inr bs" "case_ids pystr cand = Inr cs"
    "changed_cases (dget base ''case_expectations'') (dget cand ''case_expectations'') (sorted_common bs cs) = Inr changed"
    "r = conclude bref cref (sorted_diff cs bs) (sorted_diff bs cs)
       (sort (remdups (changed @ content_changed (dget base ''case_content_hashes'') (dget cand ''case_content_hashes'') (sorted_common bs cs))))
       (fst inv @ fst m5 @ case_reasons (sorted_diff cs bs) (sorted_diff bs cs) changed @
          content_reasons (dget base ''case_content_hashes'') (dget cand ''case_content_hashes'') (sorted_common bs cs) @
          few_shot_reasons (dget base ''few_shot_hashes'') (dget cand ''few_shot_hashes''))
       (snd inv @ snd m5) matched bcost ccost bpair cpair"
  using assms unfolding compare_run_reports_def res_bind_def Let_def by (auto split: sum.splits)

lemma conclude_eligible: "cr_eligible (conclude bref cref added removed changed structural permitted matched bcost ccost bpair cpair) \<longleftrightarrow> structural = []"
  by (simp add: conclude_def Let_def)

lemma conclude_level:
  fixes bref cref added removed changed structural permitted matched bcost ccost bpair cpair
  defines "r \<equiv> conclude bref cref added removed changed structural permitted matched bcost ccost bpair cpair"
  shows "cr_level r \<noteq> LevelNot \<longleftrightarrow> structural = []"
    "map_of (cr_metrics r) ''cost'' = Some (structural = [] \<and> cost_known bcost \<and> cost_known ccost \<and> matched)"
    "cr_level r = LevelComparable \<Longrightarrow> cost_known bcost \<and> cost_known ccost"
  unfolding r_def conclude_def Let_def by (auto simp: metric_gaps_def split: if_splits)

lemma eligible_iff:
  assumes "compare_run_reports pystr bref cref base cand factors bcost ccost bpair cpair = Inr r"
    "declared_alike pystr base cand" "factors_apart factors"
  shows "cr_eligible r \<longleftrightarrow> like_with_like pystr factors base cand" "cr_level r \<noteq> LevelNot \<longleftrightarrow> like_with_like pystr factors base cand"
proof -
  from assms(1) obtain inv m5 bs cs changed matched where c: "compare_invariants pystr factors base cand = Inr inv" "compare_m5_invariants pystr factors base cand = Inr m5"
    "case_ids pystr base = Inr bs" "case_ids pystr cand = Inr cs"
    "changed_cases (dget base ''case_expectations'') (dget cand ''case_expectations'') (sorted_common bs cs) = Inr changed"
    and r: "r = conclude bref cref (sorted_diff cs bs) (sorted_diff bs cs)
       (sort (remdups (changed @ content_changed (dget base ''case_content_hashes'') (dget cand ''case_content_hashes'') (sorted_common bs cs))))
       (fst inv @ fst m5 @ case_reasons (sorted_diff cs bs) (sorted_diff bs cs) changed @
          content_reasons (dget base ''case_content_hashes'') (dget cand ''case_content_hashes'') (sorted_common bs cs) @
          few_shot_reasons (dget base ''few_shot_hashes'') (dget cand ''few_shot_hashes''))
       (snd inv @ snd m5) matched bcost ccost bpair cpair"
    by (rule compare_unfold)
  have "fst inv = [] \<and> fst m5 = [] \<longleftrightarrow> same_execution pystr factors base cand \<and> same_scenario pystr factors base cand"
    using compare_invariants_iff [OF c(1) assms(2)] compare_m5_invariants_iff [OF c(2) assms(2,3)]
    by (auto simp: same_execution_def)
  then show "cr_eligible r \<longleftrightarrow> like_with_like pystr factors base cand" "cr_level r \<noteq> LevelNot \<longleftrightarrow> like_with_like pystr factors base cand"
    unfolding r conclude_eligible conclude_level append_is_Nil_conv like_with_like_def cases_iff [OF c(3-5) assms(2), symmetric] by blast+
qed

lemma cost_eligible:
  assumes "compare_run_reports pystr bref cref base cand factors bcost ccost bpair cpair = Inr r"
    "cr_level r = LevelComparable \<or> map_of (cr_metrics r) ''cost'' \<noteq> Some False"
  shows "cost_known bcost \<and> cost_known ccost"
proof -
  obtain added removed changed structural permitted matched where
    "r = conclude bref cref added removed changed structural permitted matched bcost ccost bpair cpair"
    by (rule compare_unfold [OF assms(1)])
  then show ?thesis using assms(2) conclude_level(2,3) by auto
qed

text \<open>
  The identity of a workflow holds its fixtures: a policy that allows the factor \<^verbatim>\<open>fixture\<close> and not
  \<^verbatim>\<open>workflow\<close> still refuses every pair whose fixtures differ.
\<close>

lemma workflow_shape:
  assumes "workflow_identity pystr manifest = Inr v" "v \<noteq> PNone"
  shows "\<exists>r h s i l p f. v = PDict [(''ref'', r), (''content_hash'', h), (''schema_version'', s), (''step_ids'', i), (''limits'', l),
    (''failure_policy'', p), (''fixtures'', f)]"
proof (cases "dict_or_empty (dget manifest ''workflow_snapshot'') = []")
  case True
  then show ?thesis using assms
    by (cases "dget manifest ''workflow''") (auto simp: workflow_identity_def res_bind_def Let_def split: sum.splits)
qed (use assms in \<open>auto simp: workflow_identity_def res_bind_def Let_def split: sum.splits\<close>)

lemma workflow_fixtures:
  assumes "workflow_identity pystr base = Inr b" "workflow_identity pystr cand = Inr c" "b \<noteq> PNone" "c \<noteq> PNone"
    "\<not> py_eq (dget (dict_or_empty b) ''fixtures'') (dget (dict_or_empty c) ''fixtures'')"
  shows "\<not> py_eq b c"
  using workflow_shape [OF assms(1,3)] workflow_shape [OF assms(2,4)] assms(5) by (auto simp: dict_or_empty_def dget_def)

text \<open>
  The pairs outside of \<open>declared_alike\<close> and \<open>factors_apart\<close> where the code is too lenient.  The attribution of a difference to skills
  reads the interventions of one side: with a baseline that records none, an intervened candidate is
  accepted when the policy allows both factors.  And an evaluation that one side leaves out counts as equal.
\<close>

definition skill_arm :: "string \<Rightarrow> bool \<Rightarrow> pydict" where
  "skill_arm arm possible = [(''skill_arm'', PStr arm), (''interventions'', PDict [(''possible'', PBool possible)]),
     (''budget'', PDict [(''policy'', PStr ''same-total-budget''), (''max_total_tokens'', PInt 100)])]"

lemma intervened_candidate_attributed:
  "\<not> attributable (skill_arm ''a'' False) (skill_arm ''b'' True)"
  "(case compare_m5_invariants (\<lambda>_. []) [''skill'', ''intervention''] (skill_arm ''a'' False) (skill_arm ''b'' True) of Inr r \<Rightarrow> fst r = [] | _ \<Rightarrow> False)"
  "(case compare_m5_invariants (\<lambda>_. []) [''skill'', ''intervention''] (skill_arm ''a'' True) (skill_arm ''b'' False) of Inr r \<Rightarrow> fst r \<noteq> [] | _ \<Rightarrow> False)"
  by code_simp+

lemma missing_evaluation_equal:
  "(case compare_invariants (\<lambda>_. []) [] [(''evaluation'', PDict [(''scorer_id'', PStr ''s'')])] [] of Inr r \<Rightarrow> fst r = [] | _ \<Rightarrow> False)"
  "\<not> same_execution (\<lambda>_. []) [] [(''evaluation'', PDict [(''scorer_id'', PStr ''s'')])] []"
  by code_simp (simp add: same_execution_def dict_or_empty_def dget_def)

end
