(* ===== verification/Gate_Verdict.thy ===== *)
theory Gate_Verdict
  imports Gate_Engine
begin

text \<open>
  What the verdict of a gate means.  \<open>satisfied\<close> states what each kind of rule demands of the report; a
  formal policy passes exactly when every blocking rule is satisfied and every required judge is
  qualified.  The verdict is the worst contribution of the rules, so that adding rules never improves it.
\<close>

section \<open>What a rule demands\<close>

definition known_metric :: "gate_snapshot \<Rightarrow> string \<Rightarrow> rat \<Rightarrow> bool" where
  "known_metric s m v \<longleftrightarrow> lookup_metric METRIC_REGISTRY_VERSION m \<noteq> None \<and> map_of (gs_metric_values s) m = Some (Some (FFin v))"

definition rule_metric :: "gate_rule \<Rightarrow> string" where
  "rule_metric r = (case gr_metric r of None \<Rightarrow> [] | Some m \<Rightarrow> m)"

definition evidence_known :: "pairwise_view \<Rightarrow> gate_inputs \<Rightarrow> gate_rule \<Rightarrow> rat \<Rightarrow> bool" where
  "evidence_known pw gi r v \<longleftrightarrow> (if pw_policy pw \<and> gr_kind r = ''metric_threshold'' then pw_resolved pw = Inr v
     else known_metric (gi_snapshot gi) (rule_metric r) v)"

definition scope_of :: "gate_rule \<Rightarrow> string" where
  "scope_of r = (if take 5 (rule_metric r) = ''cost.'' then ''cost'' else ''quality'')"

definition comparable_enough :: "gate_inputs \<Rightarrow> gate_rule \<Rightarrow> bool" where
  "comparable_enough gi r \<longleftrightarrow> gr_comparability r = None \<or>
     (\<exists>l. gi_level gi = Some l \<and> (gr_comparability r = Some ''comparable'' \<longrightarrow> l = LevelComparable) \<and>
       (gr_comparability r = Some ''partial'' \<longrightarrow> l \<noteq> LevelNot) \<and>
       (l = LevelPartial \<longrightarrow> map_of (gi_eligibility gi) (scope_of r) \<noteq> Some False))"

definition coverage_of :: "pairwise_view \<Rightarrow> gate_inputs \<Rightarrow> rat option" where
  "coverage_of pw gi = (if pw_policy pw then (if isl (pw_resolved pw) then None else pw_coverage pw)
     else gs_coverage (gi_snapshot gi))"

definition samples_of :: "pairwise_view \<Rightarrow> gate_inputs \<Rightarrow> int option" where
  "samples_of pw gi = (if pw_policy pw then pw_pairs pw else
     Some (case map_of (gs_counts (gi_snapshot gi)) ''selected'' of Some n \<Rightarrow> n
       | None \<Rightarrow> (case map_of (gs_counts (gi_snapshot gi)) ''judged'' of Some n \<Rightarrow> n | None \<Rightarrow> 0)))"

definition delta_holds :: "pairwise_view \<Rightarrow> gate_inputs \<Rightarrow> gate_rule \<Rightarrow> bool" where
  "delta_holds pw gi r \<longleftrightarrow> (\<exists>v b base d x. evidence_known pw gi r v \<and> gi_baseline gi = Some b \<and> gi_baseline_ref gi \<noteq> None \<and>
     known_metric b (rule_metric r) base \<and> lookup_metric METRIC_REGISTRY_VERSION (rule_metric r) = Some d \<and>
     gr_max_regression r = Some x \<and> float_le (delta d base v) (FFin x))"

definition threshold_holds :: "pairwise_view \<Rightarrow> gate_inputs \<Rightarrow> gate_rule \<Rightarrow> bool" where
  "threshold_holds pw gi r \<longleftrightarrow> (\<exists>v. evidence_known pw gi r v \<and>
     (\<forall>x t. gr_operator r = Some x \<longrightarrow> gr_threshold r = Some t \<longrightarrow> gate_op x v t))"

definition coverage_holds :: "pairwise_view \<Rightarrow> gate_inputs \<Rightarrow> gate_rule \<Rightarrow> bool" where
  "coverage_holds pw gi r \<longleftrightarrow> (\<forall>m. gr_min_coverage r = Some m \<longrightarrow> (\<exists>c. coverage_of pw gi = Some c \<and> m \<le> c)) \<and>
     (\<forall>n k. gr_min_samples r = Some n \<longrightarrow> samples_of pw gi = Some k \<longrightarrow> n \<le> k)"

definition content_holds :: "pairwise_view \<Rightarrow> gate_inputs \<Rightarrow> gate_rule \<Rightarrow> bool" where
  "content_holds pw gi r \<longleftrightarrow>
     (if gr_kind r = ''baseline_delta'' then delta_holds pw gi r
      else if gr_kind r \<in> {''metric_threshold'', ''cost'', ''latency''} then threshold_holds pw gi r
      else if gr_kind r = ''coverage'' then coverage_holds pw gi r
      else if gr_kind r = ''critical_case'' then (\<forall>c \<in> set (gr_critical r). case_outcome (gi_snapshot gi) c = Some ''pass'')
      else if gr_kind r = ''model_identity'' then ge_model_identity (gi_evidence gi) \<noteq> None \<and> ge_model_identity (gi_evidence gi) = gr_expected r
      else if gr_kind r = ''no_side_effect'' then marker_count (ge_side_effects (gi_evidence gi)) = Inr 0
      else ge_safety (gi_evidence gi) = PList [])"

definition satisfied :: "pairwise_view \<Rightarrow> gate_inputs \<Rightarrow> gate_rule \<Rightarrow> bool" where
  "satisfied pw gi r \<longleftrightarrow> (gr_requires_run r \<longrightarrow> gi_run_status gi = ''completed'') \<and> \<not> gr_experimental r \<and>
     comparable_enough gi r \<and> content_holds pw gi r"

text \<open>
  What the protocol demands: where the metric of the baseline is 0, a rule about its difference is an absolute
  threshold 0, whatever regression it allows otherwise.
\<close>

definition demanded :: "pairwise_view \<Rightarrow> gate_inputs \<Rightarrow> gate_rule \<Rightarrow> bool" where
  "demanded pw gi r \<longleftrightarrow> satisfied pw gi r \<and> (gr_kind r = ''baseline_delta'' \<longrightarrow>
     (\<forall>b d v. gi_baseline gi = Some b \<longrightarrow> known_metric b (rule_metric r) 0 \<longrightarrow> known_metric (gi_snapshot gi) (rule_metric r) v \<longrightarrow>
        lookup_metric METRIC_REGISTRY_VERSION (rule_metric r) = Some d \<longrightarrow> float_le (delta d 0 v) (FFin 0)))"

definition nonzero_baselines :: "gate_policy \<Rightarrow> gate_inputs \<Rightarrow> bool" where
  "nonzero_baselines policy gi \<longleftrightarrow> list_all (\<lambda>r. gr_kind r = ''baseline_delta'' \<longrightarrow>
     (case gi_baseline gi of None \<Rightarrow> True | Some b \<Rightarrow> \<not> known_metric b (rule_metric r) 0)) (gp_rules policy)"

lemma demanded_satisfied:
  "nonzero_baselines policy gi \<Longrightarrow> r \<in> set (gp_rules policy) \<Longrightarrow> demanded pw gi r \<longleftrightarrow> satisfied pw gi r"
  by (auto simp: demanded_def nonzero_baselines_def list_all_iff)

section \<open>One rule\<close>

lemma finish_simps [simp]:
  "rs_severity (finish r st m d) = gr_severity r" "rs_skipped (finish r st m d) = (st = ''skipped_diagnostic'')"
  "st \<noteq> ''skipped_diagnostic'' \<Longrightarrow> rs_decision (finish r st m d) = d"
  by (simp_all add: finish_def Let_def)

lemma finish_missing_simps [simp]:
  "rs_severity (finish_missing r m d) = gr_severity r" "\<exists>y. rs_decision (finish_missing r m d) = Some y" "rs_decision (finish_missing r m d) \<noteq> None"
  "gr_missing r \<noteq> ''diagnostic_skip'' \<Longrightarrow> finish_missing r m d = finish r ''insufficient'' m (Some d)"
  by (simp_all add: finish_missing_def finish_def Let_def)

lemma metric_value_Inr: "metric_value s m = Inr v \<longleftrightarrow> known_metric s m v"
  by (auto simp: metric_value_def known_metric_def split: option.splits pyfloat.splits)

lemma comparability_gate_None: "comparability_gate r (gi_level gi) (gi_eligibility gi) = None \<longleftrightarrow> comparable_enough gi r"
  by (auto simp: comparability_gate_def comparable_enough_def scope_of_def rule_metric_def Let_def split: option.splits)

lemma evaluate_threshold_None:
  "rs_decision (evaluate_threshold r d m v) = None \<longleftrightarrow> (\<forall>x t. gr_operator r = Some x \<longrightarrow> gr_threshold r = Some t \<longrightarrow> gate_op x v t)"
  by (auto simp: evaluate_threshold_def Let_def split: option.splits)

lemma evaluate_delta_None:
  assumes "gr_max_regression r = Some x"
  shows "rs_decision (evaluate_delta gi r d m v) = None \<longleftrightarrow>
    (\<exists>b base. gi_baseline gi = Some b \<and> gi_baseline_ref gi \<noteq> None \<and> known_metric b m base \<and> float_le (delta d base v) (FFin x))"
  using assms
  by (cases "gi_baseline gi"; cases "metric_value (the (gi_baseline gi)) m")
    (auto simp: evaluate_delta_def Let_def metric_value_Inr [symmetric])

lemma coverage_problems_Nil:
  "coverage_problems c k r = [] \<longleftrightarrow> (\<forall>m. gr_min_coverage r = Some m \<longrightarrow> (\<exists>x. c = Some x \<and> m \<le> x)) \<and>
     (\<forall>n j. gr_min_samples r = Some n \<longrightarrow> k = Some j \<longrightarrow> n \<le> j)"
  by (auto simp: coverage_problems_def not_less split: option.splits)

lemma evaluate_coverage_None: "rs_decision (evaluate_coverage pw gi r) = None \<longleftrightarrow> coverage_holds pw gi r"
proof -
  have "rs_decision (evaluate_coverage pw gi r) = None \<longleftrightarrow> coverage_problems (coverage_of pw gi) (samples_of pw gi) r = []"
    by (simp add: evaluate_coverage_def coverage_of_def samples_of_def Let_def)
  then show ?thesis by (simp add: coverage_problems_Nil coverage_holds_def)
qed

lemma evaluate_critical_None:
  "rs_decision (evaluate_critical gi r) = None \<longleftrightarrow> (\<forall>c \<in> set (gr_critical r). case_outcome (gi_snapshot gi) c = Some ''pass'')"
  by (auto simp: evaluate_critical_def Let_def filter_empty_conv)

lemma lookup_pairwise: "lookup_metric ''metric-registry@2'' ''pairwise_challenger_score@1'' = Some PAIRWISE_METRIC"
  by code_simp

text \<open>The reading of a metric rule and the definition it is judged by.\<close>

definition reading :: "pairwise_view \<Rightarrow> gate_inputs \<Rightarrow> gate_rule \<Rightarrow> fstr + rat" where
  "reading pw gi r = (if pw_policy pw \<and> gr_kind r = ''metric_threshold'' then pw_resolved pw
     else metric_value (gi_snapshot gi) (rule_metric r))"

definition judged_by :: "pairwise_view \<Rightarrow> gate_rule \<Rightarrow> metric_definition option" where
  "judged_by pw r = (if pw_policy pw \<and> gr_kind r = ''metric_threshold'' then Some PAIRWISE_METRIC
     else lookup_metric METRIC_REGISTRY_VERSION (rule_metric r))"

lemma reading_Inr: "reading pw gi r = Inr v \<longleftrightarrow> evidence_known pw gi r v"
  by (simp add: reading_def evidence_known_def metric_value_Inr)

lemma evidence_judged: "evidence_known pw gi r v \<Longrightarrow> judged_by pw r \<noteq> None"
  by (auto simp: evidence_known_def judged_by_def known_metric_def split: if_splits)

lemma evaluate_metric_rule_Inr:
  assumes "evaluate_metric_rule pw gi r = Inr x"
  shows "(\<exists>m. x = finish r ''insufficient'' m (Some INSUFFICIENT_EVIDENCE) \<and> judged_by pw r = None) \<or>
    (\<exists>m d. x = finish_missing r m INSUFFICIENT_EVIDENCE \<and> judged_by pw r = Some d \<and> isl (reading pw gi r)) \<or>
    (\<exists>v d. evidence_known pw gi r v \<and> judged_by pw r = Some d \<and>
       x = (if gr_kind r = ''baseline_delta'' then evaluate_delta gi r d (rule_metric r) v else evaluate_threshold r d (rule_metric r) v))"
proof -
  have e: "evaluate_metric_rule pw gi r = (case judged_by pw r of
       None \<Rightarrow> Inr (finish r ''insufficient'' (case reading pw gi r of Inl m \<Rightarrow> m | Inr _ \<Rightarrow> []) (Some INSUFFICIENT_EVIDENCE))
     | Some d \<Rightarrow> (case rule_direction_reason r d of
           Some m \<Rightarrow> Inl (GateInputError ''RULE_DIRECTION_INVALID'' m)
         | None \<Rightarrow> Inr (case reading pw gi r of
               Inl m \<Rightarrow> finish_missing r m INSUFFICIENT_EVIDENCE
             | Inr v \<Rightarrow> if gr_kind r = ''baseline_delta'' then evaluate_delta gi r d (rule_metric r) v
                 else evaluate_threshold r d (rule_metric r) v)))"
    by (simp only: evaluate_metric_rule_def judged_by_def reading_def rule_metric_def Let_def lookup_pairwise)
  show ?thesis
  proof (cases "judged_by pw r")
    case None
    then show ?thesis using assms e by auto
  next
    case (Some d)
    show ?thesis
    proof (cases "reading pw gi r")
      case (Inl m)
      then show ?thesis using assms e Some by (auto split: option.splits)
    next
      case (Inr v)
      then have "x = (if gr_kind r = ''baseline_delta'' then evaluate_delta gi r d (rule_metric r) v else evaluate_threshold r d (rule_metric r) v)"
        using assms e Some by (auto split: option.splits)
      then show ?thesis using Some Inr reading_Inr by blast
    qed
  qed
qed

lemma evaluate_metric_rule_None:
  assumes "evaluate_metric_rule pw gi r = Inr x" "gr_kind r = ''baseline_delta'' \<Longrightarrow> \<exists>y. gr_max_regression r = Some y"
  shows "rs_decision x = None \<longleftrightarrow> (if gr_kind r = ''baseline_delta'' then delta_holds pw gi r else threshold_holds pw gi r)"
  using evaluate_metric_rule_Inr [OF assms(1)]
proof (elim disjE exE conjE)
  fix m assume "x = finish r ''insufficient'' m (Some INSUFFICIENT_EVIDENCE)" "judged_by pw r = None"
  then show ?thesis using evidence_judged [of pw gi r] by (auto simp: delta_holds_def threshold_holds_def)
next
  fix m d assume "x = finish_missing r m INSUFFICIENT_EVIDENCE" "isl (reading pw gi r)"
  then show ?thesis using reading_Inr [of pw gi r] by (auto simp: delta_holds_def threshold_holds_def isl_def)
next
  fix v d assume v: "evidence_known pw gi r v" "judged_by pw r = Some d"
    "x = (if gr_kind r = ''baseline_delta'' then evaluate_delta gi r d (rule_metric r) v else evaluate_threshold r d (rule_metric r) v)"
  have u: "w = v" if "evidence_known pw gi r w" for w using that v(1) reading_Inr by (metis sum.inject(2))
  show ?thesis
  proof (cases "gr_kind r = ''baseline_delta''")
    case True
    obtain y where y: "gr_max_regression r = Some y" using assms(2) True by blast
    have d: "lookup_metric METRIC_REGISTRY_VERSION (rule_metric r) = Some d" using v(2) True by (simp add: judged_by_def)
    have "delta_holds pw gi r \<longleftrightarrow> (\<exists>b base. gi_baseline gi = Some b \<and> gi_baseline_ref gi \<noteq> None \<and>
        known_metric b (rule_metric r) base \<and> float_le (delta d base v) (FFin y))" (is "?l \<longleftrightarrow> ?r")
    proof
      assume ?l
      then obtain w b base e z where w: "evidence_known pw gi r w" and "gi_baseline gi = Some b" "gi_baseline_ref gi \<noteq> None"
          "known_metric b (rule_metric r) base" "lookup_metric METRIC_REGISTRY_VERSION (rule_metric r) = Some e"
          "gr_max_regression r = Some z" "float_le (delta e base w) (FFin z)"
        unfolding delta_holds_def by blast
      moreover have "w = v" by (rule u [OF w])
      ultimately show ?r using d y by auto
    next
      assume ?r
      then show ?l using v(1) d y unfolding delta_holds_def by blast
    qed
    then show ?thesis using True v(3) evaluate_delta_None [OF y, of gi d "rule_metric r" v] by simp
  next
    case False
    have "threshold_holds pw gi r \<longleftrightarrow> (\<forall>x t. gr_operator r = Some x \<longrightarrow> gr_threshold r = Some t \<longrightarrow> gate_op x v t)"
      using v(1) u unfolding threshold_holds_def by blast
    then show ?thesis using False v(3) evaluate_threshold_None [of r d "rule_metric r" v] by simp
  qed
qed

lemma evaluate_marker_None:
  assumes "evaluate_marker gi r = Inr x"
  shows "rs_decision x = None \<longleftrightarrow> (if gr_kind r = ''no_side_effect'' then marker_count (ge_side_effects (gi_evidence gi)) = Inr 0
    else ge_safety (gi_evidence gi) = PList [])"
proof (cases "gr_kind r = ''no_side_effect''")
  case True
  show ?thesis
  proof (cases "marker_count (ge_side_effects (gi_evidence gi))")
    case (Inl e)
    then have "ge_side_effects (gi_evidence gi) = PNone" using assms True by (auto simp: evaluate_marker_def Let_def split: if_splits)
    then show ?thesis using assms True by (auto simp: evaluate_marker_def Let_def)
  next
    case (Inr n)
    then have "x = (if n \<noteq> 0 then finish r ''fail'' [Num n, Txt '' side-effect violation(s) observed''] (Some SAFETY_BLOCK)
        else finish r ''pass'' [Txt ''no side-effect violations observed''] None)"
      using assms True by (cases "ge_side_effects (gi_evidence gi)") (simp_all add: evaluate_marker_def Let_def)
    then show ?thesis using True Inr by simp
  qed
next
  case False
  then show ?thesis using assms by (cases "ge_safety (gi_evidence gi)") (auto simp: evaluate_marker_def Let_def split: if_splits)
qed

lemma evaluate_identity_None:
  "rs_decision (evaluate_identity gi r) = None \<longleftrightarrow> ge_model_identity (gi_evidence gi) \<noteq> None \<and> ge_model_identity (gi_evidence gi) = gr_expected r"
  by (auto simp: evaluate_identity_def split: option.splits)

lemma rule_verdict:
  assumes "evaluate_rule pw policy gi r = Inr x" "rule_problem r = None" "\<not> gp_diagnostic policy"
  shows "rs_decision x = None \<longleftrightarrow> satisfied pw gi r"
proof (cases "gr_requires_run r \<and> gi_run_status gi \<noteq> ''completed'' \<or> gr_experimental r \<or> \<not> comparable_enough gi r")
  case True
  then have "rs_decision x \<noteq> None"
    using assms(1,3) comparability_gate_None [of r gi] by (auto simp: evaluate_rule_def split: if_splits option.splits)
  then show ?thesis using True by (auto simp: satisfied_def)
next
  case False
  then have pre: "satisfied pw gi r = content_holds pw gi r"
    and x: "(if gr_kind r \<in> {''metric_threshold'', ''baseline_delta'', ''cost'', ''latency''} then evaluate_metric_rule pw gi r
       else if gr_kind r = ''coverage'' then Inr (evaluate_coverage pw gi r)
       else if gr_kind r = ''critical_case'' then Inr (evaluate_critical gi r)
       else if gr_kind r = ''model_identity'' then Inr (evaluate_identity gi r)
       else if gr_kind r \<in> {''no_side_effect'', ''safety_marker''} then evaluate_marker gi r
       else Inr (finish r ''not_applicable'' [Txt ''rule kind '', Rep (PStr (gr_kind r)), Txt '' not wired''] None)) = Inr x"
    using assms(1) comparability_gate_None [of r gi] by (auto simp: satisfied_def evaluate_rule_def)
  have "gr_kind r \<in> set GATE_RULE_KINDS" by (rule rule_problem_None(1) [OF assms(2)])
  then consider "gr_kind r \<in> {''metric_threshold'', ''baseline_delta'', ''cost'', ''latency''}" | "gr_kind r = ''coverage''"
    | "gr_kind r = ''critical_case''" | "gr_kind r = ''model_identity''" | "gr_kind r \<in> {''no_side_effect'', ''safety_marker''}"
    by (auto simp: GATE_RULE_KINDS_def)
  then show ?thesis
  proof cases
    case 1
    have "evaluate_metric_rule pw gi r = Inr x" using x 1 by (simp only: if_True)
    from evaluate_metric_rule_None [OF this rule_problem_None(7) [OF assms(2)]] show ?thesis
      using 1 pre by (auto simp: content_holds_def)
  next
    case 2
    then have "x = evaluate_coverage pw gi r" using x by simp
    then show ?thesis using 2 pre evaluate_coverage_None by (simp add: content_holds_def)
  next
    case 3
    then have "x = evaluate_critical gi r" using x by simp
    then show ?thesis using 3 pre evaluate_critical_None by (simp add: content_holds_def)
  next
    case 4
    then have "x = evaluate_identity gi r" using x by simp
    then show ?thesis using 4 pre evaluate_identity_None by (simp add: content_holds_def)
  next
    case 5
    then have "evaluate_marker gi r = Inr x" using x by auto
    from evaluate_marker_None [OF this] show ?thesis using 5 pre by (auto simp: content_holds_def)
  qed
qed

section \<open>Results of rules\<close>

text \<open>A result of a rule without diagnostic skip: its severity is the rule's, it is not skipped and its decision is no \<open>PASS\<close>.\<close>

definition proper_result :: "gate_rule \<Rightarrow> rule_result \<Rightarrow> bool" where
  "proper_result r x \<longleftrightarrow> rs_severity x = gr_severity r \<and> \<not> rs_skipped x \<and> rs_decision x \<noteq> Some PASS"

lemma proper_finish: "st \<noteq> ''skipped_diagnostic'' \<Longrightarrow> d \<noteq> Some PASS \<Longrightarrow> proper_result r (finish r st m d)"
  by (simp add: proper_result_def)

lemma proper_missing: "gr_missing r \<noteq> ''diagnostic_skip'' \<Longrightarrow> d \<noteq> PASS \<Longrightarrow> proper_result r (finish_missing r m d)"
  by (simp add: proper_finish)

lemma proper_metric_rule:
  assumes "evaluate_metric_rule pw gi r = Inr x" "gr_missing r \<noteq> ''diagnostic_skip''"
  shows "proper_result r x"
proof -
  have "proper_result r (evaluate_delta gi r d m v)" for d m v
    unfolding evaluate_delta_def Let_def by (auto intro!: proper_finish split: sum.splits)
  moreover have "proper_result r (evaluate_threshold r d m v)" for d m v
    unfolding evaluate_threshold_def Let_def by (auto intro!: proper_finish split: option.splits)
  ultimately show ?thesis
    using evaluate_metric_rule_Inr [OF assms(1)] proper_finish proper_missing [OF assms(2)] by (elim disjE exE conjE) simp_all
qed

lemma comparability_gate_decision [simp]: "comparability_gate r l e \<noteq> Some (m, PASS)"
  by (auto simp: comparability_gate_def Let_def split: if_splits option.splits)

lemma proper_marker:
  assumes "evaluate_marker gi r = Inr x"
  shows "proper_result r x"
  using assms by (auto simp: evaluate_marker_def Let_def res_bind_Inr intro!: proper_finish split: if_splits)

lemma proper_rule:
  assumes "evaluate_rule pw policy gi r = Inr x" "gr_missing r \<noteq> ''diagnostic_skip''"
  shows "proper_result r x"
proof -
  have "proper_result r (evaluate_coverage pw gi r)" "proper_result r (evaluate_critical gi r)" "proper_result r (evaluate_identity gi r)"
    using assms(2) by (auto simp: evaluate_coverage_def evaluate_critical_def evaluate_identity_def Let_def intro!: proper_finish split: option.splits)
  then show ?thesis
    using assms proper_metric_rule [OF _ assms(2)] proper_marker proper_missing [OF assms(2)]
    unfolding evaluate_rule_def by (auto intro!: proper_finish split: if_splits option.splits)
qed

section \<open>Policies\<close>

definition judge_qualified :: "pairwise_view \<Rightarrow> string \<times> pyval \<Rightarrow> bool" where
  "judge_qualified pw item \<longleftrightarrow> (case item of
       (role, PDict d) \<Rightarrow> \<not> (pw_policy pw \<and> role = ''candidate'') \<longrightarrow> py_truthy (dget d ''required'') \<longrightarrow> dget d ''gate_eligible'' = PBool True
     | _ \<Rightarrow> True)"

definition judges_qualified :: "pairwise_view \<Rightarrow> gate_inputs \<Rightarrow> bool" where
  "judges_qualified pw gi \<longleftrightarrow> (pw_policy pw \<longrightarrow> pw_eligible pw) \<and>
     list_all (judge_qualified pw) (ge_qualifications (gi_evidence gi))"

lemma qualification_simps [simp]:
  "rs_severity (qualification_result i b m) = ''block''" "\<not> rs_skipped (qualification_result i b m)"
  "rs_decision (qualification_result i b m) = (if b then None else Some INSUFFICIENT_EVIDENCE)"
  by (simp_all add: qualification_result_def)

lemma role_result_proper: "x \<in> set (role_result pw item) \<Longrightarrow> rs_severity x = ''block'' \<and> \<not> rs_skipped x \<and> rs_decision x \<noteq> Some PASS"
  by (auto simp: role_result_def split: prod.splits pyval.splits if_splits)

lemma role_result_None: "(\<forall>x \<in> set (role_result pw item). rs_decision x = None) \<longleftrightarrow> judge_qualified pw item"
proof (cases item)
  case (Pair role q)
  then show ?thesis by (cases q) (simp_all add: role_result_def judge_qualified_def, blast)
qed

lemma qualification_results_proper:
  "x \<in> set (qualification_results pw gi) \<Longrightarrow> rs_severity x = ''block'' \<and> \<not> rs_skipped x \<and> rs_decision x \<noteq> Some PASS"
  using role_result_proper by (auto simp: qualification_results_def split: if_splits)

lemma qualification_results_None:
  "(\<forall>x \<in> set (qualification_results pw gi). rs_decision x = None) \<longleftrightarrow> judges_qualified pw gi"
proof -
  have "(\<forall>x \<in> set (concat (map (role_result pw) qs)). rs_decision x = None) \<longleftrightarrow> list_all (judge_qualified pw) qs" for qs
    by (induction qs) (simp_all add: ball_Un role_result_None)
  then show ?thesis by (simp add: qualification_results_def judges_qualified_def ball_Un)
qed

text \<open>The verdict of results without diagnostic skip.\<close>

lemma aggregate_formal:
  "list_all (\<lambda>x. \<not> rs_skipped x) xs \<Longrightarrow> aggregate_decision xs = decide (map rs_decision (filter (\<lambda>r. rs_severity r = ''block'') xs))"
  by (auto simp: aggregate_decision_def Let_def list_ex_iff list_all_iff)

lemma aggregate_PASS:
  assumes "list_all (\<lambda>x. \<not> rs_skipped x \<and> rs_decision x \<noteq> Some PASS) xs"
  shows "aggregate_decision xs = PASS \<longleftrightarrow> (\<forall>x \<in> set xs. rs_severity x = ''block'' \<longrightarrow> rs_decision x = None)"
proof -
  have "list_all (\<lambda>x. \<not> rs_skipped x) xs" using assms by (simp add: list_all_iff)
  from aggregate_formal [OF this]
  have "aggregate_decision xs = PASS \<longleftrightarrow> (\<forall>d. Some d \<in> rs_decision ` {x \<in> set xs. rs_severity x = ''block''} \<longrightarrow> d = PASS)"
    by (simp add: decide_PASS)
  also have "\<dots> \<longleftrightarrow> (\<forall>x \<in> set xs. rs_severity x = ''block'' \<longrightarrow> rs_decision x = None)"
  proof
    assume a: "\<forall>d. Some d \<in> rs_decision ` {x \<in> set xs. rs_severity x = ''block''} \<longrightarrow> d = PASS"
    show "\<forall>x \<in> set xs. rs_severity x = ''block'' \<longrightarrow> rs_decision x = None"
    proof (intro ballI impI)
      fix x assume x: "x \<in> set xs" "rs_severity x = ''block''"
      then have "rs_decision x \<noteq> Some PASS" using assms by (simp add: list_all_iff)
      moreover have "d = PASS" if "rs_decision x = Some d" for d
      proof -
        have "rs_decision x \<in> rs_decision ` {x \<in> set xs. rs_severity x = ''block''}" using x by blast
        then show ?thesis using a that by simp
      qed
      ultimately show "rs_decision x = None" by (cases "rs_decision x") auto
    qed
  qed (auto simp: image_iff)
  finally show ?thesis .
qed

lemma policy_results:
  assumes "evaluate_gate_policy canonical_hash binding_ok policy gi = Inr res"
  defines "pw \<equiv> view_pairwise canonical_hash binding_ok (references_pairwise_quality policy) gi"
  shows "\<exists>xs. list_all2 (\<lambda>r x. evaluate_rule pw policy gi r = Inr x) (gp_rules policy) xs \<and>
    gt_results res = xs @ qualification_results pw gi @ (if pairwise_unavailable policy gi then [unavailable_result] else []) \<and>
    gt_decision res = aggregate_decision (gt_results res)"
  using assms(1) unfolding pw_def by (auto simp: evaluate_gate_policy_def Let_def res_bind_Inr res_map_Inr split: if_splits)

lemma unavailable_simps [simp]:
  "rs_severity unavailable_result = ''block''" "\<not> rs_skipped unavailable_result" "rs_decision unavailable_result = Some INSUFFICIENT_EVIDENCE"
  by (simp_all add: unavailable_result_def)

lemma list_all2_in1: "list_all2 P xs ys \<Longrightarrow> x \<in> set xs \<Longrightarrow> \<exists>y \<in> set ys. P x y"
  by (auto simp: list_all2_iff in_set_conv_nth set_zip) (metis nth_mem)

lemma list_all2_in2: "list_all2 P xs ys \<Longrightarrow> y \<in> set ys \<Longrightarrow> \<exists>x \<in> set xs. P x y"
  by (auto simp: list_all2_iff in_set_conv_nth set_zip) (metis nth_mem)

lemma results_proper:
  assumes "evaluate_gate_policy canonical_hash binding_ok policy gi = Inr res" "policy_problem policy = None" "\<not> gp_diagnostic policy"
  shows "list_all (\<lambda>x. \<not> rs_skipped x \<and> rs_decision x \<noteq> Some PASS) (gt_results res)"
proof -
  let ?p = "view_pairwise canonical_hash binding_ok (references_pairwise_quality policy) gi"
  obtain xs where xs: "list_all2 (\<lambda>r x. evaluate_rule ?p policy gi r = Inr x) (gp_rules policy) xs"
      "gt_results res = xs @ qualification_results ?p gi @ (if pairwise_unavailable policy gi then [unavailable_result] else [])"
    using policy_results [OF assms(1)] by blast
  have "\<not> rs_skipped x \<and> rs_decision x \<noteq> Some PASS" if x: "x \<in> set xs" for x
  proof -
    obtain r where "r \<in> set (gp_rules policy)" "evaluate_rule ?p policy gi r = Inr x" using list_all2_in2 [OF xs(1) x] by blast
    then show ?thesis using proper_rule policy_problem_None(2) [OF assms(2,3)] by (auto simp: proper_result_def)
  qed
  then show ?thesis using qualification_results_proper [of _ ?p gi] by (auto simp: xs(2) list_all_iff)
qed

lemma policy_verdict:
  assumes "evaluate_gate_policy canonical_hash binding_ok policy gi = Inr res" "policy_problem policy = None" "\<not> gp_diagnostic policy"
  defines "pw \<equiv> view_pairwise canonical_hash binding_ok (references_pairwise_quality policy) gi"
  shows "gt_decision res = PASS \<longleftrightarrow>
    (\<forall>r \<in> set (gp_rules policy). gr_severity r = ''block'' \<longrightarrow> satisfied pw gi r) \<and> judges_qualified pw gi \<and> \<not> pairwise_unavailable policy gi"
proof -
  obtain xs where xs: "list_all2 (\<lambda>r x. evaluate_rule pw policy gi r = Inr x) (gp_rules policy) xs"
      "gt_results res = xs @ qualification_results pw gi @ (if pairwise_unavailable policy gi then [unavailable_result] else [])"
      "gt_decision res = aggregate_decision (gt_results res)"
    using policy_results [OF assms(1)] unfolding pw_def by blast
  have "gt_decision res = PASS \<longleftrightarrow> (\<forall>x \<in> set (gt_results res). rs_severity x = ''block'' \<longrightarrow> rs_decision x = None)"
    using aggregate_PASS [OF results_proper [OF assms(1-3)]] xs(3) by simp
  also have "\<dots> \<longleftrightarrow> (\<forall>x \<in> set xs. rs_severity x = ''block'' \<longrightarrow> rs_decision x = None) \<and>
      (\<forall>x \<in> set (qualification_results pw gi). rs_decision x = None) \<and> \<not> pairwise_unavailable policy gi"
    using qualification_results_proper [of _ pw gi] by (auto simp: xs(2))
  also have "(\<forall>x \<in> set xs. rs_severity x = ''block'' \<longrightarrow> rs_decision x = None) \<longleftrightarrow>
      (\<forall>r \<in> set (gp_rules policy). gr_severity r = ''block'' \<longrightarrow> satisfied pw gi r)"
  proof -
    have one: "rs_severity x = gr_severity r \<and> (rs_decision x = None \<longleftrightarrow> satisfied pw gi r)"
      if r: "r \<in> set (gp_rules policy)" and x: "evaluate_rule pw policy gi r = Inr x" for r x
      using rule_verdict [OF x policy_problem_None(1) [OF assms(2) r] assms(3)]
        proper_rule [OF x policy_problem_None(2) [OF assms(2,3) r]] by (simp add: proper_result_def)
    show ?thesis
    proof (intro iffI ballI impI)
      fix r assume a: "\<forall>x \<in> set xs. rs_severity x = ''block'' \<longrightarrow> rs_decision x = None" and r: "r \<in> set (gp_rules policy)" "gr_severity r = ''block''"
      obtain x where "x \<in> set xs" "evaluate_rule pw policy gi r = Inr x" using list_all2_in1 [OF xs(1) r(1)] by blast
      then show "satisfied pw gi r" using a one [OF r(1)] r(2) by auto
    next
      fix x assume a: "\<forall>r \<in> set (gp_rules policy). gr_severity r = ''block'' \<longrightarrow> satisfied pw gi r" and x: "x \<in> set xs" "rs_severity x = ''block''"
      obtain r where r: "r \<in> set (gp_rules policy)" "evaluate_rule pw policy gi r = Inr x" using list_all2_in2 [OF xs(1) x(1)] by blast
      then show "rs_decision x = None" using a one [OF r] x(2) by auto
    qed
  qed
  finally show ?thesis by (simp add: qualification_results_None)
qed

text \<open>More rules never improve the verdict of a formal policy.\<close>

lemma decide_mono: "set ds \<subseteq> set es \<Longrightarrow> severity_rank (decide ds) \<le> severity_rank (decide es)"
  using decide_member [of ds] decide_worst [of "decide ds" es] by auto

lemma verdict_mono:
  assumes "evaluate_gate_policy canonical_hash binding_ok p gi = Inr a" "evaluate_gate_policy canonical_hash binding_ok q gi = Inr b" "policy_problem p = None" "policy_problem q = None"
    "\<not> gp_diagnostic p" "\<not> gp_diagnostic q" "set (gp_rules p) \<subseteq> set (gp_rules q)"
    "references_pairwise_quality p = references_pairwise_quality q"
  shows "severity_rank (gt_decision a) \<le> severity_rank (gt_decision b)"
proof -
  let ?p = "view_pairwise canonical_hash binding_ok (references_pairwise_quality q) gi"
  obtain xs where xs: "list_all2 (\<lambda>r x. evaluate_rule ?p p gi r = Inr x) (gp_rules p) xs"
      "gt_results a = xs @ qualification_results ?p gi @ (if pairwise_unavailable p gi then [unavailable_result] else [])"
      "gt_decision a = aggregate_decision (gt_results a)"
    using policy_results [OF assms(1)] unfolding assms(8) by blast
  obtain ys where ys: "list_all2 (\<lambda>r x. evaluate_rule ?p q gi r = Inr x) (gp_rules q) ys"
      "gt_results b = ys @ qualification_results ?p gi @ (if pairwise_unavailable q gi then [unavailable_result] else [])"
      "gt_decision b = aggregate_decision (gt_results b)"
    using policy_results [OF assms(2)] by blast
  have "x \<in> set ys" if x: "x \<in> set xs" for x
  proof -
    obtain r where r: "r \<in> set (gp_rules p)" "evaluate_rule ?p p gi r = Inr x" using list_all2_in2 [OF xs(1) x] by blast
    have same: "evaluate_rule ?p q gi r = evaluate_rule ?p p gi r" using assms(5,6) by (simp add: evaluate_rule_def)
    obtain y where "y \<in> set ys" "evaluate_rule ?p q gi r = Inr y" using list_all2_in1 [OF ys(1)] r(1) assms(7) by blast
    then show ?thesis using r(2) same by simp
  qed
  moreover have "pairwise_unavailable q gi" if "pairwise_unavailable p gi"
    using that assms(7) by (auto simp: pairwise_unavailable_def list_ex_iff)
  ultimately have "set (gt_results a) \<subseteq> set (gt_results b)" using xs(2) ys(2) by auto
  then have "set (map rs_decision (filter (\<lambda>r. rs_severity r = ''block'') (gt_results a))) \<subseteq>
      set (map rs_decision (filter (\<lambda>r. rs_severity r = ''block'') (gt_results b)))" by auto
  from decide_mono [OF this] show ?thesis
    using aggregate_formal [of "gt_results a"] aggregate_formal [of "gt_results b"] results_proper [OF assms(1,3,5)]
      results_proper [OF assms(2,4,6)] xs(3) ys(3) by (simp add: list_all_iff)
qed

section \<open>Policies on the pairwise metric\<close>

lemma pairwise_policy_valid:
  assumes "validate_pairwise_quality_policy policy = Inr ()"
  shows "\<not> gp_diagnostic policy" "policy_problem policy = None" "\<exists>r \<in> set (gp_rules policy). gr_kind r = ''metric_threshold''"
    "r \<in> set (gp_rules policy) \<Longrightarrow> check_pairwise_rule r = Inr ()"
proof -
  have v: "\<not> gp_diagnostic policy \<and> policy_problem policy = None \<and> list_ex (\<lambda>r. gr_kind r = ''metric_threshold'') (gp_rules policy) \<and>
      (\<exists>us. res_map check_pairwise_rule (gp_rules policy) = Inr us)"
    using assms by (auto simp: validate_pairwise_quality_policy_def res_bind_Inr split: if_splits option.splits)
  then show "\<not> gp_diagnostic policy" "policy_problem policy = None" "\<exists>r \<in> set (gp_rules policy). gr_kind r = ''metric_threshold''"
    by (auto simp: list_ex_iff)
  from v obtain us where "list_all2 (\<lambda>r u. check_pairwise_rule r = Inr u) (gp_rules policy) us" by (auto simp: res_map_Inr)
  from list_all2_in1 [OF this, of r] show "check_pairwise_rule r = Inr ()" if "r \<in> set (gp_rules policy)" using that by auto
qed

lemma pairwise_threshold_rule:
  assumes "check_pairwise_rule r = Inr ()" "gr_kind r = ''metric_threshold''"
  shows "gr_severity r = ''block''" "gr_operator r = Some ''gte''" "\<exists>t. gr_threshold r = Some t \<and> is_ratio t"
proof -
  have c: "gr_severity r = ''block'' \<and> check_pairwise_threshold r = Inr ()"
    using assms by (simp add: check_pairwise_rule_def Let_def split: if_splits)
  then show "gr_severity r = ''block''" by blast
  show "gr_operator r = Some ''gte''" "\<exists>t. gr_threshold r = Some t \<and> is_ratio t"
    using c by (auto simp: check_pairwise_threshold_def pairwise_ratio_def split: if_splits)
qed

text \<open>A release on the pairwise metric rests on complete evidence and on its mean.\<close>

lemma pairwise_pass:
  assumes e: "evaluate_gate_policy canonical_hash binding_ok policy gi = Inr res"
    and p: "references_pairwise_quality policy" and pass: "gt_decision res = PASS"
  shows "\<exists>q. gs_quality (gi_snapshot gi) = Some q \<and> pq_source_pass q = rr_pass (gi_ref gi) \<and> pq_pair_values q \<noteq> [] \<and>
    set (map rb_pair (pq_roles q)) = set (map fst (pq_pair_values q)) \<and>
    (\<forall>(k, x) \<in> set (pq_pair_values q). \<exists>y. x = Some y \<and> is_ratio y) \<and>
    (\<exists>r \<in> set (gp_rules policy). gr_kind r = ''metric_threshold'') \<and>
    (\<forall>r \<in> set (gp_rules policy). gr_kind r = ''metric_threshold'' \<longrightarrow> (\<exists>t. gr_threshold r = Some t \<and>
      t \<le> sum_list (map (the \<circ> snd) (pq_pair_values q)) / of_nat (length (pq_pair_values q)) + 2 / 10 ^ 15))"
proof -
  have valid: "validate_pairwise_quality_policy policy = Inr ()"
    using e p by (auto simp: evaluate_gate_policy_def Let_def res_bind_Inr)
  note v = pairwise_policy_valid [OF valid]
  let ?pw = "view_pairwise canonical_hash binding_ok True gi"
  have sat: "satisfied ?pw gi r" if "r \<in> set (gp_rules policy)" "gr_kind r = ''metric_threshold''" for r
    using policy_verdict [OF e v(2,1)] pass that pairwise_threshold_rule(1) [OF v(4) [OF that(1)] that(2)] p by simp
  have known: "\<exists>w t. pw_resolved ?pw = Inr w \<and> gr_threshold r = Some t \<and> t \<le> w"
    if r: "r \<in> set (gp_rules policy)" "gr_kind r = ''metric_threshold''" for r
  proof -
    have "threshold_holds ?pw gi r" using sat [OF r] r(2) by (simp add: satisfied_def content_holds_def)
    then show ?thesis using pairwise_threshold_rule(2,3) [OF v(4) [OF r(1)] r(2)] r(2)
      by (auto simp: threshold_holds_def evidence_known_def view_pairwise_def Let_def gate_op_def split: if_splits)
  qed
  obtain r0 where r0: "r0 \<in> set (gp_rules policy)" "gr_kind r0 = ''metric_threshold''" using v(3) by blast
  obtain w where w: "pw_resolved ?pw = Inr w" using known [OF r0] by blast
  then have "resolve_pairwise_gate_metric canonical_hash (gi_ref gi) (gs_registry (gi_snapshot gi)) (gs_quality (gi_snapshot gi)) = Inr w"
    by (auto simp: view_pairwise_def Let_def split: if_splits)
  from resolved_complete [OF this] obtain q where q: "gs_quality (gi_snapshot gi) = Some q" "pq_source_pass q = rr_pass (gi_ref gi)"
      "pq_pair_values q \<noteq> []" "set (map rb_pair (pq_roles q)) = set (map fst (pq_pair_values q))"
      "\<forall>(k, x) \<in> set (pq_pair_values q). \<exists>y. x = Some y \<and> is_ratio y"
      "\<bar>w - sum_list (map (the \<circ> snd) (pq_pair_values q)) / of_nat (length (pq_pair_values q))\<bar> \<le> 2 / 10 ^ 15" by blast
  have "\<exists>t. gr_threshold r = Some t \<and> t \<le> sum_list (map (the \<circ> snd) (pq_pair_values q)) / of_nat (length (pq_pair_values q)) + 2 / 10 ^ 15"
    if r: "r \<in> set (gp_rules policy)" "gr_kind r = ''metric_threshold''" for r
  proof -
    obtain t where "gr_threshold r = Some t" "t \<le> w" using known [OF r] w by auto
    then show ?thesis using q(6) by (intro exI [of _ t]) linarith
  qed
  then show ?thesis using q(1-5) r0 by blast
qed

text \<open>The version a rule asks for plays no part in its evaluation.\<close>

lemma version_selectors:
  "gr_id (r\<lparr>gr_metric_version := v\<rparr>) = gr_id r"
  "gr_kind (r\<lparr>gr_metric_version := v\<rparr>) = gr_kind r"
  "gr_metric (r\<lparr>gr_metric_version := v\<rparr>) = gr_metric r"
  "gr_operator (r\<lparr>gr_metric_version := v\<rparr>) = gr_operator r"
  "gr_threshold (r\<lparr>gr_metric_version := v\<rparr>) = gr_threshold r"
  "gr_max_regression (r\<lparr>gr_metric_version := v\<rparr>) = gr_max_regression r"
  "gr_critical (r\<lparr>gr_metric_version := v\<rparr>) = gr_critical r"
  "gr_min_samples (r\<lparr>gr_metric_version := v\<rparr>) = gr_min_samples r"
  "gr_min_coverage (r\<lparr>gr_metric_version := v\<rparr>) = gr_min_coverage r"
  "gr_comparability (r\<lparr>gr_metric_version := v\<rparr>) = gr_comparability r"
  "gr_missing (r\<lparr>gr_metric_version := v\<rparr>) = gr_missing r"
  "gr_severity (r\<lparr>gr_metric_version := v\<rparr>) = gr_severity r"
  "gr_requires_run (r\<lparr>gr_metric_version := v\<rparr>) = gr_requires_run r"
  "gr_experimental (r\<lparr>gr_metric_version := v\<rparr>) = gr_experimental r"
  "gr_expected (r\<lparr>gr_metric_version := v\<rparr>) = gr_expected r"
  by simp_all

lemma finish_version:
  "finish (r\<lparr>gr_metric_version := v\<rparr>) = finish r" "comparability_gate (r\<lparr>gr_metric_version := v\<rparr>) = comparability_gate r"
  "rule_direction_reason (r\<lparr>gr_metric_version := v\<rparr>) = rule_direction_reason r"
  "coverage_problems c k (r\<lparr>gr_metric_version := v\<rparr>) = coverage_problems c k r"
  unfolding fun_eq_iff finish_def comparability_gate_def rule_direction_reason_def coverage_problems_def version_selectors by simp_all

lemma finish_missing_version: "finish_missing (r\<lparr>gr_metric_version := v\<rparr>) = finish_missing r"
  unfolding fun_eq_iff finish_missing_def finish_version version_selectors by simp

lemma evaluate_version:
  "evaluate_delta gi (r\<lparr>gr_metric_version := v\<rparr>) = evaluate_delta gi r"
  "evaluate_threshold (r\<lparr>gr_metric_version := v\<rparr>) = evaluate_threshold r"
  "evaluate_coverage pw gi (r\<lparr>gr_metric_version := v\<rparr>) = evaluate_coverage pw gi r"
  "evaluate_critical gi (r\<lparr>gr_metric_version := v\<rparr>) = evaluate_critical gi r"
  "evaluate_identity gi (r\<lparr>gr_metric_version := v\<rparr>) = evaluate_identity gi r"
  "evaluate_marker gi (r\<lparr>gr_metric_version := v\<rparr>) = evaluate_marker gi r"
  unfolding fun_eq_iff evaluate_delta_def evaluate_threshold_def evaluate_coverage_def evaluate_critical_def
      evaluate_identity_def evaluate_marker_def finish_version finish_missing_version version_selectors by (rule refl | rule allI)+

lemma metric_version_ignored: "evaluate_rule pw policy gi (r\<lparr>gr_metric_version := v\<rparr>) = evaluate_rule pw policy gi r"
proof -
  have mv: "evaluate_metric_rule pw gi (r\<lparr>gr_metric_version := v\<rparr>) = evaluate_metric_rule pw gi r"
    unfolding evaluate_metric_rule_def finish_version finish_missing_version evaluate_version version_selectors ..
  show ?thesis unfolding evaluate_rule_def finish_version finish_missing_version evaluate_version version_selectors mv ..
qed

section \<open>An example\<close>

definition sample_rule :: "string \<Rightarrow> string \<Rightarrow> gate_rule" where
  "sample_rule rule_id kind = \<lparr>gr_id = rule_id, gr_kind = kind, gr_metric = Some ''accuracy'', gr_metric_version = None,
     gr_operator = Some ''gte'', gr_threshold = Some (9 / 10), gr_max_regression = Some (1 / 50), gr_critical = [''c1''],
     gr_min_samples = Some 10, gr_min_coverage = Some 1, gr_comparability = None, gr_missing = ''fail_closed'',
     gr_severity = ''block'', gr_requires_run = True, gr_experimental = False, gr_expected = Some ''model-a'', gr_explicit = []\<rparr>"

definition sample_policy :: "gate_rule list \<Rightarrow> gate_policy" where
  "sample_policy rules = \<lparr>gp_id = ''release'', gp_version = ''1'', gp_lifecycle = ''published'', gp_rules = rules,
     gp_diagnostic = False, gp_created_by = ''qa'', gp_reason = ''release gate''\<rparr>"

definition sample_ref :: report_ref where
  "sample_ref = \<lparr>rr_run = ''r1'', rr_pass = ''p1'', rr_schema = ''report-v1'', rr_evidence = ''e1''\<rparr>"

definition sample_snapshot :: "rat \<Rightarrow> gate_snapshot" where
  "sample_snapshot accuracy = \<lparr>gs_metric_values = [(''accuracy'', Some (FFin accuracy)), (''cost.total_usd'', None)],
     gs_coverage = Some 1, gs_counts = [(''selected'', 20)], gs_dispositions = [(''c1'', ''judged'')],
     gs_case_results = [(''c1'', Some True)], gs_ref = Some sample_ref, gs_registry = ''metric-registry@1'', gs_quality = None\<rparr>"

definition sample_inputs :: gate_inputs where
  "sample_inputs = \<lparr>gi_ref = sample_ref, gi_snapshot = sample_snapshot (15 / 16), gi_run_status = ''completed'',
     gi_baseline_ref = Some (''r0'', ''p0''), gi_baseline = Some (sample_snapshot (15 / 16)),
     gi_level = Some LevelComparable, gi_eligibility = [],
     gi_evidence = \<lparr>ge_qualifications = [(''candidate'', PDict [(''required'', PBool True), (''gate_eligible'', PBool True)])],
       ge_model_identity = Some ''model-a'', ge_side_effects = PInt 0, ge_safety = PList []\<rparr>\<rparr>"

definition sample_rules :: "gate_rule list" where
  "sample_rules = [sample_rule ''acc'' ''metric_threshold'', sample_rule ''crit'' ''critical_case'', sample_rule ''cov'' ''coverage'',
     sample_rule ''delta'' ''baseline_delta'', sample_rule ''id'' ''model_identity'', sample_rule ''eff'' ''no_side_effect'', sample_rule ''safe'' ''safety_marker'']"

definition cost_rule :: gate_rule where
  "cost_rule = (sample_rule ''cost'' ''cost'')\<lparr>gr_metric := Some ''cost.total_usd'', gr_operator := Some ''lte'', gr_threshold := Some 5\<rparr>"

text \<open>Rounding 0 needs no search for its exponent.\<close>

lemma round_double_code [code]:
  "round_double q = (if q = 0 then FFin 0 else
     (let x = q * 2 ^ 1074; e = bit_len (nat \<lfloor>\<bar>x\<bar>\<rfloor>) - 53;
          r = of_int (round_half_even (x / 2 ^ e)) * 2 ^ e / 2 ^ 1074 in
      if r \<ge> 2 ^ 1024 then FPosInf else if r \<le> - (2 ^ 1024) then FNegInf else FFin r))"
  using round_double_exact [of 0 0 0] by (simp add: round_double_def)

lemma sample_verdicts:
  "(case evaluate_gate_policy (\<lambda>_. []) (\<lambda>_. False) (sample_policy sample_rules) sample_inputs of Inr res \<Rightarrow> gt_decision res = PASS | _ \<Rightarrow> False)"
  "(case evaluate_gate_policy (\<lambda>_. []) (\<lambda>_. False) (sample_policy (cost_rule # sample_rules)) sample_inputs of Inr res \<Rightarrow> gt_decision res = INSUFFICIENT_EVIDENCE | _ \<Rightarrow> False)"
  by code_simp+

text \<open>
  Outside of \<open>nonzero_baselines\<close>: a cost that rises from 0 passes, as long as it rises by no more than the allowed
  regression.
\<close>

definition zero_inputs :: gate_inputs where
  "zero_inputs = sample_inputs\<lparr>
     gi_snapshot := (sample_snapshot (15 / 16))\<lparr>gs_metric_values := [(''cost.total_usd'', Some (FFin (1 / 64)))]\<rparr>,
     gi_baseline := Some ((sample_snapshot (15 / 16))\<lparr>gs_metric_values := [(''cost.total_usd'', Some (FFin 0))]\<rparr>)\<rparr>"

definition zero_rule :: gate_rule where
  "zero_rule = (sample_rule ''delta'' ''baseline_delta'')\<lparr>gr_metric := Some ''cost.total_usd'', gr_operator := None, gr_threshold := None\<rparr>"

lemma zero_baseline_passes:
  "satisfied (view_pairwise (\<lambda>_. []) (\<lambda>_. False) False zero_inputs) zero_inputs zero_rule"
  "\<not> demanded (view_pairwise (\<lambda>_. []) (\<lambda>_. False) False zero_inputs) zero_inputs zero_rule"
proof -
  let ?pw = "view_pairwise (\<lambda>_. []) (\<lambda>_. False) False zero_inputs"
  obtain d where d: "lookup_metric METRIC_REGISTRY_VERSION ''cost.total_usd'' = Some d" "md_direction d = ''lte''"
  proof -
    have "case lookup_metric METRIC_REGISTRY_VERSION ''cost.total_usd'' of None \<Rightarrow> False | Some d \<Rightarrow> md_direction d = ''lte''" by code_simp
    then show ?thesis using that by (auto split: option.splits)
  qed
  have metric: "rule_metric zero_rule = ''cost.total_usd''" "gr_kind zero_rule = ''baseline_delta''" "gr_max_regression zero_rule = Some (1 / 50)"
    by (simp_all add: zero_rule_def sample_rule_def rule_metric_def)
  obtain b where b: "gi_baseline zero_inputs = Some b" "gi_baseline_ref zero_inputs \<noteq> None" "known_metric b ''cost.total_usd'' 0"
    by (simp add: zero_inputs_def sample_inputs_def known_metric_def d(1))
  have v: "known_metric (gi_snapshot zero_inputs) ''cost.total_usd'' (1 / 64)"
    by (simp add: zero_inputs_def known_metric_def d(1))
  have delta: "delta d 0 (1 / 64) = FFin (1 / 64)"
    using round_double_exact [of "1 / 64" 6 1] d(2) by (simp add: delta_def float_sub_def)
  have "delta_holds ?pw zero_inputs zero_rule"
    unfolding delta_holds_def metric evidence_known_def using b v d(1) delta
    by - (rule exI [of _ "1 / 64"], rule exI [of _ b], rule exI [of _ 0], rule exI [of _ d], rule exI [of _ "1 / 50"], simp add: float_le_def)
  then show "satisfied ?pw zero_inputs zero_rule"
    by (simp add: satisfied_def content_holds_def metric) (simp add: zero_inputs_def zero_rule_def sample_inputs_def sample_rule_def comparable_enough_def)
  show "\<not> demanded ?pw zero_inputs zero_rule"
    using b v d(1) delta metric by (auto simp: demanded_def float_le_def)
qed

text \<open>Two pairs, one won by the challenger and one tied.\<close>

definition sample_digest :: string where
  "sample_digest = ''sha256:'' @ replicate 64 CHR ''0''"

definition sample_role :: "string \<Rightarrow> role_binding" where
  "sample_role i = \<lparr>rb_case = ''c'' @ i, rb_pair = ''p'' @ i, rb_challenger = ''x'' @ i, rb_reference = ''y'' @ i,
     rb_challenger_attempt = ''ax'' @ i, rb_reference_attempt = ''ay'' @ i, rb_inputs = [(''x'' @ i, sample_digest), (''y'' @ i, sample_digest)]\<rparr>"

definition sample_quality :: pairwise_quality where
  "sample_quality = \<lparr>pq_source_pass = ''p1'', pq_job = Some ''j'', pq_plan = Some sample_digest, pq_ledger = Some sample_digest,
     pq_roles_sha = sample_digest, pq_roles = [sample_role ''1'', sample_role ''2''], pq_planned_pairs = 2, pq_valid_pairs = 2,
     pq_planned_calls = 2, pq_settled_calls = 2, pq_pair_values = [(''p1'', Some 1), (''p2'', Some (1 / 2))],
     pq_value = Some (3 / 4), pq_coverage = Some 1, pq_reasons = [], pq_content = sample_digest\<rparr>"

definition pairwise_ref :: report_ref where
  "pairwise_ref = \<lparr>rr_run = ''r1'', rr_pass = ''p1'', rr_schema = ''report-pairwise-v1'', rr_evidence = ''e1''\<rparr>"

definition pairwise_inputs :: gate_inputs where
  "pairwise_inputs = sample_inputs\<lparr>gi_ref := pairwise_ref, gi_baseline_ref := None, gi_baseline := None, gi_level := None,
     gi_snapshot := (sample_snapshot 0)\<lparr>gs_ref := Some pairwise_ref, gs_registry := ''metric-registry@2'', gs_quality := Some sample_quality\<rparr>,
     gi_evidence := (gi_evidence sample_inputs)\<lparr>ge_qualifications := [(''candidate'', PDict [(''required'', PBool True), (''gate_eligible'', PBool True),
       (''mode'', PStr ''pairwise''), (''experimental'', PBool False), (''pass_id'', PStr ''p1''), (''judge_pass_id'', PStr ''p1'')])]\<rparr>\<rparr>"

definition pairwise_rule :: gate_rule where
  "pairwise_rule = (sample_rule ''quality'' ''metric_threshold'')\<lparr>gr_metric := Some ''pairwise_challenger_score@1'', gr_threshold := Some (3 / 4),
     gr_max_regression := None, gr_critical := [], gr_min_samples := None, gr_min_coverage := None,
     gr_explicit := [''metric_id'', ''operator'', ''threshold'']\<rparr>"

lemma dyadic [simp]:
  "round_double 1 = FFin 1" "round_double 2 = FFin 2" "round_double (3 / 2) = FFin (3 / 2)" "round_double (3 / 4) = FFin (3 / 4)"
  using round_double_exact [of 1 0 1] round_double_exact [of 2 0 2] round_double_exact [of "3 / 2" 1 3] round_double_exact [of "3 / 4" 2 3] by simp_all

lemma sample_digest_ok: "is_digest sample_digest"
  by code_simp

lemma sample_fields: "quality_fields_ok sample_quality"
proof -
  have "role_problem (sample_role i) = None" for i
    using sample_digest_ok by (auto simp: role_problem_def role_fields_ok_def sample_role_def)
  then show ?thesis using sample_digest_ok by (simp add: quality_fields_ok_def sample_quality_def is_ratio_def)
qed

lemma sample_coherent: "coherence_problem (\<lambda>_. sample_digest) sample_quality = None"
  by (simp add: coherence_problem_def sample_quality_def sample_role_def valid_ids_def planned_coverage_def source_gap_def value_problem_def
      present_values_def fsum_mean_def isclose_def del: not_None_eq)

lemma sample_resolved: "resolve_pairwise_gate_metric (\<lambda>_. sample_digest) pairwise_ref ''metric-registry@2'' (Some sample_quality) = Inr (3 / 4)"
proof -
  have "quality_problem (\<lambda>_. sample_digest) sample_quality = None"
    using sample_fields sample_digest_ok sample_coherent by (simp add: quality_problem_def) (simp add: sample_quality_def)
  then show ?thesis by (simp add: resolve_pairwise_gate_metric_def pairwise_ref_def) (simp add: sample_quality_def)
qed

lemma sample_view: "view_pairwise (\<lambda>_. sample_digest) (\<lambda>_. True) True pairwise_inputs =
    \<lparr>pw_policy = True, pw_resolved = Inr (3 / 4), pw_coverage = Some 1, pw_pairs = Some 2, pw_eligible = True, pw_reason = [Txt ''verified_calibration_source'']\<rparr>"
  using sample_resolved by (simp add: view_pairwise_def pairwise_inputs_def pairwise_qualification_def sample_inputs_def dget_def Let_def)
    (simp add: sample_quality_def)

lemma sample_pairwise_pass:
  "\<exists>res. evaluate_gate_policy (\<lambda>_. sample_digest) (\<lambda>_. True) (sample_policy [pairwise_rule]) pairwise_inputs = Inr res \<and> gt_decision res = PASS"
proof -
  let ?p = "sample_policy [pairwise_rule]"
  have p: "references_pairwise_quality ?p" "validate_pairwise_quality_policy ?p = Inr ()" "\<not> pairwise_unavailable ?p pairwise_inputs" by code_simp+
  have i: "gi_baseline_ref pairwise_inputs = None" "gi_baseline pairwise_inputs = None" "gi_level pairwise_inputs = None" "gp_rules ?p = [pairwise_rule]"
    by (simp_all add: pairwise_inputs_def sample_policy_def)
  have r: "(case evaluate_rule \<lparr>pw_policy = True, pw_resolved = Inr (3 / 4), pw_coverage = Some 1, pw_pairs = Some 2, pw_eligible = True,
      pw_reason = [Txt ''verified_calibration_source'']\<rparr> ?p pairwise_inputs pairwise_rule of
      Inr x \<Rightarrow> rs_decision x = None \<and> \<not> rs_skipped x | _ \<Rightarrow> False)" by code_simp
  then obtain x where x: "evaluate_rule \<lparr>pw_policy = True, pw_resolved = Inr (3 / 4), pw_coverage = Some 1, pw_pairs = Some 2, pw_eligible = True,
      pw_reason = [Txt ''verified_calibration_source'']\<rparr> ?p pairwise_inputs pairwise_rule = Inr x" "rs_decision x = None" "\<not> rs_skipped x"
    by (auto split: sum.splits)
  have q: "qualification_results \<lparr>pw_policy = True, pw_resolved = Inr (3 / 4), pw_coverage = Some 1, pw_pairs = Some 2, pw_eligible = True,
      pw_reason = [Txt ''verified_calibration_source'']\<rparr> pairwise_inputs =
      [qualification_result ''judge_qualification'' True [Txt ''verified_calibration_source'']]"
    by (simp add: qualification_results_def role_result_def pairwise_inputs_def)
  have "aggregate_decision [x, qualification_result ''judge_qualification'' True [Txt ''verified_calibration_source'']] = PASS"
    using aggregate_PASS [of "[x, qualification_result ''judge_qualification'' True [Txt ''verified_calibration_source'']]"] x by simp
  then show ?thesis using p x i q by (simp add: evaluate_gate_policy_def sample_view)
qed

end
