(* ===== verification/Release.thy ===== *)
theory Release
  imports Comparison Gate_Verdict
begin

text \<open>
  A release decision against a baseline: the gate of \<open>Gate_Engine\<close> on the level and the metric eligibility of a
  comparison, as \<^verbatim>\<open>ComparisonService.evaluate_gate_versioned\<close> of \<^verbatim>\<open>packages/sdk-python/motte_sdk/comparisons.py\<close> passes them on.
\<close>

definition with_comparison :: "comparison_result \<Rightarrow> gate_inputs \<Rightarrow> gate_inputs" where
  "with_comparison r gi = gi\<lparr>gi_level := Some (cr_level r), gi_eligibility := cr_metrics r\<rparr>"

lemma pass_compares_like:
  assumes compare: "compare_run_reports pystr bref cref base cand factors bcost ccost bpair cpair = Inr r"
    and gate: "evaluate_gate_policy canonical_hash binding_ok policy (with_comparison r gi) = Inr res" "policy_problem policy = None" "\<not> gp_diagnostic policy"
    and pass: "gt_decision res = PASS"
    and scope: "declared_alike pystr base cand" "factors_apart factors"
    and rule: "rule \<in> set (gp_rules policy)" "gr_severity rule = ''block''" "gr_comparability rule \<noteq> None"
  shows "like_with_like pystr factors base cand" "scope_of rule = ''cost'' \<Longrightarrow> cost_known bcost \<and> cost_known ccost"
    "gr_comparability rule = Some ''comparable'' \<Longrightarrow> cr_level r = LevelComparable"
proof -
  have "gr_comparability rule = Some ''comparable'' \<or> gr_comparability rule = Some ''partial''"
    using rule_problem_None(9) [OF policy_problem_None(1) [OF gate(2) rule(1)]] rule(3) by auto
  moreover have "comparable_enough (with_comparison r gi) rule"
    using policy_verdict [OF gate] pass rule by (auto simp: satisfied_def)
  ultimately have level: "cr_level r \<noteq> LevelNot" "gr_comparability rule = Some ''comparable'' \<Longrightarrow> cr_level r = LevelComparable"
    and metric: "cr_level r = LevelPartial \<Longrightarrow> map_of (cr_metrics r) (scope_of rule) \<noteq> Some False"
    by (auto simp: comparable_enough_def with_comparison_def)
  show "like_with_like pystr factors base cand" using level(1) eligible_iff(2) [OF compare scope] by blast
  show "scope_of rule = ''cost'' \<Longrightarrow> cost_known bcost \<and> cost_known ccost"
    using cost_eligible [OF compare] metric level(1) by (metis comparability_level.exhaust)
  show "gr_comparability rule = Some ''comparable'' \<Longrightarrow> cr_level r = LevelComparable" by (rule level(2))
qed

section \<open>An example\<close>

text \<open>Two runs of the same cases with different models, where the policy allows the model to vary.\<close>

definition plain_str :: "pyval \<Rightarrow> string" where
  "plain_str v = (case v of PStr s \<Rightarrow> s | _ \<Rightarrow> [])"

definition sample_manifest :: "string \<Rightarrow> pydict" where
  "sample_manifest model = [(''model'', PStr model), (''case_ids'', PList [PStr ''c1'', PStr ''c2'']),
     (''external_benchmark'', PDict [(''dataset_revision'', PStr ''d7''), (''profile'', PDict [(''seed'', PInt 1), (''n_trials'', PInt 3)])]),
     (''budget'', PDict [(''policy'', PStr ''same-total-budget''), (''max_total_tokens'', PInt 1000)])]"

definition sample_cost :: pydict where
  "sample_cost = [(''known'', PBool True)]"

definition sample_comparison :: "exn + comparison_result" where
  "sample_comparison = compare_run_reports plain_str (sample_ref\<lparr>rr_run := ''r0''\<rparr>) sample_ref (sample_manifest ''model-b'') (sample_manifest ''model-a'')
     [''model''] (Some sample_cost) (Some sample_cost) None None"

definition sample_strict_rule :: gate_rule where
  "sample_strict_rule = (sample_rule ''acc'' ''metric_threshold'')\<lparr>gr_comparability := Some ''comparable''\<rparr>"

lemma sample_level: "case sample_comparison of Inr r \<Rightarrow> cr_level r = LevelComparable \<and> cr_structural r = [] \<and> length (cr_allowed r) = 2 \<and>
    cr_metrics r = [(''quality'', True), (''cost'', True)] | _ \<Rightarrow> False"
  by code_simp

lemma sample_alike: "declared_alike plain_str (sample_manifest ''model-b'') (sample_manifest ''model-a'')" "factors_apart [''model'']"
  by code_simp+

lemma sample_compared:
  obtains r where "sample_comparison = Inr r" "cr_level r = LevelComparable" "cr_metrics r = [(''quality'', True), (''cost'', True)]"
  using sample_level by (auto split: sum.splits)

lemma sample_gate: "case evaluate_gate_policy (\<lambda>_. []) (\<lambda>_. False) (sample_policy [sample_strict_rule])
    (sample_inputs\<lparr>gi_level := Some LevelComparable, gi_eligibility := [(''quality'', True), (''cost'', True)]\<rparr>) of
    Inr res \<Rightarrow> gt_decision res = PASS | _ \<Rightarrow> False"
  by code_simp

end
