(* ===== verification/Gate_Store.thy ===== *)
theory Gate_Store
  imports Frozen_Store
begin

text \<open>
  The store of gate policies and gate results, \<^verbatim>\<open>packages/storage/motte_storage/gate_store.py\<close>, in memory and in
  SQLite.  A policy is published once per identity and version and can only be deprecated; a result is
  appended once.
\<close>

section \<open>Validation\<close>

definition validate_policy :: "pydict \<Rightarrow> exn + pydict" where
  "validate_policy payload =
     (if \<not> nonempty_str (dget payload ''policy_id'') then Inl (ValueError ''gate policy requires a nonempty string policy_id'')
      else if \<not> nonempty_str (dget payload ''version'') then Inl (ValueError ''gate policy requires a nonempty string version'')
      else case dget payload ''rules'' of
        PList (r # rs) \<Rightarrow> Inr payload
      | _ \<Rightarrow> Inl (ValueError ''gate policy requires a nonempty rules list''))"

definition validate_gate_result :: "pydict \<Rightarrow> exn + pydict" where
  "validate_gate_result payload =
     (if \<not> nonempty_str (dget payload ''gate_result_id'') then Inl (ValueError ''gate result requires a nonempty string gate_result_id'')
      else if \<not> nonempty_str (dget payload ''policy_id'') then Inl (ValueError ''gate result requires a nonempty string policy_id'')
      else Inr payload)"

definition policy_key :: "pydict \<Rightarrow> string \<times> string" where
  "policy_key policy = (dstr policy ''policy_id'', dstr policy ''version'')"

definition sort_policies :: "pydict list \<Rightarrow> pydict list" where
  "sort_policies ps = sort_key (\<lambda>p. dstr p ''policy_id'') (sort_key (\<lambda>p. dstr p ''version'') ps)"

section \<open>In memory\<close>

record mem_gates =
  mg_policies :: "(string \<times> string, pydict) odict"
  mg_results :: "(string, pydict) odict"

definition mem_put_policy :: "pydict \<Rightarrow> (mem_gates, exn, pydict) sop" where
  "mem_put_policy payload =
     st_bind (st_lift (validate_policy payload)) (\<lambda>policy.
     st_bind (st_get (\<lambda>s. map_of (mg_policies s) (policy_key policy))) (\<lambda>existing. case existing of
         Some old \<Rightarrow>
           if \<not> py_eq (PDict old) (PDict policy) then
             st_raise (ValueError (''gate policies are immutable: '' @ dstr policy ''policy_id'' @ ''@'' @ dstr policy ''version''))
           else st_return old
       | None \<Rightarrow> st_bind (st_modify (\<lambda>s. s\<lparr>mg_policies := od_set (policy_key policy) policy (mg_policies s)\<rparr>)) (\<lambda>_. st_return policy)))"

definition mem_get_policy :: "string \<Rightarrow> string \<Rightarrow> mem_gates \<Rightarrow> pydict option" where
  "mem_get_policy policy_id version s = map_of (mg_policies s) (policy_id, version)"

definition mem_list_policies :: "string option \<Rightarrow> mem_gates \<Rightarrow> pydict list" where
  "mem_list_policies policy_id s =
     sort_policies (map snd (filter (\<lambda>((p, _), _). policy_id = None \<or> policy_id = Some p) (mg_policies s)))"

definition mem_deprecate_policy :: "string \<Rightarrow> string \<Rightarrow> (mem_gates, exn, pydict) sop" where
  "mem_deprecate_policy policy_id version =
     st_bind (st_get (\<lambda>s. map_of (mg_policies s) (policy_id, version))) (\<lambda>found. case found of
         None \<Rightarrow> st_raise (KeyError (policy_id @ ''@'' @ version))
       | Some policy \<Rightarrow>
           if py_eq (dget policy ''lifecycle'') (PStr ''deprecated'') then st_return policy
           else (let policy = od_set ''lifecycle'' (PStr ''deprecated'') policy in
             st_bind (st_modify (\<lambda>s. s\<lparr>mg_policies := od_set (policy_id, version) policy (mg_policies s)\<rparr>)) (\<lambda>_. st_return policy)))"

definition mem_put_gate_result :: "pydict \<Rightarrow> (mem_gates, exn, pydict) sop" where
  "mem_put_gate_result payload =
     st_bind (st_lift (validate_gate_result payload)) (\<lambda>result.
     (let result_id = dstr result ''gate_result_id'' in
     st_bind (st_get (\<lambda>s. map_of (mg_results s) result_id)) (\<lambda>existing. case existing of
         Some old \<Rightarrow>
           if \<not> py_eq (PDict old) (PDict result) then st_raise (ValueError (''gate results are append-only: '' @ result_id))
           else st_return old
       | None \<Rightarrow> st_bind (st_modify (\<lambda>s. s\<lparr>mg_results := od_set result_id result (mg_results s)\<rparr>)) (\<lambda>_. st_return result))))"

definition mem_get_gate_result :: "string \<Rightarrow> mem_gates \<Rightarrow> pydict option" where
  "mem_get_gate_result result_id s = map_of (mg_results s) result_id"

definition mem_list_gate_results :: "string option \<Rightarrow> int option \<Rightarrow> mem_gates \<Rightarrow> exn + pydict list" where
  "mem_list_gate_results policy_id limit s = map_sum id (\<lambda>_. take_limit limit (rev (filter
     (\<lambda>r. case policy_id of None \<Rightarrow> True | Some p \<Rightarrow> py_eq (dget r ''policy_id'') (PStr p)) (od_values (mg_results s))))) (check_limit limit)"

section \<open>SQLite\<close>

text \<open>
  The rows of \<^verbatim>\<open>gate_policies\<close> under their primary key, and of \<^verbatim>\<open>gate_results\<close> with the column \<^verbatim>\<open>policy_id\<close>, in the
  order of their \<^verbatim>\<open>rowid\<close>.
\<close>

record sql_gates =
  sg_policies :: "((string \<times> string) \<times> pydict) list"
  sg_results :: "(string \<times> string \<times> pydict) list"

definition sql_put_policy :: "pydict \<Rightarrow> (sql_gates, exn, pydict) sop" where
  "sql_put_policy payload =
     st_bind (st_lift (validate_policy payload)) (\<lambda>policy. transaction (
     st_bind (st_get (\<lambda>db. map_of (sg_policies db) (policy_key policy))) (\<lambda>row. case row of
         Some stored \<Rightarrow>
           if \<not> py_eq (PDict stored) (PDict policy) then
             st_raise (ValueError (''gate policies are immutable: '' @ dstr policy ''policy_id'' @ ''@'' @ dstr policy ''version''))
           else st_return stored
       | None \<Rightarrow> st_bind (st_modify (\<lambda>db. db\<lparr>sg_policies := sg_policies db @ [(policy_key policy, jnorm_dict policy)]\<rparr>)) (\<lambda>_.
           st_return policy))))"

definition sql_get_policy :: "string \<Rightarrow> string \<Rightarrow> sql_gates \<Rightarrow> pydict option" where
  "sql_get_policy policy_id version db = map_of (sg_policies db) (policy_id, version)"

text \<open>\<^verbatim>\<open>ORDER BY policy_id, version\<close>, or \<^verbatim>\<open>WHERE policy_id = ? ORDER BY version\<close>\<close>

definition sql_list_policies :: "string option \<Rightarrow> sql_gates \<Rightarrow> pydict list" where
  "sql_list_policies policy_id db = map snd (case policy_id of
       None \<Rightarrow> sort_key (\<lambda>((p, _), _). p) (sort_key (\<lambda>((_, v), _). v) (sg_policies db))
     | Some i \<Rightarrow> sort_key (\<lambda>((_, v), _). v) (filter (\<lambda>((p, _), _). p = i) (sg_policies db)))"

definition sql_deprecate_policy :: "string \<Rightarrow> string \<Rightarrow> (sql_gates, exn, pydict) sop" where
  "sql_deprecate_policy policy_id version = transaction (
     st_bind (st_get (\<lambda>db. map_of (sg_policies db) (policy_id, version))) (\<lambda>row. case row of
         None \<Rightarrow> st_raise (KeyError (policy_id @ ''@'' @ version))
       | Some policy \<Rightarrow>
           if py_eq (dget policy ''lifecycle'') (PStr ''deprecated'') then st_return policy
           else (let policy = od_set ''lifecycle'' (PStr ''deprecated'') policy in
             st_bind (st_modify (\<lambda>db. db\<lparr>sg_policies := map (\<lambda>(k, p). if k = (policy_id, version) then (k, jnorm_dict policy) else (k, p))
                 (sg_policies db)\<rparr>)) (\<lambda>_. st_return policy))))"

definition sql_put_gate_result :: "pydict \<Rightarrow> (sql_gates, exn, pydict) sop" where
  "sql_put_gate_result payload =
     st_bind (st_lift (validate_gate_result payload)) (\<lambda>result.
     (let result_id = dstr result ''gate_result_id'' in transaction (
     st_bind (st_get (\<lambda>db. map_of (sg_results db) result_id)) (\<lambda>row. case row of
         Some (_, stored) \<Rightarrow>
           if \<not> py_eq (PDict stored) (PDict result) then st_raise (ValueError (''gate results are append-only: '' @ result_id))
           else st_return stored
       | None \<Rightarrow> st_bind (st_modify (\<lambda>db. db\<lparr>sg_results := sg_results db @ [(result_id, dstr result ''policy_id'', jnorm_dict result)]\<rparr>)) (\<lambda>_.
           st_return result)))))"

definition sql_get_gate_result :: "string \<Rightarrow> sql_gates \<Rightarrow> pydict option" where
  "sql_get_gate_result result_id db = map_option snd (map_of (sg_results db) result_id)"

definition sql_list_gate_results :: "string option \<Rightarrow> int option \<Rightarrow> sql_gates \<Rightarrow> exn + pydict list" where
  "sql_list_gate_results policy_id limit db = map_sum id (\<lambda>_. take_limit limit (map (snd \<circ> snd) (rev (filter
     (\<lambda>(_, p, _). policy_id = None \<or> policy_id = Some p) (sg_results db))))) (check_limit limit)"

section \<open>The contract\<close>

datatype gate_call =
    GPut pydict
  | GDeprecate string string
  | GResult pydict

definition mem_gate_exec :: "gate_call \<Rightarrow> (mem_gates, exn, pydict) sop" where
  "mem_gate_exec op = (case op of GPut p \<Rightarrow> mem_put_policy p | GDeprecate i v \<Rightarrow> mem_deprecate_policy i v | GResult r \<Rightarrow> mem_put_gate_result r)"

definition sql_gate_exec :: "gate_call \<Rightarrow> (sql_gates, exn, pydict) sop" where
  "sql_gate_exec op = (case op of GPut p \<Rightarrow> sql_put_policy p | GDeprecate i v \<Rightarrow> sql_deprecate_policy i v | GResult r \<Rightarrow> sql_put_gate_result r)"

definition mem_gates_empty :: mem_gates where
  "mem_gates_empty = \<lparr>mg_policies = [], mg_results = []\<rparr>"

definition sql_gates_empty :: sql_gates where
  "sql_gates_empty = \<lparr>sg_policies = [], sg_results = []\<rparr>"

text \<open>A policy has two parts in its key, a result one.\<close>

type_synonym gate_key = "string \<times> string + string"

definition mem_gate_view :: "mem_gates \<Rightarrow> gate_key \<Rightarrow> (string \<Rightarrow> pyval option) option" where
  "mem_gate_view s k = map_option content (case k of Inl p \<Rightarrow> map_of (mg_policies s) p | Inr r \<Rightarrow> map_of (mg_results s) r)"

definition sql_gate_view :: "sql_gates \<Rightarrow> gate_key \<Rightarrow> (string \<Rightarrow> pyval option) option" where
  "sql_gate_view db k = map_option content (case k of Inl p \<Rightarrow> map_of (sg_policies db) p | Inr r \<Rightarrow> map_option snd (map_of (sg_results db) r))"

definition gate_change :: "gate_key \<Rightarrow> (string \<Rightarrow> pyval option) \<Rightarrow> (string \<Rightarrow> pyval option) \<Rightarrow> bool" where
  "gate_change k v w \<longleftrightarrow> w = v \<or> isl k \<and> w = v(''lifecycle'' \<mapsto> PStr ''deprecated'')"

lemma gate_change_refl [simp]: "gate_change k v v"
  by (simp add: gate_change_def)

lemma mem_gate_evolved: "evolved gate_change (mem_gate_view s) (mem_gate_view (snd (mem_gate_exec op s)))"
proof (cases op)
  case (GPut payload)
  show ?thesis
    by (auto simp: GPut mem_gate_exec_def mem_put_policy_def st_bind_def sop_simps evolved_def mem_gate_view_def
        split: sum.splits option.splits)
next
  case (GDeprecate i v)
  show ?thesis
    by (auto simp: GDeprecate mem_gate_exec_def mem_deprecate_policy_def st_bind_def sop_simps evolved_def mem_gate_view_def
        gate_change_def dict_simps Let_def split: sum.splits option.splits)
next
  case (GResult payload)
  show ?thesis
    by (auto simp: GResult mem_gate_exec_def mem_put_gate_result_def st_bind_def sop_simps evolved_def mem_gate_view_def Let_def
        split: sum.splits option.splits)
qed

lemma sql_gate_evolved: "evolved gate_change (sql_gate_view s) (sql_gate_view (snd (sql_gate_exec op s)))"
proof (cases op)
  case (GPut payload)
  show ?thesis
    by (auto simp: GPut sql_gate_exec_def sql_put_policy_def sop_defs sop_simps evolved_def sql_gate_view_def map_of_append_fresh
        split: sum.splits option.splits)
next
  case (GDeprecate i v)
  show ?thesis
    by (auto simp: GDeprecate sql_gate_exec_def sql_deprecate_policy_def sop_defs sop_simps evolved_def sql_gate_view_def
        gate_change_def dict_simps Let_def map_of_rewrite split: sum.splits option.splits)
next
  case (GResult payload)
  show ?thesis
    by (auto simp: GResult sql_gate_exec_def sql_put_gate_result_def sop_defs sop_simps evolved_def sql_gate_view_def Let_def
        map_of_append_fresh split: sum.splits option.splits)
qed

lemma gate_change_trans: "gate_change k u v \<Longrightarrow> gate_change k v w \<Longrightarrow> gate_change k u w"
  by (auto simp: gate_change_def)

interpretation memg: frozen_store mem_gate_exec "\<lambda>_. True" mem_gate_view gate_change
  by unfold_locales (auto intro: mem_gate_evolved gate_change_trans)

interpretation sqlg: frozen_store sql_gate_exec "\<lambda>_. True" sql_gate_view gate_change
  by unfold_locales (auto intro: sql_gate_evolved gate_change_trans)

end
