(* ===== verification/Baseline_Store.thy ===== *)
theory Baseline_Store
  imports Frozen_Store
begin

text \<open>
  Baselines: the snapshots of \<^verbatim>\<open>packages/storage/motte_storage/baseline_store.py\<close> with the default pointer of every
  scope and its history, and the older snapshots of \<^verbatim>\<open>baselines.py\<close>, in memory and in SQLite.  A pointer moves
  by compare-and-set; its history is kept.  Parsing a snapshot by its contract (\<^verbatim>\<open>BaselineSnapshot\<close>) is the
  parameter \<open>parse\<close>.
\<close>

section \<open>Moving the default pointer\<close>

text \<open>\<^verbatim>\<open>current.get("baseline_id") if current else None\<close>\<close>

definition current_baseline :: "pydict option \<Rightarrow> pyval" where
  "current_baseline current = (case current of None \<Rightarrow> PNone | Some c \<Rightarrow> if c = [] then PNone else dget c ''baseline_id'')"

definition check_expected :: "string \<Rightarrow> pydict option \<Rightarrow> string option \<Rightarrow> store_exn + unit" where
  "check_expected scope current expected = (case expected of
       Some e \<Rightarrow>
         if \<not> py_eq (current_baseline current) (PStr e) then
           Inl (Coded ''CAS_CONFLICT'' [Txt (''default baseline for scope '' @ scope @ '' is ''), Rep (current_baseline current),
             Txt '', expected '', Rep (PStr e)])
         else Inr ()
     | None \<Rightarrow>
         if current \<noteq> None then
           Inl (Coded ''CAS_CONFLICT'' [Txt (''default baseline for scope '' @ scope @ '' already exists; pass expected_current to move it'')])
         else Inr ())"

text \<open>\<^verbatim>\<open>(current.get("position", 0) + 1) if current else 1\<close>; a stored position is an integer.\<close>

definition next_position :: "pydict option \<Rightarrow> exn + int" where
  "next_position current = (case current of
       None \<Rightarrow> Inr 1
     | Some c \<Rightarrow> if c = [] then Inr 1 else
         (case dget_default c ''position'' (PInt 0) of PInt n \<Rightarrow> Inr (n + 1) | PBool b \<Rightarrow> Inr (of_bool b + 1) | _ \<Rightarrow> Inl (TypeError ''position'')))"

text \<open>\<open>None\<close> when the pointer already is where it should be.\<close>

definition move_pointer :: "pydict option \<Rightarrow> pydict \<Rightarrow> exn + pydict option" where
  "move_pointer current pointer =
     res_bind (case current of
         None \<Rightarrow> Inr False
       | Some c \<Rightarrow> res_bind (ditem pointer ''baseline_id'') (\<lambda>b. Inr (py_eq (dget c ''baseline_id'') b))) (\<lambda>same.
     if same then Inr None
     else res_bind (next_position current) (\<lambda>n. Inr (Some (od_set ''position'' (PInt n) pointer))))"

text \<open>Binding a value to a column that is declared \<^verbatim>\<open>NOT NULL\<close>.\<close>

definition bindable :: "pyval \<Rightarrow> exn + unit" where
  "bindable v = (case v of PNone \<Rightarrow> Inl IntegrityError | PList _ \<Rightarrow> Inl InterfaceError | PDict _ \<Rightarrow> Inl InterfaceError | _ \<Rightarrow> Inr ())"

section \<open>In memory\<close>

record mem_baselines =
  mb_snapshots :: "(string, pydict) odict"
  mb_defaults :: "(string, pydict) odict"
  mb_history :: "(string, pydict list) odict"

definition mem_put_baseline :: "(pydict \<Rightarrow> exn + pydict) \<Rightarrow> pydict \<Rightarrow> (mem_baselines, store_exn, pydict) sop" where
  "mem_put_baseline parse payload =
     st_bind (st_lift (plain (parse payload))) (\<lambda>snapshot.
     st_bind (st_lift (plain (ditem_str snapshot ''baseline_id''))) (\<lambda>snapshot_id.
     st_bind (st_get (\<lambda>s. map_of (mb_snapshots s) snapshot_id)) (\<lambda>existing. case existing of
         Some old \<Rightarrow>
           if \<not> py_eq (PDict old) (PDict snapshot) then
             st_raise (Coded ''BASELINE_IMMUTABLE'' [Txt (''baseline snapshots are immutable: '' @ snapshot_id)])
           else st_return old
       | None \<Rightarrow> st_bind (st_modify (\<lambda>s. s\<lparr>mb_snapshots := od_set snapshot_id snapshot (mb_snapshots s)\<rparr>)) (\<lambda>_. st_return snapshot))))"

definition mem_get_baseline :: "string \<Rightarrow> mem_baselines \<Rightarrow> pydict option" where
  "mem_get_baseline baseline_id s = map_of (mb_snapshots s) baseline_id"

definition mem_list_baselines :: "int option \<Rightarrow> mem_baselines \<Rightarrow> exn + pydict list" where
  "mem_list_baselines limit s = res_bind (check_limit limit) (\<lambda>_.
     (let snapshots = sort_key (\<lambda>d. dstr d ''created_at'') (od_values (mb_snapshots s)) in
      Inr (case limit of None \<Rightarrow> snapshots | Some n \<Rightarrow> drop (length snapshots - nat n) snapshots)))"

definition mem_set_default :: "pydict \<Rightarrow> string option \<Rightarrow> (mem_baselines, store_exn, pydict) sop" where
  "mem_set_default pointer expected =
     st_bind (st_lift (plain (ditem_str pointer ''scope''))) (\<lambda>scope.
     st_bind (st_get (\<lambda>s. map_of (mb_defaults s) scope)) (\<lambda>current.
     st_bind (st_lift (check_expected scope current expected)) (\<lambda>_.
     st_bind (st_lift (plain (move_pointer current pointer))) (\<lambda>moved. case moved of
         None \<Rightarrow> st_return (case current of None \<Rightarrow> [] | Some c \<Rightarrow> c)
       | Some p \<Rightarrow>
           st_bind (st_modify (\<lambda>s. s\<lparr>mb_defaults := od_set scope p (mb_defaults s),
             mb_history := od_set scope ((case map_of (mb_history s) scope of None \<Rightarrow> [] | Some h \<Rightarrow> h) @ [p]) (mb_history s)\<rparr>)) (\<lambda>_.
           st_return p)))))"

definition mem_get_default :: "string \<Rightarrow> mem_baselines \<Rightarrow> pydict option" where
  "mem_get_default scope s = map_of (mb_defaults s) scope"

text \<open>\<^verbatim>\<open>history[-limit:]\<close>\<close>

definition mem_default_history :: "string \<Rightarrow> int \<Rightarrow> mem_baselines \<Rightarrow> pydict list" where
  "mem_default_history scope limit s =
     (let h = (case map_of (mb_history s) scope of None \<Rightarrow> [] | Some h \<Rightarrow> h) in
      if limit > 0 then drop (length h - nat limit) h else drop (nat (- limit)) h)"

section \<open>SQLite\<close>

text \<open>Rows under their primary keys; the columns that are never read are left out.\<close>

record sql_baselines =
  sb_snapshots :: "(string \<times> pydict) list"
  sb_defaults :: "(string \<times> pydict) list"
  sb_history :: "((string \<times> int) \<times> pydict) list"

definition sql_put_baseline :: "(pydict \<Rightarrow> exn + pydict) \<Rightarrow> pydict \<Rightarrow> (sql_baselines, store_exn, pydict) sop" where
  "sql_put_baseline parse payload =
     st_bind (st_lift (plain (parse payload))) (\<lambda>snapshot.
     st_bind (st_lift (plain (ditem_str snapshot ''baseline_id''))) (\<lambda>snapshot_id. transaction (
     st_bind (st_get (\<lambda>db. map_of (sb_snapshots db) snapshot_id)) (\<lambda>row. case row of
         Some stored \<Rightarrow>
           if \<not> py_eq (PDict stored) (PDict snapshot) then
             st_raise (Coded ''BASELINE_IMMUTABLE'' [Txt (''baseline snapshots are immutable: '' @ snapshot_id)])
           else st_return stored
       | None \<Rightarrow> st_bind (st_modify (\<lambda>db. db\<lparr>sb_snapshots := sb_snapshots db @ [(snapshot_id, jnorm_dict snapshot)]\<rparr>)) (\<lambda>_.
           st_return snapshot)))))"

definition sql_get_baseline :: "string \<Rightarrow> sql_baselines \<Rightarrow> pydict option" where
  "sql_get_baseline baseline_id db = map_of (sb_snapshots db) baseline_id"

definition sql_list_baselines :: "int option \<Rightarrow> sql_baselines \<Rightarrow> exn + pydict list" where
  "sql_list_baselines limit db = map_sum id (\<lambda>_. take_limit limit (map snd (rev (sb_snapshots db)))) (check_limit limit)"

text \<open>\<^verbatim>\<open>INSERT ... ON CONFLICT(scope) DO UPDATE\<close>\<close>

definition upsert_default :: "string \<Rightarrow> pydict \<Rightarrow> (string \<times> pydict) list \<Rightarrow> (string \<times> pydict) list" where
  "upsert_default scope payload rows = (if map_of rows scope = None then rows @ [(scope, payload)]
     else map (\<lambda>(k, p). if k = scope then (k, payload) else (k, p)) rows)"

definition insert_history :: "string \<Rightarrow> int \<Rightarrow> pydict \<Rightarrow> (sql_baselines, store_exn, unit) sop" where
  "insert_history scope n payload =
     st_bind (st_get (\<lambda>db. map_of (sb_history db) (scope, n))) (\<lambda>row. case row of
         Some _ \<Rightarrow> st_raise (Plain IntegrityError)
       | None \<Rightarrow> st_modify (\<lambda>db. db\<lparr>sb_history := sb_history db @ [((scope, n), payload)]\<rparr>))"

definition sql_set_default :: "pydict \<Rightarrow> string option \<Rightarrow> (sql_baselines, store_exn, pydict) sop" where
  "sql_set_default pointer expected =
     st_bind (st_lift (plain (ditem_str pointer ''scope''))) (\<lambda>scope. transaction (
     st_bind (st_get (\<lambda>db. map_of (sb_defaults db) scope)) (\<lambda>current.
     st_bind (st_lift (check_expected scope current expected)) (\<lambda>_.
     st_bind (st_lift (plain (move_pointer current pointer))) (\<lambda>moved. case moved of
         None \<Rightarrow> st_return (case current of None \<Rightarrow> [] | Some c \<Rightarrow> c)
       | Some p \<Rightarrow>
           st_bind (st_lift (plain (res_bind (ditem p ''baseline_id'') bindable))) (\<lambda>_.
           st_bind (st_modify (\<lambda>db. db\<lparr>sb_defaults := upsert_default scope (jnorm_dict p) (sb_defaults db)\<rparr>)) (\<lambda>_.
           st_bind (st_lift (plain (next_position current))) (\<lambda>n.
           st_bind (insert_history scope n (jnorm_dict p)) (\<lambda>_. st_return p)))))))))"

definition sql_get_default :: "string \<Rightarrow> sql_baselines \<Rightarrow> pydict option" where
  "sql_get_default scope db = map_of (sb_defaults db) scope"

text \<open>\<^verbatim>\<open>ORDER BY position DESC LIMIT ?\<close>, reversed; a negative limit is none.\<close>

definition sql_default_history :: "string \<Rightarrow> int \<Rightarrow> sql_baselines \<Rightarrow> pydict list" where
  "sql_default_history scope limit db =
     (let rows = map snd (rev (sort_key (\<lambda>((_, n), _). n) (filter (\<lambda>((k, _), _). k = scope) (sb_history db))))
      in rev (if limit < 0 then rows else take (nat limit) rows))"

section \<open>The contract\<close>

datatype baseline_call =
    BPut pydict
  | BDefault pydict "string option"

definition mem_baseline_exec :: "(pydict \<Rightarrow> exn + pydict) \<Rightarrow> baseline_call \<Rightarrow> (mem_baselines, store_exn, pydict) sop" where
  "mem_baseline_exec parse op = (case op of BPut p \<Rightarrow> mem_put_baseline parse p | BDefault p e \<Rightarrow> mem_set_default p e)"

definition sql_baseline_exec :: "(pydict \<Rightarrow> exn + pydict) \<Rightarrow> baseline_call \<Rightarrow> (sql_baselines, store_exn, pydict) sop" where
  "sql_baseline_exec parse op = (case op of BPut p \<Rightarrow> sql_put_baseline parse p | BDefault p e \<Rightarrow> sql_set_default p e)"

definition mem_baselines_empty :: mem_baselines where
  "mem_baselines_empty = \<lparr>mb_snapshots = [], mb_defaults = [], mb_history = []\<rparr>"

definition sql_baselines_empty :: sql_baselines where
  "sql_baselines_empty = \<lparr>sb_snapshots = [], sb_defaults = [], sb_history = []\<rparr>"

text \<open>The keys: a snapshot, and a place in the history of a scope.\<close>

type_synonym baseline_key = "string + string \<times> int"

definition history_entry :: "pydict list option \<Rightarrow> int \<Rightarrow> pydict option" where
  "history_entry h n = (case h of None \<Rightarrow> None | Some ps \<Rightarrow> if 1 \<le> n \<and> n \<le> int (length ps) then Some (ps ! nat (n - 1)) else None)"

definition mem_baseline_view :: "mem_baselines \<Rightarrow> baseline_key \<Rightarrow> (string \<Rightarrow> pyval option) option" where
  "mem_baseline_view s k = map_option content (case k of
       Inl i \<Rightarrow> map_of (mb_snapshots s) i
     | Inr (scope, n) \<Rightarrow> history_entry (map_of (mb_history s) scope) n)"

definition sql_baseline_view :: "sql_baselines \<Rightarrow> baseline_key \<Rightarrow> (string \<Rightarrow> pyval option) option" where
  "sql_baseline_view db k = map_option content (case k of Inl i \<Rightarrow> map_of (sb_snapshots db) i | Inr p \<Rightarrow> map_of (sb_history db) p)"

definition unchanged :: "'k \<Rightarrow> 'v \<Rightarrow> 'v \<Rightarrow> bool" where
  "unchanged k v w \<longleftrightarrow> w = v"

lemma history_entry_append: "history_entry (Some h) n = Some p \<Longrightarrow> history_entry (Some (h @ [q])) n = Some p"
  by (auto simp: history_entry_def nth_append split: if_splits)

lemma mem_baseline_evolved: "evolved unchanged (mem_baseline_view s) (mem_baseline_view (snd (mem_baseline_exec parse op s)))"
proof (cases op)
  case (BPut payload)
  show ?thesis
    by (auto simp: BPut mem_baseline_exec_def mem_put_baseline_def st_bind_def sop_simps evolved_def mem_baseline_view_def unchanged_def
        split: sum.splits option.splits)
next
  case (BDefault pointer e)
  show ?thesis
    by (auto simp: BDefault mem_baseline_exec_def mem_set_default_def st_bind_def sop_simps evolved_def mem_baseline_view_def unchanged_def
        history_entry_append [simplified] split: sum.splits option.splits) (auto simp: history_entry_def nth_append split: if_splits)
qed

lemma sql_baseline_evolved: "evolved unchanged (sql_baseline_view s) (sql_baseline_view (snd (sql_baseline_exec parse op s)))"
proof (cases op)
  case (BPut payload)
  show ?thesis
    by (auto simp: BPut sql_baseline_exec_def sql_put_baseline_def sop_defs sop_simps evolved_def sql_baseline_view_def unchanged_def
        map_of_append_fresh split: sum.splits option.splits)
next
  case (BDefault pointer e)
  show ?thesis
    by (auto simp: BDefault sql_baseline_exec_def sql_set_default_def insert_history_def sop_defs sop_simps evolved_def sql_baseline_view_def
        unchanged_def map_of_append_fresh split: sum.splits option.splits)
qed

interpretation memb: frozen_store "mem_baseline_exec parse" "\<lambda>_. True" mem_baseline_view unchanged for parse
  by unfold_locales (auto intro: mem_baseline_evolved simp: unchanged_def)

interpretation sqlb: frozen_store "sql_baseline_exec parse" "\<lambda>_. True" sql_baseline_view unchanged for parse
  by unfold_locales (auto intro: sql_baseline_evolved simp: unchanged_def)

section \<open>The snapshots of the first version\<close>

text \<open>\<^verbatim>\<open>_validate\<close> of \<^verbatim>\<open>baselines.py\<close>\<close>

definition validate_snapshot :: "pydict \<Rightarrow> exn + pydict" where
  "validate_snapshot snapshot =
     (if \<not> nonempty_str (dget snapshot ''id'') then Inl (ValueError ''baseline requires a nonempty string id'')
      else if \<not> nonempty_str (dget snapshot ''run_id'') then Inl (ValueError ''baseline requires a nonempty string run_id'')
      else if \<not> nonempty_str (dget snapshot ''scoring_pass_id'') then Inl (ValueError ''baseline requires a nonempty string scoring_pass_id'')
      else case dget snapshot ''metrics'' of PDict _ \<Rightarrow> Inr snapshot | _ \<Rightarrow> Inl (ValueError ''baseline metrics must be an object''))"

type_synonym mem_snapshots = "(string, pydict) odict"

definition mem_put_snapshot :: "pydict \<Rightarrow> (mem_snapshots, exn, pydict) sop" where
  "mem_put_snapshot snapshot =
     st_bind (st_lift (validate_snapshot snapshot)) (\<lambda>valid.
     (let stored = dsetdefault ''created_at'' (PStr []) valid; snapshot_id = dstr stored ''id'' in
     st_bind (st_get (\<lambda>s. map_of s snapshot_id)) (\<lambda>existing.
       if existing \<noteq> None then st_raise (ValueError (''baseline snapshots are immutable: '' @ snapshot_id))
       else st_bind (st_modify (od_set snapshot_id stored)) (\<lambda>_. st_return stored))))"

definition mem_get_snapshot :: "string \<Rightarrow> mem_snapshots \<Rightarrow> pydict option" where
  "mem_get_snapshot snapshot_id s = map_of s snapshot_id"

definition mem_get_for_run :: "string \<Rightarrow> mem_snapshots \<Rightarrow> pydict list" where
  "mem_get_for_run run_id s = filter (\<lambda>item. py_eq (dget item ''run_id'') (PStr run_id)) (od_values s)"

text \<open>The rows of \<^verbatim>\<open>baseline_snapshots\<close>: the identity, the run, the payload.\<close>

type_synonym sql_snapshots = "(string \<times> string \<times> pydict) list"

definition sql_put_snapshot :: "pydict \<Rightarrow> (sql_snapshots, exn, pydict) sop" where
  "sql_put_snapshot snapshot =
     st_bind (st_lift (validate_snapshot snapshot)) (\<lambda>valid.
     (let stored = dsetdefault ''created_at'' (PStr []) valid; snapshot_id = dstr stored ''id'' in transaction (
     st_bind (st_get (\<lambda>db. map_of db snapshot_id)) (\<lambda>row.
       if row \<noteq> None then st_raise (ValueError (''baseline snapshots are immutable: '' @ snapshot_id))
       else st_bind (st_modify (\<lambda>db. db @ [(snapshot_id, dstr stored ''run_id'', jnorm_dict stored)])) (\<lambda>_. st_return stored)))))"

definition sql_get_snapshot :: "string \<Rightarrow> sql_snapshots \<Rightarrow> pydict option" where
  "sql_get_snapshot snapshot_id db = map_option snd (map_of db snapshot_id)"

definition sql_get_for_run :: "string \<Rightarrow> sql_snapshots \<Rightarrow> pydict list" where
  "sql_get_for_run run_id db = map (snd \<circ> snd) (filter (\<lambda>(_, r, _). r = run_id) db)"

definition mem_snapshot_view :: "mem_snapshots \<Rightarrow> string \<Rightarrow> (string \<Rightarrow> pyval option) option" where
  "mem_snapshot_view s i = map_option content (mem_get_snapshot i s)"

definition sql_snapshot_view :: "sql_snapshots \<Rightarrow> string \<Rightarrow> (string \<Rightarrow> pyval option) option" where
  "sql_snapshot_view db i = map_option content (sql_get_snapshot i db)"

lemma mem_snapshot_evolved: "evolved unchanged (mem_snapshot_view s) (mem_snapshot_view (snd (mem_put_snapshot p s)))"
  by (auto simp: mem_put_snapshot_def st_bind_def sop_simps evolved_def mem_snapshot_view_def mem_get_snapshot_def unchanged_def Let_def
      split: sum.splits)

lemma sql_snapshot_evolved: "evolved unchanged (sql_snapshot_view s) (sql_snapshot_view (snd (sql_put_snapshot p s)))"
  by (auto simp: sql_put_snapshot_def sop_defs sop_simps evolved_def sql_snapshot_view_def sql_get_snapshot_def unchanged_def Let_def
      map_of_append_fresh split: sum.splits)

interpretation mems: frozen_store mem_put_snapshot "\<lambda>_. True" mem_snapshot_view unchanged
  by unfold_locales (auto intro: mem_snapshot_evolved simp: unchanged_def)

interpretation sqls: frozen_store sql_put_snapshot "\<lambda>_. True" sql_snapshot_view unchanged
  by unfold_locales (auto intro: sql_snapshot_evolved simp: unchanged_def)

section \<open>The default pointer and its history\<close>

text \<open>
  In both stores the places of a scope's history are \<open>1, 2, ..., n\<close> without a gap, each entry carries its
  place, and the default of the scope is the last entry.
\<close>

definition at_place :: "pydict \<Rightarrow> nat \<Rightarrow> bool" where
  "at_place p n \<longleftrightarrow> map_of p ''position'' = Some (PInt (int n))"

definition pointer_ok :: "pydict option \<Rightarrow> pydict list \<Rightarrow> bool" where
  "pointer_ok d h \<longleftrightarrow> d = (if h = [] then None else Some (last h)) \<and> (\<forall>i < length h. at_place (h ! i) (Suc i))"

definition mem_history :: "mem_baselines \<Rightarrow> string \<Rightarrow> pydict list" where
  "mem_history s scope = (case map_of (mb_history s) scope of None \<Rightarrow> [] | Some h \<Rightarrow> h)"

definition sql_history :: "sql_baselines \<Rightarrow> string \<Rightarrow> pydict list" where
  "sql_history db scope = map snd (filter (\<lambda>((k, _), _). k = scope) (sb_history db))"

definition mem_pointers_ok :: "mem_baselines \<Rightarrow> bool" where
  "mem_pointers_ok s \<longleftrightarrow> (\<forall>scope. pointer_ok (mem_get_default scope s) (mem_history s scope))"

definition sql_pointers_ok :: "sql_baselines \<Rightarrow> bool" where
  "sql_pointers_ok db \<longleftrightarrow> (\<forall>scope. pointer_ok (sql_get_default scope db) (sql_history db scope)) \<and>
     (\<forall>((scope, n), p) \<in> set (sb_history db). map_of p ''position'' = Some (PInt n))"

lemma pointer_ok_next:
  assumes "pointer_ok d h" shows "next_position d = Inr (int (length h) + 1)"
proof (cases "h = []")
  case True
  then show ?thesis using assms by (simp add: pointer_ok_def next_position_def)
next
  case False
  then have "d = Some (last h)" "at_place (h ! (length h - 1)) (Suc (length h - 1))"
    using assms unfolding pointer_ok_def by (simp_all only: if_False) (metis False diff_less length_greater_0_conv zero_less_one)
  then have "d = Some (last h)" "map_of (last h) ''position'' = Some (PInt (int (length h)))"
    using False by (simp_all add: at_place_def last_conv_nth)
  then show ?thesis by (auto simp: next_position_def dget_default_def)
qed

lemma pointer_ok_snoc:
  "pointer_ok d h \<Longrightarrow> at_place p (Suc (length h)) \<Longrightarrow> pointer_ok (Some p) (h @ [p])"
  by (auto simp: pointer_ok_def nth_append less_Suc_eq)

lemma move_pointer_place:
  assumes "pointer_ok d h" "move_pointer d pointer = Inr (Some p)"
  shows "p = od_set ''position'' (PInt (int (length h) + 1)) pointer" "at_place p (Suc (length h))"
proof -
  show "p = od_set ''position'' (PInt (int (length h) + 1)) pointer"
    using assms(2) by (auto simp: move_pointer_def res_bind_def pointer_ok_next [OF assms(1)] split: sum.splits if_splits)
  then show "at_place p (Suc (length h))" by (simp add: at_place_def)
qed

lemma mem_set_default_pointers:
  assumes "mem_pointers_ok s" shows "mem_pointers_ok (snd (mem_set_default pointer e s))"
proof (cases "snd (mem_set_default pointer e s) = s")
  case False
  then obtain scope p where p: "move_pointer (map_of (mb_defaults s) scope) pointer = Inr (Some p)"
    and t: "snd (mem_set_default pointer e s) = s\<lparr>mb_defaults := od_set scope p (mb_defaults s),
        mb_history := od_set scope (mem_history s scope @ [p]) (mb_history s)\<rparr>"
    by (auto simp: mem_set_default_def st_bind_def sop_simps mem_history_def split: sum.splits option.splits)
  have "pointer_ok (map_of (mb_defaults s) scope) (mem_history s scope)"
    using assms by (simp add: mem_pointers_ok_def mem_get_default_def)
  from pointer_ok_snoc [OF this move_pointer_place(2) [OF this p]] show ?thesis
    using assms by (simp add: t mem_pointers_ok_def mem_get_default_def mem_history_def)
qed (use assms in simp)

lemma mem_baseline_pointers: "mem_pointers_ok s \<Longrightarrow> mem_pointers_ok (snd (mem_baseline_exec parse op s))"
proof (cases op)
  case (BPut payload)
  have "mb_defaults (snd (mem_put_baseline parse payload s)) = mb_defaults s"
    "mb_history (snd (mem_put_baseline parse payload s)) = mb_history s"
    by (auto simp: mem_put_baseline_def st_bind_def sop_simps split: sum.splits option.splits)
  then show "mem_pointers_ok s \<Longrightarrow> ?thesis"
    by (simp add: BPut mem_baseline_exec_def mem_pointers_ok_def mem_get_default_def mem_history_def)
qed (simp add: mem_baseline_exec_def mem_set_default_pointers)


lemma sql_history_rows:
  assumes "sql_pointers_ok db" "map_of (sb_history db) (scope, n) = Some p"
  shows "n \<le> int (length (sql_history db scope))"
proof -
  have r: "((scope, n), p) \<in> set (sb_history db)" using assms(2) by (rule map_of_SomeD)
  then have "p \<in> set (sql_history db scope)" by (force simp: sql_history_def)
  then obtain i where i: "i < length (sql_history db scope)" "sql_history db scope ! i = p" by (auto simp: in_set_conv_nth)
  have "map_of p ''position'' = Some (PInt n)" using assms(1) r by (auto simp: sql_pointers_ok_def)
  moreover have "at_place p (Suc i)" using assms(1) i by (auto simp: sql_pointers_ok_def pointer_ok_def)
  ultimately show ?thesis using i(1) by (simp add: at_place_def)
qed

lemma at_place_jnorm: "at_place p n \<Longrightarrow> at_place (jnorm_dict p) n"
  by (simp add: at_place_def map_of_jnorm_dict)

lemma map_of_upsert: "map_of (upsert_default scope p rows) = (map_of rows)(scope \<mapsto> p)"
  by (cases "map_of rows scope") (auto simp: upsert_default_def map_of_append_fresh [of rows scope] map_of_rewrite fun_eq_iff simp del: map_of_append)

lemma sql_set_default_pointers:
  assumes "sql_pointers_ok db"
  shows "sql_pointers_ok (snd (sql_set_default pointer e db))"
proof (cases "snd (sql_set_default pointer e db) = db")
  case False
  then obtain scope p n where p: "move_pointer (map_of (sb_defaults db) scope) pointer = Inr (Some p)"
    and n: "next_position (map_of (sb_defaults db) scope) = Inr n"
    and t: "snd (sql_set_default pointer e db) = db\<lparr>sb_defaults := upsert_default scope (jnorm_dict p) (sb_defaults db),
        sb_history := sb_history db @ [((scope, n), jnorm_dict p)]\<rparr>"
    by (auto simp: sql_set_default_def insert_history_def sop_defs sop_simps split: sum.splits option.splits)
  have ok: "pointer_ok (map_of (sb_defaults db) scope) (sql_history db scope)"
    using assms by (simp add: sql_pointers_ok_def sql_get_default_def)
  have place: "at_place (jnorm_dict p) (Suc (length (sql_history db scope)))"
    by (rule at_place_jnorm [OF move_pointer_place(2) [OF ok p]])
  have "n = int (length (sql_history db scope)) + 1" using pointer_ok_next [OF ok] n by simp
  then show ?thesis using pointer_ok_snoc [OF ok place] place assms
    by (auto simp: t sql_pointers_ok_def sql_get_default_def sql_history_def map_of_upsert at_place_def add.commute)
qed (use assms in simp)

text \<open>The place of a moved pointer is always free: the insertion into the history never conflicts.\<close>

lemma insert_history_free:
  assumes "sql_pointers_ok db" "next_position (map_of (sb_defaults db) scope) = Inr n"
  shows "map_of (sb_history db) (scope, n) = None"
proof (rule ccontr)
  assume "map_of (sb_history db) (scope, n) \<noteq> None"
  then have "n \<le> int (length (sql_history db scope))" using sql_history_rows [OF assms(1)] by blast
  moreover have "pointer_ok (map_of (sb_defaults db) scope) (sql_history db scope)"
    using assms(1) by (simp add: sql_pointers_ok_def sql_get_default_def)
  ultimately show False using pointer_ok_next assms(2) by force
qed

lemma sql_baseline_pointers: "sql_pointers_ok db \<Longrightarrow> sql_pointers_ok (snd (sql_baseline_exec parse op db))"
proof (cases op)
  case (BPut payload)
  have "sb_defaults (snd (sql_put_baseline parse payload db)) = sb_defaults db"
    "sb_history (snd (sql_put_baseline parse payload db)) = sb_history db"
    by (auto simp: sql_put_baseline_def sop_defs sop_simps split: sum.splits option.splits)
  then show "sql_pointers_ok db \<Longrightarrow> ?thesis"
    by (simp add: BPut sql_baseline_exec_def sql_pointers_ok_def sql_get_default_def sql_history_def)
qed (simp add: sql_baseline_exec_def sql_set_default_pointers)

end
