(* ===== verification/Trial_Store.thy ===== *)
theory Trial_Store
  imports Frozen_Store
begin

text \<open>
  Trials, \<^verbatim>\<open>packages/storage/motte_storage/trials.py\<close>: the planned units of a run and the result of each, in memory
  and in SQLite.  A plan is frozen when it is created; a result is final unless it is a placeholder of the
  platform, which the first real result replaces.  The canonical JSON text of a value is the parameter
  \<open>canon\<close>; the clock readings are arguments.
\<close>

section \<open>Plans and results\<close>

definition validate_plan :: "pydict \<Rightarrow> exn + pydict" where
  "validate_plan plan =
     (if \<not> nonempty_str (dget plan ''trial_id'') then Inl (ValueError ''trial plan requires a nonempty string trial_id'')
      else if \<not> nonempty_str (dget plan ''run_id'') then Inl (ValueError ''trial plan requires a nonempty string run_id'')
      else if \<not> nonempty_str (dget plan ''task_key'') then Inl (ValueError ''trial plan requires a nonempty string task_key'')
      else if \<not> (case dget plan ''repeat_index'' of PInt n \<Rightarrow> 0 \<le> n | _ \<Rightarrow> False) then
        Inl (ValueError ''trial plan requires a non-negative integer repeat_index'')
      else if \<not> nonempty_str (dget plan ''agent_config_hash'') then Inl (ValueError ''trial plan requires a nonempty string agent_config_hash'')
      else if \<not> nonempty_str (dget plan ''environment_hash'') then Inl (ValueError ''trial plan requires a nonempty string environment_hash'')
      else Inr plan)"

definition validate_result :: "pydict \<Rightarrow> exn + pydict" where
  "validate_result result =
     (if \<not> nonempty_str (dget result ''trial_id'') then Inl (ValueError ''trial result requires a nonempty string trial_id'')
      else if \<not> nonempty_str (dget result ''disposition'') then Inl (ValueError ''trial result requires a disposition'')
      else Inr result)"

definition plan_conflict :: "pydict \<Rightarrow> pydict \<Rightarrow> pydict" where
  "plan_conflict existing incoming =
     [(''status'', PStr ''conflict''), (''trial_id'', dget incoming ''trial_id''),
      (''existing'', PDict [(''plan_hash'', dget existing ''plan_hash''), (''plan'', dget existing ''plan'')]),
      (''incoming'', PDict [(''plan_hash'', dget incoming ''plan_hash''), (''plan'', dget incoming ''plan'')])]"

definition result_conflict :: "(pyval \<Rightarrow> string) \<Rightarrow> pydict \<Rightarrow> pydict \<Rightarrow> string \<Rightarrow> string \<Rightarrow> pydict" where
  "result_conflict canon existing incoming source_hash parser_version =
     [(''status'', PStr ''conflict''), (''trial_id'', dget incoming ''trial_id''),
      (''existing'', PDict [(''result_hash'', dget existing ''result_hash''), (''source_hash'', dget existing ''source_hash''),
        (''parser_version'', dget existing ''parser_version'')]),
      (''incoming'', PDict [(''result_hash'', PStr (canon (PDict incoming))), (''source_hash'', PStr source_hash),
        (''parser_version'', PStr parser_version)])]"

definition identity_mismatch :: "pydict \<Rightarrow> pydict \<Rightarrow> string \<Rightarrow> bool" where
  "identity_mismatch row result field =
     (case map_of result field of None \<Rightarrow> False | Some v \<Rightarrow> \<not> py_eq v (dget row field))"

definition check_result_identity :: "pydict \<Rightarrow> pydict \<Rightarrow> string \<Rightarrow> store_exn + unit" where
  "check_result_identity row result trial_id =
     (if \<not> py_eq (dget result ''trial_id'') (PStr trial_id) then
        Inl (Coded ''ValueError'' [Txt ''trial result identity mismatch: trial_id '', Rep (dget result ''trial_id''), Txt '' != target '', Rep (PStr trial_id)])
      else case find (identity_mismatch row result) [''run_id'', ''task_key'', ''repeat_index''] of
        Some field \<Rightarrow> Inl (Coded ''ValueError'' [Txt (''trial result identity mismatch: '' @ field @ '' ''), Rep (dget result field),
          Txt '' != frozen plan '', Rep (dget row field)])
      | None \<Rightarrow> Inr ())"

definition plan_record :: "(pyval \<Rightarrow> string) \<Rightarrow> string \<Rightarrow> pydict \<Rightarrow> exn + pydict" where
  "plan_record canon now plan =
     res_bind (validate_plan plan) (\<lambda>stored. Inr (od_merge stored
       [(''plan'', PDict plan), (''plan_hash'', PStr (canon (PDict plan))), (''status'', PStr ''pending''), (''created_at'', PStr now),
        (''result'', PNone), (''result_hash'', PNone), (''source_hash'', PNone), (''parser_version'', PNone), (''finished_at'', PNone)]))"

definition is_synthetic_result :: "pyval \<Rightarrow> bool" where
  "is_synthetic_result result = (case result of PDict d \<Rightarrow> py_truthy (dget d ''synthesized_by'') | _ \<Rightarrow> False)"

definition placeholder_replacement :: "pydict \<Rightarrow> pydict \<Rightarrow> pydict option" where
  "placeholder_replacement existing incoming =
     (if \<not> is_synthetic_result (dget existing ''result'') \<or> is_synthetic_result (PDict incoming) then None
      else (let previous = (case dget existing ''result'' of PDict d \<Rightarrow> d | _ \<Rightarrow> []) in
        Some [(''previous'', PDict [(''disposition'', dget previous ''disposition''), (''synthesized_by'', dget previous ''synthesized_by''),
          (''result_hash'', dget existing ''result_hash'')])]))"

text \<open>The row with the result in it, and the outcome for the caller.\<close>

definition apply_result :: "pydict \<Rightarrow> pydict \<Rightarrow> string \<Rightarrow> string \<Rightarrow> string \<Rightarrow> string \<Rightarrow> pydict \<times> pydict" where
  "apply_result row stored source_hash parser_version result_hash now =
     (od_merge row [(''result'', PDict stored), (''result_hash'', PStr result_hash), (''source_hash'', PStr source_hash),
        (''parser_version'', PStr parser_version), (''status'', PStr (dstr stored ''disposition'')), (''finished_at'', PStr now)],
      case placeholder_replacement row stored of
        Some replacement \<Rightarrow> [(''status'', PStr ''replaced_placeholder''), (''trial_id'', dget stored ''trial_id''),
          (''previous'', dget replacement ''previous''), (''result'', PDict stored)]
      | None \<Rightarrow> [(''status'', PStr ''stored''), (''trial_id'', dget stored ''trial_id''), (''result'', PDict stored)])"

definition apply_plan :: "pydict \<Rightarrow> pydict \<Rightarrow> pydict" where
  "apply_plan existing incoming =
     (if py_eq (dget existing ''plan_hash'') (dget incoming ''plan_hash'') then
        [(''status'', PStr ''identical''), (''trial_id'', dget incoming ''trial_id''), (''plan'', PDict incoming)]
      else plan_conflict existing incoming)"

definition plan_created :: "pydict \<Rightarrow> pydict" where
  "plan_created incoming = [(''status'', PStr ''created''), (''trial_id'', dget incoming ''trial_id''), (''plan'', PDict incoming)]"

definition unknown_trial :: "string \<Rightarrow> pydict" where
  "unknown_trial trial_id = [(''status'', PStr ''unknown_trial''), (''trial_id'', PStr trial_id)]"

definition result_identical :: "string \<Rightarrow> pyval \<Rightarrow> pydict" where
  "result_identical trial_id result = [(''status'', PStr ''identical''), (''trial_id'', PStr trial_id), (''result'', result)]"

text \<open>The evidence is the one already stored.\<close>

definition same_evidence :: "pydict \<Rightarrow> string \<Rightarrow> string \<Rightarrow> bool" where
  "same_evidence row source_hash result_hash \<longleftrightarrow>
     py_eq (dget row ''source_hash'') (PStr source_hash) \<and> py_eq (dget row ''result_hash'') (PStr result_hash)"

definition repeat_index :: "pydict \<Rightarrow> int" where
  "repeat_index row = (case dget row ''repeat_index'' of PInt n \<Rightarrow> n | _ \<Rightarrow> 0)"

section \<open>In memory\<close>

type_synonym mem_trials = "(string, pydict) odict"

definition mem_create_plan :: "(pyval \<Rightarrow> string) \<Rightarrow> pydict \<times> string \<Rightarrow> (mem_trials, store_exn, pydict) sop" where
  "mem_create_plan canon = (\<lambda>(plan, now).
     st_bind (st_lift (plain (plan_record canon now plan))) (\<lambda>incoming.
     (let trial_id = dstr incoming ''trial_id'' in
     st_bind (st_get (\<lambda>s. map_of s trial_id)) (\<lambda>existing. case existing of
         None \<Rightarrow> st_bind (st_modify (od_set trial_id incoming)) (\<lambda>_. st_return (plan_created incoming))
       | Some row \<Rightarrow> st_return (apply_plan row incoming)))))"

text \<open>Each plan comes with the clock reading of its record.\<close>

definition mem_create_plans :: "(pyval \<Rightarrow> string) \<Rightarrow> (pydict \<times> string) list \<Rightarrow> (mem_trials, store_exn, pydict list) sop" where
  "mem_create_plans canon plans = st_map (mem_create_plan canon) plans"

definition mem_list_for_run :: "string \<Rightarrow> mem_trials \<Rightarrow> pydict list" where
  "mem_list_for_run run_id s =
     sort_key (\<lambda>row. dstr row ''task_key'') (sort_key repeat_index (sort_key (\<lambda>row. dstr row ''trial_id'')
       (filter (\<lambda>row. dstr row ''run_id'' = run_id) (od_values s))))"

definition mem_list_for_task :: "string \<Rightarrow> string \<Rightarrow> mem_trials \<Rightarrow> pydict list" where
  "mem_list_for_task run_id task_key s = filter (\<lambda>row. dstr row ''task_key'' = task_key) (mem_list_for_run run_id s)"

definition mem_get_trial :: "string \<Rightarrow> mem_trials \<Rightarrow> pydict option" where
  "mem_get_trial trial_id s = map_of s trial_id"

definition mem_put_result :: "(pyval \<Rightarrow> string) \<Rightarrow> string \<Rightarrow> pydict \<Rightarrow> string \<Rightarrow> string \<Rightarrow> string \<Rightarrow> (mem_trials, store_exn, pydict) sop" where
  "mem_put_result canon trial_id result source_hash parser_version now =
     st_bind (st_lift (plain (validate_result result))) (\<lambda>stored.
     st_bind (st_get (\<lambda>s. map_of s trial_id)) (\<lambda>found. case found of
         None \<Rightarrow> st_return (unknown_trial trial_id)
       | Some row \<Rightarrow>
           st_bind (st_lift (check_result_identity row stored trial_id)) (\<lambda>_.
           (let result_hash = canon (PDict stored); present = dget row ''result'' \<noteq> PNone in
            if present \<and> same_evidence row source_hash result_hash then st_return (result_identical trial_id (dget row ''result''))
            else if present \<and> placeholder_replacement row stored = None then
              st_return (result_conflict canon row stored source_hash parser_version)
            else (case apply_result row stored source_hash parser_version result_hash now of (row', outcome) \<Rightarrow>
              st_bind (st_modify (od_set trial_id row')) (\<lambda>_. st_return outcome))))))"

section \<open>SQLite\<close>

text \<open>The columns of \<^verbatim>\<open>trials\<close> that are read: those of the listings, the payload and the result.\<close>

record trial_row =
  tr_run :: string
  tr_task :: string
  tr_repeat :: int
  tr_payload :: pydict
  tr_result :: "pyval option"

type_synonym sql_trials = "(string \<times> trial_row) list"

text \<open>\<^verbatim>\<open>SQLiteTrials._row\<close>\<close>

definition result_column :: "pydict \<Rightarrow> pyval option" where
  "result_column row = (if dget row ''result'' = PNone then None else Some (jnorm (dget row ''result'')))"

definition trial_row_of :: "pydict \<Rightarrow> trial_row" where
  "trial_row_of row = \<lparr>tr_run = dstr row ''run_id'', tr_task = dstr row ''task_key'', tr_repeat = repeat_index row,
     tr_payload = jnorm_dict row, tr_result = result_column row\<rparr>"

definition sql_create_plan :: "(pyval \<Rightarrow> string) \<Rightarrow> pydict \<times> string \<Rightarrow> (sql_trials, store_exn, pydict) sop" where
  "sql_create_plan canon = (\<lambda>(plan, now).
     st_bind (st_lift (plain (plan_record canon now plan))) (\<lambda>incoming.
     (let trial_id = dstr incoming ''trial_id'' in
     st_bind (st_get (\<lambda>db. map_of db trial_id)) (\<lambda>row. case row of
         None \<Rightarrow> st_bind (st_modify (\<lambda>db. db @ [(trial_id, trial_row_of incoming)])) (\<lambda>_. st_return (plan_created incoming))
       | Some r \<Rightarrow> st_return (apply_plan (tr_payload r) incoming)))))"

definition sql_create_plans :: "(pyval \<Rightarrow> string) \<Rightarrow> (pydict \<times> string) list \<Rightarrow> (sql_trials, store_exn, pydict list) sop" where
  "sql_create_plans canon plans = transaction (st_map (sql_create_plan canon) plans)"

definition sql_list_for_run :: "string \<Rightarrow> sql_trials \<Rightarrow> pydict list" where
  "sql_list_for_run run_id db = map (tr_payload \<circ> snd)
     (sort_key (tr_task \<circ> snd) (sort_key (tr_repeat \<circ> snd) (sort_key fst (filter (\<lambda>(_, r). tr_run r = run_id) db))))"

definition sql_list_for_task :: "string \<Rightarrow> string \<Rightarrow> sql_trials \<Rightarrow> pydict list" where
  "sql_list_for_task run_id task_key db = map (tr_payload \<circ> snd)
     (sort_key (tr_repeat \<circ> snd) (sort_key fst (filter (\<lambda>(_, r). tr_run r = run_id \<and> tr_task r = task_key) db)))"

definition sql_get_trial :: "string \<Rightarrow> sql_trials \<Rightarrow> pydict option" where
  "sql_get_trial trial_id db = map_option tr_payload (map_of db trial_id)"

text \<open>\<^verbatim>\<open>UPDATE trials SET ... WHERE trial_id = ?\<close>: the columns of the listings stay.\<close>

definition sql_set_result :: "string \<Rightarrow> pydict \<Rightarrow> sql_trials \<Rightarrow> sql_trials" where
  "sql_set_result trial_id row db =
     map (\<lambda>(i, q). if i = trial_id then (i, q\<lparr>tr_payload := jnorm_dict row, tr_result := result_column row\<rparr>) else (i, q)) db"

definition sql_put_result :: "(pyval \<Rightarrow> string) \<Rightarrow> string \<Rightarrow> pydict \<Rightarrow> string \<Rightarrow> string \<Rightarrow> string \<Rightarrow> (sql_trials, store_exn, pydict) sop" where
  "sql_put_result canon trial_id result source_hash parser_version now =
     st_bind (st_lift (plain (validate_result result))) (\<lambda>stored. transaction (
     st_bind (st_get (\<lambda>db. map_of db trial_id)) (\<lambda>found. case found of
         None \<Rightarrow> st_return (unknown_trial trial_id)
       | Some r \<Rightarrow>
           (let current = tr_payload r; result_hash = canon (PDict stored) in
           st_bind (st_lift (check_result_identity current stored trial_id)) (\<lambda>_.
            if tr_result r \<noteq> None \<and> same_evidence current source_hash result_hash then
              st_return (result_identical trial_id (case tr_result r of None \<Rightarrow> PNone | Some v \<Rightarrow> v))
            else if tr_result r \<noteq> None \<and> placeholder_replacement current stored = None then
              st_return (result_conflict canon current stored source_hash parser_version)
            else (case apply_result current stored source_hash parser_version result_hash now of (row', outcome) \<Rightarrow>
              st_bind (st_modify (sql_set_result trial_id row')) (\<lambda>_. st_return outcome)))))))"

section \<open>The contract\<close>

datatype trial_call =
    TPlans "(pydict \<times> string) list"
  | TResult string pydict string string string

definition mem_trial_exec :: "(pyval \<Rightarrow> string) \<Rightarrow> trial_call \<Rightarrow> (mem_trials, store_exn, pydict list) sop" where
  "mem_trial_exec canon op = (case op of TPlans ps \<Rightarrow> mem_create_plans canon ps
     | TResult i r sh pv now \<Rightarrow> st_bind (mem_put_result canon i r sh pv now) (\<lambda>x. st_return [x]))"

definition sql_trial_exec :: "(pyval \<Rightarrow> string) \<Rightarrow> trial_call \<Rightarrow> (sql_trials, store_exn, pydict list) sop" where
  "sql_trial_exec canon op = (case op of TPlans ps \<Rightarrow> sql_create_plans canon ps
     | TResult i r sh pv now \<Rightarrow> st_bind (sql_put_result canon i r sh pv now) (\<lambda>x. st_return [x]))"

definition mem_trial_view :: "mem_trials \<Rightarrow> string \<Rightarrow> (string \<Rightarrow> pyval option) option" where
  "mem_trial_view s i = map_option content (mem_get_trial i s)"

definition sql_trial_view :: "sql_trials \<Rightarrow> string \<Rightarrow> (string \<Rightarrow> pyval option) option" where
  "sql_trial_view db i = map_option content (sql_get_trial i db)"

definition has_result :: "(string \<Rightarrow> pyval option) \<Rightarrow> bool" where
  "has_result v \<longleftrightarrow> v ''result'' \<notin> {None, Some PNone}"

definition real_result :: "(string \<Rightarrow> pyval option) \<Rightarrow> bool" where
  "real_result v \<longleftrightarrow> has_result v \<and> \<not> is_synthetic_result (the (v ''result''))"

definition RESULT_FIELDS :: "string list" where
  "RESULT_FIELDS = [''result'', ''result_hash'', ''source_hash'', ''parser_version'', ''status'', ''finished_at'']"

definition trial_change :: "string \<Rightarrow> (string \<Rightarrow> pyval option) \<Rightarrow> (string \<Rightarrow> pyval option) \<Rightarrow> bool" where
  "trial_change k v w \<longleftrightarrow> (\<forall>f. f \<notin> set RESULT_FIELDS \<longrightarrow> w f = v f) \<and> (real_result v \<longrightarrow> w = v) \<and> (has_result v \<longrightarrow> has_result w)"

lemma trial_change_refl: "trial_change k v v"
  by (simp add: trial_change_def)

lemma trial_change_trans: "trial_change k u v \<Longrightarrow> trial_change k v w \<Longrightarrow> trial_change k u w"
  by (auto simp: trial_change_def)

lemma jnorm_shape [simp]: "jnorm v = PNone \<longleftrightarrow> v = PNone" "py_truthy (jnorm v) = py_truthy v"
proof -
  have "sort_key f xs = [] \<longleftrightarrow> xs = []" for f :: "string \<times> pyval \<Rightarrow> string" and xs
    by (metis length_0_conv length_sort)
  then show "jnorm v = PNone \<longleftrightarrow> v = PNone" "py_truthy (jnorm v) = py_truthy v" by (cases v; simp)+
qed

lemma is_synthetic_jnorm [simp]: "is_synthetic_result (jnorm v) = is_synthetic_result v"
  by (cases v) (simp_all add: is_synthetic_result_def jnorm_PDict dget_jnorm_dict del: jnorm.simps(2))

lemma has_result_content: "has_result (content row) \<longleftrightarrow> dget row ''result'' \<noteq> PNone"
  by (auto simp: has_result_def content_def dget_def split: option.splits)

lemma real_result_content:
  "real_result (content row) \<longleftrightarrow> dget row ''result'' \<noteq> PNone \<and> \<not> is_synthetic_result (dget row ''result'')"
  unfolding real_result_def has_result_content by (auto simp: content_def dget_def split: option.splits)

lemma apply_result_change:
  assumes "dget row ''result'' \<noteq> PNone \<Longrightarrow> placeholder_replacement row stored \<noteq> None"
  shows "trial_change k (content row) (content (fst (apply_result row stored sh pv rh now)))"
proof -
  let ?w = "content (fst (apply_result row stored sh pv rh now))"
  have w: "?w = content row ++ content [(''result'', PDict stored), (''result_hash'', PStr rh), (''source_hash'', PStr sh),
      (''parser_version'', PStr pv), (''status'', PStr (dstr stored ''disposition'')), (''finished_at'', PStr now)]"
    by (simp only: apply_result_def fst_conv) (subst content_od_merge; simp)
  have "\<not> real_result (content row)"
  proof
    assume "real_result (content row)"
    then show False using assms by (simp add: real_result_content placeholder_replacement_def)
  qed
  moreover have "has_result ?w" by (simp add: w has_result_def content_def map_add_def)
  moreover have "?w f = content row f" if "f \<notin> set RESULT_FIELDS" for f
    using that by (simp add: w RESULT_FIELDS_def content_def map_add_def)
  ultimately show ?thesis by (simp add: trial_change_def)
qed

lemma mem_trial_set:
  assumes "map_of s i = None \<or> (\<exists>old. map_of s i = Some old \<and> trial_change i (content old) (content row))"
  shows "evolved trial_change (mem_trial_view s) (mem_trial_view (od_set i row s))"
proof -
  have "mem_trial_view (od_set i row s) = (mem_trial_view s)(i \<mapsto> content row)"
    by (auto simp: mem_trial_view_def mem_get_trial_def)
  then show ?thesis using assms by (auto intro!: evolved_update simp: trial_change_refl mem_trial_view_def mem_get_trial_def)
qed

lemma evolved_trial_trans: "evolved trial_change a b \<Longrightarrow> evolved trial_change b c \<Longrightarrow> evolved trial_change a c"
  unfolding evolved_def by (meson trial_change_trans)

lemma evolved_trial_refl: "evolved trial_change a a"
  by (simp add: evolved_same trial_change_refl)

lemma mem_create_plan_evolved: "evolved trial_change (mem_trial_view s) (mem_trial_view (snd (mem_create_plan canon p s)))"
  by (cases p) (auto simp: mem_create_plan_def sop_defs sop_simps Let_def evolved_trial_refl intro: mem_trial_set split: sum.splits option.splits)

lemma mem_create_plans_evolved: "evolved trial_change (mem_trial_view s) (mem_trial_view (snd (mem_create_plans canon ps s)))"
proof -
  have "keeps (\<lambda>t. evolved trial_change (mem_trial_view s) (mem_trial_view t)) (mem_create_plans canon ps)"
    unfolding mem_create_plans_def
    by (rule keeps_map) (auto simp: keeps_def intro: evolved_trial_trans mem_create_plan_evolved)
  then show ?thesis by (simp add: keeps_def evolved_trial_refl)
qed

lemma mem_put_result_evolved: "evolved trial_change (mem_trial_view s) (mem_trial_view (snd (mem_put_result canon i r sh pv now s)))"
proof -
  have "evolved trial_change (mem_trial_view s) (mem_trial_view (od_set i (fst (apply_result row stored sh pv rh now)) s))"
    if "map_of s i = Some row" "dget row ''result'' \<noteq> PNone \<Longrightarrow> placeholder_replacement row stored \<noteq> None" for row stored rh
    using that by (intro mem_trial_set) (auto intro!: apply_result_change)
  then show ?thesis
    by (auto simp: mem_put_result_def sop_defs sop_simps Let_def evolved_trial_refl split_def split: sum.splits option.splits)
qed

lemma mem_trial_evolved: "evolved trial_change (mem_trial_view s) (mem_trial_view (snd (mem_trial_exec canon op s)))"
proof (cases op)
  case (TResult i r sh pv now)
  then have "snd (mem_trial_exec canon op s) = snd (mem_put_result canon i r sh pv now s)"
    by (auto simp: mem_trial_exec_def st_bind_def sop_simps split: prod.splits sum.splits)
  then show ?thesis by (simp add: mem_put_result_evolved)
qed (simp add: mem_trial_exec_def mem_create_plans_evolved)

interpretation memt: frozen_store "mem_trial_exec canon" "\<lambda>_. True" mem_trial_view trial_change for canon
  by unfold_locales (auto intro: mem_trial_evolved trial_change_refl trial_change_trans)

text \<open>In SQLite the column of the result agrees with the payload.\<close>

definition result_columns :: "sql_trials \<Rightarrow> bool" where
  "result_columns db \<longleftrightarrow> (\<forall>(i, r) \<in> set db. (tr_result r = None) = (dget (tr_payload r) ''result'' = PNone))"

lemma result_column_None: "(result_column row = None) = (dget (jnorm_dict row) ''result'' = PNone)"
  by (simp add: result_column_def dget_jnorm_dict)

lemma sql_create_plan_keeps:
  "keeps (\<lambda>t. result_columns t \<and> evolved trial_change v (sql_trial_view t)) (sql_create_plan canon p)"
proof -
  have "evolved trial_change (sql_trial_view t) (sql_trial_view (t @ [(i, trial_row_of row)]))" if "map_of t i = None" for t i row
    using that by (auto simp: evolved_def sql_trial_view_def sql_get_trial_def map_of_append_fresh trial_change_refl)
  moreover have "result_columns (t @ [(i, trial_row_of row)]) = result_columns t" for t i row
    by (auto simp: result_columns_def trial_row_of_def result_column_None)
  ultimately show ?thesis
    by (cases p) (auto simp: keeps_def sql_create_plan_def sop_defs sop_simps Let_def intro: evolved_trial_trans split: sum.splits option.splits)
qed

lemma sql_create_plans_keeps:
  "keeps (\<lambda>t. result_columns t \<and> evolved trial_change v (sql_trial_view t)) (sql_create_plans canon ps)"
  unfolding sql_create_plans_def by (intro keeps_intros sql_create_plan_keeps)

lemma sql_update_result:
  assumes "result_columns db" "map_of db i = Some r" "trial_change i (content (tr_payload r)) (content row)"
  shows "result_columns (sql_set_result i row db)" "evolved trial_change (sql_trial_view db) (sql_trial_view (sql_set_result i row db))"
proof -
  show "result_columns (sql_set_result i row db)"
    using assms(1) by (auto simp: result_columns_def sql_set_result_def result_column_None split: if_splits)
  show "evolved trial_change (sql_trial_view db) (sql_trial_view (sql_set_result i row db))"
    using assms(2,3) by (auto simp: evolved_def sql_trial_view_def sql_get_trial_def sql_set_result_def map_of_rewrite trial_change_refl)
qed

lemma sql_put_result_evolved:
  assumes "result_columns db"
  shows "result_columns (snd (sql_put_result canon i res sh pv now db)) \<and>
    evolved trial_change (sql_trial_view db) (sql_trial_view (snd (sql_put_result canon i res sh pv now db)))"
proof -
  have column: "(tr_result r = None) = (dget (tr_payload r) ''result'' = PNone)" if "map_of db i = Some r" for r
    using assms map_of_SomeD [OF that] by (auto simp: result_columns_def)
  show ?thesis
    using assms by (auto simp: sql_put_result_def sop_defs sop_simps Let_def evolved_trial_refl split_def column
        intro!: sql_update_result [OF assms _ apply_result_change] split: sum.splits option.splits)
qed

lemma sql_trial_evolved:
  assumes "result_columns db"
  shows "result_columns (snd (sql_trial_exec canon op db)) \<and> evolved trial_change (sql_trial_view db) (sql_trial_view (snd (sql_trial_exec canon op db)))"
proof (cases op)
  case (TResult i r sh pv now)
  then have "snd (sql_trial_exec canon op db) = snd (sql_put_result canon i r sh pv now db)"
    by (auto simp: sql_trial_exec_def st_bind_def sop_simps split: prod.splits sum.splits)
  then show ?thesis by (simp add: sql_put_result_evolved [OF assms])
next
  case (TPlans ps)
  then show ?thesis using sql_create_plans_keeps [of "sql_trial_view db" canon ps] assms
    by (auto simp: sql_trial_exec_def keeps_def evolved_trial_refl)
qed

lemma result_columns_Nil: "result_columns []"
  by (simp add: result_columns_def)

interpretation sqlt: frozen_store "sql_trial_exec canon" result_columns sql_trial_view trial_change for canon
  by unfold_locales (auto simp: sql_trial_evolved intro: trial_change_refl trial_change_trans)

text \<open>
  A batch with an invalid plan: SQLite rolls it back, memory keeps the plans before the invalid one.
\<close>

lemma sql_batch_rollback: "fst (sql_create_plans canon ps db) = Inl e \<Longrightarrow> snd (sql_create_plans canon ps db) = db"
  unfolding sql_create_plans_def by (rule transaction_rollback)

lemma mem_batch_partial:
  assumes "plan_record canon now p = Inr row" "map_of s (dstr row ''trial_id'') = None" "validate_plan q = Inl e"
  shows "mem_create_plans canon [(p, now), (q, now')] s = (Inl (Plain e), od_set (dstr row ''trial_id'') row s)"
  using assms by (simp add: mem_create_plans_def mem_create_plan_def plan_record_def [of canon now' q] res_bind_def sop_defs sop_simps Let_def)

end
