(* ===== verification/Experiment_Store.thy ===== *)
theory Experiment_Store
  imports Frozen_Store
begin

text \<open>
  Experiments, \<^verbatim>\<open>packages/storage/motte_storage/experiments.py\<close>: the published matrix of an experiment (its
  specification and its cells) and the allocation of every cell to a run, in memory and in SQLite.  A cell
  goes from pending to allocating, and from there to allocated, failed, cancelled or back to pending.  The
  JSON text that orders a listing is the parameter \<open>dumps\<close>.
\<close>

section \<open>Validation\<close>

definition validate_spec :: "pydict \<Rightarrow> exn + pydict" where
  "validate_spec payload =
     (if \<not> nonempty_str (dget payload ''experiment_id'') then Inl (ValueError ''experiment spec requires a nonempty string experiment_id'')
      else if \<not> nonempty_str (dget payload ''version'') then Inl (ValueError ''experiment spec requires a nonempty string version'')
      else Inr payload)"

definition CELL_FIELDS :: "string list" where
  "CELL_FIELDS = [''cell_id'', ''experiment_id'', ''experiment_version'', ''allocation_status'']"

text \<open>\<^verbatim>\<open>isinstance(v, int)\<close>: a boolean is an integer.\<close>

definition is_int :: "pyval \<Rightarrow> bool" where
  "is_int v = (case v of PInt _ \<Rightarrow> True | PBool _ \<Rightarrow> True | _ \<Rightarrow> False)"

definition validate_cell :: "pydict \<Rightarrow> exn + pydict" where
  "validate_cell given =
     (let payload = dsetdefault ''allocation_status'' (PStr ''pending'') given in
      case find (\<lambda>field. \<not> nonempty_str (dget payload field)) CELL_FIELDS of
        Some field \<Rightarrow> Inl (ValueError (''experiment cell requires a nonempty string '' @ field))
      | None \<Rightarrow>
          if \<not> is_int (dget payload ''repeat_index'') then Inl (ValueError ''experiment cell requires integer repeat_index'')
          else if \<not> is_dict (dget payload ''factor_assignment'') then Inl (ValueError ''experiment cell requires a factor_assignment object'')
          else Inr payload)"

definition cell_id_of :: "pydict \<Rightarrow> string" where
  "cell_id_of cell = dstr cell ''cell_id''"

definition spec_key :: "pydict \<Rightarrow> string \<times> string" where
  "spec_key spec = (dstr spec ''experiment_id'', dstr spec ''version'')"

definition cell_key :: "pydict \<Rightarrow> string \<times> string" where
  "cell_key cell = (dstr cell ''experiment_id'', dstr cell ''experiment_version'')"

definition validate_publication :: "pydict \<Rightarrow> pydict list \<Rightarrow> exn + pydict \<times> pydict list" where
  "validate_publication spec_payload cell_payloads =
     res_bind (validate_spec spec_payload) (\<lambda>spec.
     res_bind (res_map validate_cell cell_payloads) (\<lambda>cells.
       if \<not> distinct (map cell_id_of cells) then Inl (ValueError ''duplicate cell identities'')
       else if list_ex (\<lambda>cell. cell_key cell \<noteq> spec_key spec) cells then Inl (ValueError ''cell belongs to a different experiment'')
       else Inr (spec, cells)))"

definition FROZEN_CELL_FIELDS :: "string list" where
  "FROZEN_CELL_FIELDS = [''experiment_id'', ''experiment_version'', ''factor_assignment'', ''repeat_index'',
     ''resolved_spec_hash'', ''prepared_run'', ''preview_hash'', ''preflight_mode'']"

text \<open>Once the identities agree, every cell of the new matrix has an existing one.\<close>

definition check_existing_publication :: "pydict \<Rightarrow> pydict list \<Rightarrow> pydict \<Rightarrow> pydict list \<Rightarrow> exn + unit" where
  "check_existing_publication existing_spec existing_cells spec cells =
     (if \<not> py_eq (PDict existing_spec) (PDict spec) then Inl (ValueError ''experiment specs are immutable'')
      else if set (map cell_id_of existing_cells) \<noteq> set (map cell_id_of cells) then
        Inl (ValueError ''incomplete experiment matrix requires explicit repair'')
      else (let by_id = map_of (rev (map (\<lambda>cell. (cell_id_of cell, cell)) existing_cells)) in
        case find (\<lambda>cell. case by_id (cell_id_of cell) of
            None \<Rightarrow> True
          | Some existing \<Rightarrow> list_ex (\<lambda>key. \<not> py_eq (dget existing key) (dget cell key)) FROZEN_CELL_FIELDS) cells of
          Some cell \<Rightarrow> Inl (ValueError (''cell content conflict: '' @ cell_id_of cell))
        | None \<Rightarrow> Inr ()))"

section \<open>Transitions of a cell\<close>

text \<open>The functions \<^verbatim>\<open>mutate\<close> that both stores pass to their transition.\<close>

abbreviation cell_status :: "pydict \<Rightarrow> pyval" where
  "cell_status cell \<equiv> dget cell ''allocation_status''"

definition set_status :: "string \<Rightarrow> pydict \<Rightarrow> pydict" where
  "set_status x cell = od_set ''allocation_status'' (PStr x) cell"

definition not_expected :: "string \<Rightarrow> pydict \<Rightarrow> fstr \<Rightarrow> store_exn" where
  "not_expected cell_id cell tail = Coded ''ValueError'' ([Txt (''cell '' @ cell_id @ '' is ''), Rep (cell_status cell)] @ tail)"

definition complete_mutate :: "string \<Rightarrow> string \<Rightarrow> pydict \<Rightarrow> store_exn + pydict" where
  "complete_mutate cell_id run_id cell =
     (if \<not> py_eq (cell_status cell) (PStr ''allocating'') then Inl (not_expected cell_id cell [Txt '', expected '', Rep (PStr ''allocating'')])
      else Inr (od_set ''run_id'' (PStr run_id) (set_status ''allocated'' cell)))"

definition fail_mutate :: "string \<Rightarrow> string \<Rightarrow> pydict \<Rightarrow> store_exn + pydict" where
  "fail_mutate cell_id reason cell =
     (if \<not> py_eq (cell_status cell) (PStr ''allocating'') then Inl (not_expected cell_id cell [Txt '', expected '', Rep (PStr ''allocating'')])
      else Inr (od_set ''failure_reason'' (PStr reason) (set_status ''failed'' cell)))"

definition cancel_mutate :: "string \<Rightarrow> pydict \<Rightarrow> store_exn + pydict" where
  "cancel_mutate cell_id cell =
     (if \<not> list_ex (\<lambda>x. py_eq (cell_status cell) (PStr x)) [''pending'', ''allocating''] then
        Inl (not_expected cell_id cell [Txt ''; only pending/allocating cells can be cancelled''])
      else Inr (set_status ''cancelled'' cell))"

definition cancel_allocated_mutate :: "string \<Rightarrow> pydict \<Rightarrow> store_exn + pydict" where
  "cancel_allocated_mutate cell_id cell =
     (if \<not> py_eq (cell_status cell) (PStr ''allocated'') then Inl (not_expected cell_id cell [Txt '', expected '', Rep (PStr ''allocated'')])
      else Inr (set_status ''cancelled'' cell))"

definition superseding_mutate :: "string \<Rightarrow> pydict \<Rightarrow> store_exn + pydict" where
  "superseding_mutate run_id cell =
     res_bind (plain (list_or_empty (dget cell ''superseding_run_ids''))) (\<lambda>superseding.
     Inr (od_set ''superseding_run_ids''
       (PList (if list_ex (\<lambda>v. py_eq v (PStr run_id)) superseding then superseding else superseding @ [PStr run_id])) cell))"

section \<open>In memory\<close>

record mem_experiments =
  mx_specs :: "(string \<times> string, pydict) odict"
  mx_cells :: "(string, pydict) odict"

definition repeat_of :: "pydict \<Rightarrow> int" where
  "repeat_of cell = (case dget_default cell ''repeat_index'' (PInt 0) of PInt n \<Rightarrow> n | PBool b \<Rightarrow> of_bool b | _ \<Rightarrow> 0)"

text \<open>\<^verbatim>\<open>item.get("factor_assignment") or {}\<close>\<close>

definition factors_of :: "pydict \<Rightarrow> pydict" where
  "factors_of cell = (case dget cell ''factor_assignment'' of PDict d \<Rightarrow> d | _ \<Rightarrow> [])"

definition mem_list_cells :: "(pydict \<Rightarrow> string) \<Rightarrow> string \<Rightarrow> string option \<Rightarrow> mem_experiments \<Rightarrow> pydict list" where
  "mem_list_cells dumps experiment_id version s =
     sort_key repeat_of (sort_key (dumps \<circ> factors_of) (filter
       (\<lambda>cell. fst (cell_key cell) = experiment_id \<and> (version = None \<or> version = Some (snd (cell_key cell)))) (od_values (mx_cells s))))"

definition mem_publish_experiment :: "(pydict \<Rightarrow> string) \<Rightarrow> pydict \<Rightarrow> pydict list \<Rightarrow> (mem_experiments, store_exn, pydict) sop" where
  "mem_publish_experiment dumps payload cell_payloads =
     st_bind (st_lift (plain (validate_publication payload cell_payloads))) (\<lambda>(spec, cells).
     st_bind (st_get (\<lambda>s. map_of (mx_specs s) (spec_key spec))) (\<lambda>existing. case existing of
         Some old \<Rightarrow>
           st_bind (st_get (mem_list_cells dumps (fst (spec_key spec)) (Some (snd (spec_key spec))))) (\<lambda>existing_cells.
           st_bind (st_lift (plain (check_existing_publication old existing_cells spec cells))) (\<lambda>_. st_return old))
       | None \<Rightarrow>
           st_bind (st_get (\<lambda>s. list_ex (\<lambda>cell. map_of (mx_cells s) (cell_id_of cell) \<noteq> None) cells)) (\<lambda>conflict.
           if conflict then st_raise (Plain (ValueError ''cell content conflict''))
           else st_bind (st_modify (\<lambda>s. s\<lparr>mx_specs := od_set (spec_key spec) spec (mx_specs s),
               mx_cells := od_merge (mx_cells s) (map (\<lambda>cell. (cell_id_of cell, cell)) cells)\<rparr>)) (\<lambda>_. st_return spec))))"

definition mem_put_spec :: "pydict \<Rightarrow> (mem_experiments, store_exn, pydict) sop" where
  "mem_put_spec payload =
     st_bind (st_lift (plain (validate_spec payload))) (\<lambda>spec.
     st_bind (st_get (\<lambda>s. map_of (mx_specs s) (spec_key spec))) (\<lambda>existing. case existing of
         Some old \<Rightarrow>
           if \<not> py_eq (PDict old) (PDict spec) then
             st_raise (Plain (ValueError (''experiment specs are immutable: '' @ dstr spec ''experiment_id'' @ ''@'' @ dstr spec ''version'')))
           else st_return old
       | None \<Rightarrow> st_bind (st_modify (\<lambda>s. s\<lparr>mx_specs := od_set (spec_key spec) spec (mx_specs s)\<rparr>)) (\<lambda>_. st_return spec)))"

definition mem_get_spec :: "string \<Rightarrow> string \<Rightarrow> mem_experiments \<Rightarrow> pydict option" where
  "mem_get_spec experiment_id version s = map_of (mx_specs s) (experiment_id, version)"

definition mem_list_specs :: "string option \<Rightarrow> mem_experiments \<Rightarrow> pydict list" where
  "mem_list_specs experiment_id s =
     sort_key (\<lambda>d. dstr d ''experiment_id'') (sort_key (\<lambda>d. dstr d ''version'')
       (map snd (filter (\<lambda>((i, _), _). experiment_id = None \<or> experiment_id = Some i) (mx_specs s))))"

definition mem_put_cell :: "pydict \<Rightarrow> (mem_experiments, store_exn, pydict) sop" where
  "mem_put_cell payload =
     st_bind (st_lift (plain (validate_cell payload))) (\<lambda>cell.
     st_bind (st_get (\<lambda>s. map_of (mx_cells s) (cell_id_of cell))) (\<lambda>existing. case existing of
         Some old \<Rightarrow>
           if \<not> py_eq (PDict old) (PDict cell) then st_raise (Plain (ValueError (''cell content conflict: '' @ cell_id_of cell)))
           else st_return old
       | None \<Rightarrow> st_bind (st_modify (\<lambda>s. s\<lparr>mx_cells := od_set (cell_id_of cell) cell (mx_cells s)\<rparr>)) (\<lambda>_. st_return cell)))"

definition mem_get_cell :: "string \<Rightarrow> mem_experiments \<Rightarrow> pydict option" where
  "mem_get_cell cell_id s = map_of (mx_cells s) cell_id"

definition mem_claim_cell :: "string \<Rightarrow> (mem_experiments, store_exn, bool) sop" where
  "mem_claim_cell cell_id =
     st_bind (st_get (\<lambda>s. map_of (mx_cells s) cell_id)) (\<lambda>found. case found of
         None \<Rightarrow> st_raise (Plain (KeyError cell_id))
       | Some cell \<Rightarrow>
           if \<not> py_eq (cell_status cell) (PStr ''pending'') then st_return False
           else st_bind (st_modify (\<lambda>s. s\<lparr>mx_cells := od_set cell_id (set_status ''allocating'' cell) (mx_cells s)\<rparr>)) (\<lambda>_. st_return True))"

definition mem_cell_transition :: "string \<Rightarrow> (pydict \<Rightarrow> store_exn + pydict) \<Rightarrow> (mem_experiments, store_exn, pydict) sop" where
  "mem_cell_transition cell_id mutate =
     st_bind (st_get (\<lambda>s. map_of (mx_cells s) cell_id)) (\<lambda>found. case found of
         None \<Rightarrow> st_raise (Plain (KeyError cell_id))
       | Some cell \<Rightarrow>
           st_bind (st_lift (mutate cell)) (\<lambda>cell.
           st_bind (st_modify (\<lambda>s. s\<lparr>mx_cells := od_set cell_id cell (mx_cells s)\<rparr>)) (\<lambda>_. st_return cell)))"

definition mem_complete_cell :: "string \<Rightarrow> string \<Rightarrow> (mem_experiments, store_exn, pydict) sop" where
  "mem_complete_cell cell_id run_id = mem_cell_transition cell_id (complete_mutate cell_id run_id)"

definition mem_fail_cell :: "string \<Rightarrow> string \<Rightarrow> (mem_experiments, store_exn, pydict) sop" where
  "mem_fail_cell cell_id reason = mem_cell_transition cell_id (fail_mutate cell_id reason)"

definition mem_cancel_cell :: "string \<Rightarrow> (mem_experiments, store_exn, pydict) sop" where
  "mem_cancel_cell cell_id = mem_cell_transition cell_id (cancel_mutate cell_id)"

definition mem_reset_allocating :: "string \<Rightarrow> (mem_experiments, store_exn, bool) sop" where
  "mem_reset_allocating cell_id =
     st_bind (st_get (\<lambda>s. map_of (mx_cells s) cell_id)) (\<lambda>found. case found of
         None \<Rightarrow> st_raise (Plain (KeyError cell_id))
       | Some cell \<Rightarrow>
           if \<not> py_eq (cell_status cell) (PStr ''allocating'') then st_return False
           else st_bind (st_modify (\<lambda>s. s\<lparr>mx_cells := od_set cell_id (set_status ''pending'' cell) (mx_cells s)\<rparr>)) (\<lambda>_. st_return True))"

definition mem_cancel_allocated_cell :: "string \<Rightarrow> (mem_experiments, store_exn, pydict) sop" where
  "mem_cancel_allocated_cell cell_id = mem_cell_transition cell_id (cancel_allocated_mutate cell_id)"

definition mem_record_superseding :: "string \<Rightarrow> string \<Rightarrow> (mem_experiments, store_exn, pydict) sop" where
  "mem_record_superseding cell_id run_id = mem_cell_transition cell_id (superseding_mutate run_id)"

section \<open>SQLite\<close>

text \<open>
  The rows of \<^verbatim>\<open>experiment_specs\<close> and \<^verbatim>\<open>experiment_cells\<close> under their primary keys in the order of their \<^verbatim>\<open>rowid\<close>; a
  cell's row has the columns of its experiment, the column \<^verbatim>\<open>allocation_status\<close> is never read.
\<close>

record sql_experiments =
  sx_specs :: "((string \<times> string) \<times> pydict) list"
  sx_cells :: "(string \<times> (string \<times> string) \<times> pydict) list"

definition sql_list_cells :: "string \<Rightarrow> string option \<Rightarrow> sql_experiments \<Rightarrow> pydict list" where
  "sql_list_cells experiment_id version db =
     map (snd \<circ> snd) (filter (\<lambda>(_, (i, v), _). i = experiment_id \<and> (version = None \<or> version = Some v)) (sx_cells db))"

definition sql_insert_cell :: "string \<times> string \<Rightarrow> pydict \<Rightarrow> (sql_experiments, store_exn, unit) sop" where
  "sql_insert_cell key cell =
     st_bind (st_get (\<lambda>db. map_of (sx_cells db) (cell_id_of cell))) (\<lambda>row.
     if row \<noteq> None then st_raise (Plain IntegrityError)
     else st_modify (\<lambda>db. db\<lparr>sx_cells := sx_cells db @ [(cell_id_of cell, key, jnorm_dict cell)]\<rparr>))"

definition sql_publish_experiment :: "pydict \<Rightarrow> pydict list \<Rightarrow> (sql_experiments, store_exn, pydict) sop" where
  "sql_publish_experiment payload cell_payloads =
     st_bind (st_lift (plain (validate_publication payload cell_payloads))) (\<lambda>(spec, cells). transaction (
     st_bind (st_get (\<lambda>db. map_of (sx_specs db) (spec_key spec))) (\<lambda>row. case row of
         Some stored \<Rightarrow>
           st_bind (st_get (sql_list_cells (fst (spec_key spec)) (Some (snd (spec_key spec))))) (\<lambda>existing_cells.
           st_bind (st_lift (plain (check_existing_publication stored existing_cells spec cells))) (\<lambda>_. st_return spec))
       | None \<Rightarrow>
           st_bind (st_modify (\<lambda>db. db\<lparr>sx_specs := sx_specs db @ [(spec_key spec, jnorm_dict spec)]\<rparr>)) (\<lambda>_.
           st_bind (st_iter (sql_insert_cell (spec_key spec)) cells) (\<lambda>_. st_return spec)))))"

definition sql_put_spec :: "pydict \<Rightarrow> (sql_experiments, store_exn, pydict) sop" where
  "sql_put_spec payload =
     st_bind (st_lift (plain (validate_spec payload))) (\<lambda>spec. transaction (
     st_bind (st_get (\<lambda>db. map_of (sx_specs db) (spec_key spec))) (\<lambda>row. case row of
         Some stored \<Rightarrow>
           if \<not> py_eq (PDict stored) (PDict spec) then
             st_raise (Plain (ValueError (''experiment specs are immutable: '' @ dstr spec ''experiment_id'' @ ''@'' @ dstr spec ''version'')))
           else st_return stored
       | None \<Rightarrow> st_bind (st_modify (\<lambda>db. db\<lparr>sx_specs := sx_specs db @ [(spec_key spec, jnorm_dict spec)]\<rparr>)) (\<lambda>_. st_return spec))))"

definition sql_get_spec :: "string \<Rightarrow> string \<Rightarrow> sql_experiments \<Rightarrow> pydict option" where
  "sql_get_spec experiment_id version db = map_of (sx_specs db) (experiment_id, version)"

definition sql_list_specs :: "string option \<Rightarrow> sql_experiments \<Rightarrow> pydict list" where
  "sql_list_specs experiment_id db = map snd (case experiment_id of
       None \<Rightarrow> sort_key (\<lambda>((i, _), _). i) (sort_key (\<lambda>((_, v), _). v) (sx_specs db))
     | Some e \<Rightarrow> sort_key (\<lambda>((_, v), _). v) (filter (\<lambda>((i, _), _). i = e) (sx_specs db)))"

definition sql_put_cell :: "pydict \<Rightarrow> (sql_experiments, store_exn, pydict) sop" where
  "sql_put_cell payload =
     st_bind (st_lift (plain (validate_cell payload))) (\<lambda>cell. transaction (
     st_bind (st_get (\<lambda>db. map_of (sx_cells db) (cell_id_of cell))) (\<lambda>row. case row of
         Some (_, stored) \<Rightarrow>
           if \<not> py_eq (PDict stored) (PDict cell) then st_raise (Plain (ValueError (''cell content conflict: '' @ cell_id_of cell)))
           else st_return stored
       | None \<Rightarrow> st_bind (sql_insert_cell (cell_key cell) cell) (\<lambda>_. st_return cell))))"

definition sql_get_cell :: "string \<Rightarrow> sql_experiments \<Rightarrow> pydict option" where
  "sql_get_cell cell_id db = map_option snd (map_of (sx_cells db) cell_id)"

definition sql_update_cell :: "string \<Rightarrow> pydict \<Rightarrow> sql_experiments \<Rightarrow> sql_experiments" where
  "sql_update_cell cell_id cell db =
     db\<lparr>sx_cells := map (\<lambda>(i, row). if i = cell_id then (i, (\<lambda>(key, _). (key, jnorm_dict cell)) row) else (i, row)) (sx_cells db)\<rparr>"

definition sql_mutate_cell :: "string \<Rightarrow> (pydict \<Rightarrow> store_exn + pydict) \<Rightarrow> (sql_experiments, store_exn, pydict) sop" where
  "sql_mutate_cell cell_id mutate = transaction (
     st_bind (st_get (sql_get_cell cell_id)) (\<lambda>row. case row of
         None \<Rightarrow> st_raise (Plain (KeyError cell_id))
       | Some cell \<Rightarrow>
           st_bind (st_lift (mutate cell)) (\<lambda>cell.
           st_bind (st_modify (sql_update_cell cell_id cell)) (\<lambda>_. st_return cell))))"

definition sql_claim_cell :: "string \<Rightarrow> (sql_experiments, store_exn, bool) sop" where
  "sql_claim_cell cell_id = transaction (
     st_bind (st_get (sql_get_cell cell_id)) (\<lambda>row. case row of
         None \<Rightarrow> st_raise (Plain (KeyError cell_id))
       | Some cell \<Rightarrow>
           if \<not> py_eq (cell_status cell) (PStr ''pending'') then st_return False
           else st_bind (st_modify (sql_update_cell cell_id (set_status ''allocating'' cell))) (\<lambda>_. st_return True)))"

definition sql_complete_cell :: "string \<Rightarrow> string \<Rightarrow> (sql_experiments, store_exn, pydict) sop" where
  "sql_complete_cell cell_id run_id = sql_mutate_cell cell_id (complete_mutate cell_id run_id)"

definition sql_fail_cell :: "string \<Rightarrow> string \<Rightarrow> (sql_experiments, store_exn, pydict) sop" where
  "sql_fail_cell cell_id reason = sql_mutate_cell cell_id (fail_mutate cell_id reason)"

definition sql_cancel_cell :: "string \<Rightarrow> (sql_experiments, store_exn, pydict) sop" where
  "sql_cancel_cell cell_id = sql_mutate_cell cell_id (cancel_mutate cell_id)"

text \<open>The sentinel \<^verbatim>\<open>_NoTransition\<close>\<close>

definition no_transition :: store_exn where
  "no_transition = Coded ''_NoTransition'' []"

definition reset_mutate :: "pydict \<Rightarrow> store_exn + pydict" where
  "reset_mutate cell = (if \<not> py_eq (cell_status cell) (PStr ''allocating'') then Inl no_transition else Inr (set_status ''pending'' cell))"

definition sql_reset_allocating :: "string \<Rightarrow> (sql_experiments, store_exn, bool) sop" where
  "sql_reset_allocating cell_id =
     st_catch (st_bind (sql_mutate_cell cell_id reset_mutate) (\<lambda>_. st_return True))
       (\<lambda>e. if e = no_transition then st_return False else st_raise e)"

definition sql_cancel_allocated_cell :: "string \<Rightarrow> (sql_experiments, store_exn, pydict) sop" where
  "sql_cancel_allocated_cell cell_id = sql_mutate_cell cell_id (cancel_allocated_mutate cell_id)"

definition sql_record_superseding :: "string \<Rightarrow> string \<Rightarrow> (sql_experiments, store_exn, pydict) sop" where
  "sql_record_superseding cell_id run_id = sql_mutate_cell cell_id (superseding_mutate run_id)"

section \<open>Calls\<close>

datatype experiment_call =
    XPublish pydict "pydict list"
  | XPutSpec pydict
  | XPutCell pydict
  | XClaim string
  | XComplete string string
  | XFail string string
  | XCancel string
  | XReset string
  | XCancelAllocated string
  | XSupersede string string

datatype experiment_out = XRecord pydict | XFlag bool

definition out_with :: "('a \<Rightarrow> 'b) \<Rightarrow> ('s, 'e, 'a) sop \<Rightarrow> ('s, 'e, 'b) sop" where
  "out_with f m = st_bind m (\<lambda>x. st_return (f x))"

fun mem_experiment_exec :: "(pydict \<Rightarrow> string) \<Rightarrow> experiment_call \<Rightarrow> (mem_experiments, store_exn, experiment_out) sop" where
  "mem_experiment_exec dumps (XPublish p cs) = out_with XRecord (mem_publish_experiment dumps p cs)"
| "mem_experiment_exec dumps (XPutSpec p) = out_with XRecord (mem_put_spec p)"
| "mem_experiment_exec dumps (XPutCell p) = out_with XRecord (mem_put_cell p)"
| "mem_experiment_exec dumps (XClaim c) = out_with XFlag (mem_claim_cell c)"
| "mem_experiment_exec dumps (XComplete c r) = out_with XRecord (mem_complete_cell c r)"
| "mem_experiment_exec dumps (XFail c r) = out_with XRecord (mem_fail_cell c r)"
| "mem_experiment_exec dumps (XCancel c) = out_with XRecord (mem_cancel_cell c)"
| "mem_experiment_exec dumps (XReset c) = out_with XFlag (mem_reset_allocating c)"
| "mem_experiment_exec dumps (XCancelAllocated c) = out_with XRecord (mem_cancel_allocated_cell c)"
| "mem_experiment_exec dumps (XSupersede c r) = out_with XRecord (mem_record_superseding c r)"

fun sql_experiment_exec :: "experiment_call \<Rightarrow> (sql_experiments, store_exn, experiment_out) sop" where
  "sql_experiment_exec (XPublish p cs) = out_with XRecord (sql_publish_experiment p cs)"
| "sql_experiment_exec (XPutSpec p) = out_with XRecord (sql_put_spec p)"
| "sql_experiment_exec (XPutCell p) = out_with XRecord (sql_put_cell p)"
| "sql_experiment_exec (XClaim c) = out_with XFlag (sql_claim_cell c)"
| "sql_experiment_exec (XComplete c r) = out_with XRecord (sql_complete_cell c r)"
| "sql_experiment_exec (XFail c r) = out_with XRecord (sql_fail_cell c r)"
| "sql_experiment_exec (XCancel c) = out_with XRecord (sql_cancel_cell c)"
| "sql_experiment_exec (XReset c) = out_with XFlag (sql_reset_allocating c)"
| "sql_experiment_exec (XCancelAllocated c) = out_with XRecord (sql_cancel_allocated_cell c)"
| "sql_experiment_exec (XSupersede c r) = out_with XRecord (sql_record_superseding c r)"

definition mem_experiments_empty :: mem_experiments where
  "mem_experiments_empty = \<lparr>mx_specs = [], mx_cells = []\<rparr>"

definition sql_experiments_empty :: sql_experiments where
  "sql_experiments_empty = \<lparr>sx_specs = [], sx_cells = []\<rparr>"

text \<open>The keys: a version of a specification, and a cell.\<close>

type_synonym experiment_key = "string \<times> string + string"

definition mem_experiment_view :: "mem_experiments \<Rightarrow> experiment_key \<Rightarrow> (string \<Rightarrow> pyval option) option" where
  "mem_experiment_view s k = map_option content (case k of Inl p \<Rightarrow> map_of (mx_specs s) p | Inr c \<Rightarrow> mem_get_cell c s)"

definition sql_experiment_view :: "sql_experiments \<Rightarrow> experiment_key \<Rightarrow> (string \<Rightarrow> pyval option) option" where
  "sql_experiment_view db k = map_option content (case k of Inl p \<Rightarrow> map_of (sx_specs db) p | Inr c \<Rightarrow> sql_get_cell c db)"

section \<open>The contract\<close>

text \<open>
  The cell that a call moves, and how.  A call acts when it returns the cell or \<^verbatim>\<open>True\<close>.
\<close>

definition claim_mutate :: "pydict \<Rightarrow> store_exn + pydict" where
  "claim_mutate cell = (if cell_status cell \<noteq> PStr ''pending'' then Inl no_transition else Inr (set_status ''allocating'' cell))"

fun cell_move :: "experiment_call \<Rightarrow> (string \<times> (pydict \<Rightarrow> store_exn + pydict)) option" where
  "cell_move (XClaim c) = Some (c, claim_mutate)"
| "cell_move (XComplete c r) = Some (c, complete_mutate c r)"
| "cell_move (XFail c r) = Some (c, fail_mutate c r)"
| "cell_move (XCancel c) = Some (c, cancel_mutate c)"
| "cell_move (XReset c) = Some (c, reset_mutate)"
| "cell_move (XCancelAllocated c) = Some (c, cancel_allocated_mutate c)"
| "cell_move (XSupersede c r) = Some (c, superseding_mutate r)"
| "cell_move _ = None"

fun acted :: "'e + experiment_out \<Rightarrow> bool" where
  "acted (Inr (XRecord _)) = True"
| "acted (Inr (XFlag b)) = b"
| "acted (Inl _) = False"

definition moves :: "(pydict \<Rightarrow> store_exn + pydict) \<Rightarrow> (string \<Rightarrow> pyval option) option \<Rightarrow> (string \<Rightarrow> pyval option) option \<Rightarrow> bool" where
  "moves f v w \<longleftrightarrow> (\<exists>cell cell'. v = Some (content cell) \<and> f cell = Inr cell' \<and> w = Some (content cell'))"

definition is_open :: "(string \<Rightarrow> pyval option) \<Rightarrow> bool" where
  "is_open v \<longleftrightarrow> v ''allocation_status'' \<in> {Some (PStr ''pending''), Some (PStr ''allocating'')}"

text \<open>
  What may change in a cell: its status, and with it the run or the reason; the runs that supersede its run
  only grow.  Once allocated, failed or cancelled, the run and the reason stay, and an allocated cell can
  only be cancelled.
\<close>

definition cell_change :: "(string \<Rightarrow> pyval option) \<Rightarrow> (string \<Rightarrow> pyval option) \<Rightarrow> bool" where
  "cell_change v w \<longleftrightarrow>
     (\<forall>f. f \<notin> {''allocation_status'', ''run_id'', ''failure_reason'', ''superseding_run_ids''} \<longrightarrow> w f = v f) \<and>
     (\<not> is_open v \<longrightarrow> w ''run_id'' = v ''run_id'' \<and> w ''failure_reason'' = v ''failure_reason'' \<and>
        (w ''allocation_status'' = v ''allocation_status'' \<or>
         v ''allocation_status'' = Some (PStr ''allocated'') \<and> w ''allocation_status'' = Some (PStr ''cancelled''))) \<and>
     (\<forall>xs. v ''superseding_run_ids'' = Some (PList xs) \<longrightarrow> (\<exists>ys. w ''superseding_run_ids'' = Some (PList (xs @ ys))))"

definition experiment_change :: "experiment_key \<Rightarrow> (string \<Rightarrow> pyval option) \<Rightarrow> (string \<Rightarrow> pyval option) \<Rightarrow> bool" where
  "experiment_change k v w \<longleftrightarrow> (case k of Inl _ \<Rightarrow> w = v | Inr _ \<Rightarrow> cell_change v w)"

lemma cell_change_refl: "cell_change v v"
  by (simp add: cell_change_def)

lemma cell_change_closed:
  assumes "cell_change v w" "\<not> is_open v"
  shows "w ''run_id'' = v ''run_id''" "w ''failure_reason'' = v ''failure_reason''"
    "w ''allocation_status'' = v ''allocation_status'' \<or>
     v ''allocation_status'' = Some (PStr ''allocated'') \<and> w ''allocation_status'' = Some (PStr ''cancelled'')"
    "\<not> is_open w"
proof -
  show run: "w ''run_id'' = v ''run_id''" and "w ''failure_reason'' = v ''failure_reason''"
    and st: "w ''allocation_status'' = v ''allocation_status'' \<or>
      v ''allocation_status'' = Some (PStr ''allocated'') \<and> w ''allocation_status'' = Some (PStr ''cancelled'')"
    using assms unfolding cell_change_def by blast+
  show "\<not> is_open w" using st assms(2) unfolding is_open_def by auto
qed

lemma cell_change_superseding:
  "cell_change v w \<Longrightarrow> v ''superseding_run_ids'' = Some (PList xs) \<Longrightarrow> \<exists>ys. w ''superseding_run_ids'' = Some (PList (xs @ ys))"
  unfolding cell_change_def by blast

lemma cell_change_trans: "cell_change u v \<Longrightarrow> cell_change v w \<Longrightarrow> cell_change u w"
proof -
  assume uv: "cell_change u v" and vw: "cell_change v w"
  have frozen: "w f = u f" if "f \<notin> {''allocation_status'', ''run_id'', ''failure_reason'', ''superseding_run_ids''}" for f
    using uv vw that unfolding cell_change_def by metis
  have closed: "w ''run_id'' = u ''run_id'' \<and> w ''failure_reason'' = u ''failure_reason'' \<and>
      (w ''allocation_status'' = u ''allocation_status'' \<or>
       u ''allocation_status'' = Some (PStr ''allocated'') \<and> w ''allocation_status'' = Some (PStr ''cancelled''))" if "\<not> is_open u"
    using cell_change_closed [OF uv that] cell_change_closed [OF vw cell_change_closed(4) [OF uv that]] by auto
  have "\<exists>ys. w ''superseding_run_ids'' = Some (PList (xs @ ys))" if "u ''superseding_run_ids'' = Some (PList xs)" for xs
    using cell_change_superseding [OF uv that] cell_change_superseding [OF vw] by fastforce
  with frozen closed show "cell_change u w" unfolding cell_change_def by blast
qed

lemma content_status: "content cell ''allocation_status'' = Some (PStr x) \<longleftrightarrow> cell_status cell = PStr x"
proof -
  have "jnorm v = PStr x \<longleftrightarrow> v = PStr x" for v by (cases v) auto
  then show ?thesis by (auto simp: content_def dget_def split: option.splits)
qed

lemmas mutate_defs = claim_mutate_def complete_mutate_def fail_mutate_def cancel_mutate_def reset_mutate_def
  cancel_allocated_mutate_def set_status_def

lemma superseding_cell_change:
  assumes "superseding_mutate r cell = Inr cell'"
  shows "cell_change (content cell) (content cell')"
proof -
  obtain xs where xs: "list_or_empty (dget cell ''superseding_run_ids'') = Inr xs"
    and cell': "\<exists>ys. cell' = od_set ''superseding_run_ids'' (PList (xs @ ys)) cell"
    using assms by (auto simp: superseding_mutate_def res_bind_def split: sum.splits if_splits) (metis append_Nil2)
  have "xs = zs" if "map_of cell ''superseding_run_ids'' = Some (PList zs)" for zs
    using xs that by (auto simp: list_or_empty_def py_iter_def dget_def split: if_splits)
  moreover have "\<exists>zs. v = PList zs \<and> map jnorm zs = us" if "jnorm v = PList us" for v us using that by (cases v) auto
  ultimately show ?thesis using cell' by (fastforce simp: cell_change_def dict_simps content_def)
qed

lemma cell_move_change: "cell_move op = Some (c, f) \<Longrightarrow> moves f (Some v) (Some w) \<Longrightarrow> cell_change v w"
proof (cases "\<exists>c r. op = XSupersede c r")
  case False
  then show "cell_move op = Some (c, f) \<Longrightarrow> moves f (Some v) (Some w) \<Longrightarrow> cell_change v w"
    by (cases op) (auto simp: moves_def mutate_defs cell_change_def is_open_def dict_simps content_status split: if_splits)
qed (auto simp: moves_def intro: superseding_cell_change)

text \<open>
  What a store of experiments promises: a call changes only records that were not there or the cell it
  moves, and it moves that cell exactly when it acts.
\<close>

locale cell_store =
  fixes exec :: "experiment_call \<Rightarrow> ('s, store_exn, experiment_out) sop"
    and view :: "'s \<Rightarrow> experiment_key \<Rightarrow> (string \<Rightarrow> pyval option) option"
  assumes adds: "cell_move op = None \<Longrightarrow> view (snd (exec op s)) k = view s k \<or> view s k = None"
    and still: "cell_move op = Some (c, f) \<Longrightarrow> k \<noteq> Inr c \<or> \<not> acted (fst (exec op s)) \<Longrightarrow> view (snd (exec op s)) k = view s k"
    and moved: "cell_move op = Some (c, f) \<Longrightarrow> acted (fst (exec op s)) \<Longrightarrow> moves f (view s (Inr c)) (view (snd (exec op s)) (Inr c))"
begin

lemma cell_step_cases:
  obtains (same) "view (snd (exec op s)) k = view s k"
  | (fresh) "view s k = None" "cell_move op = None"
  | (move) c f where "k = Inr c" "cell_move op = Some (c, f)" "acted (fst (exec op s))" "moves f (view s k) (view (snd (exec op s)) k)"
proof (cases "cell_move op")
  case None
  then show ?thesis using adds [OF None, of s k] same fresh by blast
next
  case (Some p)
  obtain c f where cf: "cell_move op = Some (c, f)" using Some by (cases p) auto
  show ?thesis
  proof (cases "k = Inr c \<and> acted (fst (exec op s))")
    case True
    then show ?thesis using moved [OF cf, of s] cf move by blast
  next
    case False
    then show ?thesis using still [OF cf, of k s] same by blast
  qed
qed

lemma step_evolved: "evolved experiment_change (view s) (view (snd (exec op s)))"
  unfolding evolved_def
proof (intro allI impI)
  fix k v assume v: "view s k = Some v"
  show "\<exists>w. view (snd (exec op s)) k = Some w \<and> experiment_change k v w"
  proof (rule cell_step_cases [of op s k])
    fix c f assume m: "k = Inr c" "cell_move op = Some (c, f)" "moves f (view s k) (view (snd (exec op s)) k)"
    then obtain w where w: "view (snd (exec op s)) k = Some w" by (auto simp: moves_def)
    then show ?thesis using m v cell_move_change [OF m(2), of v w] by (simp add: experiment_change_def)
  qed (use v in \<open>auto simp: experiment_change_def cell_change_refl split: sum.splits\<close>)
qed

end

sublocale cell_store \<subseteq> frozen_store exec "\<lambda>_. True" view experiment_change
proof unfold_locales
  show "experiment_change k u v \<Longrightarrow> experiment_change k v w \<Longrightarrow> experiment_change k u w" for k u v w
    by (auto simp: experiment_change_def intro: cell_change_trans split: sum.splits)
qed (auto simp: experiment_change_def cell_change_refl intro: step_evolved split: sum.splits)

definition claimed_cell :: "string \<Rightarrow> experiment_call \<Rightarrow> 'e + experiment_out \<Rightarrow> bool" where
  "claimed_cell c op r \<longleftrightarrow> op = XClaim c \<and> acted r"

definition reset_cell :: "string \<Rightarrow> experiment_call \<Rightarrow> 'e + experiment_out \<Rightarrow> bool" where
  "reset_cell c op r \<longleftrightarrow> op = XReset c \<and> acted r"

definition completed_cell :: "string \<Rightarrow> experiment_call \<Rightarrow> 'e + experiment_out \<Rightarrow> bool" where
  "completed_cell c op r \<longleftrightarrow> (case op of XComplete d _ \<Rightarrow> d = c | _ \<Rightarrow> False) \<and> acted r"

text \<open>A cell can still be claimed, or completed: it is not there yet, or its status allows it.\<close>

definition claimable :: "(string \<Rightarrow> pyval option) option \<Rightarrow> bool" where
  "claimable v = (case v of None \<Rightarrow> True | Some d \<Rightarrow> d ''allocation_status'' = Some (PStr ''pending''))"

definition completable :: "(string \<Rightarrow> pyval option) option \<Rightarrow> bool" where
  "completable v = (case v of None \<Rightarrow> True | Some d \<Rightarrow> is_open d)"

lemma moves_claimable:
  assumes "cell_move op = Some (c, f)" "moves f v w" shows "claimable w \<Longrightarrow> op = XReset c \<or> claimable v" "op = XClaim c \<Longrightarrow> claimable v \<and> \<not> claimable w"
  using assms by (cases op; auto simp: moves_def claimable_def mutate_defs superseding_mutate_def res_bind_def dict_simps content_status
      split: if_splits sum.splits)+

lemma moves_completable:
  assumes "cell_move op = Some (c, f)" "moves f v w" shows "completable w \<Longrightarrow> completable v" "op = XComplete c r \<Longrightarrow> completable v \<and> \<not> completable w"
  using assms by (cases op; auto simp: moves_def completable_def is_open_def mutate_defs superseding_mutate_def res_bind_def dict_simps
      content_status split: if_splits sum.splits)+

context cell_store
begin

lemma claim_cost:
  "of_bool (claimed_cell c op (fst (exec op s))) + of_bool (claimable (view (snd (exec op s)) (Inr c))) \<le>
   of_bool (claimable (view s (Inr c))) + (of_bool (reset_cell c op (fst (exec op s))) :: nat)"
proof (rule cell_step_cases [of op s "Inr c"])
  assume "view (snd (exec op s)) (Inr c) = view s (Inr c)"
  moreover from this have "\<not> claimed_cell c op (fst (exec op s))"
    using moved [of "XClaim c" c claim_mutate s] moves_claimable(2) [of "XClaim c" c claim_mutate "view s (Inr c)" "view s (Inr c)"]
    by (auto simp: claimed_cell_def)
  ultimately show ?thesis by simp
next
  assume "view s (Inr c) = None" "cell_move op = None"
  then show ?thesis by (auto simp: claimable_def claimed_cell_def)
next
  fix d f assume "Inr c = (Inr d :: experiment_key)" "cell_move op = Some (d, f)" "acted (fst (exec op s))"
    "moves f (view s (Inr c)) (view (snd (exec op s)) (Inr c))"
  then show ?thesis using moves_claimable [of op c f] by (auto simp: claimed_cell_def reset_cell_def)
qed

lemma complete_cost:
  "of_bool (completed_cell c op (fst (exec op s))) + of_bool (completable (view (snd (exec op s)) (Inr c))) \<le>
   of_bool (completable (view s (Inr c))) + (of_bool False :: nat)"
proof (rule cell_step_cases [of op s "Inr c"])
  assume "view (snd (exec op s)) (Inr c) = view s (Inr c)"
  moreover from this have "\<not> completed_cell c op (fst (exec op s))"
    using moved [of "XComplete c r" c "complete_mutate c r" s for r]
      moves_completable(2) [of "XComplete c r" c "complete_mutate c r" "view s (Inr c)" "view s (Inr c)" for r]
    by (fastforce simp: completed_cell_def split: experiment_call.splits)
  ultimately show ?thesis by simp
next
  assume "view s (Inr c) = None" "cell_move op = None"
  then show ?thesis by (auto simp: completable_def completed_cell_def split: experiment_call.splits)
next
  fix d f assume "Inr c = (Inr d :: experiment_key)" "cell_move op = Some (d, f)" "acted (fst (exec op s))"
    "moves f (view s (Inr c)) (view (snd (exec op s)) (Inr c))"
  then show ?thesis using moves_completable [of op c f] by (auto simp: completed_cell_def split: experiment_call.splits)
qed

lemma claims_bound:
  "count_calls (claimed_cell c) ops (fst (exec_all exec ops s)) \<le> 1 + count_calls (reset_cell c) ops (fst (exec_all exec ops s))"
  using count_bound [of "claimed_cell c" exec "\<lambda>s. of_bool (claimable (view s (Inr c)))" "reset_cell c", OF claim_cost, of ops s]
  by (rule order_trans) simp

lemma completes_bound: "count_calls (completed_cell c) ops (fst (exec_all exec ops s)) \<le> 1"
proof -
  have "count_calls (\<lambda>_ _. False) ops rs = 0" for rs :: "(store_exn + experiment_out) list" by (simp add: count_calls_def split_def)
  then show ?thesis
    using count_bound [of "completed_cell c" exec "\<lambda>s. of_bool (completable (view s (Inr c)))" "\<lambda>_ _. False", OF complete_cost, of ops s]
    by (simp add: order_trans)
qed

end

section \<open>Both stores keep the contract\<close>

lemma out_with_simps: "snd (out_with g m s) = snd (m s)" "fst (out_with g m s) = map_sum id g (fst (m s))"
  by (auto simp: out_with_def st_bind_def sop_simps split: prod.splits sum.splits)

lemma acted_map [simp]: "acted (map_sum id XRecord r) \<longleftrightarrow> (\<exists>x. r = Inr x)" "acted (map_sum id XFlag r') \<longleftrightarrow> r' = Inr True"
  by (cases r; simp) (cases r'; simp)

lemma mem_view_set:
  "mem_experiment_view (s\<lparr>mx_cells := od_set c cell (mx_cells s)\<rparr>) = (mem_experiment_view s)(Inr c \<mapsto> content cell)"
  by (auto simp: mem_experiment_view_def mem_get_cell_def fun_eq_iff split: sum.splits)

text \<open>A call that moves a cell is its transition, up to the form of the result.\<close>

lemma mem_exec_move:
  assumes "cell_move op = Some (c, f)"
  shows "(\<not> acted (fst (mem_experiment_exec dumps op s)) \<and> snd (mem_experiment_exec dumps op s) = s) \<or>
    (\<exists>cell cell'. acted (fst (mem_experiment_exec dumps op s)) \<and> mem_get_cell c s = Some cell \<and> f cell = Inr cell' \<and>
       snd (mem_experiment_exec dumps op s) = s\<lparr>mx_cells := od_set c cell' (mx_cells s)\<rparr>)"
  using assms
  by (cases op) (auto simp: out_with_simps mem_cell_transition_def mem_complete_cell_def mem_fail_cell_def mem_cancel_cell_def mem_cancel_allocated_cell_def
      mem_record_superseding_def mem_claim_cell_def mem_reset_allocating_def mem_get_cell_def claim_mutate_def reset_mutate_def
      sop_defs sop_simps split: option.splits sum.splits if_splits)

lemma mem_exec_add:
  assumes "cell_move op = None"
  shows "mem_experiment_view (snd (mem_experiment_exec dumps op s)) k = mem_experiment_view s k \<or> mem_experiment_view s k = None"
proof (cases op)
  case (XPublish p cs)
  show ?thesis
    by (auto simp: XPublish out_with_simps mem_publish_experiment_def validate_publication_def res_bind_def sop_defs sop_simps mem_experiment_view_def
        mem_get_cell_def map_of_od_merge comp_def map_add_def list_ex_iff split: sum.splits option.splits if_splits)
qed (use assms in \<open>auto simp: out_with_simps mem_put_spec_def mem_put_cell_def sop_defs sop_simps mem_experiment_view_def mem_get_cell_def
    split: sum.splits option.splits\<close>)

interpretation memx: cell_store "mem_experiment_exec dumps" mem_experiment_view for dumps
proof
  show "moves f (mem_experiment_view s (Inr c)) (mem_experiment_view (snd (mem_experiment_exec dumps op s)) (Inr c))"
    if "cell_move op = Some (c, f)" "acted (fst (mem_experiment_exec dumps op s))" for op c f s
    using mem_exec_move [OF that(1), of dumps s] that(2) by (auto simp: moves_def mem_view_set) (auto simp: mem_experiment_view_def)
  show "mem_experiment_view (snd (mem_experiment_exec dumps op s)) k = mem_experiment_view s k"
    if "cell_move op = Some (c, f)" "k \<noteq> Inr c \<or> \<not> acted (fst (mem_experiment_exec dumps op s))" for op c f s k
    using mem_exec_move [OF that(1), of dumps s] that(2) by (auto simp: mem_view_set)
qed (rule mem_exec_add)

lemma sql_update_cell_get: "sql_get_cell c' (sql_update_cell c cell db) = (if c' = c then map_option (\<lambda>_. jnorm_dict cell) (sql_get_cell c db) else sql_get_cell c' db)"
  by (simp add: sql_get_cell_def sql_update_cell_def map_of_rewrite option.map_comp) (simp add: comp_def split_def)

lemma sql_view_set:
  "sql_get_cell c db = Some old \<Longrightarrow> sql_experiment_view (sql_update_cell c cell db) = (sql_experiment_view db)(Inr c \<mapsto> content cell)"
  by (auto simp: sql_experiment_view_def sql_update_cell_get fun_eq_iff split: sum.splits) (simp add: sql_update_cell_def)

lemma sql_exec_move:
  assumes "cell_move op = Some (c, f)"
  shows "(\<not> acted (fst (sql_experiment_exec op s)) \<and> snd (sql_experiment_exec op s) = s) \<or>
    (\<exists>cell cell'. acted (fst (sql_experiment_exec op s)) \<and> sql_get_cell c s = Some cell \<and> f cell = Inr cell' \<and>
       snd (sql_experiment_exec op s) = sql_update_cell c cell' s)"
  using assms
  by (cases op) (auto simp: out_with_simps sql_mutate_cell_def sql_complete_cell_def sql_fail_cell_def sql_cancel_cell_def
      sql_cancel_allocated_cell_def sql_record_superseding_def sql_claim_cell_def sql_reset_allocating_def claim_mutate_def reset_mutate_def
      st_catch_def sop_defs sop_simps split: option.splits sum.splits if_splits)

lemma sql_insert_cells:
  "st_iter (sql_insert_cell key) cells db = (Inr (), db') \<Longrightarrow>
   sx_specs db' = sx_specs db \<and> (\<forall>c d. sql_get_cell c db = Some d \<longrightarrow> sql_get_cell c db' = Some d)"
proof (induction cells arbitrary: db)
  case (Cons cell cells)
  then obtain db1 where db1: "sql_insert_cell key cell db = (Inr (), db1)" "st_iter (sql_insert_cell key) cells db1 = (Inr (), db')"
    by (auto simp: st_bind_def split: prod.splits sum.splits)
  then have "sx_specs db1 = sx_specs db \<and> (\<forall>c d. sql_get_cell c db = Some d \<longrightarrow> sql_get_cell c db1 = Some d)"
    by (auto simp: sql_insert_cell_def sql_get_cell_def sop_defs sop_simps map_of_append_fresh split: if_splits)
  with Cons.IH [OF db1(2)] show ?case by simp
qed (simp add: sop_simps)

lemma sql_get_cell_specs [simp]: "sql_get_cell c (db\<lparr>sx_specs := x\<rparr>) = sql_get_cell c db"
  by (simp add: sql_get_cell_def)

lemma sql_exec_add:
  assumes "cell_move op = None"
  shows "sql_experiment_view (snd (sql_experiment_exec op s)) k = sql_experiment_view s k \<or> sql_experiment_view s k = None"
proof (cases op)
  case (XPublish p cs)
  show ?thesis
    by (cases k) (auto simp: XPublish out_with_simps sql_publish_experiment_def sop_defs sop_simps sql_experiment_view_def
        map_of_append_fresh dest!: sql_insert_cells split: sum.splits option.splits prod.splits)
qed (use assms in \<open>auto simp: out_with_simps sql_put_spec_def sql_put_cell_def sql_insert_cell_def sop_defs sop_simps sql_experiment_view_def
    sql_get_cell_def map_of_append_fresh split: sum.splits option.splits\<close>)

interpretation sqlx: cell_store sql_experiment_exec sql_experiment_view
proof
  show "moves f (sql_experiment_view s (Inr c)) (sql_experiment_view (snd (sql_experiment_exec op s)) (Inr c))"
    if "cell_move op = Some (c, f)" "acted (fst (sql_experiment_exec op s))" for op c f s
    using sql_exec_move [OF that(1), of s] that(2) by (auto simp: moves_def sql_view_set) (auto simp: sql_experiment_view_def)
  show "sql_experiment_view (snd (sql_experiment_exec op s)) k = sql_experiment_view s k"
    if "cell_move op = Some (c, f)" "k \<noteq> Inr c \<or> \<not> acted (fst (sql_experiment_exec op s))" for op c f s k
    using sql_exec_move [OF that(1), of s] that(2) by (auto simp: sql_view_set)
qed (rule sql_exec_add)

end
