(* ===== verification/Experiment_Matrix.thy ===== *)
theory Experiment_Matrix
  imports Experiment_Store Gate_Policy
begin

text \<open>
  The contract of an experiment, \<^verbatim>\<open>packages/contracts/motte_contracts/experiment.py\<close>, and what
  \<^verbatim>\<open>packages/sdk-python/motte_sdk/experiments.py\<close> computes from it before any store is touched: the expansion of the
  factors into cells, the identity of a cell, the limits on the matrix and the conditions a suite accepts.  The
  expansion is exact: every combination of declared values occurs once for every repeat, in canonical order,
  and the matrix is accepted for publication.  \<open>canonical_hash\<close>, SHA-256 of the canonical JSON text, is a parameter;
  a typed suite configuration is its kind and its JSON form.
\<close>

section \<open>Factors\<close>

definition EXPERIMENT_FACTORS :: "string list" where
  "EXPERIMENT_FACTORS = [''model_profile'', ''reasoning_level'', ''prompt_version'', ''runtime_version'', ''skill_version'']"

record factor_value =
  fv_factor :: string
  fv_value :: string
  fv_resource_ref :: "string option"
  fv_version_hash :: "string option"

type_synonym factor_assignment = "factor_value list"

text \<open>What Pydantic and the validator of \<^verbatim>\<open>FactorValue\<close> accept.\<close>

definition factor_value_ok :: "factor_value \<Rightarrow> bool" where
  "factor_value_ok v \<longleftrightarrow> fv_factor v \<in> set EXPERIMENT_FACTORS \<and> fv_value v \<noteq> []"

definition assignment_problem :: "factor_assignment \<Rightarrow> string option" where
  "assignment_problem values =
     (let factors = map fv_factor values in
      if \<not> distinct factors then
        Some (''duplicate factors: '' @ join_with '','' (sort (remdups (filter (\<lambda>f. 1 < count_list factors f) factors))))
      else if factors \<noteq> sort factors then
        Some (''factor assignment must be canonical (sorted by factor name): '' @ join_with '','' factors)
      else None)"

definition new_assignment :: "factor_assignment \<Rightarrow> exn + factor_assignment" where
  "new_assignment values =
     (if \<not> list_all factor_value_ok values then Inl (ValueError ''FactorValue'')
      else case assignment_problem values of Some m \<Rightarrow> Inl (ValueError m) | None \<Rightarrow> Inr values)"

definition as_dict :: "factor_assignment \<Rightarrow> (string, string) odict" where
  "as_dict values = od_merge [] (map (\<lambda>v. (fv_factor v, fv_value v)) values)"

definition ref_val :: "string option \<Rightarrow> pyval" where
  "ref_val x = (case x of None \<Rightarrow> PNone | Some s \<Rightarrow> PStr s)"

definition canonical_payload :: "factor_assignment \<Rightarrow> pydict" where
  "canonical_payload values = od_merge [] (map (\<lambda>v. (fv_factor v, PDict [(''value'', PStr (fv_value v)),
     (''resource_ref'', ref_val (fv_resource_ref v)), (''version_hash'', ref_val (fv_version_hash v))])) values)"

section \<open>The specification\<close>

record experiment_budget =
  bp_max_total_calls :: int
  bp_max_total_tokens :: "int option"
  bp_max_cost_usd :: "pyfloat option"
  bp_cost_known_required :: bool

record stop_policy =
  sp_on_first_failure :: bool
  sp_max_failures :: "int option"
  sp_wall_clock_seconds :: "int option"

record evaluation_ref =
  er_scoring :: string
  er_scoring_pass_hint :: "string option"
  er_statistical_policy :: string

datatype suite_kind = Ceval | ScenarioSuite | SkillSuite

record suite_config =
  sc_kind :: suite_kind
  sc_dump :: pydict

record experiment_spec =
  es_experiment_id :: string
  es_version :: string
  es_task_ref :: "(string, string) odict"
  es_selected_case_keys :: "string list"
  es_factors :: "(string, string list) odict"
  es_controlled_conditions :: pydict
  es_suite_config :: "suite_config option"
  es_repeats :: int
  es_trials_per_run :: "int option"
  es_budget_policy :: experiment_budget
  es_evaluation_ref :: evaluation_ref
  es_stop_policy :: stop_policy
  es_max_cells :: int
  es_created_by :: string
  es_reason :: string
  es_created_at :: "string option"

definition at_least :: "int \<Rightarrow> int option \<Rightarrow> bool" where
  "at_least n x \<longleftrightarrow> (case x of None \<Rightarrow> True | Some m \<Rightarrow> n \<le> m)"

definition budget_policy_ok :: "experiment_budget \<Rightarrow> bool" where
  "budget_policy_ok b \<longleftrightarrow> 1 \<le> bp_max_total_calls b \<and> at_least 1 (bp_max_total_tokens b) \<and>
     (case bp_max_cost_usd b of None \<Rightarrow> True | Some (FFin q) \<Rightarrow> 0 < q | Some _ \<Rightarrow> False)"

definition stop_policy_ok :: "stop_policy \<Rightarrow> bool" where
  "stop_policy_ok p \<longleftrightarrow> at_least 0 (sp_max_failures p) \<and> at_least 1 (sp_wall_clock_seconds p) \<and>
     \<not> (sp_max_failures p = Some 0 \<and> sp_on_first_failure p)"

definition task_ref_ok :: "(string, string) odict \<Rightarrow> bool" where
  "task_ref_ok ref \<longleftrightarrow> map_of ref ''suite'' \<notin> {None, Some []}"

text \<open>Every declared factor is known and declares values, each of them once.\<close>

definition factors_problem :: "(string, string list) odict \<Rightarrow> fstr option" where
  "factors_problem value =
     (let unknown = sort (filter (\<lambda>f. f \<notin> set EXPERIMENT_FACTORS) (map fst value)) in
      if unknown \<noteq> [] then
        Some [Txt (''unknown factors: '' @ join_with '','' unknown @ '' (known: '' @ join_with '','' (sort EXPERIMENT_FACTORS) @ '')'')]
      else case find (\<lambda>(_, values). values = [] \<or> \<not> distinct values) value of
          None \<Rightarrow> None
        | Some (f, values) \<Rightarrow>
            Some [Txt ''factor '', Rep (PStr f), Txt (if values = [] then '' declares no values'' else '' declares duplicate values'')])"

section \<open>Fixed references of a skill\<close>

definition alnum :: "char \<Rightarrow> bool" where
  "alnum c \<longleftrightarrow> c \<in> set ''ABCDEFGHIJKLMNOPQRSTUVWXYZabcdefghijklmnopqrstuvwxyz0123456789''"

definition digit_char :: "char \<Rightarrow> bool" where
  "digit_char c \<longleftrightarrow> c \<in> set ''0123456789''"

definition name_char :: "char \<Rightarrow> bool" where
  "name_char c \<longleftrightarrow> alnum c \<or> c \<in> set ''._-''"

definition RESOURCE_NAME :: "string \<Rightarrow> bool" where
  "RESOURCE_NAME s \<longleftrightarrow> (case s of [] \<Rightarrow> False | c # cs \<Rightarrow> alnum c \<and> \<not> digit_char c \<and> list_all name_char cs \<and> length cs \<le> 127)"

definition hex_text :: "nat \<Rightarrow> string \<Rightarrow> bool" where
  "hex_text n s \<longleftrightarrow> length s = n \<and> list_all (\<lambda>c. c \<in> set ''0123456789abcdef'') s"

definition FIXED_SKILL_VERSION :: "string \<Rightarrow> bool" where
  "FIXED_SKILL_VERSION s \<longleftrightarrow>
     (let sign = (\<lambda>c. c \<in> set ''-+''); core = takeWhile (\<lambda>c. \<not> sign c) s; suffix = dropWhile (\<lambda>c. \<not> sign c) s in
      list_all (\<lambda>w. w \<noteq> [] \<and> list_all digit_char w) (split_dots core) \<and> (suffix = [] \<or> tl suffix \<noteq> [] \<and> list_all name_char (tl suffix))) \<or>
     take 7 s = ''sha256:'' \<and> hex_text 64 (drop 7 s) \<or> hex_text 40 s"

text \<open>
  \<^verbatim>\<open>value.rpartition("@")\<close>, then \<^verbatim>\<open>_pinned_reference\<close> and the fixed version together: a version of that form is neither
  blank, nor a floating placeholder, nor has it a wildcard.
\<close>

definition fixed_skill_ref :: "string \<Rightarrow> bool" where
  "fixed_skill_ref s \<longleftrightarrow> (case rpartition_at s of None \<Rightarrow> False
     | Some (name, version) \<Rightarrow> RESOURCE_NAME name \<and> FIXED_SKILL_VERSION version)"

definition suite_of :: "suite_kind \<Rightarrow> string" where
  "suite_of k = (case k of Ceval \<Rightarrow> ''ceval-external'' | ScenarioSuite \<Rightarrow> ''scenario'' | SkillSuite \<Rightarrow> ''skill'')"

definition typed_suite_ok :: "experiment_spec \<Rightarrow> bool" where
  "typed_suite_ok spec \<longleftrightarrow> (case es_suite_config spec of
       None \<Rightarrow> True
     | Some config \<Rightarrow>
         map_of (es_task_ref spec) ''suite'' = Some (suite_of (sc_kind config)) \<and> es_controlled_conditions spec = [] \<and>
         (sc_kind config = SkillSuite \<longrightarrow>
            set (map fst (es_factors spec)) = {''model_profile'', ''skill_version''} \<and>
            (case map_of (es_factors spec) ''skill_version'' of None \<Rightarrow> False
             | Some axis \<Rightarrow> length axis = 3 \<and> count_list axis ''no-skill'' = 1 \<and>
                 list_all (\<lambda>ref. ref = ''no-skill'' \<or> fixed_skill_ref ref) axis)))"

text \<open>
  \<^verbatim>\<open>ExperimentSpec.model_validate\<close> on the fields of a specification.  A JSON object has every key once.
\<close>

definition spec_ok :: "experiment_spec \<Rightarrow> bool" where
  "spec_ok spec \<longleftrightarrow>
     es_experiment_id spec \<noteq> [] \<and> es_version spec \<noteq> [] \<and> es_created_by spec \<noteq> [] \<and> es_reason spec \<noteq> [] \<and>
     1 \<le> es_repeats spec \<and> at_least 1 (es_trials_per_run spec) \<and> 1 \<le> es_max_cells spec \<and>
     budget_policy_ok (es_budget_policy spec) \<and> stop_policy_ok (es_stop_policy spec) \<and> task_ref_ok (es_task_ref spec) \<and>
     distinct (map fst (es_factors spec)) \<and> factors_problem (es_factors spec) = None \<and> typed_suite_ok spec"

definition cell_count :: "experiment_spec \<Rightarrow> int" where
  "cell_count spec = foldl (\<lambda>product (_, values). product * int (length values)) 1 (es_factors spec) * es_repeats spec"

definition max_potential_calls :: "experiment_spec \<Rightarrow> int" where
  "max_potential_calls spec =
     (let per_run = (case es_trials_per_run spec of None \<Rightarrow> 1 | Some n \<Rightarrow> if n = 0 then 1 else n);
          n = length (es_selected_case_keys spec); cases = (if n = 0 then 1 else int n)
      in cell_count spec * per_run * cases)"

section \<open>The JSON form\<close>

definition int_val :: "int option \<Rightarrow> pyval" where
  "int_val x = (case x of None \<Rightarrow> PNone | Some n \<Rightarrow> PInt n)"

definition dump_budget :: "experiment_budget \<Rightarrow> pydict" where
  "dump_budget b = [(''max_total_calls'', PInt (bp_max_total_calls b)), (''max_total_tokens'', int_val (bp_max_total_tokens b)),
     (''max_cost_usd'', case bp_max_cost_usd b of None \<Rightarrow> PNone | Some x \<Rightarrow> PFloat x), (''cost_known_required'', PBool (bp_cost_known_required b))]"

definition dump_spec :: "experiment_spec \<Rightarrow> pydict" where
  "dump_spec spec =
     [(''experiment_id'', PStr (es_experiment_id spec)), (''version'', PStr (es_version spec)),
      (''task_ref'', PDict (map (\<lambda>(k, v). (k, PStr v)) (es_task_ref spec))),
      (''selected_case_keys'', PList (map PStr (es_selected_case_keys spec))),
      (''factors'', PDict (map (\<lambda>(k, vs). (k, PList (map PStr vs))) (es_factors spec))),
      (''controlled_conditions'', PDict (es_controlled_conditions spec))] @
     (case es_suite_config spec of None \<Rightarrow> [] | Some c \<Rightarrow> [(''suite_config'', PDict (sc_dump c))]) @
     [(''repeats'', PInt (es_repeats spec)), (''trials_per_run'', int_val (es_trials_per_run spec)),
      (''budget_policy'', PDict (dump_budget (es_budget_policy spec))),
      (''evaluation_ref'', PDict [(''scoring'', PStr (er_scoring (es_evaluation_ref spec))),
         (''scoring_pass_hint'', ref_val (er_scoring_pass_hint (es_evaluation_ref spec))),
         (''statistical_policy'', PStr (er_statistical_policy (es_evaluation_ref spec)))]),
      (''stop_policy'', PDict [(''on_first_failure'', PBool (sp_on_first_failure (es_stop_policy spec))),
         (''max_failures'', int_val (sp_max_failures (es_stop_policy spec))),
         (''wall_clock_seconds'', int_val (sp_wall_clock_seconds (es_stop_policy spec)))]),
      (''max_cells'', PInt (es_max_cells spec)), (''created_by'', PStr (es_created_by spec)),
      (''reason'', PStr (es_reason spec)), (''created_at'', ref_val (es_created_at spec))]"

section \<open>Cells\<close>

text \<open>What \<^verbatim>\<open>compute_cell_id\<close> hashes.\<close>

definition cell_identity :: "string \<Rightarrow> string \<Rightarrow> factor_assignment \<Rightarrow> int \<Rightarrow> pyval" where
  "cell_identity experiment_id version assignment repeat_index =
     PDict [(''experiment_id'', PStr experiment_id), (''experiment_version'', PStr version),
       (''factors'', PDict (canonical_payload assignment)), (''repeat_index'', PInt repeat_index)]"

definition compute_cell_id :: "(pyval \<Rightarrow> string) \<Rightarrow> string \<Rightarrow> string \<Rightarrow> factor_assignment \<Rightarrow> int \<Rightarrow> string" where
  "compute_cell_id canonical_hash experiment_id version assignment repeat_index =
     canonical_hash (cell_identity experiment_id version assignment repeat_index)"

definition factor_values :: "experiment_spec \<Rightarrow> string \<Rightarrow> string list" where
  "factor_values spec name = (case map_of (es_factors spec) name of None \<Rightarrow> [] | Some vs \<Rightarrow> vs)"

text \<open>\<^verbatim>\<open>zip(factor_names, combo, strict=True)\<close> as an assignment.\<close>

definition plain_factor :: "string \<Rightarrow> string \<Rightarrow> factor_value" where
  "plain_factor name value = \<lparr>fv_factor = name, fv_value = value, fv_resource_ref = None, fv_version_hash = None\<rparr>"

definition assignment_of :: "string list \<Rightarrow> string list \<Rightarrow> exn + factor_assignment" where
  "assignment_of names combo =
     (if length names \<noteq> length combo then Inl (ValueError ''zip() argument lengths differ'')
      else new_assignment (map2 plain_factor names combo))"

text \<open>\<^verbatim>\<open>range(n)\<close>\<close>

definition py_range :: "int \<Rightarrow> int list" where
  "py_range n = map int [0..<nat n]"

definition expand_matrix :: "experiment_spec \<Rightarrow> exn + (factor_assignment \<times> int) list" where
  "expand_matrix spec =
     (let factor_names = sort (map fst (es_factors spec));
          product = product_lists (map (factor_values spec) factor_names);
          combos = (if product = [] then [[]] else product)
      in res_bind (res_map (assignment_of factor_names) combos) (\<lambda>assignments. Inr (List.product assignments (py_range (es_repeats spec)))))"

text \<open>\<^verbatim>\<open>ExperimentService._cell_payload\<close>: a new cell in its JSON form.\<close>

definition dump_factor :: "factor_value \<Rightarrow> pyval" where
  "dump_factor v = PDict [(''factor'', PStr (fv_factor v)), (''value'', PStr (fv_value v)),
     (''resource_ref'', ref_val (fv_resource_ref v)), (''version_hash'', ref_val (fv_version_hash v))]"

definition cell_payload :: "(pyval \<Rightarrow> string) \<Rightarrow> experiment_spec \<Rightarrow> factor_assignment \<times> int \<Rightarrow> pydict" where
  "cell_payload canonical_hash spec c =
     [(''cell_id'', PStr (compute_cell_id canonical_hash (es_experiment_id spec) (es_version spec) (fst c) (snd c))),
      (''experiment_id'', PStr (es_experiment_id spec)), (''experiment_version'', PStr (es_version spec)),
      (''factor_assignment'', PDict [(''values'', PList (map dump_factor (fst c)))]), (''repeat_index'', PInt (snd c)),
      (''resolved_spec_hash'', PStr (canonical_hash (PDict (dump_spec spec)))), (''run_id'', PNone),
      (''allocation_status'', PStr ''pending''), (''superseding_run_ids'', PList []), (''failure_reason'', PNone),
      (''prepared_run'', PNone), (''preview_hash'', PNone), (''preflight_mode'', PNone)]"

definition deterministic_run_id :: "string \<Rightarrow> store_exn + string" where
  "deterministic_run_id cell_id =
     (if CHR '':'' \<notin> set cell_id then
        Inl (Coded ''ValueError'' [Txt ''cell_id must look like 'sha256:<hex>', got '', Rep (PStr cell_id)])
      else Inr (''run-exp-'' @ take 24 (tl (dropWhile (\<lambda>c. c \<noteq> CHR '':'') cell_id))))"

section \<open>Limits and suites\<close>

record violation =
  vi_code :: string
  vi_message :: fstr
  vi_facts :: "(string \<times> int) list"

definition unsupported_policies :: "experiment_spec \<Rightarrow> string list" where
  "unsupported_policies spec =
     (let budget = es_budget_policy spec; stop = es_stop_policy spec; evaluation = es_evaluation_ref spec in
      (if bp_max_total_tokens budget \<noteq> None then [''budget_policy.max_total_tokens''] else []) @
      (if bp_max_cost_usd budget \<noteq> None \<or> bp_cost_known_required budget then [''budget_policy.max_cost_usd/cost_known_required''] else []) @
      (if sp_on_first_failure stop \<or> sp_max_failures stop \<noteq> None then [''stop_policy.failure''] else []) @
      (if sp_wall_clock_seconds stop \<noteq> None then [''stop_policy.wall_clock_seconds''] else []) @
      (if es_trials_per_run spec \<noteq> None then [''trials_per_run''] else []) @
      (if er_scoring evaluation \<noteq> ''default'' \<or> er_scoring_pass_hint evaluation \<notin> {None, Some []} then [''evaluation_ref.scoring''] else []))"

definition violations :: "experiment_spec \<Rightarrow> int \<Rightarrow> violation list" where
  "violations spec max_calls =
     (let count = cell_count spec; calls = bp_max_total_calls (es_budget_policy spec); unsupported = unsupported_policies spec in
      (if count > es_max_cells spec then
         [\<lparr>vi_code = ''MATRIX_TOO_LARGE'',
           vi_message = [Txt ''cell_count '', Num count, Txt '' exceeds max_cells '', Num (es_max_cells spec)],
           vi_facts = [(''cell_count'', count), (''max_cells'', es_max_cells spec)]\<rparr>] else []) @
      (if calls < max_calls then
         [\<lparr>vi_code = ''BUDGET_EXCEEDED'',
           vi_message = [Txt ''max_potential_calls '', Num max_calls, Txt '' exceeds budget max_total_calls '', Num calls],
           vi_facts = [(''max_potential_calls'', max_calls), (''max_total_calls'', calls)]\<rparr>] else []) @
      (if unsupported \<noteq> [] then
         [\<lparr>vi_code = ''POLICY_UNSUPPORTED'', vi_message = [Txt (join_with '', '' unsupported @ '' has no enforced experiment consumer'')],
           vi_facts = []\<rparr>] else []))"

definition budget_view :: "experiment_budget \<Rightarrow> pydict" where
  "budget_view budget =
     [(''max_total_calls'', PInt (bp_max_total_calls budget)), (''max_total_tokens'', int_val (bp_max_total_tokens budget)),
      (''cost_known'', PStr ''unknown_until_run''), (''known_cost_usd'', PNone), (''unknown'', PBool True)] @
     (case bp_max_cost_usd budget of None \<Rightarrow> [] | Some x \<Rightarrow> [(''max_cost_usd'', PFloat x)])"

definition CONTROLLED_CONDITION_KEYS :: "string list" where
  "CONTROLLED_CONDITION_KEYS = [''max_output_tokens'', ''agent_mode'']"

definition condition_invalid :: "string \<Rightarrow> store_exn + 'a" where
  "condition_invalid m = Inl (Coded ''CONTROLLED_CONDITION_INVALID'' [Txt m])"

definition validate_controlled_conditions :: "experiment_spec \<Rightarrow> store_exn + unit" where
  "validate_controlled_conditions spec =
     (let conditions = es_controlled_conditions spec;
          unknown = sort (filter (\<lambda>k. k \<notin> set CONTROLLED_CONDITION_KEYS) (map fst (filter (\<lambda>(_, v). v \<noteq> PNone) conditions)));
          cap = dget conditions ''max_output_tokens''; mode = dget conditions ''agent_mode'' in
      if unknown \<noteq> [] then
        condition_invalid (''controlled_conditions keys not consumable by the run manifest: '' @ join_with '','' unknown @
          '' (known: '' @ join_with '','' (sort CONTROLLED_CONDITION_KEYS) @ '')'')
      else if cap \<noteq> PNone \<and> (case cap of PInt n \<Rightarrow> n \<le> 0 | _ \<Rightarrow> True) then
        condition_invalid ''max_output_tokens must be a positive integer''
      else if mode \<noteq> PNone \<and> mode \<notin> {PStr ''native-tool'', PStr ''legacy-json''} then
        condition_invalid ''agent_mode must be one of: native-tool, legacy-json''
      else if mode \<noteq> PNone \<and> map_of (es_task_ref spec) ''suite'' \<noteq> Some ''agent-tasks'' then
        condition_invalid ''agent_mode is only valid for agent-tasks''
      else Inr ())"

text \<open>The factors a suite can consume; \<^verbatim>\<open>SUPPORTED_SUITES\<close> are the suites of the table.\<close>

definition SUPPORTED_FACTORS :: "(string, string list) odict" where
  "SUPPORTED_FACTORS = [(''direct-llm'', [''model_profile'', ''reasoning_level'']), (''gsm8k'', [''model_profile'', ''reasoning_level'']),
     (''agent-tasks'', [''model_profile''])]"

definition require_factors :: "fstr \<Rightarrow> string list \<Rightarrow> experiment_spec \<Rightarrow> store_exn + unit" where
  "require_factors lead supported spec =
     (let unconsumed = sort (filter (\<lambda>f. f \<notin> set supported) (map fst (es_factors spec))) in
      if unconsumed \<noteq> [] then Inl (Coded ''FACTOR_UNSUPPORTED'' (lead @ [Txt (join_with '','' unconsumed)]))
      else if ''model_profile'' \<notin> set (map fst (es_factors spec)) then
        Inl (Coded ''FACTOR_REQUIRED'' [Txt ''model_profile is required for this suite''])
      else Inr ())"

definition validate_supported_suite :: "experiment_spec \<Rightarrow> store_exn + unit" where
  "validate_supported_suite spec =
     (case es_suite_config spec of
        Some config \<Rightarrow>
          require_factors [Txt ''suite cannot consume: '']
            (if sc_kind config = SkillSuite then [''model_profile'', ''skill_version''] else [''model_profile'']) spec
      | None \<Rightarrow>
          (let suite = (case map_of (es_task_ref spec) ''suite'' of None \<Rightarrow> [] | Some x \<Rightarrow> x) in
           case map_of SUPPORTED_FACTORS suite of
             None \<Rightarrow> Inl (Coded ''SUITE_UNSUPPORTED'' [Txt ''task_ref.suite '', Rep (PStr suite),
               Txt ('' cannot be assembled into a run manifest (supported: '' @ join_with '','' (sort (map fst SUPPORTED_FACTORS)) @ '')'')])
           | Some supported \<Rightarrow>
               if map_of (es_task_ref spec) ''scenario_version'' \<in> {None, Some []} then
                 Inl (Coded ''EXPERIMENT_INVALID'' [Txt ''task_ref requires a nonempty scenario_version''])
               else res_bind (require_factors [Txt ''suite '', Rep (PStr suite), Txt '' cannot consume factors: ''] supported spec)
                 (\<lambda>_. validate_controlled_conditions spec)))"

section \<open>The expansion is exact\<close>

lemma sort_eq_Nil: "sort xs = [] \<longleftrightarrow> xs = []"
  by (metis length_0_conv length_sort)

lemma list_all2_self: "list_all2 P (map g xs) xs \<longleftrightarrow> (\<forall>x\<in>set xs. P (g x) x)"
  by (simp add: list_all2_map1 list_all2_same)

lemma list_all2_right:
  "length xs = length ys \<Longrightarrow> (\<forall>x\<in>set xs. P x) \<Longrightarrow> list_all2 (\<lambda>x y. P x \<and> Q y) xs ys \<longleftrightarrow> (\<forall>y\<in>set ys. Q y)"
  by (induction xs ys rule: list_induct2) auto

lemma factors_problem_None:
  "factors_problem value = None \<longleftrightarrow> (\<forall>(f, values)\<in>set value. f \<in> set EXPERIMENT_FACTORS \<and> values \<noteq> [] \<and> distinct values)"
proof -
  have "sort (filter (\<lambda>f. f \<notin> set EXPERIMENT_FACTORS) (map fst value)) = [] \<longleftrightarrow> (\<forall>(f, _)\<in>set value. f \<in> set EXPERIMENT_FACTORS)"
    by (auto simp: sort_eq_Nil filter_empty_conv)
  moreover have "find (\<lambda>(_, values). values = [] \<or> \<not> distinct values) value = None \<longleftrightarrow> (\<forall>(_, values)\<in>set value. values \<noteq> [] \<and> distinct values)"
    by (auto simp: find_None_iff)
  ultimately show ?thesis
    unfolding factors_problem_def Let_def by (cases "find (\<lambda>(_, values). values = [] \<or> \<not> distinct values) value") auto
qed

lemma factor_values_mem: "distinct (map fst (es_factors spec)) \<Longrightarrow> (f, vs) \<in> set (es_factors spec) \<Longrightarrow> factor_values spec f = vs"
  by (simp add: factor_values_def)

lemma spec_factors:
  assumes "spec_ok spec" "f \<in> fst ` set (es_factors spec)"
  shows "f \<in> set EXPERIMENT_FACTORS" "factor_values spec f \<noteq> []" "distinct (factor_values spec f)"
proof -
  obtain vs where vs: "(f, vs) \<in> set (es_factors spec)" using assms(2) by auto
  then have "factor_values spec f = vs" using assms(1) by (simp add: spec_ok_def factor_values_mem)
  then show "f \<in> set EXPERIMENT_FACTORS" "factor_values spec f \<noteq> []" "distinct (factor_values spec f)"
    using vs assms(1) unfolding spec_ok_def factors_problem_None by auto
qed

abbreviation factor_names :: "experiment_spec \<Rightarrow> string list" where
  "factor_names spec \<equiv> sort (map fst (es_factors spec))"

definition combinations :: "experiment_spec \<Rightarrow> string list list" where
  "combinations spec = product_lists (map (factor_values spec) (factor_names spec))"

lemma combinations_iff:
  "combo \<in> set (combinations spec) \<longleftrightarrow> list_all2 (\<lambda>v f. v \<in> set (factor_values spec f)) combo (factor_names spec)"
  by (simp add: combinations_def product_lists_set list_all2_map2)

lemma combinations_nonempty: "spec_ok spec \<Longrightarrow> combinations spec \<noteq> []"
proof -
  assume "spec_ok spec"
  then have "list_all2 (\<lambda>v f. v \<in> set (factor_values spec f)) (map (\<lambda>f. hd (factor_values spec f)) (factor_names spec)) (factor_names spec)"
    using spec_factors(2) by (simp add: list_all2_self)
  then show ?thesis unfolding combinations_iff [symmetric] by auto
qed

lemma factors_map2 [simp]: "length names = length combo \<Longrightarrow> map fv_factor (map2 plain_factor names combo) = names"
  by (induction names combo rule: list_induct2) (simp_all add: plain_factor_def)

lemma values_map2 [simp]: "length names = length combo \<Longrightarrow> map fv_value (map2 plain_factor names combo) = combo"
  by (induction names combo rule: list_induct2) (simp_all add: plain_factor_def)

lemma list_all2_pairs: "length xs = length ys \<Longrightarrow> list_all P (map2 f xs ys) \<longleftrightarrow> list_all2 (\<lambda>x y. P (f x y)) xs ys"
  by (induction xs ys rule: list_induct2) simp_all

lemma assignment_of_combination:
  assumes "spec_ok spec" "combo \<in> set (combinations spec)"
  shows "assignment_of (factor_names spec) combo =
    (if [] \<in> set combo then Inl (ValueError ''FactorValue'') else Inr (map2 plain_factor (factor_names spec) combo))"
proof -
  let ?a = "map2 plain_factor (factor_names spec) combo"
  have len: "length (factor_names spec) = length combo" using assms(2) by (simp add: combinations_iff list_all2_lengthD)
  have "list_all factor_value_ok ?a \<longleftrightarrow> list_all2 (\<lambda>f v. f \<in> set EXPERIMENT_FACTORS \<and> v \<noteq> []) (factor_names spec) combo"
    by (simp add: list_all2_pairs [OF len] factor_value_ok_def plain_factor_def)
  also have "\<dots> \<longleftrightarrow> [] \<notin> set combo"
  proof -
    have "\<forall>f\<in>set (factor_names spec). f \<in> set EXPERIMENT_FACTORS" using spec_factors(1) [OF assms(1)] by auto
    then show ?thesis using list_all2_right [OF len, of "\<lambda>f. f \<in> set EXPERIMENT_FACTORS" "\<lambda>v. v \<noteq> []"] by auto
  qed
  finally have ok: "list_all factor_value_ok ?a \<longleftrightarrow> [] \<notin> set combo" .
  have "distinct (factor_names spec)" using assms(1) by (simp add: spec_ok_def)
  then have "assignment_problem ?a = None" unfolding assignment_problem_def factors_map2 [OF len] Let_def by simp
  with ok len show ?thesis by (simp add: assignment_of_def new_assignment_def)
qed

lemma expand_matrix_eq:
  "spec_ok spec \<Longrightarrow> expand_matrix spec = res_bind (res_map (assignment_of (factor_names spec)) (combinations spec))
     (\<lambda>assignments. Inr (List.product assignments (py_range (es_repeats spec))))"
  using combinations_nonempty [of spec] by (simp add: expand_matrix_def Let_def combinations_def)

text \<open>The cells a specification declares: canonical assignments of declared values, and the repeats.\<close>

definition declared_cell :: "experiment_spec \<Rightarrow> factor_assignment \<times> int \<Rightarrow> bool" where
  "declared_cell spec c \<longleftrightarrow>
     map fv_factor (fst c) = factor_names spec \<and> 0 \<le> snd c \<and> snd c < es_repeats spec \<and>
     (\<forall>v\<in>set (fst c). fv_value v \<in> set (factor_values spec (fv_factor v)) \<and> fv_resource_ref v = None \<and> fv_version_hash v = None)"

text \<open>No declared value is blank: the specification accepts blank values, an assignment does not.\<close>

definition no_blank_values :: "experiment_spec \<Rightarrow> bool" where
  "no_blank_values spec \<longleftrightarrow> list_all (\<lambda>(_, values). [] \<notin> set values) (es_factors spec)"

lemma res_map_total: "(\<And>x. x \<in> set xs \<Longrightarrow> f x = Inr (g x)) \<Longrightarrow> res_map f xs = Inr (map g xs)"
  by (induction xs) (simp_all add: res_bind_def)

lemma blank_combination:
  assumes "spec_ok spec" "\<not> no_blank_values spec"
  shows "\<exists>combo\<in>set (combinations spec). [] \<in> set combo"
proof -
  obtain f vs where f: "(f, vs) \<in> set (es_factors spec)" "[] \<in> set vs" using assms(2) by (auto simp: no_blank_values_def list_all_iff)
  then have fv: "factor_values spec f = vs" using assms(1) by (simp add: spec_ok_def factor_values_mem)
  let ?c = "map (\<lambda>g. if g = f then [] else hd (factor_values spec g)) (factor_names spec)"
  have "list_all2 (\<lambda>v g. v \<in> set (factor_values spec g)) ?c (factor_names spec)"
    using f(2) fv spec_factors(2) [OF assms(1)] by (simp add: list_all2_self)
  moreover have "[] \<in> set ?c" using f(1) by force
  ultimately show ?thesis unfolding combinations_iff [symmetric] by blast
qed

lemma combination_values: "list_all2 (\<lambda>v f. v \<in> set (factor_values spec f)) combo names \<Longrightarrow> v \<in> set combo \<Longrightarrow> \<exists>f\<in>set names. v \<in> set (factor_values spec f)"
  by (induction rule: list_all2_induct) auto

lemma blank_free_combination:
  assumes "spec_ok spec" "no_blank_values spec" "combo \<in> set (combinations spec)"
  shows "[] \<notin> set combo"
proof
  assume "[] \<in> set combo"
  then obtain f where f: "f \<in> fst ` set (es_factors spec)" "[] \<in> set (factor_values spec f)"
    using combination_values [OF assms(3) [unfolded combinations_iff]] by force
  then obtain vs where "(f, vs) \<in> set (es_factors spec)" "[] \<in> set vs" using assms(1) by (auto simp: spec_ok_def factor_values_mem)
  then show False using assms(2) by (auto simp: no_blank_values_def list_all_iff)
qed

lemma expand_blank: assumes "spec_ok spec" "\<not> no_blank_values spec" shows "\<exists>e. expand_matrix spec = Inl e"
proof -
  obtain combo where c: "combo \<in> set (combinations spec)" "[] \<in> set combo" using blank_combination [OF assms] by auto
  have "res_map (assignment_of (factor_names spec)) (combinations spec) \<noteq> Inr ys" for ys
  proof
    assume "res_map (assignment_of (factor_names spec)) (combinations spec) = Inr ys"
    then obtain y where "assignment_of (factor_names spec) combo = Inr y"
      using c(1) by (auto simp: res_map_Inr list_all2_conv_all_nth in_set_conv_nth)
    then show False using assignment_of_combination [OF assms(1) c(1)] c(2) by simp
  qed
  then show ?thesis unfolding expand_matrix_eq [OF assms(1)] by (cases "res_map (assignment_of (factor_names spec)) (combinations spec)") auto
qed

lemma expand_Inr:
  assumes "spec_ok spec" "no_blank_values spec"
  shows "expand_matrix spec = Inr (List.product (map (map2 plain_factor (factor_names spec)) (combinations spec)) (py_range (es_repeats spec)))"
proof -
  have "assignment_of (factor_names spec) combo = Inr (map2 plain_factor (factor_names spec) combo)" if "combo \<in> set (combinations spec)" for combo
    using assignment_of_combination [OF assms(1) that] blank_free_combination [OF assms that] by simp
  then have "res_map (assignment_of (factor_names spec)) (combinations spec) = Inr (map (map2 plain_factor (factor_names spec)) (combinations spec))"
    by (rule res_map_total)
  then show ?thesis by (simp add: expand_matrix_eq [OF assms(1)])
qed

text \<open>The size of the matrix\<close>

lemma foldl_product: "foldl (\<lambda>p (_, vs). p * int (length vs)) n fs = n * prod_list (map (\<lambda>(_, vs). int (length vs)) fs)"
  by (induction fs arbitrary: n) auto

lemma length_combinations:
  assumes "distinct (map fst (es_factors spec))"
  shows "int (length (combinations spec)) = prod_list (map (\<lambda>(_, vs). int (length vs)) (es_factors spec))"
proof -
  have "int (length (combinations spec)) = prod_list (map (\<lambda>f. int (length (factor_values spec f))) (factor_names spec))"
  proof -
    have "int (length (product_lists xss)) = prod_list (map (int \<circ> length) xss)" for xss :: "string list list"
      by (induction xss) (simp_all add: length_concat comp_def sum_list_triv)
    then show ?thesis by (simp add: combinations_def comp_def)
  qed
  also have "\<dots> = prod (\<lambda>f. int (length (factor_values spec f))) (set (factor_names spec))"
    using assms by (intro prod.distinct_set_conv_list [symmetric]) simp
  also have "\<dots> = prod_list (map (\<lambda>f. int (length (factor_values spec f))) (map fst (es_factors spec)))"
    using prod.distinct_set_conv_list [OF assms, of "\<lambda>f. int (length (factor_values spec f))"] by simp
  also have "\<dots> = prod_list (map (\<lambda>(_, vs). int (length vs)) (es_factors spec))"
    unfolding map_map by (intro arg_cong [where f = prod_list] map_cong refl) (auto simp: factor_values_mem [OF assms])
  finally show ?thesis .
qed

lemma cell_count_length:
  assumes "spec_ok spec" "expand_matrix spec = Inr m"
  shows "cell_count spec = int (length m)"
proof -
  have "no_blank_values spec" using expand_blank [OF assms(1)] assms(2) by auto
  then have "m = List.product (map (map2 plain_factor (factor_names spec)) (combinations spec)) (py_range (es_repeats spec))"
    using expand_Inr [OF assms(1)] assms(2) by simp
  then show ?thesis
    using assms(1) by (simp add: cell_count_def foldl_product py_range_def length_combinations spec_ok_def)
qed

text \<open>The cells of the matrix\<close>

lemma plain_assignment:
  "(\<exists>combo. list_all2 (\<lambda>v f. v \<in> V f) combo names \<and> a = map2 plain_factor names combo) \<longleftrightarrow>
   map fv_factor a = names \<and> (\<forall>v\<in>set a. fv_value v \<in> V (fv_factor v) \<and> fv_resource_ref v = None \<and> fv_version_hash v = None)"
proof (induction names arbitrary: a)
  case (Cons f names)
  have "(\<exists>combo. list_all2 (\<lambda>v f. v \<in> V f) combo (f # names) \<and> a = map2 plain_factor (f # names) combo) \<longleftrightarrow>
      (\<exists>v b. a = plain_factor f v # b \<and> v \<in> V f \<and> (\<exists>combo. list_all2 (\<lambda>v f. v \<in> V f) combo names \<and> b = map2 plain_factor names combo))"
    by (fastforce simp: list_all2_Cons2)
  also have "\<dots> \<longleftrightarrow> (\<exists>v b. a = v # b \<and> fv_factor v = f \<and> fv_value v \<in> V f \<and> fv_resource_ref v = None \<and> fv_version_hash v = None \<and>
      map fv_factor b = names \<and> (\<forall>v\<in>set b. fv_value v \<in> V (fv_factor v) \<and> fv_resource_ref v = None \<and> fv_version_hash v = None))"
    unfolding Cons.IH by (auto simp: plain_factor_def) (metis factor_value.surjective old.unit.exhaust)
  finally show ?case by (cases a) auto
qed auto

lemma set_matrix:
  assumes "spec_ok spec" "expand_matrix spec = Inr m"
  shows "c \<in> set m \<longleftrightarrow> declared_cell spec c"
proof -
  have "no_blank_values spec" using expand_blank [OF assms(1)] assms(2) by auto
  then have m: "m = List.product (map (map2 plain_factor (factor_names spec)) (combinations spec)) (py_range (es_repeats spec))"
    using expand_Inr [OF assms(1)] assms(2) by simp
  have "snd c \<in> set (py_range (es_repeats spec)) \<longleftrightarrow> 0 \<le> snd c \<and> snd c < es_repeats spec"
    by (auto simp: py_range_def image_iff intro!: bexI [of _ "nat (snd c)"])
  moreover have "fst c \<in> set (map (map2 plain_factor (factor_names spec)) (combinations spec)) \<longleftrightarrow>
      map fv_factor (fst c) = factor_names spec \<and>
      (\<forall>v\<in>set (fst c). fv_value v \<in> set (factor_values spec (fv_factor v)) \<and> fv_resource_ref v = None \<and> fv_version_hash v = None)"
    unfolding plain_assignment [of "\<lambda>f. set (factor_values spec f)", symmetric] by (auto simp: combinations_iff)
  ultimately show ?thesis unfolding m declared_cell_def set_product mem_Times_iff by blast
qed

lemma distinct_matrix:
  assumes "spec_ok spec" "expand_matrix spec = Inr m"
  shows "distinct m"
proof -
  have "no_blank_values spec" using expand_blank [OF assms(1)] assms(2) by auto
  then have m: "m = List.product (map (map2 plain_factor (factor_names spec)) (combinations spec)) (py_range (es_repeats spec))"
    using expand_Inr [OF assms(1)] assms(2) by simp
  have "inj_on (map2 plain_factor (factor_names spec)) (set (combinations spec))"
  proof (rule inj_on_inverseI [where g = "map fv_value"])
    fix combo assume "combo \<in> set (combinations spec)"
    then have "length (factor_names spec) = length combo" by (simp add: combinations_iff list_all2_lengthD)
    then show "map fv_value (map2 plain_factor (factor_names spec) combo) = combo" by (rule values_map2)
  qed
  moreover have "distinct (combinations spec)"
    unfolding combinations_def using spec_factors(3) [OF assms(1)] by (intro distinct_product_lists) auto
  ultimately show ?thesis unfolding m by (intro distinct_product) (simp_all add: distinct_map py_range_def)
qed

section \<open>The identity of a cell\<close>

lemma od_merge_distinct: "distinct (map fst (a @ b)) \<Longrightarrow> od_merge a b = a @ b"
  by (induction b arbitrary: a) (auto simp: od_set_fresh)

lemma canonical_payload_inj:
  assumes "distinct (map fv_factor a)" "distinct (map fv_factor b)" "canonical_payload a = canonical_payload b"
  shows "a = b"
proof -
  define g where "g = (\<lambda>v :: factor_value. (fv_factor v, PDict [(''value'', PStr (fv_value v)),
     (''resource_ref'', ref_val (fv_resource_ref v)), (''version_hash'', ref_val (fv_version_hash v))]))"
  have payload: "canonical_payload x = map g x" if "distinct (map fv_factor x)" for x
    unfolding canonical_payload_def g_def using that by (subst od_merge_distinct) (auto simp: comp_def)
  have "inj g"
    by (rule injI) (auto simp: g_def ref_val_def split: option.splits intro: factor_value.equality)
  then show ?thesis using assms(3) payload [OF assms(1)] payload [OF assms(2)] by (metis inj_map_eq_map)
qed

lemma cell_identity_inj:
  assumes "spec_ok spec" "declared_cell spec c" "declared_cell spec d"
    "cell_identity e v (fst c) (snd c) = cell_identity e v (fst d) (snd d)"
  shows "c = d"
proof -
  have "distinct (map fv_factor (fst c))" "distinct (map fv_factor (fst d))"
    using assms(1-3) by (simp_all add: declared_cell_def spec_ok_def)
  then show ?thesis using canonical_payload_inj [of "fst c" "fst d"] assms(4) by (auto simp: cell_identity_def prod_eq_iff)
qed

text \<open>What \<open>compute_cell_id\<close> hashes for the cells of a specification.\<close>

definition identities :: "experiment_spec \<Rightarrow> pyval set" where
  "identities spec = {cell_identity (es_experiment_id spec) (es_version spec) (fst c) (snd c) | c. declared_cell spec c}"

lemma distinct_cell_ids:
  assumes "spec_ok spec" "expand_matrix spec = Inr m" "inj_on canonical_hash (identities spec)"
  shows "distinct (map cell_id_of (map (cell_payload canonical_hash spec) m))"
proof -
  let ?i = "\<lambda>c. cell_identity (es_experiment_id spec) (es_version spec) (fst c) (snd c)"
  have id: "cell_id_of (cell_payload canonical_hash spec c) = canonical_hash (?i c)" for c
    by (simp add: cell_id_of_def dstr_def dget_def cell_payload_def compute_cell_id_def)
  have "inj_on ?i (set m)" using cell_identity_inj [OF assms(1)] set_matrix [OF assms(1,2)] by (blast intro: inj_onI)
  moreover have "?i ` set m \<subseteq> identities spec" using set_matrix [OF assms(1,2)] unfolding identities_def by blast
  ultimately have "inj_on (canonical_hash \<circ> ?i) (set m)" using assms(3) by (intro comp_inj_on) (auto intro: inj_on_subset)
  then show ?thesis using distinct_matrix [OF assms(1,2)] by (simp add: distinct_map comp_def id)
qed

lemma publication_accepted:
  assumes "spec_ok spec" "expand_matrix spec = Inr m" "inj_on canonical_hash (identities spec)" "\<And>v. canonical_hash v \<noteq> []"
  shows "validate_publication (dump_spec spec) (map (cell_payload canonical_hash spec) m) =
    Inr (dump_spec spec, map (cell_payload canonical_hash spec) m)"
proof -
  have cell: "validate_cell (cell_payload canonical_hash spec c) = Inr (cell_payload canonical_hash spec c)" for c
    using assms(1,4) by (simp add: validate_cell_def dsetdefault_def cell_payload_def CELL_FIELDS_def dget_def is_int_def is_dict_def spec_ok_def compute_cell_id_def)
  have "res_map validate_cell (map (cell_payload canonical_hash spec) m) = Inr (map (cell_payload canonical_hash spec) m)"
    by (induction m) (simp_all add: cell)
  moreover have "validate_spec (dump_spec spec) = Inr (dump_spec spec)"
    using assms(1) by (simp add: validate_spec_def dump_spec_def dget_def spec_ok_def)
  moreover have "cell_key (cell_payload canonical_hash spec c) = spec_key (dump_spec spec)" for c
    by (simp add: cell_key_def spec_key_def dstr_def dget_def cell_payload_def dump_spec_def)
  ultimately show ?thesis
    using distinct_cell_ids [OF assms(1-3)] by (simp add: validate_publication_def list_ex_iff)
qed

end
