(* ===== verification/Experiment_Service.thy ===== *)
theory Experiment_Service
  imports Experiment_Matrix Decimal
begin

text \<open>
  The experiment service, \<^verbatim>\<open>packages/sdk-python/motte_sdk/experiments.py\<close> (\<^verbatim>\<open>ExperimentService\<close>), over an experiment store
  and a run store: preview, creation, allocation of the cells to runs, cancellation and retry.  The service
  holds one lock per experiment, so that its calls do not overlap; a call may crash between two effects
  on the stores.  What the service takes from code modelled elsewhere or not at all is the record \<open>service\<close>.
\<close>

section \<open>Stores, crashes and the surrounding code\<close>

text \<open>The methods of \<^verbatim>\<open>self.store.experiments\<close> and \<^verbatim>\<open>self.store.runs\<close> that the service calls.\<close>

record ('x, 'r) stores =
  so_experiments :: "experiment_call \<Rightarrow> ('x, store_exn, experiment_out) sop"
  so_get_spec :: "string \<Rightarrow> string \<Rightarrow> 'x \<Rightarrow> pydict option"
  so_list_specs :: "string \<Rightarrow> 'x \<Rightarrow> pydict list"
  so_get_cell :: "string \<Rightarrow> 'x \<Rightarrow> pydict option"
  so_list_cells :: "string \<Rightarrow> string \<Rightarrow> 'x \<Rightarrow> pydict list"
  so_runs :: "repo_op \<Rightarrow> ('r, exn, repo_out) sop"
  so_get_run :: "string \<Rightarrow> 'r \<Rightarrow> pydict option"

text \<open>
  The stores, the request registry of the platform (\<^verbatim>\<open>request_key\<close> to content hash and reference), and after how many
  effects the process dies.
\<close>

record ('x, 'r) world =
  w_experiments :: 'x
  w_runs :: 'r
  w_requests :: "(string, string \<times> string) odict"
  w_crash :: "nat option"

datatype svc_exn = Raised store_exn | Crashed

type_synonym ('x, 'r, 'a) svc = "(('x, 'r) world, svc_exn, 'a) sop"

definition effect :: "(('x, 'r) world, store_exn, 'a) sop \<Rightarrow> ('x, 'r, 'a) svc" where
  "effect m w = (if w_crash w = Some 0 then (Inl Crashed, w)
     else (case m (w\<lparr>w_crash := map_option (\<lambda>n. n - 1) (w_crash w)\<rparr>) of (r, w') \<Rightarrow> (map_sum Raised id r, w')))"

definition x_call :: "('x, 'r) stores \<Rightarrow> experiment_call \<Rightarrow> ('x, 'r, experiment_out) svc" where
  "x_call S op = effect (\<lambda>w. case so_experiments S op (w_experiments w) of (r, x) \<Rightarrow> (r, w\<lparr>w_experiments := x\<rparr>))"

definition r_call :: "('x, 'r) stores \<Rightarrow> repo_op \<Rightarrow> ('x, 'r, repo_out) svc" where
  "r_call S op = effect (\<lambda>w. case so_runs S op (w_runs w) of (r, x) \<Rightarrow> (map_sum Plain id r, w\<lparr>w_runs := x\<rparr>))"

definition svc_lift :: "store_exn + 'a \<Rightarrow> ('x, 'r, 'a) svc" where
  "svc_lift r = st_lift (map_sum Raised id r)"

definition svc_error :: "string \<Rightarrow> fstr \<Rightarrow> ('x, 'r, 'a) svc" where
  "svc_error code message = st_raise (Raised (Coded code message))"

text \<open>\<^verbatim>\<open>try: m except ... : h\<close>; a crash is no exception.\<close>

definition svc_try :: "('x, 'r, 'a) svc \<Rightarrow> (store_exn \<Rightarrow> ('x, 'r, 'a) svc) \<Rightarrow> ('x, 'r, 'a) svc" where
  "svc_try m h = st_catch m (\<lambda>e. case e of Crashed \<Rightarrow> st_raise Crashed | Raised e \<Rightarrow> h e)"

text \<open>\<^verbatim>\<open>isinstance(e, ValueError)\<close>: a coded exception is an \<^verbatim>\<open>ExperimentError\<close> or a \<^verbatim>\<open>ValueError\<close> of the store.\<close>

definition is_value_error :: "store_exn \<Rightarrow> bool" where
  "is_value_error e = (case e of Plain (ValueError _) \<Rightarrow> True | Plain _ \<Rightarrow> False | Coded c _ \<Rightarrow> c \<noteq> ''_NoTransition'')"

definition is_run_conflict :: "store_exn \<Rightarrow> bool" where
  "is_run_conflict e = (case e of Plain (RunConflictError _) \<Rightarrow> True | _ \<Rightarrow> False)"

text \<open>The prepared input of a run.\<close>

record prepared =
  pp_manifest :: pyval
  pp_case_ids :: "pyval list"
  pp_requested :: pyval

record assembled = prepared +
  as_frozen :: pydict
  as_max_calls :: int

text \<open>
  \<^item> \<open>sv_parse\<close>: \<^verbatim>\<open>ExperimentSpec.model_validate\<close>; \<open>sv_hash\<close>: \<^verbatim>\<open>canonical_hash\<close>; \<open>sv_str\<close>: \<^verbatim>\<open>str(error)\<close>; \<open>sv_now\<close>: the clock.
  \<^item> \<open>sv_ready\<close>, \<open>sv_assemble\<close>, \<open>sv_frozen_cell\<close>, \<open>sv_boundary\<close>, \<open>sv_resolve\<close>: \<^verbatim>\<open>experiment_assemblers.py\<close> and \<^verbatim>\<open>resolve.py\<close>, on the
    resources as they are at the time of the call.  \<open>as_frozen\<close> is what a typed suite adds to the prepared run.
  \<^item> \<open>sv_replay\<close>, \<open>sv_check_run\<close>, \<open>sv_after_run\<close>, \<open>sv_refreeze\<close>, \<open>sv_cancel\<close>: the parts of \<^verbatim>\<open>RunService\<close> around the run store: the
    fixtures of a replay, the checks of a frozen benchmark, the trial plans, and the cancellation of a run as
    the operations of the run store that it performs.
\<close>

record 'r service =
  sv_parse :: "pydict \<Rightarrow> store_exn + experiment_spec"
  sv_hash :: "pyval \<Rightarrow> string"
  sv_str :: "store_exn \<Rightarrow> string"
  sv_now :: string
  sv_ready :: "experiment_spec \<Rightarrow> store_exn + unit"
  sv_assemble :: "experiment_spec \<Rightarrow> factor_assignment list \<Rightarrow> factor_assignment \<Rightarrow> store_exn + assembled"
  sv_frozen_cell :: "experiment_spec \<Rightarrow> pydict \<Rightarrow> store_exn + unit"
  sv_boundary :: "experiment_spec \<Rightarrow> pyval \<Rightarrow> store_exn + unit"
  sv_resolve :: "experiment_spec \<Rightarrow> pydict \<Rightarrow> store_exn + prepared"
  sv_replay :: "pydict \<Rightarrow> pyval list \<Rightarrow> store_exn + pyval list"
  sv_check_run :: "pydict \<Rightarrow> store_exn + unit"
  sv_after_run :: "pydict \<Rightarrow> store_exn + unit"
  sv_refreeze :: "pyval \<Rightarrow> string \<Rightarrow> store_exn + pyval"
  sv_cancel :: "string \<Rightarrow> string \<Rightarrow> 'r \<Rightarrow> repo_op list \<times> (store_exn + unit)"

section \<open>Preview\<close>

record compiled_experiment =
  co_preview_hash :: string
  co_cells :: "(string \<times> (string, string) odict \<times> int) list"
  co_prepared :: "(string, pydict) odict"
  co_max_calls :: int
  co_case_count :: "nat option"
  co_budget :: pydict
  co_violations :: "violation list"

definition prepared_dict :: "experiment_spec \<Rightarrow> assembled \<Rightarrow> pydict" where
  "prepared_dict spec a = [(''manifest'', pp_manifest a), (''case_ids'', PList (pp_case_ids a)), (''requested_manifest'', pp_requested a)] @
     (if es_suite_config spec = None then [] else as_frozen a)"

definition preview_hash :: "(pyval \<Rightarrow> string) \<Rightarrow> experiment_spec \<Rightarrow> (string, pyval) odict \<Rightarrow> string" where
  "preview_hash canonical_hash spec runs = canonical_hash (PDict [(''spec'', PDict (dump_spec spec)), (''prepared_runs'', PDict runs)])"

definition compile_experiment :: "'r service \<Rightarrow> experiment_spec \<Rightarrow> store_exn + compiled_experiment" where
  "compile_experiment P spec =
     res_bind (validate_supported_suite spec) (\<lambda>_.
     res_bind (sv_ready P spec) (\<lambda>_.
     res_bind (plain (expand_matrix spec)) (\<lambda>expanded.
       (let id = (\<lambda>(a, r). compute_cell_id (sv_hash P) (es_experiment_id spec) (es_version spec) a r);
            cells = map (\<lambda>c. (id c, as_dict (fst c), snd c)) expanded
        in res_bind (res_map (\<lambda>c. sv_assemble P spec (map fst expanded) (fst c)) expanded) (\<lambda>runs.
          (let prepared = od_merge [] (zip (map id expanded) (map (prepared_dict spec) runs));
               counts = remdups (map (\<lambda>a. length (pp_case_ids a)) runs);
               calls = sum_list (map as_max_calls runs)
           in Inr \<lparr>co_preview_hash = preview_hash (sv_hash P) spec (map (\<lambda>(k, d). (k, PDict d)) prepared),
                co_cells = cells, co_prepared = prepared, co_max_calls = calls,
                co_case_count = (case counts of [n] \<Rightarrow> Some n | _ \<Rightarrow> None),
                co_budget = budget_view (es_budget_policy spec),
                co_violations = violations spec calls\<rparr>))))))"

definition preview :: "'r service \<Rightarrow> pydict \<Rightarrow> store_exn + compiled_experiment" where
  "preview P payload = res_bind (sv_parse P payload) (compile_experiment P)"

definition reject_violations :: "violation list \<Rightarrow> store_exn + unit" where
  "reject_violations vs = (if vs = [] then Inr ()
     else Inl (Coded ''EXPERIMENT_INVALID'' (butlast (concat (map (\<lambda>v. Txt (vi_code v @ '': '') # vi_message v @ [Txt ''; '']) vs)))))"

section \<open>Views\<close>

text \<open>\<^verbatim>\<open>FactorAssignment.model_validate\<close> on the JSON form of an assignment.\<close>

definition parse_ref :: "pydict \<Rightarrow> string \<Rightarrow> string option option" where
  "parse_ref d k = (case dget d k of PNone \<Rightarrow> Some None | PStr s \<Rightarrow> Some (Some s) | _ \<Rightarrow> None)"

definition parse_factor :: "pyval \<Rightarrow> factor_value option" where
  "parse_factor v = (case v of
       PDict d \<Rightarrow>
         if \<not> list_all (\<lambda>(k, _). k \<in> {''factor'', ''value'', ''resource_ref'', ''version_hash''}) d then None
         else (case (dget d ''factor'', dget d ''value'', parse_ref d ''resource_ref'', parse_ref d ''version_hash'') of
             (PStr f, PStr x, Some r, Some h) \<Rightarrow> Some \<lparr>fv_factor = f, fv_value = x, fv_resource_ref = r, fv_version_hash = h\<rparr>
           | _ \<Rightarrow> None)
     | _ \<Rightarrow> None)"

definition parse_assignment :: "pydict \<Rightarrow> exn + factor_assignment" where
  "parse_assignment d =
     (if \<not> list_all (\<lambda>(k, _). k = ''values'') d then Inl (ValueError ''FactorAssignment'')
      else case dget_default d ''values'' (PList []) of
          PList vs \<Rightarrow> res_bind (res_map (\<lambda>v. case parse_factor v of None \<Rightarrow> Inl (ValueError ''FactorValue'') | Some x \<Rightarrow> Inr x) vs) new_assignment
        | _ \<Rightarrow> Inl (ValueError ''FactorAssignment''))"

definition cell_view :: "pydict \<Rightarrow> pydict" where
  "cell_view cell =
     (let assignment = factors_of cell;
          factors = (case parse_assignment assignment of Inr a \<Rightarrow> map (\<lambda>(k, v). (k, PStr v)) (as_dict a) | Inl _ \<Rightarrow> assignment)
      in [(''cell_id'', dget cell ''cell_id''), (''experiment_id'', dget cell ''experiment_id''),
          (''experiment_version'', dget cell ''experiment_version''), (''repeat_index'', dget_default cell ''repeat_index'' (PInt 0)),
          (''factor_assignment'', PDict factors), (''allocation_status'', dget_default cell ''allocation_status'' (PStr ''pending'')),
          (''run_id'', dget cell ''run_id''),
          (''superseding_run_ids'', case list_or_empty (dget cell ''superseding_run_ids'') of Inr xs \<Rightarrow> PList xs | Inl _ \<Rightarrow> PList []),
          (''failure_reason'', dget cell ''failure_reason'')])"

definition PROGRESS_STATUSES :: "string list" where
  "PROGRESS_STATUSES = [''pending'', ''allocating'', ''allocated'', ''failed'', ''cancelled'']"

definition progress :: "pydict list \<Rightarrow> (string \<times> nat) list" where
  "progress cells = map (\<lambda>name. (name, length (filter (\<lambda>cell. dget_default cell ''allocation_status'' (PStr ''pending'') = PStr name) cells))) PROGRESS_STATUSES"

definition same_or_none :: "pyval list \<Rightarrow> pyval option" where
  "same_or_none vs = (case remdups vs of [v] \<Rightarrow> Some v | _ \<Rightarrow> None)"

definition preflight_receipt :: "pydict list \<Rightarrow> pyval \<times> pyval" where
  "preflight_receipt cells =
     (case same_or_none (map (\<lambda>c. dget c ''preview_hash'') cells) of None \<Rightarrow> PNone | Some h \<Rightarrow> h,
      case same_or_none (map (\<lambda>c. dget c ''preflight_mode'') cells) of
        Some m \<Rightarrow> if m = PNone then PStr ''legacy_revalidated'' else m | None \<Rightarrow> PStr ''legacy_revalidated'')"

section \<open>Creating the run of a cell\<close>

definition starts_with :: "string \<Rightarrow> string \<Rightarrow> bool" where
  "starts_with p s \<longleftrightarrow> take (length p) s = p"

text \<open>
  \<^verbatim>\<open>RunService.create_run\<close> with a given identifier, which is not blank; case identifiers are strings.
\<close>

definition create_run :: "('x, 'r) stores \<Rightarrow> 'r service \<Rightarrow> string \<Rightarrow> prepared \<Rightarrow> string option \<Rightarrow> string \<Rightarrow> ('x, 'r, unit) svc" where
  "create_run S P scenario_version p parent_run_id run_id =
     (if \<not> distinct (pp_case_ids p) then st_raise (Raised (Plain (ValueError ''case_ids must be unique'')))
      else case pp_manifest p of
        PDict manifest \<Rightarrow>
          st_bind (svc_lift (if starts_with ''replay@'' scenario_version \<or>
               (case dget manifest ''execution'' of PDict ex \<Rightarrow> dget ex ''backend_id'' = PStr ''replay'' | _ \<Rightarrow> False)
             then sv_replay P manifest (pp_case_ids p) else Inr (pp_case_ids p))) (\<lambda>selected.
          (let run = [(''id'', PStr run_id), (''schema_version'', PInt 2), (''revision'', PInt 1), (''scenario_version'', PStr scenario_version),
                 (''status'', PStr ''queued''), (''requested_manifest'', pp_requested p), (''manifest'', PDict manifest), (''case_ids'', PList selected),
                 (''created_at'', PStr (sv_now P)), (''updated_at'', PStr (sv_now P))] @
                 (case parent_run_id of None \<Rightarrow> [] | Some parent \<Rightarrow> [(''parent_run_id'', PStr parent)])
           in st_bind (svc_lift (sv_check_run P run)) (\<lambda>_.
              st_bind (r_call S (OpCreate run (Some [(''run_id'', PStr run_id), (''type'', PStr ''queued''), (''status'', PStr ''queued'')]))) (\<lambda>_.
              svc_lift (sv_after_run P run)))))
      | _ \<Rightarrow> st_raise (Raised (Plain (AttributeError ''manifest''))))"

definition frozen_input :: "pydict \<Rightarrow> exn + prepared" where
  "frozen_input frozen =
     res_bind (ditem frozen ''manifest'') (\<lambda>manifest.
     res_bind (res_bind (ditem frozen ''case_ids'') py_iter) (\<lambda>case_ids.
     res_bind (ditem frozen ''requested_manifest'') (\<lambda>requested.
     Inr \<lparr>pp_manifest = manifest, pp_case_ids = case_ids, pp_requested = requested\<rparr>)))"

definition create_cell_run :: "('x, 'r) stores \<Rightarrow> 'r service \<Rightarrow> experiment_spec \<Rightarrow> pydict \<Rightarrow> string \<Rightarrow> ('x, 'r, unit) svc" where
  "create_cell_run S P spec cell run_id =
     (case map_of (es_task_ref spec) ''scenario_version'' of
        None \<Rightarrow> st_raise (Raised (Plain (KeyError ''scenario_version'')))
      | Some scenario \<Rightarrow>
          st_bind (svc_lift (case dget cell ''prepared_run'' of
               PNone \<Rightarrow> sv_resolve P spec cell
             | PDict frozen \<Rightarrow> plain (frozen_input frozen)
             | _ \<Rightarrow> Inl (Plain (TypeError ''prepared_run'')))) (\<lambda>p.
          create_run S P scenario p None run_id))"

section \<open>Allocation\<close>

definition cell_status_in :: "pydict \<Rightarrow> string list \<Rightarrow> bool" where
  "cell_status_in cell names \<longleftrightarrow> list_ex (\<lambda>name. dget_default cell ''allocation_status'' (PStr ''pending'') = PStr name) names"

definition complete_claimed_cell :: "('x, 'r) stores \<Rightarrow> string \<Rightarrow> string \<Rightarrow> ('x, 'r, bool) svc" where
  "complete_claimed_cell S cell_id run_id =
     svc_try (st_bind (x_call S (XComplete cell_id run_id)) (\<lambda>_. st_return True))
       (\<lambda>e. if \<not> is_value_error e then st_raise (Raised e)
         else st_bind (st_get (\<lambda>w. so_get_cell S cell_id (w_experiments w))) (\<lambda>current. case current of
             Some cell \<Rightarrow>
               if dget cell ''allocation_status'' = PStr ''allocated'' \<and> dget cell ''run_id'' = PStr run_id then st_return True
               else st_raise (Raised e)
           | None \<Rightarrow> st_raise (Raised e)))"

definition fail_cell_safely :: "('x, 'r) stores \<Rightarrow> 'r service \<Rightarrow> string \<Rightarrow> store_exn \<Rightarrow> ('x, 'r, unit) svc" where
  "fail_cell_safely S P cell_id error =
     svc_try (st_bind (x_call S (XFail cell_id (sv_str P error))) (\<lambda>_. st_return ()))
       (\<lambda>e. if \<not> is_value_error e then st_raise (Raised e)
         else st_bind (st_get (\<lambda>w. so_get_cell S cell_id (w_experiments w))) (\<lambda>current.
           if (case current of None \<Rightarrow> False | Some cell \<Rightarrow> dget cell ''allocation_status'' \<in> {PStr ''allocated'', PStr ''failed''})
           then st_return () else st_raise (Raised e)))"

datatype allocation_outcome = Allocated | Failed store_exn | Skipped

text \<open>The part of \<^verbatim>\<open>_allocate_one\<close> for a pending cell.\<close>

definition claim_and_create :: "('x, 'r) stores \<Rightarrow> 'r service \<Rightarrow> experiment_spec \<Rightarrow> pydict \<Rightarrow> ('x, 'r, allocation_outcome) svc" where
  "claim_and_create S P spec cell =
     st_bind (x_call S (XClaim (cell_id_of cell))) (\<lambda>claimed.
     if claimed = XFlag False then st_return Skipped
     else st_bind (svc_lift (deterministic_run_id (cell_id_of cell))) (\<lambda>run_id.
       st_bind (svc_try (st_bind (create_cell_run S P spec cell run_id) (\<lambda>_. st_return None))
           (\<lambda>e. if is_run_conflict e then st_return None
             else st_bind (fail_cell_safely S P (cell_id_of cell) e) (\<lambda>_. st_return (Some e)))) (\<lambda>failure.
       case failure of
         Some e \<Rightarrow> st_return (Failed e)
       | None \<Rightarrow> st_bind (complete_claimed_cell S (cell_id_of cell) run_id) (\<lambda>done. st_return (if done then Allocated else Skipped)))))"

definition allocate_one :: "('x, 'r) stores \<Rightarrow> 'r service \<Rightarrow> experiment_spec \<Rightarrow> pydict \<Rightarrow> ('x, 'r, allocation_outcome) svc" where
  "allocate_one S P spec cell =
     (if cell_status_in cell [''allocated'', ''cancelled'', ''failed''] then st_return Skipped
      else if cell_status_in cell [''allocating''] then
        st_bind (svc_lift (deterministic_run_id (cell_id_of cell))) (\<lambda>run_id.
        st_bind (st_get (\<lambda>w. so_get_run S run_id (w_runs w))) (\<lambda>run.
        if run \<noteq> None then
          st_bind (complete_claimed_cell S (cell_id_of cell) run_id) (\<lambda>done. st_return (if done then Allocated else Skipped))
        else st_bind (x_call S (XReset (cell_id_of cell))) (\<lambda>_. claim_and_create S P spec cell)))
      else if \<not> cell_status_in cell [''pending''] then st_return Skipped
      else claim_and_create S P spec cell)"

text \<open>\<^verbatim>\<open>_validate_frozen_workflow_matrix\<close>, on the cells and runs that are stored\<close>

definition IDENTITY_FIELDS :: "string list" where
  "IDENTITY_FIELDS = [''experiment_id'', ''experiment_version'', ''factor_assignment'', ''repeat_index'', ''resolved_spec_hash'']"

definition frozen_invalid :: "string \<Rightarrow> store_exn + 'a" where
  "frozen_invalid m = Inl (Coded ''FROZEN_INPUT_INVALID'' [Txt m])"

definition legacy_boundary :: "('x, 'r) stores \<Rightarrow> 'r service \<Rightarrow> experiment_spec \<Rightarrow> ('x, 'r) world \<Rightarrow> pydict \<Rightarrow> store_exn + unit" where
  "legacy_boundary S P spec w cell =
     res_bind (if py_truthy (dget cell ''run_id'') then Inr (dstr cell ''run_id'') else deterministic_run_id (cell_id_of cell)) (\<lambda>run_id.
     res_bind (case dget cell ''prepared_run'' of
         PDict frozen \<Rightarrow> res_bind (plain (ditem frozen ''manifest'')) (sv_boundary P spec)
       | PNone \<Rightarrow> Inr ()
       | _ \<Rightarrow> Inl (Plain (TypeError ''prepared_run''))) (\<lambda>_.
     case so_get_run S run_id (w_runs w) of None \<Rightarrow> Inr ()
       | Some run \<Rightarrow> res_bind (plain (ditem run ''manifest'')) (sv_boundary P spec)))"

text \<open>\<^verbatim>\<open>any(original.get(key) != cell["prepared_run"][key] for key in keys)\<close>\<close>

fun differs :: "pydict \<Rightarrow> pydict \<Rightarrow> string list \<Rightarrow> exn + bool" where
  "differs run frozen [] = Inr False"
| "differs run frozen (key # keys) = (case ditem frozen key of
       Inl e \<Rightarrow> Inl e
     | Inr v \<Rightarrow> if \<not> py_eq (dget run key) v then Inr True else differs run frozen keys)"

definition owns_run :: "('x, 'r) stores \<Rightarrow> ('x, 'r) world \<Rightarrow> pydict \<Rightarrow> store_exn + unit" where
  "owns_run S w cell =
     res_bind (deterministic_run_id (cell_id_of cell)) (\<lambda>run_id.
     if dget cell ''run_id'' \<notin> {PNone, PStr run_id} then frozen_invalid ''Cell no longer owns its initial Run''
     else case (so_get_run S run_id (w_runs w), dget cell ''prepared_run'') of
         (Some run, PDict frozen) \<Rightarrow>
           res_bind (plain (differs run frozen [''scenario_version'', ''manifest'', ''case_ids'', ''requested_manifest''])) (\<lambda>changed.
           if changed then frozen_invalid ''initial Run differs from its frozen Cell'' else Inr ())
       | (Some _, _) \<Rightarrow> Inl (Plain (TypeError ''prepared_run''))
       | (None, _) \<Rightarrow> Inr ())"

definition validate_frozen_matrix :: "('x, 'r) stores \<Rightarrow> 'r service \<Rightarrow> experiment_spec \<Rightarrow> ('x, 'r) world \<Rightarrow> store_exn + unit" where
  "validate_frozen_matrix S P spec w =
     (let cells = so_list_cells S (es_experiment_id spec) (es_version spec) (w_experiments w) in
      if es_suite_config spec = None then res_bind (res_map (legacy_boundary S P spec w) cells) (\<lambda>_. Inr ())
      else res_bind (plain (expand_matrix spec)) (\<lambda>expanded.
        (let expected = od_merge [] (map (\<lambda>c. (cell_id_of (cell_payload (sv_hash P) spec c), cell_payload (sv_hash P) spec c)) expanded) in
         if length cells \<noteq> length expected \<or> set (map cell_id_of cells) \<noteq> set (map fst expected) then
           frozen_invalid ''frozen matrix identity is incomplete''
         else res_bind (res_map (\<lambda>cell. if list_ex (\<lambda>key. \<not> py_eq (dget cell key)
               (case map_of expected (cell_id_of cell) of None \<Rightarrow> PNone | Some e \<Rightarrow> dget e key)) IDENTITY_FIELDS
             then frozen_invalid ''saved Cell identity has changed'' else sv_frozen_cell P spec cell) cells) (\<lambda>_.
         if list_ex (\<lambda>cell. dget cell ''preview_hash'' \<noteq> PStr (preview_hash (sv_hash P) spec
             (od_merge [] (map (\<lambda>c. (cell_id_of c, dget c ''prepared_run'')) cells)))) cells
         then frozen_invalid ''prepared inputs differ from the saved preview''
         else res_bind (res_map (owns_run S w) cells) (\<lambda>_. Inr ())))))"

definition validate_allocation_inputs :: "('x, 'r) stores \<Rightarrow> 'r service \<Rightarrow> experiment_spec \<Rightarrow> ('x, 'r) world \<Rightarrow> store_exn + unit" where
  "validate_allocation_inputs S P spec w =
     res_bind (validate_supported_suite spec) (\<lambda>_.
     res_bind (sv_ready P spec) (\<lambda>_.
     res_bind (validate_frozen_matrix S P spec w) (\<lambda>_.
     if list_ex (\<lambda>cell. dget cell ''allocation_status'' \<in> {PStr ''pending'', PStr ''allocating''} \<and> \<not> py_truthy (dget cell ''prepared_run''))
         (so_list_cells S (es_experiment_id spec) (es_version spec) (w_experiments w)) then
       (if es_suite_config spec \<noteq> None then Inl (Coded ''FROZEN_INPUT_REQUIRED'' [Txt ''typed cells require frozen prepared_run''])
        else res_bind (compile_experiment P spec) (\<lambda>compiled. reject_violations (co_violations compiled)))
     else Inr ())))"

text \<open>The counts of \<^verbatim>\<open>_allocate_locked\<close>: allocated, skipped and the failures, with the receipt and the cells.\<close>

record allocation =
  al_outcomes :: "(string \<times> allocation_outcome) list"
  al_receipt :: "pyval \<times> pyval"
  al_cells :: "pydict list"

definition allocate_locked :: "('x, 'r) stores \<Rightarrow> 'r service \<Rightarrow> string \<Rightarrow> string \<Rightarrow> ('x, 'r, allocation) svc" where
  "allocate_locked S P experiment_id version =
     st_bind (st_get (\<lambda>w. so_get_spec S experiment_id version (w_experiments w))) (\<lambda>stored. case stored of
         None \<Rightarrow> svc_error ''EXPERIMENT_NOT_FOUND'' [Txt (''experiment '' @ experiment_id @ ''@'' @ version @ '' not found'')]
       | Some payload \<Rightarrow>
           st_bind (svc_lift (sv_parse P payload)) (\<lambda>spec.
           st_bind (st_get (validate_allocation_inputs S P spec)) (\<lambda>admission.
           st_bind (svc_lift admission) (\<lambda>_.
           st_bind (st_get (\<lambda>w. so_list_cells S experiment_id version (w_experiments w))) (\<lambda>cells.
           st_bind (st_map (\<lambda>cell. st_bind (allocate_one S P spec cell) (\<lambda>x. st_return (cell_id_of cell, x))) cells) (\<lambda>outcomes.
           st_bind (st_get (\<lambda>w. so_list_cells S experiment_id version (w_experiments w))) (\<lambda>cells'.
           st_return \<lparr>al_outcomes = outcomes, al_receipt = preflight_receipt cells', al_cells = map cell_view cells'\<rparr>)))))))"

section \<open>Creation\<close>

text \<open>\<^verbatim>\<open>bind\<close> of the request registry\<close>

definition bind_request :: "string \<Rightarrow> string \<Rightarrow> string \<Rightarrow> ('x, 'r, unit) svc" where
  "bind_request key canonical_hash ref = effect (\<lambda>w. case map_of (w_requests w) key of
       Some (h, _) \<Rightarrow>
         if h = canonical_hash then (Inr (), w)
         else (Inl (Coded ''RequestConflict'' [Txt (''request key bound to a different canonical hash: '' @ key)]), w)
     | None \<Rightarrow> (Inr (), w\<lparr>w_requests := od_set key (canonical_hash, ref) (w_requests w)\<rparr>))"

record creation =
  cn_created :: bool
  cn_spec :: pydict
  cn_allocation :: allocation

definition saved_matrix :: "('x, 'r) stores \<Rightarrow> 'r service \<Rightarrow> experiment_spec \<Rightarrow> ('x, 'r) world \<Rightarrow> store_exn + unit" where
  "saved_matrix S P spec w =
     res_bind (plain (expand_matrix spec)) (\<lambda>expanded.
       (let existing = so_list_cells S (es_experiment_id spec) (es_version spec) (w_experiments w);
            by_id = od_merge [] (map (\<lambda>cell. (cell_id_of cell, cell)) existing) in
        if set (map cell_id_of existing) \<noteq> (\<lambda>(a, r). compute_cell_id (sv_hash P) (es_experiment_id spec) (es_version spec) a r) ` set expanded then
          Inl (Coded ''EXPERIMENT_INCOMPLETE'' [Txt ''matrix requires explicit repair''])
        else res_bind (res_map (\<lambda>c. (let expected = cell_payload (sv_hash P) spec c;
            saved = (case map_of by_id (cell_id_of expected) of None \<Rightarrow> [] | Some cell \<Rightarrow> cell) in
          case find (\<lambda>key. \<not> py_eq (dget saved key) (dget expected key)) IDENTITY_FIELDS of
            Some key \<Rightarrow> Inl (Coded ''CELL_CONTENT_CONFLICT'' [Txt (''saved cell identity: '' @ key)]) | None \<Rightarrow> Inr ())) expanded) (\<lambda>_. Inr ())))"

text \<open>The cells to publish, with their prepared runs.\<close>

definition bound_cell :: "'r service \<Rightarrow> experiment_spec \<Rightarrow> compiled_experiment \<Rightarrow> string option \<Rightarrow> factor_assignment \<times> int \<Rightarrow> pydict" where
  "bound_cell P spec compiled expected_preview_hash c =
     (let cell = cell_payload (sv_hash P) spec c in
      od_merge cell [(''prepared_run'', PDict (case map_of (co_prepared compiled) (cell_id_of cell) of None \<Rightarrow> [] | Some d \<Rightarrow> d)),
        (''preview_hash'', PStr (co_preview_hash compiled)),
        (''preflight_mode'', PStr (if expected_preview_hash \<noteq> None then ''preview_bound'' else ''create_revalidated''))])"

definition registry_key :: "string option \<Rightarrow> string option" where
  "registry_key request_key = map_option (\<lambda>k. ''experiment:create:'' @ k) request_key"

definition check_request :: "string option \<Rightarrow> string \<Rightarrow> string \<Rightarrow> ('x, 'r) world \<Rightarrow> store_exn + unit" where
  "check_request request_key content_hash resource_ref w = (case registry_key request_key of
       None \<Rightarrow> Inr ()
     | Some key \<Rightarrow> (case map_of (w_requests w) key of
         None \<Rightarrow> Inr ()
       | Some seen \<Rightarrow> if seen \<noteq> (content_hash, resource_ref)
           then Inl (Coded ''REQUEST_KEY_CONFLICT'' [Txt ''request_key '', Rep (ref_val request_key), Txt '' already created different spec content''])
           else Inr ()))"

definition replay_creation :: "('x, 'r) stores \<Rightarrow> 'r service \<Rightarrow> experiment_spec \<Rightarrow> pydict \<Rightarrow> string option \<Rightarrow> string option \<Rightarrow> ('x, 'r, creation) svc" where
  "replay_creation S P spec stored request_key expected_preview_hash =
     (if \<not> py_eq (PDict stored) (PDict (dump_spec spec)) then st_raise (Raised (Plain (ValueError ''experiment specs are immutable'')))
      else st_bind (st_get (saved_matrix S P spec)) (\<lambda>saved.
        st_bind (svc_lift saved) (\<lambda>_.
        st_bind (st_get (\<lambda>w. fst (preflight_receipt (so_list_cells S (es_experiment_id spec) (es_version spec) (w_experiments w))))) (\<lambda>receipt.
        if expected_preview_hash \<noteq> None \<and> ref_val expected_preview_hash \<noteq> receipt then
          svc_error ''PREVIEW_STALE'' [Txt ''preview does not match published experiment'']
        else st_bind (st_get (validate_allocation_inputs S P spec)) (\<lambda>admission.
          st_bind (svc_lift admission) (\<lambda>_.
          st_bind (case registry_key request_key of None \<Rightarrow> st_return ()
            | Some key \<Rightarrow> bind_request key (sv_hash P (PDict (dump_spec spec))) (es_experiment_id spec @ ''@'' @ es_version spec)) (\<lambda>_.
          st_bind (allocate_locked S P (es_experiment_id spec) (es_version spec)) (\<lambda>allocation.
          st_return \<lparr>cn_created = False, cn_spec = stored, cn_allocation = allocation\<rparr>))))))))"

definition fresh_creation :: "('x, 'r) stores \<Rightarrow> 'r service \<Rightarrow> experiment_spec \<Rightarrow> string option \<Rightarrow> string option \<Rightarrow> ('x, 'r, creation) svc" where
  "fresh_creation S P spec request_key expected_preview_hash =
     st_bind (svc_lift (compile_experiment P spec)) (\<lambda>compiled.
     if expected_preview_hash \<noteq> None \<and> expected_preview_hash \<noteq> Some (co_preview_hash compiled) then
       svc_error ''PREVIEW_STALE'' [Txt ''resources or spec changed; preview again'']
     else st_bind (svc_lift (reject_violations (co_violations compiled))) (\<lambda>_.
       st_bind (svc_lift (validate_supported_suite spec)) (\<lambda>_.
       st_bind (case registry_key request_key of None \<Rightarrow> st_return ()
         | Some key \<Rightarrow> svc_try (bind_request key (sv_hash P (PDict (dump_spec spec))) (es_experiment_id spec @ ''@'' @ es_version spec))
             (\<lambda>e. case e of Coded c m \<Rightarrow> if c = ''RequestConflict'' then svc_error ''REQUEST_KEY_CONFLICT'' m else st_raise (Raised e)
                | _ \<Rightarrow> st_raise (Raised e))) (\<lambda>_.
       st_bind (svc_lift (plain (expand_matrix spec))) (\<lambda>expanded.
       st_bind (x_call S (XPublish (dump_spec spec) (map (bound_cell P spec compiled expected_preview_hash) expanded))) (\<lambda>_.
       st_bind (allocate_locked S P (es_experiment_id spec) (es_version spec)) (\<lambda>allocation.
       st_return \<lparr>cn_created = True, cn_spec = dump_spec spec, cn_allocation = allocation\<rparr>)))))))"

definition create_locked :: "('x, 'r) stores \<Rightarrow> 'r service \<Rightarrow> pydict \<Rightarrow> string option \<Rightarrow> string option \<Rightarrow> ('x, 'r, creation) svc" where
  "create_locked S P payload request_key expected_preview_hash =
     st_bind (svc_lift (sv_parse P payload)) (\<lambda>spec.
     st_bind (st_get (check_request request_key (sv_hash P (PDict (dump_spec spec))) (es_experiment_id spec @ ''@'' @ es_version spec))) (\<lambda>checked.
     st_bind (svc_lift checked) (\<lambda>_.
     st_bind (st_get (\<lambda>w. so_get_spec S (es_experiment_id spec) (es_version spec) (w_experiments w))) (\<lambda>stored. case stored of
         Some old \<Rightarrow> replay_creation S P spec old request_key expected_preview_hash
       | None \<Rightarrow> fresh_creation S P spec request_key expected_preview_hash))))"

section \<open>Cancellation and retry\<close>

definition resolve_spec :: "('x, 'r) stores \<Rightarrow> string \<Rightarrow> string option \<Rightarrow> 'x \<Rightarrow> store_exn + pydict" where
  "resolve_spec S experiment_id version x =
     (let specs = so_list_specs S experiment_id x in
      if specs = [] then Inl (Coded ''EXPERIMENT_NOT_FOUND'' [Txt ''experiment '', Rep (PStr experiment_id), Txt '' not found''])
      else case version of
          None \<Rightarrow> Inr (last specs)
        | Some v \<Rightarrow> (case find (\<lambda>item. dget item ''version'' = PStr v) specs of
              Some item \<Rightarrow> Inr item
            | None \<Rightarrow> Inl (Coded ''EXPERIMENT_NOT_FOUND'' [Txt (''experiment '' @ experiment_id @ ''@'' @ v @ '' not found'')])))"

definition experiment_status :: "('x, 'r) stores \<Rightarrow> string \<Rightarrow> string option \<Rightarrow> 'x \<Rightarrow> store_exn + pydict \<times> (string \<times> nat) list \<times> pydict list" where
  "experiment_status S experiment_id version x =
     res_bind (resolve_spec S experiment_id version x) (\<lambda>stored.
       (let cells = so_list_cells S experiment_id (dstr stored ''version'') x in Inr (stored, progress cells, map cell_view cells)))"

definition RUN_TERMINAL :: "string list" where
  "RUN_TERMINAL = [''completed'', ''failed'', ''cancelled'', ''unsupported'', ''profile_stale'', ''needs_review'']"

definition cancel_owned_run :: "('x, 'r) stores \<Rightarrow> 'r service \<Rightarrow> string \<Rightarrow> string \<Rightarrow> ('x, 'r, bool) svc" where
  "cancel_owned_run S P run_id reason =
     st_bind (st_get (\<lambda>w. so_get_run S run_id (w_runs w))) (\<lambda>found. case found of
         None \<Rightarrow> st_return False
       | Some run \<Rightarrow>
           if list_ex (\<lambda>x. dget run ''status'' = PStr x) RUN_TERMINAL then st_return False
           else st_bind (st_get (\<lambda>w. sv_cancel P run_id reason (w_runs w))) (\<lambda>(ops, r).
             st_bind (st_iter (\<lambda>op. svc_try (st_bind (r_call S op) (\<lambda>_. st_return ())) (\<lambda>_. st_return ())) ops) (\<lambda>_.
             st_bind (svc_lift r) (\<lambda>_. st_return True))))"

text \<open>One cell of \<^verbatim>\<open>cancel\<close>; the result is the cancelled cell and run.\<close>

definition cancel_one :: "('x, 'r) stores \<Rightarrow> 'r service \<Rightarrow> string \<Rightarrow> pydict \<Rightarrow> ('x, 'r, string list \<times> string list) svc" where
  "cancel_one S P reason cell =
     (if cell_status_in cell [''pending''] then
        st_bind (x_call S (XCancel (cell_id_of cell))) (\<lambda>_. st_return ([cell_id_of cell], []))
      else if cell_status_in cell [''allocating''] then
        st_bind (svc_lift (deterministic_run_id (cell_id_of cell))) (\<lambda>run_id.
        st_bind (cancel_owned_run S P run_id reason) (\<lambda>cancelled.
        st_bind (x_call S (XCancel (cell_id_of cell))) (\<lambda>_. st_return ([cell_id_of cell], if cancelled then [run_id] else []))))
      else if cell_status_in cell [''allocated''] then
        (if \<not> py_truthy (dget cell ''run_id'') then st_return ([], [])
         else st_bind (cancel_owned_run S P (dstr cell ''run_id'') reason) (\<lambda>cancelled.
           st_bind (x_call S (XCancelAllocated (cell_id_of cell))) (\<lambda>_.
           st_return ([cell_id_of cell], if cancelled then [dstr cell ''run_id''] else []))))
      else st_return ([], []))"

definition cancel_experiment :: "('x, 'r) stores \<Rightarrow> 'r service \<Rightarrow> string \<Rightarrow> string option \<Rightarrow> string \<Rightarrow> ('x, 'r, string list \<times> string list) svc" where
  "cancel_experiment S P experiment_id version reason =
     st_bind (st_get (\<lambda>w. resolve_spec S experiment_id version (w_experiments w))) (\<lambda>resolved.
     st_bind (svc_lift resolved) (\<lambda>stored.
     st_bind (st_get (\<lambda>w. so_list_cells S experiment_id (dstr stored ''version'') (w_experiments w))) (\<lambda>cells.
     st_bind (st_map (cancel_one S P reason) cells) (\<lambda>done. st_return (concat (map fst done), concat (map snd done))))))"

definition retry_run_id :: "string \<Rightarrow> pyval list \<Rightarrow> string" where
  "retry_run_id run_id superseding = run_id @ ''-r'' @ dec_nat (length superseding + 1)"

definition retry_input :: "'r service \<Rightarrow> pydict \<Rightarrow> string \<Rightarrow> store_exn + string \<times> prepared" where
  "retry_input P original retry_id =
     res_bind (plain (ditem original ''manifest'')) (\<lambda>frozen.
     res_bind (sv_refreeze P frozen retry_id) (\<lambda>manifest.
     res_bind (plain (ditem_str original ''scenario_version'')) (\<lambda>scenario.
     res_bind (plain (res_bind (ditem original ''case_ids'') py_iter)) (\<lambda>case_ids.
     Inr (scenario, \<lparr>pp_manifest = manifest, pp_case_ids = case_ids,
       pp_requested = (if dget original ''requested_manifest'' \<noteq> PNone then dget original ''requested_manifest'' else frozen)\<rparr>)))))"

definition retry_cell :: "('x, 'r) stores \<Rightarrow> 'r service \<Rightarrow> string \<Rightarrow> ('x, 'r, string) svc" where
  "retry_cell S P cell_id =
     st_bind (st_get (\<lambda>w. so_get_cell S cell_id (w_experiments w))) (\<lambda>found. case found of
         None \<Rightarrow> svc_error ''CELL_NOT_FOUND'' [Txt ''cell '', Rep (PStr cell_id), Txt '' not found'']
       | Some cell \<Rightarrow>
           st_bind (st_get (\<lambda>w. so_get_spec S (dstr cell ''experiment_id'') (dstr cell ''experiment_version'') (w_experiments w))) (\<lambda>stored. case stored of
               None \<Rightarrow> svc_error ''EXPERIMENT_NOT_FOUND''
                 [Txt (''experiment '' @ dstr cell ''experiment_id'' @ ''@'' @ dstr cell ''experiment_version'' @ '' not found'')]
             | Some payload \<Rightarrow>
                 st_bind (svc_lift (sv_parse P payload)) (\<lambda>spec.
                 if \<not> py_truthy (dget cell ''run_id'') then
                   svc_error ''CELL_NOT_ALLOCATED'' [Txt (''cell '' @ cell_id @ '' has no initial run to supersede'')]
                 else st_bind (svc_lift (validate_supported_suite spec)) (\<lambda>_.
                   st_bind (svc_lift (sv_ready P spec)) (\<lambda>_.
                   st_bind (st_get (validate_frozen_matrix S P spec)) (\<lambda>frozen.
                   st_bind (svc_lift frozen) (\<lambda>_.
                   st_bind (st_get (\<lambda>w. so_get_run S (dstr cell ''run_id'') (w_runs w))) (\<lambda>run. case run of
                       None \<Rightarrow> svc_error ''RUN_NOT_FOUND'' [Txt ''initial run '', Rep (dget cell ''run_id''), Txt '' not found'']
                     | Some original \<Rightarrow>
                         st_bind (svc_lift (plain (list_or_empty (dget cell ''superseding_run_ids'')))) (\<lambda>superseding.
                         st_bind (svc_lift (deterministic_run_id cell_id)) (\<lambda>initial.
                         st_bind (svc_lift (retry_input P original (retry_run_id initial superseding))) (\<lambda>(scenario, p).
                         st_bind (create_run S P scenario p (Some (dstr cell ''run_id'')) (retry_run_id initial superseding)) (\<lambda>_.
                         st_bind (x_call S (XSupersede cell_id (retry_run_id initial superseding))) (\<lambda>_.
                         st_return (retry_run_id initial superseding))))))))))))))"

end
