(* ===== verification/Experiment_Allocation.thy ===== *)
theory Experiment_Allocation
  imports Experiment_Service
begin

text \<open>
  What the experiment service guarantees across crashes.  The locale \<open>experiment_world\<close> combines the contracts of the
  experiment store and of the run store; inside it, one lemma per operation of the service.  A cell is bound
  to a run only when the run of its identifier exists, whatever is interrupted where; and an allocation
  that is not interrupted settles every cell.
\<close>

section \<open>Results of an operation\<close>

text \<open>\<open>ends P m Q\<close>: from \<open>P\<close>, the result of \<open>m\<close> and the state it leaves satisfy \<open>Q\<close>.\<close>

definition ends :: "('s \<Rightarrow> bool) \<Rightarrow> ('s, 'e, 'a) sop \<Rightarrow> ('e + 'a \<Rightarrow> 's \<Rightarrow> bool) \<Rightarrow> bool" where
  "ends P m Q \<longleftrightarrow> (\<forall>s. P s \<longrightarrow> Q (fst (m s)) (snd (m s)))"

lemma endsD: "ends P m Q \<Longrightarrow> P s \<Longrightarrow> Q (fst (m s)) (snd (m s))"
  by (simp add: ends_def)

lemma ends_bind:
  "ends P m R \<Longrightarrow> (\<And>x. ends (R (Inr x)) (f x) Q) \<Longrightarrow> (\<And>e s. R (Inl e) s \<Longrightarrow> Q (Inl e) s) \<Longrightarrow> ends P (st_bind m f) Q"
  by (fastforce simp: ends_def st_bind_def split: prod.splits sum.splits)

lemma ends_catch:
  "ends P m R \<Longrightarrow> (\<And>e. ends (R (Inl e)) (h e) Q) \<Longrightarrow> (\<And>x s. R (Inr x) s \<Longrightarrow> Q (Inr x) s) \<Longrightarrow> ends P (st_catch m h) Q"
  by (fastforce simp: ends_def st_catch_def split: prod.splits sum.splits)

lemma ends_try:
  assumes "ends P m R" "\<And>e. ends (R (Inl (Raised e))) (h e) Q" "\<And>x s. R (Inr x) s \<Longrightarrow> Q (Inr x) s" "\<And>s. R (Inl Crashed) s \<Longrightarrow> Q (Inl Crashed) s"
  shows "ends P (svc_try m h) Q"
  unfolding svc_try_def
proof (rule ends_catch [OF assms(1)])
  fix e show "ends (R (Inl e)) (case e of Raised e' \<Rightarrow> h e' | Crashed \<Rightarrow> st_raise Crashed) Q"
    using assms(2,4) by (cases e) (auto simp: ends_def sop_simps)
qed (rule assms(3))

lemma ends_return: "(\<And>s. P s \<Longrightarrow> Q (Inr x) s) \<Longrightarrow> ends P (st_return x) Q"
  by (simp add: ends_def sop_simps)

lemma ends_raise: "(\<And>s. P s \<Longrightarrow> Q (Inl e) s) \<Longrightarrow> ends P (st_raise e) Q"
  by (simp add: ends_def sop_simps)

lemma ends_read: "(\<And>x. ends (\<lambda>s. P s \<and> g s = x) (f x) Q) \<Longrightarrow> ends P (st_bind (st_get g) f) Q"
  by (simp add: ends_def st_bind_def sop_simps)

lemma ends_lift:
  "(\<And>x. r = Inr x \<Longrightarrow> ends P (f x) Q) \<Longrightarrow> (\<And>e s. r = Inl e \<Longrightarrow> P s \<Longrightarrow> Q (Inl (Raised e)) s) \<Longrightarrow> ends P (st_bind (svc_lift r) f) Q"
  by (cases r) (simp_all add: ends_def st_bind_def svc_lift_def sop_simps)

lemma ends_weaken: "ends P m R \<Longrightarrow> (\<And>s. P' s \<Longrightarrow> P s) \<Longrightarrow> (\<And>r s. R r s \<Longrightarrow> Q r s) \<Longrightarrow> ends P' m Q"
  by (simp add: ends_def)

lemma ends_if: "(b \<Longrightarrow> ends P m Q) \<Longrightarrow> (\<not> b \<Longrightarrow> ends P n Q) \<Longrightarrow> ends P (if b then m else n) Q"
  by simp

lemma ends_option:
  "(x = None \<Longrightarrow> ends P m Q) \<Longrightarrow> (\<And>y. x = Some y \<Longrightarrow> ends P (f y) Q) \<Longrightarrow> ends P (case x of None \<Rightarrow> m | Some y \<Rightarrow> f y) Q"
  by (cases x) simp_all

lemma ends_keeps: "keeps P m \<longleftrightarrow> ends P m (\<lambda>_. P)"
  by (simp add: ends_def keeps_def)

lemma keeps_svc_lift [keeps_intros]: "keeps P (svc_lift r)"
  by (simp add: svc_lift_def keeps_lift)

lemma keeps_svc_error [keeps_intros]: "keeps P (svc_error c m)"
  by (simp add: svc_error_def keeps_raise)

lemma keeps_try [keeps_intros]: "keeps P m \<Longrightarrow> (\<And>e. keeps P (h e)) \<Longrightarrow> keeps P (svc_try m h)"
  unfolding ends_keeps by (rule ends_try)

lemma is_run_conflict_simps [simp]: "is_run_conflict (Plain e) \<longleftrightarrow> (\<exists>m. e = RunConflictError m)" "\<not> is_run_conflict (Coded c m)"
  by (simp_all add: is_run_conflict_def split: exn.splits)

lemma list_all2_mem: "list_all2 R xs ys \<Longrightarrow> x \<in> set xs \<Longrightarrow> \<exists>y\<in>set ys. R x y"
  by (induction rule: list_all2_induct) auto

section \<open>Cells and their runs\<close>

text \<open>
  A cell either has no run and is not allocated, or it has the run of its identifier and that run exists.
\<close>

definition cell_safe :: "run_view \<Rightarrow> string \<Rightarrow> (string \<Rightarrow> pyval option) \<Rightarrow> bool" where
  "cell_safe rv c v \<longleftrightarrow> CHR '':'' \<in> set c \<and>
     (v ''run_id'' \<in> {None, Some PNone} \<and> v ''allocation_status'' \<noteq> Some (PStr ''allocated'') \<or>
      (\<exists>rid. v ''run_id'' = Some (PStr rid) \<and> deterministic_run_id c = Inr rid \<and> map_of (rv_runs rv) rid \<noteq> None))"

lemma cell_safe_mono: "cell_safe rv c v \<Longrightarrow> view_le rv rv' \<Longrightarrow> cell_safe rv' c v"
  unfolding cell_safe_def view_le_def by fastforce

definition bindable_call :: "run_view \<Rightarrow> experiment_call \<Rightarrow> bool" where
  "bindable_call rv op = (case op of
       XComplete c rid \<Rightarrow> deterministic_run_id c = Inr rid \<and> map_of (rv_runs rv) rid \<noteq> None
     | XPublish p cells \<Rightarrow> (\<forall>cell\<in>set cells. CHR '':'' \<in> set (cell_id_of cell) \<and>
         map_of cell ''run_id'' = Some PNone \<and> map_of cell ''allocation_status'' = Some (PStr ''pending''))
     | XPutCell _ \<Rightarrow> False
     | _ \<Rightarrow> True)"

lemma content_run_id_set [simp]:
  "content (od_set ''allocation_status'' v cell) ''run_id'' = content cell ''run_id''"
  "content (od_set ''failure_reason'' v cell) ''run_id'' = content cell ''run_id''"
  "content (od_set ''superseding_run_ids'' v cell) ''run_id'' = content cell ''run_id''"
  "content (od_set ''superseding_run_ids'' v cell) ''allocation_status'' = content cell ''allocation_status''"
  by (simp_all add: dict_simps)

lemma move_safe:
  assumes "cell_move op = Some (c, f)" "moves f (Some v) (Some v')" "cell_safe rv c v" "bindable_call rv op"
  shows "cell_safe rv c v'"
  using assms
  by (cases op) (auto simp: moves_def mutate_defs superseding_mutate_def res_bind_def cell_safe_def bindable_call_def dict_simps
      split: if_splits sum.splits)

text \<open>The checks before a run is created do not raise what the run store raises for an existing run.\<close>

definition calls_quiet :: "'r service \<Rightarrow> bool" where
  "calls_quiet P \<longleftrightarrow> (\<forall>m ids e. sv_replay P m ids = Inl e \<longrightarrow> \<not> is_run_conflict e) \<and>
     (\<forall>run e. sv_check_run P run = Inl e \<longrightarrow> \<not> is_run_conflict e) \<and>
     (\<forall>spec cell e. sv_resolve P spec cell = Inl e \<longrightarrow> \<not> is_run_conflict e)"

definition prefixed_hash :: "'r service \<Rightarrow> bool" where
  "prefixed_hash P \<longleftrightarrow> (\<forall>v. CHR '':'' \<in> set (sv_hash P v))"

section \<open>Scripts\<close>

text \<open>
  The calls of the service, and operations on the run store by everybody else.  Every call has the
  surrounding code as it is at that time, and the number of effects after which the process dies, if it does.
\<close>

datatype svc_call =
    SCreate pydict "string option" "string option"
  | SAllocate string string
  | SCancel string "string option" string
  | SRetry string
  | SRuns repo_op

definition svc_run :: "('x, 'r) stores \<Rightarrow> 'r service \<Rightarrow> svc_call \<Rightarrow> ('x, 'r, unit) svc" where
  "svc_run S P call = (case call of
       SCreate payload request_key expected \<Rightarrow> st_bind (create_locked S P payload request_key expected) (\<lambda>_. st_return ())
     | SAllocate experiment_id version \<Rightarrow> st_bind (allocate_locked S P experiment_id version) (\<lambda>_. st_return ())
     | SCancel experiment_id version reason \<Rightarrow> st_bind (cancel_experiment S P experiment_id version reason) (\<lambda>_. st_return ())
     | SRetry cell_id \<Rightarrow> st_bind (retry_cell S P cell_id) (\<lambda>_. st_return ())
     | SRuns op \<Rightarrow> st_bind (r_call S op) (\<lambda>_. st_return ()))"

fun svc_step :: "('x, 'r) stores \<Rightarrow> 'r service \<times> nat option \<times> svc_call \<Rightarrow> ('x, 'r) world \<Rightarrow> ('x, 'r) world" where
  "svc_step S (P, n, call) w = snd (svc_run S P call (w\<lparr>w_crash := n\<rparr>))"

definition svc_script :: "('x, 'r) stores \<Rightarrow> ('r service \<times> nat option \<times> svc_call) list \<Rightarrow> ('x, 'r) world \<Rightarrow> ('x, 'r) world" where
  "svc_script S script w = fold (svc_step S) script w"

definition script_quiet :: "('r service \<times> nat option \<times> svc_call) list \<Rightarrow> bool" where
  "script_quiet script \<longleftrightarrow> (\<forall>P\<in>fst ` set script. calls_quiet P \<and> prefixed_hash P)"

text \<open>What an allocation makes of a cell.\<close>

definition settled_as :: "allocation_outcome \<Rightarrow> (string \<Rightarrow> pyval option) \<Rightarrow> (string \<Rightarrow> pyval option) \<Rightarrow> bool" where
  "settled_as out v v' \<longleftrightarrow> (case out of
       Skipped \<Rightarrow> \<not> is_open v \<and> v' = v
     | Allocated \<Rightarrow> is_open v \<and> v' ''allocation_status'' = Some (PStr ''allocated'')
     | Failed _ \<Rightarrow> is_open v \<and> v' ''allocation_status'' = Some (PStr ''failed''))"

lemma settled_closed: "settled_as out v v' \<Longrightarrow> \<not> is_open v'"
  by (auto simp: settled_as_def is_open_def split: allocation_outcome.splits)

section \<open>What is promised\<close>

definition empty_world :: "'x \<Rightarrow> 'r \<Rightarrow> ('x, 'r) world" where
  "empty_world x r = \<lparr>w_experiments = x, w_runs = r, w_requests = [], w_crash = None\<rparr>"

text \<open>The cell is bound to the run of its identifier, and that run exists.\<close>

definition owns :: "('x, 'r) stores \<Rightarrow> ('x, 'r) world \<Rightarrow> string \<Rightarrow> pydict \<Rightarrow> bool" where
  "owns S w c cell \<longleftrightarrow> (case deterministic_run_id c of Inl _ \<Rightarrow> False
     | Inr rid \<Rightarrow> dget cell ''run_id'' = PStr rid \<and> so_get_run S rid (w_runs w) \<noteq> None)"

definition cells_owned :: "('x, 'r) stores \<Rightarrow> ('x, 'r) world \<Rightarrow> bool" where
  "cells_owned S w \<longleftrightarrow> (\<forall>c cell. so_get_cell S c (w_experiments w) = Some cell \<longrightarrow>
     dget cell ''run_id'' \<noteq> PNone \<or> cell_status cell = PStr ''allocated'' \<longrightarrow> owns S w c cell)"

definition admitted :: "('x, 'r) stores \<Rightarrow> 'r service \<Rightarrow> string \<Rightarrow> string \<Rightarrow> ('x, 'r) world \<Rightarrow> bool" where
  "admitted S P e v w \<longleftrightarrow> (case so_get_spec S e v (w_experiments w) of None \<Rightarrow> False
     | Some payload \<Rightarrow> (case sv_parse P payload of Inl _ \<Rightarrow> False
       | Inr spec \<Rightarrow> validate_allocation_inputs S P spec (w\<lparr>w_crash := None\<rparr>) = Inr ()))"

text \<open>
  An allocation that is not interrupted returns: no cell of the experiment is left open, the cells that were
  open are allocated or failed as reported, the others are untouched, and every allocated cell has its run.
\<close>

definition recovered :: "('x, 'r) stores \<Rightarrow> 'r service \<Rightarrow> string \<Rightarrow> string \<Rightarrow> ('x, 'r) world \<Rightarrow> bool" where
  "recovered S P e v w \<longleftrightarrow> (case allocate_locked S P e v (w\<lparr>w_crash := None\<rparr>) of
       (Inl _, _) \<Rightarrow> False
     | (Inr a, w') \<Rightarrow>
         (\<forall>c cell. so_get_cell S c (w_experiments w') = Some cell \<and> cell_key cell = (e, v) \<longrightarrow>
            cell_status cell \<notin> {PStr ''pending'', PStr ''allocating''}) \<and>
         list_all2 (\<lambda>cell (c, out). c = cell_id_of cell \<and> (\<exists>cell'. so_get_cell S c (w_experiments w') = Some cell' \<and>
            settled_as out (content cell) (content cell'))) (so_list_cells S e v (w_experiments w)) (al_outcomes a) \<and>
         cells_owned S w')"

section \<open>The interface\<close>

locale experiment_world = cells: cell_store "so_experiments S" view + runs: run_repository "so_runs S" rinv rview
  for S :: "('x, 'r) stores" and view :: "'x \<Rightarrow> experiment_key \<Rightarrow> (string \<Rightarrow> pyval option) option"
    and rinv :: "'r \<Rightarrow> bool" and rview :: "'r \<Rightarrow> run_view" +
  fixes xinv :: "'x \<Rightarrow> bool"
  assumes xinv_exec: "xinv x \<Longrightarrow> xinv (snd (so_experiments S op x))"
    and get_cell_view: "view x (Inr c) = map_option content (so_get_cell S c x)"
    and get_run_view: "rinv r \<Longrightarrow> so_get_run S k r = None \<longleftrightarrow> map_of (rv_runs (rview r)) k = None"
    and acts: "cell_move op = Some (c, f) \<Longrightarrow> so_get_cell S c x = Some cell \<Longrightarrow> f cell = Inr cell' \<Longrightarrow> acted (fst (so_experiments S op x))"
    and published: "view (snd (so_experiments S (XPublish p cs) x)) (Inr c) = view x (Inr c) \<or>
      (\<exists>cell\<in>set cs. cell_id_of cell = c \<and>
         view (snd (so_experiments S (XPublish p cs) x)) (Inr c) = Some (content (dsetdefault ''allocation_status'' (PStr ''pending'') cell)))"
    and spec_only: "view (snd (so_experiments S (XPutSpec p) x)) (Inr c) = view x (Inr c)"
    and listed: "xinv x \<Longrightarrow> cell \<in> set (so_list_cells S e v x) \<longleftrightarrow> so_get_cell S (cell_id_of cell) x = Some cell \<and> cell_key cell = (e, v)"
    and keyed: "xinv x \<Longrightarrow> so_get_cell S c x = Some cell \<Longrightarrow> cell_id_of cell = c \<and> (\<exists>st. cell_status cell = PStr st)"
    and listed_once: "xinv x \<Longrightarrow> distinct (map cell_id_of (so_list_cells S e v x))"
begin

definition safe :: "('x, 'r) world \<Rightarrow> bool" where
  "safe w \<longleftrightarrow> xinv (w_experiments w) \<and> rinv (w_runs w) \<and>
     (\<forall>c v. view (w_experiments w) (Inr c) = Some v \<longrightarrow> cell_safe (rview (w_runs w)) c v)"

definition has_run :: "string \<Rightarrow> ('x, 'r) world \<Rightarrow> bool" where
  "has_run rid w \<longleftrightarrow> map_of (rv_runs (rview (w_runs w))) rid \<noteq> None"

lemma safe_exec:
  assumes "safe w" "bindable_call (rview (w_runs w)) op"
  shows "safe (w\<lparr>w_experiments := snd (so_experiments S op (w_experiments w)), w_crash := n\<rparr>)"
proof -
  let ?x = "w_experiments w" and ?rv = "rview (w_runs w)"
  have "cell_safe ?rv c v'" if v': "view (snd (so_experiments S op ?x)) (Inr c) = Some v'" for c v'
  proof (cases "view (snd (so_experiments S op ?x)) (Inr c) = view ?x (Inr c)")
    case True
    then show ?thesis using assms(1) v' by (simp add: safe_def)
  next
    case changed: False
    show ?thesis
    proof (rule cells.cell_step_cases [of op ?x "Inr c"])
      fix d f assume m: "Inr c = (Inr d :: experiment_key)" "cell_move op = Some (d, f)" "moves f (view ?x (Inr c)) (view (snd (so_experiments S op ?x)) (Inr c))"
      then obtain v where v: "view ?x (Inr c) = Some v" by (auto simp: moves_def)
      then have "cell_safe ?rv c v" using assms(1) by (simp add: safe_def)
      then show ?thesis using move_safe [of op c f v v' ?rv] m v v' assms(2) by simp
    next
      assume "cell_move op = None"
      then consider p cs where "op = XPublish p cs" | p where "op = XPutSpec p" | p where "op = XPutCell p" by (cases op) auto
      then show ?thesis
      proof cases
        case 1
        then obtain cell where "cell \<in> set cs" "cell_id_of cell = c" "v' = content (dsetdefault ''allocation_status'' (PStr ''pending'') cell)"
          using published [of p cs ?x c] changed v' by auto
        then show ?thesis using assms(2) 1 by (auto simp: bindable_call_def cell_safe_def dsetdefault_def content_def)
      qed (use spec_only [of _ ?x c] changed assms(2) in \<open>auto simp: bindable_call_def\<close>)
    qed (use changed in simp)
  qed
  then show ?thesis using assms(1) xinv_exec [of ?x op] by (simp add: safe_def)
qed

lemma view_le_run: "rinv r \<Longrightarrow> view_le (rview r) (rview (snd (so_runs S op r)))"
  using runs.exec_all_monotone [of r "[op]"] by (simp add: split_def)

lemma safe_run:
  assumes "safe w"
  shows "safe (w\<lparr>w_runs := snd (so_runs S op (w_runs w)), w_crash := n\<rparr>)"
  using assms view_le_run [of "w_runs w" op] runs.exec_inv [of "w_runs w" op] by (auto simp: safe_def intro: cell_safe_mono)

lemma has_run_mono: "safe w \<Longrightarrow> has_run rid w \<Longrightarrow> has_run rid (w\<lparr>w_runs := snd (so_runs S op (w_runs w)), w_crash := n\<rparr>)"
  using view_le_run [of "w_runs w" op] by (fastforce simp: safe_def has_run_def view_le_def)

text \<open>Effects on the stores keep the cells safe, also when the process dies.\<close>

lemma x_call_eq:
  "x_call S op w = (if w_crash w = Some 0 then (Inl Crashed, w)
     else (map_sum Raised id (fst (so_experiments S op (w_experiments w))),
           w\<lparr>w_experiments := snd (so_experiments S op (w_experiments w)), w_crash := map_option (\<lambda>n. n - 1) (w_crash w)\<rparr>))"
  by (auto simp: x_call_def effect_def split: prod.splits)

lemma r_call_eq:
  "r_call S op w = (if w_crash w = Some 0 then (Inl Crashed, w)
     else (map_sum Raised id (map_sum Plain id (fst (so_runs S op (w_runs w)))),
           w\<lparr>w_runs := snd (so_runs S op (w_runs w)), w_crash := map_option (\<lambda>n. n - 1) (w_crash w)\<rparr>))"
  by (auto simp: r_call_def effect_def split: prod.splits)

lemma keeps_x_call: "(\<And>rv. bindable_call rv op) \<Longrightarrow> keeps safe (x_call S op)"
  by (auto simp: keeps_def x_call_eq intro: safe_exec)

lemma keeps_r_call: "keeps safe (r_call S op)"
  by (auto simp: keeps_def r_call_eq intro: safe_run)

lemma keeps_bind_request [keeps_intros]: "keeps safe (bind_request k h ref)"
  by (auto simp: keeps_def bind_request_def effect_def safe_def split: option.splits)

lemma keeps_effects [keeps_intros]:
  "keeps safe (x_call S (XClaim c))" "keeps safe (x_call S (XFail c m))" "keeps safe (x_call S (XCancel c))"
  "keeps safe (x_call S (XReset c))" "keeps safe (x_call S (XCancelAllocated c))" "keeps safe (x_call S (XSupersede c r))"
  "keeps safe (r_call S op)"
  by (simp_all add: keeps_x_call bindable_call_def keeps_r_call)

text \<open>Creating a run: afterwards the run exists, also when the store refuses it as a duplicate.\<close>

lemma create_result:
  assumes "rinv r" "map_of run ''id'' = Some (PStr rid)" "rid \<noteq> []" "fst (so_runs S (OpCreate run ev) r) = Inl (RunConflictError m)"
  shows "map_of (rv_runs (rview r)) rid \<noteq> None"
proof -
  have "map_sum id ORun (fst (spec_create run ev (rview r))) = Inl (RunConflictError m)"
    using runs.exec_result [OF assms(1), of "OpCreate run ev"] assms(4) by (simp add: out_map_def)
  then have "fst (spec_create run ev (rview r)) = Inl (RunConflictError m)" by (simp only: map_sum_Inl_iff)
  then show ?thesis
    using assms(2)
    by (auto simp: spec_create_def res_bind_def new_run_def ditem_str_def stored_run_def validate_event_def spec_publish_def
        split: sum.splits if_splits option.splits prod.splits pyval.splits)
qed

lemma create_exists:
  assumes "rinv r" "map_of run ''id'' = Some (PStr rid)" "fst (so_runs S (OpCreate run ev) r) = Inr out"
  shows "map_of (rv_runs (rview (snd (so_runs S (OpCreate run ev) r)))) rid \<noteq> None"
proof -
  have s: "fst (spec_exec (OpCreate run ev) (rview r)) = Inr out" "rview (snd (so_runs S (OpCreate run ev) r)) = snd (spec_exec (OpCreate run ev) (rview r))"
    using runs.exec_result [OF assms(1), of "OpCreate run ev"] runs.exec_view [OF assms(1), of "OpCreate run ev"] assms(3) by simp_all
  show ?thesis unfolding s(2) using s(1) assms(2)
    by (auto simp: out_map_def spec_create_def res_bind_def new_run_def ditem_str_def stored_run_def validate_event_def spec_publish_def
        split: sum.splits if_splits option.splits prod.splits pyval.splits)
qed

definition made :: "string \<Rightarrow> svc_exn + 'a \<Rightarrow> ('x, 'r) world \<Rightarrow> bool" where
  "made rid r w \<longleftrightarrow> safe w \<and> (case r of Inr _ \<Rightarrow> has_run rid w | Inl (Raised e) \<Rightarrow> is_run_conflict e \<longrightarrow> has_run rid w | Inl Crashed \<Rightarrow> True)"

lemma made_simps:
  "made rid (Inr x) w \<longleftrightarrow> safe w \<and> has_run rid w" "made rid (Inl Crashed) w \<longleftrightarrow> safe w"
  "made rid (Inl (Raised e)) w \<longleftrightarrow> safe w \<and> (is_run_conflict e \<longrightarrow> has_run rid w)"
  by (simp_all add: made_def)

lemma made_r_create:
  assumes "map_of run ''id'' = Some (PStr rid)" "rid \<noteq> []"
  shows "ends safe (r_call S (OpCreate run ev)) (made rid)"
  unfolding ends_def
proof (intro allI impI)
  fix w assume w: "safe w"
  let ?r = "so_runs S (OpCreate run ev) (w_runs w)"
  have inv: "rinv (w_runs w)" using w by (simp add: safe_def)
  show "made rid (fst (r_call S (OpCreate run ev) w)) (snd (r_call S (OpCreate run ev) w))"
  proof (cases "w_crash w = Some 0")
    case False
    have safe': "safe (w\<lparr>w_runs := snd ?r, w_crash := map_option (\<lambda>n. n - 1) (w_crash w)\<rparr>)" by (rule safe_run [OF w])
    show ?thesis
    proof (cases "fst ?r")
      case (Inl e)
      have "has_run rid w" if "e = RunConflictError m" for m
        using create_result [OF inv assms, of ev m] Inl that by (simp add: has_run_def)
      then have "is_run_conflict (Plain e) \<longrightarrow> has_run rid (w\<lparr>w_runs := snd ?r, w_crash := map_option (\<lambda>n. n - 1) (w_crash w)\<rparr>)"
        using has_run_mono [OF w] by auto
      then show ?thesis using safe' Inl False by (simp add: r_call_eq made_simps)
    next
      case (Inr out)
      then show ?thesis using safe' False create_exists [OF inv assms(1) Inr] by (simp add: r_call_eq made_simps has_run_def)
    qed
  qed (use w in \<open>simp add: r_call_eq made_simps\<close>)
qed

lemma made_create_run:
  assumes "calls_quiet P" "rid \<noteq> []"
  shows "ends safe (create_run S P scenario p parent rid) (made rid)"
proof -
  have run: "ends safe (st_bind (svc_lift (sv_check_run P run)) (\<lambda>_. st_bind (r_call S (OpCreate run ev)) (\<lambda>_. svc_lift (sv_after_run P run)))) (made rid)"
    if "map_of run ''id'' = Some (PStr rid)" for run ev
  proof (rule ends_lift)
    show "ends safe (st_bind (r_call S (OpCreate run ev)) (\<lambda>_. svc_lift (sv_after_run P run))) (made rid)"
      by (rule ends_bind [OF made_r_create [OF that assms(2)]])
        (auto simp: ends_def svc_lift_def sop_simps made_simps made_def split: sum.splits svc_exn.splits)
  qed (use assms(1) in \<open>auto simp: calls_quiet_def made_simps\<close>)
  show ?thesis
    unfolding create_run_def Let_def
    by (cases "pp_manifest p")
      (auto intro!: ends_if ends_raise ends_lift run simp: made_simps, use assms(1) in \<open>auto simp: calls_quiet_def split: if_splits\<close>)
qed

lemma made_create_cell_run:
  assumes "calls_quiet P" "rid \<noteq> []"
  shows "ends safe (create_cell_run S P spec cell rid) (made rid)"
  unfolding create_cell_run_def
proof (intro ends_option ends_raise ends_lift)
  fix e w
  assume "(case dget cell ''prepared_run'' of PNone \<Rightarrow> sv_resolve P spec cell | PDict frozen \<Rightarrow> plain (frozen_input frozen)
    | _ \<Rightarrow> Inl (Plain (TypeError ''prepared_run''))) = Inl e" "safe w"
  then have "\<not> is_run_conflict e" "safe w"
    using assms(1)
    by (auto simp: calls_quiet_def plain_def frozen_input_def res_bind_def ditem_def py_iter_def
        split: pyval.splits sum.splits option.splits)
  then show "made rid (Inl (Raised e)) w" by (simp add: made_simps)
qed (use made_create_run [OF assms] in \<open>auto simp: made_simps\<close>)

text \<open>Every call of the service keeps the cells safe.\<close>

lemma keeps_fail [keeps_intros]: "keeps safe (fail_cell_safely S P c e)"
  unfolding fail_cell_safely_def by (intro keeps_intros)

lemma complete_safe:
  assumes "deterministic_run_id c = Inr rid"
  shows "ends (\<lambda>w. safe w \<and> has_run rid w) (complete_claimed_cell S c rid) (\<lambda>_. safe)"
proof -
  have "ends (\<lambda>w. safe w \<and> has_run rid w) (x_call S (XComplete c rid)) (\<lambda>_. safe)"
    using assms by (auto simp: ends_def x_call_eq has_run_def bindable_call_def intro: safe_exec)
  then show ?thesis unfolding complete_claimed_cell_def
    by (intro ends_try [where R = "\<lambda>_. safe"] ends_bind [where R = "\<lambda>_. safe"] ends_if ends_read ends_raise ends_option)
      (auto intro!: ends_return ends_raise)
qed

lemma deterministic_nonempty: "deterministic_run_id c = Inr rid \<Longrightarrow> rid \<noteq> []"
  by (auto simp: deterministic_run_id_def split: if_splits)

lemma keeps_claim_and_create [keeps_intros]:
  assumes "calls_quiet P"
  shows "keeps safe (claim_and_create S P spec cell)"
  unfolding claim_and_create_def
proof (rule keeps_bind [OF keeps_effects(1)], rule keeps_if, rule keeps_return)
  have "ends safe (st_bind (svc_try (st_bind (create_cell_run S P spec cell rid) (\<lambda>_. st_return None))
        (\<lambda>e. if is_run_conflict e then st_return None else st_bind (fail_cell_safely S P (cell_id_of cell) e) (\<lambda>_. st_return (Some e))))
      (\<lambda>failure. case failure of Some e \<Rightarrow> st_return (Failed e)
        | None \<Rightarrow> st_bind (complete_claimed_cell S (cell_id_of cell) rid) (\<lambda>done. st_return (if done then Allocated else Skipped)))) (\<lambda>_. safe)"
    if rid: "deterministic_run_id (cell_id_of cell) = Inr rid" for rid
  proof (rule ends_bind [where R = "\<lambda>r w. safe w \<and> (r = Inr None \<longrightarrow> has_run rid w)"])
    have create: "ends safe (st_bind (create_cell_run S P spec cell rid) (\<lambda>_. st_return None)) (made rid)"
      by (rule ends_bind [OF made_create_cell_run [OF assms deterministic_nonempty [OF rid]]])
        (auto simp: ends_def sop_simps made_simps made_def split: svc_exn.splits)
    have fail: "ends (made rid (Inl (Raised e))) (fail_cell_safely S P (cell_id_of cell) e) (\<lambda>_. safe)" for e
      by (rule ends_weaken [OF keeps_fail [unfolded ends_keeps]]) (auto simp: made_simps)
    show "ends safe (svc_try (st_bind (create_cell_run S P spec cell rid) (\<lambda>_. st_return None))
        (\<lambda>e. if is_run_conflict e then st_return None else st_bind (fail_cell_safely S P (cell_id_of cell) e) (\<lambda>_. st_return (Some e))))
      (\<lambda>r w. safe w \<and> (r = Inr None \<longrightarrow> has_run rid w))"
      by (intro ends_try [OF create] ends_if ends_bind [where R = "\<lambda>_. safe"] ends_return fail) (auto simp: made_simps)
    show "ends (\<lambda>w. safe w \<and> (Inr failure = Inr None \<longrightarrow> has_run rid w)) (case failure of Some e \<Rightarrow> st_return (Failed e)
        | None \<Rightarrow> st_bind (complete_claimed_cell S (cell_id_of cell) rid) (\<lambda>done. st_return (if done then Allocated else Skipped))) (\<lambda>_. safe)" for failure
      using complete_safe [OF rid] by (cases failure) (auto intro!: ends_bind [where R = "\<lambda>_. safe"] ends_return)
  qed auto
  then show "keeps safe (st_bind (svc_lift (deterministic_run_id (cell_id_of cell))) (\<lambda>run_id. st_bind (svc_try
      (st_bind (create_cell_run S P spec cell run_id) (\<lambda>_. st_return None))
        (\<lambda>e. if is_run_conflict e then st_return None else st_bind (fail_cell_safely S P (cell_id_of cell) e) (\<lambda>_. st_return (Some e))))
      (\<lambda>failure. case failure of None \<Rightarrow> st_bind (complete_claimed_cell S (cell_id_of cell) run_id) (\<lambda>done. st_return (if done then Allocated else Skipped))
        | Some e \<Rightarrow> st_return (Failed e))))"
    unfolding ends_keeps by (intro ends_lift) auto
qed

lemma keeps_allocate_one [keeps_intros]:
  assumes "calls_quiet P"
  shows "keeps safe (allocate_one S P spec cell)"
  unfolding allocate_one_def
proof (intro keeps_if keeps_return keeps_claim_and_create assms)
  have "ends (\<lambda>w. safe w \<and> so_get_run S rid (w_runs w) = run) (if run \<noteq> None then
      st_bind (complete_claimed_cell S (cell_id_of cell) rid) (\<lambda>done. st_return (if done then Allocated else Skipped))
    else st_bind (x_call S (XReset (cell_id_of cell))) (\<lambda>_. claim_and_create S P spec cell)) (\<lambda>_. safe)"
    if rid: "deterministic_run_id (cell_id_of cell) = Inr rid" for rid run
  proof (rule ends_if)
    assume "run \<noteq> None"
    then have "ends (\<lambda>w. safe w \<and> so_get_run S rid (w_runs w) = run) (complete_claimed_cell S (cell_id_of cell) rid) (\<lambda>_. safe)"
      by (intro ends_weaken [OF complete_safe [OF rid]]) (auto simp: safe_def has_run_def simp flip: get_run_view)
    then show "ends (\<lambda>w. safe w \<and> so_get_run S rid (w_runs w) = run)
      (st_bind (complete_claimed_cell S (cell_id_of cell) rid) (\<lambda>done. st_return (if done then Allocated else Skipped))) (\<lambda>_. safe)"
      by (rule ends_bind) (auto intro: ends_return)
  next
    have "keeps safe (st_bind (x_call S (XReset (cell_id_of cell))) (\<lambda>_. claim_and_create S P spec cell))" by (intro keeps_intros assms)
    then show "ends (\<lambda>w. safe w \<and> so_get_run S rid (w_runs w) = run)
      (st_bind (x_call S (XReset (cell_id_of cell))) (\<lambda>_. claim_and_create S P spec cell)) (\<lambda>_. safe)"
      unfolding ends_keeps by (rule ends_weaken) auto
  qed
  then show "keeps safe (st_bind (svc_lift (deterministic_run_id (cell_id_of cell))) (\<lambda>run_id. st_bind (st_get (\<lambda>w. so_get_run S run_id (w_runs w)))
    (\<lambda>run. if run \<noteq> None then st_bind (complete_claimed_cell S (cell_id_of cell) run_id) (\<lambda>done. st_return (if done then Allocated else Skipped))
      else st_bind (x_call S (XReset (cell_id_of cell))) (\<lambda>_. claim_and_create S P spec cell))))"
    unfolding ends_keeps by (intro ends_lift ends_read) auto
qed

lemma keeps_allocate [keeps_intros]: "calls_quiet P \<Longrightarrow> keeps safe (allocate_locked S P e v)"
  unfolding allocate_locked_def by (intro keeps_intros)

lemma bound_cell_pending:
  assumes "prefixed_hash P"
  shows "bindable_call rv (XPublish p (map (bound_cell P spec compiled h) cs))"
proof -
  have "CHR '':'' \<in> set (cell_id_of (bound_cell P spec compiled h c))" "map_of (bound_cell P spec compiled h c) ''run_id'' = Some PNone"
    "map_of (bound_cell P spec compiled h c) ''allocation_status'' = Some (PStr ''pending'')" for c
    using assms by (simp_all add: bound_cell_def Let_def map_of_od_merge cell_id_of_def dstr_def dget_def cell_payload_def compute_cell_id_def prefixed_hash_def)
  then show ?thesis by (simp add: bindable_call_def)
qed

lemma keeps_create [keeps_intros]: "calls_quiet P \<Longrightarrow> prefixed_hash P \<Longrightarrow> keeps safe (create_locked S P payload key h)"
  unfolding create_locked_def replay_creation_def fresh_creation_def
  by (intro keeps_intros keeps_x_call bound_cell_pending) (auto intro!: keeps_intros split: store_exn.splits)

lemma keeps_cancel [keeps_intros]: "keeps safe (cancel_experiment S P e v reason)"
  unfolding cancel_experiment_def cancel_one_def cancel_owned_run_def
  by (intro keeps_intros) (auto intro!: keeps_intros split: prod.splits)

lemma keeps_retry [keeps_intros]: "keeps safe (retry_cell S P c)"
  unfolding retry_cell_def create_run_def Let_def
  by (intro keeps_intros) (auto intro!: keeps_intros split: prod.splits pyval.splits)

lemma safe_crash [simp]: "safe (w\<lparr>w_crash := n\<rparr>) \<longleftrightarrow> safe w"
  by (simp add: safe_def)

lemma script_safe: "script_quiet script \<Longrightarrow> safe w \<Longrightarrow> safe (svc_script S script w)"
proof (induction script arbitrary: w)
  case (Cons step script)
  obtain P n call where step: "step = (P, n, call)" by (cases step)
  have P: "calls_quiet P" "prefixed_hash P" using Cons.prems(1) by (simp_all add: script_quiet_def step)
  have "keeps safe (svc_run S P call)" by (cases call) (auto simp: svc_run_def intro!: keeps_intros P)
  then have "safe (svc_step S step w)" using Cons.prems(2) by (simp add: step keeps_def)
  then show ?case using Cons by (simp add: svc_script_def script_quiet_def)
qed (simp add: svc_script_def)

section \<open>Recovery\<close>

text \<open>The process does not die, and the cells are \<open>V\<close>.\<close>

definition calm :: "(experiment_key \<Rightarrow> (string \<Rightarrow> pyval option) option) \<Rightarrow> ('x, 'r) world \<Rightarrow> bool" where
  "calm V w \<longleftrightarrow> safe w \<and> w_crash w = None \<and> view (w_experiments w) = V"

lemma move_acts:
  assumes "cell_move op = Some (c, f)" "view x (Inr c) = Some v" "\<And>cell. content cell = v \<Longrightarrow> \<exists>cell'. f cell = Inr cell'"
  shows "acted (fst (so_experiments S op x))"
    "\<exists>cell cell'. content cell = v \<and> f cell = Inr cell' \<and> view (snd (so_experiments S op x)) = (view x)(Inr c \<mapsto> content cell')"
proof -
  obtain cell where "so_get_cell S c x = Some cell" "content cell = v" using assms(2) by (auto simp: get_cell_view)
  then show a: "acted (fst (so_experiments S op x))" using acts [OF assms(1)] assms(3) by blast
  obtain old new where m: "content old = v" "f old = Inr new" "view (snd (so_experiments S op x)) (Inr c) = Some (content new)"
    using cells.moved [OF assms(1) a] assms(2) by (auto simp: moves_def)
  have "view (snd (so_experiments S op x)) k = view x k" if "k \<noteq> Inr c" for k using cells.still [OF assms(1)] that by blast
  then have "view (snd (so_experiments S op x)) = (view x)(Inr c \<mapsto> content new)" using m(3) by (auto simp: fun_eq_iff)
  then show "\<exists>cell cell'. content cell = v \<and> f cell = Inr cell' \<and> view (snd (so_experiments S op x)) = (view x)(Inr c \<mapsto> content cell')"
    using m(1,2) by blast
qed

lemma calm_move:
  assumes "cell_move op = Some (c, f)" "V (Inr c) = Some v" "\<And>cell. content cell = v \<Longrightarrow> \<exists>cell'. f cell = Inr cell'"
    "\<And>w. calm V w \<Longrightarrow> R w \<Longrightarrow> bindable_call (rview (w_runs w)) op"
  shows "ends (\<lambda>w. calm V w \<and> R w) (x_call S op)
    (\<lambda>r w. \<exists>out cell cell'. r = Inr out \<and> acted r \<and> content cell = v \<and> f cell = Inr cell' \<and> calm (V(Inr c \<mapsto> content cell')) w)"
  unfolding ends_def
proof (intro allI impI)
  fix w assume w: "calm V w \<and> R w"
  let ?e = "so_experiments S op (w_experiments w)"
  have v: "view (w_experiments w) (Inr c) = Some v" using w assms(2) by (simp add: calm_def)
  obtain out where out: "fst ?e = Inr out" "acted (fst ?e)" using move_acts(1) [OF assms(1) v assms(3)] by (cases "fst ?e") auto
  have "safe (w\<lparr>w_experiments := snd ?e, w_crash := None\<rparr>)" using w assms(4) [of w] by (intro safe_exec) (auto simp: calm_def)
  then show "\<exists>out cell cell'. fst (x_call S op w) = Inr out \<and> acted (fst (x_call S op w)) \<and> content cell = v \<and> f cell = Inr cell' \<and>
      calm (V(Inr c \<mapsto> content cell')) (snd (x_call S op w))"
    using out w move_acts(2) [OF assms(1) v assms(3)] by (cases out) (auto simp: x_call_eq calm_def)
qed

definition moved_to :: "(experiment_key \<Rightarrow> (string \<Rightarrow> pyval option) option) \<Rightarrow> string \<Rightarrow> string \<Rightarrow> svc_exn + experiment_out \<Rightarrow> ('x, 'r) world \<Rightarrow> bool" where
  "moved_to V c st r w \<longleftrightarrow> (\<exists>out v'. r = Inr out \<and> acted r \<and> v' ''allocation_status'' = Some (PStr st) \<and> calm (V(Inr c \<mapsto> v')) w)"

lemma calm_moved:
  assumes "cell_move op = Some (c, f)" "V (Inr c) = Some v" "v ''allocation_status'' = Some (PStr old)"
    "\<And>cell. cell_status cell = PStr old \<Longrightarrow> \<exists>cell'. f cell = Inr cell' \<and> content cell' ''allocation_status'' = Some (PStr new)"
    "\<And>w. calm V w \<Longrightarrow> R w \<Longrightarrow> bindable_call (rview (w_runs w)) op"
  shows "ends (\<lambda>w. calm V w \<and> R w) (x_call S op) (moved_to V c new)"
proof (rule ends_weaken [OF calm_move [of op c f V v R, OF assms(1,2)]])
  have status: "cell_status cell = PStr old" if "content cell = v" for cell using assms(3) that content_status by blast
  show "\<exists>cell'. f cell = Inr cell'" if "content cell = v" for cell using assms(4) [OF status [OF that]] by blast
  fix r :: "svc_exn + experiment_out" and w assume "\<exists>out cell cell'. r = Inr out \<and> acted r \<and> content cell = v \<and> f cell = Inr cell' \<and> calm (V(Inr c \<mapsto> content cell')) w"
  then show "moved_to V c new r w" unfolding moved_to_def using assms(4) status by (metis Inr_inject)
qed (use assms(5) in auto)

text \<open>Creating a run leaves the cells alone.\<close>

definition calmly :: "('x, 'r, 'a) svc \<Rightarrow> bool" where
  "calmly m \<longleftrightarrow> (\<forall>V. ends (calm V) m (\<lambda>r w. calm V w \<and> r \<noteq> Inl Crashed))"

lemma calmly_bind: "calmly m \<Longrightarrow> (\<And>x. calmly (f x)) \<Longrightarrow> calmly (st_bind m f)"
  unfolding calmly_def
proof (intro allI)
  fix V assume m: "\<forall>V. ends (calm V) m (\<lambda>r w. calm V w \<and> r \<noteq> Inl Crashed)" and f: "\<And>x. \<forall>V. ends (calm V) (f x) (\<lambda>r w. calm V w \<and> r \<noteq> Inl Crashed)"
  show "ends (calm V) (st_bind m f) (\<lambda>r w. calm V w \<and> r \<noteq> Inl Crashed)"
    by (rule ends_bind [OF m [rule_format]]) (auto intro: ends_weaken [OF f [rule_format]])
qed

lemma calmly_lift: "calmly (svc_lift r)"
  by (cases r) (auto simp: calmly_def ends_def svc_lift_def sop_simps)

lemma calmly_raise: "calmly (st_raise (Raised e))"
  by (auto simp: calmly_def ends_def sop_simps)

lemma calmly_return: "calmly (st_return x)"
  by (auto simp: calmly_def ends_def sop_simps)

lemma calmly_r_call: "calmly (r_call S op)"
proof -
  have "safe (w\<lparr>w_runs := snd (so_runs S op (w_runs w)), w_crash := None\<rparr>)" if "safe w" for w using safe_run [OF that] .
  then show ?thesis
    by (auto simp: calmly_def ends_def r_call_eq calm_def)
      (metis Inr_not_Inl map_sum.simps(1) map_sum.simps(2) obj_sumE svc_exn.distinct(1) sum.inject(1))
qed

lemma calmly_create_cell_run: "calmly (create_cell_run S P spec cell rid)"
  unfolding create_cell_run_def create_run_def Let_def
  by (auto intro!: calmly_bind calmly_lift calmly_raise calmly_r_call split: option.splits pyval.splits)

definition settles :: "(experiment_key \<Rightarrow> (string \<Rightarrow> pyval option) option) \<Rightarrow> string \<Rightarrow> (string \<Rightarrow> pyval option) \<Rightarrow> svc_exn + allocation_outcome \<Rightarrow> ('x, 'r) world \<Rightarrow> bool" where
  "settles V c v r w \<longleftrightarrow> (\<exists>out v'. r = Inr out \<and> settled_as out v v' \<and> calm (V(Inr c \<mapsto> v')) w)"

lemma settles_open: "is_open v1 \<Longrightarrow> is_open v \<Longrightarrow> settles (V(Inr c \<mapsto> v1)) c v1 r w \<Longrightarrow> settles V c v r w"
  by (fastforce simp: settles_def settled_as_def split: allocation_outcome.splits)

lemma calm_complete:
  assumes "deterministic_run_id c = Inr rid" "V (Inr c) = Some v" "v ''allocation_status'' = Some (PStr ''allocating'')"
  shows "ends (\<lambda>w. calm V w \<and> has_run rid w) (st_bind (complete_claimed_cell S c rid) (\<lambda>done. st_return (if done then Allocated else Skipped))) (settles V c v)"
proof -
  let ?Q = "\<lambda>r w. r = Inr True \<and> (\<exists>v'. v' ''allocation_status'' = Some (PStr ''allocated'') \<and> calm (V(Inr c \<mapsto> v')) w)"
  have "ends (\<lambda>w. calm V w \<and> has_run rid w) (x_call S (XComplete c rid)) (moved_to V c ''allocated'')"
    by (rule calm_moved [where v = v]) (use assms in \<open>auto simp: complete_mutate_def set_status_def dict_simps bindable_call_def has_run_def\<close>)
  then have "ends (\<lambda>w. calm V w \<and> has_run rid w) (st_bind (x_call S (XComplete c rid)) (\<lambda>_. st_return True)) ?Q"
    by (rule ends_bind) (auto simp: ends_def sop_simps moved_to_def)
  then have "ends (\<lambda>w. calm V w \<and> has_run rid w) (complete_claimed_cell S c rid) ?Q"
    unfolding complete_claimed_cell_def by (rule ends_try) (auto simp: ends_def)
  then show ?thesis
    by (rule ends_bind) (use assms in \<open>auto simp: ends_def sop_simps settles_def settled_as_def is_open_def\<close>)
qed

lemma calm_fail:
  assumes "V (Inr c) = Some v" "v ''allocation_status'' = Some (PStr ''allocating'')"
  shows "ends (calm V) (fail_cell_safely S P c e)
    (\<lambda>r w. r = Inr () \<and> (\<exists>v'. v' ''allocation_status'' = Some (PStr ''failed'') \<and> calm (V(Inr c \<mapsto> v')) w))"
proof -
  have "ends (\<lambda>w. calm V w \<and> True) (x_call S (XFail c (sv_str P e))) (moved_to V c ''failed'')"
    by (rule calm_moved [where v = v]) (use assms in \<open>auto simp: fail_mutate_def set_status_def dict_simps bindable_call_def\<close>)
  then have "ends (calm V) (st_bind (x_call S (XFail c (sv_str P e))) (\<lambda>_. st_return ()))
      (\<lambda>r w. r = Inr () \<and> (\<exists>v'. v' ''allocation_status'' = Some (PStr ''failed'') \<and> calm (V(Inr c \<mapsto> v')) w))"
    unfolding simp_thms by (rule ends_bind) (auto simp: ends_def sop_simps moved_to_def)
  then show ?thesis unfolding fail_cell_safely_def by (rule ends_try) (auto simp: ends_def)
qed

lemma calm_claim_and_create:
  assumes "calls_quiet P" "deterministic_run_id (cell_id_of cell) = Inr rid" "V (Inr (cell_id_of cell)) = Some v"
    "v ''allocation_status'' = Some (PStr ''pending'')"
  shows "ends (calm V) (claim_and_create S P spec cell) (settles V (cell_id_of cell) v)"
proof -
  let ?c = "cell_id_of cell"
  have "ends (\<lambda>w. calm V w \<and> True) (x_call S (XClaim ?c)) (moved_to V ?c ''allocating'')"
    by (rule calm_moved [where v = v]) (use assms(3,4) in \<open>auto simp: claim_mutate_def set_status_def dict_simps bindable_call_def\<close>)
  then have claim: "ends (calm V) (x_call S (XClaim ?c)) (moved_to V ?c ''allocating'')" by simp
  have rest: "ends (calm V1) (st_bind (svc_try (st_bind (create_cell_run S P spec cell rid) (\<lambda>_. st_return None))
        (\<lambda>e. if is_run_conflict e then st_return None else st_bind (fail_cell_safely S P ?c e) (\<lambda>_. st_return (Some e))))
      (\<lambda>failure. case failure of Some e \<Rightarrow> st_return (Failed e)
        | None \<Rightarrow> st_bind (complete_claimed_cell S ?c rid) (\<lambda>done. st_return (if done then Allocated else Skipped)))) (settles V ?c v)"
    if V1: "V1 = V(Inr ?c \<mapsto> v1)" and v1: "v1 ''allocation_status'' = Some (PStr ''allocating'')" for V1 v1
  proof -
    define mid where "mid = (\<lambda>(r :: svc_exn + store_exn option) w. r = Inr None \<and> calm V1 w \<and> has_run rid w \<or>
      (\<exists>e v2. r = Inr (Some e) \<and> v2 ''allocation_status'' = Some (PStr ''failed'') \<and> calm (V(Inr ?c \<mapsto> v2)) w))"
    have created: "ends (calm V1) (st_bind (create_cell_run S P spec cell rid) (\<lambda>_. st_return (None :: store_exn option)))
        (\<lambda>r w. calm V1 w \<and> r \<noteq> Inl Crashed \<and> made rid r w \<and> (\<forall>x. r = Inr x \<longrightarrow> x = None))"
    proof (rule ends_bind [where R = "\<lambda>r w. calm V1 w \<and> r \<noteq> Inl Crashed \<and> made rid r w"])
      show "ends (calm V1) (create_cell_run S P spec cell rid) (\<lambda>r w. calm V1 w \<and> r \<noteq> Inl Crashed \<and> made rid r w)"
        using calmly_create_cell_run [of P spec cell rid] made_create_cell_run [OF assms(1) deterministic_nonempty [OF assms(2)], of spec cell]
        by (auto simp: ends_def calmly_def calm_def)
    qed (auto simp: ends_def sop_simps made_simps made_def split: svc_exn.splits)
    have fail: "ends (calm V1) (st_bind (fail_cell_safely S P ?c e) (\<lambda>_. st_return (Some e))) mid" for e
      by (rule ends_bind [OF calm_fail [of V1 ?c v1]]) (auto simp: V1 v1 ends_def sop_simps mid_def)
    have "ends (calm V1) (svc_try (st_bind (create_cell_run S P spec cell rid) (\<lambda>_. st_return None))
        (\<lambda>e. if is_run_conflict e then st_return None else st_bind (fail_cell_safely S P ?c e) (\<lambda>_. st_return (Some e)))) mid"
      by (rule ends_try [OF created]) (auto intro!: ends_if ends_return ends_weaken [OF fail] simp: made_simps mid_def)
    then show ?thesis
    proof (rule ends_bind)
      fix failure
      show "ends (mid (Inr failure)) (case failure of Some e \<Rightarrow> st_return (Failed e)
        | None \<Rightarrow> st_bind (complete_claimed_cell S ?c rid) (\<lambda>done. st_return (if done then Allocated else Skipped))) (settles V ?c v)"
      proof (cases failure)
        case None
        have "ends (\<lambda>w. calm V1 w \<and> has_run rid w) (st_bind (complete_claimed_cell S ?c rid) (\<lambda>done. st_return (if done then Allocated else Skipped)))
            (settles V ?c v)"
          by (rule ends_weaken [OF calm_complete [OF assms(2), of V1 v1]])
            (use assms(4) v1 in \<open>auto simp: V1 is_open_def intro: settles_open [of v1]\<close>)
        then show ?thesis by (simp add: None mid_def)
      next
        case (Some e)
        then show ?thesis using assms(4) by (auto simp: mid_def ends_def sop_simps settles_def settled_as_def is_open_def)
      qed
    qed (auto simp: mid_def)
  qed
  show ?thesis
    unfolding claim_and_create_def
    by (rule ends_bind [OF claim]) (use rest assms(2) in \<open>auto simp: moved_to_def ends_def svc_lift_def st_bind_def sop_simps\<close>)
qed

lemma calm_allocate_one:
  assumes "calls_quiet P" "deterministic_run_id (cell_id_of cell) = Inr rid" "V (Inr (cell_id_of cell)) = Some (content cell)"
    "cell_status cell = PStr st"
  shows "ends (calm V) (allocate_one S P spec cell) (settles V (cell_id_of cell) (content cell))"
proof -
  let ?c = "cell_id_of cell" and ?v = "content cell"
  have status: "cell_status_in cell names \<longleftrightarrow> st \<in> set names" for names
    using assms(4) by (auto simp: cell_status_in_def list_ex_iff dget_default_def dget_def split: option.splits)
  have v: "?v ''allocation_status'' = Some (PStr st)" using assms(4) by (simp add: content_status)
  have skipped: "ends (calm V) (st_return Skipped) (settles V ?c ?v)" if "st \<notin> {''pending'', ''allocating''}"
    using that v assms(3) by (auto simp: ends_def sop_simps settles_def settled_as_def is_open_def calm_def fun_upd_idem)
  consider "st = ''pending''" | "st = ''allocating''" | "st \<notin> {''pending'', ''allocating''}" by blast
  then show ?thesis
  proof cases
    case 1
    then show ?thesis using calm_claim_and_create [of P cell rid V ?v spec] assms v by (simp add: allocate_one_def status)
  next
    case 2
    have finished: "ends (\<lambda>w. calm V w \<and> so_get_run S rid (w_runs w) = Some run)
        (st_bind (complete_claimed_cell S ?c rid) (\<lambda>done. st_return (if done then Allocated else Skipped))) (settles V ?c ?v)" for run
      by (rule ends_weaken [OF calm_complete [where V = V and v = ?v, OF assms(2,3)]]) (use v 2 in \<open>auto simp: calm_def safe_def has_run_def simp flip: get_run_view\<close>)
    have "ends (\<lambda>w. calm V w \<and> True) (x_call S (XReset ?c)) (moved_to V ?c ''pending'')"
      by (rule calm_moved [where v = ?v]) (use assms(3) v 2 in \<open>auto simp: reset_mutate_def set_status_def dict_simps bindable_call_def\<close>)
    then have "ends (calm V) (x_call S (XReset ?c)) (moved_to V ?c ''pending'')" by simp
    then have "ends (calm V) (st_bind (x_call S (XReset ?c)) (\<lambda>_. claim_and_create S P spec cell)) (settles V ?c ?v)"
    proof (rule ends_bind)
      show "ends (moved_to V ?c ''pending'' (Inr out)) (claim_and_create S P spec cell) (settles V ?c ?v)" for out
        unfolding ends_def
      proof (intro allI impI)
        fix w assume "moved_to V ?c ''pending'' (Inr out) w"
        then obtain v1 where v1: "v1 ''allocation_status'' = Some (PStr ''pending'')" "calm (V(Inr ?c \<mapsto> v1)) w" by (auto simp: moved_to_def)
        show "settles V ?c ?v (fst (claim_and_create S P spec cell w)) (snd (claim_and_create S P spec cell w))"
          using endsD [OF calm_claim_and_create [of P cell rid "V(Inr ?c \<mapsto> v1)" v1 spec, OF assms(1,2) _ v1(1)] v1(2)] v v1(1) 2
          by (auto intro: settles_open [of v1] simp: is_open_def)
      qed
    qed (simp add: moved_to_def)
    then have reset: "ends (\<lambda>w. calm V w \<and> so_get_run S rid (w_runs w) = None)
        (st_bind (x_call S (XReset ?c)) (\<lambda>_. claim_and_create S P spec cell)) (settles V ?c ?v)"
      by (rule ends_weaken) auto
    have "ends (calm V) (st_bind (st_get (\<lambda>w. so_get_run S rid (w_runs w))) (\<lambda>run. if run \<noteq> None
        then st_bind (complete_claimed_cell S ?c rid) (\<lambda>done. st_return (if done then Allocated else Skipped))
        else st_bind (x_call S (XReset ?c)) (\<lambda>_. claim_and_create S P spec cell))) (settles V ?c ?v)"
      by (intro ends_read ends_if) (use reset finished in auto)
    then show ?thesis by (simp add: allocate_one_def status 2 assms(2) svc_lift_def st_bind_def sop_simps ends_def)
  next
    case 3
    then show ?thesis using skipped by (simp add: allocate_one_def status)
  qed
qed

text \<open>The cells of \<open>V'\<close> after the listed ones were processed.\<close>

definition settled_all :: "pydict list \<Rightarrow> (string \<times> allocation_outcome) list \<Rightarrow> (experiment_key \<Rightarrow> (string \<Rightarrow> pyval option) option) \<Rightarrow>
    (experiment_key \<Rightarrow> (string \<Rightarrow> pyval option) option) \<Rightarrow> bool" where
  "settled_all cells outs V V' \<longleftrightarrow> (\<forall>k. (\<forall>cell\<in>set cells. k \<noteq> Inr (cell_id_of cell)) \<longrightarrow> V' k = V k) \<and>
     list_all2 (\<lambda>cell (c, out). c = cell_id_of cell \<and> (\<exists>v'. V' (Inr c) = Some v' \<and> settled_as out (content cell) v')) cells outs"

lemma calm_allocate_all:
  assumes "calls_quiet P" "distinct (map cell_id_of cells)"
    "\<And>cell. cell \<in> set cells \<Longrightarrow> V (Inr (cell_id_of cell)) = Some (content cell) \<and> CHR '':'' \<in> set (cell_id_of cell) \<and> (\<exists>st. cell_status cell = PStr st)"
  shows "ends (calm V) (st_map (\<lambda>cell. st_bind (allocate_one S P spec cell) (\<lambda>x. st_return (cell_id_of cell, x))) cells)
    (\<lambda>r w. \<exists>outs V'. r = Inr outs \<and> settled_all cells outs V V' \<and> calm V' w)"
  using assms(2,3)
proof (induction cells arbitrary: V)
  case Nil
  then show ?case by (auto simp: ends_def sop_simps settled_all_def)
next
  case (Cons cell cells)
  let ?c = "cell_id_of cell" and ?g = "\<lambda>cell. st_bind (allocate_one S P spec cell) (\<lambda>x. st_return (cell_id_of cell, x))"
  obtain st where cell: "V (Inr ?c) = Some (content cell)" "CHR '':'' \<in> set ?c" "cell_status cell = PStr st" using Cons.prems(2) [of cell] by auto
  obtain rid where rid: "deterministic_run_id ?c = Inr rid" using cell(2) by (simp add: deterministic_run_id_def)
  have "\<exists>outs V'. fst (st_map ?g (cell # cells) w) = Inr outs \<and> settled_all (cell # cells) outs V V' \<and> calm V' (snd (st_map ?g (cell # cells) w))"
    if w: "calm V w" for w
  proof -
    obtain out v1 w1 where one: "allocate_one S P spec cell w = (Inr out, w1)" "settled_as out (content cell) v1" "calm (V(Inr ?c \<mapsto> v1)) w1"
      using endsD [OF calm_allocate_one [where V = V and spec = spec, OF assms(1) rid cell(1,3)] w] by (cases "allocate_one S P spec cell w") (auto simp: settles_def)
    have rest: "ends (calm (V(Inr ?c \<mapsto> v1))) (st_map ?g cells) (\<lambda>r w. \<exists>outs V'. r = Inr outs \<and> settled_all cells outs (V(Inr ?c \<mapsto> v1)) V' \<and> calm V' w)"
    proof (rule Cons.IH)
      show "distinct (map cell_id_of cells)" using Cons.prems(1) by simp
      fix d assume d: "d \<in> set cells"
      then have "cell_id_of d \<noteq> ?c" using Cons.prems(1) by (metis distinct.simps(2) image_eqI list.set_map list.simps(9))
      then show "(V(Inr ?c \<mapsto> v1)) (Inr (cell_id_of d)) = Some (content d) \<and> CHR '':'' \<in> set (cell_id_of d) \<and> (\<exists>st. cell_status d = PStr st)"
        using Cons.prems(2) [of d] d by simp
    qed
    obtain outs V' w2 where outs: "st_map ?g cells w1 = (Inr outs, w2)" "settled_all cells outs (V(Inr ?c \<mapsto> v1)) V'" "calm V' w2"
      using endsD [OF rest one(3)] by (cases "st_map ?g cells w1") auto
    have "\<forall>d\<in>set cells. Inr ?c \<noteq> (Inr (cell_id_of d) :: experiment_key)" using Cons.prems(1) by (metis distinct.simps(2) image_eqI list.set_map list.simps(9) sum.inject(2))
    then have "V' (Inr ?c) = Some v1" using outs(2) by (simp add: settled_all_def)
    then have "settled_all (cell # cells) ((?c, out) # outs) V V'" using outs(2) one(2) by (auto simp: settled_all_def)
    moreover have "st_map ?g (cell # cells) w = (Inr ((?c, out) # outs), w2)" by (simp add: st_bind_def one(1) outs(1) sop_simps)
    ultimately show ?thesis using outs(3) by auto
  qed
  then show ?case by (auto simp: ends_def)
qed

lemma dstr_content: "dstr d k = (case content d k of Some (PStr s) \<Rightarrow> s | _ \<Rightarrow> [])"
proof (cases "map_of d k")
  case (Some v)
  then show ?thesis by (cases v) (simp_all add: dstr_def dget_def content_def)
qed (simp add: dstr_def dget_def content_def)

lemma content_strings: "content a = content b \<Longrightarrow> dstr a k = dstr b k"
  by (simp add: dstr_content)

text \<open>
  An allocation that is admitted and not interrupted returns, and settles every cell of the experiment: an
  open cell is allocated to its run or failed, every other cell stays as it is.
\<close>

lemma allocation_settles:
  assumes "calls_quiet P" "safe w" "w_crash w = None" "so_get_spec S e v (w_experiments w) = Some payload" "sv_parse P payload = Inr spec"
    "validate_allocation_inputs S P spec w = Inr ()"
  shows "\<exists>a w'. allocate_locked S P e v w = (Inr a, w') \<and> safe w' \<and> settled_all (so_list_cells S e v (w_experiments w)) (al_outcomes a)
    (view (w_experiments w)) (view (w_experiments w'))"
proof -
  let ?cells = "so_list_cells S e v (w_experiments w)"
  have inv: "xinv (w_experiments w)" using assms(2) by (simp add: safe_def)
  have cells: "view (w_experiments w) (Inr (cell_id_of cell)) = Some (content cell) \<and> CHR '':'' \<in> set (cell_id_of cell) \<and> (\<exists>st. cell_status cell = PStr st)"
    if "cell \<in> set ?cells" for cell
    using listed [OF inv, of cell e v] that keyed [OF inv, of "cell_id_of cell" cell] assms(2) by (auto simp: get_cell_view safe_def cell_safe_def)
  have "calm (view (w_experiments w)) w" using assms(2,3) by (simp add: calm_def)
  from endsD [OF calm_allocate_all [where spec = spec, OF assms(1) listed_once [OF inv, of e v] cells] this] obtain outs w' where
    "st_map (\<lambda>cell. st_bind (allocate_one S P spec cell) (\<lambda>x. st_return (cell_id_of cell, x))) ?cells w = (Inr outs, w')"
    "settled_all ?cells outs (view (w_experiments w)) (view (w_experiments w'))" "safe w'"
    by (cases "st_map (\<lambda>cell. st_bind (allocate_one S P spec cell) (\<lambda>x. st_return (cell_id_of cell, x))) ?cells w") (auto simp: calm_def)
  then show ?thesis using assms(4-6) by (simp add: allocate_locked_def st_bind_def svc_lift_def sop_simps)
qed

lemma none_open:
  assumes "safe w" "safe w'" "settled_all (so_list_cells S e v (w_experiments w)) outs (view (w_experiments w)) (view (w_experiments w'))"
    "so_get_cell S c (w_experiments w') = Some cell" "cell_key cell = (e, v)"
  shows "\<not> is_open (content cell)"
proof (cases "c \<in> cell_id_of ` set (so_list_cells S e v (w_experiments w))")
  case True
  then obtain old where old: "old \<in> set (so_list_cells S e v (w_experiments w))" "cell_id_of old = c" by blast
  obtain out v' where "view (w_experiments w') (Inr c) = Some v'" "settled_as out (content old) v'"
    using list_all2_mem [OF assms(3) [unfolded settled_all_def, THEN conjunct2] old(1)] old(2) by auto
  then show ?thesis using settled_closed assms(4) by (simp add: get_cell_view)
next
  case False
  have inv: "xinv (w_experiments w)" using assms(1) by (simp add: safe_def)
  have "view (w_experiments w) (Inr c) = Some (content cell)"
    using assms(3) [unfolded settled_all_def, THEN conjunct1, rule_format, of "Inr c"] False assms(4) by (fastforce simp: get_cell_view)
  then obtain old where old: "so_get_cell S c (w_experiments w) = Some old" "content old = content cell" by (auto simp: get_cell_view)
  then have "old \<in> set (so_list_cells S e v (w_experiments w))"
    using keyed [OF inv old(1)] assms(5) content_strings [OF old(2)] by (simp add: listed [OF inv] cell_key_def)
  then show ?thesis using False keyed [OF inv old(1)] by auto
qed

lemma content_None: "content d k \<in> {None, Some PNone} \<longleftrightarrow> dget d k = PNone"
  by (auto simp: content_def dget_def split: option.splits)

lemma safe_owned: assumes "safe w" shows "cells_owned S w"
  unfolding cells_owned_def
proof (intro allI impI)
  fix c cell assume cell: "so_get_cell S c (w_experiments w) = Some cell" and bound: "dget cell ''run_id'' \<noteq> PNone \<or> cell_status cell = PStr ''allocated''"
  have "cell_safe (rview (w_runs w)) c (content cell)" using assms cell by (simp add: safe_def get_cell_view)
  then have "\<exists>rid. content cell ''run_id'' = Some (PStr rid) \<and> deterministic_run_id c = Inr rid \<and> map_of (rv_runs (rview (w_runs w))) rid \<noteq> None"
    using bound unfolding cell_safe_def content_None content_status by blast
  then show "owns S w c cell" using assms by (auto simp: owns_def content_dget_PStr safe_def get_run_view)
qed

lemma recovery:
  assumes "calls_quiet P" "safe w" "admitted S P e v w"
  shows "recovered S P e v w"
proof -
  let ?w = "w\<lparr>w_crash := None\<rparr>"
  obtain payload spec where "so_get_spec S e v (w_experiments ?w) = Some payload" "sv_parse P payload = Inr spec" "validate_allocation_inputs S P spec ?w = Inr ()"
    using assms(3) by (auto simp: admitted_def split: option.splits sum.splits)
  then obtain a w' where a: "allocate_locked S P e v ?w = (Inr a, w')" "safe w'"
    "settled_all (so_list_cells S e v (w_experiments ?w)) (al_outcomes a) (view (w_experiments ?w)) (view (w_experiments w'))"
    using allocation_settles [OF assms(1), of ?w e v payload spec] assms(2) by auto
  have "cell_status cell \<notin> {PStr ''pending'', PStr ''allocating''}" if "so_get_cell S c (w_experiments w') = Some cell" "cell_key cell = (e, v)" for c cell
    using none_open [OF _ a(2,3) that] assms(2) by (simp add: is_open_def content_status)
  moreover have "list_all2 (\<lambda>cell (c, out). c = cell_id_of cell \<and> (\<exists>cell'. so_get_cell S c (w_experiments w') = Some cell' \<and>
      settled_as out (content cell) (content cell'))) (so_list_cells S e v (w_experiments w)) (al_outcomes a)"
    using a(3) unfolding settled_all_def by (auto simp: get_cell_view elim!: list_all2_mono)
  ultimately show ?thesis using a(1) safe_owned [OF a(2)] by (simp add: recovered_def) blast
qed

end

end
