(* ===== verification/Experiment_Worlds.thy ===== *)
theory Experiment_Worlds
  imports Experiment_Allocation Memory_Store Sqlite_Store
begin

text \<open>
  The experiment service over the stores of the program: in memory and in SQLite.  Both are instances of
  \<open>experiment_world\<close>: the listings show every cell of an experiment once, and every cell has its own identifier.
\<close>

section \<open>Cells keep their identity\<close>

definition stored_under :: "string \<Rightarrow> pydict \<Rightarrow> bool" where
  "stored_under k cell \<longleftrightarrow> cell_id_of cell = k \<and> (\<exists>st. cell_status cell = PStr st)"

lemma dstr_od_set: "k' \<noteq> k \<Longrightarrow> dstr (od_set k v d) k' = dstr d k'"
  by (simp add: dstr_def dict_simps)

lemma move_identity:
  assumes "cell_move op = Some (c, f)" "f cell = Inr cell'"
  shows "cell_id_of cell' = cell_id_of cell" "cell_key cell' = cell_key cell" "\<exists>st. cell_status cell = PStr st \<Longrightarrow> \<exists>st. cell_status cell' = PStr st"
  using assms
  by (cases op; auto simp: mutate_defs superseding_mutate_def res_bind_def cell_id_of_def cell_key_def dstr_od_set dict_simps split: if_splits sum.splits)+

lemma validated_cell:
  assumes "validate_cell given = Inr cell"
  shows "cell = dsetdefault ''allocation_status'' (PStr ''pending'') given" "stored_under (cell_id_of cell) cell"
proof -
  show "cell = dsetdefault ''allocation_status'' (PStr ''pending'') given"
    using assms by (simp add: validate_cell_def Let_def split: option.splits if_splits)
  have "find (\<lambda>field. \<not> nonempty_str (dget cell field)) CELL_FIELDS = None"
    using assms by (auto simp: validate_cell_def Let_def split: option.splits if_splits)
  then have "nonempty_str (cell_status cell)" unfolding find_None_iff by (auto simp: CELL_FIELDS_def)
  then show "stored_under (cell_id_of cell) cell" by (auto simp: stored_under_def elim: nonempty_str.elims)
qed

lemma res_map_origin: "res_map f xs = Inr ys \<Longrightarrow> y \<in> set ys \<Longrightarrow> \<exists>x\<in>set xs. f x = Inr y"
  unfolding res_map_Inr by (induction rule: list_all2_induct) auto

lemma set_od_merge: "set (od_merge a b) \<subseteq> set a \<union> set b"
proof (induction b arbitrary: a)
  case (Cons p b)
  obtain k v where p: "p = (k, v)" by (cases p)
  have "set (od_merge a (p # b)) \<subseteq> set (od_set k v a) \<union> set b" using Cons.IH [of "od_set k v a"] by (simp add: p)
  then show ?case using set_od_set [of k v a] by (auto simp: p)
qed simp

section \<open>In memory\<close>

definition mem_stores :: "(nat \<Rightarrow> utc) \<Rightarrow> (pydict \<Rightarrow> string) \<Rightarrow> (mem_experiments, mem_store) stores" where
  "mem_stores clock dumps = \<lparr>so_experiments = mem_experiment_exec dumps, so_get_spec = mem_get_spec, so_list_specs = (\<lambda>e. mem_list_specs (Some e)),
     so_get_cell = mem_get_cell, so_list_cells = (\<lambda>e v. mem_list_cells dumps e (Some v)), so_runs = mem_exec clock, so_get_run = mem_get\<rparr>"

definition mem_cells_ok :: "mem_experiments \<Rightarrow> bool" where
  "mem_cells_ok s \<longleftrightarrow> distinct (map fst (mx_cells s)) \<and> (\<forall>(k, cell)\<in>set (mx_cells s). stored_under k cell)"

lemma mem_cells_specs [simp]: "mem_cells_ok (s\<lparr>mx_specs := x\<rparr>) \<longleftrightarrow> mem_cells_ok s"
  by (simp add: mem_cells_ok_def)

lemma mem_cells_set:
  "mem_cells_ok s \<Longrightarrow> stored_under c cell \<Longrightarrow> mem_cells_ok (s\<lparr>mx_cells := od_set c cell (mx_cells s)\<rparr>)"
  using set_od_set [of c cell "mx_cells s"] by (auto simp: mem_cells_ok_def distinct_od_set)

lemma mem_cells_get: "mem_cells_ok s \<Longrightarrow> mem_get_cell c s = Some cell \<Longrightarrow> stored_under c cell"
  by (auto simp: mem_cells_ok_def mem_get_cell_def dest: map_of_SomeD)

lemma mem_cells_exec:
  assumes "mem_cells_ok s"
  shows "mem_cells_ok (snd (mem_experiment_exec dumps op s))"
proof (cases "cell_move op")
  case (Some p)
  obtain c f where cf: "cell_move op = Some (c, f)" using Some by (cases p) auto
  show ?thesis
    using mem_exec_move [OF cf, of dumps s] assms mem_cells_get [OF assms] move_identity [OF cf]
    by (auto simp: stored_under_def intro!: mem_cells_set)
next
  case None
  then consider p cs where "op = XPublish p cs" | p where "op = XPutSpec p" | p where "op = XPutCell p" by (cases op) auto
  then show ?thesis
  proof cases
    case 1
    have "mem_cells_ok (s\<lparr>mx_specs := x, mx_cells := od_merge (mx_cells s) (map (\<lambda>cell. (cell_id_of cell, cell)) cells)\<rparr>)"
      if "res_map validate_cell cs = Inr cells" for x cells
    proof -
      have "stored_under (cell_id_of cell) cell" if "cell \<in> set cells" for cell
        using res_map_origin [OF \<open>res_map validate_cell cs = Inr cells\<close> that] validated_cell(2) by auto
      then show ?thesis
        using assms set_od_merge [of "mx_cells s" "map (\<lambda>cell. (cell_id_of cell, cell)) cells"] by (fastforce simp: mem_cells_ok_def distinct_od_merge)
    qed
    then show ?thesis using assms
      by (auto simp: 1 out_with_simps mem_publish_experiment_def validate_publication_def res_bind_def sop_defs sop_simps split: sum.splits option.splits if_splits)
  qed (use assms in \<open>auto simp: out_with_simps mem_put_spec_def mem_put_cell_def sop_defs sop_simps
      mem_cells_set validated_cell(2) split: sum.splits option.splits\<close>)
qed

lemma mem_acts:
  assumes "cell_move op = Some (c, f)" "mem_get_cell c s = Some cell" "f cell = Inr cell'"
  shows "acted (fst (mem_experiment_exec dumps op s))"
  using assms
  by (cases op) (auto simp: out_with_simps mem_cell_transition_def mem_complete_cell_def mem_fail_cell_def mem_cancel_cell_def mem_cancel_allocated_cell_def
      mem_record_superseding_def mem_claim_cell_def mem_reset_allocating_def mem_get_cell_def claim_mutate_def reset_mutate_def
      sop_defs sop_simps split: if_splits)

lemma default_identity: "cell_id_of (dsetdefault ''allocation_status'' v d) = cell_id_of d"
  by (simp add: cell_id_of_def dsetdefault_def dstr_od_set split: option.splits)

lemma mem_publish_cells:
  "mx_cells (snd (mem_experiment_exec dumps (XPublish p cs) s)) = mx_cells s \<or>
   (\<exists>cells. res_map validate_cell cs = Inr cells \<and> distinct (map cell_id_of cells) \<and>
      mx_cells (snd (mem_experiment_exec dumps (XPublish p cs) s)) = od_merge (mx_cells s) (map (\<lambda>cell. (cell_id_of cell, cell)) cells))"
  by (auto simp: out_with_simps mem_publish_experiment_def validate_publication_def res_bind_def sop_defs sop_simps split: sum.splits option.splits if_splits)

lemma mem_published:
  "mem_experiment_view (snd (mem_experiment_exec dumps (XPublish p cs) s)) (Inr c) = mem_experiment_view s (Inr c) \<or>
   (\<exists>cell\<in>set cs. cell_id_of cell = c \<and> mem_experiment_view (snd (mem_experiment_exec dumps (XPublish p cs) s)) (Inr c) =
      Some (content (dsetdefault ''allocation_status'' (PStr ''pending'') cell)))"
proof (cases "mx_cells (snd (mem_experiment_exec dumps (XPublish p cs) s)) = mx_cells s")
  case True
  then show ?thesis by (simp add: mem_experiment_view_def mem_get_cell_def)
next
  case False
  then obtain cells where cells: "res_map validate_cell cs = Inr cells" "distinct (map cell_id_of cells)"
    "mx_cells (snd (mem_experiment_exec dumps (XPublish p cs) s)) = od_merge (mx_cells s) (map (\<lambda>cell. (cell_id_of cell, cell)) cells)"
    using mem_publish_cells by blast
  let ?m = "map_of (map (\<lambda>cell. (cell_id_of cell, cell)) cells)"
  have get: "mem_get_cell c (snd (mem_experiment_exec dumps (XPublish p cs) s)) = (map_of (mx_cells s) ++ ?m) c"
    using cells(2,3) by (simp add: mem_get_cell_def map_of_od_merge comp_def del: mem_experiment_exec.simps)
  show ?thesis
  proof (cases "?m c")
    case None
    then show ?thesis by (simp add: mem_experiment_view_def get map_add_def del: mem_experiment_exec.simps) (simp add: mem_get_cell_def)
  next
    case (Some cell)
    then have cell: "cell \<in> set cells" "cell_id_of cell = c" by (auto dest!: map_of_SomeD)
    then obtain given where given: "given \<in> set cs" "validate_cell given = Inr cell" using res_map_origin [OF cells(1)] by blast
    then show ?thesis using validated_cell(1) [OF given(2)] cell(2) Some
      by (intro disjI2 bexI [of _ given]) (simp_all add: mem_experiment_view_def get default_identity del: mem_experiment_exec.simps)
  qed
qed

lemma mem_listed:
  assumes "mem_cells_ok s"
  shows "cell \<in> set (mem_list_cells dumps e (Some v) s) \<longleftrightarrow> mem_get_cell (cell_id_of cell) s = Some cell \<and> cell_key cell = (e, v)"
proof -
  have "cell \<in> set (od_values (mx_cells s)) \<longleftrightarrow> mem_get_cell (cell_id_of cell) s = Some cell"
    using assms by (auto simp: od_values_def mem_get_cell_def mem_cells_ok_def stored_under_def map_of_eq_Some_iff image_iff) force+
  then show ?thesis by (auto simp: mem_list_cells_def prod_eq_iff)
qed

lemma mem_listed_once:
  assumes "mem_cells_ok s"
  shows "distinct (map cell_id_of (mem_list_cells dumps e (Some v) s))"
proof -
  have "map cell_id_of (od_values (mx_cells s)) = map fst (mx_cells s)"
    using assms by (auto simp: od_values_def mem_cells_ok_def stored_under_def)
  then have "distinct (map cell_id_of (od_values (mx_cells s)))" using assms by (simp add: mem_cells_ok_def)
  then show ?thesis unfolding mem_list_cells_def by (simp add: distinct_map inj_on_def)
qed

interpretation memw: experiment_world "mem_stores clock dumps" mem_experiment_view mem_inv mem_view mem_cells_ok for clock dumps
proof (intro experiment_world.intro experiment_world_axioms.intro)
  show "cell_store (so_experiments (mem_stores clock dumps)) mem_experiment_view" by (simp add: mem_stores_def memx.cell_store_axioms)
  show "run_repository (so_runs (mem_stores clock dumps)) mem_inv mem_view" by (simp add: mem_stores_def mem.run_repository_axioms)
  show "mem_experiment_view (snd (so_experiments (mem_stores clock dumps) (XPublish p cs) x)) (Inr c) = mem_experiment_view x (Inr c) \<or>
    (\<exists>cell\<in>set cs. cell_id_of cell = c \<and> mem_experiment_view (snd (so_experiments (mem_stores clock dumps) (XPublish p cs) x)) (Inr c) =
      Some (content (dsetdefault ''allocation_status'' (PStr ''pending'') cell)))" for p cs x c
    using mem_published [of dumps p cs x c] by (simp add: mem_stores_def)
  show "mem_experiment_view (snd (so_experiments (mem_stores clock dumps) (XPutSpec p) x)) (Inr c) = mem_experiment_view x (Inr c)" for p x c
    by (auto simp: mem_stores_def out_with_simps mem_put_spec_def sop_defs sop_simps mem_experiment_view_def mem_get_cell_def split: sum.splits option.splits)
  show "acted (fst (so_experiments (mem_stores clock dumps) op x))"
    if "cell_move op = Some (c, f)" "so_get_cell (mem_stores clock dumps) c x = Some cell" "f cell = Inr cell'" for op c f x cell cell'
    using mem_acts [OF that(1) _ that(3)] that(2) by (simp add: mem_stores_def)
  show "so_get_run (mem_stores clock dumps) k r = None \<longleftrightarrow> map_of (rv_runs (mem_view r)) k = None" for r k
    unfolding mem_lookup by (simp add: mem_stores_def mem_get_def)
qed (auto simp: mem_stores_def mem_cells_exec mem_experiment_view_def mem_listed mem_listed_once stored_under_def dest: mem_cells_get)

section \<open>SQLite\<close>

definition sql_stores :: "(nat \<Rightarrow> utc) \<Rightarrow> (sql_experiments, sql_store) stores" where
  "sql_stores clock = \<lparr>so_experiments = sql_experiment_exec, so_get_spec = sql_get_spec, so_list_specs = (\<lambda>e. sql_list_specs (Some e)),
     so_get_cell = sql_get_cell, so_list_cells = (\<lambda>e v. sql_list_cells e (Some v)), so_runs = sql_exec clock, so_get_run = sql_get\<rparr>"

definition sql_cells_ok :: "sql_experiments \<Rightarrow> bool" where
  "sql_cells_ok db \<longleftrightarrow> distinct (map fst (sx_cells db)) \<and> (\<forall>(k, key, cell)\<in>set (sx_cells db). stored_under k cell \<and> cell_key cell = key)"

lemma sql_cells_specs [simp]: "sql_cells_ok (db\<lparr>sx_specs := x\<rparr>) \<longleftrightarrow> sql_cells_ok db"
  by (simp add: sql_cells_ok_def)

lemma stored_under_jnorm [simp]: "stored_under k (jnorm_dict cell) \<longleftrightarrow> stored_under k cell" "cell_key (jnorm_dict cell) = cell_key cell"
  by (simp_all add: stored_under_def cell_id_of_def cell_key_def dget_jnorm_dict)

lemma sql_cells_get: "sql_cells_ok db \<Longrightarrow> sql_get_cell c db = Some cell \<Longrightarrow> stored_under c cell"
  by (auto simp: sql_cells_ok_def sql_get_cell_def dest!: map_of_SomeD)

lemma sql_cells_update:
  assumes "sql_cells_ok db" "sql_get_cell c db = Some old" "stored_under c cell" "cell_key cell = cell_key old"
  shows "sql_cells_ok (sql_update_cell c cell db)"
proof -
  have "map fst (sx_cells (sql_update_cell c cell db)) = map fst (sx_cells db)" by (auto simp: sql_update_cell_def)
  moreover have "cell_key old = key" if "(c, key, x) \<in> set (sx_cells db)" for key x
    using assms(1,2) that by (auto simp: sql_cells_ok_def sql_get_cell_def dest!: map_of_is_SomeI)
  ultimately show ?thesis using assms(1,3,4) by (auto simp: sql_cells_ok_def) (auto simp: sql_update_cell_def split: if_splits)
qed

lemma sql_cells_insert:
  "sql_cells_ok db \<Longrightarrow> stored_under (cell_id_of cell) cell \<Longrightarrow> sql_cells_ok (snd (sql_insert_cell (cell_key cell) cell db))"
  by (auto simp: sql_insert_cell_def sop_defs sop_simps sql_cells_ok_def map_of_eq_None_iff)

lemma sql_cells_inserts:
  "sql_cells_ok db \<Longrightarrow> (\<forall>cell\<in>set cells. stored_under (cell_id_of cell) cell \<and> cell_key cell = key) \<Longrightarrow> sql_cells_ok (snd (st_iter (sql_insert_cell key) cells db))"
proof (induction cells arbitrary: db)
  case (Cons cell cells)
  obtain r db' where one: "sql_insert_cell key cell db = (r, db')" by (cases "sql_insert_cell key cell db")
  have "sql_cells_ok db'" using sql_cells_insert [OF Cons.prems(1), of cell] Cons.prems(2) one by simp
  then show ?case using Cons by (cases r) (auto simp: st_bind_def one)
qed (simp add: sop_simps)

lemma sql_cells_exec:
  assumes "sql_cells_ok db"
  shows "sql_cells_ok (snd (sql_experiment_exec op db))"
proof (cases "cell_move op")
  case (Some p)
  obtain c f where cf: "cell_move op = Some (c, f)" using Some by (cases p) auto
  from sql_exec_move [OF cf, of db] show ?thesis
  proof
    assume "\<exists>cell cell'. acted (fst (sql_experiment_exec op db)) \<and> sql_get_cell c db = Some cell \<and> f cell = Inr cell' \<and> snd (sql_experiment_exec op db) = sql_update_cell c cell' db"
    then obtain cell cell' where m: "sql_get_cell c db = Some cell" "f cell = Inr cell'" "snd (sql_experiment_exec op db) = sql_update_cell c cell' db" by blast
    show ?thesis unfolding m(3)
      using sql_cells_update [OF assms m(1), of cell'] sql_cells_get [OF assms m(1)] move_identity [OF cf m(2)] by (auto simp: stored_under_def)
  qed (use assms in simp)
next
  case None
  then consider p cs where "op = XPublish p cs" | p where "op = XPutSpec p" | p where "op = XPutCell p" by (cases op) auto
  then show ?thesis
  proof cases
    case 1
    have "sql_cells_ok db'" if "st_iter (sql_insert_cell (spec_key spec)) cells (db\<lparr>sx_specs := x\<rparr>) = (r, db')" "validate_publication p cs = Inr (spec, cells)" for x spec cells r db'
    proof -
      have "stored_under (cell_id_of cell) cell \<and> cell_key cell = spec_key spec" if "cell \<in> set cells" for cell
        using \<open>validate_publication p cs = Inr (spec, cells)\<close> that validated_cell(2)
        by (auto simp: validate_publication_def res_bind_def list_ex_iff split: sum.splits if_splits dest!: res_map_origin)
      then show ?thesis using sql_cells_inserts [of "db\<lparr>sx_specs := x\<rparr>" cells "spec_key spec"] assms that(1) by simp
    qed
    then show ?thesis using assms
      by (fastforce simp: 1 out_with_simps sql_publish_experiment_def sop_defs sop_simps split: sum.splits option.splits prod.splits)
  next
    case 3
    then show ?thesis using assms sql_cells_insert [OF assms validated_cell(2)]
      by (auto simp: out_with_simps sql_put_cell_def sop_defs sop_simps split: sum.splits option.splits prod.splits) fastforce+
  qed (use assms in \<open>auto simp: out_with_simps sql_put_spec_def sop_defs sop_simps split: sum.splits option.splits\<close>)
qed

lemma sql_acts:
  assumes "cell_move op = Some (c, f)" "sql_get_cell c s = Some cell" "f cell = Inr cell'"
  shows "acted (fst (sql_experiment_exec op s))"
  using assms
  by (cases op) (auto simp: out_with_simps sql_mutate_cell_def sql_complete_cell_def sql_fail_cell_def sql_cancel_cell_def
      sql_cancel_allocated_cell_def sql_record_superseding_def sql_claim_cell_def sql_reset_allocating_def claim_mutate_def reset_mutate_def
      st_catch_def sop_defs sop_simps split: if_splits)

lemma sql_inserted:
  "st_iter (sql_insert_cell key) cells db = (r, db') \<Longrightarrow> sql_get_cell c db' = sql_get_cell c db \<or>
   (\<exists>cell\<in>set cells. cell_id_of cell = c \<and> sql_get_cell c db' = Some (jnorm_dict cell))"
proof (induction cells arbitrary: db)
  case (Cons cell cells)
  obtain r1 db1 where one: "sql_insert_cell key cell db = (r1, db1)" by (cases "sql_insert_cell key cell db")
  have first: "sql_get_cell c db1 = sql_get_cell c db \<or> cell_id_of cell = c \<and> sql_get_cell c db1 = Some (jnorm_dict cell)"
  proof (cases "map_of (sx_cells db) (cell_id_of cell)")
    case None
    then show ?thesis using one by (auto simp: sql_insert_cell_def sql_get_cell_def sop_defs sop_simps map_add_def split: option.splits if_splits)
  qed (use one in \<open>auto simp: sql_insert_cell_def sop_defs sop_simps\<close>)
  show ?case
  proof (cases r1)
    case (Inl e)
    then show ?thesis using Cons.prems first one by (auto simp: st_bind_def)
  next
    case (Inr x)
    then have "st_iter (sql_insert_cell key) cells db1 = (r, db')" using Cons.prems one by (simp add: st_bind_def)
    from Cons.IH [OF this] first show ?thesis by auto
  qed
qed (simp add: sop_simps)

lemma sql_publish_result:
  obtains "snd (sql_experiment_exec (XPublish p cs) db) = db"
  | spec cells x r where "validate_publication p cs = Inr (spec, cells)"
    "st_iter (sql_insert_cell (spec_key spec)) cells (db\<lparr>sx_specs := x\<rparr>) = (r, snd (sql_experiment_exec (XPublish p cs) db))"
proof (cases "validate_publication p cs")
  case (Inl e)
  then show ?thesis using that(1) by (simp add: out_with_simps sql_publish_experiment_def sop_defs sop_simps)
next
  case (Inr sc)
  obtain spec cells where sc: "sc = (spec, cells)" by (cases sc)
  let ?d = "db\<lparr>sx_specs := sx_specs db @ [(spec_key spec, jnorm_dict spec)]\<rparr>"
  obtain r db' where it: "st_iter (sql_insert_cell (spec_key spec)) cells ?d = (r, db')" by (cases "st_iter (sql_insert_cell (spec_key spec)) cells ?d")
  show ?thesis
  proof (cases "map_of (sx_specs db) (spec_key spec)")
    case (Some stored)
    then show ?thesis using that(1) by (simp add: out_with_simps sql_publish_experiment_def Inr sc sop_defs sop_simps split: sum.splits)
  next
    case None
    then have "snd (sql_experiment_exec (XPublish p cs) db) = (case r of Inl _ \<Rightarrow> db | Inr _ \<Rightarrow> db')"
      by (simp add: out_with_simps sql_publish_experiment_def Inr sc sop_defs sop_simps it split: sum.splits)
    then show ?thesis using that(1) that(2) [of spec cells "sx_specs db @ [(spec_key spec, jnorm_dict spec)]" r] it Inr sc by (cases r) auto
  qed
qed

lemma sql_published:
  "sql_experiment_view (snd (sql_experiment_exec (XPublish p cs) db)) (Inr c) = sql_experiment_view db (Inr c) \<or>
   (\<exists>cell\<in>set cs. cell_id_of cell = c \<and> sql_experiment_view (snd (sql_experiment_exec (XPublish p cs) db)) (Inr c) =
      Some (content (dsetdefault ''allocation_status'' (PStr ''pending'') cell)))"
proof (cases rule: sql_publish_result [of p cs db])
  case (2 spec cells x r)
  have origin: "\<exists>given\<in>set cs. cell_id_of given = cell_id_of cell \<and> cell = dsetdefault ''allocation_status'' (PStr ''pending'') given" if cell: "cell \<in> set cells" for cell
  proof -
    obtain given where g: "given \<in> set cs" "validate_cell given = Inr cell"
      using 2(1) res_map_origin [of validate_cell cs cells cell] cell by (auto simp: validate_publication_def res_bind_def split: sum.splits if_splits)
    then show ?thesis using validated_cell(1) [OF g(2)] default_identity by metis
  qed
  show ?thesis using sql_inserted [OF 2(2), of c]
  proof
    assume "\<exists>cell\<in>set cells. cell_id_of cell = c \<and> sql_get_cell c (snd (sql_experiment_exec (XPublish p cs) db)) = Some (jnorm_dict cell)"
    then obtain cell where cell: "cell \<in> set cells" "cell_id_of cell = c" "sql_get_cell c (snd (sql_experiment_exec (XPublish p cs) db)) = Some (jnorm_dict cell)" by blast
    obtain given where "given \<in> set cs" "cell_id_of given = c" "cell = dsetdefault ''allocation_status'' (PStr ''pending'') given" using origin [OF cell(1)] cell(2) by auto
    then show ?thesis using cell(3) by (auto simp: sql_experiment_view_def simp del: sql_experiment_exec.simps)
  qed (simp add: sql_experiment_view_def del: sql_experiment_exec.simps)
qed (simp add: sql_experiment_view_def del: sql_experiment_exec.simps)

lemma sql_listed:
  assumes "sql_cells_ok db"
  shows "cell \<in> set (sql_list_cells e (Some v) db) \<longleftrightarrow> sql_get_cell (cell_id_of cell) db = Some cell \<and> cell_key cell = (e, v)"
proof
  assume "cell \<in> set (sql_list_cells e (Some v) db)"
  then obtain k where k: "(k, (e, v), cell) \<in> set (sx_cells db)" by (auto simp: sql_list_cells_def)
  then have "cell_id_of cell = k" "cell_key cell = (e, v)" using assms by (auto simp: sql_cells_ok_def stored_under_def)
  then show "sql_get_cell (cell_id_of cell) db = Some cell \<and> cell_key cell = (e, v)" using k assms by (auto simp: sql_get_cell_def sql_cells_ok_def)
next
  assume "sql_get_cell (cell_id_of cell) db = Some cell \<and> cell_key cell = (e, v)"
  then obtain key where "(cell_id_of cell, key, cell) \<in> set (sx_cells db)" "cell_key cell = (e, v)" by (auto simp: sql_get_cell_def dest: map_of_SomeD)
  then show "cell \<in> set (sql_list_cells e (Some v) db)" using assms by (force simp: sql_list_cells_def sql_cells_ok_def)
qed

lemma sql_listed_once:
  assumes "sql_cells_ok db"
  shows "distinct (map cell_id_of (sql_list_cells e (Some v) db))"
proof -
  have "map cell_id_of (sql_list_cells e (Some v) db) = map fst (filter (\<lambda>(_, (i, x), _). i = e \<and> (Some v = None \<or> Some v = Some x)) (sx_cells db))"
    using assms by (auto simp: sql_list_cells_def sql_cells_ok_def stored_under_def)
  then show ?thesis using assms by (simp add: sql_cells_ok_def distinct_map_filter)
qed

lemma sql_run_lookup: "sql_get k db = None \<longleftrightarrow> map_of (rv_runs (sql_view db)) k = None"
  by (auto simp: sql_get_def select_run_def sql_view_def find_None_iff map_of_eq_None_iff image_iff comp_def)

interpretation sqlw: experiment_world "sql_stores clock" sql_experiment_view sql_inv sql_view sql_cells_ok for clock
proof (intro experiment_world.intro experiment_world_axioms.intro)
  show "cell_store (so_experiments (sql_stores clock)) sql_experiment_view" by (simp add: sql_stores_def sqlx.cell_store_axioms)
  show "run_repository (so_runs (sql_stores clock)) sql_inv sql_view" by (simp add: sql_stores_def sql.run_repository_axioms)
  show "sql_experiment_view (snd (so_experiments (sql_stores clock) (XPublish p cs) x)) (Inr c) = sql_experiment_view x (Inr c) \<or>
    (\<exists>cell\<in>set cs. cell_id_of cell = c \<and> sql_experiment_view (snd (so_experiments (sql_stores clock) (XPublish p cs) x)) (Inr c) =
      Some (content (dsetdefault ''allocation_status'' (PStr ''pending'') cell)))" for p cs x c
    using sql_published [of p cs x c] by (simp add: sql_stores_def)
  show "sql_experiment_view (snd (so_experiments (sql_stores clock) (XPutSpec p) x)) (Inr c) = sql_experiment_view x (Inr c)" for p x c
    by (auto simp: sql_stores_def out_with_simps sql_put_spec_def sop_defs sop_simps sql_experiment_view_def split: sum.splits option.splits)
  show "acted (fst (so_experiments (sql_stores clock) op x))"
    if "cell_move op = Some (c, f)" "so_get_cell (sql_stores clock) c x = Some cell" "f cell = Inr cell'" for op c f x cell cell'
    using sql_acts [OF that(1) _ that(3)] that(2) by (simp add: sql_stores_def)
qed (auto simp: sql_stores_def sql_cells_exec sql_experiment_view_def sql_listed sql_listed_once sql_run_lookup stored_under_def dest: sql_cells_get)

section \<open>Empty stores are safe\<close>

lemma mem_safe_empty: "memw.safe (empty_world mem_experiments_empty mem_empty)"
  by (simp add: memw.safe_def empty_world_def mem_inv_empty mem_cells_ok_def mem_experiments_empty_def mem_experiment_view_def mem_get_cell_def)

lemma sql_safe_empty: "sqlw.safe (empty_world sql_experiments_empty sql_empty)"
  by (simp add: sqlw.safe_def empty_world_def sql_inv_empty sql_cells_ok_def sql_experiments_empty_def sql_experiment_view_def sql_get_cell_def)

end
