(* ===== verification/Experiment_Example.thy ===== *)
theory Experiment_Example
  imports Experiment_Worlds
begin

text \<open>
  A small experiment for the concrete instances of the properties, and what the model shows of the code on
  it: the windows in which a crash or an exception leaves something behind.
\<close>

section \<open>An experiment with two models\<close>

definition sample_spec :: experiment_spec where
  "sample_spec = \<lparr>es_experiment_id = ''exp'', es_version = ''1'', es_task_ref = [(''suite'', ''direct-llm''), (''scenario_version'', ''direct@1'')],
     es_selected_case_keys = [], es_factors = [(''model_profile'', [''a'', ''b''])], es_controlled_conditions = [], es_suite_config = None,
     es_repeats = 1, es_trials_per_run = None,
     es_budget_policy = \<lparr>bp_max_total_calls = 10, bp_max_total_tokens = None, bp_max_cost_usd = None, bp_cost_known_required = False\<rparr>,
     es_evaluation_ref = \<lparr>er_scoring = ''default'', er_scoring_pass_hint = None, er_statistical_policy = ''statistical_policy@1''\<rparr>,
     es_stop_policy = \<lparr>sp_on_first_failure = False, sp_max_failures = None, sp_wall_clock_seconds = None\<rparr>,
     es_max_cells = 200, es_created_by = ''ops'', es_reason = ''test'', es_created_at = None\<rparr>"

definition sample_cell :: "string \<Rightarrow> factor_assignment \<times> int" where
  "sample_cell m = ([plain_factor ''model_profile'' m], 0)"

text \<open>A hash that tells the two cells apart.\<close>

definition sample_identity :: "string \<Rightarrow> pyval" where
  "sample_identity m = cell_identity ''exp'' ''1'' (fst (sample_cell m)) (snd (sample_cell m))"

definition sample_hash :: "pyval \<Rightarrow> string" where
  "sample_hash v = (if v = sample_identity ''a'' then ''sha256:aaaa'' else if v = sample_identity ''b'' then ''sha256:bbbb'' else ''sha256:cccc'')"

definition sample_assembled :: assembled where
  "sample_assembled = \<lparr>pp_manifest = PDict [(''model'', PStr ''m'')], pp_case_ids = [PStr ''c1''], pp_requested = PDict [],
     as_frozen = [], as_max_calls = 1\<rparr>"

definition sample_service :: "'r service" where
  "sample_service = \<lparr>sv_parse = (\<lambda>_. Inr sample_spec), sv_hash = sample_hash, sv_str = (\<lambda>_. ''error''), sv_now = ''now'',
     sv_ready = (\<lambda>_. Inr ()), sv_assemble = (\<lambda>_ _ _. Inr sample_assembled), sv_frozen_cell = (\<lambda>_ _. Inr ()), sv_boundary = (\<lambda>_ _. Inr ()),
     sv_resolve = (\<lambda>_ _. Inl (Coded ''SCENARIO_NOT_FOUND'' [])), sv_replay = (\<lambda>_ ids. Inr ids), sv_check_run = (\<lambda>_. Inr ()),
     sv_after_run = (\<lambda>_. Inr ()), sv_refreeze = (\<lambda>m _. Inr m), sv_cancel = (\<lambda>_ _ _. ([], Inr ()))\<rparr>"

lemma sample_quiet: "calls_quiet sample_service" "prefixed_hash sample_service"
  by (simp_all add: calls_quiet_def prefixed_hash_def sample_service_def sample_hash_def)

abbreviation mem_sample :: "(mem_experiments, mem_store) stores" where
  "mem_sample \<equiv> mem_stores (\<lambda>_. 0) (\<lambda>_. [])"

abbreviation mem_start :: "(mem_experiments, mem_store) world" where
  "mem_start \<equiv> empty_world mem_experiments_empty mem_empty"

lemma sample_matrix: "spec_ok sample_spec" "no_blank_values sample_spec" "expand_matrix sample_spec = Inr [sample_cell ''a'', sample_cell ''b'']"
  by code_simp+

lemma sample_hash_ok: "inj_on sample_hash (identities sample_spec)" "\<And>v. sample_hash v \<noteq> []"
proof -
  have names: "es_experiment_id sample_spec = ''exp''" "es_version sample_spec = ''1''" by (simp_all add: sample_spec_def)
  have "identities sample_spec = (\<lambda>c. cell_identity ''exp'' ''1'' (fst c) (snd c)) ` set [sample_cell ''a'', sample_cell ''b'']"
    unfolding identities_def names set_matrix [OF sample_matrix(1,3), symmetric] by blast
  then have "identities sample_spec = {sample_identity ''a'', sample_identity ''b''}" by (simp add: sample_identity_def)
  moreover have "sample_identity ''a'' \<noteq> sample_identity ''b''" by code_simp
  ultimately show "inj_on sample_hash (identities sample_spec)" by (auto simp: inj_on_def sample_hash_def)
qed (simp add: sample_hash_def)

text \<open>How far the cells and runs of a world are.\<close>

definition cell_states :: "(mem_experiments, mem_store) world \<Rightarrow> (string \<times> pyval \<times> pyval) list" where
  "cell_states w = map (\<lambda>(k, c). (k, cell_status c, dget c ''run_id'')) (mx_cells (w_experiments w))"

definition run_states :: "(mem_experiments, mem_store) world \<Rightarrow> (string \<times> pyval) list" where
  "run_states w = map (\<lambda>(k, r). (k, dget r ''status'')) (ms_runs (w_runs w))"

text \<open>The process dies after the run of the first cell was created; the next allocation completes both.\<close>

lemma crash_window:
  "cell_states (svc_script mem_sample [(sample_service, Some 3, SCreate [] None None)] mem_start) =
     [(''sha256:aaaa'', PStr ''allocating'', PNone), (''sha256:bbbb'', PStr ''pending'', PNone)]"
  "run_states (svc_script mem_sample [(sample_service, Some 3, SCreate [] None None)] mem_start) = [(''run-exp-aaaa'', PStr ''queued'')]"
  "cell_states (svc_script mem_sample [(sample_service, Some 3, SCreate [] None None), (sample_service, None, SAllocate ''exp'' ''1'')] mem_start) =
     [(''sha256:aaaa'', PStr ''allocated'', PStr ''run-exp-aaaa''), (''sha256:bbbb'', PStr ''allocated'', PStr ''run-exp-bbbb'')]"
  by code_simp+

section \<open>Windows that are not closed\<close>

text \<open>
  A retry that dies between creating the run and recording it: the next retry computes the same identifier
  and is refused, now and ever after, since the refused retry records nothing.
\<close>

lemma retry_stuck:
  "fst (retry_cell mem_sample sample_service ''sha256:aaaa''
      ((svc_script mem_sample [(sample_service, None, SCreate [] None None), (sample_service, Some 1, SRetry ''sha256:aaaa'')] mem_start)\<lparr>w_crash := None\<rparr>)) =
    Inl (Raised (Plain (RunConflictError ''run already exists: run-exp-aaaa-r1'')))"
  "cell_states (svc_script mem_sample [(sample_service, None, SCreate [] None None), (sample_service, Some 1, SRetry ''sha256:aaaa''),
      (sample_service, None, SRetry ''sha256:aaaa'')] mem_start) =
    cell_states (svc_script mem_sample [(sample_service, None, SCreate [] None None)] mem_start)"
  by code_simp+

text \<open>A conflict that is raised before the run is created counts as an existing run.\<close>

lemma conflict_before_creation:
  "cell_states (svc_script mem_sample [(sample_service\<lparr>sv_check_run := \<lambda>_. Inl (Plain (RunConflictError ''frozen trial plan''))\<rparr>, None, SCreate [] None None)] mem_start) =
     [(''sha256:aaaa'', PStr ''allocated'', PStr ''run-exp-aaaa''), (''sha256:bbbb'', PStr ''allocated'', PStr ''run-exp-bbbb'')]"
  "run_states (svc_script mem_sample [(sample_service\<lparr>sv_check_run := \<lambda>_. Inl (Plain (RunConflictError ''frozen trial plan''))\<rparr>, None, SCreate [] None None)] mem_start) = []"
  by code_simp+

text \<open>An exception after the run was created fails the cell and leaves the run in the queue.\<close>

lemma failed_cell_keeps_run:
  "cell_states (svc_script mem_sample [(sample_service\<lparr>sv_after_run := \<lambda>_. Inl (Plain (ValueError ''plan''))\<rparr>, None, SCreate [] None None)] mem_start) =
     [(''sha256:aaaa'', PStr ''failed'', PNone), (''sha256:bbbb'', PStr ''failed'', PNone)]"
  "run_states (svc_script mem_sample [(sample_service\<lparr>sv_after_run := \<lambda>_. Inl (Plain (ValueError ''plan''))\<rparr>, None, SCreate [] None None)] mem_start) =
     [(''run-exp-aaaa'', PStr ''queued''), (''run-exp-bbbb'', PStr ''queued'')]"
  by code_simp+

text \<open>The latest version is the last one in the order of strings.\<close>

lemma latest_is_not_newest:
  "map_sum id (\<lambda>d. dget d ''version'') (resolve_spec mem_sample ''exp'' None (snd (exec_all (mem_experiment_exec (\<lambda>_. []))
     [XPutSpec [(''experiment_id'', PStr ''exp''), (''version'', PStr ''9'')], XPutSpec [(''experiment_id'', PStr ''exp''), (''version'', PStr ''10'')]]
     mem_experiments_empty))) = Inr (PStr ''9'')"
  by code_simp

end
