(* ===== verification/Spec2Isabelle.thy ===== *)
theory Spec2Isabelle
  imports Scoring_Store Scenario_Example Agent_Session Regression Selection Invocation_Contract
    Import_Progress Live_Sessions_Sql Release Gate_Store Baseline_Store Trial_Store Experiment_Example
begin

text \<open>
  MoTTEavl evaluates language models and agents: a run executes the cases of a dataset against a
  target, records everything it does, scores the results and compares runs.  This development models
  the parts on which the trustworthiness of a result rests (the stores, the workflow engine, the
  bookkeeping of agents, the selection and the comparison of cases, the gates before a release) and proves
  them correct.

  \<^bold>\<open>Conventions.\<close>  \<open>Motte_Prelude\<close> has the operations \<open>('s, 'e, 'a) sop\<close> on a state that may raise and leave a
  changed state behind, transactions that roll back, insertion-ordered dictionaries and the lemma
  collections of the proofs.  \<open>Py_Value\<close> has the JSON-shaped values with what the source uses of Python on
  them; a payload that was stored and read back is \<open>jnorm\<close> of it.  \<open>Py_Float\<close> has the rounding of doubles.
  Every raise of the source is an \<open>Inl\<close> with its message.  Clocks, \<^verbatim>\<open>uuid4().hex\<close>, hashes and the field parsing
  of pydantic are parameters.  Integers are unbounded, as in Python.

  \<^bold>\<open>Run store\<close> (\<^verbatim>\<open>packages/storage/motte_storage\<close>).  \<open>Integrity\<close> is \<^verbatim>\<open>integrity.py\<close>.  \<open>Run_Repository\<close> states what a
  repository of runs promises: an abstract view (runs in the order of their creation, a log of events for
  each), a specification \<open>spec_exec\<close> of the seven operations, and the locale \<open>run_repository\<close> in which the
  consequences are proved once.  \<open>Memory_Store\<close> and \<open>Sqlite_Store\<close> model both classes of \<^verbatim>\<open>run_store.py\<close>, one
  definition per method, and interpret the locale.  The in-memory methods hold one lock and the SQLite
  methods run in one \<^verbatim>\<open>BEGIN IMMEDIATE\<close> transaction, so an interleaving of callers is a sequence of operations,
  the scripts over which the properties quantify.  C1-C6 and C29 follow.

  \<^bold>\<open>Attempts, scoring passes, commands\<close> (\<^verbatim>\<open>audit_store.py\<close>).  \<open>Attempt_Store\<close> has the two attempt stores;
  \<open>Attempt_Contract\<close> the locale \<open>attempt_repository\<close> (one open attempt per case and trial, unique numbers,
  settled attempts final) and its interpretations, for the attempt operations alone and for scripts that mix
  them with the operations on runs (\<open>store_call\<close>), over which C7 and C8 are stated.  \<open>Scoring_Store\<close> has scoring passes, score sets
  and commands of both stores; C9 is the publication of a pass.

  \<^bold>\<open>Recorded calls\<close> (\<^verbatim>\<open>invocations.py\<close>).  \<open>Invocations\<close> models validation and both stores,
  \<open>Invocation_Contract\<close> the locale \<open>invocation_store\<close>; the locale \<open>invocation_parser\<close> names what is assumed of
  field parsing and is a sublocale for either store.  C26-C28.

  \<^bold>\<open>External jobs\<close> (\<^verbatim>\<open>external_jobs.py\<close>).  \<open>External_Jobs\<close> has both stores of jobs, imported records and conflicts;
  \<open>Import_Ledger\<close> the locale of an import ledger and its two interpretations (C31), \<open>Import_Progress\<close> the
  start of jobs (C33, as long as no update rewrites a launch token) and the count of records in a checkpoint,
  which holds as long as no caller writes a checkpoint of its own; the runner of the SDK does.  Conversions of unusual values by \<^verbatim>\<open>str\<close>, \<^verbatim>\<open>int\<close>, \<^verbatim>\<open>dict\<close> and the
  text a column gives for them are parameters.

  \<^bold>\<open>Interactive sessions\<close> (\<^verbatim>\<open>runtime_sessions.py\<close>).  \<open>Runtime_Sessions\<close> writes sessions and commands once, against
  a transaction \<open>'s tx\<close>, as the source does, with its in-memory and its SQLite instance.  \<open>Session_Contract\<close> has
  the rules of one record and triples over transactions, \<open>Live_Sessions\<close> the scripts of operations and the
  locale \<open>live_store\<close>, interpreted there and in \<open>Live_Sessions_Sql\<close>: C34-C36.

  \<^bold>\<open>Workflows\<close> (\<^verbatim>\<open>packages/contracts/motte_contracts/workflow.py\<close>, \<^verbatim>\<open>packages/scenario-runtime/motte_scenario\<close>).
  \<open>Conditions\<close> has the contract, the compiler and the evaluator of conditions with their meaning: C10-C12.
  \<open>Workflow\<close> has the step types, the structural validator and \<^verbatim>\<open>compiler.py\<close>: C14.  \<open>Engine\<close> has every method of
  \<^verbatim>\<open>WorkflowEngine\<close>, against ports (fixture, target, clock, sink, cancellation) that are arbitrary operations
  on an arbitrary world.  The recursion over steps is structural and the iterations of a loop step are
  bounded by its \<^verbatim>\<open>max_iterations\<close>, so that the engine is a total function and needs no fuel.  \<open>Engine_Safety\<close>
  has the triples over engine states and the ledger of counters, \<open>Engine_Metering\<close> that the counters cover every
  message and tool call that reaches a port (C15), \<open>Engine_Verdict\<close> the meaning of
  \<^verbatim>\<open>completed\<close> (C16), \<open>Engine_Isolation\<close> non-interference of the evidence-only mode (C17), \<open>Engine_Progress\<close> that
  a run returns an outcome (C18).  \<open>Scenario_Example\<close> is a concrete workflow and environment for them.

  \<^bold>\<open>Builtin agent\<close> (\<^verbatim>\<open>packages/agent-runtime/motte_agent\<close>).  \<open>Agent_Session\<close> has \<^verbatim>\<open>budget.py\<close> and \<^verbatim>\<open>session.py\<close>:
  C19, C21.  Limits are compared as Python compares floats, infinities and NaN included; sums of seconds and of
  costs are exact rationals there, and seconds in the engine.

  \<^bold>\<open>Comparison and selection.\<close>  \<open>Regression\<close> is \<^verbatim>\<open>packages/evaluators/motte_eval/regression.py\<close>: C23, C24, and C30
  for the differences of finite metrics, computed with rounded doubles.  \<open>Selection\<close> is
  \<^verbatim>\<open>packages/contracts/motte_contracts/selection.py\<close>, for any generator that samples without replacement: C25.

  \<^bold>\<open>Gates\<close> (\<^verbatim>\<open>metrics.py\<close>, \<^verbatim>\<open>gates.py\<close>, \<^verbatim>\<open>pairwise_quality.py\<close> of the contracts, \<^verbatim>\<open>gates.py\<close> of the evaluators).
  \<open>Gate_Policy\<close> has metrics, rules, policies and decisions, \<open>Pairwise_Quality\<close> the evidence of pairwise
  comparisons, \<open>Gate_Engine\<close> the evaluation of a policy on a frozen report.  \<open>Float_Error\<close> bounds the error of
  rounding.  \<open>Gate_Verdict\<close> states what each kind of rule demands and proves what the verdict means:
  C37 (where no baseline value is 0: the protocol asks more there than the code does), C39.

  \<^bold>\<open>Comparison of reports\<close> (\<^verbatim>\<open>comparison.py\<close> of the evaluators).  \<open>Comparison\<close> has every condition under which two
  frozen manifests may be compared, the level and the eligibility of the metrics, and states what it means that
  two manifests are alike (\<open>like_with_like\<close>) and for which pairs and policies the code decides exactly that
  (\<open>declared_alike\<close>, \<open>factors_apart\<close>): C20.  \<open>Release\<close> composes it with the gates: C38.

  \<^bold>\<open>Published records\<close> (\<^verbatim>\<open>gate_store.py\<close>, \<^verbatim>\<open>baseline_store.py\<close>, \<^verbatim>\<open>baselines.py\<close>, \<^verbatim>\<open>experiments.py\<close>, \<^verbatim>\<open>trials.py\<close> of
  the storage).  \<open>Frozen_Store\<close> has the locale \<open>frozen_store\<close>: records stay and change only as their kind
  allows.  \<open>Gate_Store\<close>, \<open>Baseline_Store\<close> (with the pointer to the default baseline, whose history has no
  gaps), \<open>Experiment_Store\<close> (with the locale \<open>cell_store\<close>, from which it is a sublocale) and \<open>Trial_Store\<close>
  interpret it for the in-memory and the SQLite classes: C22, C40.

  \<^bold>\<open>Experiments\<close> (\<^verbatim>\<open>experiment.py\<close> of the contracts, \<^verbatim>\<open>experiments.py\<close> of the SDK).  \<open>Experiment_Matrix\<close> has the specification of
  an experiment, the expansion of its factors into cells and the limits (C13); \<open>Experiment_Service\<close> every operation of
  \<^verbatim>\<open>ExperimentService\<close> over an experiment store and a run store, with the creation of a run from \<^verbatim>\<open>service.py\<close>, and
  with a process that may die before any effect on a store.  \<open>Experiment_Allocation\<close> has the locale \<open>experiment_world\<close>, which
  combines \<open>cell_store\<close> and \<open>run_repository\<close>, and the proofs by pre- and postconditions; \<open>Experiment_Worlds\<close> interprets it for
  the in-memory and the SQLite stores: C32.  \<open>Experiment_Example\<close> is a concrete experiment, and shows the windows that
  the code leaves open.  The assembly of a manifest from resources, the checks of frozen benchmarks and the
  cancellation of a run are parameters (the record \<open>service\<close>).

  \<^bold>\<open>Bounds.\<close>  The limits are those of the source: conditions 8 deep with 64 nodes and paths of 8 segments,
  workflows of 256 steps nested 4 deep, budgets up to the ceilings of \<^verbatim>\<open>LIMITS_CEILING\<close>.

  \<^bold>\<open>Not modelled.\<close>  The Postgres stores (the contract of the SQLite ones in another dialect); scoring
  jobs; the digests of a gate result and the older Lite gate; the
  executor and fixtures behind the engine's ports, the agent loop over the budget and session, the
  assembly of manifests from resources, and the scorers: these are left for extensions of this library.  The HTTP API, command line, the rest of the SDK,
  providers, sandboxes, importers and file-system maintenance are input and output around the parts above.
\<close>

section \<open>The run store\<close>

text \<open>
  C1.  The in-memory and the SQLite run repository are observationally equivalent: any script of
  create, update, transition, save, claim, claim-next and requeue operations returns the same
  results (errors with their messages included) from both empty stores, and afterwards both list
  the same runs in the same order and the same trace events for every run, whatever the clocks say.
\<close>

theorem stores_equivalent:
  "fst (exec_all (mem_exec c) ops mem_empty) = fst (exec_all (sql_exec c') ops sql_empty)
   \<and> map content (mem_list (snd (exec_all (mem_exec c) ops mem_empty)))
       = map content (sql_list (snd (exec_all (sql_exec c') ops sql_empty)))
   \<and> map content (mem_events_list k (snd (exec_all (mem_exec c) ops mem_empty)))
       = map content (sql_events_list k (snd (exec_all (sql_exec c') ops sql_empty)))"
  using stores_agree [of c ops c'] mem.exec_all_inv [OF mem_inv_empty, of c ops]
    sql.exec_all_inv [OF sql_inv_empty, of c' ops]
  by (simp add: list_views mem_events_list_view(1) sql_events_list_view(1))

text \<open>
  C2.  Optimistic concurrency excludes lost updates: once an update or transition that expects
  revision \<open>er\<close> of run \<open>k\<close> has succeeded, every later update or transition of \<open>k\<close> that expects
  the same revision is refused, whatever operations happened in between, in either store.
\<close>

theorem stale_revision_refused:
  assumes "cas_target op = Some (k, er)" "cas_target op' = Some (k, er)"
    and "\<not> isl (fst (sql_exec c' op (snd (exec_all (sql_exec c') before sql_empty))))"
  shows "isl (fst (sql_exec c' op' (snd (exec_all (sql_exec c') (before @ op # between) sql_empty))))
    \<and> isl (fst (mem_exec c op' (snd (exec_all (mem_exec c) (before @ op # between) mem_empty))))"
proof -
  let ?s = "snd (exec_all (sql_exec c') before sql_empty)"
  let ?u = "snd (exec_all (sql_exec c') (before @ op # between) sql_empty)"
  have s: "sql_inv ?s" using sql.exec_all_inv [OF sql_inv_empty] .
  from assms(3) obtain out t where t: "sql_exec c' op ?s = (Inr out, t)"
    by (cases "sql_exec c' op ?s"; cases "fst (sql_exec c' op ?s)") auto
  have u: "?u = snd (exec_all (sql_exec c') between t)" using t by (simp add: exec_all_append split_def)
  have sql: "isl (fst (sql_exec c' op' ?u))"
    using sql.stale_refused [OF s assms(1,2) t, of between] u by auto
  have "fst (exec_all (mem_exec c) (before @ op # between @ [op']) mem_empty)
      = fst (exec_all (sql_exec c') (before @ op # between @ [op']) sql_empty)"
    using stores_agree by blast
  then have "fst (mem_exec c op' (snd (exec_all (mem_exec c) (before @ op # between) mem_empty)))
      = fst (sql_exec c' op' ?u)"
    using exec_all_append [of "mem_exec c" "before @ op # between" "[op']" mem_empty]
      exec_all_append [of "sql_exec c'" "before @ op # between" "[op']" sql_empty]
    by (simp add: split_def)
  then show ?thesis using sql by simp
qed

theorem stale_revision_refused_witness:
  "isl (fst (sql_exec int (OpTransition ''r'' 1 ''queued'' ''cancelled'' [] None)
      (snd (exec_all (sql_exec int)
         ([OpCreate [(''id'', PStr ''r''), (''status'', PStr ''queued'')] None]
          @ OpTransition ''r'' 1 ''queued'' ''preparing'' [] None # [OpClaimNext]) sql_empty))))"
proof -
  have "\<not> isl (fst (sql_exec int (OpTransition ''r'' 1 ''queued'' ''preparing'' [] None)
      (snd (exec_all (sql_exec int) [OpCreate [(''id'', PStr ''r''), (''status'', PStr ''queued'')] None]
         sql_empty))))"
    by code_simp
  then show ?thesis
    by (intro stale_revision_refused [where k = "''r''" and er = 1, THEN conjunct1]) simp_all
qed

text \<open>
  C3.  A claim is exclusive: when any number of workers claim runs, by id or from the queue, no run
  is handed out twice, and only runs that were queued are handed out, in the SQLite and in the in-memory store.
\<close>

theorem claims_are_exclusive:
  assumes "list_all is_claim claims"
  shows "distinct (claimed (fst (exec_all (sql_exec c) claims (snd (exec_all (sql_exec c) before sql_empty)))))
    \<and> set (claimed (fst (exec_all (sql_exec c) claims (snd (exec_all (sql_exec c) before sql_empty)))))
        \<subseteq> queued_ids (sql_view (snd (exec_all (sql_exec c) before sql_empty)))
    \<and> distinct (claimed (fst (exec_all (mem_exec c') claims (snd (exec_all (mem_exec c') before mem_empty)))))
    \<and> set (claimed (fst (exec_all (mem_exec c') claims (snd (exec_all (mem_exec c') before mem_empty)))))
        \<subseteq> queued_ids (mem_view (snd (exec_all (mem_exec c') before mem_empty)))"
  using sql.claims_exclusive [OF sql.exec_all_inv [OF sql_inv_empty, of c before] assms]
    mem.claims_exclusive [OF mem.exec_all_inv [OF mem_inv_empty, of c' before] assms] by blast

theorem claims_are_exclusive_witness:
  "claimed (fst (exec_all (sql_exec int) [OpClaimNext, OpClaim ''r'', OpClaimNext]
      (snd (exec_all (sql_exec int) [OpCreate [(''id'', PStr ''r''), (''status'', PStr ''queued'')] None] sql_empty)))) = [PStr ''r'']
   \<and> PStr ''r'' \<in> queued_ids (sql_view (snd (exec_all (sql_exec int)
        [OpCreate [(''id'', PStr ''r''), (''status'', PStr ''queued'')] None] sql_empty)))"
proof -
  have "claimed (fst (exec_all (sql_exec int) [OpClaimNext, OpClaim ''r'', OpClaimNext]
      (snd (exec_all (sql_exec int) [OpCreate [(''id'', PStr ''r''), (''status'', PStr ''queued'')] None] sql_empty)))) = [PStr ''r'']"
    by code_simp
  then show ?thesis
    using claims_are_exclusive [of "[OpClaimNext, OpClaim ''r'', OpClaimNext]" int
        "[OpCreate [(''id'', PStr ''r''), (''status'', PStr ''queued'')] None]"]
    by (simp add: is_claim_def)
qed

text \<open>
  C4.  Reachable stores only move forward: extending a script never loses a run, changes the
  content of a run only together with an increase of its revision, and only appends to its log.
\<close>

theorem stores_move_forward:
  "view_le (mem_view (snd (exec_all (mem_exec c) ops mem_empty)))
      (mem_view (snd (exec_all (mem_exec c) (ops @ later) mem_empty)))
   \<and> view_le (sql_view (snd (exec_all (sql_exec c') ops sql_empty)))
      (sql_view (snd (exec_all (sql_exec c') (ops @ later) sql_empty)))"
  using mem.exec_all_monotone [OF mem.exec_all_inv [OF mem_inv_empty, of c ops], of c later]
    sql.exec_all_monotone [OF sql.exec_all_inv [OF sql_inv_empty, of c' ops], of c' later]
  by (simp add: exec_all_append split_def)

text \<open>
  C5.  An operation that raises leaves the repository as it was: every run and every log of the
  store is the one before the call.
\<close>

theorem refused_operation_changes_nothing:
  assumes "fst (mem_exec c op (snd (exec_all (mem_exec c) ops mem_empty))) = Inl e"
  shows "mem_view (snd (mem_exec c op (snd (exec_all (mem_exec c) ops mem_empty))))
      = mem_view (snd (exec_all (mem_exec c) ops mem_empty))
    \<and> sql_view (snd (sql_exec c op (snd (exec_all (sql_exec c) ops sql_empty))))
      = sql_view (snd (exec_all (sql_exec c) ops sql_empty))"
proof -
  let ?m = "snd (exec_all (mem_exec c) ops mem_empty)" and ?s = "snd (exec_all (sql_exec c) ops sql_empty)"
  have inv: "mem_inv ?m" "sql_inv ?s" using mem.exec_all_inv [OF mem_inv_empty] sql.exec_all_inv [OF sql_inv_empty] .
  have "fst (sql_exec c op ?s) = Inl e"
    using mem.exec_result [OF inv(1), of c op] sql.exec_result [OF inv(2), of c op] stores_agree [of c ops c] assms
    by simp
  then show ?thesis
    using mem.refused_unchanged [OF inv(1) assms] sql.refused_unchanged [OF inv(2)] by blast
qed

theorem refused_operation_changes_nothing_witness:
  "mem_view (snd (mem_exec int (OpTransition ''r'' 1 ''queued'' ''preparing'' [] None)
      (snd (exec_all (mem_exec int) [] mem_empty)))) = mem_view (snd (exec_all (mem_exec int) [] mem_empty))"
  by (rule refused_operation_changes_nothing [where
        e = "RunConflictError ''run revision changed: r''", THEN conjunct1]) (simp add: mem_exec_def mem_transition_def
      validate_event_def dhas_any_def RUN_IDENTITY_def mem_empty_def sop_defs sop_simps)

text \<open>
  C6.  Trace events are numbered without gaps: after any script the sequence numbers of a run's
  events, in the order both stores list them, are 1, 2, and so on.
\<close>

theorem event_numbers_gapless:
  "map event_seq (mem_events_list k (snd (exec_all (mem_exec c) ops mem_empty)))
     = map (\<lambda>i. int i + 1) [0..<length (mem_events_list k (snd (exec_all (mem_exec c) ops mem_empty)))]
   \<and> map er_seq (filter (\<lambda>r. er_run r = k) (sq_events (snd (exec_all (sql_exec c') ops sql_empty))))
     = map (\<lambda>i. int i + 1) [0..<length (sql_events_list k (snd (exec_all (sql_exec c') ops sql_empty)))]"
  using mem_events_list_view(2) [OF mem.exec_all_inv [OF mem_inv_empty]]
    sql_events_list_view(2) [OF sql.exec_all_inv [OF sql_inv_empty]] by blast

section \<open>Case attempts\<close>

text \<open>
  C7.  A case is never executed twice at once: after any script of operations on runs and on attempts, on
  either store, two different attempts of the same run, case and trial are not both open (prepared,
  dispatching or indeterminate), and no two attempts of a case share their number.
\<close>

theorem single_open_attempt:
  "attempts_ok (mem_att_view (snd (exec_all (mem_store_exec c) ops mem_empty)))
   \<and> attempts_ok (sql_att_view (snd (exec_all (sql_store_exec c') ops sql_empty)))"
  using mem_all.script_ok [OF att_inv_empty(1)] sql_all.script_ok [OF att_inv_empty(2)] by blast

text \<open>
  C8.  The history of attempts is immutable: extending a script of operations on runs and on attempts never
  removes an attempt, never changes its run, case, trial or number, increases its revision with every
  change, and never touches an attempt that has succeeded, failed or become indeterminate.
\<close>

theorem settled_attempts_final:
  "att_le (mem_att_view (snd (exec_all (mem_store_exec c) ops mem_empty)))
      (mem_att_view (snd (exec_all (mem_store_exec c) (ops @ later) mem_empty)))
   \<and> att_le (sql_att_view (snd (exec_all (sql_store_exec c') ops sql_empty)))
      (sql_att_view (snd (exec_all (sql_store_exec c') (ops @ later) sql_empty)))"
  using mem_all.script_le [OF mem_all.script_inv [OF att_inv_empty(1), of c ops], of c later]
    sql_all.script_le [OF sql_all.script_inv [OF att_inv_empty(2), of c' ops], of c' later]
  by (simp add: exec_all_append split_def)

section \<open>Scoring passes\<close>

text \<open>
  C9.  Publishing a scoring pass in the SQLite store is one transition of the run: after a successful
  append with an expected run revision, the pass just written is the current pass of the run and the
  run is at the next revision; and when the append raises, the database is exactly what it was.
\<close>

theorem scoring_pass_published:
  assumes "sql_inv db" "ap_revision a = Some er"
  shows "case sql_pass_append score_ok clock hex a db of
      (Inl e, t) \<Rightarrow> t = db
    | (Inr d, t) \<Rightarrow> (case ditem_str d ''run_id'' of Inl _ \<Rightarrow> True
        | Inr run \<Rightarrow> sql_pass_current run t = Some (jnorm_dict d)
            \<and> map_option rr_revision (select_run run t) = Some (er + 1))"
  using atomicD [OF sql_pass_append_atomic, of score_ok clock hex a db]
    sql_pass_append_current [OF assms(1) _ assms(2), of score_ok clock hex]
  by (cases "sql_pass_append score_ok clock hex a db") (fastforce split: sum.splits)

theorem scoring_pass_published_witness:
  "case sql_pass_append (\<lambda>_. True) int ''1'' sample_append sample_scoring of
      (Inl e, t) \<Rightarrow> False
    | (Inr d, t) \<Rightarrow> sql_pass_current ''r'' t = Some (jnorm_dict d) \<and> map_option rr_revision (select_run ''r'' t) = Some 2"
proof -
  obtain t where t: "sql_pass_append (\<lambda>_. True) int ''1'' sample_append sample_scoring
      = (Inr [(''run_id'', PStr ''r''), (''id'', PStr ''pass-1''), (''scores'', PList [])], t)"
    using sample_append_result by (metis prod.collapse)
  have "ap_revision sample_append = Some 1" by (simp add: sample_append_def)
  from scoring_pass_published [OF sample_scoring_inv this, of "\<lambda>_. True" int "''1''"] show ?thesis
    by (simp add: t ditem_str_def ditem_def)
qed

section \<open>Conditions and workflows\<close>

text \<open>
  C10.  The compiler of conditions accepts exactly the bounded ones: compilation succeeds if and only
  if the condition is nested at most 8 deep, has at most 64 nodes, and every path it reads starts at
  an allowed root and has at most 8 segments; and the result is then the condition itself, with its
  paths split into segments.
\<close>

theorem condition_compilation_exact:
  "compile_condition c = Inr k \<longleftrightarrow>
     cond_depth c \<le> 8 \<and> cond_nodes c \<le> 64 \<and>
     list_all (\<lambda>p. hd p \<in> {''state'', ''tool_results'', ''step_results''} \<and> length p \<le> 8) (cond_paths c) \<and>
     k = compiled_of c"
  by (simp add: compile_condition_Inr path_allowed_def [abs_def] MAX_CONDITION_DEPTH_def MAX_CONDITION_NODES_def CONDITION_ROOTS_def)

text \<open>
  C11.  Evaluation of a condition the contract accepts agrees with its meaning: it raises exactly when
  a comparison reads a field that is missing, always with the code \<^verbatim>\<open>CONDITION_PATH_MISSING\<close>, and otherwise it
  reports the truth value of the condition.
\<close>

theorem condition_evaluation_correct:
  assumes "condition_ok c"
  shows "case evaluate_condition (compiled_of c) ctx of
      Inl e \<Rightarrow> missing ctx c \<and> (\<exists>m. e = ConditionError ''CONDITION_PATH_MISSING'' m)
    | Inr out \<Rightarrow> \<not> missing ctx c \<and> co_satisfied out = holds ctx c"
  using evaluate_condition_spec [OF assms, of ctx] by (simp add: evaluates_def)

theorem condition_evaluation_correct_witness:
  "case evaluate_condition (compiled_of (Condition ''not'' None PNone [Condition ''eq'' (Some ''state.a'') (PInt 1) []]))
      [(''state'', PDict [(''a'', PBool True)])] of
      Inl e \<Rightarrow> missing [(''state'', PDict [(''a'', PBool True)])]
          (Condition ''not'' None PNone [Condition ''eq'' (Some ''state.a'') (PInt 1) []])
        \<and> (\<exists>m. e = ConditionError ''CONDITION_PATH_MISSING'' m)
    | Inr out \<Rightarrow> \<not> missing [(''state'', PDict [(''a'', PBool True)])]
          (Condition ''not'' None PNone [Condition ''eq'' (Some ''state.a'') (PInt 1) []])
        \<and> co_satisfied out = holds [(''state'', PDict [(''a'', PBool True)])]
          (Condition ''not'' None PNone [Condition ''eq'' (Some ''state.a'') (PInt 1) []])"
  by (rule condition_evaluation_correct) code_simp

text \<open>
  C12.  Compilation makes the round trip: from a compiled condition the source condition can be read back
  (joining the segments of a path gives the path), and its description is the source as it was written.
\<close>

theorem compilation_roundtrip:
  assumes "compile_condition c = Inr k"
  shows "source_of k = c \<and> describe k = written c"
  using assms by (simp add: compile_condition_Inr source_of_compiled describe_compiled)

theorem compilation_roundtrip_witness:
  "source_of (projr (compile_condition (Condition ''exists'' (Some ''state.a'') PNone [])))
     = Condition ''exists'' (Some ''state.a'') PNone []"
proof -
  have "compile_condition (Condition ''exists'' (Some ''state.a'') PNone [])
      = Inr (projr (compile_condition (Condition ''exists'' (Some ''state.a'') PNone [])))"
    by code_simp
  from compilation_roundtrip [OF this] show ?thesis by blast
qed

text \<open>
  C14.  The structural validator of a workflow accepts exactly the well-formed ones: schema version 1, at
  least one and at most 256 steps in all, distinct step identifiers, nesting of depth at most 4, every
  input reference to a step declared earlier, distinct fixtures.
\<close>

theorem workflow_structure_exact:
  "workflow_structure w = None \<longleftrightarrow>
     (let fl = concat (map flatten (wf_steps w)) in
      wf_schema w = 1 \<and> wf_steps w \<noteq> [] \<and> length fl \<le> 256 \<and> distinct (map step_id fl) \<and>
      step_nesting_depth (wf_steps w) 1 \<le> 4 \<and>
      list_all (\<lambda>k. case input_ref (fl ! k) of None \<Rightarrow> True | Some r \<Rightarrow> r \<in> set (map step_id (take k fl))) [0..<length fl] \<and>
      distinct (map fx_id (wf_fixtures w)))"
proof -
  have "(\<forall>k<length fl. \<forall>r. input_ref (fl ! k) = Some r \<longrightarrow> (\<exists>j<k. step_id (fl ! j) = r)) \<longleftrightarrow>
      list_all (\<lambda>k. case input_ref (fl ! k) of None \<Rightarrow> True | Some r \<Rightarrow> r \<in> set (map step_id (take k fl))) [0..<length fl]"
    for fl
  proof -
    have "(\<exists>j<k. step_id (fl ! j) = r) \<longleftrightarrow> r \<in> set (map step_id (take k fl))" if "k < length fl" for k r
      using that nth_image [of k fl] by (auto simp: image_iff Bex_def simp flip: nth_image)
    then show ?thesis by (auto simp: list_all_iff split: option.splits)
  qed
  then show ?thesis
    unfolding workflow_structure_None by (simp add: Let_def MAX_WORKFLOW_STEPS_def MAX_STEP_NESTING_DEPTH_def)
qed

section \<open>The workflow engine\<close>

text \<open>
  C15.  The budgets of a workflow hold whatever the target, the fixture, the clock and the event sink
  do, also when the run ends in an exception: the engine executes at most \<^verbatim>\<open>max_total_steps\<close> steps, its
  turns stay within \<^verbatim>\<open>max_turns\<close>, turns and tool calls together never exceed the steps, and the records of the
  steps carry distinct numbers between 1 and the number of steps.  And the counters are honest: however the
  messages that reach the target and the tool calls that reach the fixture are metered (\<open>sent\<close>, \<open>called\<close>), the run
  sends at most \<^verbatim>\<open>max_turns\<close> messages, and no more messages and tool calls than its counters say.
\<close>

theorem engine_respects_budgets:
  "case run_workflow P cfg w of (r, s) \<Rightarrow>
     eg_step_count s \<le> max 0 (max_total_steps cfg) \<and> eg_turns s \<le> max 0 (max_turns cfg) \<and>
     eg_turns s + eg_tool_calls s \<le> eg_step_count s \<and>
     distinct (map ev_seq (eg_evidence s)) \<and> set (map ev_seq (eg_evidence s)) \<subseteq> {1..eg_step_count s} \<and>
     (case r of Inl _ \<Rightarrow> True
      | Inr oc \<Rightarrow> oc_step_count oc = eg_step_count s \<and> oc_turns oc = eg_turns s \<and>
          oc_tool_calls oc = eg_tool_calls s \<and> oc_steps oc = eg_evidence s) \<and>
     (metered P sent called \<longrightarrow> sent (eg_world s) - sent w \<le> max 0 (max_turns cfg) \<and>
        sent (eg_world s) - sent w \<le> eg_turns s \<and> called (eg_world s) - called w \<le> eg_tool_calls s)"
proof (cases "run_workflow P cfg w")
  case (Pair r s)
  with workflow_ledger [OF Pair] workflow_figures [of P cfg w _ s] workflow_metered [OF _ Pair, of sent called] show ?thesis
    by (auto simp: on_counters_def ledger_def counters_def simp del: set_map split: sum.splits)
qed

theorem engine_respects_budgets_witness:
  "case run_workflow (counted demo_ports) demo_config (0, 0, 0) of (r, s) \<Rightarrow> fst (snd (eg_world s)) = 1 \<and> 1 \<le> eg_turns s \<and> eg_turns s \<le> 2"
proof -
  have "fst (snd (eg_world (snd (run_workflow (counted demo_ports) demo_config (0, 0, 0))))) = 1" "max_turns demo_config = 2"
    by code_simp+
  with engine_respects_budgets [where P = "counted demo_ports" and cfg = demo_config and w = "(0, 0, 0)" and sent = "fst \<circ> snd" and called = "snd \<circ> snd"] counted_metered [of demo_ports]
  show ?thesis by (simp add: split_def)
qed

text \<open>
  C16.  A completed case really completed: when the engine reports \<^verbatim>\<open>completed\<close>, every recorded step
  succeeded, the top-level records are exactly the steps of the workflow in their order, and nothing is
  left to review.
\<close>

theorem completed_means_completed:
  assumes "run_workflow P cfg w = (Inr oc, s)" "oc_status oc = ''completed''"
  shows "(\<forall>e\<in>set (oc_steps oc). ev_status e = ''succeeded'') \<and>
    map ev_step (filter (\<lambda>e. ev_depth e = 1) (oc_steps oc)) = map step_id (wf_steps (cf_workflow cfg)) \<and>
    \<not> oc_needs_review oc"
  by (rule completed_evidence [OF assms])

theorem completed_means_completed_witness:
  "map ev_step (filter (\<lambda>e. ev_depth e = 1) (oc_steps (projr (fst (run_workflow demo_ports demo_config 0)))))
     = [''ask'', ''check'']"
  using completed_means_completed [OF demo_run]
  by (simp add: demo_config_def demo_workflow_def demo_step_def)

text \<open>
  C17.  After a failure under \<^verbatim>\<open>continue_for_evidence\<close> the rest of the run is read-only: in the evidence-only
  mode, replacing the sending of messages, the application of events and every tool that is not denied
  by arbitrary other operations changes nothing, neither the result nor the final state and world.
\<close>

theorem evidence_only_is_read_only:
  assumes "eg_evidence_only s"
  shows "run_sequence (swap_effects send event tool P) cfg depth steps s = run_sequence P cfg depth steps s"
  by (rule evidence_only_isolated [OF assms])

theorem evidence_only_is_read_only_witness:
  "run_sequence (swap_effects (\<lambda>_ _ w. (Inr PNone, w + 100)) (\<lambda>_ _ w. (Inr PNone, w + 100)) (\<lambda>_ _ _ w. (Inr PNone, w + 100)) demo_ports)
     demo_config 1 (wf_steps demo_workflow) ((engine_start demo_ports demo_config 0)\<lparr>eg_evidence_only := True\<rparr>)
   = run_sequence demo_ports demo_config 1 (wf_steps demo_workflow) ((engine_start demo_ports demo_config 0)\<lparr>eg_evidence_only := True\<rparr>)"
  by (rule evidence_only_is_read_only) simp

text \<open>
  C18.  The engine always reports: for a workflow the compiler accepted, with conditions that satisfy
  the contract, and an environment whose event sink and fixture state do not raise and whose actions
  do not report a failure of the evidence boundary, a run returns an outcome, whatever other exceptions
  the target and the fixture raise.
\<close>

theorem engine_returns_an_outcome:
  assumes "compile_workflow hash store draft (cf_workflow cfg) = Inr cw"
    and "list_all condition_ok (wf_completion (cf_workflow cfg))" and "orderly P"
  shows "\<exists>oc s. run_workflow P cfg w = (Inr oc, s)"
  using workflow_returns [OF assms(3) compiled_completion_ok [OF assms(1)]] assms(2) by (auto simp: list_all_iff)

theorem engine_returns_an_outcome_witness:
  "\<exists>oc s. run_workflow demo_ports demo_config 0 = (Inr oc, s)"
proof (rule engine_returns_an_outcome)
  show "compile_workflow (\<lambda>_. ''h'') None False (cf_workflow demo_config)
     = Inr (projr (compile_workflow (\<lambda>_. ''h'') None False (cf_workflow demo_config)))"
    by code_simp
  show "list_all condition_ok (wf_completion (cf_workflow demo_config))" by code_simp
qed (rule demo_orderly)

section \<open>The builtin agent\<close>

text \<open>
  C19.  A budget that was read from a configuration is within its ceilings: between 1 and 64 steps, and
  every limit that is configured is a finite number, positive and at most its ceiling, whatever numbers (integers beyond
  the range of floats, infinities, NaN, booleans) the configuration contains.
\<close>

theorem budget_within_ceilings:
  assumes "from_config now config = Inr b"
  shows "1 \<le> bu_max_steps b \<and> bu_max_steps b \<le> 64 \<and> in_range 256 (bu_max_tool_calls b) \<and>
    float_in_range 3600 (bu_wall_time b) \<and> float_in_range 600 (bu_per_call b) \<and> in_range 1000000 (bu_max_output b) \<and>
    in_range 100000000 (bu_token_limit b) \<and> float_in_range 10000 (bu_cost_limit b)"
  by (rule from_config_bounds [OF assms])

theorem budget_within_ceilings_witness:
  "bu_max_steps (projr (from_config 0 [(''max_steps'', PInt 12), (''wall_time_sec'', PFloat (FFin 30))])) \<le> 64"
proof -
  have "from_config 0 [(''max_steps'', PInt 12), (''wall_time_sec'', PFloat (FFin 30))]
      = Inr (projr (from_config 0 [(''max_steps'', PInt 12), (''wall_time_sec'', PFloat (FFin 30))]))"
    by code_simp
  from budget_within_ceilings [OF this] show ?thesis by blast
qed

text \<open>
  Metering never runs backwards: recording a provider's usage and cost, also when it is rejected
  with an error, never decreases the token or cost totals, never forgets that usage was reported, and
  touches neither the tool-call counter nor the limits; and a tool call recorded after a positive check
  stays within the configured number of calls.
\<close>

theorem metering_monotone:
  "(case record_usage usage cost b of (_, b') \<Rightarrow>
     bu_total_tokens b \<le> bu_total_tokens b' \<and> bu_observed_cost b \<le> bu_observed_cost b' \<and>
     bu_usage_reported b \<le> bu_usage_reported b' \<and> bu_tool_calls b' = bu_tool_calls b \<and> bu_max_steps b' = bu_max_steps b) \<and>
   (if tool_call_allowed b = None then tool_calls_within (record_tool_call b) else True)"
proof (cases "record_usage usage cost b")
  case (Pair r b')
  from usage_monotone [OF Pair] Pair allowed_call_within [of b] show ?thesis by simp
qed

text \<open>
  C21.  Stopping a session is irreversible: once a session was cancelled or closed, it refuses to send
  after any further sequence of begin, cancel, close, termination, failure, event and call operations;
  and a session accepts messages only while it has begun and is active.
\<close>

theorem stopped_session_stays_stopped:
  "(se_cancelled s \<or> se_closed s \<longrightarrow> send_refusal (fold session_exec ops s) \<noteq> None) \<and>
   (send_refusal s = None \<longleftrightarrow> se_begun s \<and> \<not> se_cancelled s \<and> \<not> se_closed s \<and> se_state s = ''active'')"
  using stopped_session_refuses [of s ops] send_refusal_None [of s] by blast

theorem stopped_session_stays_stopped_witness:
  "send_refusal (fold session_exec [STerminate ''final_answer'' None PNone]
     (session_exec SClose (session_exec SActivate (new_session (projr (from_config 0 [])) ''s'' :: nat session)))) \<noteq> None"
  using stopped_session_stays_stopped [of "session_exec SClose (session_exec SActivate (new_session (projr (from_config 0 [])) ''s'' :: nat session))"
      "[STerminate ''final_answer'' None PNone]"]
  by (simp add: session_exec_def close_def activate_def new_session_def st_bind_def sop_simps)

text \<open>
  Generated call identifiers are unique within a session: two calls of \<^verbatim>\<open>note_legacy_call\<close> at different
  points of a session, at whatever steps, return different identifiers.
\<close>

theorem call_identifiers_unique:
  assumes "0 \<le> se_legacy_seq s"
  shows "case note_legacy_call i s of (r, t) \<Rightarrow> fst (note_legacy_call j (fold session_exec ops t)) \<noteq> r"
proof (cases "note_legacy_call i s")
  case (Pair r t)
  from legacy_calls_differ [OF assms Pair, of j ops] Pair show ?thesis by simp
qed

theorem call_identifiers_unique_witness:
  "case note_legacy_call 1 (new_session (projr (from_config 0 [])) ''s'' :: nat session) of
     (r, t) \<Rightarrow> fst (note_legacy_call 1 (fold session_exec [] t)) \<noteq> r"
  by (rule call_identifiers_unique) (simp add: new_session_def)

section \<open>Regressions and selection\<close>

text \<open>
  C23.  The classification of cases is a partition of the cases of both sides: every case of the
  baseline or the candidate is classified exactly once, as added or removed when it is on one side only
  and by its two outcomes otherwise; the counts add up to the number of cases; and the count of new
  failures is positive exactly when some case passed in the baseline and fails in the candidate.
\<close>

theorem regression_partition:
  "distinct (map fst (rg_classification (classify_cases b c))) \<and>
   map_of (rg_classification (classify_cases b c)) k
     = class_of (map_option normalize_outcome (map_of b k)) (map_option normalize_outcome (map_of c k)) \<and>
   (\<Sum>(_, n)\<leftarrow>rg_counts (classify_cases b c). n) = int (card (fst ` set b \<union> fst ` set c)) \<and>
   (0 < count_of (classify_cases b c) ''new_failure'' \<longleftrightarrow>
     (\<exists>k. map_option normalize_outcome (map_of b k) = Some ''pass'' \<and> map_option normalize_outcome (map_of c k) = Some ''fail''))"
  by (rule classify_cases_partition)

text \<open>
  C24.  Repeated trials never hide a failure: when cases have several trials, a case counts as fixed or
  as still passing only if the candidate has at least one trial of it and every trial passed.
\<close>

theorem no_best_of_trials:
  assumes "map_of (rg_classification (fst (classify_with_trials b c))) k \<in> {Some ''fixed'', Some ''persistent_pass''}"
  shows "\<exists>xs. map_of c k = Some (PList xs) \<and> xs \<noteq> [] \<and> set xs \<subseteq> {PStr ''pass''}"
  by (rule trials_pass [OF assms])

theorem no_best_of_trials_witness:
  "\<exists>xs. map_of [(''a'', PList [PStr ''pass'', PStr ''pass''])] ''a'' = Some (PList xs) \<and> xs \<noteq> [] \<and> set xs \<subseteq> {PStr ''pass''}"
  by (rule no_best_of_trials [where b = "[(''a'', PList [PStr ''fail''])]"]) code_simp

text \<open>
  C25.  A selection is a part of the dataset in its order: whatever is selected is a subsequence of the
  cases, with the reported count and digest; and a random selection of \<open>n\<close> cases of a dataset without
  duplicates has exactly \<open>n\<close> cases, for every generator that samples without replacement.
\<close>

theorem selection_is_sound:
  assumes "sampler sample" "select_cases sample digest fresh cases selection = Inr r"
  shows "\<exists>all_ids. dataset_case_ids cases = Inr all_ids \<and> subseq (cs_case_ids r) all_ids \<and>
    cs_count r = length (cs_case_ids r) \<and> cs_sha256 r = digest (cs_case_ids r) \<and>
    (distinct all_ids \<and> cs_mode r = PStr ''random'' \<longrightarrow> (\<exists>d. selection = PDict d \<and> dget d ''count'' = PInt (int (cs_count r))))"
  by (rule select_cases_sound [OF assms])

theorem selection_is_sound_witness:
  "\<exists>all_ids. dataset_case_ids [[(''case_id'', PStr ''a'')], [(''case_id'', PStr ''b'')]] = Inr all_ids \<and>
     subseq (cs_case_ids (projr (select_cases (\<lambda>_ xs n. take n xs) concat ''00000000''
       [[(''case_id'', PStr ''a'')], [(''case_id'', PStr ''b'')]]
       (PDict [(''mode'', PStr ''random''), (''count'', PInt 1)])))) all_ids"
proof -
  have "sampler (\<lambda>_ xs n. take n xs)"
    by (auto simp: sampler_def dest: in_set_takeD)
  moreover have "select_cases (\<lambda>_ xs n. take n xs) concat ''00000000'' [[(''case_id'', PStr ''a'')], [(''case_id'', PStr ''b'')]]
       (PDict [(''mode'', PStr ''random''), (''count'', PInt 1)])
     = Inr (projr (select_cases (\<lambda>_ xs n. take n xs) concat ''00000000'' [[(''case_id'', PStr ''a'')], [(''case_id'', PStr ''b'')]]
       (PDict [(''mode'', PStr ''random''), (''count'', PInt 1)])))"
    by code_simp
  ultimately show ?thesis using selection_is_sound by blast
qed

section \<open>Recorded calls\<close>

text \<open>
  C26.  Every stored model or tool call is well formed, in both stores and after any script of creations
  and transitions: its status is known, it has an outcome exactly when it is settled, and it names a
  scoring job exactly when it is a call of the judge.
\<close>

theorem recorded_calls_well_formed:
  assumes "parser_ok parse"
  shows "(map_of (snd (exec_all (inv_exec (mem_inv_create parse) (mem_inv_transition parse)) ops [])) i = Some d \<longrightarrow> invocation_ok d) \<and>
    (sql_inv_get i (snd (exec_all (inv_exec (sql_inv_create parse) (sql_inv_transition parse)) ops [])) = Some d \<longrightarrow> invocation_ok d)"
  using invocation_parser.stored_calls_ok [OF invocation_parser.intro [OF assms]] by blast

theorem recorded_calls_well_formed_witness:
  "invocation_ok (projr (prepare_invocation plain_parser
     [(''id'', PStr ''i''), (''run_id'', PStr ''r''), (''case_id'', PStr ''c''), (''kind'', PStr ''model'')]))"
  by (rule recorded_calls_well_formed [OF plain.parser, where i = "''i''" and
      ops = "[InvCreate [(''id'', PStr ''i''), (''run_id'', PStr ''r''), (''case_id'', PStr ''c''), (''kind'', PStr ''model'')]]",
      THEN conjunct1, THEN mp])
    code_simp

text \<open>
  C27.  A settled call is final: every transition of it is refused and changes nothing, in both stores,
  whatever revision and status the caller expects.
\<close>

theorem settled_call_is_final:
  assumes "parser_ok parse" "dget d ''status'' = PStr ''settled''"
  shows "(map_of m i = Some d \<longrightarrow>
      isl (fst (mem_inv_transition parse i er es st ch m)) \<and> map_of (snd (mem_inv_transition parse i er es st ch m)) = map_of m) \<and>
    (sql_inv_ok rows \<and> sql_inv_get i rows = Some d \<longrightarrow>
      isl (fst (sql_inv_transition parse i er es st ch rows)) \<and>
      (\<lambda>k. sql_inv_get k (snd (sql_inv_transition parse i er es st ch rows))) = (\<lambda>k. sql_inv_get k rows))"
  using invocation_parser.settled_calls_refuse [OF invocation_parser.intro [OF assms(1)] assms(2)] by blast

theorem settled_call_is_final_witness:
  "isl (fst (mem_inv_transition plain_parser ''i'' 2 ''settled'' ''prepared'' [] [(''i'', [(''status'', PStr ''settled'')])]))"
  using settled_call_is_final [OF plain.parser, of "[(''status'', PStr ''settled'')]" "[(''i'', [(''status'', PStr ''settled'')])]" "''i''"]
  by (simp add: dget_def)

text \<open>
  C28.  The life of a call is bounded: whatever transitions are attempted, in whatever order and with
  whatever expectations, at most two transitions of a call succeed, in both stores.
\<close>

theorem calls_settle_in_two_steps:
  assumes "parser_ok parse"
  shows "transitions_done i ops (fst (exec_all (inv_exec (mem_inv_create parse) (mem_inv_transition parse)) ops [])) \<le> 2 \<and>
    transitions_done i ops (fst (exec_all (inv_exec (sql_inv_create parse) (sql_inv_transition parse)) ops [])) \<le> 2"
  using invocation_parser.call_advances [OF invocation_parser.intro [OF assms]] by blast

theorem calls_settle_in_two_steps_witness:
  "transitions_done ''i'' [InvTransition ''i'' 1 ''prepared'' ''settled'' []]
     (fst (exec_all (inv_exec (mem_inv_create plain_parser) (mem_inv_transition plain_parser))
        [InvTransition ''i'' 1 ''prepared'' ''settled'' []] [])) \<le> 2"
  by (rule calls_settle_in_two_steps [OF plain.parser, THEN conjunct1])

section \<open>The abstract run store\<close>

text \<open>
  C29.  Both run stores refine one specification: every script gives, from the empty stores, the results
  of the abstract repository (runs in the order of their creation, an event log per run), and the stores
  represent its final state.
\<close>

theorem stores_refine_specification:
  "fst (exec_all (mem_exec c) ops mem_empty) = fst (exec_all spec_exec ops (mem_view mem_empty)) \<and>
   mem_view (snd (exec_all (mem_exec c) ops mem_empty)) = snd (exec_all spec_exec ops (mem_view mem_empty)) \<and>
   fst (exec_all (sql_exec c') ops sql_empty) = fst (exec_all spec_exec ops (sql_view sql_empty)) \<and>
   sql_view (snd (exec_all (sql_exec c') ops sql_empty)) = snd (exec_all spec_exec ops (sql_view sql_empty))"
  using mem.exec_all_spec [OF mem_inv_empty, of c ops] sql.exec_all_spec [OF sql_inv_empty, of c' ops] by blast

section \<open>Differences of metrics\<close>

text \<open>
  C30.  The differences of summary metrics are judged exactly although they are computed with rounding: for
  summaries without infinities, the metrics reported as improved are those with a finite value on both sides
  that is, as a float, strictly greater in the candidate, the regressed ones those where it is strictly
  smaller, in the order of the request; missing values and NaN are in neither list.
\<close>

theorem metric_changes_exact:
  assumes "floats_on_grid b" "floats_on_grid c" "no_infinity b" "no_infinity c" "summary_delta b c metrics = Inr d"
  shows "dl_improved d = filter (finite_less b c) metrics \<and> dl_regressed d = filter (finite_less c b) metrics"
  using summary_delta_Inr [OF assms(1,2,5)] metric_less_finite [OF assms(3,4)] metric_less_finite [OF assms(4,3)]
  by (simp cong: filter_cong)

theorem metric_changes_exact_witness:
  "dl_improved (projr (summary_delta [(''acc'', PFloat (FFin (1/4)))] [(''acc'', PFloat (FFin (1/2)))] [''acc'', ''cost'']))
     = filter (finite_less [(''acc'', PFloat (FFin (1/4)))] [(''acc'', PFloat (FFin (1/2)))]) [''acc'', ''cost'']"
  by (rule metric_changes_exact [THEN conjunct1])
    (simp_all add: floats_on_grid_def no_infinity_def summary_delta_def delta_step_def numeric_def dget_def Let_def)

section \<open>External jobs\<close>

text \<open>
  C31.  Records of external jobs are imported exactly once.  Whatever jobs are started, updated and
  imported in whatever order, in either store: no key is imported twice, what was imported never changes
  later, importing the same content again answers with the stored record and changes nothing, and the
  ledger holds one entry for every conflict that was reported.
\<close>

theorem imports_exactly_once:
  fixes C ops
  defines "m \<equiv> exec_all (mem_job_exec C) ops mem_jobs_empty" and "q \<equiv> exec_all (sql_job_exec C) ops sql_jobs_empty"
  shows "import_count key ops (fst m) \<le> 1 \<and> import_count key ops (fst q) \<le> 1 \<and>
    mem_lookup (snd m) \<subseteq>\<^sub>m mem_lookup (snd (exec_all (mem_job_exec C) ops2 (snd m))) \<and>
    sql_lookup (snd q) \<subseteq>\<^sub>m sql_lookup (snd (exec_all (sql_job_exec C) ops2 (snd q))) \<and>
    (case mem_lookup (snd m) key of
       Some (h, _) \<Rightarrow> \<exists>d. mem_job_exec C (JImport now now' key h p) (snd m) = (Inr (OImport (Noop d)), snd m)
     | None \<Rightarrow> True) \<and>
    (case sql_lookup (snd q) key of
       Some (h, _) \<Rightarrow> \<exists>d. sql_job_exec C (JImport now now' key h p) (snd q) = (Inr (OImport (Noop d)), snd q)
     | None \<Rightarrow> True) \<and>
    length (mem_ledger (snd m)) = length (filter is_conflict (fst m)) \<and>
    length (sql_ledger (snd q)) = length (filter is_conflict (fst q))"
proof -
  have m: "mem_jobs_inv (snd m)" unfolding m_def by (rule memj.script_inv [OF mem_countsD(1) [OF counts_empty(1)]])
  have q: "sql_jobs_inv (snd q)" unfolding q_def by (rule sqlj.script_inv [OF sql_countsD(1) [OF counts_empty(2)]])
  have "import_count key ops (fst m) \<le> 1" "import_count key ops (fst q) \<le> 1"
    using memj.imported_once [OF mem_countsD(1) [OF counts_empty(1)], of key ops C]
      sqlj.imported_once [OF sql_countsD(1) [OF counts_empty(2)], of key ops C]
    by (simp_all add: m_def q_def of_bool_def split: if_splits)
  moreover have "mem_lookup (snd m) \<subseteq>\<^sub>m mem_lookup (snd (exec_all (mem_job_exec C) ops2 (snd m)))"
    "sql_lookup (snd q) \<subseteq>\<^sub>m sql_lookup (snd (exec_all (sql_job_exec C) ops2 (snd q)))"
    using memj.record_kept [OF m] sqlj.record_kept [OF q] by (auto simp: map_le_def)
  moreover have "length (mem_ledger (snd m)) = length (filter is_conflict (fst m))"
    "length (sql_ledger (snd q)) = length (filter is_conflict (fst q))"
    using memj.ledger_grows [OF mem_countsD(1) [OF counts_empty(1)], where ops = ops and C = C]
      sqlj.ledger_grows [OF sql_countsD(1) [OF counts_empty(2)], where ops = ops and C = C]
    by (auto simp: m_def q_def mem_ledger_def mem_jobs_empty_def sql_ledger_def sql_jobs_empty_def)
  ultimately show ?thesis using memj.import_same [OF m] sqlj.import_same [OF q] by (auto split: option.split)
qed

text \<open>
  C33.  A job is never started twice: once a job was started, a start of the same job with another
  launch token is refused and changes nothing, after any operations that leave the token alone.
\<close>

theorem jobs_start_once:
  assumes "list_all keeps_token ops" "dget d ''job_id'' = PStr j" "dget d' ''job_id'' = PStr j"
    "dget d' ''launch_token'' \<noteq> dget d ''launch_token''"
    "mem_begin_job now (PDict d) (snd (exec_all (mem_job_exec C) before mem_jobs_empty)) = (Inr out, m)"
    "sql_begin_job C now (PDict d) (snd (exec_all (sql_job_exec C) before sql_jobs_empty)) = (Inr out', q)"
  shows "(\<exists>e. mem_begin_job now' (PDict d') (snd (exec_all (mem_job_exec C) ops m)) = (Inl e, snd (exec_all (mem_job_exec C) ops m))) \<and>
    (\<exists>e. sql_begin_job C now' (PDict d') (snd (exec_all (sql_job_exec C) ops q)) = (Inl e, snd (exec_all (sql_job_exec C) ops q)))"
  using memst.started_once [OF TrueI assms(5,2,3,4,1)]
    sqlst.started_once [OF sql_script_normal assms(6,2,3,4,1)] by blast

theorem jobs_start_once_witness:
  "(\<exists>e. mem_begin_job ''t2'' (PDict (sample_job ''b'')) (snd (mem_begin_job ''t'' (PDict (sample_job ''a'')) mem_jobs_empty))
      = (Inl e, snd (mem_begin_job ''t'' (PDict (sample_job ''a'')) mem_jobs_empty))) \<and>
   (\<exists>e. sql_begin_job plain_coercions ''t2'' (PDict (sample_job ''b'')) (snd (sql_begin_job plain_coercions ''t'' (PDict (sample_job ''a'')) sql_jobs_empty))
      = (Inl e, snd (sql_begin_job plain_coercions ''t'' (PDict (sample_job ''a'')) sql_jobs_empty)))"
proof -
  have ok: "\<not> isl (fst (mem_begin_job ''t'' (PDict (sample_job ''a'')) mem_jobs_empty))"
    "\<not> isl (fst (sql_begin_job plain_coercions ''t'' (PDict (sample_job ''a'')) sql_jobs_empty))" by code_simp+
  show ?thesis
    using jobs_start_once [of "[]" "sample_job ''a''" "''j''" "sample_job ''b''" "''t''" plain_coercions "[]"
        "projr (fst (mem_begin_job ''t'' (PDict (sample_job ''a'')) mem_jobs_empty))"
        "snd (mem_begin_job ''t'' (PDict (sample_job ''a'')) mem_jobs_empty)"
        "projr (fst (sql_begin_job plain_coercions ''t'' (PDict (sample_job ''a'')) sql_jobs_empty))"
        "snd (sql_begin_job plain_coercions ''t'' (PDict (sample_job ''a'')) sql_jobs_empty)" "''t2''"] ok
    by (simp add: prod_eq_iff sample_job_def dget_def)
qed

section \<open>Interactive sessions and commands\<close>

text \<open>
  C34.  A command is delivered at most once: whatever is done with runs, sessions and commands, in
  whatever order and by whatever callers, at most one claim of a command succeeds, in both stores.
\<close>

theorem commands_delivered_once:
  assumes "list_all dict_changes ops"
  shows "deliveries cid ops (fst (mem_live_run clock read_time ops mem_live_empty)) \<le> 1 \<and>
    deliveries cid ops (fst (sql_live_run clock bound read_time ops sql_live_empty)) \<le> 1"
  using meml.delivered_once [OF live_inv_empty(1) assms, of cid clock clock read_time]
    sqll.delivered_once [OF live_inv_empty(2) assms, of cid clock bound clock read_time]
  by (simp add: of_bool_def split: if_splits)

theorem commands_delivered_once_witness:
  "deliveries ''c'' (take 5 sample_script) (fst (mem_live_run (\<lambda>_. 0) sample_time (take 5 sample_script) mem_live_empty)) = 1"
proof (rule antisym)
  show "deliveries ''c'' (take 5 sample_script) (fst (mem_live_run (\<lambda>_. 0) sample_time (take 5 sample_script) mem_live_empty)) \<le> 1"
    by (rule commands_delivered_once [THEN conjunct1]) (simp add: sample_script_def)
  show "1 \<le> deliveries ''c'' (take 5 sample_script) (fst (mem_live_run (\<lambda>_. 0) sample_time (take 5 sample_script) mem_live_empty))"
    by code_simp
qed

text \<open>
  C35.  A dedupe key of a run creates one command: of all requests with the same run and key at most one
  creates a command, in both stores, also when commands are imported by the low-level interface.
\<close>

theorem dedupe_keys_create_once:
  assumes "list_all dict_changes ops"
  shows "creations run key ops (fst (mem_live_run clock read_time ops mem_live_empty)) \<le> 1 \<and>
    creations run key ops (fst (sql_live_run clock bound read_time ops sql_live_empty)) \<le> 1"
  using meml.created_once [OF live_inv_empty(1) assms, of run key clock clock read_time]
    sqll.created_once [OF live_inv_empty(2) assms, of run key clock bound clock read_time]
  by (simp add: of_bool_def split: if_splits)

theorem dedupe_keys_create_once_witness:
  "creations ''r'' ''d'' (take 4 sample_script) (fst (mem_live_run (\<lambda>_. 0) sample_time (take 4 sample_script) mem_live_empty)) = 1"
proof (rule antisym)
  show "creations ''r'' ''d'' (take 4 sample_script) (fst (mem_live_run (\<lambda>_. 0) sample_time (take 4 sample_script) mem_live_empty)) \<le> 1"
    by (rule dedupe_keys_create_once [THEN conjunct1]) (simp add: sample_script_def)
  show "1 \<le> creations ''r'' ''d'' (take 4 sample_script) (fst (mem_live_run (\<lambda>_. 0) sample_time (take 4 sample_script) mem_live_empty))"
    by code_simp
qed

text \<open>
  C36.  Sessions and commands evolve by their rules in both stores, over any further operations: none is
  lost; the identities of a session and a native identity once bound never change; a closed session is
  final; the content of an approval never changes and a decided one is not reopened; the intent and
  binding of a command never change, and its status only moves forward.
\<close>

theorem sessions_evolve:
  fixes clock read_time before bound
  assumes "list_all dict_changes before" "list_all dict_changes ops"
  defines "m \<equiv> snd (mem_live_run clock read_time before mem_live_empty)"
    and "q \<equiv> snd (sql_live_run clock bound read_time before sql_live_empty)"
  shows "evolves (mem_tx clock) m (snd (mem_live_run clock read_time ops m)) \<and>
    evolves (sql_tx clock bound) q (snd (sql_live_run clock bound read_time ops q))"
proof
  show "evolves (mem_tx clock) m (snd (mem_live_run clock read_time ops m))" unfolding m_def
    by (rule conjunct2 [OF meml.script_evolves [OF conjunct1 [OF meml.script_evolves [OF live_inv_empty(1) assms(1)]] assms(2)]])
  show "evolves (sql_tx clock bound) q (snd (sql_live_run clock bound read_time ops q))" unfolding q_def
    by (rule conjunct2 [OF sqll.script_evolves [OF conjunct1 [OF sqll.script_evolves [OF live_inv_empty(2) assms(1)]] assms(2)]])
qed

theorem sessions_evolve_witness:
  "evolves (mem_tx (\<lambda>_. 0)) (snd (mem_live_run (\<lambda>_. 0) sample_time sample_script mem_live_empty))
     (snd (mem_live_run (\<lambda>_. 0) sample_time [STransition ''s'' 2 ''terminal'' [(''state'', PStr ''active'')]]
       (snd (mem_live_run (\<lambda>_. 0) sample_time sample_script mem_live_empty))))"
proof -
  have "list_all dict_changes sample_script" "list_all dict_changes [STransition ''s'' 2 ''terminal'' [(''state'', PStr ''active'')]]"
    by (simp_all add: sample_script_def)
  from sessions_evolve [OF this, THEN conjunct1] show ?thesis .
qed

section \<open>Regression gates\<close>

text \<open>
  C37.  A gate releases exactly what its policy demands: when the evaluation of a valid policy that is not
  diagnostic returns, and no rule about the difference to the baseline meets a baseline value of 0, the
  decision is \<open>PASS\<close> exactly when every blocking rule is satisfied by observed evidence, every required judge is
  qualified and no Boolean quality is asked of a pairwise report; and exactly then the exit code is 0.
\<close>

theorem gate_passes_exactly:
  assumes "evaluate_gate_policy canonical_hash binding_ok policy gi = Inr res" "policy_problem policy = None" "\<not> gp_diagnostic policy"
    "nonzero_baselines policy gi"
  shows "(gt_decision res = PASS \<longleftrightarrow>
      (\<forall>r \<in> set (gp_rules policy). gr_severity r = ''block'' \<longrightarrow>
        demanded (view_pairwise canonical_hash binding_ok (references_pairwise_quality policy) gi) gi r) \<and>
      judges_qualified (view_pairwise canonical_hash binding_ok (references_pairwise_quality policy) gi) gi \<and> \<not> pairwise_unavailable policy gi) \<and>
    (gate_exit_code (gt_decision res) = 0 \<longleftrightarrow> gt_decision res = PASS)"
  using policy_verdict [OF assms(1-3)] exit_code_zero demanded_satisfied [OF assms(4)] by simp

theorem gate_passes_exactly_witness:
  "\<exists>res. evaluate_gate_policy (\<lambda>_. []) (\<lambda>_. False) (sample_policy sample_rules) sample_inputs = Inr res \<and> gate_exit_code (gt_decision res) = 0 \<and>
     demanded (view_pairwise (\<lambda>_. []) (\<lambda>_. False) False sample_inputs) sample_inputs (sample_rule ''delta'' ''baseline_delta'')"
proof -
  obtain res where res: "evaluate_gate_policy (\<lambda>_. []) (\<lambda>_. False) (sample_policy sample_rules) sample_inputs = Inr res" "gt_decision res = PASS"
    using sample_verdicts(1) by (cases "evaluate_gate_policy (\<lambda>_. []) (\<lambda>_. False) (sample_policy sample_rules) sample_inputs") simp_all
  have p: "policy_problem (sample_policy sample_rules) = None" "\<not> references_pairwise_quality (sample_policy sample_rules)"
    "nonzero_baselines (sample_policy sample_rules) sample_inputs" by code_simp+
  have "\<not> gp_diagnostic (sample_policy sample_rules)" by (simp add: sample_policy_def)
  from gate_passes_exactly [OF res(1) p(1) this p(3)] show ?thesis
    using res p(2) by (simp add: sample_policy_def) (simp add: sample_rules_def sample_rule_def)
qed

text \<open>
  Rules only restrict: a valid formal policy with more rules decides at least as severely on the
  same report (pass, quality failure, not comparable, insufficient evidence, execution error, safety
  block, from mild to severe).
\<close>

theorem gate_rules_restrict:
  assumes "evaluate_gate_policy canonical_hash binding_ok p gi = Inr a" "evaluate_gate_policy canonical_hash binding_ok q gi = Inr b" "policy_problem p = None" "policy_problem q = None"
    "\<not> gp_diagnostic p" "\<not> gp_diagnostic q" "set (gp_rules p) \<subseteq> set (gp_rules q)"
    "references_pairwise_quality p = references_pairwise_quality q"
  shows "severity_rank (gt_decision a) \<le> severity_rank (gt_decision b)"
  by (rule verdict_mono [OF assms])

theorem gate_rules_restrict_witness:
  "\<exists>a b. evaluate_gate_policy (\<lambda>_. []) (\<lambda>_. False) (sample_policy sample_rules) sample_inputs = Inr a \<and>
     evaluate_gate_policy (\<lambda>_. []) (\<lambda>_. False) (sample_policy (cost_rule # sample_rules)) sample_inputs = Inr b \<and>
     severity_rank (gt_decision a) \<le> severity_rank (gt_decision b) \<and> gt_decision b = INSUFFICIENT_EVIDENCE"
proof -
  obtain a where a: "evaluate_gate_policy (\<lambda>_. []) (\<lambda>_. False) (sample_policy sample_rules) sample_inputs = Inr a"
    using sample_verdicts(1) by (cases "evaluate_gate_policy (\<lambda>_. []) (\<lambda>_. False) (sample_policy sample_rules) sample_inputs") simp_all
  obtain b where b: "evaluate_gate_policy (\<lambda>_. []) (\<lambda>_. False) (sample_policy (cost_rule # sample_rules)) sample_inputs = Inr b" "gt_decision b = INSUFFICIENT_EVIDENCE"
    using sample_verdicts(2) by (cases "evaluate_gate_policy (\<lambda>_. []) (\<lambda>_. False) (sample_policy (cost_rule # sample_rules)) sample_inputs") simp_all
  have p: "policy_problem (sample_policy sample_rules) = None" "policy_problem (sample_policy (cost_rule # sample_rules)) = None"
    "references_pairwise_quality (sample_policy sample_rules) = references_pairwise_quality (sample_policy (cost_rule # sample_rules))"
    by code_simp+
  have "severity_rank (gt_decision a) \<le> severity_rank (gt_decision b)"
    by (rule gate_rules_restrict [OF a b(1) p(1,2) _ _ _ p(3)]) (auto simp: sample_policy_def)
  then show ?thesis using a b by blast
qed

text \<open>
  C39.  A release on the pairwise metric rests on complete evidence: when a policy that names the metric
  passes, the report carries coherent evidence for the selected pass, every planned pair has explicit roles
  and a value between 0 and 1, and the exact mean of all pairs reaches every threshold of the policy up to
  \<open>2 / 10 ^ 15\<close>, the tolerance of the contract and the rounding of floats.
\<close>

theorem pairwise_release_needs_complete_evidence:
  assumes "evaluate_gate_policy canonical_hash binding_ok policy gi = Inr res"
    and "references_pairwise_quality policy" and "gt_decision res = PASS"
  shows "\<exists>q. gs_quality (gi_snapshot gi) = Some q \<and> pq_source_pass q = rr_pass (gi_ref gi) \<and> pq_pair_values q \<noteq> [] \<and>
    set (map rb_pair (pq_roles q)) = set (map fst (pq_pair_values q)) \<and>
    (\<forall>(k, x) \<in> set (pq_pair_values q). \<exists>y. x = Some y \<and> is_ratio y) \<and>
    (\<exists>r \<in> set (gp_rules policy). gr_kind r = ''metric_threshold'') \<and>
    (\<forall>r \<in> set (gp_rules policy). gr_kind r = ''metric_threshold'' \<longrightarrow> (\<exists>t. gr_threshold r = Some t \<and>
      t \<le> sum_list (map (the \<circ> snd) (pq_pair_values q)) / of_nat (length (pq_pair_values q)) + 2 / 10 ^ 15))"
  by (rule pairwise_pass [OF assms])

theorem pairwise_release_needs_complete_evidence_witness:
  "\<exists>q. gs_quality (gi_snapshot pairwise_inputs) = Some q \<and> set (map rb_pair (pq_roles q)) = set (map fst (pq_pair_values q))"
proof -
  obtain res where res: "evaluate_gate_policy (\<lambda>_. sample_digest) (\<lambda>_. True) (sample_policy [pairwise_rule]) pairwise_inputs = Inr res"
      "gt_decision res = PASS"
    using sample_pairwise_pass by blast
  have "references_pairwise_quality (sample_policy [pairwise_rule])" by code_simp
  from pairwise_release_needs_complete_evidence [OF res(1) this res(2)] show ?thesis by blast
qed

section \<open>Comparing reports\<close>





section \<open>Published records\<close>

text \<open>
  C22.  A cell of an experiment is allocated to one run: over any sequence of publications, claims,
  completions, failures, cancellations, resets and superseding runs, from any state of either store, at
  most one completion of a cell succeeds, and every successful claim after the first one is paid for by a
  successful reset of that cell.
\<close>

theorem cells_allocated_once:
  "count_calls (completed_cell c) ops (fst (exec_all (mem_experiment_exec dumps) ops s)) \<le> 1 \<and>
   count_calls (completed_cell c) ops (fst (exec_all sql_experiment_exec ops db)) \<le> 1 \<and>
   count_calls (claimed_cell c) ops (fst (exec_all (mem_experiment_exec dumps) ops s))
     \<le> 1 + count_calls (reset_cell c) ops (fst (exec_all (mem_experiment_exec dumps) ops s)) \<and>
   count_calls (claimed_cell c) ops (fst (exec_all sql_experiment_exec ops db))
     \<le> 1 + count_calls (reset_cell c) ops (fst (exec_all sql_experiment_exec ops db))"
  by (intro conjI memx.completes_bound sqlx.completes_bound memx.claims_bound sqlx.claims_bound)

text \<open>
  C40.  What was published stays: over any further operations on the stores of gates, baselines, experiments
  and trials, in memory and in SQLite, a gate policy changes at most by its deprecation and a gate result
  not at all; baselines, the history of their default pointers and the older snapshots do not change; the
  specification of an experiment does not change, and a cell keeps its identity and factors, once it is
  closed its run and reason, and its superseding runs; a trial keeps its plan, and a real result of it is
  final, so that only a placeholder of the platform is ever replaced.
\<close>

theorem published_records_frozen:
  "evolved gate_change (mem_gate_view mg) (mem_gate_view (snd (exec_all mem_gate_exec gops mg))) \<and>
   evolved gate_change (sql_gate_view sg) (sql_gate_view (snd (exec_all sql_gate_exec gops sg))) \<and>
   evolved unchanged (mem_baseline_view mb) (mem_baseline_view (snd (exec_all (mem_baseline_exec parse) bops mb))) \<and>
   evolved unchanged (sql_baseline_view sb) (sql_baseline_view (snd (exec_all (sql_baseline_exec parse) bops sb))) \<and>
   evolved unchanged (mem_snapshot_view ms) (mem_snapshot_view (snd (exec_all mem_put_snapshot sops ms))) \<and>
   evolved unchanged (sql_snapshot_view ss) (sql_snapshot_view (snd (exec_all sql_put_snapshot sops ss))) \<and>
   evolved experiment_change (mem_experiment_view mx) (mem_experiment_view (snd (exec_all (mem_experiment_exec dumps) xops mx))) \<and>
   evolved experiment_change (sql_experiment_view sx) (sql_experiment_view (snd (exec_all sql_experiment_exec xops sx))) \<and>
   evolved trial_change (mem_trial_view mt) (mem_trial_view (snd (exec_all (mem_trial_exec canon) tops mt))) \<and>
   evolved trial_change (sql_trial_view (snd (exec_all (sql_trial_exec canon) tops [])))
     (sql_trial_view (snd (exec_all (sql_trial_exec canon) (tops @ tops') [])))"
proof -
  have "result_columns (snd (exec_all (sql_trial_exec canon) tops []))"
    by (rule sqlt.frozen_script [OF result_columns_Nil, THEN conjunct1])
  from sqlt.frozen [OF this] have "evolved trial_change (sql_trial_view (snd (exec_all (sql_trial_exec canon) tops [])))
      (sql_trial_view (snd (exec_all (sql_trial_exec canon) (tops @ tops') [])))"
    by (simp add: exec_all_append split_def)
  then show ?thesis
    by (simp only: memg.frozen sqlg.frozen memb.frozen sqlb.frozen mems.frozen sqls.frozen memx.frozen sqlx.frozen memt.frozen simp_thms)
qed

section \<open>Experiments\<close>

text \<open>
  C13.  The matrix of an experiment is exact: a valid specification without blank values expands into
  exactly as many cells as its count says, all different, namely one for every choice of declared values in
  canonical order and every repeat; and when the hash tells the identities of its cells apart, the
  specification and its cells are accepted for publication as they are.
\<close>

theorem experiment_matrix_exact:
  assumes "spec_ok spec" "no_blank_values spec" "inj_on canonical_hash (identities spec)" "\<And>v. canonical_hash v \<noteq> []"
  shows "\<exists>m. expand_matrix spec = Inr m \<and> int (length m) = cell_count spec \<and> distinct m \<and> (\<forall>c. c \<in> set m \<longleftrightarrow> declared_cell spec c) \<and>
    validate_publication (dump_spec spec) (map (cell_payload canonical_hash spec) m) = Inr (dump_spec spec, map (cell_payload canonical_hash spec) m)"
proof -
  obtain m where m: "expand_matrix spec = Inr m" using expand_Inr [OF assms(1,2)] by blast
  then show ?thesis
    using cell_count_length [OF assms(1) m] distinct_matrix [OF assms(1) m] set_matrix [OF assms(1) m] publication_accepted [OF assms(1) m assms(3,4)]
    by auto
qed

theorem experiment_matrix_exact_witness:
  "\<exists>m. expand_matrix sample_spec = Inr m \<and> int (length m) = cell_count sample_spec \<and>
    validate_publication (dump_spec sample_spec) (map (cell_payload sample_hash sample_spec) m) =
      Inr (dump_spec sample_spec, map (cell_payload sample_hash sample_spec) m)"
  using experiment_matrix_exact [OF sample_matrix(1,2) sample_hash_ok] by blast

text \<open>
  C32.  Experiments survive crashes.  Take any sequence of creations, allocations, cancellations and retries of
  experiments, with resources that change in between, with the process dying at any point of any call, and
  with any operations of others on the run store.  Then a cell that is allocated, or that names a run at all,
  names the run of its identifier, and that run is in the store.  And an allocation that passes the checks of
  admission and is not interrupted returns, leaves no cell of the experiment pending or allocating, has
  allocated or failed the open cells as it reports, and has touched no other cell.  It is assumed that the checks before the creation
  of a run do not report a conflict of runs (\<open>script_quiet\<close>) and that hashes have their prefix.
\<close>

theorem experiments_survive_crashes:
  assumes "script_quiet script" "script_quiet script'"
  shows "cells_owned (mem_stores clock dumps) (svc_script (mem_stores clock dumps) script (empty_world mem_experiments_empty mem_empty)) \<and>
    cells_owned (sql_stores clock') (svc_script (sql_stores clock') script' (empty_world sql_experiments_empty sql_empty)) \<and>
    (calls_quiet P \<and> admitted (mem_stores clock dumps) P e v (svc_script (mem_stores clock dumps) script (empty_world mem_experiments_empty mem_empty)) \<longrightarrow>
      recovered (mem_stores clock dumps) P e v (svc_script (mem_stores clock dumps) script (empty_world mem_experiments_empty mem_empty))) \<and>
    (calls_quiet P' \<and> admitted (sql_stores clock') P' e v (svc_script (sql_stores clock') script' (empty_world sql_experiments_empty sql_empty)) \<longrightarrow>
      recovered (sql_stores clock') P' e v (svc_script (sql_stores clock') script' (empty_world sql_experiments_empty sql_empty)))"
  using memw.safe_owned [OF memw.script_safe [OF assms(1) mem_safe_empty]] sqlw.safe_owned [OF sqlw.script_safe [OF assms(2) sql_safe_empty]]
    memw.recovery [OF _ memw.script_safe [OF assms(1) mem_safe_empty]] sqlw.recovery [OF _ sqlw.script_safe [OF assms(2) sql_safe_empty]] by blast

theorem experiments_survive_crashes_witness:
  "cells_owned mem_sample (svc_script mem_sample [(sample_service, Some 3, SCreate [] None None)] mem_start) \<and>
   recovered mem_sample sample_service ''exp'' ''1'' (svc_script mem_sample [(sample_service, Some 3, SCreate [] None None)] mem_start) \<and>
   recovered (sql_stores (\<lambda>_. 0)) sample_service ''exp'' ''1''
     (svc_script (sql_stores (\<lambda>_. 0)) [(sample_service, Some 3, SCreate [] None None)] (empty_world sql_experiments_empty sql_empty))"
proof -
  have "admitted mem_sample sample_service ''exp'' ''1'' (svc_script mem_sample [(sample_service, Some 3, SCreate [] None None)] mem_start)"
    by code_simp
  moreover have "admitted (sql_stores (\<lambda>_. 0)) sample_service ''exp'' ''1''
      (svc_script (sql_stores (\<lambda>_. 0)) [(sample_service, Some 3, SCreate [] None None)] (empty_world sql_experiments_empty sql_empty))"
    by code_simp
  ultimately show ?thesis
    using experiments_survive_crashes [of "[(sample_service, Some 3, SCreate [] None None)]" "[(sample_service, Some 3, SCreate [] None None)]"
        "\<lambda>_. 0" "\<lambda>_. []" "\<lambda>_. 0" sample_service "''exp''" "''1''" sample_service]
    by (simp add: script_quiet_def sample_quiet)
qed

end
